(* ===== verification/Platform_Prelude.thy ===== *)
theory Platform_Prelude
  imports Main "HOL-Library.AList" "HOL-Library.Sublist"
begin

text \<open>
  The shared vocabulary of the development.

  \<^item> Results: an operation of the program that may raise returns \<open>'e + 'a\<close>, with
    \<open>Inl\<close> the exception. \<open>res_bind\<close> is sequencing; a raise inside a database transaction
    rolls the transaction back, so \<open>Inl\<close> carries no new state.
  \<^item> Tables: a table is the list of its rows. \<open>update_where\<close> is SQL's
    \<^verbatim>\<open>UPDATE ... WHERE ... SET\<close>, \<open>affected\<close> its row count
    (\<^verbatim>\<open>platform_shared/sql.py\<close>, \<^verbatim>\<open>affected_rows\<close>), \<open>row_where\<close> is
    \<^verbatim>\<open>session.scalar(select(...).where(...))\<close>.
  \<^item> Text: \<open>py_strip\<close> is \<^verbatim>\<open>str.strip\<close> and \<open>py_int_str\<close> is
    \<^verbatim>\<open>str(int)\<close>. A \<open>char\<close> stands for a code point below 256.
  \<^item> Interleaving: \<open>interleaved\<close> runs transactions that read one snapshot and write a later
    state, with any number of other transactions committed in between; the locales
    \<open>optimistic_txn\<close> and \<open>conserving_txn\<close> are the contract such transactions promise and
    what follows from it for whole executions.
\<close>

named_theorems table_simps \<open>rewriting with the table operations\<close>
named_theorems res_simps \<open>inversion of results\<close>

section \<open>Results\<close>

fun res_bind :: "'e + 'a \<Rightarrow> ('a \<Rightarrow> 'e + 'b) \<Rightarrow> 'e + 'b" where
  "res_bind (Inl e) f = Inl e"
| "res_bind (Inr x) f = f x"

lemma res_bind_Inr_iff [res_simps]:
  "res_bind m f = Inr y \<longleftrightarrow> (\<exists>x. m = Inr x \<and> f x = Inr y)"
  by (cases m) auto

lemma res_bind_InrE:
  assumes "res_bind m f = Inr y"
  obtains x where "m = Inr x" and "f x = Inr y"
  using assms by (auto simp: res_simps)

lemma not_isl_pair: "\<not> isl m \<Longrightarrow> \<exists>x y. m = Inr (x, y)"
  by (cases m) auto

lemma if_Inl_Inr_iff [res_simps]:
  "(if c then Inl e else k) = Inr y \<longleftrightarrow> \<not> c \<and> k = Inr y"
  by simp

lemma res_bind_cong [fundef_cong]:
  "m = m' \<Longrightarrow> (\<And>x. m' = Inr x \<Longrightarrow> f x = f' x) \<Longrightarrow> res_bind m f = res_bind m' f'"
  by (cases m') auto

section \<open>Tables\<close>

definition update_where :: "('r \<Rightarrow> bool) \<Rightarrow> ('r \<Rightarrow> 'r) \<Rightarrow> 'r list \<Rightarrow> 'r list" where
  "update_where P f rows = map (\<lambda>r. if P r then f r else r) rows"

definition affected :: "('r \<Rightarrow> bool) \<Rightarrow> 'r list \<Rightarrow> nat" where
  "affected P rows = length (filter P rows)"

definition row_where :: "('r \<Rightarrow> bool) \<Rightarrow> 'r list \<Rightarrow> 'r option" where
  "row_where P rows = find P rows"

definition tally :: "('r \<Rightarrow> int) \<Rightarrow> 'r list \<Rightarrow> int" where
  "tally f rows = sum_list (map f rows)"

section \<open>Text\<close>

definition py_space :: "char \<Rightarrow> bool" where
  "py_space c \<longleftrightarrow> (let n = (of_char c :: nat) in
     9 \<le> n \<and> n \<le> 13 \<or> 28 \<le> n \<and> n \<le> 32 \<or> n = 133 \<or> n = 160)"

definition py_strip :: "string \<Rightarrow> string" where
  "py_strip s = rev (dropWhile py_space (rev (dropWhile py_space s)))"

fun nat_digits :: "nat \<Rightarrow> string" where
  "nat_digits n =
     (if n < 10 then [char_of (48 + n)] else nat_digits (n div 10) @ [char_of (48 + n mod 10)])"

declare nat_digits.simps [simp del]

definition py_int_str :: "int \<Rightarrow> string" where
  "py_int_str i = (if i < 0 then CHR ''-'' # nat_digits (nat (- i)) else nat_digits (nat i))"

definition py_falsy :: "string option \<Rightarrow> bool" where
  "py_falsy v \<longleftrightarrow> v = None \<or> v = Some ''''"

section \<open>Transactions that read one state and write a later one\<close>

text \<open>
  \<open>txn s t u\<close>: a transaction whose reads saw the committed state \<open>s\<close> and whose conditional
  updates ran against the committed state \<open>t\<close>, leaving \<open>u\<close>. Between the two any other
  transactions may have committed, which is the middle premise of \<open>commit\<close>.
\<close>

inductive interleaved :: "('s \<Rightarrow> 's \<Rightarrow> 's \<Rightarrow> bool) \<Rightarrow> 's \<Rightarrow> 's \<Rightarrow> bool"
  for txn :: "'s \<Rightarrow> 's \<Rightarrow> 's \<Rightarrow> bool" where
  start: "interleaved txn s s"
| commit: "interleaved txn s0 s \<Longrightarrow> interleaved txn s t \<Longrightarrow> txn s t u \<Longrightarrow> interleaved txn s0 u"

section \<open>Lemmas on tables\<close>

lemma tally_simps [table_simps, simp]:
  "tally f [] = 0"
  "tally f (r # rows) = f r + tally f rows"
  "tally f (xs @ ys) = tally f xs + tally f ys"
  by (simp_all add: tally_def)

lemma tally_nonneg: "(\<And>r. r \<in> set rows \<Longrightarrow> 0 \<le> f r) \<Longrightarrow> 0 \<le> tally f rows"
  by (induction rows) (auto simp: add_nonneg_nonneg)

lemma tally_member_le:
  "r \<in> set rows \<Longrightarrow> (\<And>x. x \<in> set rows \<Longrightarrow> 0 \<le> f x) \<Longrightarrow> f r \<le> tally f rows"
proof (induction rows)
  case (Cons a rows)
  show ?case
  proof (cases "r = a")
    case True
    have "0 \<le> tally f rows" by (rule tally_nonneg) (simp add: Cons.prems)
    with True show ?thesis by simp
  next
    case False
    with Cons have "f r \<le> tally f rows" by simp
    with Cons.prems(2)[of a] show ?thesis by simp
  qed
qed simp

lemma tally_cong: "(\<And>r. r \<in> set rows \<Longrightarrow> f r = g r) \<Longrightarrow> tally f rows = tally g rows"
  by (induction rows) auto

lemma update_where_simps [table_simps, simp]:
  "update_where P f [] = []"
  "update_where P f (r # rows) = (if P r then f r else r) # update_where P f rows"
  "update_where P f (xs @ ys) = update_where P f xs @ update_where P f ys"
  by (simp_all add: update_where_def)

lemma length_update_where [simp]: "length (update_where P f rows) = length rows"
  by (simp add: update_where_def)

lemma set_update_where:
  "r \<in> set (update_where P f rows) \<longleftrightarrow>
     (\<exists>x \<in> set rows. r = (if P x then f x else x))"
  by (auto simp: update_where_def)

lemma update_where_hit: "r \<in> set rows \<Longrightarrow> P r \<Longrightarrow> f r \<in> set (update_where P f rows)"
  by (auto simp: set_update_where)

lemma update_where_miss: "r \<in> set rows \<Longrightarrow> \<not> P r \<Longrightarrow> r \<in> set (update_where P f rows)"
  by (auto simp: set_update_where)

lemma update_where_none: "affected P rows = 0 \<Longrightarrow> update_where P f rows = rows"
  by (induction rows) (auto simp: affected_def split: if_splits)

lemma map_update_where:
  "(\<And>r. P r \<Longrightarrow> k (f r) = k r) \<Longrightarrow> map k (update_where P f rows) = map k rows"
  by (simp add: update_where_def)

lemma tally_update_where_same:
  "(\<And>r. r \<in> set rows \<Longrightarrow> P r \<Longrightarrow> g (f r) = g r) \<Longrightarrow> tally g (update_where P f rows) = tally g rows"
  by (induction rows) auto

text \<open>An update that hits one row changes a sum by that row's change.\<close>

lemma affected_oneE:
  assumes "affected P rows = 1"
  obtains r where "r \<in> set rows" and "P r"
    and "\<And>g f. tally g (update_where P f rows) = tally g rows - g r + g (f r)"
    and "\<And>x. x \<in> set rows \<Longrightarrow> P x \<Longrightarrow> x = r"
proof -
  from assms have "filter P rows \<noteq> []" by (auto simp: affected_def)
  then obtain r where r: "r \<in> set rows" "P r" by (auto simp: filter_empty_conv)
  then obtain xs ys where rows: "rows = xs @ r # ys" by (auto dest: split_list)
  with assms r have "filter P xs = []" and "filter P ys = []"
    by (simp_all add: affected_def)
  then have none: "affected P xs = 0" "affected P ys = 0"
    and others: "\<And>x. x \<in> set rows \<Longrightarrow> P x \<Longrightarrow> x = r"
    by (auto simp: affected_def filter_empty_conv rows)
  have "tally g (update_where P f rows) = tally g rows - g r + g (f r)" for g f
    using r(2) by (simp add: rows update_where_none [OF none(1)] update_where_none [OF none(2)])
  with r others that show thesis by blast
qed

lemma affected_key_le_one:
  assumes "distinct (map k rows)" and "\<And>r. P r \<Longrightarrow> k r = c"
  shows "affected P rows \<le> 1"
  using assms(1)
proof (induction rows)
  case (Cons a rows)
  then have IH: "affected P rows \<le> 1" by simp
  show ?case
  proof (cases "P a")
    case True
    with assms(2) have "k a = c" by simp
    with Cons.prems have "\<forall>r \<in> set rows. k r \<noteq> c" by (auto simp: image_iff)
    with assms(2) have "\<forall>r \<in> set rows. \<not> P r" by blast
    then have "filter P rows = []" by simp
    with True show ?thesis by (simp add: affected_def)
  qed (use IH in \<open>simp add: affected_def\<close>)
qed (simp add: affected_def)

lemma row_where_SomeD: "row_where P rows = Some r \<Longrightarrow> r \<in> set rows \<and> P r"
  by (auto simp: row_where_def find_Some_iff in_set_conv_nth)

lemma row_where_NoneD: "row_where P rows = None \<Longrightarrow> r \<in> set rows \<Longrightarrow> \<not> P r"
  by (auto simp: row_where_def find_None_iff)

lemma row_where_hit: "r \<in> set rows \<Longrightarrow> P r \<Longrightarrow> \<exists>x. row_where P rows = Some x"
  by (induction rows) (auto simp: row_where_def)

lemma row_where_simps [simp]:
  "row_where P [] = None"
  "row_where P (r # rows) = (if P r then Some r else row_where P rows)"
  by (simp_all add: row_where_def)

lemma row_where_key:
  assumes "distinct (map k rows)" and "r \<in> set rows"
  shows "row_where (\<lambda>x. k x = k r) rows = Some r"
  using assms by (induction rows) (auto simp: image_iff)

lemma distinct_keyD:
  "distinct (map k rows) \<Longrightarrow> x \<in> set rows \<Longrightarrow> y \<in> set rows \<Longrightarrow> k x = k y \<Longrightarrow> x = y"
  by (auto simp: distinct_map inj_on_def)

text \<open>An update addressed by a key is an update of the one row with that key.\<close>

lemma update_where_single:
  assumes "distinct (map k rows)" and "r \<in> set rows" and "P r"
    and "\<And>x. x \<in> set rows \<Longrightarrow> P x \<Longrightarrow> k x = k r"
  shows "update_where P f rows = update_where (\<lambda>x. k x = k r) (\<lambda>_. f r) rows"
proof -
  have "(if P x then f x else x) = (if k x = k r then f r else x)" if "x \<in> set rows" for x
  proof (cases "k x = k r")
    case True
    with assms(1,2) that have "x = r" by (auto dest: distinct_keyD)
    with assms(3) show ?thesis by simp
  next
    case False
    with assms(4) that show ?thesis by auto
  qed
  then show ?thesis unfolding update_where_def by (intro map_cong) auto
qed

lemma row_where_update_single:
  assumes "r \<in> set rows" and "k r' = k r"
  shows "row_where (\<lambda>x. k x = k r) (update_where (\<lambda>x. k x = k r) (\<lambda>_. r') rows) = Some r'"
  using assms by (induction rows) auto

lemma row_where_update_other:
  assumes "\<And>x. P x \<Longrightarrow> k (f x) = k x" and "\<And>x. P x \<Longrightarrow> k x \<noteq> i"
  shows "row_where (\<lambda>x. k x = i) (update_where P f rows) = row_where (\<lambda>x. k x = i) rows"
  using assms by (induction rows) auto

lemma update_where_twice:
  assumes "k r' = i"
  shows "update_where (\<lambda>x. k x = i) f (update_where (\<lambda>x. k x = i) (\<lambda>_. r') rows) =
    update_where (\<lambda>x. k x = i) (\<lambda>_. f r') rows"
  using assms by (induction rows) auto

lemma affected_key_one:
  assumes "distinct (map k rows)" and "r \<in> set rows"
  shows "affected (\<lambda>x. k x = k r) rows = 1"
proof -
  have "filter (\<lambda>x. k x = k r) rows \<noteq> []" using assms(2) by (auto simp: filter_empty_conv)
  then have "affected (\<lambda>x. k x = k r) rows \<noteq> 0" by (simp add: affected_def)
  moreover have "affected (\<lambda>x. k x = k r) rows \<le> 1"
    by (rule affected_key_le_one [OF assms(1)]) simp
  ultimately show ?thesis by simp
qed

lemma tally_update_single:
  assumes "distinct (map k rows)" and "r \<in> set rows"
  shows "tally g (update_where (\<lambda>x. k x = k r) f rows) = tally g rows - g r + g (f r)"
proof -
  from assms(2) obtain xs ys where rows: "rows = xs @ r # ys" by (auto dest: split_list)
  have "update_where (\<lambda>x. k x = k r) f zs = zs" if "\<forall>z \<in> set zs. k z \<noteq> k r" for zs
    unfolding update_where_def using that by (intro map_idI) auto
  moreover have "\<forall>z \<in> set xs. k z \<noteq> k r" and "\<forall>z \<in> set ys. k z \<noteq> k r"
    using assms(1) by (force simp: rows image_iff)+
  ultimately show ?thesis by (simp add: rows)
qed

lemma tally_zero: "(\<And>r. r \<in> set rows \<Longrightarrow> f r = 0) \<Longrightarrow> tally f rows = 0"
  by (induction rows) auto

lemma tally_key:
  assumes "distinct (map k rows)" and "r \<in> set rows"
  shows "tally (\<lambda>x. if k x = k r then g x else 0) rows = g r"
proof -
  from assms(2) obtain xs ys where rows: "rows = xs @ r # ys" by (auto dest: split_list)
  have "\<forall>z \<in> set xs. k z \<noteq> k r" and "\<forall>z \<in> set ys. k z \<noteq> k r"
    using assms(1) by (force simp: rows image_iff)+
  then show ?thesis by (simp add: rows tally_zero)
qed

section \<open>Lemmas on text\<close>

lemma py_strip_idem [simp]: "py_strip (py_strip s) = py_strip s"
proof -
  let ?d = "dropWhile py_space"
  have ends: "?d xs = xs" if "xs = [] \<or> \<not> py_space (hd xs)" for xs
    using that by (cases xs) auto
  have front: "?d s = [] \<or> \<not> py_space (hd (?d s))"
    by (metis hd_dropWhile)
  have inner: "py_strip s = [] \<or> \<not> py_space (hd (py_strip s))"
  proof (cases "py_strip s")
    case (Cons c cs)
    have "suffix (?d (rev (?d s))) (rev (?d s))"
      by (rule suffix_dropWhile)
    then have "prefix (py_strip s) (?d s)"
      by (simp add: py_strip_def suffix_to_prefix)
    then obtain zs where "?d s = c # zs"
      using Cons by (auto simp: prefix_def)
    with front Cons show ?thesis by simp
  qed simp
  have rear: "?d (rev (py_strip s)) = rev (py_strip s)"
  proof (rule ends)
    have "?d (rev (?d s)) = [] \<or> \<not> py_space (hd (?d (rev (?d s))))"
      by (metis hd_dropWhile)
    then show "rev (py_strip s) = [] \<or> \<not> py_space (hd (rev (py_strip s)))"
      unfolding py_strip_def rev_rev_ident .
  qed
  show ?thesis
    using ends [OF inner] rear by (subst py_strip_def) simp
qed

section \<open>The contract of a transaction, and what whole executions inherit\<close>

text \<open>
  \<open>frame s t\<close> is what a later state keeps of an earlier one (immutable columns, append-only
  logs, terminal statuses). A transaction may rely on the frame between the snapshot it read
  and the state it updates.
\<close>

locale optimistic_txn =
  fixes txn :: "'s \<Rightarrow> 's \<Rightarrow> 's \<Rightarrow> bool"
    and inv :: "'s \<Rightarrow> bool"
    and frame :: "'s \<Rightarrow> 's \<Rightarrow> bool"
  assumes frame_refl: "frame s s"
    and frame_trans: "frame s t \<Longrightarrow> frame t u \<Longrightarrow> frame s u"
    and txn_inv: "inv s \<Longrightarrow> inv t \<Longrightarrow> frame s t \<Longrightarrow> txn s t u \<Longrightarrow> inv u"
    and txn_frame: "inv s \<Longrightarrow> inv t \<Longrightarrow> frame s t \<Longrightarrow> txn s t u \<Longrightarrow> frame t u"
begin

lemma execution:
  assumes "interleaved txn s t" and "inv s"
  shows "inv t \<and> frame s t"
  using assms
proof (induction rule: interleaved.induct)
  case (start s)
  then show ?case by (simp add: frame_refl)
next
  case (commit s0 s t u)
  then have s: "inv s" "frame s0 s" and t: "inv t" "frame s t" by auto
  from s t commit.hyps(3) have "inv u" and "frame t u"
    by (auto intro: txn_inv txn_frame)
  with s t show ?case by (blast intro: frame_trans)
qed

lemmas execution_inv = execution [THEN conjunct1]
lemmas execution_frame = execution [THEN conjunct2]

end

text \<open>A transaction that also leaves a quantity unchanged, for every key it is counted by.\<close>

locale conserving_txn = optimistic_txn +
  fixes total :: "'a \<Rightarrow> 'k \<Rightarrow> int"
  assumes txn_total: "inv s \<Longrightarrow> inv t \<Longrightarrow> frame s t \<Longrightarrow> txn s t u \<Longrightarrow> total u k = total t k"
begin

lemma execution_total:
  assumes "interleaved txn s t" and "inv s"
  shows "total t k = total s k"
  using assms
proof (induction rule: interleaved.induct)
  case (commit s0 s t u)
  then have "inv s" by (blast intro: execution_inv)
  with commit have t: "inv t" "frame s t" by (blast intro: execution_inv execution_frame)+
  have "total u k = total t k"
    using \<open>inv s\<close> t commit.hyps(3) by (rule txn_total)
  with commit \<open>inv s\<close> show ?case by simp
qed simp

end

lemma interleaved_trans:
  assumes "interleaved txn t u" and "interleaved txn s t"
  shows "interleaved txn s u"
  using assms by (induction rule: interleaved.induct) (auto intro: interleaved.commit)

end
