(* ===== verification/Platform_Domain.thy ===== *)
theory Platform_Domain
  imports Complex_Main Platform_Prelude
begin

text \<open>
  The rows of \<^verbatim>\<open>packages/domain/production_domain/models.py\<close> that several components
  share, restricted to the columns those components read or write, and the JSON values that
  pass through them. \<open>workspace_ok\<close> is the conjunction of the table's CHECK constraints; the
  components prove that their updates keep it, so the database never has to refuse them.
\<close>

datatype pyfloat = Finite rat | PosInf | NegInf | NaN

datatype json =
    JNull
  | JBool bool
  | JInt int
  | JFloat pyfloat
  | JStr string
  | JList "json list"
  | JObj "(string \<times> json) list"

text \<open>\<^verbatim>\<open>dict.get\<close>: a missing key is \<^verbatim>\<open>None\<close>.\<close>

definition json_get :: "(string \<times> json) list \<Rightarrow> string \<Rightarrow> json" where
  "json_get d k = (case map_of d k of None \<Rightarrow> JNull | Some v \<Rightarrow> v)"

text \<open>\<^verbatim>\<open>{**base, **extra}\<close>: a key keeps its first position and takes its last value.\<close>

definition py_dict_merge :: "(string \<times> 'v) list \<Rightarrow> (string \<times> 'v) list \<Rightarrow> (string \<times> 'v) list" where
  "py_dict_merge base extra = fold (\<lambda>(k, v) d. AList.update k v d) extra base"

lemma map_of_py_dict_merge:
  "k \<notin> fst ` set extra \<Longrightarrow> map_of (py_dict_merge base extra) k = map_of base k"
  unfolding py_dict_merge_def
  by (induction extra arbitrary: base) (auto simp: update_conv')

record workspace =
  ws_id :: string
  ws_status :: string
  ws_plan_tier :: string
  credit_balance :: int
  max_storage_bytes :: int
  used_storage_bytes :: int
  reserved_storage_bytes :: int

definition workspace_ok :: "workspace \<Rightarrow> bool" where
  "workspace_ok w \<longleftrightarrow>
     credit_balance w \<ge> 0 \<and>
     max_storage_bytes w > 0 \<and>
     used_storage_bytes w \<ge> 0 \<and>
     reserved_storage_bytes w \<ge> 0 \<and>
     used_storage_bytes w + reserved_storage_bytes w \<le> max_storage_bytes w"

record project =
  pr_id :: string
  pr_workspace_id :: "string option"
  pr_status :: string

record generation_job =
  job_id :: string
  job_project_id :: string
  job_provider :: string
  job_model :: string
  job_generation_type :: string
  job_request_hash :: string
  job_workspace_credit_required :: bool
  job_quoted_credits :: int

lemma credit_balance_update_eq:
  "credit_balance_update f w = w\<lparr>credit_balance := f (credit_balance w)\<rparr>"
  by (cases w) simp

text \<open>
  The statuses of the reservation tables. They are strings in the database; the constants keep
  them from being compared letter by letter in every proof.
\<close>

definition RESERVED :: string where "RESERVED = ''RESERVED''"
definition SETTLED :: string where "SETTLED = ''SETTLED''"
definition REFUNDED :: string where "REFUNDED = ''REFUNDED''"
definition RECONCILIATION_REQUIRED :: string where "RECONCILIATION_REQUIRED = ''RECONCILIATION_REQUIRED''"
definition RELEASED :: string where "RELEASED = ''RELEASED''"
definition RELEASED_INVALID :: string where "RELEASED_INVALID = ''RELEASED_INVALID''"
definition UNCERTAIN :: string where "UNCERTAIN = ''UNCERTAIN''"

lemmas status_defs =
  RESERVED_def SETTLED_def REFUNDED_def RECONCILIATION_REQUIRED_def RELEASED_def RELEASED_INVALID_def UNCERTAIN_def

lemma status_distinct:
  "RESERVED \<noteq> SETTLED"
  "RESERVED \<noteq> REFUNDED"
  "RESERVED \<noteq> RECONCILIATION_REQUIRED"
  "RESERVED \<noteq> RELEASED"
  "RESERVED \<noteq> RELEASED_INVALID"
  "RESERVED \<noteq> UNCERTAIN"
  "SETTLED \<noteq> REFUNDED"
  "SETTLED \<noteq> RECONCILIATION_REQUIRED"
  "SETTLED \<noteq> RELEASED"
  "SETTLED \<noteq> RELEASED_INVALID"
  "SETTLED \<noteq> UNCERTAIN"
  "REFUNDED \<noteq> RECONCILIATION_REQUIRED"
  "REFUNDED \<noteq> RELEASED"
  "REFUNDED \<noteq> RELEASED_INVALID"
  "REFUNDED \<noteq> UNCERTAIN"
  "RECONCILIATION_REQUIRED \<noteq> RELEASED"
  "RECONCILIATION_REQUIRED \<noteq> RELEASED_INVALID"
  "RECONCILIATION_REQUIRED \<noteq> UNCERTAIN"
  "RELEASED \<noteq> RELEASED_INVALID"
  "RELEASED \<noteq> UNCERTAIN"
  "RELEASED_INVALID \<noteq> UNCERTAIN"
  by (simp_all add: status_defs)

lemmas status_neq [simp] = status_distinct status_distinct [THEN not_sym]

end
