(* ===== verification/Credit_Ledger.thy ===== *)
theory Credit_Ledger
  imports Platform_Domain
begin

text \<open>
  The workspace credit ledger: \<^verbatim>\<open>core/entitlements/entitlement_core/credits.py\<close> over the
  tables \<^verbatim>\<open>workspaces\<close>, \<^verbatim>\<open>workspace_credit_entries\<close>,
  \<^verbatim>\<open>workspace_credit_events\<close> and \<^verbatim>\<open>cost_records\<close>.

  Every operation takes two database states. \<open>s\<close> is the committed state its first reads saw and
  \<open>t\<close> the state its conditional UPDATE and everything after it ran against; under READ
  COMMITTED other transactions may commit in between. A raise is \<open>Inl\<close> and rolls back.
  Ids from \<^verbatim>\<open>new_id()\<close> and the clock are arguments (\<open>credit_env\<close>); a clash of ids is
  the table's primary-key violation.
\<close>

section \<open>Rows and results\<close>

record credit_entry =
  ce_id :: string
  ce_workspace_id :: string
  ce_project_id :: "string option"
  ce_generation_job_id :: "string option"
  ce_idempotency_key :: string
  ce_credits :: int
  ce_balance_after :: int
  ce_settled_credits :: int
  ce_refunded_credits :: int
  ce_status :: string
  ce_reason :: string
  ce_version :: int
  ce_reserved_at :: int
  ce_settled_at :: "int option"
  ce_refunded_at :: "int option"
  ce_reconciliation_required_at :: "int option"
  ce_reconciled_at :: "int option"
  ce_reconciliation_reason :: "string option"
  ce_metadata :: "(string \<times> json) list"
  ce_updated_at :: int

text \<open>The CHECK constraints of \<^verbatim>\<open>workspace_credit_entries\<close>.\<close>

definition credit_entry_ok :: "credit_entry \<Rightarrow> bool" where
  "credit_entry_ok e \<longleftrightarrow>
     ce_credits e > 0 \<and> ce_balance_after e \<ge> 0 \<and>
     ce_settled_credits e \<ge> 0 \<and> ce_refunded_credits e \<ge> 0 \<and>
     ce_settled_credits e + ce_refunded_credits e \<le> ce_credits e \<and>
     ce_version e > 0 \<and>
     ce_status e \<in> {RESERVED, SETTLED, REFUNDED, RECONCILIATION_REQUIRED} \<and>
     (ce_status e = RESERVED \<and> ce_settled_credits e = 0 \<and> ce_refunded_credits e = 0 \<and>
        ce_settled_at e = None \<and> ce_refunded_at e = None \<and>
        ce_reconciliation_required_at e = None \<or>
      ce_status e = RECONCILIATION_REQUIRED \<and> ce_settled_credits e = 0 \<and>
        ce_refunded_credits e = 0 \<and> ce_settled_at e = None \<and> ce_refunded_at e = None \<and>
        ce_reconciliation_required_at e \<noteq> None \<and> ce_reconciliation_reason e \<noteq> None \<or>
      ce_status e = SETTLED \<and> ce_settled_credits e = ce_credits e \<and> ce_refunded_credits e = 0 \<and>
        ce_settled_at e \<noteq> None \<and> ce_refunded_at e = None \<or>
      ce_status e = REFUNDED \<and> ce_settled_credits e = 0 \<and> ce_refunded_credits e = ce_credits e \<and>
        ce_refunded_at e \<noteq> None \<and> ce_settled_at e = None)"

text \<open>The audit log. The service only ever stores strings and integers in an event's metadata.\<close>

datatype meta_value = MStr string | MInt int

fun meta_str :: "meta_value \<Rightarrow> string" where
  "meta_str (MStr s) = s"
| "meta_str (MInt i) = py_int_str i"

fun meta_falsy :: "meta_value \<Rightarrow> bool" where
  "meta_falsy (MStr s) = (s = '''')"
| "meta_falsy (MInt i) = (i = 0)"

record credit_event =
  ev_id :: string
  ev_credit_entry_id :: string
  ev_workspace_id :: string
  ev_project_id :: "string option"
  ev_generation_job_id :: "string option"
  ev_key :: string
  ev_type :: string
  ev_credits :: int
  ev_balance_delta :: int
  ev_balance_after :: int
  ev_reason :: string
  ev_actor_type :: string
  ev_metadata :: "(string \<times> meta_value) list"
  ev_created_at :: int

record cost_credits =
  co_generation_job_id :: "string option"
  co_credits :: rat

record credit_db =
  projects :: "project list"
  workspaces :: "workspace list"
  entries :: "credit_entry list"
  events :: "credit_event list"
  costs :: "cost_credits list"

record credit_env =
  env_now :: int
  env_entry_id :: string
  env_event_id :: string

record workspace_credit_balance =
  bal_workspace_id :: "string option"
  bal_project_id :: string
  bal_plan_tier :: string
  bal_balance :: "int option"

record workspace_credit_charge =
  ch_applied :: bool
  ch_replayed :: bool
  ch_entry_id :: "string option"
  ch_credits :: int
  ch_balance_after :: "int option"
  ch_status :: "string option"

record workspace_credit_transition =
  tr_applied :: bool
  tr_replayed :: bool
  tr_entry_id :: "string option"
  tr_previous_status :: "string option"
  tr_status :: "string option"
  tr_reserved_credits :: int
  tr_settled_credits :: int
  tr_refunded_credits :: int
  tr_balance_after :: "int option"

text \<open>
  The exceptions. Interpolated values of a message are kept as the values, in the list.
  \<open>InvalidRequestError\<close> is the ORM's refusal to refresh a deleted row.
\<close>

datatype credit_error =
    ValueError string
  | LookupError string
  | InsufficientWorkspaceCredits string "int list"
  | WorkspaceCreditConflict string "string list"
  | IntegrityError
  | InvalidRequestError

datatype reconcile_action = SETTLE_RESERVED | REFUND_RESERVED | OTHER_ACTION string

section \<open>Reading\<close>

definition billable :: "workspace_credit_balance \<Rightarrow> bool" where
  "billable b \<longleftrightarrow> bal_workspace_id b \<noteq> None \<and> bal_plan_tier b \<noteq> ''ALL''"

definition get_workspace :: "credit_db \<Rightarrow> string \<Rightarrow> workspace option" where
  "get_workspace s i = row_where (\<lambda>w. ws_id w = i) (workspaces s)"

definition get_entry :: "credit_db \<Rightarrow> string \<Rightarrow> credit_entry option" where
  "get_entry s i = row_where (\<lambda>e. ce_id e = i) (entries s)"

definition balance_in_session :: "credit_db \<Rightarrow> string \<Rightarrow> credit_error + workspace_credit_balance" where
  "balance_in_session s pid =
     (case row_where (\<lambda>p. pr_id p = pid) (projects s) of
        None \<Rightarrow> Inl (LookupError ''project not found'')
      | Some p \<Rightarrow>
          if py_falsy (pr_workspace_id p)
          then Inr \<lparr>bal_workspace_id = None, bal_project_id = pr_id p, bal_plan_tier = ''ALL'',
                    bal_balance = None\<rparr>
          else (case get_workspace s (the (pr_workspace_id p)) of
              None \<Rightarrow> Inl (LookupError ''project workspace not found'')
            | Some w \<Rightarrow>
                if ws_status w \<noteq> ''ACTIVE'' \<or> pr_status p \<noteq> ''ACTIVE''
                then Inl (InsufficientWorkspaceCredits ''workspace or project is not active'' [])
                else Inr \<lparr>bal_workspace_id = Some (ws_id w), bal_project_id = pr_id p,
                          bal_plan_tier = ws_plan_tier w, bal_balance = Some (credit_balance w)\<rparr>))"

definition entry_for_job_in_session :: "credit_db \<Rightarrow> string \<Rightarrow> credit_entry option" where
  "entry_for_job_in_session s jid =
     row_where (\<lambda>e. ce_generation_job_id e = Some jid) (entries s)"

definition credit_statuses :: "string list" where
  "credit_statuses = [RESERVED, SETTLED, REFUNDED, RECONCILIATION_REQUIRED]"

text \<open>\<^verbatim>\<open>_entry_for_job\<close>\<close>

definition entry_for_job ::
  "credit_db \<Rightarrow> generation_job \<Rightarrow> bool \<Rightarrow> credit_error + credit_entry option" where
  "entry_for_job s job require_for_free =
     (case entry_for_job_in_session s (job_id job) of
        Some e \<Rightarrow>
          if ce_status e \<notin> set credit_statuses
          then Inl (WorkspaceCreditConflict ''unknown workspace credit state'' [ce_status e])
          else if ce_project_id e \<noteq> Some (job_project_id job) \<or>
                  \<not> job_workspace_credit_required job \<or>
                  ce_credits e \<noteq> job_quoted_credits job
          then Inl (WorkspaceCreditConflict
             ''workspace credit reservation does not match immutable generation billing facts'' [])
          else Inr (Some e)
      | None \<Rightarrow>
          if require_for_free \<and> job_workspace_credit_required job
          then Inl (WorkspaceCreditConflict
             ''generation requires a server-owned workspace credit reservation'' [])
          else Inr None)"

definition validate_reservation_replay ::
  "credit_entry \<Rightarrow> generation_job \<Rightarrow> int \<Rightarrow> credit_error + unit" where
  "validate_reservation_replay e job credits =
     (if ce_generation_job_id e \<noteq> Some (job_id job) \<or>
         ce_project_id e \<noteq> Some (job_project_id job) \<or>
         ce_credits e \<noteq> credits \<or>
         map_of (ce_metadata e) ''request_hash'' \<noteq> Some (JStr (job_request_hash job))
      then Inl (WorkspaceCreditConflict
        ''generation credit idempotency key already belongs to different reservation facts'' [])
      else Inr ())"

definition event_exists :: "credit_db \<Rightarrow> string \<Rightarrow> string \<Rightarrow> bool" where
  "event_exists s eid key \<longleftrightarrow>
     row_where (\<lambda>v. ev_credit_entry_id v = eid \<and> ev_key v = key) (events s) \<noteq> None"

definition workspace_balance :: "credit_db \<Rightarrow> credit_entry \<Rightarrow> credit_error + int" where
  "workspace_balance s e =
     (case get_workspace s (ce_workspace_id e) of
        None \<Rightarrow> Inl (LookupError ''workspace disappeared while recording credit lifecycle'')
      | Some w \<Rightarrow> Inr (credit_balance w))"

text \<open>\<^verbatim>\<open>_snapshot\<close> and \<^verbatim>\<open>_not_applied\<close>\<close>

definition credit_snapshot ::
  "credit_entry \<Rightarrow> string \<Rightarrow> bool \<Rightarrow> workspace_credit_transition" where
  "credit_snapshot e previous_status replayed =
     \<lparr>tr_applied = True, tr_replayed = replayed, tr_entry_id = Some (ce_id e),
      tr_previous_status = Some previous_status, tr_status = Some (ce_status e),
      tr_reserved_credits = ce_credits e, tr_settled_credits = ce_settled_credits e,
      tr_refunded_credits = ce_refunded_credits e, tr_balance_after = Some (ce_balance_after e)\<rparr>"

definition not_applied :: workspace_credit_transition where
  "not_applied =
     \<lparr>tr_applied = False, tr_replayed = False, tr_entry_id = None, tr_previous_status = None,
      tr_status = None, tr_reserved_credits = 0, tr_settled_credits = 0,
      tr_refunded_credits = 0, tr_balance_after = None\<rparr>"

section \<open>Writing\<close>

text \<open>
  \<^verbatim>\<open>_record_event\<close>: one appended audit row. A repeated primary key or
  \<^verbatim>\<open>uq_credit_event_entry_key\<close> is an integrity error.
\<close>

definition record_event ::
  "credit_env \<Rightarrow> credit_db \<Rightarrow> credit_entry \<Rightarrow> string \<Rightarrow> string \<Rightarrow> int \<Rightarrow> int \<Rightarrow> int \<Rightarrow> string \<Rightarrow>
   string \<Rightarrow> (string \<times> meta_value) list \<Rightarrow> credit_error + credit_db" where
  "record_event env t e event_key event_type credits balance_delta balance_after reason
     actor_type metadata =
     (if \<exists>v \<in> set (events t). ev_id v = env_event_id env \<or>
           ev_credit_entry_id v = ce_id e \<and> ev_key v = event_key
      then Inl IntegrityError
      else Inr (t\<lparr>events := events t @
        [\<lparr>ev_id = env_event_id env, ev_credit_entry_id = ce_id e,
          ev_workspace_id = ce_workspace_id e, ev_project_id = ce_project_id e,
          ev_generation_job_id = ce_generation_job_id e, ev_key = event_key,
          ev_type = event_type, ev_credits = credits, ev_balance_delta = balance_delta,
          ev_balance_after = balance_after, ev_reason = take 240 reason,
          ev_actor_type = actor_type, ev_metadata = metadata,
          ev_created_at = env_now env\<rparr>]\<rparr>))"

text \<open>
  The insert of \<^verbatim>\<open>reserve_generation\<close>: primary key, \<^verbatim>\<open>uq_credit_entry_project_key\<close> and
  \<^verbatim>\<open>uq_credit_entry_generation_job\<close> (NULL never clashes in a SQL unique key).
\<close>

definition insert_entry :: "credit_db \<Rightarrow> credit_entry \<Rightarrow> credit_error + credit_db" where
  "insert_entry t e =
     (if \<exists>x \<in> set (entries t). ce_id x = ce_id e \<or>
           ce_project_id x \<noteq> None \<and> ce_project_id x = ce_project_id e \<and>
             ce_idempotency_key x = ce_idempotency_key e \<or>
           ce_generation_job_id x \<noteq> None \<and> ce_generation_job_id x = ce_generation_job_id e
      then Inl IntegrityError
      else Inr (t\<lparr>entries := entries t @ [e]\<rparr>))"

definition resolve_transition_race ::
  "credit_db \<Rightarrow> string \<Rightarrow> string \<Rightarrow> string \<Rightarrow>
   credit_error + (workspace_credit_transition \<times> credit_db)" where
  "resolve_transition_race t eid desired_status previous_status =
     (case get_entry t eid of
        None \<Rightarrow> Inl (LookupError ''workspace credit reservation disappeared'')
      | Some cur \<Rightarrow>
          if ce_status cur = desired_status
          then Inr (credit_snapshot cur previous_status True, t)
          else Inl (WorkspaceCreditConflict ''credit transition lost a race''
                 [desired_status, ce_status cur]))"

text \<open>Assignments through the ORM: one column of the row with that primary key.\<close>

definition set_balance_after :: "string \<Rightarrow> int \<Rightarrow> credit_db \<Rightarrow> credit_db" where
  "set_balance_after eid b t =
     t\<lparr>entries := update_where (\<lambda>x. ce_id x = eid) (ce_balance_after_update (\<lambda>_. b)) (entries t)\<rparr>"

definition set_cost_credits :: "string \<Rightarrow> rat \<Rightarrow> credit_db \<Rightarrow> credit_db" where
  "set_cost_credits jid c t =
     t\<lparr>costs := update_where (\<lambda>x. co_generation_job_id x = Some jid)
                  (co_credits_update (\<lambda>_. c)) (costs t)\<rparr>"

section \<open>Operations\<close>

definition new_entry ::
  "credit_env \<Rightarrow> workspace \<Rightarrow> generation_job \<Rightarrow> string \<Rightarrow> int \<Rightarrow> (string \<times> json) list \<Rightarrow> credit_entry" where
  "new_entry env w job key credits metadata =
     \<lparr>ce_id = env_entry_id env, ce_workspace_id = ws_id w,
      ce_project_id = Some (job_project_id job), ce_generation_job_id = Some (job_id job),
      ce_idempotency_key = key, ce_credits = credits, ce_balance_after = credit_balance w,
      ce_settled_credits = 0, ce_refunded_credits = 0, ce_status = RESERVED,
      ce_reason = ''GENERATION_RESERVED'', ce_version = 1, ce_reserved_at = env_now env,
      ce_settled_at = None, ce_refunded_at = None, ce_reconciliation_required_at = None,
      ce_reconciled_at = None, ce_reconciliation_reason = None,
      ce_metadata = py_dict_merge
        [(''provider'', JStr (job_provider job)), (''model'', JStr (job_model job)),
         (''generation_type'', JStr (job_generation_type job)),
         (''request_hash'', JStr (job_request_hash job)),
         (''pricing_version'', JStr ''workspace-credits-v2'')] metadata,
      ce_updated_at = env_now env\<rparr>"

text \<open>
  \<^verbatim>\<open>reserve_generation\<close>, from the conditional UPDATE on: take the credits out of the available
  balance, insert the entry, append the audit row.
\<close>

definition reserve_wallet ::
  "credit_env \<Rightarrow> credit_db \<Rightarrow> generation_job \<Rightarrow> string \<Rightarrow> int \<Rightarrow> (string \<times> json) list \<Rightarrow>
   workspace_credit_balance \<Rightarrow> credit_error + (workspace_credit_charge \<times> credit_db)" where
  "reserve_wallet env t job key credits metadata balance =
     (let wid = the (bal_workspace_id balance);
          P = (\<lambda>w. ws_id w = wid \<and> ws_status w = ''ACTIVE'' \<and>
                   ws_plan_tier w = bal_plan_tier balance \<and> credit_balance w \<ge> credits);
          t1 = t\<lparr>workspaces := update_where P
                   (credit_balance_update (\<lambda>b. b - credits)) (workspaces t)\<rparr>
      in if affected P (workspaces t) \<noteq> 1
         then Inl (InsufficientWorkspaceCredits ''insufficient workspace credits''
                [credits, (case get_workspace t1 wid of None \<Rightarrow> 0 | Some w \<Rightarrow> credit_balance w)])
         else (case get_workspace t1 wid of
             None \<Rightarrow> Inl (LookupError ''workspace disappeared while reserving credits'')
           | Some w \<Rightarrow>
               let e = new_entry env w job key credits metadata in
               res_bind (insert_entry t1 e) (\<lambda>t2.
               res_bind (record_event env t2 e ''reserve'' ''RESERVED'' credits (- credits)
                           (credit_balance w) ''GENERATION_RESERVED'' ''SYSTEM'' []) (\<lambda>t3.
               Inr (\<lparr>ch_applied = True, ch_replayed = False, ch_entry_id = Some (ce_id e),
                     ch_credits = ce_credits e, ch_balance_after = Some (ce_balance_after e),
                     ch_status = Some (ce_status e)\<rparr>, t3)))))"

definition reserve_generation ::
  "credit_env \<Rightarrow> credit_db \<Rightarrow> credit_db \<Rightarrow> generation_job \<Rightarrow> string \<Rightarrow> int \<Rightarrow> (string \<times> json) list \<Rightarrow>
   credit_error + (workspace_credit_charge \<times> credit_db)" where
  "reserve_generation env s t job idempotency_key credits metadata =
     (if credits < 1 \<or> credits > 100000
      then Inl (ValueError ''generation credits must be between 1 and 100000'')
      else let key = py_strip idempotency_key in
      if key = '''' then Inl (ValueError ''generation credit idempotency key is required'')
      else res_bind (balance_in_session s (job_project_id job)) (\<lambda>balance.
        if \<not> billable balance
        then Inr (\<lparr>ch_applied = False, ch_replayed = False, ch_entry_id = None, ch_credits = 0,
                   ch_balance_after = bal_balance balance, ch_status = None\<rparr>, t)
        else (case row_where (\<lambda>e. ce_project_id e = Some (job_project_id job) \<and>
                                  ce_idempotency_key e = key) (entries s) of
            Some existing \<Rightarrow>
              res_bind (validate_reservation_replay existing job credits) (\<lambda>_.
              Inr (\<lparr>ch_applied = True, ch_replayed = True, ch_entry_id = Some (ce_id existing),
                    ch_credits = ce_credits existing,
                    ch_balance_after = Some (ce_balance_after existing),
                    ch_status = Some (ce_status existing)\<rparr>, t))
          | None \<Rightarrow> reserve_wallet env t job key credits metadata balance)))"

text \<open>
  \<^verbatim>\<open>record_submission_boundary\<close> and \<^verbatim>\<open>record_submission_confirmed\<close>: audit rows around the
  paid provider call, once per attempt.
\<close>

definition record_submission_boundary ::
  "credit_env \<Rightarrow> credit_db \<Rightarrow> credit_db \<Rightarrow> generation_job \<Rightarrow> int \<Rightarrow>
   credit_error + (workspace_credit_transition \<times> credit_db)" where
  "record_submission_boundary env s t job attempt =
     res_bind (entry_for_job s job True) (\<lambda>oe. case oe of
        None \<Rightarrow> Inr (not_applied, t)
      | Some e \<Rightarrow>
          if ce_status e \<noteq> RESERVED
          then Inl (WorkspaceCreditConflict ''cannot start provider submission from credit state''
                 [ce_status e])
          else let key = ''provider-boundary:'' @ py_int_str attempt in
          if event_exists t (ce_id e) key
          then Inr (credit_snapshot e (ce_status e) True, t)
          else res_bind (workspace_balance t e) (\<lambda>current.
               res_bind (record_event env t e key ''PROVIDER_SUBMISSION_STARTED'' (ce_credits e) 0
                  current ''PAID_PROVIDER_BOUNDARY'' ''SYSTEM'' [(''attempt'', MInt attempt)])
               (\<lambda>t1. Inr (credit_snapshot e (ce_status e) False, t1))))"

definition record_submission_confirmed ::
  "credit_env \<Rightarrow> credit_db \<Rightarrow> credit_db \<Rightarrow> generation_job \<Rightarrow> int \<Rightarrow> string \<Rightarrow>
   credit_error + (workspace_credit_transition \<times> credit_db)" where
  "record_submission_confirmed env s t job attempt provider_job_id =
     res_bind (entry_for_job s job True) (\<lambda>oe. case oe of
        None \<Rightarrow> Inr (not_applied, t)
      | Some e \<Rightarrow>
          if ce_status e \<notin> {RESERVED, SETTLED, RECONCILIATION_REQUIRED}
          then Inl (WorkspaceCreditConflict ''cannot confirm provider submission from credit state''
                 [ce_status e])
          else let key = ''provider-confirmed:'' @ py_int_str attempt in
          if event_exists t (ce_id e) key
          then Inr (credit_snapshot e (ce_status e) True, t)
          else res_bind (workspace_balance t e) (\<lambda>current.
               res_bind (record_event env t e key ''PROVIDER_SUBMISSION_CONFIRMED'' (ce_credits e) 0
                  current ''PROVIDER_JOB_ID_CONFIRMED'' ''SYSTEM''
                  [(''attempt'', MInt attempt), (''provider_job_id'', MStr provider_job_id)])
               (\<lambda>t1. Inr (credit_snapshot e (ce_status e) False, t1))))"

text \<open>
  \<^verbatim>\<open>_settle\<close> and \<^verbatim>\<open>_refund\<close>: compare-and-set on the entry's status and version, then the
  wallet (refund only), the cost record and the audit row.
\<close>

definition settle_values :: "int \<Rightarrow> string \<Rightarrow> string \<Rightarrow> credit_entry \<Rightarrow> credit_entry" where
  "settle_values now reason previous_status x =
     x\<lparr>ce_status := SETTLED, ce_settled_credits := ce_credits x, ce_refunded_credits := 0,
       ce_reason := take 120 reason, ce_settled_at := Some now,
       ce_reconciled_at := (if previous_status = RECONCILIATION_REQUIRED then Some now else None),
       ce_version := ce_version x + 1, ce_updated_at := now\<rparr>"

definition settle ::
  "credit_env \<Rightarrow> credit_db \<Rightarrow> credit_db \<Rightarrow> generation_job \<Rightarrow> string list \<Rightarrow> string \<Rightarrow> string \<Rightarrow>
   string \<Rightarrow> string \<Rightarrow> (string \<times> meta_value) list \<Rightarrow>
   credit_error + (workspace_credit_transition \<times> credit_db)" where
  "settle env s t job allowed event_key event_type reason actor_type metadata =
     res_bind (entry_for_job s job True) (\<lambda>oe. case oe of
        None \<Rightarrow> Inr (not_applied, t)
      | Some e \<Rightarrow>
          if ce_status e = SETTLED then Inr (credit_snapshot e (ce_status e) True, t)
          else if ce_status e \<notin> set allowed
          then Inl (WorkspaceCreditConflict ''cannot settle credit state'' [ce_status e])
          else
            let P = (\<lambda>x. ce_id x = ce_id e \<and> ce_status x \<in> set allowed \<and>
                         ce_version x = ce_version e);
                t1 = t\<lparr>entries := update_where P
                         (settle_values (env_now env) reason (ce_status e)) (entries t)\<rparr>
            in if affected P (entries t) \<noteq> 1
               then resolve_transition_race t1 (ce_id e) SETTLED (ce_status e)
               else (case get_entry t1 (ce_id e) of
                   None \<Rightarrow> Inl InvalidRequestError
                 | Some e1 \<Rightarrow>
                     res_bind (workspace_balance t1 e1) (\<lambda>b.
                     let t2 = set_cost_credits (job_id job) (of_int (ce_credits e1))
                                (set_balance_after (ce_id e1) b t1);
                         e2 = e1\<lparr>ce_balance_after := b\<rparr> in
                     res_bind (record_event env t2 e2 event_key event_type (ce_credits e2) 0 b
                                 reason actor_type metadata) (\<lambda>t3.
                     Inr (credit_snapshot e2 (ce_status e) False, t3)))))"

definition refund_values :: "int \<Rightarrow> string \<Rightarrow> string \<Rightarrow> credit_entry \<Rightarrow> credit_entry" where
  "refund_values now reason previous_status x =
     x\<lparr>ce_status := REFUNDED, ce_settled_credits := 0, ce_refunded_credits := ce_credits x,
       ce_reason := take 120 reason, ce_refunded_at := Some now,
       ce_reconciled_at := (if previous_status = RECONCILIATION_REQUIRED then Some now else None),
       ce_version := ce_version x + 1, ce_updated_at := now\<rparr>"

definition refund ::
  "credit_env \<Rightarrow> credit_db \<Rightarrow> credit_db \<Rightarrow> generation_job \<Rightarrow> string list \<Rightarrow> string \<Rightarrow> string \<Rightarrow>
   string \<Rightarrow> string \<Rightarrow> (string \<times> meta_value) list \<Rightarrow>
   credit_error + (workspace_credit_transition \<times> credit_db)" where
  "refund env s t job allowed event_key event_type reason actor_type metadata =
     res_bind (entry_for_job s job True) (\<lambda>oe. case oe of
        None \<Rightarrow> Inr (not_applied, t)
      | Some e \<Rightarrow>
          if ce_status e = REFUNDED then Inr (credit_snapshot e (ce_status e) True, t)
          else if ce_status e \<notin> set allowed
          then Inl (WorkspaceCreditConflict ''cannot refund credit state'' [ce_status e])
          else
            let P = (\<lambda>x. ce_id x = ce_id e \<and> ce_status x \<in> set allowed \<and>
                         ce_version x = ce_version e);
                t1 = t\<lparr>entries := update_where P
                         (refund_values (env_now env) reason (ce_status e)) (entries t)\<rparr>
            in if affected P (entries t) \<noteq> 1
               then resolve_transition_race t1 (ce_id e) REFUNDED (ce_status e)
               else
                 let W = (\<lambda>w. ws_id w = ce_workspace_id e);
                     t2 = t1\<lparr>workspaces := update_where W
                            (credit_balance_update (\<lambda>b. b + ce_credits e)) (workspaces t1)\<rparr>
                 in if affected W (workspaces t1) \<noteq> 1
                    then Inl (LookupError ''workspace disappeared while refunding credits'')
                    else (case (get_workspace t2 (ce_workspace_id e), get_entry t2 (ce_id e)) of
                        (Some w, Some e1) \<Rightarrow>
                          let b = credit_balance w;
                              t3 = set_cost_credits (job_id job) 0
                                     (set_balance_after (ce_id e1) b t2);
                              e2 = e1\<lparr>ce_balance_after := b\<rparr> in
                          res_bind (record_event env t3 e2 event_key event_type (ce_credits e2)
                                      (ce_credits e2) b reason actor_type metadata) (\<lambda>t4.
                          Inr (credit_snapshot e2 (ce_status e) False, t4))
                      | (None, _) \<Rightarrow>
                          Inl (LookupError ''workspace disappeared while refunding credits'')
                      | (Some _, None) \<Rightarrow> Inl InvalidRequestError))"

definition settle_generation ::
  "credit_env \<Rightarrow> credit_db \<Rightarrow> credit_db \<Rightarrow> generation_job \<Rightarrow> string \<Rightarrow>
   credit_error + (workspace_credit_transition \<times> credit_db)" where
  "settle_generation env s t job reason =
     settle env s t job [RESERVED, RECONCILIATION_REQUIRED] ''settle'' ''SETTLED'' reason ''SYSTEM'' []"

definition refund_generation ::
  "credit_env \<Rightarrow> credit_db \<Rightarrow> credit_db \<Rightarrow> generation_job \<Rightarrow> string \<Rightarrow>
   credit_error + (workspace_credit_transition \<times> credit_db)" where
  "refund_generation env s t job reason =
     refund env s t job [RESERVED] ''refund'' ''REFUNDED'' reason ''SYSTEM'' []"

definition hold_values :: "int \<Rightarrow> string \<Rightarrow> credit_entry \<Rightarrow> credit_entry" where
  "hold_values now reason x =
     x\<lparr>ce_status := RECONCILIATION_REQUIRED, ce_reason := ''RECONCILIATION_REQUIRED'',
       ce_reconciliation_required_at := Some now,
       ce_reconciliation_reason := Some (take 240 reason),
       ce_version := ce_version x + 1, ce_updated_at := now\<rparr>"

definition require_reconciliation ::
  "credit_env \<Rightarrow> credit_db \<Rightarrow> credit_db \<Rightarrow> generation_job \<Rightarrow> string \<Rightarrow>
   credit_error + (workspace_credit_transition \<times> credit_db)" where
  "require_reconciliation env s t job reason =
     res_bind (entry_for_job s job True) (\<lambda>oe. case oe of
        None \<Rightarrow> Inr (not_applied, t)
      | Some e \<Rightarrow>
          if ce_status e = RECONCILIATION_REQUIRED
          then Inr (credit_snapshot e (ce_status e) True, t)
          else if ce_status e = SETTLED then Inr (credit_snapshot e (ce_status e) True, t)
          else if ce_status e \<noteq> RESERVED
          then Inl (WorkspaceCreditConflict ''cannot require reconciliation from credit state''
                 [ce_status e])
          else
            let P = (\<lambda>x. ce_id x = ce_id e \<and> ce_status x = RESERVED \<and> ce_version x = ce_version e);
                t1 = t\<lparr>entries := update_where P (hold_values (env_now env) reason) (entries t)\<rparr>
            in if affected P (entries t) \<noteq> 1
               then resolve_transition_race t1 (ce_id e) RECONCILIATION_REQUIRED (ce_status e)
               else (case get_entry t1 (ce_id e) of
                   None \<Rightarrow> Inl InvalidRequestError
                 | Some e1 \<Rightarrow>
                     res_bind (workspace_balance t1 e1) (\<lambda>b.
                     let t2 = set_balance_after (ce_id e1) b t1;
                         e2 = e1\<lparr>ce_balance_after := b\<rparr> in
                     res_bind (record_event env t2 e2 ''reconciliation-required''
                                 RECONCILIATION_REQUIRED (ce_credits e2) 0 b reason ''SYSTEM'' [])
                       (\<lambda>t3. Inr (credit_snapshot e2 (ce_status e) False, t3)))))"

text \<open>
  \<^verbatim>\<open>reconcile_generation\<close>: the audited manual decision over a held reservation. The
  \<^verbatim>\<open>Literal\<close> type of \<^verbatim>\<open>action\<close> is not enforced at run time, so the third
  constructor stands for any other string.
\<close>

definition reconcile_event_type :: "reconcile_action \<Rightarrow> string" where
  "reconcile_event_type a =
     (if a = SETTLE_RESERVED then ''RECONCILED_SETTLED'' else ''RECONCILED_REFUNDED'')"

definition reconcile_desired :: "reconcile_action \<Rightarrow> string" where
  "reconcile_desired a = (if a = SETTLE_RESERVED then SETTLED else REFUNDED)"

definition reconcile_metadata :: "string option \<Rightarrow> (string \<times> meta_value) list" where
  "reconcile_metadata evidence_reference =
     (''previous_status'', MStr RECONCILIATION_REQUIRED) #
     (if py_falsy evidence_reference then []
      else [(''evidence_reference'', MStr (the evidence_reference))])"

definition reconcile_generation ::
  "credit_env \<Rightarrow> credit_db \<Rightarrow> credit_db \<Rightarrow> generation_job \<Rightarrow> reconcile_action \<Rightarrow> string \<Rightarrow> string \<Rightarrow>
   string option \<Rightarrow> string \<Rightarrow> credit_error + (workspace_credit_transition \<times> credit_db)" where
  "reconcile_generation env s t job action idempotency_key reason evidence_reference actor_type =
     (let key = py_strip idempotency_key in
      if key = '''' \<or> length key > 120
      then Inl (ValueError ''credit reconciliation idempotency key must be 1 to 120 characters'')
      else if action \<noteq> SETTLE_RESERVED \<and> action \<noteq> REFUND_RESERVED
      then Inl (ValueError ''unsupported credit reconciliation action'')
      else res_bind (entry_for_job s job True) (\<lambda>oe. case oe of
        None \<Rightarrow> Inl (LookupError ''generation has no workspace credit reservation'')
      | Some e \<Rightarrow>
          let event_key = ''manual:'' @ key in
          (case row_where (\<lambda>v. ev_credit_entry_id v = ce_id e \<and> ev_key v = event_key) (events s) of
            Some ev \<Rightarrow>
              if ev_type ev \<noteq> reconcile_event_type action
              then Inl (WorkspaceCreditConflict
                ''credit reconciliation idempotency key was used for a different action'' [])
              else (case get_entry t (ce_id e) of
                  None \<Rightarrow> Inl InvalidRequestError
                | Some e1 \<Rightarrow>
                    let previous = (case map_of (ev_metadata ev) ''previous_status'' of
                          None \<Rightarrow> ce_status e1
                        | Some v \<Rightarrow> if meta_falsy v then ce_status e1 else meta_str v)
                    in Inr (credit_snapshot e1 previous True, t))
          | None \<Rightarrow>
              if ce_status e = reconcile_desired action
              then Inl (WorkspaceCreditConflict
                ''credit reservation already reached this terminal state under a different decision''
                [])
              else if ce_status e \<noteq> RECONCILIATION_REQUIRED
              then Inl (WorkspaceCreditConflict
                ''credit reconciliation requires RECONCILIATION_REQUIRED, got'' [ce_status e])
              else if action = SETTLE_RESERVED
              then settle env s t job [RECONCILIATION_REQUIRED] event_key
                     (reconcile_event_type action) reason actor_type
                     (reconcile_metadata evidence_reference)
              else refund env s t job [RECONCILIATION_REQUIRED] event_key
                     (reconcile_event_type action) reason actor_type
                     (reconcile_metadata evidence_reference))))"

section \<open>The service as a transaction system\<close>

datatype credit_op =
    Reserve generation_job string int "(string \<times> json) list"
  | Boundary generation_job int
  | Confirmed generation_job int string
  | Settle generation_job string
  | Refund generation_job string
  | Require_Reconciliation generation_job string
  | Reconcile generation_job reconcile_action string string "string option" string

fun credit_exec ::
  "credit_op \<Rightarrow> credit_env \<Rightarrow> credit_db \<Rightarrow> credit_db \<Rightarrow> credit_error + credit_db" where
  "credit_exec (Reserve job key credits metadata) env s t =
     map_sum id snd (reserve_generation env s t job key credits metadata)"
| "credit_exec (Boundary job attempt) env s t =
     map_sum id snd (record_submission_boundary env s t job attempt)"
| "credit_exec (Confirmed job attempt pid) env s t =
     map_sum id snd (record_submission_confirmed env s t job attempt pid)"
| "credit_exec (Settle job reason) env s t = map_sum id snd (settle_generation env s t job reason)"
| "credit_exec (Refund job reason) env s t = map_sum id snd (refund_generation env s t job reason)"
| "credit_exec (Require_Reconciliation job reason) env s t =
     map_sum id snd (require_reconciliation env s t job reason)"
| "credit_exec (Reconcile job action key reason evidence actor) env s t =
     map_sum id snd (reconcile_generation env s t job action key reason evidence actor)"

definition credit_txn :: "credit_db \<Rightarrow> credit_db \<Rightarrow> credit_db \<Rightarrow> bool" where
  "credit_txn s t u \<longleftrightarrow> (\<exists>op env. credit_exec op env s t = Inr u)"

section \<open>Invariant, frame and conserved quantities\<close>

definition credit_inv :: "credit_db \<Rightarrow> bool" where
  "credit_inv s \<longleftrightarrow>
     distinct (map ws_id (workspaces s)) \<and>
     distinct (map ce_id (entries s)) \<and>
     (\<forall>w \<in> set (workspaces s). workspace_ok w) \<and>
     (\<forall>e \<in> set (entries s). credit_entry_ok e)"

text \<open>What a later state keeps of an entry: its billing facts, and a terminal status for good.\<close>

definition entry_keeps :: "credit_entry \<Rightarrow> credit_entry \<Rightarrow> bool" where
  "entry_keeps e e' \<longleftrightarrow>
     ce_id e' = ce_id e \<and> ce_workspace_id e' = ce_workspace_id e \<and>
     ce_project_id e' = ce_project_id e \<and> ce_generation_job_id e' = ce_generation_job_id e \<and>
     ce_idempotency_key e' = ce_idempotency_key e \<and> ce_credits e' = ce_credits e \<and>
     ce_metadata e' = ce_metadata e \<and> ce_version e \<le> ce_version e' \<and>
     (ce_status e \<in> {SETTLED, REFUNDED} \<longrightarrow> ce_status e' = ce_status e)"

definition credit_frame :: "credit_db \<Rightarrow> credit_db \<Rightarrow> bool" where
  "credit_frame s t \<longleftrightarrow>
     (\<forall>e \<in> set (entries s). \<exists>e' \<in> set (entries t). entry_keeps e e') \<and>
     prefix (events s) (events t) \<and>
     map ws_id (workspaces t) = map ws_id (workspaces s) \<and> projects t = projects s"

definition available_credits :: "credit_db \<Rightarrow> string \<Rightarrow> int" where
  "available_credits s w = tally (\<lambda>x. if ws_id x = w then credit_balance x else 0) (workspaces s)"

definition held_credits :: "credit_db \<Rightarrow> string \<Rightarrow> int" where
  "held_credits s w =
     tally (\<lambda>e. if ce_workspace_id e = w \<and> ce_status e \<in> {RESERVED, RECONCILIATION_REQUIRED}
                then ce_credits e else 0) (entries s)"

definition spent_credits :: "credit_db \<Rightarrow> string \<Rightarrow> int" where
  "spent_credits s w =
     tally (\<lambda>e. if ce_workspace_id e = w then ce_settled_credits e else 0) (entries s)"

definition logged_delta :: "credit_db \<Rightarrow> string \<Rightarrow> int" where
  "logged_delta s w =
     tally (\<lambda>v. if ev_workspace_id v = w then ev_balance_delta v else 0) (events s)"

end
