(* ===== verification/Credit_Refinement.thy ===== *)
theory Credit_Refinement
  imports Credit_Ledger
begin

text \<open>
  What a credit operation is allowed to do to the database, as four abstract actions, and the
  proof that every operation of \<^verbatim>\<open>WorkspaceCreditService\<close> does one of them to the state it
  commits against, whatever was committed between its reads and its update. The invariant, the
  frame and the conservation laws are then proved once, over the actions.
\<close>

section \<open>The abstract actions\<close>

inductive phase_step :: "string \<Rightarrow> string \<Rightarrow> bool" where
  hold: "phase_step RESERVED RECONCILIATION_REQUIRED"
| settle: "p \<in> {RESERVED, RECONCILIATION_REQUIRED} \<Longrightarrow> phase_step p SETTLED"
| refund: "p \<in> {RESERVED, RECONCILIATION_REQUIRED} \<Longrightarrow> phase_step p REFUNDED"

inductive_simps phase_step_simps: "phase_step p q"

definition wallet_delta :: "credit_entry \<Rightarrow> int" where
  "wallet_delta r = (if ce_status r = REFUNDED then ce_credits r else 0)"

inductive credit_action :: "credit_db \<Rightarrow> credit_db \<Rightarrow> bool" where
  idle: "credit_action t t"
| note_event: "ev_balance_delta v = 0 \<Longrightarrow> credit_action t (t\<lparr>events := events t @ [v]\<rparr>)"
| open_hold: "w \<in> set (workspaces t) \<Longrightarrow> c \<le> credit_balance w \<Longrightarrow>
     ce_workspace_id e = ws_id w \<Longrightarrow> ce_status e = RESERVED \<Longrightarrow> ce_credits e = c \<Longrightarrow>
     credit_entry_ok e \<Longrightarrow> ce_id e \<notin> ce_id ` set (entries t) \<Longrightarrow>
     ev_workspace_id v = ws_id w \<Longrightarrow> ev_balance_delta v = - c \<Longrightarrow>
     credit_action t (t\<lparr>workspaces := update_where (\<lambda>x. ws_id x = ws_id w)
                          (\<lambda>_. w\<lparr>credit_balance := credit_balance w - c\<rparr>) (workspaces t),
                        entries := entries t @ [e], events := events t @ [v]\<rparr>)"
| move: "r \<in> set (entries t) \<Longrightarrow> entry_keeps r r' \<Longrightarrow> phase_step (ce_status r) (ce_status r') \<Longrightarrow>
     credit_entry_ok r' \<Longrightarrow> w \<in> set (workspaces t) \<Longrightarrow> ws_id w = ce_workspace_id r \<Longrightarrow>
     ev_workspace_id v = ce_workspace_id r \<Longrightarrow> ev_balance_delta v = wallet_delta r' \<Longrightarrow>
     credit_action t (t\<lparr>workspaces := update_where (\<lambda>x. ws_id x = ws_id w)
                          (\<lambda>_. w\<lparr>credit_balance := credit_balance w + wallet_delta r'\<rparr>) (workspaces t),
                        entries := update_where (\<lambda>x. ce_id x = ce_id r) (\<lambda>_. r') (entries t),
                        events := events t @ [v], costs := cs\<rparr>)"

section \<open>Inversion of the ledger's helpers\<close>

lemma entry_for_job_Some:
  assumes "entry_for_job s job f = Inr (Some e)"
  shows "e \<in> set (entries s)" and "ce_generation_job_id e = Some (job_id job)"
    and "ce_credits e = job_quoted_credits job"
  using assms by (auto simp: entry_for_job_def entry_for_job_in_session_def
      split: option.splits if_splits dest!: row_where_SomeD)

lemma record_event_Inr:
  assumes "record_event env t e key ty c d b reason actor meta = Inr u"
  obtains v where "u = t\<lparr>events := events t @ [v]\<rparr>" and "ev_balance_delta v = d"
    and "ev_workspace_id v = ce_workspace_id e" and "ev_balance_after v = b" and "ev_key v = key"
    and "ev_credit_entry_id v = ce_id e"
  using assms by (auto simp: record_event_def split: if_splits)

lemma insert_entry_Inr:
  assumes "insert_entry t e = Inr u"
  shows "u = t\<lparr>entries := entries t @ [e]\<rparr>" and "ce_id e \<notin> ce_id ` set (entries t)"
  using assms by (auto simp: insert_entry_def split: if_splits)

lemma get_workspace_Some:
  "get_workspace s i = Some w \<Longrightarrow> w \<in> set (workspaces s) \<and> ws_id w = i"
  by (auto simp: get_workspace_def dest: row_where_SomeD)

lemma workspace_balance_Inr:
  assumes "workspace_balance s e = Inr b"
  obtains w where "w \<in> set (workspaces s)" and "ws_id w = ce_workspace_id e"
    and "b = credit_balance w"
  using assms by (auto simp: workspace_balance_def split: option.splits dest: get_workspace_Some)

lemma resolve_transition_race_Inr:
  "resolve_transition_race t i d p = Inr (r, u) \<Longrightarrow> u = t"
  by (auto simp: resolve_transition_race_def split: option.splits if_splits)

lemma entry_keeps_refl [simp]: "entry_keeps e e"
  by (simp add: entry_keeps_def)

lemma entry_keeps_trans: "entry_keeps a b \<Longrightarrow> entry_keeps b c \<Longrightarrow> entry_keeps a c"
  by (auto simp: entry_keeps_def)

lemma update_same_row:
  "distinct (map k rows) \<Longrightarrow> w \<in> set rows \<Longrightarrow>
   update_where (\<lambda>x. k x = k w) (\<lambda>_. w) rows = rows"
  unfolding update_where_def by (rule map_idI) (auto dest: distinct_keyD)

text \<open>
  The compare-and-set of \<^verbatim>\<open>_settle\<close>, \<^verbatim>\<open>_refund\<close> and \<^verbatim>\<open>require_reconciliation\<close>: when it hits a row,
  the row is the one the operation read, with the billing facts it read.
\<close>

lemma compare_and_set:
  assumes "credit_inv t" and "credit_frame s t" and "e \<in> set (entries s)"
    and "affected (\<lambda>x. ce_id x = ce_id e \<and> Q x) (entries t) = 1"
  obtains r where "r \<in> set (entries t)" and "entry_keeps e r" and "Q r"
    and "\<forall>f. update_where (\<lambda>x. ce_id x = ce_id e \<and> Q x) f (entries t) =
           update_where (\<lambda>x. ce_id x = ce_id e) (\<lambda>_. f r) (entries t)"
proof -
  have dist: "distinct (map ce_id (entries t))" using assms(1) by (simp add: credit_inv_def)
  from assms(4) obtain r where r: "r \<in> set (entries t)" "ce_id r = ce_id e \<and> Q r"
    by (rule affected_oneE)
  from assms(2,3) obtain e' where e': "e' \<in> set (entries t)" "entry_keeps e e'"
    by (auto simp: credit_frame_def)
  with r dist have "e' = r" by (auto simp: entry_keeps_def dest: distinct_keyD)
  moreover have "update_where (\<lambda>x. ce_id x = ce_id e \<and> Q x) f (entries t) =
      update_where (\<lambda>x. ce_id x = ce_id e) (\<lambda>_. f r) (entries t)" for f
    using update_where_single [OF dist r(1), of "\<lambda>x. ce_id x = ce_id e \<and> Q x" f] r by simp
  ultimately show thesis using that r e' by blast
qed

section \<open>The values written keep the entry well formed\<close>

lemma settle_values_simps [simp]:
  "ce_id (settle_values n rs p r) = ce_id r"
  "ce_workspace_id (settle_values n rs p r) = ce_workspace_id r"
  "ce_credits (settle_values n rs p r) = ce_credits r"
  "ce_status (settle_values n rs p r) = SETTLED"
  by (simp_all add: settle_values_def)

lemma refund_values_simps [simp]:
  "ce_id (refund_values n rs p r) = ce_id r"
  "ce_workspace_id (refund_values n rs p r) = ce_workspace_id r"
  "ce_credits (refund_values n rs p r) = ce_credits r"
  "ce_status (refund_values n rs p r) = REFUNDED"
  by (simp_all add: refund_values_def)

lemma hold_values_simps [simp]:
  "ce_id (hold_values n rs r) = ce_id r"
  "ce_workspace_id (hold_values n rs r) = ce_workspace_id r"
  "ce_credits (hold_values n rs r) = ce_credits r"
  "ce_status (hold_values n rs r) = RECONCILIATION_REQUIRED"
  by (simp_all add: hold_values_def)

lemma settle_values_ok:
  assumes "credit_entry_ok r" and "ce_status r \<in> {RESERVED, RECONCILIATION_REQUIRED}" and "0 \<le> b"
  shows "credit_entry_ok ((settle_values n rs p r)\<lparr>ce_balance_after := b\<rparr>)"
    and "entry_keeps r ((settle_values n rs p r)\<lparr>ce_balance_after := b\<rparr>)"
  using assms by (auto simp: credit_entry_ok_def settle_values_def entry_keeps_def)

lemma refund_values_ok:
  assumes "credit_entry_ok r" and "ce_status r \<in> {RESERVED, RECONCILIATION_REQUIRED}" and "0 \<le> b"
  shows "credit_entry_ok ((refund_values n rs p r)\<lparr>ce_balance_after := b\<rparr>)"
    and "entry_keeps r ((refund_values n rs p r)\<lparr>ce_balance_after := b\<rparr>)"
  using assms by (auto simp: credit_entry_ok_def refund_values_def entry_keeps_def)

lemma hold_values_ok:
  assumes "credit_entry_ok r" and "ce_status r = RESERVED" and "0 \<le> b"
  shows "credit_entry_ok ((hold_values n rs r)\<lparr>ce_balance_after := b\<rparr>)"
    and "entry_keeps r ((hold_values n rs r)\<lparr>ce_balance_after := b\<rparr>)"
  using assms by (auto simp: credit_entry_ok_def hold_values_def entry_keeps_def)

text \<open>The two outcomes of a compare-and-set: lost, with nothing written, or won on one row.\<close>

lemma cas_cases:
  fixes e :: credit_entry and t :: credit_db and Q :: "credit_entry \<Rightarrow> bool"
  assumes inv: "credit_inv t" and fr: "credit_frame s t" and e: "e \<in> set (entries s)"
    and keep_id: "\<And>r. ce_id (f r) = ce_id r"
  defines "P \<equiv> \<lambda>x. ce_id x = ce_id e \<and> Q x"
  defines "tm \<equiv> t\<lparr>entries := update_where P f (entries t)\<rparr>"
  obtains (lost) "affected P (entries t) \<noteq> 1" and "tm = t"
    | (won) r where "affected P (entries t) = 1" and "r \<in> set (entries t)" and "entry_keeps e r"
        and "Q r" and "get_entry tm (ce_id e) = Some (f r)"
        and "tm = t\<lparr>entries := update_where (\<lambda>x. ce_id x = ce_id r) (\<lambda>_. f r) (entries t)\<rparr>"
proof (cases "affected P (entries t) = 1")
  case True
  then obtain r where r: "r \<in> set (entries t)" "entry_keeps e r" "Q r"
    and upd: "\<forall>f. update_where P f (entries t) =
        update_where (\<lambda>x. ce_id x = ce_id e) (\<lambda>_. f r) (entries t)"
    unfolding P_def by (rule compare_and_set [where Q = Q, OF inv fr e])
  from r(2) have id: "ce_id r = ce_id e" by (simp add: entry_keeps_def)
  have "get_entry tm (ce_id e) = Some (f r)"
    using row_where_update_single [OF r(1), of ce_id "f r"] keep_id id
    by (simp add: get_entry_def tm_def upd)
  with True r upd id won show thesis by (simp add: tm_def)
next
  case False
  have "affected P (entries t) \<le> 1"
    using inv by (intro affected_key_le_one [of ce_id _ _ "ce_id e"]) (auto simp: credit_inv_def P_def)
  with False have "affected P (entries t) = 0" by linarith
  then have "tm = t" by (simp add: tm_def update_where_none)
  with False show thesis by (rule lost)
qed

text \<open>
  The tail the settling and the holding transition share: after the compare-and-set, read the
  wallet, write \<^verbatim>\<open>balance_after\<close>, append the audit row.
\<close>

lemma move_without_wallet:
  assumes inv: "credit_inv t" and r: "r \<in> set (entries t)" and id: "ce_id q = ce_id r"
    and ws: "ce_workspace_id q = ce_workspace_id r" and nr: "ce_status q \<noteq> REFUNDED"
    and phase: "phase_step (ce_status r) (ce_status q)"
    and ok: "\<And>b. 0 \<le> b \<Longrightarrow> credit_entry_ok (q\<lparr>ce_balance_after := b\<rparr>) \<and>
                 entry_keeps r (q\<lparr>ce_balance_after := b\<rparr>)"
    and tm: "tm = t\<lparr>entries := update_where (\<lambda>x. ce_id x = ce_id r) (\<lambda>_. q) (entries t)\<rparr>"
    and bal: "workspace_balance tm q = Inr b"
    and ev: "record_event env (set_balance_after (ce_id r) b tm\<lparr>costs := cs\<rparr>)
               (q\<lparr>ce_balance_after := b\<rparr>) k ty c 0 b' rs ac meta = Inr u"
  shows "credit_action t u"
proof -
  from bal obtain w where w: "w \<in> set (workspaces t)" "ws_id w = ce_workspace_id r"
    "b = credit_balance w" by (rule workspace_balance_Inr) (simp add: tm ws)
  with inv have b: "0 \<le> b" by (auto simp: credit_inv_def workspace_ok_def)
  let ?r = "q\<lparr>ce_balance_after := b\<rparr>"
  have delta: "wallet_delta ?r = 0" using nr by (simp add: wallet_delta_def)
  from ev obtain v where v: "u = set_balance_after (ce_id r) b tm\<lparr>costs := cs, events := events t @ [v]\<rparr>"
    "ev_balance_delta v = 0" "ev_workspace_id v = ce_workspace_id r"
    by (rule record_event_Inr) (simp add: set_balance_after_def tm ws)
  have "set_balance_after (ce_id r) b tm =
      t\<lparr>entries := update_where (\<lambda>x. ce_id x = ce_id r) (\<lambda>_. ?r) (entries t)\<rparr>"
    using update_where_twice [of ce_id "q" "ce_id r"] id by (simp add: set_balance_after_def tm)
  moreover have "update_where (\<lambda>x. ws_id x = ws_id w)
      (\<lambda>_. w\<lparr>credit_balance := credit_balance w + wallet_delta ?r\<rparr>) (workspaces t) = workspaces t"
    unfolding delta using inv update_same_row [OF _ w(1), of ws_id] by (simp add: credit_inv_def)
  ultimately have "u = t\<lparr>workspaces := update_where (\<lambda>x. ws_id x = ws_id w)
      (\<lambda>_. w\<lparr>credit_balance := credit_balance w + wallet_delta ?r\<rparr>) (workspaces t),
      entries := update_where (\<lambda>x. ce_id x = ce_id r) (\<lambda>_. ?r) (entries t),
      events := events t @ [v], costs := cs\<rparr>"
    using v by simp
  then show ?thesis
    using credit_action.move [OF r _ _ _ w(1,2) v(3), of ?r] ok [OF b] phase v(2) delta by simp
qed

section \<open>Every operation performs an abstract action\<close>

lemma settle_refines:
  assumes inv: "credit_inv t" and fr: "credit_frame s t"
    and run: "settle env s t job allowed k ty rs ac meta = Inr (x, u)"
    and allowed: "set allowed \<subseteq> {RESERVED, RECONCILIATION_REQUIRED}"
  shows "credit_action t u"
proof -
  from run obtain oe where oe: "entry_for_job s job True = Inr oe"
    by (auto simp: settle_def res_simps)
  show ?thesis
  proof (cases "oe = None \<or> ce_status (the oe) = SETTLED")
    case True
    with run oe have "u = t" by (cases oe) (auto simp: settle_def)
    then show ?thesis by (simp add: credit_action.idle)
  next
    case False
    then obtain e where Some: "oe = Some e" and ns: "ce_status e \<noteq> SETTLED" by auto
    note e = entry_for_job_Some [OF oe [unfolded Some]]
    let ?Q = "\<lambda>x. ce_status x \<in> set allowed \<and> ce_version x = ce_version e"
    let ?f = "settle_values (env_now env) rs (ce_status e)"
    let ?t1 = "t\<lparr>entries := update_where (\<lambda>x. ce_id x = ce_id e \<and> ?Q x) ?f (entries t)\<rparr>"
    from settle_values_simps(1) show ?thesis
    proof (rule cas_cases [where Q = ?Q and f = ?f, OF inv fr e(1)])
      assume lost: "affected (\<lambda>x. ce_id x = ce_id e \<and> ?Q x) (entries t) \<noteq> 1" and "?t1 = t"
      have "u = ?t1"
        using run oe Some ns lost
        by (auto simp: settle_def split: if_splits dest: resolve_transition_race_Inr)
      with \<open>?t1 = t\<close> show ?thesis by (simp add: credit_action.idle)
    next
      fix r
      assume won: "affected (\<lambda>x. ce_id x = ce_id e \<and> ?Q x) (entries t) = 1"
        and r: "r \<in> set (entries t)" "entry_keeps e r" "?Q r" and got: "get_entry ?t1 (ce_id e) = Some (?f r)"
        and t1: "?t1 = t\<lparr>entries := update_where (\<lambda>x. ce_id x = ce_id r) (\<lambda>_. ?f r) (entries t)\<rparr>"
      from r(3) allowed have st: "ce_status r \<in> {RESERVED, RECONCILIATION_REQUIRED}" by blast
      from run oe Some ns won got obtain b where bal: "workspace_balance ?t1 (?f r) = Inr b"
        and ev: "record_event env (set_cost_credits (job_id job) (of_int (ce_credits r))
              (set_balance_after (ce_id r) b ?t1)) ((?f r)\<lparr>ce_balance_after := b\<rparr>)
              k ty (ce_credits r) 0 b rs ac meta = Inr u"
        by (auto simp: settle_def Let_def res_simps split: if_splits)
      have ok: "credit_entry_ok ((?f r)\<lparr>ce_balance_after := b\<rparr>) \<and>
          entry_keeps r ((?f r)\<lparr>ce_balance_after := b\<rparr>)" if "0 \<le> b" for b
        using settle_values_ok [OF _ st that] inv r(1) by (auto simp: credit_inv_def)
      show ?thesis
        using move_without_wallet [OF inv r(1) _ _ _ _ ok t1 bal ev [unfolded set_cost_credits_def]] st
        by (auto simp: phase_step_simps)
    qed
  qed
qed

lemma hold_refines:
  assumes inv: "credit_inv t" and fr: "credit_frame s t"
    and run: "require_reconciliation env s t job rs = Inr (x, u)"
  shows "credit_action t u"
proof -
  from run obtain oe where oe: "entry_for_job s job True = Inr oe"
    by (auto simp: require_reconciliation_def res_simps)
  show ?thesis
  proof (cases "oe = None \<or> ce_status (the oe) \<noteq> RESERVED")
    case True
    with run oe have "u = t"
      by (cases oe) (auto simp: require_reconciliation_def split: if_splits)
    then show ?thesis by (simp add: credit_action.idle)
  next
    case False
    then obtain e where Some: "oe = Some e" and ns: "ce_status e = RESERVED" by auto
    note e = entry_for_job_Some [OF oe [unfolded Some]]
    let ?Q = "\<lambda>x. ce_status x = RESERVED \<and> ce_version x = ce_version e"
    let ?f = "hold_values (env_now env) rs"
    let ?t1 = "t\<lparr>entries := update_where (\<lambda>x. ce_id x = ce_id e \<and> ?Q x) ?f (entries t)\<rparr>"
    from hold_values_simps(1) show ?thesis
    proof (rule cas_cases [where Q = ?Q and f = ?f, OF inv fr e(1)])
      assume lost: "affected (\<lambda>x. ce_id x = ce_id e \<and> ?Q x) (entries t) \<noteq> 1" and "?t1 = t"
      have "u = ?t1"
        using run oe Some ns lost
        by (auto simp: require_reconciliation_def split: if_splits dest: resolve_transition_race_Inr)
      with \<open>?t1 = t\<close> show ?thesis by (simp add: credit_action.idle)
    next
      fix r
      assume won: "affected (\<lambda>x. ce_id x = ce_id e \<and> ?Q x) (entries t) = 1"
        and r: "r \<in> set (entries t)" "entry_keeps e r" "?Q r" and got: "get_entry ?t1 (ce_id e) = Some (?f r)"
        and t1: "?t1 = t\<lparr>entries := update_where (\<lambda>x. ce_id x = ce_id r) (\<lambda>_. ?f r) (entries t)\<rparr>"
      from run oe Some ns won got obtain b where bal: "workspace_balance ?t1 (?f r) = Inr b"
        and ev: "record_event env (set_balance_after (ce_id r) b ?t1) ((?f r)\<lparr>ce_balance_after := b\<rparr>)
              ''reconciliation-required'' RECONCILIATION_REQUIRED (ce_credits r) 0 b rs ''SYSTEM'' [] = Inr u"
        by (auto simp: require_reconciliation_def Let_def res_simps split: if_splits)
      have ev': "record_event env (set_balance_after (ce_id r) b ?t1\<lparr>costs := costs t\<rparr>)
              ((?f r)\<lparr>ce_balance_after := b\<rparr>)
              ''reconciliation-required'' RECONCILIATION_REQUIRED (ce_credits r) 0 b rs ''SYSTEM'' [] = Inr u"
        using ev by (simp add: set_balance_after_def)
      have ok: "credit_entry_ok ((?f r)\<lparr>ce_balance_after := b\<rparr>) \<and>
          entry_keeps r ((?f r)\<lparr>ce_balance_after := b\<rparr>)" if "0 \<le> b" for b
        using hold_values_ok [OF _ _ that] inv r by (auto simp: credit_inv_def)
      show ?thesis
        using move_without_wallet [OF inv r(1) _ _ _ _ ok t1 bal ev'] r(3)
        by (auto simp: phase_step_simps)
    qed
  qed
qed

text \<open>The refunding tail: give the credits back to the wallet, then as above.\<close>

lemma move_with_wallet:
  assumes inv: "credit_inv t" and r: "r \<in> set (entries t)" "ce_status q = REFUNDED"
    and f: "ce_id q = ce_id r" "ce_workspace_id q = ce_workspace_id r" "ce_credits q = ce_credits r"
    and phase: "phase_step (ce_status r) REFUNDED"
    and ok: "\<And>b. 0 \<le> b \<Longrightarrow> credit_entry_ok (q\<lparr>ce_balance_after := b\<rparr>) \<and>
                 entry_keeps r (q\<lparr>ce_balance_after := b\<rparr>)"
    and w: "w0 \<in> set (workspaces t)" "ws_id w0 = ce_workspace_id r"
    and tm: "tm = t\<lparr>entries := update_where (\<lambda>x. ce_id x = ce_id r) (\<lambda>_. q) (entries t),
        workspaces := update_where (\<lambda>x. ws_id x = ws_id w0)
          (\<lambda>_. w0\<lparr>credit_balance := credit_balance w0 + ce_credits r\<rparr>) (workspaces t)\<rparr>"
    and b: "b = credit_balance w0 + ce_credits r"
    and ev: "record_event env (set_balance_after (ce_id r) b tm\<lparr>costs := cs\<rparr>)
               (q\<lparr>ce_balance_after := b\<rparr>) k ty c (ce_credits r) b' rs ac meta = Inr u"
  shows "credit_action t u"
proof -
  have "0 \<le> credit_balance w0" and "0 < ce_credits r"
    using inv w r by (auto simp: credit_inv_def workspace_ok_def credit_entry_ok_def)
  then have "0 \<le> b" by (simp add: b)
  let ?r = "q\<lparr>ce_balance_after := b\<rparr>"
  have delta: "wallet_delta ?r = ce_credits r" using r f by (simp add: wallet_delta_def)
  from ev obtain v where v: "u = set_balance_after (ce_id r) b tm\<lparr>costs := cs, events := events t @ [v]\<rparr>"
    "ev_balance_delta v = ce_credits r" "ev_workspace_id v = ce_workspace_id r"
    by (rule record_event_Inr) (simp add: set_balance_after_def tm f)
  have "u = t\<lparr>workspaces := update_where (\<lambda>x. ws_id x = ws_id w0)
      (\<lambda>_. w0\<lparr>credit_balance := credit_balance w0 + wallet_delta ?r\<rparr>) (workspaces t),
      entries := update_where (\<lambda>x. ce_id x = ce_id r) (\<lambda>_. ?r) (entries t),
      events := events t @ [v], costs := cs\<rparr>"
    using update_where_twice [of ce_id "q" "ce_id r"] f
    unfolding delta v set_balance_after_def tm by simp
  then show ?thesis
    using credit_action.move [OF r(1) _ _ _ w v(3), of ?r] ok [OF \<open>0 \<le> b\<close>] phase v(2) delta r(2) by simp
qed

text \<open>\<^verbatim>\<open>_refund\<close>'s second UPDATE: the wallet row of the entry, credits added.\<close>

lemma wallet_restored:
  fixes t :: credit_db and wid :: string and c :: int
  assumes "credit_inv t" and "affected (\<lambda>w. ws_id w = wid) (workspaces t) = 1"
    and "workspaces tm = workspaces t"
  defines "t2 \<equiv> tm\<lparr>workspaces := update_where (\<lambda>w. ws_id w = wid)
      (credit_balance_update (\<lambda>b. b + c)) (workspaces tm)\<rparr>"
  obtains w0 where "w0 \<in> set (workspaces t)" and "ws_id w0 = wid"
    and "get_workspace t2 wid = Some (w0\<lparr>credit_balance := credit_balance w0 + c\<rparr>)"
    and "t2 = tm\<lparr>workspaces := update_where (\<lambda>x. ws_id x = ws_id w0)
            (\<lambda>_. w0\<lparr>credit_balance := credit_balance w0 + c\<rparr>) (workspaces t)\<rparr>"
proof -
  let ?g = "credit_balance_update (\<lambda>b. b + c)"
  from assms(2) obtain w0 where w0: "w0 \<in> set (workspaces t)" "ws_id w0 = wid"
    by (rule affected_oneE)
  have g: "?g w0 = w0\<lparr>credit_balance := credit_balance w0 + c\<rparr>"
    by (rule credit_balance_update_eq)
  have "update_where (\<lambda>w. ws_id w = wid) ?g (workspaces t) =
      update_where (\<lambda>w. ws_id w = ws_id w0) (\<lambda>_. ?g w0) (workspaces t)"
    using update_where_single [OF _ w0(1), of ws_id "\<lambda>w. ws_id w = wid" ?g] assms(1) w0(2)
    by (simp add: credit_inv_def)
  moreover have "row_where (\<lambda>w. ws_id w = ws_id w0)
      (update_where (\<lambda>w. ws_id w = ws_id w0) (\<lambda>_. ?g w0) (workspaces t)) = Some (?g w0)"
    using row_where_update_single [OF w0(1), of ws_id "?g w0"] by simp
  ultimately show thesis
    using that [OF w0] w0(2) by (simp add: t2_def assms(3) get_workspace_def g)
qed

lemma refund_refines:
  assumes inv: "credit_inv t" and fr: "credit_frame s t"
    and run: "refund env s t job allowed k ty rs ac meta = Inr (x, u)"
    and allowed: "set allowed \<subseteq> {RESERVED, RECONCILIATION_REQUIRED}"
  shows "credit_action t u"
proof -
  from run obtain oe where oe: "entry_for_job s job True = Inr oe"
    by (auto simp: refund_def res_simps)
  show ?thesis
  proof (cases "oe = None \<or> ce_status (the oe) = REFUNDED")
    case True
    with run oe have "u = t" by (cases oe) (auto simp: refund_def)
    then show ?thesis by (simp add: credit_action.idle)
  next
    case False
    then obtain e where Some: "oe = Some e" and ns: "ce_status e \<noteq> REFUNDED" by auto
    note e = entry_for_job_Some [OF oe [unfolded Some]]
    let ?Q = "\<lambda>x. ce_status x \<in> set allowed \<and> ce_version x = ce_version e"
    let ?f = "refund_values (env_now env) rs (ce_status e)"
    let ?t1 = "t\<lparr>entries := update_where (\<lambda>x. ce_id x = ce_id e \<and> ?Q x) ?f (entries t)\<rparr>"
    from refund_values_simps(1) show ?thesis
    proof (rule cas_cases [where Q = ?Q and f = ?f, OF inv fr e(1)])
      assume lost: "affected (\<lambda>x. ce_id x = ce_id e \<and> ?Q x) (entries t) \<noteq> 1" and "?t1 = t"
      have "u = ?t1"
        using run oe Some ns lost
        by (auto simp: refund_def split: if_splits dest: resolve_transition_race_Inr)
      with \<open>?t1 = t\<close> show ?thesis by (simp add: credit_action.idle)
    next
      fix r
      assume won: "affected (\<lambda>x. ce_id x = ce_id e \<and> ?Q x) (entries t) = 1"
        and r: "r \<in> set (entries t)" "entry_keeps e r" "?Q r" and got: "get_entry ?t1 (ce_id e) = Some (?f r)"
        and t1: "?t1 = t\<lparr>entries := update_where (\<lambda>x. ce_id x = ce_id r) (\<lambda>_. ?f r) (entries t)\<rparr>"
      from r(3) allowed have st: "ce_status r \<in> {RESERVED, RECONCILIATION_REQUIRED}" by blast
      from r(2) have same: "ce_workspace_id r = ce_workspace_id e" "ce_credits r = ce_credits e"
        by (simp_all add: entry_keeps_def)
      have hit: "affected (\<lambda>w. ws_id w = ce_workspace_id e) (workspaces t) = 1"
        using run oe Some ns won by (auto simp: refund_def Let_def split: if_splits)
      let ?t2 = "?t1\<lparr>workspaces := update_where (\<lambda>w. ws_id w = ce_workspace_id e)
        (credit_balance_update (\<lambda>b. b + ce_credits e)) (workspaces ?t1)\<rparr>"
      obtain w0 where w0: "w0 \<in> set (workspaces t)" "ws_id w0 = ce_workspace_id e"
        and gw: "get_workspace ?t2 (ce_workspace_id e) =
          Some (w0\<lparr>credit_balance := credit_balance w0 + ce_credits e\<rparr>)"
        and t2: "?t2 = ?t1\<lparr>workspaces := update_where (\<lambda>x. ws_id x = ws_id w0)
            (\<lambda>_. w0\<lparr>credit_balance := credit_balance w0 + ce_credits e\<rparr>) (workspaces t)\<rparr>"
        by (rule wallet_restored [OF inv hit, of ?t1 "ce_credits e"]) simp_all
      have ge: "get_entry ?t2 (ce_id e) = Some (?f r)" using got by (simp add: get_entry_def)
      let ?b = "credit_balance w0 + ce_credits r"
      have ev: "record_event env (set_cost_credits (job_id job) 0 (set_balance_after (ce_id r) ?b ?t2))
              ((?f r)\<lparr>ce_balance_after := ?b\<rparr>) k ty (ce_credits r) (ce_credits r) ?b rs ac meta = Inr u"
        using run oe Some ns won hit gw ge same
        by (auto simp: refund_def Let_def res_simps split: if_splits)
      have ok: "credit_entry_ok ((?f r)\<lparr>ce_balance_after := b\<rparr>) \<and>
          entry_keeps r ((?f r)\<lparr>ce_balance_after := b\<rparr>)" if "0 \<le> b" for b
        using refund_values_ok [OF _ st that] inv r(1) by (auto simp: credit_inv_def)
      have t2': "?t2 = t\<lparr>entries := update_where (\<lambda>x. ce_id x = ce_id r) (\<lambda>_. ?f r) (entries t),
          workspaces := update_where (\<lambda>x. ws_id x = ws_id w0)
            (\<lambda>_. w0\<lparr>credit_balance := credit_balance w0 + ce_credits r\<rparr>) (workspaces t)\<rparr>"
        by (subst t2, subst t1) (simp add: same)
      show ?thesis
        using move_with_wallet [OF inv r(1) _ _ _ _ _ ok w0(1) _ t2' refl
            ev [unfolded set_cost_credits_def]] st w0(2) same
        by (auto simp: phase_step_simps)
    qed
  qed
qed

lemma new_entry_simps [simp]:
  "ce_id (new_entry env w job k c m) = env_entry_id env"
  "ce_workspace_id (new_entry env w job k c m) = ws_id w"
  "ce_status (new_entry env w job k c m) = RESERVED"
  "ce_credits (new_entry env w job k c m) = c"
  "ce_balance_after (new_entry env w job k c m) = credit_balance w"
  "ce_settled_credits (new_entry env w job k c m) = 0"
  "ce_generation_job_id (new_entry env w job k c m) = Some (job_id job)"
  "ce_project_id (new_entry env w job k c m) = Some (job_project_id job)"
  "ce_idempotency_key (new_entry env w job k c m) = k"
  by (simp_all add: new_entry_def)

lemma new_entry_ok:
  "1 \<le> c \<Longrightarrow> 0 \<le> credit_balance w \<Longrightarrow> credit_entry_ok (new_entry env w job k c m)"
  by (simp add: credit_entry_ok_def new_entry_def)

lemma reserve_wallet_Inr:
  assumes inv: "credit_inv t" and run: "reserve_wallet env t job key c m balance = Inr (x, u)"
  obtains w v where "w \<in> set (workspaces t)" and "ws_id w = the (bal_workspace_id balance)"
    and "ws_status w = ''ACTIVE''" and "ws_plan_tier w = bal_plan_tier balance"
    and "c \<le> credit_balance w"
    and "env_entry_id env \<notin> ce_id ` set (entries t)"
    and "ev_workspace_id v = ws_id w" and "ev_balance_delta v = - c"
    and "u = t\<lparr>workspaces := update_where (\<lambda>x. ws_id x = ws_id w)
                 (\<lambda>_. w\<lparr>credit_balance := credit_balance w - c\<rparr>) (workspaces t),
               entries := entries t @
                 [new_entry env (w\<lparr>credit_balance := credit_balance w - c\<rparr>) job key c m],
               events := events t @ [v]\<rparr>"
    and "x = \<lparr>ch_applied = True, ch_replayed = False, ch_entry_id = Some (env_entry_id env),
            ch_credits = c, ch_balance_after = Some (credit_balance w - c), ch_status = Some RESERVED\<rparr>"
proof -
  let ?wid = "the (bal_workspace_id balance)"
  let ?P = "\<lambda>w. ws_id w = ?wid \<and> ws_status w = ''ACTIVE'' \<and>
     ws_plan_tier w = bal_plan_tier balance \<and> credit_balance w \<ge> c"
  let ?g = "credit_balance_update (\<lambda>b. b - c)"
  let ?t1 = "t\<lparr>workspaces := update_where ?P ?g (workspaces t)\<rparr>"
  have hit: "affected ?P (workspaces t) = 1"
    using run by (auto simp: reserve_wallet_def Let_def split: if_splits)
  then obtain w where w: "w \<in> set (workspaces t)" "?P w" by (rule affected_oneE)
  have g: "?g w = w\<lparr>credit_balance := credit_balance w - c\<rparr>"
    by (rule credit_balance_update_eq)
  have upd: "update_where ?P ?g (workspaces t) =
      update_where (\<lambda>x. ws_id x = ws_id w) (\<lambda>_. ?g w) (workspaces t)"
    using update_where_single [OF _ w(1), of ws_id ?P ?g] inv w(2) by (simp add: credit_inv_def)
  have got: "get_workspace ?t1 ?wid = Some (?g w)"
    using row_where_update_single [OF w(1), of ws_id "?g w"] w(2) by (simp add: get_workspace_def upd)
  let ?e = "new_entry env (?g w) job key c m"
  from run hit got obtain t2 where ins: "insert_entry ?t1 ?e = Inr t2"
    and ev: "record_event env t2 ?e ''reserve'' ''RESERVED'' c (- c) (credit_balance (?g w))
      ''GENERATION_RESERVED'' ''SYSTEM'' [] = Inr u"
    and x: "x = \<lparr>ch_applied = True, ch_replayed = False, ch_entry_id = Some (env_entry_id env),
            ch_credits = c, ch_balance_after = Some (credit_balance (?g w)), ch_status = Some RESERVED\<rparr>"
    by (auto simp: reserve_wallet_def Let_def res_simps split: if_splits)
  note t2 = insert_entry_Inr [OF ins]
  from ev obtain v where v: "u = t2\<lparr>events := events t2 @ [v]\<rparr>" "ev_balance_delta v = - c"
    "ev_workspace_id v = ws_id w" by (rule record_event_Inr) simp
  show thesis
    using that [OF w(1)] w(2) t2 v x by (simp add: upd g)
qed

lemma reserve_refines:
  assumes inv: "credit_inv t" and run: "reserve_generation env s t job key c m = Inr (x, u)"
  shows "credit_action t u"
proof -
  let ?key = "py_strip key"
  from run have c: "1 \<le> c" by (auto simp: reserve_generation_def split: if_splits)
  from run consider "u = t"
    | balance where "reserve_wallet env t job ?key c m balance = Inr (x, u)"
    by (auto simp: reserve_generation_def Let_def res_simps split: if_splits option.splits)
  then show ?thesis
  proof cases
    case 1
    then show ?thesis by (simp add: credit_action.idle)
  next
    case 2
    with inv show ?thesis
    proof (rule reserve_wallet_Inr)
      fix w v
      assume *: "w \<in> set (workspaces t)" "c \<le> credit_balance w"
        "env_entry_id env \<notin> ce_id ` set (entries t)" "ev_workspace_id v = ws_id w"
        "ev_balance_delta v = - c"
        and u: "u = t\<lparr>workspaces := update_where (\<lambda>x. ws_id x = ws_id w)
                 (\<lambda>_. w\<lparr>credit_balance := credit_balance w - c\<rparr>) (workspaces t),
               entries := entries t @
                 [new_entry env (w\<lparr>credit_balance := credit_balance w - c\<rparr>) job ?key c m],
               events := events t @ [v]\<rparr>"
      show ?thesis
        unfolding u using * c by (intro credit_action.open_hold) (auto intro!: new_entry_ok)
    qed
  qed
qed

lemma note_refines:
  assumes "record_event env t e k ty c 0 b rs ac meta = Inr u"
  shows "credit_action t u"
  using assms by (rule record_event_Inr) (auto intro: credit_action.note_event)

lemma boundary_refines:
  "record_submission_boundary env s t job attempt = Inr (x, u) \<Longrightarrow> credit_action t u"
  by (auto simp: record_submission_boundary_def Let_def res_simps credit_action.idle
      split: option.splits if_splits dest: note_refines)

lemma confirmed_refines:
  "record_submission_confirmed env s t job attempt pid = Inr (x, u) \<Longrightarrow> credit_action t u"
  by (auto simp: record_submission_confirmed_def Let_def res_simps credit_action.idle
      split: option.splits if_splits dest: note_refines)

lemma reconcile_Inr_cases:
  assumes "reconcile_generation env s t job action key rs evidence actor = Inr (x, u)"
  obtains "u = t"
    | k ty meta where "settle env s t job [RECONCILIATION_REQUIRED] k ty rs actor meta = Inr (x, u)"
    | k ty meta where "refund env s t job [RECONCILIATION_REQUIRED] k ty rs actor meta = Inr (x, u)"
proof -
  from assms obtain oe where oe: "entry_for_job s job True = Inr oe"
    by (auto simp: reconcile_generation_def Let_def res_simps split: if_split_asm)
  with assms obtain e where e: "oe = Some e"
    by (cases oe) (auto simp: reconcile_generation_def Let_def split: if_split_asm)
  let ?ev = "row_where (\<lambda>v. ev_credit_entry_id v = ce_id e \<and> ev_key v = ''manual:'' @ py_strip key) (events s)"
  show thesis
  proof (cases ?ev)
    case None
    with assms oe e that show thesis
      by (auto simp: reconcile_generation_def Let_def split: if_split_asm)
  next
    case (Some ev)
    with assms oe e have "u = t"
      by (auto simp: reconcile_generation_def Let_def split: if_split_asm option.split_asm)
    with that show thesis by simp
  qed
qed

lemma reconcile_refines:
  assumes "credit_inv t" and "credit_frame s t"
    and "reconcile_generation env s t job action key rs evidence actor = Inr (x, u)"
  shows "credit_action t u"
  using assms(3)
  by (rule reconcile_Inr_cases)
    (auto intro: settle_refines [OF assms(1,2)] refund_refines [OF assms(1,2)] credit_action.idle)

text \<open>Refinement: whatever a transaction read, what it does to the state it commits on is one action.\<close>

lemma credit_txn_refines:
  assumes "credit_inv t" and "credit_frame s t" and "credit_txn s t u"
  shows "credit_action t u"
proof -
  from assms(3) obtain op env where run: "credit_exec op env s t = Inr u"
    by (auto simp: credit_txn_def)
  have unsnd: "\<exists>x. m = Inr (x, u)" if "map_sum id snd m = Inr u" for m :: "credit_error + ('x \<times> credit_db)"
    using that by (cases m) auto
  show ?thesis
  proof (cases op)
    case (Settle job reason)
    with run show ?thesis
      by (auto simp: settle_generation_def dest!: unsnd intro: settle_refines [OF assms(1,2)])
  next
    case (Refund job reason)
    with run show ?thesis
      by (auto simp: refund_generation_def dest!: unsnd intro: refund_refines [OF assms(1,2)])
  qed (use run assms in \<open>auto dest!: unsnd intro: reserve_refines boundary_refines
        confirmed_refines hold_refines reconcile_refines\<close>)
qed

end
