(* ===== verification/Credit_Properties.thy ===== *)
theory Credit_Properties
  imports Credit_Refinement
begin

text \<open>
  What the credit ledger promises, over every interleaving of its transactions: the CHECK
  constraints, immutable billing facts, conservation of credits per workspace, agreement of the
  wallet with the audit log, terminal statuses; and what single operations do on their branches
  (replay, insufficient credits, the race of two decisions over one reservation).
\<close>

section \<open>The abstract actions keep the invariant, the frame and the totals\<close>

definition wallet_total :: "credit_db \<Rightarrow> string \<Rightarrow> int" where
  "wallet_total s w = available_credits s w + held_credits s w + spent_credits s w"

definition audit_gap :: "credit_db \<Rightarrow> string \<Rightarrow> int" where
  "audit_gap s w = available_credits s w - logged_delta s w"

lemma credit_entry_ok_cases:
  assumes "credit_entry_ok e"
  obtains "ce_status e \<in> {RESERVED, RECONCILIATION_REQUIRED}" and "ce_settled_credits e = 0"
    | "ce_status e = SETTLED" and "ce_settled_credits e = ce_credits e"
    | "ce_status e = REFUNDED" and "ce_settled_credits e = 0"
  using assms by (auto simp: credit_entry_ok_def)

lemma phase_step_from: "phase_step p q \<Longrightarrow> p \<in> {RESERVED, RECONCILIATION_REQUIRED}"
  by (auto simp: phase_step_simps)

lemma phase_step_to: "phase_step p q \<Longrightarrow> q \<in> {SETTLED, REFUNDED, RECONCILIATION_REQUIRED}"
  by (auto simp: phase_step_simps)

text \<open>What an entry holds or has spent changes against the wallet, never by itself.\<close>

lemma move_balance:
  assumes "credit_entry_ok r" and "credit_entry_ok r'" and "phase_step (ce_status r) (ce_status r')"
    and "ce_credits r' = ce_credits r"
  defines "held \<equiv> \<lambda>e. if ce_status e \<in> {RESERVED, RECONCILIATION_REQUIRED} then ce_credits e else 0"
  shows "held r' + ce_settled_credits r' + wallet_delta r' = held r + ce_settled_credits r"
proof -
  have "held r + ce_settled_credits r = ce_credits r"
    using assms(1) phase_step_from [OF assms(3)]
    by (cases rule: credit_entry_ok_cases) (auto simp: held_def)
  moreover have "held r' + ce_settled_credits r' + wallet_delta r' = ce_credits r'"
    using assms(2) phase_step_to [OF assms(3)]
    by (cases rule: credit_entry_ok_cases) (auto simp: held_def wallet_delta_def)
  ultimately show ?thesis using assms(4) by simp
qed

lemma workspace_ok_balance:
  "workspace_ok w \<Longrightarrow> 0 \<le> b \<Longrightarrow> workspace_ok (w\<lparr>credit_balance := b\<rparr>)"
  by (simp add: workspace_ok_def)

lemma credit_action_inv:
  assumes "credit_action t u" and inv: "credit_inv t"
  shows "credit_inv u"
  using assms(1)
proof cases
  case (open_hold w c e v)
  then have "workspace_ok (w\<lparr>credit_balance := credit_balance w - c\<rparr>)"
    using inv by (intro workspace_ok_balance) (auto simp: credit_inv_def)
  with open_hold inv show ?thesis
    by (auto simp: credit_inv_def set_update_where map_update_where split: if_splits)
next
  case (move r r' w v cs)
  have "0 \<le> wallet_delta r'" and "0 \<le> credit_balance w"
    using move inv by (auto simp: wallet_delta_def credit_entry_ok_def credit_inv_def workspace_ok_def)
  then have "workspace_ok (w\<lparr>credit_balance := credit_balance w + wallet_delta r'\<rparr>)"
    using inv move by (intro workspace_ok_balance) (auto simp: credit_inv_def)
  with move inv show ?thesis
    by (auto simp: credit_inv_def set_update_where map_update_where entry_keeps_def split: if_splits)
qed (use inv in \<open>auto simp: credit_inv_def\<close>)

lemma credit_action_frame:
  assumes "credit_action t u" and inv: "credit_inv t"
  shows "credit_frame t u"
  using assms(1)
proof cases
  case (open_hold w c e v)
  then show ?thesis
    by (auto simp: credit_frame_def map_update_where intro: entry_keeps_refl)
next
  case (move r r' w v cs)
  have "\<exists>e' \<in> set (entries u). entry_keeps e e'" if e: "e \<in> set (entries t)" for e
  proof (cases "ce_id e = ce_id r")
    case True
    with e inv move have "e = r" by (auto simp: credit_inv_def dest: distinct_keyD)
    moreover have "r' \<in> set (entries u)" using move(1,2) by (force simp: set_update_where)
    ultimately show ?thesis using move(3) by blast
  next
    case False
    with e move(1) have "e \<in> set (entries u)" by (force simp: set_update_where)
    then show ?thesis using entry_keeps_refl by blast
  qed
  with move show ?thesis by (auto simp: credit_frame_def map_update_where)
qed (auto simp: credit_frame_def intro: entry_keeps_refl)

lemma available_update:
  assumes "credit_inv t" and "w \<in> set (workspaces t)"
  shows "tally (\<lambda>x. if ws_id x = k then credit_balance x else 0)
           (update_where (\<lambda>x. ws_id x = ws_id w) (\<lambda>_. w\<lparr>credit_balance := b\<rparr>) (workspaces t)) =
         available_credits t k + (if ws_id w = k then b - credit_balance w else 0)"
  using assms tally_update_single [of ws_id "workspaces t" w]
  by (simp add: available_credits_def credit_inv_def)

lemma credit_action_audit:
  assumes "credit_action t u" and inv: "credit_inv t"
  shows "audit_gap u k = audit_gap t k"
  using assms(1)
proof cases
  case (open_hold w c e v)
  with available_update [OF inv open_hold(2), of k "credit_balance w - c"] show ?thesis
    by (simp add: audit_gap_def available_credits_def logged_delta_def)
next
  case (move r r' w v cs)
  with available_update [OF inv move(6), of k "credit_balance w + wallet_delta r'"] show ?thesis
    by (simp add: audit_gap_def available_credits_def logged_delta_def)
qed (auto simp: audit_gap_def available_credits_def logged_delta_def)

lemma credit_action_total:
  assumes "credit_action t u" and inv: "credit_inv t"
  shows "wallet_total u k = wallet_total t k"
  using assms(1)
proof cases
  case (open_hold w c e v)
  have "ce_settled_credits e = 0" using open_hold by (auto simp: credit_entry_ok_def)
  with open_hold available_update [OF inv open_hold(2), of k "credit_balance w - c"] show ?thesis
    by (simp add: wallet_total_def available_credits_def held_credits_def spent_credits_def)
next
  case (move r r' w v cs)
  have dist: "distinct (map ce_id (entries t))" and ok: "credit_entry_ok r"
    using inv move by (auto simp: credit_inv_def)
  have same: "ce_workspace_id r' = ce_workspace_id r" "ce_credits r' = ce_credits r"
    using move by (auto simp: entry_keeps_def)
  note upd = tally_update_single [OF dist move(2), where f = "\<lambda>_. r'"]
  show ?thesis
    using move available_update [OF inv move(6), of k "credit_balance w + wallet_delta r'"]
      move_balance [OF ok move(5,4) same(2)] same
    by (simp add: wallet_total_def available_credits_def held_credits_def spent_credits_def upd
        split: if_splits)
qed (auto simp: wallet_total_def available_credits_def held_credits_def spent_credits_def)

section \<open>The ledger meets the contract of interleaved transactions\<close>

lemma credit_frame_trans: "credit_frame s t \<Longrightarrow> credit_frame t u \<Longrightarrow> credit_frame s u"
  unfolding credit_frame_def
  by (auto intro: prefix_order.trans) (meson entry_keeps_trans)

interpretation ledger: conserving_txn credit_txn credit_inv credit_frame wallet_total
proof unfold_locales
  show "credit_frame s s" for s by (auto simp: credit_frame_def intro: entry_keeps_refl)
  show "credit_frame s t \<Longrightarrow> credit_frame t u \<Longrightarrow> credit_frame s u" for s t u
    by (rule credit_frame_trans)
  show "credit_inv u" if "credit_inv t" "credit_frame s t" "credit_txn s t u" for s t u
    using credit_txn_refines [OF that] that(1) by (rule credit_action_inv)
  show "credit_frame t u" if "credit_inv t" "credit_frame s t" "credit_txn s t u" for s t u
    using credit_txn_refines [OF that] that(1) by (rule credit_action_frame)
  show "wallet_total u k = wallet_total t k"
    if "credit_inv t" "credit_frame s t" "credit_txn s t u" for s t u k
    using credit_txn_refines [OF that] that(1) by (rule credit_action_total)
qed

interpretation audit: conserving_txn credit_txn credit_inv credit_frame audit_gap
proof unfold_locales
  show "audit_gap u k = audit_gap t k"
    if "credit_inv t" "credit_frame s t" "credit_txn s t u" for s t u k
    using credit_txn_refines [OF that] that(1) by (rule credit_action_audit)
qed

section \<open>Operations on their branches\<close>

lemma entry_for_job_same_id:
  assumes "entry_for_job s job f = Inr (Some e)" and "credit_inv s" and "e' \<in> set (entries s)"
    and "ce_id e' = ce_id e"
  shows "e' = e"
  using assms entry_for_job_Some(1) [OF assms(1)] by (auto simp: credit_inv_def dest: distinct_keyD)

text \<open>
  A settling transaction that is not a replay leaves the entry it read SETTLED, one version on.
\<close>

lemma settle_generation_writes:
  assumes inv: "credit_inv t" and fr: "credit_frame s t"
    and run: "settle_generation env s t job reason = Inr (x, u)" and "\<not> tr_replayed x"
    and e: "entry_for_job s job True = Inr (Some e)"
  obtains r' where "r' \<in> set (entries u)" and "ce_id r' = ce_id e" and "ce_status r' = SETTLED"
    and "ce_version r' = ce_version e + 1"
proof -
  let ?Q = "\<lambda>x. ce_status x \<in> set [RESERVED, RECONCILIATION_REQUIRED] \<and> ce_version x = ce_version e"
  let ?f = "settle_values (env_now env) reason (ce_status e)"
  let ?t1 = "t\<lparr>entries := update_where (\<lambda>x. ce_id x = ce_id e \<and> ?Q x) ?f (entries t)\<rparr>"
  have ns: "ce_status e \<noteq> SETTLED"
    using assms(4) run e by (auto simp: settle_generation_def settle_def credit_snapshot_def)
  from settle_values_simps(1) show thesis
  proof (rule cas_cases [where Q = ?Q and f = ?f, OF inv fr entry_for_job_Some(1) [OF e]])
    assume "affected (\<lambda>x. ce_id x = ce_id e \<and> ?Q x) (entries t) \<noteq> 1"
    then have "tr_replayed x"
      using run e ns by (auto simp: settle_generation_def settle_def resolve_transition_race_def
          credit_snapshot_def Let_def split: if_split_asm option.split_asm)
    with assms(4) show thesis by simp
  next
    fix r
    assume won: "affected (\<lambda>x. ce_id x = ce_id e \<and> ?Q x) (entries t) = 1"
      and r: "r \<in> set (entries t)" "entry_keeps e r" "?Q r" and got: "get_entry ?t1 (ce_id e) = Some (?f r)"
      and t1: "?t1 = t\<lparr>entries := update_where (\<lambda>x. ce_id x = ce_id r) (\<lambda>_. ?f r) (entries t)\<rparr>"
    from run e ns won got obtain b where
      ev: "record_event env (set_cost_credits (job_id job) (of_int (ce_credits r))
            (set_balance_after (ce_id r) b ?t1)) ((?f r)\<lparr>ce_balance_after := b\<rparr>)
            ''settle'' ''SETTLED'' (ce_credits r) 0 b reason ''SYSTEM'' [] = Inr u"
      by (auto simp: settle_generation_def settle_def Let_def res_simps split: if_split_asm)
    then have "entries u = update_where (\<lambda>x. ce_id x = ce_id r)
        (ce_balance_after_update (\<lambda>_. b)) (entries ?t1)"
      by (rule record_event_Inr) (simp add: set_cost_credits_def set_balance_after_def)
    also have "\<dots> = update_where (\<lambda>x. ce_id x = ce_id r) (\<lambda>_. (?f r)\<lparr>ce_balance_after := b\<rparr>) (entries t)"
      unfolding t1 by (simp add: update_where_twice)
    finally have "(?f r)\<lparr>ce_balance_after := b\<rparr> \<in> set (entries u)"
      using r(1) by (force simp: set_update_where)
    with r(2,3) that show thesis by (auto simp: entry_keeps_def settle_values_def)
  qed
qed

lemma row_by_key_absent:
  "\<forall>x \<in> set rows. \<not> P x \<Longrightarrow> row_where P (rows @ ys) = row_where P ys"
  by (induction rows) auto

lemma affected_version_moved:
  assumes "credit_inv t" and "r' \<in> set (entries t)" and "ce_version r' \<noteq> v"
  shows "affected (\<lambda>x. ce_id x = ce_id r' \<and> ce_status x \<in> S \<and> ce_version x = v) (entries t) = 0"
  using assms by (auto simp: affected_def filter_empty_conv credit_inv_def dest: distinct_keyD)

lemma get_entry_member:
  "credit_inv t \<Longrightarrow> r \<in> set (entries t) \<Longrightarrow> get_entry t (ce_id r) = Some r"
  by (simp add: get_entry_def row_where_key credit_inv_def)

lemma get_workspace_member:
  "credit_inv t \<Longrightarrow> w \<in> set (workspaces t) \<Longrightarrow> get_workspace t (ws_id w) = Some w"
  by (simp add: get_workspace_def row_where_key credit_inv_def)

lemma credit_inv_settle:
  assumes "credit_inv s" and "settle_generation env s s job reason = Inr (x, t)"
  shows "credit_inv t"
proof -
  have "credit_action s t"
    using assms by (auto simp: settle_generation_def intro: settle_refines ledger.frame_refl)
  then show ?thesis using assms(1) by (rule credit_action_inv)
qed

section \<open>The properties\<close>

text \<open>
  C1. Credits are conserved: in every execution that interleaves any transactions of the
  service, available balance plus held credits plus spent credits of each workspace stays what
  it was. No operation, no replay and no lost race creates or destroys a credit.
\<close>

theorem credits_conserved:
  assumes "credit_inv s" and "interleaved credit_txn s t"
  shows "available_credits t w + held_credits t w + spent_credits t w =
         available_credits s w + held_credits s w + spent_credits s w"
  using ledger.execution_total [OF assms(2,1), of w] by (simp add: wallet_total_def)

text \<open>
  C3. The audit log explains the wallet: over every interleaved execution the change of a
  workspace's available balance is the sum of the balance deltas of the events logged for it.
\<close>

theorem audit_log_explains_wallet:
  assumes "credit_inv s" and "interleaved credit_txn s t"
  shows "available_credits t w - available_credits s w = logged_delta t w - logged_delta s w"
  using audit.execution_total [OF assms(2,1), of w] by (simp add: audit_gap_def)

text \<open>
  The CHECK constraints of the wallet and of the credit entries (non-negative balance, the
  state/allocation table of each status, positive version) and the primary keys hold after every
  interleaved execution, although no operation tests them.
\<close>

theorem constraints_always_hold:
  assumes "credit_inv s" and "interleaved credit_txn s t"
  shows "(\<forall>x \<in> set (workspaces t). workspace_ok x) \<and> (\<forall>e \<in> set (entries t). credit_entry_ok e) \<and>
         distinct (map ce_id (entries t)) \<and> distinct (map ws_id (workspaces t))"
  using ledger.execution_inv [OF assms(2,1)] by (simp add: credit_inv_def)

text \<open>
  A decided reservation stays decided: once an entry is SETTLED or REFUNDED it keeps that
  status, its price and its wallet in every later state, and the audit log only grows.
\<close>

theorem decided_reservation_is_final:
  assumes "credit_inv s" and "interleaved credit_txn s t"
    and "e \<in> set (entries s)" and "ce_status e \<in> {SETTLED, REFUNDED}"
  shows "(\<exists>e' \<in> set (entries t). ce_id e' = ce_id e \<and> ce_status e' = ce_status e \<and>
            ce_credits e' = ce_credits e \<and> ce_workspace_id e' = ce_workspace_id e) \<and>
         prefix (events s) (events t)"
proof -
  have fr: "credit_frame s t" using assms(2,1) by (rule ledger.execution_frame)
  with assms(3) obtain e' where "e' \<in> set (entries t)" "entry_keeps e e'"
    by (auto simp: credit_frame_def)
  with assms(4) fr show ?thesis by (auto simp: entry_keeps_def credit_frame_def)
qed

text \<open>
  C2. Two decisions over one reservation cannot both win: if a settlement and a refund read the
  same snapshot and the settlement commits, the refund is refused with a conflict.
\<close>

theorem settle_beats_refund:
  assumes inv: "credit_inv s" and run: "settle_generation env s s job reason = Inr (x, t)"
    and app: "tr_applied x" and fresh: "\<not> tr_replayed x"
  shows "\<exists>m vs. refund_generation env' s t job reason' = Inl (WorkspaceCreditConflict m vs)"
proof -
  from run app obtain e where e: "entry_for_job s job True = Inr (Some e)"
    by (auto simp: settle_generation_def settle_def res_simps not_applied_def split: option.split_asm)
  have st: "ce_status e \<in> {RESERVED, RECONCILIATION_REQUIRED}"
    using run e fresh by (auto simp: settle_generation_def settle_def credit_snapshot_def split: if_split_asm)
  obtain r' where r': "r' \<in> set (entries t)" "ce_id r' = ce_id e" "ce_status r' = SETTLED"
    "ce_version r' = ce_version e + 1"
    by (rule settle_generation_writes [OF inv ledger.frame_refl run fresh e])
  have inv': "credit_inv t" by (rule credit_inv_settle [OF inv run])
  have none: "affected (\<lambda>x. ce_id x = ce_id e \<and> ce_status x \<in> set [RESERVED] \<and>
      ce_version x = ce_version e) (entries t) = 0"
    using affected_version_moved [OF inv' r'(1), of "ce_version e" "set [RESERVED]"] r' by simp
  have got: "get_entry t (ce_id e) = Some r'" using get_entry_member [OF inv' r'(1)] r'(2) by simp
  show ?thesis
    using st e none got r'(3)
    by (auto simp: refund_generation_def refund_def resolve_transition_race_def update_where_none)
qed

lemma balance_in_session_billable:
  assumes "balance_in_session s pid = Inr b" and "billable b"
  obtains p w where "row_where (\<lambda>p. pr_id p = pid) (projects s) = Some p"
    and "\<not> py_falsy (pr_workspace_id p)" and "get_workspace s (the (pr_workspace_id p)) = Some w"
    and "ws_status w = ''ACTIVE''" and "pr_status p = ''ACTIVE''"
    and "b = \<lparr>bal_workspace_id = Some (ws_id w), bal_project_id = pr_id p,
              bal_plan_tier = ws_plan_tier w, bal_balance = Some (credit_balance w)\<rparr>"
  using assms by (auto simp: balance_in_session_def billable_def split: option.split_asm if_split_asm)

text \<open>A charge that was applied and is not a replay went through the wallet update.\<close>

lemma reserve_generation_fresh:
  assumes "reserve_generation env s t job key c m = Inr (x, u)" and "ch_applied x" and "\<not> ch_replayed x"
  obtains b where "balance_in_session s (job_project_id job) = Inr b" and "billable b"
    and "\<forall>e \<in> set (entries s). \<not> (ce_project_id e = Some (job_project_id job) \<and>
           ce_idempotency_key e = py_strip key)"
    and "reserve_wallet env t job (py_strip key) c m b = Inr (x, u)"
    and "1 \<le> c" and "c \<le> 100000" and "py_strip key \<noteq> ''''"
proof -
  let ?P = "\<lambda>e. ce_project_id e = Some (job_project_id job) \<and> ce_idempotency_key e = py_strip key"
  from assms obtain b where b: "balance_in_session s (job_project_id job) = Inr b" "billable b"
    and c: "1 \<le> c" "c \<le> 100000" "py_strip key \<noteq> ''''"
    by (auto simp: reserve_generation_def Let_def res_simps split: if_split_asm)
  have "row_where ?P (entries s) = None"
    using assms b c by (auto simp: reserve_generation_def Let_def res_simps split: option.split_asm)
  moreover from this have "reserve_wallet env t job (py_strip key) c m b = Inr (x, u)"
    using assms(1) b c by (auto simp: reserve_generation_def Let_def)
  ultimately show thesis using that b c row_where_NoneD [of ?P "entries s"] by blast
qed

text \<open>
  A reservation moves exactly the quoted credits from available to held, in the project's
  own workspace, and reports the balance it left.
\<close>

theorem reserve_moves_quote:
  assumes inv: "credit_inv s" and run: "reserve_generation env s s job key c m = Inr (x, u)"
    and fresh: "ch_applied x" "\<not> ch_replayed x"
  shows "\<exists>w. available_credits u w = available_credits s w - c \<and>
             held_credits u w = held_credits s w + c \<and> spent_credits u w = spent_credits s w \<and>
             ch_balance_after x = Some (available_credits u w) \<and> 0 \<le> available_credits u w \<and>
             (\<forall>w'. w' \<noteq> w \<longrightarrow> available_credits u w' = available_credits s w' \<and>
                              held_credits u w' = held_credits s w')"
  using run fresh
proof (rule reserve_generation_fresh)
  fix b
  assume rw: "reserve_wallet env s job (py_strip key) c m b = Inr (x, u)"
  from inv rw show ?thesis
  proof (rule reserve_wallet_Inr)
    fix w v
    assume w: "w \<in> set (workspaces s)" "c \<le> credit_balance w"
      and x: "x = \<lparr>ch_applied = True, ch_replayed = False, ch_entry_id = Some (env_entry_id env),
            ch_credits = c, ch_balance_after = Some (credit_balance w - c), ch_status = Some RESERVED\<rparr>"
      and u: "u = s\<lparr>workspaces := update_where (\<lambda>x. ws_id x = ws_id w)
               (\<lambda>_. w\<lparr>credit_balance := credit_balance w - c\<rparr>) (workspaces s),
             entries := entries s @
               [new_entry env (w\<lparr>credit_balance := credit_balance w - c\<rparr>) job (py_strip key) c m],
             events := events s @ [v]\<rparr>"
    have av: "available_credits u k = available_credits s k - (if ws_id w = k then c else 0)" for k
      using available_update [OF inv w(1), of k "credit_balance w - c"]
      by (simp add: u available_credits_def)
    have "available_credits s (ws_id w) = credit_balance w"
      using inv tally_key [OF _ w(1), of ws_id credit_balance]
      by (simp add: available_credits_def credit_inv_def)
    with av w x show ?thesis
      by (intro exI [of _ "ws_id w"]) (auto simp: u held_credits_def spent_credits_def)
  qed
qed

text \<open>
  A request that asks for more than the wallet holds is refused with the two amounts, and
  nothing is written (the refusal carries no new state).
\<close>

theorem reserve_refuses_overdraft:
  assumes inv: "credit_inv s" and c: "1 \<le> c" "c \<le> 100000" and key: "py_strip key \<noteq> ''''"
    and bal: "balance_in_session s (job_project_id job) = Inr b" "billable b" "bal_balance b = Some n"
    and new: "\<forall>e \<in> set (entries s). \<not> (ce_project_id e = Some (job_project_id job) \<and>
           ce_idempotency_key e = py_strip key)"
    and short: "n < c"
  shows "reserve_generation env s s job key c m =
    Inl (InsufficientWorkspaceCredits ''insufficient workspace credits'' [c, n])"
  using bal(1,2)
proof (rule balance_in_session_billable)
  fix p w
  assume w: "get_workspace s (the (pr_workspace_id p)) = Some w"
    and b: "b = \<lparr>bal_workspace_id = Some (ws_id w), bal_project_id = pr_id p,
              bal_plan_tier = ws_plan_tier w, bal_balance = Some (credit_balance w)\<rparr>"
  let ?P = "\<lambda>x. ws_id x = ws_id w \<and> ws_status x = ''ACTIVE'' \<and> ws_plan_tier x = ws_plan_tier w \<and>
     c \<le> credit_balance x"
  from w have mem: "w \<in> set (workspaces s)" by (auto dest: get_workspace_Some)
  have "x = w" if "x \<in> set (workspaces s)" "ws_id x = ws_id w" for x
    using that mem inv by (auto simp: credit_inv_def dest: distinct_keyD)
  with bal(3) b short have none: "affected ?P (workspaces s) = 0"
    by (force simp: affected_def filter_empty_conv)
  have absent: "row_where (\<lambda>e. ce_project_id e = Some (job_project_id job) \<and>
      ce_idempotency_key e = py_strip key) (entries s) = None"
    using new by (simp add: row_where_def find_None_iff)
  have "reserve_wallet env s job (py_strip key) c m b =
      Inl (InsufficientWorkspaceCredits ''insufficient workspace credits'' [c, n])"
    using none get_workspace_member [OF inv mem] bal(3) b
    by (simp add: reserve_wallet_def update_where_none)
  with absent bal c key show ?thesis by (simp add: reserve_generation_def Let_def)
qed

text \<open>
  Reserving is idempotent: the same request replayed after it succeeded returns the same
  entry, marked as a replay, and changes nothing; the workspace is charged once. (The caller's
  metadata must not overwrite the request hash the replay is checked against.)
\<close>

theorem reserve_replays:
  assumes inv: "credit_inv s" and run: "reserve_generation env s s job key c m = Inr (x, u)"
    and fresh: "ch_applied x" "\<not> ch_replayed x" and hash: "''request_hash'' \<notin> fst ` set m"
  shows "reserve_generation env' u u job key c m' = Inr (x\<lparr>ch_replayed := True\<rparr>, u)"
  using run fresh
proof (rule reserve_generation_fresh)
  fix b
  assume b: "balance_in_session s (job_project_id job) = Inr b" "billable b"
    and new: "\<forall>e \<in> set (entries s). \<not> (ce_project_id e = Some (job_project_id job) \<and>
           ce_idempotency_key e = py_strip key)"
    and rw: "reserve_wallet env s job (py_strip key) c m b = Inr (x, u)"
    and c: "1 \<le> c" "c \<le> 100000" and key: "py_strip key \<noteq> ''''"
  from b obtain p w0 where p: "row_where (\<lambda>p. pr_id p = job_project_id job) (projects s) = Some p"
    "\<not> py_falsy (pr_workspace_id p)" "pr_status p = ''ACTIVE''"
    and w0: "get_workspace s (the (pr_workspace_id p)) = Some w0"
    and bal: "b = \<lparr>bal_workspace_id = Some (ws_id w0), bal_project_id = pr_id p,
              bal_plan_tier = ws_plan_tier w0, bal_balance = Some (credit_balance w0)\<rparr>"
    by (rule balance_in_session_billable)
  from inv rw show ?thesis
  proof (rule reserve_wallet_Inr)
    fix w :: workspace and v
    let ?w = "w\<lparr>credit_balance := credit_balance w - c\<rparr>"
    let ?e = "new_entry env ?w job (py_strip key) c m"
    assume w: "w \<in> set (workspaces s)" "ws_id w = the (bal_workspace_id b)" "ws_status w = ''ACTIVE''"
        "ws_plan_tier w = bal_plan_tier b"
      and x: "x = \<lparr>ch_applied = True, ch_replayed = False, ch_entry_id = Some (env_entry_id env),
            ch_credits = c, ch_balance_after = Some (credit_balance w - c), ch_status = Some RESERVED\<rparr>"
      and u: "u = s\<lparr>workspaces := update_where (\<lambda>x. ws_id x = ws_id w) (\<lambda>_. ?w) (workspaces s),
             entries := entries s @ [?e], events := events s @ [v]\<rparr>"
    have "the (pr_workspace_id p) = ws_id w"
      using w0 w(2) bal by (auto dest: get_workspace_Some)
    then have "get_workspace u (the (pr_workspace_id p)) = Some ?w"
      using row_where_update_single [OF w(1), of ws_id ?w] by (simp add: u get_workspace_def)
    with p w bal have b': "balance_in_session u (job_project_id job) =
        Inr (b\<lparr>bal_balance := Some (credit_balance w - c)\<rparr>)"
      by (simp add: balance_in_session_def u)
    have ex: "row_where (\<lambda>e. ce_project_id e = Some (job_project_id job) \<and>
        ce_idempotency_key e = py_strip key) (entries u) = Some ?e"
      using new by (simp add: u row_by_key_absent)
    have "validate_reservation_replay ?e job c = Inr ()"
      using hash by (simp add: validate_reservation_replay_def new_entry_def map_of_py_dict_merge)
    moreover have "billable (b\<lparr>bal_balance := Some (credit_balance w - c)\<rparr>)"
      using b(2) by (simp add: billable_def)
    ultimately show ?thesis using b' ex c key x by (simp add: reserve_generation_def Let_def)
  qed
qed

section \<open>Witnesses\<close>

text \<open>One workspace with fifty credits, one project in it, one job quoted at seven.\<close>

definition demo_db :: credit_db where
  "demo_db = \<lparr>projects = [\<lparr>pr_id = ''p'', pr_workspace_id = Some ''w'', pr_status = ''ACTIVE''\<rparr>],
     workspaces = [\<lparr>ws_id = ''w'', ws_status = ''ACTIVE'', ws_plan_tier = ''FREE'', credit_balance = 50,
       max_storage_bytes = 1000, used_storage_bytes = 0, reserved_storage_bytes = 0\<rparr>],
     entries = [], events = [], costs = []\<rparr>"

definition demo_job :: generation_job where
  "demo_job = \<lparr>job_id = ''j'', job_project_id = ''p'', job_provider = ''ark'', job_model = ''m'',
     job_generation_type = ''video'', job_request_hash = ''h'', job_workspace_credit_required = True,
     job_quoted_credits = 7\<rparr>"

definition demo_env :: credit_env where
  "demo_env = \<lparr>env_now = 1, env_entry_id = ''e1'', env_event_id = ''v1''\<rparr>"

definition demo_env2 :: credit_env where
  "demo_env2 = \<lparr>env_now = 2, env_entry_id = ''e2'', env_event_id = ''v2''\<rparr>"

definition demo_held :: credit_db where
  "demo_held = projr (credit_exec (Reserve demo_job ''k'' 7 []) demo_env demo_db demo_db)"

definition demo_settled :: credit_db where
  "demo_settled = projr (credit_exec (Settle demo_job ''done'') demo_env2 demo_held demo_held)"

lemma demo_inv: "credit_inv demo_db"
  by (simp add: credit_inv_def demo_db_def workspace_ok_def)

lemma demo_reserve: "credit_exec (Reserve demo_job ''k'' 7 []) demo_env demo_db demo_db = Inr demo_held"
proof -
  have "\<not> isl (credit_exec (Reserve demo_job ''k'' 7 []) demo_env demo_db demo_db)" by code_simp
  then show ?thesis by (simp add: demo_held_def)
qed

lemma demo_settle: "credit_exec (Settle demo_job ''done'') demo_env2 demo_held demo_held = Inr demo_settled"
proof -
  have "\<not> isl (credit_exec (Settle demo_job ''done'') demo_env2 demo_held demo_held)" by code_simp
  then show ?thesis by (simp add: demo_settled_def)
qed

lemma credit_txnI: "credit_exec op env s t = Inr u \<Longrightarrow> credit_txn s t u"
  unfolding credit_txn_def by blast

lemma demo_run_held: "interleaved credit_txn demo_db demo_held"
  by (rule interleaved.commit [OF interleaved.start interleaved.start])
    (rule credit_txnI [OF demo_reserve])

lemma demo_run_settled: "interleaved credit_txn demo_db demo_settled"
  by (rule interleaved.commit [OF demo_run_held interleaved.start])
    (rule credit_txnI [OF demo_settle])

definition demo_confirmed :: credit_db where
  "demo_confirmed = projr (credit_exec (Confirmed demo_job 1 ''remote'')
     \<lparr>env_now = 3, env_entry_id = ''e3'', env_event_id = ''v3''\<rparr> demo_settled demo_settled)"

lemma demo_run_confirmed: "interleaved credit_txn demo_settled demo_confirmed"
proof (rule interleaved.commit [OF interleaved.start interleaved.start], rule credit_txnI)
  let ?r = "credit_exec (Confirmed demo_job 1 ''remote'')
     \<lparr>env_now = 3, env_entry_id = ''e3'', env_event_id = ''v3''\<rparr> demo_settled demo_settled"
  have "\<not> isl ?r" by code_simp
  then show "?r = Inr demo_confirmed" by (simp add: demo_confirmed_def)
qed

lemma demo_inv_held: "credit_inv demo_held" and demo_inv_settled: "credit_inv demo_settled"
  using ledger.execution_inv demo_inv demo_run_held demo_run_settled by blast+

theorem credits_conserved_witness:
  "available_credits demo_settled ''w'' + held_credits demo_settled ''w'' +
   spent_credits demo_settled ''w'' = 50"
  using credits_conserved [OF demo_inv demo_run_settled, of "''w''"]
  by (simp add: demo_db_def available_credits_def held_credits_def spent_credits_def)

theorem audit_log_explains_wallet_witness:
  "available_credits demo_held ''w'' - 50 = logged_delta demo_held ''w''"
  using audit_log_explains_wallet [OF demo_inv demo_run_held, of "''w''"]
  by (simp add: demo_db_def available_credits_def logged_delta_def)

theorem constraints_always_hold_witness:
  "credit_entry_ok (hd (entries demo_settled)) \<and> workspace_ok (hd (workspaces demo_settled))"
proof -
  have "entries demo_settled \<noteq> []" and "workspaces demo_settled \<noteq> []" by code_simp+
  then show ?thesis using constraints_always_hold [OF demo_inv demo_run_settled] by simp
qed

theorem decided_reservation_is_final_witness:
  "\<exists>e' \<in> set (entries demo_confirmed). ce_id e' = ''e1'' \<and> ce_status e' = SETTLED \<and> ce_credits e' = 7"
proof -
  let ?e = "hd (entries demo_settled)"
  have "entries demo_settled \<noteq> []" by code_simp
  then have e: "?e \<in> set (entries demo_settled)" by simp
  have facts: "ce_status ?e = SETTLED" "ce_id ?e = ''e1''" "ce_credits ?e = 7" by code_simp+
  then have "ce_status ?e \<in> {SETTLED, REFUNDED}" by simp
  from decided_reservation_is_final [OF demo_inv_settled demo_run_confirmed e this] facts
  show ?thesis by auto
qed

theorem settle_beats_refund_witness:
  "\<exists>m vs. refund_generation demo_env demo_held
      (snd (projr (settle_generation demo_env2 demo_held demo_held demo_job ''done''))) demo_job ''late'' =
    Inl (WorkspaceCreditConflict m vs)"
proof -
  let ?r = "settle_generation demo_env2 demo_held demo_held demo_job ''done''"
  have "\<not> isl ?r" by code_simp
  then have r: "?r = Inr (fst (projr ?r), snd (projr ?r))" by (cases ?r) auto
  have "tr_applied (fst (projr ?r))" and "\<not> tr_replayed (fst (projr ?r))" by code_simp+
  with settle_beats_refund [OF demo_inv_held r] show ?thesis by blast
qed

lemma demo_charge:
  "reserve_generation demo_env demo_db demo_db demo_job ''k'' 7 [] =
     Inr (fst (projr (reserve_generation demo_env demo_db demo_db demo_job ''k'' 7 [])), demo_held)"
  using demo_reserve by (cases "reserve_generation demo_env demo_db demo_db demo_job ''k'' 7 []") auto

lemma demo_charge_fresh:
  "ch_applied (fst (projr (reserve_generation demo_env demo_db demo_db demo_job ''k'' 7 [])))"
  "\<not> ch_replayed (fst (projr (reserve_generation demo_env demo_db demo_db demo_job ''k'' 7 [])))"
  by code_simp+

theorem reserve_moves_quote_witness:
  "\<exists>w. available_credits demo_held w = available_credits demo_db w - 7 \<and>
       held_credits demo_held w = held_credits demo_db w + 7"
  using reserve_moves_quote [OF demo_inv demo_charge demo_charge_fresh] by blast

theorem reserve_refuses_overdraft_witness:
  "reserve_generation demo_env demo_db demo_db demo_job ''k'' 51 [] =
     Inl (InsufficientWorkspaceCredits ''insufficient workspace credits'' [51, 50])"
proof (rule reserve_refuses_overdraft [OF demo_inv])
  let ?b = "\<lparr>bal_workspace_id = Some ''w'', bal_project_id = ''p'', bal_plan_tier = ''FREE'',
    bal_balance = Some 50\<rparr>"
  show "py_strip ''k'' \<noteq> ''''" by code_simp
  show "balance_in_session demo_db (job_project_id demo_job) = Inr ?b"
    by (simp add: balance_in_session_def demo_db_def demo_job_def py_falsy_def get_workspace_def)
  show "billable ?b" by (simp add: billable_def)
qed (simp_all add: demo_db_def)

theorem reserve_replays_witness:
  "reserve_generation demo_env2 demo_held demo_held demo_job ''k'' 7 [] =
     Inr ((fst (projr (reserve_generation demo_env demo_db demo_db demo_job ''k'' 7 [])))
       \<lparr>ch_replayed := True\<rparr>, demo_held)"
  by (rule reserve_replays [OF demo_inv demo_charge demo_charge_fresh]) simp

end
