(* ===== verification/Storage_Quota.thy ===== *)
theory Storage_Quota
  imports Platform_Domain
begin

text \<open>
  The workspace storage quota: \<^verbatim>\<open>services/media-service/media_service/quota.py\<close> over
  the tables \<^verbatim>\<open>workspaces\<close> and \<^verbatim>\<open>storage_reservations\<close>.

  \<^verbatim>\<open>reserve\<close> and \<^verbatim>\<open>record_deduplicated\<close> first look for a row with their key;
  an absent row cannot be locked, so they take the state \<open>s\<close> that lookup saw and the state \<open>t\<close>
  their UPDATE and INSERT run against. The other operations lock the reservation row they read
  (\<^verbatim>\<open>with_for_update\<close>) and are one step on one state. A raise is \<open>Inl\<close> and rolls the
  transaction back. The clock and the new id are arguments. The referenced tables
  (\<^verbatim>\<open>projects\<close>, \<^verbatim>\<open>media_assets\<close>) appear through the ids a foreign key may name.
\<close>

section \<open>Rows and results\<close>

record storage_reservation =
  sr_id :: string
  sr_workspace_id :: string
  sr_project_id :: string
  sr_idempotency_key :: string
  sr_reserved_bytes :: int
  sr_status :: string
  sr_asset_id :: "string option"
  sr_storage_key :: "string option"
  sr_settled_at :: "int option"
  sr_released_at :: "int option"

record storage_db =
  st_workspaces :: "workspace list"
  st_reservations :: "storage_reservation list"
  st_project_ids :: "string list"
  st_asset_ids :: "string list"

record storage_quota_reservation =
  sv_id :: string
  sv_workspace_id :: string
  sv_project_id :: string
  sv_idempotency_key :: string
  sv_reserved_bytes :: int
  sv_status :: string
  sv_asset_id :: "string option"
  sv_storage_key :: "string option"
  sv_replayed :: bool

datatype storage_error =
    StorageValueError string
  | StorageLookupError string
  | StorageReservationConflict string "string list"
  | WorkspaceStorageQuotaExceeded
  | StorageIntegrityError

text \<open>\<^verbatim>\<open>_view\<close>\<close>

definition storage_view :: "storage_reservation \<Rightarrow> bool \<Rightarrow> storage_quota_reservation" where
  "storage_view r replayed =
     \<lparr>sv_id = sr_id r, sv_workspace_id = sr_workspace_id r, sv_project_id = sr_project_id r,
      sv_idempotency_key = sr_idempotency_key r, sv_reserved_bytes = sr_reserved_bytes r,
      sv_status = sr_status r, sv_asset_id = sr_asset_id r, sv_storage_key = sr_storage_key r,
      sv_replayed = replayed\<rparr>"

section \<open>Operations\<close>

definition get_reservation :: "storage_db \<Rightarrow> string \<Rightarrow> storage_reservation option" where
  "get_reservation s i = row_where (\<lambda>r. sr_id r = i) (st_reservations s)"

definition set_reservation :: "storage_db \<Rightarrow> storage_reservation \<Rightarrow> storage_db" where
  "set_reservation s r =
     s\<lparr>st_reservations := update_where (\<lambda>x. sr_id x = sr_id r) (\<lambda>_. r) (st_reservations s)\<rparr>"

definition reservation_for_key :: "storage_db \<Rightarrow> string \<Rightarrow> string \<Rightarrow> storage_reservation option" where
  "reservation_for_key s wid key =
     row_where (\<lambda>r. sr_workspace_id r = wid \<and> sr_idempotency_key r = key) (st_reservations s)"

definition capacity_left :: "string \<Rightarrow> int \<Rightarrow> workspace \<Rightarrow> bool" where
  "capacity_left wid byte_count w \<longleftrightarrow>
     ws_id w = wid \<and> ws_status w = ''ACTIVE'' \<and>
     used_storage_bytes w + reserved_storage_bytes w + byte_count \<le> max_storage_bytes w"

definition hold_capacity :: "storage_db \<Rightarrow> string \<Rightarrow> int \<Rightarrow> storage_error + storage_db" where
  "hold_capacity t wid byte_count =
     (if affected (capacity_left wid byte_count) (st_workspaces t) = 1
      then Inr (t\<lparr>st_workspaces := update_where (capacity_left wid byte_count)
        (\<lambda>w. w\<lparr>reserved_storage_bytes := reserved_storage_bytes w + byte_count\<rparr>)
        (st_workspaces t)\<rparr>)
      else case row_where (\<lambda>w. ws_id w = wid) (st_workspaces t) of
        None \<Rightarrow> Inl (StorageLookupError ''workspace not found'')
      | Some w \<Rightarrow>
          if ws_status w \<noteq> ''ACTIVE''
          then Inl (StorageReservationConflict ''workspace is not active'' [])
          else Inl WorkspaceStorageQuotaExceeded)"

text \<open>
  \<^verbatim>\<open>session.add\<close> and \<^verbatim>\<open>session.flush\<close> of a new row: primary key,
  \<^verbatim>\<open>uq_storage_reservation_key\<close>, the CHECK on the size and the foreign keys.
\<close>

definition insert_reservation :: "storage_db \<Rightarrow> storage_reservation \<Rightarrow> storage_error + storage_db" where
  "insert_reservation t r =
     (if (\<exists>x \<in> set (st_reservations t). sr_id x = sr_id r \<or>
            sr_workspace_id x = sr_workspace_id r \<and> sr_idempotency_key x = sr_idempotency_key r) \<or>
         sr_reserved_bytes r \<le> 0 \<or>
         sr_workspace_id r \<notin> ws_id ` set (st_workspaces t) \<or>
         sr_project_id r \<notin> set (st_project_ids t) \<or>
         (case sr_asset_id r of None \<Rightarrow> False | Some a \<Rightarrow> a \<notin> set (st_asset_ids t))
      then Inl StorageIntegrityError
      else Inr (t\<lparr>st_reservations := st_reservations t @ [r]\<rparr>))"

text \<open>\<^verbatim>\<open>except IntegrityError\<close>\<close>

fun on_integrity_error :: "storage_error + 'a \<Rightarrow> storage_error + 'a" where
  "on_integrity_error (Inl StorageIntegrityError) =
     Inl (StorageReservationConflict ''upload reservation raced with another request'' [])"
| "on_integrity_error m = m"

definition reserve_storage ::
  "string \<Rightarrow> storage_db \<Rightarrow> storage_db \<Rightarrow> string \<Rightarrow> string \<Rightarrow> int \<Rightarrow> string \<Rightarrow>
   storage_error + storage_quota_reservation \<times> storage_db" where
  "reserve_storage new_id s t workspace_id project_id byte_count idempotency_key =
     (if byte_count \<le> 0
      then Inl (StorageValueError ''upload must contain at least one byte'')
      else let key = py_strip idempotency_key in
      if key = '''' \<or> length key > 200
      then Inl (StorageValueError ''Idempotency-Key must contain 1-200 characters'')
      else on_integrity_error
       (case reservation_for_key s workspace_id key of
          Some existing \<Rightarrow>
            if sr_project_id existing \<noteq> project_id \<or> sr_reserved_bytes existing \<noteq> byte_count
            then Inl (StorageReservationConflict
              ''Idempotency-Key was already used for a different upload'' [])
            else if sr_status existing = SETTLED then Inr (storage_view existing True, t)
            else if sr_status existing = RESERVED
            then Inl (StorageReservationConflict ''upload is already in progress'' [])
            else if sr_status existing = RELEASED
            then Inl (StorageReservationConflict
              ''released Idempotency-Key cannot be reused; submit a new key'' [])
            else Inl (StorageReservationConflict ''unsupported storage reservation state''
              [sr_status existing])
        | None \<Rightarrow>
            let reservation = \<lparr>sr_id = new_id, sr_workspace_id = workspace_id,
              sr_project_id = project_id, sr_idempotency_key = key, sr_reserved_bytes = byte_count,
              sr_status = RESERVED, sr_asset_id = None, sr_storage_key = None,
              sr_settled_at = None, sr_released_at = None\<rparr> in
            res_bind (hold_capacity t workspace_id byte_count) (\<lambda>t'.
            res_bind (insert_reservation t' reservation) (\<lambda>t''.
              Inr (storage_view reservation False, t'')))))"

definition settle_guard :: "storage_reservation \<Rightarrow> int \<Rightarrow> workspace \<Rightarrow> bool" where
  "settle_guard r used_bytes w \<longleftrightarrow>
     ws_id w = sr_workspace_id r \<and>
     reserved_storage_bytes w \<ge> sr_reserved_bytes r \<and>
     used_storage_bytes w + used_bytes \<le> max_storage_bytes w"

definition settle_counters :: "storage_reservation \<Rightarrow> int \<Rightarrow> workspace \<Rightarrow> workspace" where
  "settle_counters r used_bytes w =
     w\<lparr>reserved_storage_bytes := reserved_storage_bytes w - sr_reserved_bytes r,
       used_storage_bytes := used_storage_bytes w + used_bytes\<rparr>"

definition settle_storage ::
  "int \<Rightarrow> storage_db \<Rightarrow> string \<Rightarrow> string \<Rightarrow> string \<Rightarrow> int \<Rightarrow>
   storage_error + storage_quota_reservation \<times> storage_db" where
  "settle_storage now t reservation_id asset_id storage_key used_bytes =
     (case get_reservation t reservation_id of
        None \<Rightarrow> Inl (StorageLookupError ''storage reservation not found'')
      | Some r \<Rightarrow>
          if used_bytes < 0 \<or> used_bytes > sr_reserved_bytes r
          then Inl (StorageValueError ''settled bytes must be within the reserved capacity'')
          else if sr_status r = SETTLED then
            if sr_asset_id r \<noteq> Some asset_id \<or> sr_storage_key r \<noteq> Some storage_key
            then Inl (StorageReservationConflict ''reservation was settled for another asset'' [])
            else Inr (storage_view r True, t)
          else if sr_status r \<noteq> RESERVED
          then Inl (StorageReservationConflict ''released reservation cannot be settled'' [])
          else if affected (settle_guard r used_bytes) (st_workspaces t) \<noteq> 1
          then Inl (StorageReservationConflict
            ''workspace storage counters changed unexpectedly'' [])
          else if asset_id \<notin> set (st_asset_ids t) then Inl StorageIntegrityError
          else let r' = r\<lparr>sr_status := SETTLED, sr_asset_id := Some asset_id,
                 sr_storage_key := Some storage_key, sr_settled_at := Some now\<rparr> in
            Inr (storage_view r' False,
              set_reservation (t\<lparr>st_workspaces := update_where (settle_guard r used_bytes)
                (settle_counters r used_bytes) (st_workspaces t)\<rparr>) r'))"

text \<open>The correction of the used counter, floored at zero.\<close>

definition reclaim_bytes :: "storage_reservation \<Rightarrow> int \<Rightarrow> int" where
  "reclaim_bytes r size_bytes = min (max size_bytes 0) (sr_reserved_bytes r)"

definition release_settled_for_asset :: "storage_db \<Rightarrow> string \<Rightarrow> int \<Rightarrow> bool \<times> storage_db" where
  "release_settled_for_asset t asset_id size_bytes =
     (case row_where (\<lambda>r. sr_asset_id r = Some asset_id \<and> sr_status r = SETTLED)
             (st_reservations t) of
        None \<Rightarrow> (False, t)
      | Some r \<Rightarrow>
          let release = reclaim_bytes r size_bytes in
          (True, set_reservation
            (t\<lparr>st_workspaces := update_where (\<lambda>w. ws_id w = sr_workspace_id r)
              (\<lambda>w. w\<lparr>used_storage_bytes :=
                 if used_storage_bytes w \<ge> release then used_storage_bytes w - release else 0\<rparr>)
              (st_workspaces t)\<rparr>)
            (r\<lparr>sr_status := RELEASED_INVALID\<rparr>)))"

definition record_deduplicated ::
  "string \<Rightarrow> int \<Rightarrow> storage_db \<Rightarrow> storage_db \<Rightarrow> string \<Rightarrow> string \<Rightarrow> int \<Rightarrow> string \<Rightarrow> string \<Rightarrow> string \<Rightarrow>
   storage_error + storage_quota_reservation \<times> storage_db" where
  "record_deduplicated new_id now s t workspace_id project_id byte_count idempotency_key
     asset_id storage_key =
     (if byte_count \<le> 0
      then Inl (StorageValueError ''upload must contain at least one byte'')
      else let key = py_strip idempotency_key in
      if key = '''' \<or> length key > 200
      then Inl (StorageValueError ''Idempotency-Key must contain 1-200 characters'')
      else on_integrity_error
       (case reservation_for_key s workspace_id key of
          Some existing \<Rightarrow>
            if sr_status existing = SETTLED \<and>
               sr_project_id existing = project_id \<and> sr_reserved_bytes existing = byte_count \<and>
               sr_asset_id existing = Some asset_id \<and> sr_storage_key existing = Some storage_key
            then Inr (storage_view existing True, t)
            else Inl (StorageReservationConflict
              ''Idempotency-Key was already used for a different upload'' [])
        | None \<Rightarrow>
            let reservation = \<lparr>sr_id = new_id, sr_workspace_id = workspace_id,
              sr_project_id = project_id, sr_idempotency_key = key, sr_reserved_bytes = byte_count,
              sr_status = SETTLED, sr_asset_id = Some asset_id, sr_storage_key = Some storage_key,
              sr_settled_at = Some now, sr_released_at = None\<rparr> in
            res_bind (insert_reservation t reservation) (\<lambda>t'.
              Inr (storage_view reservation False, t'))))"

definition release_guard :: "storage_reservation \<Rightarrow> workspace \<Rightarrow> bool" where
  "release_guard r w \<longleftrightarrow>
     ws_id w = sr_workspace_id r \<and> reserved_storage_bytes w \<ge> sr_reserved_bytes r"

definition release_storage :: "int \<Rightarrow> storage_db \<Rightarrow> string \<Rightarrow> storage_error + bool \<times> storage_db" where
  "release_storage now t reservation_id =
     (case get_reservation t reservation_id of
        None \<Rightarrow> Inl (StorageLookupError ''storage reservation not found'')
      | Some r \<Rightarrow>
          if sr_status r = RELEASED then Inr (False, t)
          else if sr_status r = SETTLED then Inr (False, t)
          else if sr_status r \<noteq> RESERVED
          then Inl (StorageReservationConflict ''unsupported storage reservation state''
            [sr_status r])
          else if affected (release_guard r) (st_workspaces t) \<noteq> 1
          then Inl (StorageReservationConflict
            ''workspace storage counters changed unexpectedly'' [])
          else Inr (True, set_reservation
            (t\<lparr>st_workspaces := update_where (release_guard r)
               (\<lambda>w. w\<lparr>reserved_storage_bytes := reserved_storage_bytes w - sr_reserved_bytes r\<rparr>)
               (st_workspaces t)\<rparr>)
            (r\<lparr>sr_status := RELEASED, sr_released_at := Some now\<rparr>)))"

section \<open>The service as transactions\<close>

inductive storage_txn :: "storage_db \<Rightarrow> storage_db \<Rightarrow> storage_db \<Rightarrow> bool" where
  txn_reserve: "reserve_storage i s t w p n k = Inr (v, u) \<Longrightarrow> storage_txn s t u"
| txn_settle: "settle_storage now t i a k n = Inr (v, u) \<Longrightarrow> storage_txn s t u"
| txn_release: "release_storage now t i = Inr (b, u) \<Longrightarrow> storage_txn s t u"
| txn_reclaim: "release_settled_for_asset t a n = (b, u) \<Longrightarrow> storage_txn s t u"
| txn_dedup: "record_deduplicated i now s t w p n k a sk = Inr (v, u) \<Longrightarrow> storage_txn s t u"

inductive_cases storage_txnE: "storage_txn s t u"

end
