(* ===== verification/Storage_Properties.thy ===== *)
theory Storage_Properties
  imports Storage_Quota
begin

text \<open>
  What the storage quota promises. The operations refine \<open>storage_action\<close>, the lifecycle of one
  reservation row together with the workspace counters it moves; over every interleaving the
  reserved counter is the sum of the open holds, used plus reserved stays within the limit, and an
  open hold can always be settled or released.
\<close>

section \<open>Invariant and frame\<close>

definition held_bytes :: "storage_db \<Rightarrow> string \<Rightarrow> int" where
  "held_bytes s k = tally (\<lambda>r. if sr_workspace_id r = k \<and> sr_status r = RESERVED
     then sr_reserved_bytes r else 0) (st_reservations s)"

definition storage_inv :: "storage_db \<Rightarrow> bool" where
  "storage_inv s \<longleftrightarrow>
     distinct (map ws_id (st_workspaces s)) \<and>
     distinct (map sr_id (st_reservations s)) \<and>
     distinct (map (\<lambda>r. (sr_workspace_id r, sr_idempotency_key r)) (st_reservations s)) \<and>
     (\<forall>w \<in> set (st_workspaces s). workspace_ok w \<and>
        reserved_storage_bytes w = held_bytes s (ws_id w)) \<and>
     (\<forall>r \<in> set (st_reservations s). sr_reserved_bytes r > 0 \<and>
        sr_workspace_id r \<in> ws_id ` set (st_workspaces s) \<and>
        sr_status r \<in> {RESERVED, SETTLED, RELEASED, RELEASED_INVALID})"

text \<open>The statuses a row may still reach.\<close>

definition storage_phase_le :: "string \<Rightarrow> string \<Rightarrow> bool" where
  "storage_phase_le p q \<longleftrightarrow> p = q \<or> p = RESERVED \<or> p = SETTLED \<and> q = RELEASED_INVALID"

definition reservation_keeps :: "storage_reservation \<Rightarrow> storage_reservation \<Rightarrow> bool" where
  "reservation_keeps r r' \<longleftrightarrow>
     sr_id r' = sr_id r \<and> sr_workspace_id r' = sr_workspace_id r \<and>
     sr_project_id r' = sr_project_id r \<and> sr_idempotency_key r' = sr_idempotency_key r \<and>
     sr_reserved_bytes r' = sr_reserved_bytes r \<and>
     storage_phase_le (sr_status r) (sr_status r') \<and>
     (sr_status r \<noteq> RESERVED \<longrightarrow>
        sr_asset_id r' = sr_asset_id r \<and> sr_storage_key r' = sr_storage_key r)"

definition storage_frame :: "storage_db \<Rightarrow> storage_db \<Rightarrow> bool" where
  "storage_frame s t \<longleftrightarrow>
     map ws_id (st_workspaces t) = map ws_id (st_workspaces s) \<and>
     map max_storage_bytes (st_workspaces t) = map max_storage_bytes (st_workspaces s) \<and>
     (\<forall>r \<in> set (st_reservations s). \<exists>r' \<in> set (st_reservations t). reservation_keeps r r')"

lemma reservation_keeps_refl [simp]: "reservation_keeps r r"
  by (simp add: reservation_keeps_def storage_phase_le_def)

lemma reservation_keeps_trans:
  "reservation_keeps r r' \<Longrightarrow> reservation_keeps r' r'' \<Longrightarrow> reservation_keeps r r''"
  by (auto simp: reservation_keeps_def storage_phase_le_def)

section \<open>The lifecycle of a reservation\<close>

text \<open>
  \<open>storage_action t u\<close>: one row opens, moves or is recorded, and exactly the counters of its
  workspace follow.
\<close>

inductive row_step ::
  "storage_reservation \<Rightarrow> storage_reservation \<Rightarrow> workspace \<Rightarrow> workspace \<Rightarrow> bool" where
  step_settle: "sr_status r = RESERVED \<Longrightarrow> sr_status r' = SETTLED \<Longrightarrow>
    0 \<le> n \<Longrightarrow> n \<le> sr_reserved_bytes r \<Longrightarrow> row_step r r' w (settle_counters r n w)"
| step_release: "sr_status r = RESERVED \<Longrightarrow> sr_status r' = RELEASED \<Longrightarrow>
    row_step r r' w (settle_counters r 0 w)"
| step_reclaim: "sr_status r = SETTLED \<Longrightarrow> sr_status r' = RELEASED_INVALID \<Longrightarrow> 0 \<le> m \<Longrightarrow>
    m \<le> used_storage_bytes w \<Longrightarrow> row_step r r' w (w\<lparr>used_storage_bytes := m\<rparr>)"

inductive storage_action :: "storage_db \<Rightarrow> storage_db \<Rightarrow> bool" where
  act_open: "w \<in> set (st_workspaces t) \<Longrightarrow> capacity_left (ws_id w) (sr_reserved_bytes r) w \<Longrightarrow>
    sr_workspace_id r = ws_id w \<Longrightarrow> sr_status r = RESERVED \<Longrightarrow>
    insert_reservation (t\<lparr>st_workspaces := update_where (\<lambda>x. ws_id x = ws_id w)
      (\<lambda>_. w\<lparr>reserved_storage_bytes := reserved_storage_bytes w + sr_reserved_bytes r\<rparr>)
      (st_workspaces t)\<rparr>) r = Inr u \<Longrightarrow> storage_action t u"
| act_record: "sr_status r = SETTLED \<Longrightarrow> insert_reservation t r = Inr u \<Longrightarrow> storage_action t u"
| act_move: "r \<in> set (st_reservations t) \<Longrightarrow> w \<in> set (st_workspaces t) \<Longrightarrow>
    ws_id w = sr_workspace_id r \<Longrightarrow> reservation_keeps r r' \<Longrightarrow> row_step r r' w w' \<Longrightarrow>
    u = set_reservation (t\<lparr>st_workspaces := update_where (\<lambda>x. ws_id x = ws_id w) (\<lambda>_. w')
      (st_workspaces t)\<rparr>) r' \<Longrightarrow> storage_action t u"
| act_none: "storage_action t t"

section \<open>The operations refine the lifecycle\<close>

lemma get_reservation_SomeD:
  "get_reservation t i = Some r \<Longrightarrow> r \<in> set (st_reservations t) \<and> sr_id r = i"
  unfolding get_reservation_def by (rule row_where_SomeD)

lemma reservation_workspace:
  assumes "storage_inv t" and "r \<in> set (st_reservations t)"
  obtains w where "w \<in> set (st_workspaces t)" and "ws_id w = sr_workspace_id r" and "workspace_ok w"
    and "sr_status r = RESERVED \<Longrightarrow> sr_reserved_bytes r \<le> reserved_storage_bytes w"
proof -
  from assms obtain w where w: "w \<in> set (st_workspaces t)" "ws_id w = sr_workspace_id r"
    by (auto simp: storage_inv_def)
  have "sr_reserved_bytes r \<le> held_bytes t (ws_id w)" if "sr_status r = RESERVED"
    using tally_member_le [OF assms(2), of "\<lambda>r. if sr_workspace_id r = ws_id w \<and>
        sr_status r = RESERVED then sr_reserved_bytes r else 0"] assms(1) that w
    by (fastforce simp: held_bytes_def storage_inv_def)
  with w assms(1) that show thesis by (auto simp: storage_inv_def)
qed

text \<open>A guarded UPDATE of one workspace whose guard holds is the update of that row.\<close>

lemma guarded_update:
  assumes "storage_inv t" and "w \<in> set (st_workspaces t)" and "G w"
    and "\<And>x. G x \<Longrightarrow> ws_id x = ws_id w"
  shows "affected G (st_workspaces t) = 1"
    and "update_where G f (st_workspaces t) =
      update_where (\<lambda>x. ws_id x = ws_id w) (\<lambda>_. f w) (st_workspaces t)"
proof -
  have d: "distinct (map ws_id (st_workspaces t))" using assms(1) by (simp add: storage_inv_def)
  have "affected G (st_workspaces t) \<le> 1" by (rule affected_key_le_one [OF d assms(4)])
  moreover have "affected G (st_workspaces t) \<noteq> 0"
    using assms(2,3) by (auto simp: affected_def filter_empty_conv)
  ultimately show "affected G (st_workspaces t) = 1" by simp
  show "update_where G f (st_workspaces t) =
      update_where (\<lambda>x. ws_id x = ws_id w) (\<lambda>_. f w) (st_workspaces t)"
    by (rule update_where_single [where k = ws_id, OF d assms(2), of G, OF assms(3,4)])
qed

lemma on_integrity_error_Inr [res_simps]: "on_integrity_error m = Inr x \<longleftrightarrow> m = Inr x"
  by (cases m rule: on_integrity_error.cases) simp_all

lemma hold_capacity_InrE:
  assumes "hold_capacity t wid n = Inr u" and inv: "storage_inv t"
  obtains w where "w \<in> set (st_workspaces t)" and "capacity_left wid n w" and "ws_id w = wid"
    and "u = t\<lparr>st_workspaces := update_where (\<lambda>x. ws_id x = wid)
      (\<lambda>_. w\<lparr>reserved_storage_bytes := reserved_storage_bytes w + n\<rparr>) (st_workspaces t)\<rparr>"
proof -
  have one: "affected (capacity_left wid n) (st_workspaces t) = 1"
    using assms(1) by (auto simp: hold_capacity_def split: if_split_asm option.split_asm)
  then obtain w where w: "w \<in> set (st_workspaces t)" "capacity_left wid n w"
    by (rule affected_oneE) blast
  then have id: "ws_id w = wid" by (simp add: capacity_left_def)
  note upd = guarded_update(2) [OF inv w(1), of "capacity_left wid n"]
  show thesis
  proof (rule that [OF w id])
    show "u = t\<lparr>st_workspaces := update_where (\<lambda>x. ws_id x = wid)
      (\<lambda>_. w\<lparr>reserved_storage_bytes := reserved_storage_bytes w + n\<rparr>) (st_workspaces t)\<rparr>"
      using assms(1) one w(2) id upd
      by (simp add: hold_capacity_def capacity_left_def)
  qed
qed

lemma reserve_storage_action:
  assumes "reserve_storage i s t wid p n k = Inr (v, u)" and inv: "storage_inv t"
  shows "storage_action t u"
proof (cases "reservation_for_key s wid (py_strip k)")
  case (Some e)
  with assms have "u = t"
    by (auto simp: reserve_storage_def Let_def res_simps split: if_split_asm)
  then show ?thesis by (simp add: act_none)
next
  case None
  let ?r = "\<lparr>sr_id = i, sr_workspace_id = wid, sr_project_id = p, sr_idempotency_key = py_strip k,
    sr_reserved_bytes = n, sr_status = RESERVED, sr_asset_id = None, sr_storage_key = None,
    sr_settled_at = None, sr_released_at = None\<rparr>"
  from None assms(1) obtain t' where t': "hold_capacity t wid n = Inr t'"
    and ins: "insert_reservation t' ?r = Inr u"
    by (auto simp: reserve_storage_def Let_def res_simps split: if_split_asm)
  from t' inv show ?thesis
  proof (rule hold_capacity_InrE)
    fix w
    assume w: "w \<in> set (st_workspaces t)" "capacity_left wid n w" "ws_id w = wid"
      and u: "t' = t\<lparr>st_workspaces := update_where (\<lambda>x. ws_id x = wid)
      (\<lambda>_. w\<lparr>reserved_storage_bytes := reserved_storage_bytes w + n\<rparr>) (st_workspaces t)\<rparr>"
    show ?thesis
      by (rule act_open [of w t ?r]) (use w ins in \<open>simp_all add: u\<close>)
  qed
qed

lemma record_deduplicated_action:
  assumes "record_deduplicated i now s t wid p n k a sk = Inr (v, u)"
  shows "storage_action t u"
proof (cases "reservation_for_key s wid (py_strip k)")
  case (Some e)
  with assms have "u = t"
    by (auto simp: record_deduplicated_def Let_def res_simps split: if_split_asm)
  then show ?thesis by (simp add: act_none)
next
  case None
  with assms show ?thesis
    by (auto simp: record_deduplicated_def Let_def res_simps split: if_split_asm intro!: act_record)
qed

lemma settle_guard_holds:
  assumes "storage_inv t" and "r \<in> set (st_reservations t)" and "sr_status r = RESERVED"
    and "0 \<le> n" and "n \<le> sr_reserved_bytes r"
  obtains w where "w \<in> set (st_workspaces t)" and "ws_id w = sr_workspace_id r"
    and "settle_guard r n w" and "release_guard r w"
proof -
  from assms(1,2) obtain w where w: "w \<in> set (st_workspaces t)" "ws_id w = sr_workspace_id r"
    "workspace_ok w" "sr_reserved_bytes r \<le> reserved_storage_bytes w"
    by (rule reservation_workspace) (use assms(3) in blast)
  then have "settle_guard r n w" and "release_guard r w"
    using assms(4,5) by (auto simp: settle_guard_def release_guard_def workspace_ok_def)
  with w that show thesis by blast
qed

lemma settle_storage_RESERVED:
  fixes now :: int and k :: string
  assumes inv: "storage_inv t" and r: "get_reservation t i = Some r" "sr_status r = RESERVED"
    and n: "0 \<le> n" "n \<le> sr_reserved_bytes r" and a: "a \<in> set (st_asset_ids t)"
  defines "r' \<equiv> r\<lparr>sr_status := SETTLED, sr_asset_id := Some a, sr_storage_key := Some k,
    sr_settled_at := Some now\<rparr>"
  shows "\<exists>w. w \<in> set (st_workspaces t) \<and> ws_id w = sr_workspace_id r \<and>
    settle_storage now t i a k n = Inr (storage_view r' False,
      set_reservation (t\<lparr>st_workspaces := update_where (\<lambda>x. ws_id x = ws_id w)
        (\<lambda>_. settle_counters r n w) (st_workspaces t)\<rparr>) r')"
proof -
  have "r \<in> set (st_reservations t)" using r(1) by (blast dest: get_reservation_SomeD)
  from inv this r(2) n obtain w where w: "w \<in> set (st_workspaces t)"
    "ws_id w = sr_workspace_id r" "settle_guard r n w"
    by (rule settle_guard_holds)
  have *: "settle_guard r n x \<Longrightarrow> ws_id x = ws_id w" for x
    using w(2) by (simp add: settle_guard_def)
  note upd = guarded_update [OF inv w(1), of "settle_guard r n", OF w(3) *]
  have "settle_storage now t i a k n = Inr (storage_view r' False,
      set_reservation (t\<lparr>st_workspaces := update_where (\<lambda>x. ws_id x = ws_id w)
        (\<lambda>_. settle_counters r n w) (st_workspaces t)\<rparr>) r')"
    using r n a upd(1) upd(2) [of "settle_counters r n"]
    by (simp add: settle_storage_def r'_def Let_def)
  with w show ?thesis by blast
qed

lemma release_storage_RESERVED:
  fixes now :: int
  assumes inv: "storage_inv t" and r: "get_reservation t i = Some r" "sr_status r = RESERVED"
  defines "r' \<equiv> r\<lparr>sr_status := RELEASED, sr_released_at := Some now\<rparr>"
  shows "\<exists>w. w \<in> set (st_workspaces t) \<and> ws_id w = sr_workspace_id r \<and>
    release_storage now t i = Inr (True,
      set_reservation (t\<lparr>st_workspaces := update_where (\<lambda>x. ws_id x = ws_id w)
        (\<lambda>_. settle_counters r 0 w) (st_workspaces t)\<rparr>) r')"
proof -
  have mem: "r \<in> set (st_reservations t)" using r(1) by (blast dest: get_reservation_SomeD)
  then have "0 \<le> sr_reserved_bytes r" using inv by (auto simp: storage_inv_def)
  from inv mem r(2) order_refl this obtain w where w: "w \<in> set (st_workspaces t)"
    "ws_id w = sr_workspace_id r" "release_guard r w"
    by (rule settle_guard_holds)
  have *: "release_guard r x \<Longrightarrow> ws_id x = ws_id w" for x
    using w(2) by (simp add: release_guard_def)
  note upd = guarded_update [OF inv w(1), of "release_guard r", OF w(3) *]
  have "release_storage now t i = Inr (True,
      set_reservation (t\<lparr>st_workspaces := update_where (\<lambda>x. ws_id x = ws_id w)
        (\<lambda>_. settle_counters r 0 w) (st_workspaces t)\<rparr>) r')"
    using r upd(1)
      upd(2) [of "\<lambda>w. w\<lparr>reserved_storage_bytes := reserved_storage_bytes w - sr_reserved_bytes r\<rparr>"]
    by (simp add: release_storage_def r'_def settle_counters_def)
  with w show ?thesis by blast
qed

lemma settle_storage_action:
  assumes "settle_storage now t i a k n = Inr (v, u)" and inv: "storage_inv t"
  shows "storage_action t u"
proof -
  from assms(1) obtain r where r: "get_reservation t i = Some r"
    by (cases "get_reservation t i") (auto simp: settle_storage_def)
  then have mem: "r \<in> set (st_reservations t)" by (blast dest: get_reservation_SomeD)
  show ?thesis
  proof (cases "sr_status r = RESERVED")
    case True
    with assms(1) r have n: "0 \<le> n" "n \<le> sr_reserved_bytes r" and a: "a \<in> set (st_asset_ids t)"
      by (auto simp: settle_storage_def Let_def split: if_split_asm)
    from settle_storage_RESERVED [OF inv r True n a, of now k]
    obtain w where w: "w \<in> set (st_workspaces t)" "ws_id w = sr_workspace_id r" and
      u: "settle_storage now t i a k n = Inr (storage_view (r\<lparr>sr_status := SETTLED,
        sr_asset_id := Some a, sr_storage_key := Some k, sr_settled_at := Some now\<rparr>) False,
      set_reservation (t\<lparr>st_workspaces := update_where (\<lambda>x. ws_id x = ws_id w)
        (\<lambda>_. settle_counters r n w) (st_workspaces t)\<rparr>) (r\<lparr>sr_status := SETTLED,
        sr_asset_id := Some a, sr_storage_key := Some k, sr_settled_at := Some now\<rparr>))"
      by blast
    show ?thesis
      by (rule act_move [OF mem w, of "r\<lparr>sr_status := SETTLED,
        sr_asset_id := Some a, sr_storage_key := Some k, sr_settled_at := Some now\<rparr>"])
        (use True n u assms(1) in \<open>auto simp: reservation_keeps_def storage_phase_le_def
           intro: step_settle\<close>)
  next
    case False
    with assms r have "u = t" by (auto simp: settle_storage_def split: if_split_asm)
    then show ?thesis by (simp add: act_none)
  qed
qed

lemma release_storage_action:
  assumes "release_storage now t i = Inr (b, u)" and inv: "storage_inv t"
  shows "storage_action t u"
proof -
  from assms(1) obtain r where r: "get_reservation t i = Some r"
    by (cases "get_reservation t i") (auto simp: release_storage_def)
  then have mem: "r \<in> set (st_reservations t)" by (blast dest: get_reservation_SomeD)
  show ?thesis
  proof (cases "sr_status r = RESERVED")
    case True
    from release_storage_RESERVED [OF inv r True, of now]
    obtain w where w: "w \<in> set (st_workspaces t)" "ws_id w = sr_workspace_id r" and
      u: "release_storage now t i = Inr (True,
      set_reservation (t\<lparr>st_workspaces := update_where (\<lambda>x. ws_id x = ws_id w)
        (\<lambda>_. settle_counters r 0 w) (st_workspaces t)\<rparr>)
        (r\<lparr>sr_status := RELEASED, sr_released_at := Some now\<rparr>))"
      by blast
    show ?thesis
      by (rule act_move [OF mem w, of "r\<lparr>sr_status := RELEASED, sr_released_at := Some now\<rparr>"])
        (use True u assms(1) in \<open>auto simp: reservation_keeps_def storage_phase_le_def
           intro: step_release\<close>)
  next
    case False
    with assms r have "u = t" by (auto simp: release_storage_def split: if_split_asm)
    then show ?thesis by (simp add: act_none)
  qed
qed

lemma release_settled_action:
  assumes "release_settled_for_asset t a n = (b, u)" and inv: "storage_inv t"
  shows "storage_action t u"
proof (cases "row_where (\<lambda>r. sr_asset_id r = Some a \<and> sr_status r = SETTLED) (st_reservations t)")
  case None
  with assms show ?thesis by (simp add: release_settled_for_asset_def act_none)
next
  case (Some r)
  then have r: "r \<in> set (st_reservations t)" "sr_status r = SETTLED"
    using row_where_SomeD [OF Some] by simp_all
  from inv r(1) obtain w where w: "w \<in> set (st_workspaces t)" "ws_id w = sr_workspace_id r"
    "workspace_ok w" by (rule reservation_workspace)
  let ?f = "\<lambda>w. w\<lparr>used_storage_bytes := if used_storage_bytes w \<ge> reclaim_bytes r n
     then used_storage_bytes w - reclaim_bytes r n else 0\<rparr>"
  have "0 \<le> reclaim_bytes r n" using inv r by (auto simp: reclaim_bytes_def storage_inv_def)
  then have step: "row_step r (r\<lparr>sr_status := RELEASED_INVALID\<rparr>) w (?f w)"
    using r w by (auto intro!: step_reclaim simp: workspace_ok_def)
  have "u = set_reservation (t\<lparr>st_workspaces := update_where (\<lambda>x. ws_id x = ws_id w)
      (\<lambda>_. ?f w) (st_workspaces t)\<rparr>) (r\<lparr>sr_status := RELEASED_INVALID\<rparr>)"
    using assms(1) Some w(2) guarded_update(2) [OF inv w(1), of "\<lambda>x. ws_id x = ws_id w" ?f]
    by (simp add: release_settled_for_asset_def Let_def)
  then show ?thesis
    by (intro act_move [OF r(1) w(1,2) _ step])
      (use r in \<open>simp_all add: reservation_keeps_def storage_phase_le_def\<close>)
qed

lemma storage_txn_action:
  assumes "storage_txn s t u" and "storage_inv t"
  shows "storage_action t u"
  using assms(1)
proof cases
  case (txn_reserve i w p n k v)
  then show ?thesis using assms(2) by (rule reserve_storage_action)
next
  case (txn_settle now i a k n v)
  then show ?thesis using assms(2) by (rule settle_storage_action)
next
  case (txn_release now i b)
  then show ?thesis using assms(2) by (rule release_storage_action)
next
  case (txn_reclaim a n b)
  then show ?thesis using assms(2) by (rule release_settled_action)
next
  case (txn_dedup i now w p n k a sk v)
  then show ?thesis by (rule record_deduplicated_action)
qed

section \<open>The lifecycle keeps the invariant and the frame\<close>

lemma insert_reservation_InrD:
  assumes "insert_reservation t r = Inr u"
  shows "u = t\<lparr>st_reservations := st_reservations t @ [r]\<rparr>"
    and "sr_id r \<notin> sr_id ` set (st_reservations t)"
    and "(sr_workspace_id r, sr_idempotency_key r) \<notin>
      (\<lambda>r. (sr_workspace_id r, sr_idempotency_key r)) ` set (st_reservations t)"
    and "0 < sr_reserved_bytes r" and "sr_workspace_id r \<in> ws_id ` set (st_workspaces t)"
  using assms by (auto simp: insert_reservation_def split: if_split_asm)

lemma storage_inv_act_open:
  assumes inv: "storage_inv t" and w: "w \<in> set (st_workspaces t)"
    and cap: "capacity_left (ws_id w) (sr_reserved_bytes r) w"
    and r: "sr_workspace_id r = ws_id w" "sr_status r = RESERVED"
    and ins: "insert_reservation (t\<lparr>st_workspaces := update_where (\<lambda>x. ws_id x = ws_id w)
      (\<lambda>_. w\<lparr>reserved_storage_bytes := reserved_storage_bytes w + sr_reserved_bytes r\<rparr>)
      (st_workspaces t)\<rparr>) r = Inr u"
  shows "storage_inv u"
proof -
  note D = insert_reservation_InrD [OF ins]
  have ok: "workspace_ok w" and res: "reserved_storage_bytes w = held_bytes t (ws_id w)"
    using inv w by (auto simp: storage_inv_def)
  have held: "held_bytes u k = held_bytes t k + (if k = ws_id w then sr_reserved_bytes r else 0)" for k
    using r by (simp add: D(1) held_bytes_def)
  have wks: "st_workspaces u = update_where (\<lambda>x. ws_id x = ws_id w)
      (\<lambda>_. w\<lparr>reserved_storage_bytes := reserved_storage_bytes w + sr_reserved_bytes r\<rparr>)
      (st_workspaces t)" and resv: "st_reservations u = st_reservations t @ [r]"
    by (simp_all add: D(1))
  have ids: "map ws_id (st_workspaces u) = map ws_id (st_workspaces t)"
    by (simp add: wks map_update_where)
  have ws: "ws_id ` set (st_workspaces u) = ws_id ` set (st_workspaces t)"
    using ids by (metis list.set_map)
  have rows: "sr_reserved_bytes x > 0 \<and> sr_workspace_id x \<in> ws_id ` set (st_workspaces u) \<and>
        sr_status x \<in> {RESERVED, SETTLED, RELEASED, RELEASED_INVALID}"
    if "x \<in> set (st_reservations u)" for x
    using that inv D(4) r w unfolding resv ws by (auto simp: storage_inv_def)
  have works: "workspace_ok x \<and> reserved_storage_bytes x = held_bytes u (ws_id x)"
    if "x \<in> set (st_workspaces u)" for x
    using that inv ok res cap D(4) unfolding wks held
    by (auto simp: set_update_where storage_inv_def workspace_ok_def capacity_left_def
        split: if_splits)
  show ?thesis
    unfolding storage_inv_def ids using inv rows works D(2,3) by (simp add: storage_inv_def resv)
qed

lemma storage_inv_act_record:
  assumes inv: "storage_inv t" and r: "sr_status r = SETTLED"
    and ins: "insert_reservation t r = Inr u"
  shows "storage_inv u"
proof -
  note D = insert_reservation_InrD [OF ins]
  have held: "held_bytes u k = held_bytes t k" for k
    using r by (simp add: D(1) held_bytes_def)
  show ?thesis using inv D r unfolding storage_inv_def held by auto
qed

lemma row_step_counters:
  assumes "row_step r r' w w'" and "workspace_ok w" and "0 < sr_reserved_bytes r"
    and "sr_status r = RESERVED \<Longrightarrow> sr_reserved_bytes r \<le> reserved_storage_bytes w"
  shows "ws_id w' = ws_id w" and "max_storage_bytes w' = max_storage_bytes w" and "workspace_ok w'"
    and "reserved_storage_bytes w' = reserved_storage_bytes w -
      (if sr_status r = RESERVED then sr_reserved_bytes r else 0)"
    and "sr_status r' \<noteq> RESERVED"
    and "sr_status r' \<in> {SETTLED, RELEASED, RELEASED_INVALID}"
  using assms by (auto elim!: row_step.cases simp: settle_counters_def workspace_ok_def)

lemma storage_inv_act_move:
  assumes inv: "storage_inv t" and r: "r \<in> set (st_reservations t)"
    and w: "w \<in> set (st_workspaces t)" "ws_id w = sr_workspace_id r"
    and keep: "reservation_keeps r r'" and step: "row_step r r' w w'"
    and u: "u = set_reservation (t\<lparr>st_workspaces := update_where (\<lambda>x. ws_id x = ws_id w) (\<lambda>_. w')
      (st_workspaces t)\<rparr>) r'"
  shows "storage_inv u" and "storage_frame t u"
proof -
  have dr: "distinct (map sr_id (st_reservations t))" and ok: "workspace_ok w"
    and pos: "0 < sr_reserved_bytes r"
    and dw: "distinct (map ws_id (st_workspaces t))"
    and res: "reserved_storage_bytes w = held_bytes t (ws_id w)"
    using inv r w by (auto simp: storage_inv_def)
  have bound: "sr_status r = RESERVED \<Longrightarrow> sr_reserved_bytes r \<le> reserved_storage_bytes w"
    using inv r w dw by (metis reservation_workspace distinct_keyD)
  note C = row_step_counters [OF step ok pos bound]
  have same: "sr_id r' = sr_id r" "sr_workspace_id r' = sr_workspace_id r"
    "sr_reserved_bytes r' = sr_reserved_bytes r" "sr_idempotency_key r' = sr_idempotency_key r"
    using keep by (simp_all add: reservation_keeps_def)
  have held: "held_bytes u k = held_bytes t k -
      (if k = ws_id w \<and> sr_status r = RESERVED then sr_reserved_bytes r else 0)" for k
    using C(5) same w(2) tally_update_single [OF dr r, of "\<lambda>r. if sr_workspace_id r = k \<and>
        sr_status r = RESERVED then sr_reserved_bytes r else 0" "\<lambda>_. r'"]
    by (simp add: u set_reservation_def held_bytes_def)
  have resv: "st_reservations u = update_where (\<lambda>x. sr_id x = sr_id r) (\<lambda>_. r') (st_reservations t)"
    and wks: "st_workspaces u = update_where (\<lambda>x. ws_id x = ws_id w) (\<lambda>_. w') (st_workspaces t)"
    by (simp_all add: u set_reservation_def same)
  have uniq: "x = r" if "x \<in> set (st_reservations t)" "sr_id x = sr_id r" for x
    using dr that r by (blast dest: distinct_keyD)
  have uniqw: "x = w" if "x \<in> set (st_workspaces t)" "ws_id x = ws_id w" for x
    using dw that w by (blast dest: distinct_keyD)
  have keys: "map (\<lambda>r. (sr_workspace_id r, sr_idempotency_key r)) (st_reservations u) =
      map (\<lambda>r. (sr_workspace_id r, sr_idempotency_key r)) (st_reservations t)"
    unfolding resv update_where_def by (auto simp: same dest: uniq)
  have ids: "map sr_id (st_reservations u) = map sr_id (st_reservations t)"
    "map ws_id (st_workspaces u) = map ws_id (st_workspaces t)"
    "map max_storage_bytes (st_workspaces u) = map max_storage_bytes (st_workspaces t)"
    unfolding resv wks update_where_def by (auto simp: same C dest: uniqw)
  have ws: "ws_id ` set (st_workspaces u) = ws_id ` set (st_workspaces t)"
    using ids(2) by (metis list.set_map)
  have rows: "sr_reserved_bytes x > 0 \<and> sr_workspace_id x \<in> ws_id ` set (st_workspaces u) \<and>
        sr_status x \<in> {RESERVED, SETTLED, RELEASED, RELEASED_INVALID}"
    if "x \<in> set (st_reservations u)" for x
    using that inv r C(6) pos w(2) unfolding resv ws
    by (auto simp: set_update_where storage_inv_def same split: if_splits)
  have works: "workspace_ok x \<and> reserved_storage_bytes x = held_bytes u (ws_id x)"
    if "x \<in> set (st_workspaces u)" for x
    using that inv C res unfolding wks held
    by (auto simp: set_update_where storage_inv_def split: if_splits)
  show "storage_inv u"
    unfolding storage_inv_def keys ids using inv rows works by (simp add: storage_inv_def)
  have "\<exists>x' \<in> set (st_reservations u). reservation_keeps x x'" if "x \<in> set (st_reservations t)" for x
    using that keep uniq [OF that] unfolding resv by (cases "x = r") (force simp: set_update_where)+
  then show "storage_frame t u" by (simp add: storage_frame_def ids)
qed

lemma storage_action_inv:
  assumes "storage_action t u" and "storage_inv t"
  shows "storage_inv u"
  using assms
  by (cases rule: storage_action.cases)
    (blast intro: storage_inv_act_open storage_inv_act_record storage_inv_act_move)+

lemma storage_action_frame:
  assumes "storage_action t u" and inv: "storage_inv t"
  shows "storage_frame t u"
  using assms(1)
proof cases
  case (act_open w r)
  have "map max_storage_bytes (update_where (\<lambda>x. ws_id x = ws_id w)
      (\<lambda>_. w\<lparr>reserved_storage_bytes := reserved_storage_bytes w + sr_reserved_bytes r\<rparr>)
      (st_workspaces t)) = map max_storage_bytes (st_workspaces t)"
    using inv act_open(1) unfolding update_where_def
    by (auto simp: storage_inv_def dest: distinct_keyD)
  with insert_reservation_InrD(1) [OF act_open(5)] show ?thesis
    by (force simp: storage_frame_def map_update_where)
next
  case (act_record r)
  then show ?thesis
    using insert_reservation_InrD(1) [OF act_record(2)] by (force simp: storage_frame_def)
next
  case (act_move r w r' w')
  then show ?thesis by (rule storage_inv_act_move(2) [OF inv])
qed (force simp: storage_frame_def)

lemma storage_frame_trans:
  "storage_frame s t \<Longrightarrow> storage_frame t u \<Longrightarrow> storage_frame s u"
  unfolding storage_frame_def by (metis reservation_keeps_trans)

text \<open>The service keeps the contract of optimistic transactions.\<close>

interpretation quota: optimistic_txn storage_txn storage_inv storage_frame
proof unfold_locales
  show "storage_frame s s" for s by (auto simp: storage_frame_def intro: reservation_keeps_refl)
  show "storage_frame s t \<Longrightarrow> storage_frame t u \<Longrightarrow> storage_frame s u" for s t u
    by (rule storage_frame_trans)
  show "storage_inv t \<Longrightarrow> storage_txn s t u \<Longrightarrow> storage_inv u"
    and "storage_inv t \<Longrightarrow> storage_txn s t u \<Longrightarrow> storage_frame t u" for s t u
    by (blast intro: storage_action_inv storage_action_frame storage_txn_action)+
qed

section \<open>Counters of one workspace\<close>

definition storage_counters :: "storage_db \<Rightarrow> string \<Rightarrow> (int \<times> int) option" where
  "storage_counters t k = map_option (\<lambda>w. (used_storage_bytes w, reserved_storage_bytes w))
     (row_where (\<lambda>w. ws_id w = k) (st_workspaces t))"

lemma storage_counters_row:
  assumes "storage_inv t" and "w \<in> set (st_workspaces t)"
  shows "storage_counters t (ws_id w) = Some (used_storage_bytes w, reserved_storage_bytes w)"
  using assms row_where_key [of ws_id "st_workspaces t" w]
  by (simp add: storage_counters_def storage_inv_def)

lemma storage_counters_moved:
  assumes "w \<in> set (st_workspaces t)" and "ws_id w' = ws_id w"
  shows "storage_counters (set_reservation (t\<lparr>st_workspaces :=
      update_where (\<lambda>x. ws_id x = ws_id w) (\<lambda>_. w') (st_workspaces t)\<rparr>) r') (ws_id w) =
    Some (used_storage_bytes w', reserved_storage_bytes w')"
  using row_where_update_single [of w "st_workspaces t" ws_id w'] assms
  by (simp add: storage_counters_def set_reservation_def)

lemma settle_counters_sel [simp]:
  "ws_id (settle_counters r n w) = ws_id w"
  "used_storage_bytes (settle_counters r n w) = used_storage_bytes w + n"
  "reserved_storage_bytes (settle_counters r n w) = reserved_storage_bytes w - sr_reserved_bytes r"
  by (simp_all add: settle_counters_def)

lemma settle_storage_effect:
  assumes "storage_inv t" and "get_reservation t i = Some r" and "sr_status r = RESERVED"
    and "0 \<le> n" and "n \<le> sr_reserved_bytes r" and "a \<in> set (st_asset_ids t)"
  shows "\<exists>w v u. w \<in> set (st_workspaces t) \<and> ws_id w = sr_workspace_id r \<and>
    settle_storage now t i a k n = Inr (v, u) \<and> sv_status v = SETTLED \<and>
    storage_counters u (ws_id w) = Some (used_storage_bytes w + n,
      reserved_storage_bytes w - sr_reserved_bytes r)"
proof -
  let ?r = "r\<lparr>sr_status := SETTLED, sr_asset_id := Some a, sr_storage_key := Some k,
    sr_settled_at := Some now\<rparr>"
  from settle_storage_RESERVED [OF assms, of now k] obtain w where
    w: "w \<in> set (st_workspaces t)" "ws_id w = sr_workspace_id r" and
    "settle_storage now t i a k n = Inr (storage_view ?r False,
      set_reservation (t\<lparr>st_workspaces := update_where (\<lambda>x. ws_id x = ws_id w)
        (\<lambda>_. settle_counters r n w) (st_workspaces t)\<rparr>) ?r)"
    by blast
  with storage_counters_moved [OF w(1), of "settle_counters r n w" ?r] show ?thesis
    by (intro exI [of _ w] exI [of _ "storage_view ?r False"])
      (simp add: storage_view_def)
qed

lemma release_storage_effect:
  assumes "storage_inv t" and "get_reservation t i = Some r" and "sr_status r = RESERVED"
  shows "\<exists>w u. w \<in> set (st_workspaces t) \<and> ws_id w = sr_workspace_id r \<and>
    release_storage now t i = Inr (True, u) \<and>
    storage_counters u (ws_id w) = Some (used_storage_bytes w,
      reserved_storage_bytes w - sr_reserved_bytes r)"
proof -
  from release_storage_RESERVED [OF assms, of now] obtain w r' where
    w: "w \<in> set (st_workspaces t)" "ws_id w = sr_workspace_id r" and
    "release_storage now t i = Inr (True,
      set_reservation (t\<lparr>st_workspaces := update_where (\<lambda>x. ws_id x = ws_id w)
        (\<lambda>_. settle_counters r 0 w) (st_workspaces t)\<rparr>) r')"
    by fastforce
  with storage_counters_moved [OF w(1), of "settle_counters r 0 w" r'] show ?thesis by auto
qed

lemma get_reservation_moved:
  assumes "r \<in> set (st_reservations t)" and "sr_id r' = sr_id r"
  shows "get_reservation (set_reservation (t\<lparr>st_workspaces := ws\<rparr>) r') (sr_id r) = Some r'"
  using row_where_update_single [of r "st_reservations t" sr_id r'] assms
  by (simp add: get_reservation_def set_reservation_def)

lemma get_reservation_member:
  "storage_inv t \<Longrightarrow> r \<in> set (st_reservations t) \<Longrightarrow> get_reservation t (sr_id r) = Some r"
  unfolding get_reservation_def by (rule row_where_key) (simp_all add: storage_inv_def)

text \<open>The rows of a small installation, used by the concrete applications below.\<close>

definition demo_storage :: storage_db where
  "demo_storage = \<lparr>st_workspaces = [\<lparr>ws_id = ''w'', ws_status = ''ACTIVE'', ws_plan_tier = ''FREE'',
       credit_balance = 0, max_storage_bytes = 100, used_storage_bytes = 0,
       reserved_storage_bytes = 0\<rparr>],
     st_reservations = [], st_project_ids = [''p''], st_asset_ids = [''A'', ''B'']\<rparr>"

definition demo_storage_held :: storage_db where
  "demo_storage_held = snd (projr
     (reserve_storage ''r1'' demo_storage demo_storage ''w'' ''p'' 60 '' k1 ''))"

lemma demo_storage_inv: "storage_inv demo_storage"
  by code_simp

lemma demo_storage_reserve:
  "\<not> isl (reserve_storage ''r1'' demo_storage demo_storage ''w'' ''p'' 60 '' k1 '')"
  by code_simp

lemma demo_storage_reaches: "interleaved storage_txn demo_storage demo_storage_held"
proof -
  have "reserve_storage ''r1'' demo_storage demo_storage ''w'' ''p'' 60 '' k1 '' =
      Inr (fst (projr (reserve_storage ''r1'' demo_storage demo_storage ''w'' ''p'' 60 '' k1 '')),
        demo_storage_held)"
    using demo_storage_reserve by (simp add: demo_storage_held_def)
  then have "storage_txn demo_storage demo_storage demo_storage_held" by (rule txn_reserve)
  then show ?thesis by (rule interleaved.commit [OF interleaved.start interleaved.start])
qed

section \<open>Properties\<close>

text \<open>
  C4. Over every interleaving of the service's transactions a workspace's reserved counter is the
  sum of its open holds, and used plus reserved bytes stay within its limit.\<close>

theorem storage_counters_match_holds:
  assumes "interleaved storage_txn s t" and "storage_inv s" and "w \<in> set (st_workspaces t)"
  shows "reserved_storage_bytes w = held_bytes t (ws_id w) \<and> 0 \<le> used_storage_bytes w \<and>
    used_storage_bytes w + reserved_storage_bytes w \<le> max_storage_bytes w"
  using quota.execution_inv [OF assms(1,2)] assms(3)
  by (auto simp: storage_inv_def workspace_ok_def)

theorem storage_counters_match_holds_witness:
  "reserved_storage_bytes (hd (st_workspaces demo_storage_held)) = 60 \<and>
   reserved_storage_bytes (hd (st_workspaces demo_storage_held)) =
     held_bytes demo_storage_held (ws_id (hd (st_workspaces demo_storage_held)))"
proof -
  have "hd (st_workspaces demo_storage_held) \<in> set (st_workspaces demo_storage_held)"
    and "reserved_storage_bytes (hd (st_workspaces demo_storage_held)) = 60"
    by code_simp+
  with storage_counters_match_holds [OF demo_storage_reaches demo_storage_inv] show ?thesis by blast
qed

text \<open>
  C5. A hold that is open in any reachable state can always be resolved: settling it with any
  size within the hold succeeds and moves exactly those bytes from reserved to used, and
  releasing it succeeds and returns the whole hold. The error that the workspace's storage
  counters changed unexpectedly is never raised.\<close>

theorem open_hold_can_be_resolved:
  assumes "interleaved storage_txn s t" and "storage_inv s"
    and "r \<in> set (st_reservations t)" and "sr_status r = RESERVED"
    and "0 \<le> n" and "n \<le> sr_reserved_bytes r" and "a \<in> set (st_asset_ids t)"
  shows "\<exists>used reserved v u u'.
    storage_counters t (sr_workspace_id r) = Some (used, reserved) \<and>
    settle_storage now t (sr_id r) a k n = Inr (v, u) \<and> sv_status v = SETTLED \<and>
    storage_counters u (sr_workspace_id r) = Some (used + n, reserved - sr_reserved_bytes r) \<and>
    release_storage now t (sr_id r) = Inr (True, u') \<and>
    storage_counters u' (sr_workspace_id r) = Some (used, reserved - sr_reserved_bytes r)"
proof -
  have inv: "storage_inv t" using assms(1,2) by (rule quota.execution_inv)
  have get: "get_reservation t (sr_id r) = Some r" using inv assms(3) by (rule get_reservation_member)
  from settle_storage_effect [OF inv get assms(4-7), of now k] obtain w v u where
    w: "w \<in> set (st_workspaces t)" "ws_id w = sr_workspace_id r"
    and settled: "settle_storage now t (sr_id r) a k n = Inr (v, u)" "sv_status v = SETTLED"
      "storage_counters u (ws_id w) = Some (used_storage_bytes w + n,
        reserved_storage_bytes w - sr_reserved_bytes r)"
    by blast
  from release_storage_effect [OF inv get assms(4), of now] obtain w' u' where
    w': "w' \<in> set (st_workspaces t)" "ws_id w' = sr_workspace_id r"
    and released: "release_storage now t (sr_id r) = Inr (True, u')"
      "storage_counters u' (ws_id w') = Some (used_storage_bytes w',
        reserved_storage_bytes w' - sr_reserved_bytes r)"
    by blast
  have "w' = w" using inv w w' by (auto simp: storage_inv_def dest: distinct_keyD)
  with w settled released storage_counters_row [OF inv w(1)] show ?thesis by auto
qed

theorem open_hold_can_be_resolved_witness:
  "\<exists>used reserved v u u'.
    storage_counters demo_storage_held ''w'' = Some (used, reserved) \<and>
    settle_storage 7 demo_storage_held ''r1'' ''A'' ''key'' 50 = Inr (v, u) \<and> sv_status v = SETTLED \<and>
    storage_counters u ''w'' = Some (used + 50, reserved - 60) \<and>
    release_storage 7 demo_storage_held ''r1'' = Inr (True, u') \<and>
    storage_counters u' ''w'' = Some (used, reserved - 60)"
proof -
  let ?r = "hd (st_reservations demo_storage_held)"
  have "?r \<in> set (st_reservations demo_storage_held)" and "sr_status ?r = RESERVED"
    and "50 \<le> sr_reserved_bytes ?r" and "''A'' \<in> set (st_asset_ids demo_storage_held)"
    and row: "sr_id ?r = ''r1''" "sr_workspace_id ?r = ''w''" "sr_reserved_bytes ?r = 60"
    by code_simp+
  with open_hold_can_be_resolved [OF demo_storage_reaches demo_storage_inv, of ?r 50 "''A''" 7 "''key''"]
  show ?thesis by simp
qed

text \<open>
  C6. Reserving capacity and releasing the hold restores every workspace row and every sum of
  holds to what it was.\<close>

theorem reserve_release_roundtrip:
  assumes "reserve_storage i s t wid p n k = Inr (v, u)" and "storage_inv t"
    and "\<not> sv_replayed v"
  shows "\<exists>u'. release_storage now u i = Inr (True, u') \<and> st_workspaces u' = st_workspaces t \<and>
    held_bytes u' = held_bytes t"
proof -
  let ?r = "\<lparr>sr_id = i, sr_workspace_id = wid, sr_project_id = p, sr_idempotency_key = py_strip k,
    sr_reserved_bytes = n, sr_status = RESERVED, sr_asset_id = None, sr_storage_key = None,
    sr_settled_at = None, sr_released_at = None\<rparr>"
  from assms(1,3) obtain t' where t': "hold_capacity t wid n = Inr t'"
    and ins: "insert_reservation t' ?r = Inr u"
    by (auto simp: reserve_storage_def Let_def res_simps storage_view_def
        split: if_split_asm option.split_asm)
  from t' assms(2) obtain w where w: "w \<in> set (st_workspaces t)" "ws_id w = wid" and
    t'_eq: "t' = t\<lparr>st_workspaces := update_where (\<lambda>x. ws_id x = wid)
      (\<lambda>_. w\<lparr>reserved_storage_bytes := reserved_storage_bytes w + n\<rparr>) (st_workspaces t)\<rparr>"
    by (rule hold_capacity_InrE)
  note D = insert_reservation_InrD [OF ins]
  have inv: "storage_inv u"
    using assms(1,2) by (blast intro: storage_action_inv reserve_storage_action)
  have get: "get_reservation u i = Some ?r"
    using get_reservation_member [OF inv, of ?r] by (simp add: D(1))
  from release_storage_RESERVED [OF inv get, of now] obtain w' where
    w': "w' \<in> set (st_workspaces u)" "ws_id w' = wid" and
    rel: "release_storage now u i = Inr (True,
      set_reservation (u\<lparr>st_workspaces := update_where (\<lambda>x. ws_id x = wid)
        (\<lambda>_. settle_counters ?r 0 w') (st_workspaces u)\<rparr>)
        (?r\<lparr>sr_status := RELEASED, sr_released_at := Some now\<rparr>))"
    by auto
  have w'_eq: "w' = w\<lparr>reserved_storage_bytes := reserved_storage_bytes w + n\<rparr>"
    using w' w by (auto simp: D(1) t'_eq set_update_where split: if_splits)
  have "x = w" if "x \<in> set (st_workspaces t)" "ws_id x = wid" for x
    using assms(2) that w by (auto simp: storage_inv_def dest: distinct_keyD)
  then have ws: "update_where (\<lambda>x. ws_id x = wid) (\<lambda>_. settle_counters ?r 0 w') (st_workspaces u) =
      st_workspaces t"
    using w(2) unfolding w'_eq D(1) t'_eq update_where_def
    by (auto simp: settle_counters_def map_idI)
  have "update_where (\<lambda>x. sr_id x = i) f (st_reservations t) = st_reservations t" for f
    using D(2) by (intro update_where_none) (auto simp: t'_eq affected_def filter_empty_conv)
  then show ?thesis
    using rel ws by (auto simp: set_reservation_def D(1) t'_eq held_bytes_def)
qed

theorem reserve_release_roundtrip_witness:
  "\<exists>u'. release_storage 9 demo_storage_held ''r1'' = Inr (True, u') \<and>
    st_workspaces u' = st_workspaces demo_storage \<and> held_bytes u' = held_bytes demo_storage"
proof -
  let ?v = "projr (reserve_storage ''r1'' demo_storage demo_storage ''w'' ''p'' 60 '' k1 '')"
  have "reserve_storage ''r1'' demo_storage demo_storage ''w'' ''p'' 60 '' k1 '' =
      Inr (fst ?v, demo_storage_held)"
    using demo_storage_reserve by (simp add: demo_storage_held_def)
  moreover have "\<not> sv_replayed (fst ?v)" by code_simp
  ultimately show ?thesis using reserve_release_roundtrip demo_storage_inv by blast
qed

text \<open>
  A decided row is final: over every later execution a row that is not RESERVED keeps its id,
  owner, key, size, asset and storage key, and its status, except that reclamation turns SETTLED
  into RELEASED-INVALID; a row that is RESERVED keeps its owner, key and size.\<close>

theorem decided_hold_is_final:
  assumes "interleaved storage_txn s t" and "storage_inv s" and "r \<in> set (st_reservations s)"
  shows "\<exists>r'. get_reservation t (sr_id r) = Some r' \<and>
    sr_workspace_id r' = sr_workspace_id r \<and> sr_idempotency_key r' = sr_idempotency_key r \<and>
    sr_reserved_bytes r' = sr_reserved_bytes r \<and>
    (sr_status r = RESERVED \<or> sr_asset_id r' = sr_asset_id r \<and> sr_storage_key r' = sr_storage_key r \<and>
      (sr_status r' = sr_status r \<or> sr_status r = SETTLED \<and> sr_status r' = RELEASED_INVALID))"
proof -
  have inv: "storage_inv t" and "storage_frame s t"
    using quota.execution [OF assms(1,2)] by simp_all
  with assms(3) obtain r' where r': "r' \<in> set (st_reservations t)" "reservation_keeps r r'"
    by (auto simp: storage_frame_def)
  then have "get_reservation t (sr_id r) = Some r'"
    using get_reservation_member [OF inv] by (force simp: reservation_keeps_def)
  with r' show ?thesis by (auto simp: reservation_keeps_def storage_phase_le_def)
qed

theorem decided_hold_is_final_witness:
  "\<exists>r'. get_reservation demo_storage_held ''r1'' = Some r' \<and> sr_reserved_bytes r' = 60"
proof -
  let ?r = "hd (st_reservations demo_storage_held)"
  have "?r \<in> set (st_reservations demo_storage_held)" and "sr_id ?r = ''r1''"
    and "sr_reserved_bytes ?r = 60" and "storage_inv demo_storage_held"
    by code_simp+
  with decided_hold_is_final [OF interleaved.start [of storage_txn demo_storage_held], of ?r]
  show ?thesis by auto
qed

text \<open>
  Settlement is idempotent: after a settlement commits, repeating it returns the same view
  marked as a replay and writes nothing, repeating it for another asset or storage key is a
  conflict, and releasing the row is a no-op.\<close>

theorem settle_storage_replays:
  assumes "settle_storage now t i a k n = Inr (v, u)"
  shows "settle_storage now' u i a k n = Inr (v\<lparr>sv_replayed := True\<rparr>, u) \<and>
    ((a', k') = (a, k) \<or> settle_storage now' u i a' k' n =
      Inl (StorageReservationConflict ''reservation was settled for another asset'' [])) \<and>
    release_storage now' u i = Inr (False, u)"
proof -
  from assms obtain r where r: "get_reservation t i = Some r"
    by (cases "get_reservation t i") (auto simp: settle_storage_def)
  then have mem: "r \<in> set (st_reservations t)" "sr_id r = i" by (auto dest: get_reservation_SomeD)
  have n: "0 \<le> n" "n \<le> sr_reserved_bytes r"
    using assms r by (auto simp: settle_storage_def split: if_split_asm)
  have "\<exists>r'. get_reservation u i = Some r' \<and> sr_status r' = SETTLED \<and> sr_asset_id r' = Some a \<and>
      sr_storage_key r' = Some k \<and> sr_reserved_bytes r' = sr_reserved_bytes r \<and>
      v\<lparr>sv_replayed := True\<rparr> = storage_view r' True"
  proof (cases "sr_status r = SETTLED")
    case True
    with assms r n show ?thesis
      by (auto simp: settle_storage_def storage_view_def split: if_split_asm)
  next
    case False
    let ?r = "r\<lparr>sr_status := SETTLED, sr_asset_id := Some a, sr_storage_key := Some k,
      sr_settled_at := Some now\<rparr>"
    have "get_reservation u i = Some ?r" and "v = storage_view ?r False"
      using assms r n False get_reservation_moved [OF mem(1), of ?r] mem(2)
      by (auto simp: settle_storage_def Let_def split: if_split_asm)
    then show ?thesis by (simp add: storage_view_def)
  qed
  with n show ?thesis by (auto simp: settle_storage_def release_storage_def split: if_splits)
qed

theorem settle_storage_replays_witness:
  "\<exists>v u. settle_storage 5 demo_storage_held ''r1'' ''A'' ''key'' 50 = Inr (v, u) \<and>
    settle_storage 6 u ''r1'' ''A'' ''key'' 50 = Inr (v\<lparr>sv_replayed := True\<rparr>, u) \<and>
    release_storage 6 u ''r1'' = Inr (False, u)"
proof -
  have "\<not> isl (settle_storage 5 demo_storage_held ''r1'' ''A'' ''key'' 50)" by code_simp
  then obtain v u where "settle_storage 5 demo_storage_held ''r1'' ''A'' ''key'' 50 = Inr (v, u)"
    by (metis sum.collapse(2) surj_pair)
  with settle_storage_replays [OF this, of 6 "''A''" "''key''"] show ?thesis by blast
qed

text \<open>
  A reservation with a fresh key and a fresh id in an active workspace is granted exactly
  when used, reserved and requested bytes fit the limit; otherwise it raises
  WorkspaceStorageQuotaExceeded.\<close>

theorem reserve_storage_decides_by_capacity:
  assumes "storage_inv t" and "w \<in> set (st_workspaces t)" and "ws_status w = ''ACTIVE''" and "0 < n"
    and "py_strip k \<noteq> ''''" and "length (py_strip k) \<le> 200"
    and "reservation_for_key s (ws_id w) (py_strip k) = None"
    and "reservation_for_key t (ws_id w) (py_strip k) = None"
    and "get_reservation t i = None" and "p \<in> set (st_project_ids t)"
  shows "if used_storage_bytes w + reserved_storage_bytes w + n \<le> max_storage_bytes w
    then \<exists>v u. reserve_storage i s t (ws_id w) p n k = Inr (v, u) \<and> sv_status v = RESERVED \<and>
      sv_reserved_bytes v = n \<and> \<not> sv_replayed v \<and>
      storage_counters u (ws_id w) = Some (used_storage_bytes w, reserved_storage_bytes w + n)
    else reserve_storage i s t (ws_id w) p n k = Inl WorkspaceStorageQuotaExceeded"
proof (cases "used_storage_bytes w + reserved_storage_bytes w + n \<le> max_storage_bytes w")
  case True
  let ?w = "w\<lparr>reserved_storage_bytes := reserved_storage_bytes w + n\<rparr>"
  let ?t = "t\<lparr>st_workspaces := update_where (\<lambda>x. ws_id x = ws_id w) (\<lambda>_. ?w) (st_workspaces t)\<rparr>"
  let ?r = "\<lparr>sr_id = i, sr_workspace_id = ws_id w, sr_project_id = p, sr_idempotency_key = py_strip k,
    sr_reserved_bytes = n, sr_status = RESERVED, sr_asset_id = None, sr_storage_key = None,
    sr_settled_at = None, sr_released_at = None\<rparr>"
  have cap: "capacity_left (ws_id w) n w" using True assms(3) by (simp add: capacity_left_def)
  have "hold_capacity t (ws_id w) n = Inr ?t"
    using guarded_update [OF assms(1,2), of "capacity_left (ws_id w) n", OF cap]
    by (simp add: hold_capacity_def capacity_left_def)
  moreover have "ws_id w \<in> ws_id ` set (st_workspaces ?t)"
  proof -
    have "?w \<in> set (st_workspaces ?t)" using assms(2) by (auto simp: set_update_where)
    then show ?thesis by (metis image_eqI workspace.select_convs(1) workspace.surjective workspace.update_convs(7))
  qed
  then have "insert_reservation ?t ?r = Inr (?t\<lparr>st_reservations := st_reservations t @ [?r]\<rparr>)"
    using assms(2,4,8-10)
    by (auto simp: insert_reservation_def get_reservation_def reservation_for_key_def set_update_where
        dest: row_where_NoneD)
  moreover have "row_where (\<lambda>x. ws_id x = ws_id w) (update_where (\<lambda>x. ws_id x = ws_id w) (\<lambda>_. ?w)
      (st_workspaces t)) = Some ?w"
    by (rule row_where_update_single [OF assms(2)]) simp
  ultimately show ?thesis
    using True assms by (simp add: reserve_storage_def storage_view_def storage_counters_def Let_def)
next
  case False
  have "affected (capacity_left (ws_id w) n) (st_workspaces t) = 0"
    using False assms(1,2) unfolding affected_def capacity_left_def
    by (auto simp: filter_empty_conv storage_inv_def dest: distinct_keyD)
  moreover have "row_where (\<lambda>x. ws_id x = ws_id w) (st_workspaces t) = Some w"
    using assms(1,2) by (intro row_where_key) (simp_all add: storage_inv_def)
  ultimately show ?thesis
    using False assms by (simp add: reserve_storage_def hold_capacity_def Let_def)
qed

theorem reserve_storage_decides_by_capacity_witness:
  "reserve_storage ''r2'' demo_storage_held demo_storage_held ''w'' ''p'' 41 ''k2'' =
     Inl WorkspaceStorageQuotaExceeded"
proof -
  let ?w = "hd (st_workspaces demo_storage_held)"
  have "storage_inv demo_storage_held" and "?w \<in> set (st_workspaces demo_storage_held)"
    and "ws_status ?w = ''ACTIVE''" and "py_strip ''k2'' \<noteq> ''''" and "length (py_strip ''k2'') \<le> 200"
    and "reservation_for_key demo_storage_held (ws_id ?w) (py_strip ''k2'') = None"
    and "get_reservation demo_storage_held ''r2'' = None"
    and "''p'' \<in> set (st_project_ids demo_storage_held)" and "ws_id ?w = ''w''"
    and "used_storage_bytes ?w = 0" and "reserved_storage_bytes ?w = 60" and "max_storage_bytes ?w = 100"
    by code_simp+
  with reserve_storage_decides_by_capacity [of demo_storage_held ?w 41 "''k2''" demo_storage_held
      "''r2''" "''p''"]
  show ?thesis by simp
qed

end
