(* ===== verification/Python_Float.thy ===== *)
theory Python_Float
  imports Platform_Prelude "HOL-Library.Log_Nat"
begin

text \<open>
  Python floats. A finite float is the rational it denotes; \<open>fl\<close> rounds an exact result to the
  nearest double (53 significant bits, spacing at least \<^verbatim>\<open>2**-1074\<close>, ties to even), so an
  arithmetic operation of the code is the exact one followed by \<open>fl\<close>. Results beyond the largest
  double are tested for where the code divides. \<open>py_round\<close> is \<^verbatim>\<open>round(x, n)\<close> and
  \<open>py_sum\<close> is \<^verbatim>\<open>sum\<close> over floats, which carries a compensation since Python 3.12.
\<close>

definition round_half_even :: "rat \<Rightarrow> int" where
  "round_half_even x =
     (let f = \<lfloor>x\<rfloor>; d = x - of_int f in
      if d < 1 / 2 then f else if d > 1 / 2 then f + 1 else if even f then f else f + 1)"

definition fl :: "rat \<Rightarrow> rat" where
  "fl x =
     (let s = \<bar>x\<bar> * 2 ^ 1074; e = nat (bitlen \<lfloor>s\<rfloor> - 53)
      in sgn x * (of_int (round_half_even (s / 2 ^ e)) * 2 ^ e / 2 ^ 1074))"

definition py_round :: "rat \<Rightarrow> nat \<Rightarrow> rat" where
  "py_round x n = fl (of_int (round_half_even (x * 10 ^ n)) / 10 ^ n)"

fun sum_loop :: "rat list \<Rightarrow> rat \<Rightarrow> rat \<Rightarrow> rat" where
  "sum_loop [] r c = (if c = 0 then r else fl (r + c))"
| "sum_loop (x # xs) r c =
     (let t = fl (r + x) in
      sum_loop xs t (fl (c + (if \<bar>r\<bar> \<ge> \<bar>x\<bar> then fl (fl (r - t) + x) else fl (fl (x - t) + r)))))"

definition py_sum :: "rat list \<Rightarrow> rat" where
  "py_sum xs = sum_loop xs 0 0"

lemma round_half_even_of_int [simp]: "round_half_even (of_int n) = n"
  by (simp add: round_half_even_def)

lemma round_half_even_error: "\<bar>of_int (round_half_even x) - x\<bar> \<le> 1 / 2"
proof -
  define f d where "f = \<lfloor>x\<rfloor>" and "d = x - of_int f"
  have "0 \<le> d" "d < 1" using floor_correct [of x] by (auto simp: d_def f_def)
  moreover have x: "x = of_int f + d" by (simp add: d_def)
  have "round_half_even x = (if d < 1 / 2 then f else if d > 1 / 2 then f + 1 else if even f then f else f + 1)"
    by (simp add: round_half_even_def Let_def f_def d_def)
  ultimately show ?thesis using x by (auto simp: abs_le_iff)
qed

lemma fl_0 [simp]: "fl 0 = 0"
  by (simp add: fl_def)

text \<open>The grid of the doubles around a normal number is a relative \<^verbatim>\<open>2**-52\<close> apart.\<close>

lemma fl_error:
  assumes "2 ^ 52 / 2 ^ 1074 \<le> x"
  shows "\<bar>fl x - x\<bar> \<le> x / 2 ^ 53"
proof -
  define s where "s = x * 2 ^ 1074"
  define e where "e = nat (bitlen \<lfloor>s\<rfloor> - 53)"
  have "0 < x" using assms by (rule less_le_trans [rotated]) simp
  have s: "2 ^ 52 \<le> s" using assms by (simp add: s_def field_simps)
  then have "2 ^ 52 \<le> \<lfloor>s\<rfloor>" by (metis le_floor_iff of_int_numeral of_int_power)
  then have pos: "0 < \<lfloor>s\<rfloor>" by (rule less_le_trans [rotated]) simp
  have step: "2 ^ e * 2 ^ 52 \<le> s"
  proof (cases "bitlen \<lfloor>s\<rfloor> \<le> 53")
    case True
    then show ?thesis using s by (simp add: e_def)
  next
    case False
    then have "e + 52 = nat (bitlen \<lfloor>s\<rfloor> - 1)" by (simp add: e_def)
    then have "2 ^ e * 2 ^ 52 = (2 :: int) ^ nat (bitlen \<lfloor>s\<rfloor> - 1)" by (metis power_add)
    also have "\<dots> \<le> \<lfloor>s\<rfloor>" using bitlen_bounds [OF pos] by simp
    finally have "(of_int (2 ^ e * 2 ^ 52) :: rat) \<le> of_int \<lfloor>s\<rfloor>" by (simp only: of_int_le_iff)
    then have "2 ^ e * 2 ^ 52 \<le> (of_int \<lfloor>s\<rfloor> :: rat)" by simp
    also have "\<dots> \<le> s" by (rule of_int_floor_le)
    finally show ?thesis .
  qed
  define q where "q = (of_int (round_half_even (s / 2 ^ e)) :: rat)"
  have fl: "fl x = q * 2 ^ e / 2 ^ 1074"
    using \<open>0 < x\<close> by (simp add: fl_def Let_def s_def e_def q_def)
  have near: "\<bar>q - s / 2 ^ e\<bar> \<le> 1 / 2" unfolding q_def by (rule round_half_even_error)
  have diff: "fl x - x = (q - s / 2 ^ e) * (2 ^ e / 2 ^ 1074)"
    by (simp add: fl s_def algebra_simps)
  have "\<bar>fl x - x\<bar> = \<bar>q - s / 2 ^ e\<bar> * (2 ^ e / 2 ^ 1074)" unfolding diff abs_mult by simp
  also have "\<dots> \<le> 1 / 2 * (2 ^ e / 2 ^ 1074)" by (rule mult_right_mono [OF near]) simp
  also have "\<dots> = (2 ^ e * 2 ^ 52) / (2 ^ 1074 * 2 ^ 53)" by simp
  also have "\<dots> \<le> s / (2 ^ 1074 * 2 ^ 53)" using step by (intro divide_right_mono) simp_all
  also have "\<dots> = x / 2 ^ 53" by (simp add: s_def)
  finally show ?thesis .
qed

lemma fl_of_int:
  assumes "0 \<le> n" and "n < 2 ^ 53"
  shows "fl (of_int n) = of_int n"
proof (cases "n = 0")
  case False
  define e where "e = nat (bitlen (n * 2 ^ 1074) - 53)"
  have "n * 2 ^ 1074 < 2 ^ 53 * 2 ^ 1074" using assms(2) by (rule mult_strict_right_mono) simp
  also have "\<dots> = 2 ^ (53 + 1074)" by (rule power_add [symmetric])
  finally have "bitlen (n * 2 ^ 1074) \<le> int (53 + 1074)"
    using assms(1) by (subst bitlen_le_iff_power) simp_all
  then have "e \<le> 1074" by (simp add: e_def)
  then have split: "(2 :: rat) ^ 1074 = 2 ^ (1074 - e) * 2 ^ e" by (metis le_add_diff_inverse2 power_add)
  have floor: "\<lfloor>of_int n * 2 ^ 1074 :: rat\<rfloor> = n * 2 ^ 1074"
    by (metis floor_of_int of_int_mult of_int_numeral of_int_power)
  have "of_int n * 2 ^ 1074 / 2 ^ e = (of_int (n * 2 ^ (1074 - e)) :: rat)"
    unfolding split by simp
  then have "round_half_even (of_int n * 2 ^ 1074 / 2 ^ e) = n * 2 ^ (1074 - e)"
    by (metis round_half_even_of_int)
  moreover have "fl (of_int n) =
      of_int (round_half_even (of_int n * 2 ^ 1074 / 2 ^ e)) * 2 ^ e / 2 ^ 1074"
    using assms(1) False unfolding fl_def Let_def e_def floor [symmetric] by simp
  ultimately have "fl (of_int n) = of_int n * (2 ^ (1074 - e) * 2 ^ e) / 2 ^ 1074" by simp
  then show ?thesis unfolding split [symmetric] by simp
qed simp

lemma fl_neg_of_int:
  assumes "0 \<le> n" and "n < 2 ^ 53"
  shows "fl (- of_int n) = - of_int n"
  using fl_of_int [OF assms] by (simp add: fl_def Let_def)

text \<open>A double is recognised from its significand \<open>m\<close> and the number \<open>t\<close> of its binary places.\<close>

lemma round_half_even_eqI:
  assumes "\<bar>of_int m - x\<bar> < 1 / 2"
  shows "round_half_even x = m"
proof -
  have "\<bar>of_int (round_half_even x) - of_int m :: rat\<bar> < 1"
    using assms round_half_even_error [of x] by linarith
  then have "\<bar>of_int (round_half_even x - m) :: rat\<bar> < of_int 1" by simp
  then have "\<bar>round_half_even x - m\<bar> < 1" by (metis of_int_abs of_int_less_iff)
  then show ?thesis by simp
qed

lemma fl_eqI:
  assumes "2 ^ 52 \<le> x * 2 ^ t" and "x * 2 ^ t < 2 ^ 53" and "\<bar>of_int m - x * 2 ^ t\<bar> < 1 / 2" and "t \<le> 1074"
  shows "fl x = of_int m / 2 ^ t"
proof -
  define s where "s = x * 2 ^ 1074"
  define r where "r = 1074 - t"
  have "0 < x * 2 ^ t" using assms(1) by (rule less_le_trans [rotated]) simp
  then have "0 < x" by (simp add: zero_less_mult_iff)
  have pow: "(2 :: rat) ^ 1074 = 2 ^ t * 2 ^ r" using assms(4) unfolding r_def by (metis le_add_diff_inverse power_add)
  then have s: "s = x * 2 ^ t * 2 ^ r" by (simp add: s_def)
  have "2 ^ 52 * 2 ^ r \<le> s" "s < 2 ^ 53 * 2 ^ r" unfolding s using assms(1,2) by simp_all
  then have "(2 :: rat) ^ (52 + r) \<le> s" "s < 2 ^ (53 + r)" by (simp_all only: power_add)
  then have "2 ^ (52 + r) \<le> \<lfloor>s\<rfloor>" "\<lfloor>s\<rfloor> < 2 ^ (53 + r)"
    by (metis le_floor_iff of_int_numeral of_int_power, metis floor_less_iff of_int_numeral of_int_power)
  then have "bitlen \<lfloor>s\<rfloor> \<le> int (53 + r) \<and> \<not> bitlen \<lfloor>s\<rfloor> \<le> int (52 + r)"
    by (simp only: bitlen_le_iff_power nat_int of_nat_0_le_iff not_less simp_thms)
  then have e: "nat (bitlen \<lfloor>s\<rfloor> - 53) = r" by linarith
  have m: "round_half_even (s / 2 ^ r) = m" using assms(3) by (intro round_half_even_eqI) (simp add: s)
  have x: "\<bar>x\<bar> = x" "sgn x = 1" using \<open>0 < x\<close> by simp_all
  have "fl x = of_int m * 2 ^ r / 2 ^ 1074"
    unfolding fl_def Let_def x s_def [symmetric] e m by (rule mult_1)
  then show ?thesis unfolding pow by simp
qed

text \<open>
  Quotients of whole numbers below a million: rounding never crosses a whole number.
\<close>

lemma fl_quotient:
  fixes a b m :: int
  assumes "0 < a" and "a \<le> 1000000" and "0 < b" and "b \<le> 1000000" and "0 \<le> m" and "m \<le> 1000000"
  shows "of_int m < of_int a / (of_int b :: rat) \<Longrightarrow> of_int m < fl (of_int a / of_int b)"
    and "of_int a / (of_int b :: rat) < of_int m \<Longrightarrow> fl (of_int a / of_int b) < of_int m"
    and "of_int a / (of_int b :: rat) = of_int m \<Longrightarrow> fl (of_int a / of_int b) = of_int m"
proof -
  define x where "x = of_int a / (of_int b :: rat)"
  have b: "(0 :: rat) < of_int b" "(of_int b :: rat) \<le> 1000000" using assms(3,4) by (simp, metis of_int_le_iff of_int_numeral)
  have a: "(1 :: rat) \<le> of_int a" "(of_int a :: rat) \<le> 1000000" using assms(1,2) by (simp, metis of_int_le_iff of_int_numeral)
  have hi: "x * of_int b = of_int a" using b by (simp add: x_def)
  have "1 / 1000000 \<le> x" unfolding x_def using a b by (intro frac_le) simp_all
  moreover have "(2 :: rat) ^ 52 / 2 ^ 1074 \<le> 1 / 1000000" by simp
  ultimately have "\<bar>fl x - x\<bar> \<le> x / 2 ^ 53" by (intro fl_error) (rule order_trans)
  then have "\<bar>fl x - x\<bar> * of_int b \<le> x / 2 ^ 53 * of_int b" using b by (intro mult_right_mono) simp_all
  then have err: "\<bar>fl x - x\<bar> * of_int b < 1" using hi a by simp
  show "of_int m < fl (of_int a / of_int b)" if "of_int m < of_int a / (of_int b :: rat)"
  proof -
    have "of_int m * of_int b < (of_int a :: rat)" using that b by (simp add: field_simps)
    then have "m * b < a" by (metis of_int_less_iff of_int_mult)
    then have "of_int (m * b + 1) \<le> (of_int a :: rat)" by (simp only: of_int_le_iff)
    then have "(x - of_int m) * of_int b \<ge> 1" using hi by (simp add: algebra_simps)
    then have "\<bar>fl x - x\<bar> * of_int b < (x - of_int m) * of_int b" using err by simp
    then have "\<bar>fl x - x\<bar> < x - of_int m" using b by (simp add: mult_less_cancel_right_pos)
    then show ?thesis unfolding x_def by linarith
  qed
  show "fl (of_int a / of_int b) < of_int m" if "of_int a / (of_int b :: rat) < of_int m"
  proof -
    have "(of_int a :: rat) < of_int m * of_int b" using that b by (simp add: field_simps)
    then have "a < m * b" by (metis of_int_less_iff of_int_mult)
    then have "of_int (a + 1) \<le> (of_int (m * b) :: rat)" by (simp only: of_int_le_iff)
    then have "(of_int m - x) * of_int b \<ge> 1" using hi by (simp add: algebra_simps)
    then have "\<bar>fl x - x\<bar> * of_int b < (of_int m - x) * of_int b" using err by simp
    then have "\<bar>fl x - x\<bar> < of_int m - x" using b by (simp add: mult_less_cancel_right_pos)
    then show ?thesis unfolding x_def by linarith
  qed
  show "fl (of_int a / of_int b) = of_int m" if "of_int a / (of_int b :: rat) = of_int m"
    unfolding that using assms(5,6) by (intro fl_of_int) simp_all
qed

end
