(* ===== verification/Provider_Budget.thy ===== *)
theory Provider_Budget
  imports Platform_Domain Python_Float "HOL-Library.Char_ord" "HOL-Library.List_Lexorder"
    "HOL-Library.Product_Lexorder"
begin

text \<open>
  Provider spend: the interface \<^verbatim>\<open>ProviderBudgetRepository\<close> with its in-memory
  implementation (\<^verbatim>\<open>packages/provider-sdk/provider_sdk/budget.py\<close>) and its database
  implementation (\<^verbatim>\<open>core/provider-budget/provider_budget_core/repository.py\<close>).

  Money is an \<open>int\<close> of micro-dollars: both files keep every amount quantised to
  \<^verbatim>\<open>Decimal("0.000001")\<close>. An amount that enters is a finite decimal, a \<open>rat\<close>.
  The in-memory repository holds one lock around every operation, so an operation is one step.
  In the database, settle, release and reconcile lock the rows they read and are one step too;
  reserve reads the usage row in \<open>s\<close>, runs its conditional UPDATE in \<open>t\<close> and, after an integrity
  error, reads again in \<open>z\<close>. Clock and new ids are arguments.
\<close>

section \<open>Money\<close>

datatype budget_error =
    BudgetValueError string
  | BudgetLookupError string
  | BudgetKeyError
  | ProviderBudgetConflict string "string list"
  | ProviderBudgetExceeded string int
  | BudgetIntegrityError
  | InvalidOperation

text \<open>
  \<^verbatim>\<open>Decimal.quantize\<close> with six places rounds half to even and refuses a result of more
  than 28 digits.
\<close>

definition money :: "rat \<Rightarrow> budget_error + int" where
  "money v = (let q = round_half_even (v * 1000000) in
     if \<bar>q\<bar> < 10 ^ 28 then Inr q else Inl InvalidOperation)"

fun money_option :: "rat option \<Rightarrow> budget_error + int option" where
  "money_option None = Inr None"
| "money_option (Some v) = res_bind (money v) (\<lambda>q. Inr (Some q))"

text \<open>\<^verbatim>\<open>str\<close> of a quantised amount.\<close>

function int_digits :: "int \<Rightarrow> string" where
  "int_digits i =
     (if i < 10 then [char_of (48 + i)] else int_digits (i div 10) @ [char_of (48 + i mod 10)])"
  by auto
termination by (relation "measure nat") auto

declare int_digits.simps [simp del]

definition money_str :: "int \<Rightarrow> string" where
  "money_str q =
     (let frac = int_digits (\<bar>q\<bar> mod 1000000) in
      (if q < 0 then ''-'' else '''') @ int_digits (\<bar>q\<bar> div 1000000) @ ''.'' @
      replicate (6 - length frac) CHR ''0'' @ frac)"

section \<open>The interface\<close>

record budget_snapshot =
  sn_provider :: string
  sn_credit_budget :: int
  sn_actual_cost :: int
  sn_reserved_cost :: int
  sn_remaining :: int
  sn_routing_enabled :: bool

record budget_reservation =
  br_id :: string
  br_provider :: string
  br_task_id :: string
  br_task_role :: string
  br_estimated_cost :: int
  br_actual_cost :: "int option"
  br_status :: string
  br_remaining :: int
  br_created_at :: int
  br_updated_at :: int
  br_acquired :: bool

record budget_env =
  be_id :: string
  be_now :: int

text \<open>The checks settle makes on its arguments, the same in both implementations.\<close>

definition check_settlement :: "rat option \<Rightarrow> string \<Rightarrow> budget_error + int option" where
  "check_settlement actual_cost_usd status =
     (if status \<notin> {SETTLED, UNCERTAIN}
      then Inl (BudgetValueError ''settlement status must be SETTLED or UNCERTAIN'')
      else if status = SETTLED \<and> actual_cost_usd = None
      then Inl (BudgetValueError ''settled provider usage requires actual_cost_usd'')
      else if status = UNCERTAIN \<and> actual_cost_usd \<noteq> None
      then Inl (BudgetValueError ''uncertain provider usage cannot claim an actual cost'')
      else res_bind (money_option actual_cost_usd) (\<lambda>actual.
        if (case actual of None \<Rightarrow> False | Some c \<Rightarrow> c < 0)
        then Inl (BudgetValueError ''actual_cost_usd cannot be negative'')
        else Inr actual))"

section \<open>The in-memory repository\<close>

record memory_budget =
  mb_limits :: "(string \<times> int) list"
  mb_records :: "budget_reservation list"
  mb_task_index :: "((string \<times> string) \<times> string) list"

definition mem_record :: "memory_budget \<Rightarrow> string \<Rightarrow> budget_reservation option" where
  "mem_record m i = row_where (\<lambda>r. br_id r = i) (mb_records m)"

text \<open>\<^verbatim>\<open>self._records[id] = record\<close>\<close>

definition mem_put :: "memory_budget \<Rightarrow> budget_reservation \<Rightarrow> memory_budget" where
  "mem_put m r =
     (if mem_record m (br_id r) = None then m\<lparr>mb_records := mb_records m @ [r]\<rparr>
      else m\<lparr>mb_records := update_where (\<lambda>x. br_id x = br_id r) (\<lambda>_. r) (mb_records m)\<rparr>)"

definition spent_cost :: "string \<Rightarrow> budget_reservation \<Rightarrow> int" where
  "spent_cost provider r =
     (if br_provider r = provider \<and> br_status r = SETTLED
      then (case br_actual_cost r of None \<Rightarrow> 0 | Some c \<Rightarrow> c) else 0)"

definition held_cost :: "string \<Rightarrow> budget_reservation \<Rightarrow> int" where
  "held_cost provider r =
     (if br_provider r = provider \<and> br_status r \<in> {RESERVED, UNCERTAIN}
      then br_estimated_cost r else 0)"

definition mem_snapshot :: "memory_budget \<Rightarrow> string \<Rightarrow> budget_snapshot" where
  "mem_snapshot m provider =
     (let limit = (case map_of (mb_limits m) provider of None \<Rightarrow> 0 | Some l \<Rightarrow> l);
          actual = tally (spent_cost provider) (mb_records m);
          reserved = tally (held_cost provider) (mb_records m);
          remaining = max 0 (limit - actual - reserved)
      in \<lparr>sn_provider = provider, sn_credit_budget = limit, sn_actual_cost = actual,
          sn_reserved_cost = reserved, sn_remaining = remaining,
          sn_routing_enabled = (remaining > 0)\<rparr>)"

definition mem_get :: "memory_budget \<Rightarrow> string \<Rightarrow> budget_error + budget_snapshot" where
  "mem_get m provider = Inr (mem_snapshot m provider)"

definition mem_reserve ::
  "budget_env \<Rightarrow> memory_budget \<Rightarrow> string \<Rightarrow> string \<Rightarrow> string \<Rightarrow> rat \<Rightarrow> string \<Rightarrow>
   budget_error + budget_reservation \<times> memory_budget" where
  "mem_reserve env m provider task_id task_role estimated_cost_usd initial_status =
     res_bind (money estimated_cost_usd) (\<lambda>estimate.
     if initial_status \<notin> {RESERVED, UNCERTAIN}
     then Inl (BudgetValueError ''initial provider budget status must be RESERVED or UNCERTAIN'')
     else if py_strip task_id = '''' \<or> py_strip task_role = ''''
     then Inl (BudgetValueError ''task_id and task_role are required'')
     else if estimate \<le> 0
     then Inl (BudgetValueError ''estimated_cost_usd must be positive'')
     else let existing_id = map_of (mb_task_index m) (provider, task_id) in
     if \<not> py_falsy existing_id
     then (case mem_record m (the existing_id) of
         None \<Rightarrow> Inl BudgetKeyError
       | Some existing \<Rightarrow>
           if br_task_role existing \<noteq> task_role \<or> br_estimated_cost existing \<noteq> estimate
           then Inl (ProviderBudgetConflict
             ''task id was already reserved with different budget facts'' [])
           else Inr (existing\<lparr>br_acquired := False\<rparr>, m))
     else let snapshot = mem_snapshot m provider in
     if \<not> sn_routing_enabled snapshot \<or> estimate > sn_remaining snapshot
     then Inl (ProviderBudgetExceeded provider (sn_remaining snapshot))
     else let record = \<lparr>br_id = be_id env, br_provider = provider, br_task_id = task_id,
         br_task_role = task_role, br_estimated_cost = estimate, br_actual_cost = None,
         br_status = initial_status, br_remaining = sn_remaining snapshot - estimate,
         br_created_at = be_now env, br_updated_at = be_now env, br_acquired = True\<rparr>;
         m' = mem_put m record
     in Inr (record, m'\<lparr>mb_task_index :=
          AList.update (provider, task_id) (be_id env) (mb_task_index m')\<rparr>))"

text \<open>The provisional record is stored, the remaining budget computed, and stored with it.\<close>

definition mem_move ::
  "memory_budget \<Rightarrow> budget_reservation \<Rightarrow> budget_error + budget_reservation \<times> memory_budget" where
  "mem_move m provisional =
     (let m' = mem_put m provisional;
          settled = provisional\<lparr>br_remaining := sn_remaining (mem_snapshot m' (br_provider provisional))\<rparr>
      in Inr (settled, mem_put m' settled))"

definition mem_settle ::
  "int \<Rightarrow> memory_budget \<Rightarrow> string \<Rightarrow> rat option \<Rightarrow> string \<Rightarrow>
   budget_error + budget_reservation \<times> memory_budget" where
  "mem_settle now m reservation_id actual_cost_usd status =
     res_bind (check_settlement actual_cost_usd status) (\<lambda>actual.
     case mem_record m reservation_id of
       None \<Rightarrow> Inl BudgetKeyError
     | Some record \<Rightarrow>
         if br_status record = SETTLED then
           if br_actual_cost record \<noteq> actual \<or> br_status record \<noteq> status
           then Inl (ProviderBudgetConflict ''reservation was already settled differently'' [])
           else Inr (record, m)
         else if br_status record = UNCERTAIN then
           if status = UNCERTAIN then Inr (record, m)
           else mem_move m (record\<lparr>br_actual_cost := actual, br_status := SETTLED,
                  br_updated_at := now\<rparr>)
         else if br_status record \<noteq> RESERVED
         then Inl (ProviderBudgetConflict ''cannot settle the reservation'' [br_status record])
         else mem_move m (record\<lparr>br_actual_cost := actual, br_status := status,
                br_updated_at := now\<rparr>))"

definition mem_release ::
  "int \<Rightarrow> memory_budget \<Rightarrow> string \<Rightarrow> budget_error + budget_reservation \<times> memory_budget" where
  "mem_release now m reservation_id =
     (case mem_record m reservation_id of
        None \<Rightarrow> Inl BudgetKeyError
      | Some record \<Rightarrow>
          if br_status record = RELEASED then Inr (record, m)
          else if br_status record \<noteq> RESERVED
          then Inl (ProviderBudgetConflict ''cannot release the reservation'' [br_status record])
          else mem_move m (record\<lparr>br_status := RELEASED, br_updated_at := now\<rparr>))"

definition mem_records :: "memory_budget \<Rightarrow> string \<Rightarrow> budget_reservation list" where
  "mem_records m provider =
     sort_key (\<lambda>r. (br_created_at r, br_id r)) (filter (\<lambda>r. br_provider r = provider) (mb_records m))"

section \<open>The database repository\<close>

record provider_budget =
  pb_id :: string
  pb_provider :: string
  pb_credit_budget :: int
  pb_actual_cost :: int
  pb_reserved_cost :: int
  pb_routing_enabled :: bool

record budget_usage =
  bu_id :: string
  bu_budget_id :: string
  bu_provider :: string
  bu_task_id :: string
  bu_task_role :: string
  bu_estimated_cost :: int
  bu_actual_cost :: "int option"
  bu_remaining :: int
  bu_status :: string
  bu_created_at :: int
  bu_updated_at :: int

record decision_record =
  dr_id :: string
  dr_decision_type :: string
  dr_input_features :: "(string \<times> json) list"
  dr_selected_action :: string
  dr_reason_codes :: "string list"
  dr_model_version :: string
  dr_policy_version :: string
  dr_created_at :: int

record budget_db =
  budgets :: "provider_budget list"
  usages :: "budget_usage list"
  decisions :: "decision_record list"

text \<open>\<^verbatim>\<open>_remaining\<close>, \<^verbatim>\<open>_snapshot\<close>, \<^verbatim>\<open>_reservation\<close>\<close>

definition budget_remaining :: "provider_budget \<Rightarrow> int" where
  "budget_remaining b = max 0 (pb_credit_budget b - pb_actual_cost b - pb_reserved_cost b)"

definition db_snapshot :: "provider_budget \<Rightarrow> budget_snapshot" where
  "db_snapshot b =
     \<lparr>sn_provider = pb_provider b, sn_credit_budget = pb_credit_budget b,
      sn_actual_cost = pb_actual_cost b, sn_reserved_cost = pb_reserved_cost b,
      sn_remaining = budget_remaining b,
      sn_routing_enabled = (pb_routing_enabled b \<and> budget_remaining b > 0)\<rparr>"

definition db_reservation :: "budget_usage \<Rightarrow> bool \<Rightarrow> budget_reservation" where
  "db_reservation u acquired =
     \<lparr>br_id = bu_id u, br_provider = bu_provider u, br_task_id = bu_task_id u,
      br_task_role = bu_task_role u, br_estimated_cost = bu_estimated_cost u,
      br_actual_cost = bu_actual_cost u, br_status = bu_status u, br_remaining = bu_remaining u,
      br_created_at = bu_created_at u, br_updated_at = bu_updated_at u, br_acquired = acquired\<rparr>"

definition budget_of :: "budget_db \<Rightarrow> string \<Rightarrow> provider_budget option" where
  "budget_of d provider = row_where (\<lambda>b. pb_provider b = provider) (budgets d)"

definition budget_by_id :: "budget_db \<Rightarrow> string \<Rightarrow> provider_budget option" where
  "budget_by_id d i = row_where (\<lambda>b. pb_id b = i) (budgets d)"

definition usage_for_task :: "budget_db \<Rightarrow> string \<Rightarrow> string \<Rightarrow> budget_usage option" where
  "usage_for_task d provider task_id =
     row_where (\<lambda>u. bu_provider u = provider \<and> bu_task_id u = task_id) (usages d)"

definition usage_by_id :: "budget_db \<Rightarrow> string \<Rightarrow> budget_usage option" where
  "usage_by_id d i = row_where (\<lambda>u. bu_id u = i) (usages d)"

definition db_get :: "budget_db \<Rightarrow> string \<Rightarrow> budget_error + budget_snapshot" where
  "db_get d provider =
     (case budget_of d provider of
        None \<Rightarrow> Inl (BudgetLookupError ''provider budget is not configured'')
      | Some b \<Rightarrow> Inr (db_snapshot b))"

text \<open>
  \<^verbatim>\<open>ensure\<close> reads in \<open>s\<close>, inserts in \<open>t\<close> and falls back to \<^verbatim>\<open>get\<close> in \<open>z\<close>
  when another session won the insert.
\<close>

definition db_ensure ::
  "budget_env \<Rightarrow> budget_db \<Rightarrow> budget_db \<Rightarrow> budget_db \<Rightarrow> string \<Rightarrow> rat \<Rightarrow>
   budget_error + budget_snapshot \<times> budget_db" where
  "db_ensure env s t z provider0 credit_budget_usd =
     (let provider = py_strip provider0 in
      res_bind (money credit_budget_usd) (\<lambda>limit.
      if provider = '''' \<or> limit < 0
      then Inl (BudgetValueError ''provider and a non-negative credit budget are required'')
      else case budget_of s provider of
        Some existing \<Rightarrow> Inr (db_snapshot existing, t)
      | None \<Rightarrow>
          let item = \<lparr>pb_id = be_id env, pb_provider = provider, pb_credit_budget = limit,
            pb_actual_cost = 0, pb_reserved_cost = 0, pb_routing_enabled = (limit > 0)\<rparr> in
          if \<exists>b \<in> set (budgets t). pb_id b = be_id env \<or> pb_provider b = provider
          then res_bind (db_get z provider) (\<lambda>sn. Inr (sn, z))
          else Inr (db_snapshot item, t\<lparr>budgets := budgets t @ [item]\<rparr>)))"

definition validate_replay :: "budget_usage \<Rightarrow> string \<Rightarrow> int \<Rightarrow> budget_error + unit" where
  "validate_replay u task_role estimate =
     (if bu_task_role u \<noteq> task_role \<or> bu_estimated_cost u \<noteq> estimate
      then Inl (ProviderBudgetConflict ''task id was already reserved with different budget facts'' [])
      else Inr ())"

definition replay_of ::
  "budget_db \<Rightarrow> budget_usage \<Rightarrow> string \<Rightarrow> int \<Rightarrow> budget_error + budget_reservation \<times> budget_db" where
  "replay_of d u task_role estimate =
     res_bind (validate_replay u task_role estimate) (\<lambda>_. Inr (db_reservation u False, d))"

definition budget_guard :: "string \<Rightarrow> int \<Rightarrow> provider_budget \<Rightarrow> bool" where
  "budget_guard provider estimate b \<longleftrightarrow>
     pb_provider b = provider \<and> pb_routing_enabled b \<and>
     pb_credit_budget b - pb_actual_cost b - pb_reserved_cost b \<ge> estimate"

definition budget_hold :: "int \<Rightarrow> provider_budget \<Rightarrow> provider_budget" where
  "budget_hold estimate b =
     b\<lparr>pb_reserved_cost := pb_reserved_cost b + estimate,
       pb_routing_enabled :=
         (pb_credit_budget b - pb_actual_cost b - pb_reserved_cost b - estimate > 0)\<rparr>"

definition insert_usage :: "budget_db \<Rightarrow> budget_usage \<Rightarrow> budget_error + budget_db" where
  "insert_usage t u =
     (if \<exists>x \<in> set (usages t). bu_id x = bu_id u \<or>
           bu_provider x = bu_provider u \<and> bu_task_id x = bu_task_id u
      then Inl BudgetIntegrityError
      else Inr (t\<lparr>usages := usages t @ [u]\<rparr>))"

definition db_reserve_once ::
  "budget_env \<Rightarrow> budget_db \<Rightarrow> budget_db \<Rightarrow> string \<Rightarrow> string \<Rightarrow> string \<Rightarrow> int \<Rightarrow> string \<Rightarrow>
   budget_error + budget_reservation \<times> budget_db" where
  "db_reserve_once env s t provider task_id task_role estimate initial_status =
     (case usage_for_task s provider task_id of
        Some existing \<Rightarrow> replay_of t existing task_role estimate
      | None \<Rightarrow>
          if affected (budget_guard provider estimate) (budgets t) \<noteq> 1
          then (case usage_for_task t provider task_id of
              Some existing \<Rightarrow> replay_of t existing task_role estimate
            | None \<Rightarrow>
                (case budget_of t provider of
                   None \<Rightarrow> Inl (BudgetLookupError ''provider budget is not configured'')
                 | Some b \<Rightarrow> Inl (ProviderBudgetExceeded provider (budget_remaining b))))
          else let t' = t\<lparr>budgets := update_where (budget_guard provider estimate)
                 (budget_hold estimate) (budgets t)\<rparr> in
            (case budget_of t' provider of
               None \<Rightarrow> Inl (BudgetLookupError ''provider budget is not configured'')
             | Some b \<Rightarrow>
                 let u = \<lparr>bu_id = be_id env, bu_budget_id = pb_id b, bu_provider = provider,
                   bu_task_id = task_id, bu_task_role = task_role, bu_estimated_cost = estimate,
                   bu_actual_cost = None, bu_remaining = budget_remaining b,
                   bu_status = initial_status, bu_created_at = be_now env,
                   bu_updated_at = be_now env\<rparr> in
                 res_bind (insert_usage t' u) (\<lambda>t''. Inr (db_reservation u True, t''))))"

definition db_reserve ::
  "budget_env \<Rightarrow> budget_db \<Rightarrow> budget_db \<Rightarrow> budget_db \<Rightarrow> string \<Rightarrow> string \<Rightarrow> string \<Rightarrow> rat \<Rightarrow> string \<Rightarrow>
   budget_error + budget_reservation \<times> budget_db" where
  "db_reserve env s t z provider0 task_id0 task_role0 estimated_cost_usd initial_status =
     (let provider = py_strip provider0; task_id = py_strip task_id0;
          task_role = py_strip task_role0 in
      res_bind (money estimated_cost_usd) (\<lambda>estimate.
      if provider = '''' \<or> task_id = '''' \<or> task_role = ''''
      then Inl (BudgetValueError ''provider, task_id and task_role are required'')
      else if estimate \<le> 0
      then Inl (BudgetValueError ''estimated_cost_usd must be positive'')
      else if initial_status \<notin> {RESERVED, UNCERTAIN}
      then Inl (BudgetValueError ''initial provider budget status must be RESERVED or UNCERTAIN'')
      else case db_reserve_once env s t provider task_id task_role estimate initial_status of
        Inl BudgetIntegrityError \<Rightarrow>
          (case usage_for_task z provider task_id of
             None \<Rightarrow> Inl BudgetIntegrityError
           | Some existing \<Rightarrow> replay_of z existing task_role estimate)
      | r \<Rightarrow> r))"

definition set_budget :: "budget_db \<Rightarrow> provider_budget \<Rightarrow> budget_db" where
  "set_budget d b = d\<lparr>budgets := update_where (\<lambda>x. pb_id x = pb_id b) (\<lambda>_. b) (budgets d)\<rparr>"

definition set_usage :: "budget_db \<Rightarrow> budget_usage \<Rightarrow> budget_db" where
  "set_usage d u = d\<lparr>usages := update_where (\<lambda>x. bu_id x = bu_id u) (\<lambda>_. u) (usages d)\<rparr>"

text \<open>
  The end every transition shares: the flag and the remaining amount follow the new counters,
  both rows are flushed.
\<close>

definition flush_transition ::
  "int \<Rightarrow> budget_db \<Rightarrow> provider_budget \<Rightarrow> budget_usage \<Rightarrow> budget_usage \<times> provider_budget \<times> budget_db" where
  "flush_transition now d b u =
     (let remaining = budget_remaining b;
          b' = b\<lparr>pb_routing_enabled := (remaining > 0)\<rparr>;
          u' = u\<lparr>bu_remaining := remaining, bu_updated_at := now\<rparr>
      in (u', b', set_usage (set_budget d b') u'))"

definition db_settle ::
  "int \<Rightarrow> budget_db \<Rightarrow> string \<Rightarrow> rat option \<Rightarrow> string \<Rightarrow>
   budget_error + budget_reservation \<times> budget_db" where
  "db_settle now d reservation_id actual_cost_usd status =
     res_bind (check_settlement actual_cost_usd status) (\<lambda>actual.
     case usage_by_id d reservation_id of
       None \<Rightarrow> Inl (BudgetLookupError ''provider budget reservation not found'')
     | Some u \<Rightarrow>
         if bu_status u = SETTLED then
           if status \<noteq> SETTLED \<or> bu_actual_cost u \<noteq> actual
           then Inl (ProviderBudgetConflict ''reservation was already settled differently'' [])
           else Inr (db_reservation u True, d)
         else if bu_status u = UNCERTAIN \<and> status = UNCERTAIN then Inr (db_reservation u True, d)
         else if bu_status u \<notin> {RESERVED, UNCERTAIN}
         then Inl (ProviderBudgetConflict ''cannot settle the reservation'' [bu_status u])
         else (case budget_by_id d (bu_budget_id u) of
             None \<Rightarrow> Inl (BudgetLookupError ''provider budget not found'')
           | Some b \<Rightarrow>
               let (b', u') =
                 (if status = SETTLED
                  then (b\<lparr>pb_reserved_cost := max 0 (pb_reserved_cost b - bu_estimated_cost u),
                          pb_actual_cost := pb_actual_cost b + the actual\<rparr>,
                        u\<lparr>bu_actual_cost := actual\<rparr>)
                  else (b, u\<lparr>bu_actual_cost := None\<rparr>));
                 (u'', _, d') = flush_transition now d b' (u'\<lparr>bu_status := status\<rparr>)
               in Inr (db_reservation u'' True, d')))"

definition db_release ::
  "int \<Rightarrow> budget_db \<Rightarrow> string \<Rightarrow> budget_error + budget_reservation \<times> budget_db" where
  "db_release now d reservation_id =
     (case usage_by_id d reservation_id of
        None \<Rightarrow> Inl (BudgetLookupError ''provider budget reservation not found'')
      | Some u \<Rightarrow>
          if bu_status u = RELEASED then Inr (db_reservation u True, d)
          else if bu_status u \<noteq> RESERVED
          then Inl (ProviderBudgetConflict ''cannot release the reservation'' [bu_status u])
          else (case budget_by_id d (bu_budget_id u) of
              None \<Rightarrow> Inl (BudgetLookupError ''provider budget not found'')
            | Some b \<Rightarrow>
                let b' = b\<lparr>pb_reserved_cost := max 0 (pb_reserved_cost b - bu_estimated_cost u)\<rparr>;
                  (u', _, d') = flush_transition now d b' (u\<lparr>bu_status := RELEASED\<rparr>)
                in Inr (db_reservation u' True, d')))"

definition db_records :: "budget_db \<Rightarrow> string \<Rightarrow> budget_reservation list" where
  "db_records d provider =
     map (\<lambda>u. db_reservation u True)
       (sort_key (\<lambda>u. (bu_created_at u, bu_id u)) (filter (\<lambda>u. bu_provider u = provider) (usages d)))"

section \<open>Reconciliation of an uncertain charge\<close>

definition PROVIDER_BUDGET_RECONCILIATION :: string where
  "PROVIDER_BUDGET_RECONCILIATION = ''PROVIDER_BUDGET_RECONCILIATION''"

definition SETTLE_ACTUAL_COST :: string where
  "SETTLE_ACTUAL_COST = ''SETTLE_ACTUAL_COST''"

definition RELEASE_NO_REMOTE_CHARGE :: string where
  "RELEASE_NO_REMOTE_CHARGE = ''RELEASE_NO_REMOTE_CHARGE''"

record budget_reconciliation =
  rc_reservation :: budget_reservation
  rc_budget :: budget_snapshot
  rc_previous_status :: string
  rc_action :: string
  rc_audit_decision_id :: string
  rc_replayed :: bool

text \<open>\<^verbatim>\<open>(audit.input_features or {}).get(name)\<close>: a missing name is \<^verbatim>\<open>None\<close>.\<close>

definition feature :: "decision_record \<Rightarrow> string \<Rightarrow> json" where
  "feature a name = (case map_of (dr_input_features a) name of None \<Rightarrow> JNull | Some v \<Rightarrow> v)"

fun json_of_money :: "int option \<Rightarrow> json" where
  "json_of_money None = JNull"
| "json_of_money (Some c) = JStr (money_str c)"

definition reconciliation_facts ::
  "string \<Rightarrow> string \<Rightarrow> int option \<Rightarrow> string \<Rightarrow> string \<Rightarrow> (string \<times> json) list" where
  "reconciliation_facts key action actual reason evidence =
     [(''idempotency_key'', JStr key), (''action'', JStr action),
      (''actual_cost_usd'', json_of_money actual), (''reason'', JStr reason),
      (''evidence_reference'', JStr evidence)]"

text \<open>\<^verbatim>\<open>_validate_reconciliation_replay\<close>\<close>

definition validate_reconciliation_replay ::
  "budget_usage \<Rightarrow> decision_record \<Rightarrow> string \<Rightarrow> string \<Rightarrow> int option \<Rightarrow> string \<Rightarrow> string \<Rightarrow>
   budget_error + unit" where
  "validate_reconciliation_replay u audit key action actual reason evidence =
     (if dr_selected_action audit \<noteq> action \<or>
         (\<exists>(name, value) \<in> set (reconciliation_facts key action actual reason evidence).
            feature audit name \<noteq> value)
      then Inl (ProviderBudgetConflict
        ''provider budget reconciliation idempotency key was used for different facts'' [])
      else if bu_status u \<noteq> (if action = SETTLE_ACTUAL_COST then SETTLED else RELEASED) \<or>
         json_of_money (bu_actual_cost u) \<noteq> json_of_money actual
      then Inl (ProviderBudgetConflict
        ''provider budget reconciliation audit and reservation state disagree'' [])
      else Inr ())"

text \<open>The checks on the request, before the transaction; the result is the quantised cost.\<close>

definition check_reconciliation ::
  "string \<Rightarrow> string \<Rightarrow> string \<Rightarrow> string \<Rightarrow> string \<Rightarrow> rat option \<Rightarrow> budget_error + int option" where
  "check_reconciliation reservation_id key reason evidence action actual_cost_usd =
     (if reservation_id = ''''
      then Inl (BudgetValueError ''provider budget reservation id is required'')
      else if \<not> (8 \<le> length key \<and> length key \<le> 200)
      then Inl (BudgetValueError ''Idempotency-Key must contain 8 to 200 characters'')
      else if \<not> (3 \<le> length reason \<and> length reason \<le> 240)
      then Inl (BudgetValueError ''reason must contain 3 to 240 characters'')
      else if \<not> (3 \<le> length evidence \<and> length evidence \<le> 500)
      then Inl (BudgetValueError ''evidence_reference must contain 3 to 500 characters'')
      else if action \<notin> {SETTLE_ACTUAL_COST, RELEASE_NO_REMOTE_CHARGE}
      then Inl (BudgetValueError ''unsupported provider budget reconciliation action'')
      else res_bind (money_option actual_cost_usd) (\<lambda>actual.
        if action = SETTLE_ACTUAL_COST \<and> actual = None
        then Inl (BudgetValueError ''SETTLE_ACTUAL_COST requires actual_cost_usd'')
        else if action = RELEASE_NO_REMOTE_CHARGE \<and> actual \<noteq> None
        then Inl (BudgetValueError ''RELEASE_NO_REMOTE_CHARGE forbids actual_cost_usd'')
        else if (case actual of None \<Rightarrow> False | Some c \<Rightarrow> c < 0)
        then Inl (BudgetValueError ''actual_cost_usd cannot be negative'')
        else Inr actual))"

definition reconciliation_audit ::
  "budget_env \<Rightarrow> budget_usage \<Rightarrow> string \<Rightarrow> string \<Rightarrow> string \<Rightarrow> int option \<Rightarrow> string \<Rightarrow> string \<Rightarrow>
   decision_record" where
  "reconciliation_audit env u previous_status key action actual reason evidence =
     \<lparr>dr_id = be_id env, dr_decision_type = PROVIDER_BUDGET_RECONCILIATION,
      dr_input_features =
        [(''provider_budget_reservation_id'', JStr (bu_id u)), (''provider'', JStr (bu_provider u)),
         (''task_id'', JStr (bu_task_id u)), (''task_role'', JStr (bu_task_role u)),
         (''estimated_cost_usd'', JStr (money_str (bu_estimated_cost u))),
         (''previous_status'', JStr previous_status), (''action'', JStr action),
         (''actual_cost_usd'', json_of_money actual), (''reason'', JStr reason),
         (''evidence_reference'', JStr evidence), (''explicit_confirmation'', JBool True),
         (''server_actor'', JStr ''PLATFORM_API_KEY''), (''idempotency_key'', JStr key),
         (''resulting_status'', JStr (bu_status u)),
         (''remaining_budget_usd'', JStr (money_str (bu_remaining u)))],
      dr_selected_action = action, dr_reason_codes = [reason],
      dr_model_version = ''manual-provider-budget-reconcile-v1'',
      dr_policy_version = ''provider-budget-v1'', dr_created_at = be_now env\<rparr>"

definition reservation_audits :: "budget_db \<Rightarrow> string \<Rightarrow> decision_record list" where
  "reservation_audits d reservation_id =
     filter (\<lambda>a. feature a ''provider_budget_reservation_id'' = JStr reservation_id)
       (sort_key (\<lambda>a. (dr_created_at a, dr_id a))
         (filter (\<lambda>a. dr_decision_type a = PROVIDER_BUDGET_RECONCILIATION) (decisions d)))"

text \<open>The first decision: the counters, the row and the audit record in one transaction.\<close>

definition apply_reconciliation ::
  "budget_env \<Rightarrow> budget_db \<Rightarrow> budget_usage \<Rightarrow> provider_budget \<Rightarrow> string \<Rightarrow> string \<Rightarrow> int option \<Rightarrow>
   string \<Rightarrow> string \<Rightarrow> budget_error + budget_reconciliation \<times> budget_db" where
  "apply_reconciliation env d u b key action actual reason evidence =
     (if pb_reserved_cost b < bu_estimated_cost u
      then Inl (ProviderBudgetConflict
        ''provider budget reserved total is below the uncertain reservation estimate'' [])
      else
        let b1 = b\<lparr>pb_reserved_cost := pb_reserved_cost b - bu_estimated_cost u\<rparr>;
          (b2, u2) =
            (if action = SETTLE_ACTUAL_COST
             then (b1\<lparr>pb_actual_cost := pb_actual_cost b1 + the actual\<rparr>,
                   u\<lparr>bu_actual_cost := actual, bu_status := SETTLED\<rparr>)
             else (b1, u\<lparr>bu_actual_cost := None, bu_status := RELEASED\<rparr>));
          (u', b', d') = flush_transition (be_now env) d b2 u2;
          audit = reconciliation_audit env u' (bu_status u) key action actual reason evidence
        in if \<exists>a \<in> set (decisions d). dr_id a = be_id env then Inl BudgetIntegrityError
           else Inr (\<lparr>rc_reservation = db_reservation u' True, rc_budget = db_snapshot b',
                      rc_previous_status = bu_status u, rc_action = action,
                      rc_audit_decision_id = be_id env, rc_replayed = False\<rparr>,
                     d'\<lparr>decisions := decisions d' @ [audit]\<rparr>))"

definition reconcile_uncertain ::
  "budget_env \<Rightarrow> budget_db \<Rightarrow> string \<Rightarrow> string \<Rightarrow> rat option \<Rightarrow> string \<Rightarrow> string \<Rightarrow> string \<Rightarrow>
   budget_error + budget_reconciliation \<times> budget_db" where
  "reconcile_uncertain env d reservation_id0 action actual_cost_usd idempotency_key reason0
     evidence_reference =
     (let reservation_id = py_strip reservation_id0; key = py_strip idempotency_key;
          reason = py_strip reason0; evidence = py_strip evidence_reference in
      res_bind (check_reconciliation reservation_id key reason evidence action actual_cost_usd)
        (\<lambda>actual.
      case usage_by_id d reservation_id of
        None \<Rightarrow> Inl (BudgetLookupError ''provider budget reservation not found'')
      | Some u \<Rightarrow>
          let audits = reservation_audits d reservation_id in
          (case find (\<lambda>a. feature a ''idempotency_key'' = JStr key) audits of
             Some audit \<Rightarrow>
               res_bind (validate_reconciliation_replay u audit key action actual reason evidence)
                 (\<lambda>_. case budget_by_id d (bu_budget_id u) of
                   None \<Rightarrow> Inl (BudgetLookupError ''provider budget not found'')
                 | Some b \<Rightarrow>
                     Inr (\<lparr>rc_reservation = db_reservation u True, rc_budget = db_snapshot b,
                            rc_previous_status = UNCERTAIN, rc_action = action,
                            rc_audit_decision_id = dr_id audit, rc_replayed = True\<rparr>, d))
           | None \<Rightarrow>
               if audits \<noteq> []
               then Inl (ProviderBudgetConflict ''provider budget reservation already reached a terminal state under a different reconciliation decision'' [])
               else if bu_status u \<noteq> UNCERTAIN
               then Inl (ProviderBudgetConflict ''provider budget reconciliation requires UNCERTAIN''
                 [bu_status u])
               else (case budget_by_id d (bu_budget_id u) of
                   None \<Rightarrow> Inl (BudgetLookupError ''provider budget not found'')
                 | Some b \<Rightarrow> apply_reconciliation env d u b key action actual reason evidence))))"

section \<open>The repository as transactions\<close>

inductive budget_txn :: "budget_db \<Rightarrow> budget_db \<Rightarrow> budget_db \<Rightarrow> bool" where
  txn_ensure: "db_ensure env s t t p c = Inr (sn, u) \<Longrightarrow> budget_txn s t u"
| txn_reserve: "db_reserve env s t t p k role c st = Inr (r, u) \<Longrightarrow> budget_txn s t u"
| txn_settle: "db_settle now t i c st = Inr (r, u) \<Longrightarrow> budget_txn s t u"
| txn_release: "db_release now t i = Inr (r, u) \<Longrightarrow> budget_txn s t u"
| txn_reconcile: "reconcile_uncertain env t i a c k reason ev = Inr (rc, u) \<Longrightarrow> budget_txn s t u"

end
