(* ===== verification/Budget_Refinement.thy ===== *)
theory Budget_Refinement
  imports Provider_Budget
begin

text \<open>
  The database repository keeps running counters where the in-memory repository sums its records.
  \<open>budget_inv\<close> says the counters are those sums; every transaction keeps it, and under it the
  database repository refines the in-memory one through the abstraction \<open>mem_of\<close>.
\<close>

section \<open>Invariant\<close>

abbreviation as_record :: "budget_usage \<Rightarrow> budget_reservation" where
  "as_record u \<equiv> db_reservation u True"

definition spent_total :: "budget_db \<Rightarrow> string \<Rightarrow> int" where
  "spent_total d p = tally (\<lambda>u. spent_cost p (as_record u)) (usages d)"

definition held_total :: "budget_db \<Rightarrow> string \<Rightarrow> int" where
  "held_total d p = tally (\<lambda>u. held_cost p (as_record u)) (usages d)"

definition usage_ok :: "budget_usage \<Rightarrow> bool" where
  "usage_ok u \<longleftrightarrow> bu_estimated_cost u > 0 \<and>
     (bu_status u \<in> {RESERVED, UNCERTAIN, RELEASED} \<and> bu_actual_cost u = None \<or>
      bu_status u = SETTLED \<and> (case bu_actual_cost u of None \<Rightarrow> False | Some c \<Rightarrow> c \<ge> 0))"

definition budget_ok :: "budget_db \<Rightarrow> provider_budget \<Rightarrow> bool" where
  "budget_ok d b \<longleftrightarrow> pb_provider b \<noteq> '''' \<and> pb_credit_budget b \<ge> 0 \<and>
     pb_actual_cost b = spent_total d (pb_provider b) \<and>
     pb_reserved_cost b = held_total d (pb_provider b) \<and>
     pb_routing_enabled b = (budget_remaining b > 0)"

definition budget_inv :: "budget_db \<Rightarrow> bool" where
  "budget_inv d \<longleftrightarrow>
     distinct (map pb_id (budgets d)) \<and> distinct (map pb_provider (budgets d)) \<and>
     distinct (map bu_id (usages d)) \<and>
     distinct (map (\<lambda>u. (bu_provider u, bu_task_id u)) (usages d)) \<and>
     (\<forall>b \<in> set (budgets d). budget_ok d b) \<and>
     (\<forall>u \<in> set (usages d). usage_ok u \<and>
        (\<exists>b \<in> set (budgets d). pb_id b = bu_budget_id u \<and> pb_provider b = bu_provider u))"

definition usage_keeps :: "budget_usage \<Rightarrow> budget_usage \<Rightarrow> bool" where
  "usage_keeps u u' \<longleftrightarrow>
     bu_id u' = bu_id u \<and> bu_budget_id u' = bu_budget_id u \<and> bu_provider u' = bu_provider u \<and>
     bu_task_id u' = bu_task_id u \<and> bu_task_role u' = bu_task_role u \<and>
     bu_estimated_cost u' = bu_estimated_cost u \<and> bu_created_at u' = bu_created_at u \<and>
     (bu_status u \<in> {SETTLED, RELEASED} \<longrightarrow> u' = u)"

definition budget_keeps :: "provider_budget \<Rightarrow> provider_budget \<Rightarrow> bool" where
  "budget_keeps b b' \<longleftrightarrow> pb_id b' = pb_id b \<and> pb_provider b' = pb_provider b \<and>
     pb_credit_budget b' = pb_credit_budget b"

definition budget_frame :: "budget_db \<Rightarrow> budget_db \<Rightarrow> bool" where
  "budget_frame d e \<longleftrightarrow>
     (\<forall>b \<in> set (budgets d). \<exists>b' \<in> set (budgets e). budget_keeps b b') \<and>
     (\<forall>u \<in> set (usages d). \<exists>u' \<in> set (usages e). usage_keeps u u') \<and>
     prefix (decisions d) (decisions e)"

lemma keeps_refl [simp]: "usage_keeps u u" "budget_keeps b b"
  by (simp_all add: usage_keeps_def budget_keeps_def)

lemma usage_keeps_trans: "usage_keeps u v \<Longrightarrow> usage_keeps v w \<Longrightarrow> usage_keeps u w"
  by (auto simp: usage_keeps_def)

lemma budget_keeps_trans: "budget_keeps a b \<Longrightarrow> budget_keeps b c \<Longrightarrow> budget_keeps a c"
  by (auto simp: budget_keeps_def)

lemma budget_frame_refl [simp]: "budget_frame d d"
  unfolding budget_frame_def using keeps_refl by blast

lemma budget_frame_trans:
  assumes "budget_frame d e" and "budget_frame e f"
  shows "budget_frame d f"
  using assms unfolding budget_frame_def
  by (meson budget_keeps_trans usage_keeps_trans prefix_order.trans)

section \<open>The abstraction\<close>

definition mem_of :: "budget_db \<Rightarrow> memory_budget" where
  "mem_of d = \<lparr>mb_limits = map (\<lambda>b. (pb_provider b, pb_credit_budget b)) (budgets d),
     mb_records = map as_record (usages d),
     mb_task_index = map (\<lambda>u. ((bu_provider u, bu_task_id u), bu_id u)) (usages d)\<rparr>"

lemma as_record_sel [simp]:
  "br_id (as_record u) = bu_id u" "br_provider (as_record u) = bu_provider u"
  "br_task_id (as_record u) = bu_task_id u" "br_task_role (as_record u) = bu_task_role u"
  "br_estimated_cost (as_record u) = bu_estimated_cost u"
  "br_actual_cost (as_record u) = bu_actual_cost u" "br_status (as_record u) = bu_status u"
  "br_remaining (as_record u) = bu_remaining u"
  by (simp_all add: db_reservation_def)

lemma tally_map: "tally f (map g rows) = tally (\<lambda>r. f (g r)) rows"
  by (simp add: tally_def comp_def)

lemma row_where_map: "row_where P (map g rows) = map_option g (row_where (\<lambda>r. P (g r)) rows)"
  by (induction rows) auto

lemma update_where_map:
  assumes "\<And>r. P (g r) = Q r"
  shows "update_where P (\<lambda>_. g x) (map g rows) = map g (update_where Q (\<lambda>_. x) rows)"
  using assms by (induction rows) auto

lemma mem_of_record: "mem_record (mem_of d) i = map_option as_record (usage_by_id d i)"
  by (simp add: mem_record_def mem_of_def usage_by_id_def row_where_map)

lemma budget_of_Some:
  assumes "budget_inv d"
  shows "budget_of d p = Some b \<longleftrightarrow> b \<in> set (budgets d) \<and> pb_provider b = p"
proof
  assume "b \<in> set (budgets d) \<and> pb_provider b = p"
  with assms show "budget_of d p = Some b"
    unfolding budget_of_def budget_inv_def using row_where_key [of pb_provider "budgets d" b] by auto
qed (auto simp: budget_of_def dest: row_where_SomeD)

lemma map_of_limits:
  "distinct (map pb_provider bs) \<Longrightarrow> b \<in> set bs \<Longrightarrow>
   map_of (map (\<lambda>b. (pb_provider b, pb_credit_budget b)) bs) (pb_provider b) =
     Some (pb_credit_budget b)"
  by (induction bs) (auto simp: image_iff)

lemma mem_of_snapshot:
  assumes "budget_inv d" and "b \<in> set (budgets d)"
  shows "mem_snapshot (mem_of d) (pb_provider b) = db_snapshot b"
proof -
  have "pb_actual_cost b = spent_total d (pb_provider b)"
    and "pb_reserved_cost b = held_total d (pb_provider b)"
    and "pb_routing_enabled b = (budget_remaining b > 0)"
    and "distinct (map pb_provider (budgets d))"
    using assms by (auto simp: budget_inv_def budget_ok_def)
  then show ?thesis
    using map_of_limits [OF _ assms(2)]
    by (simp add: mem_snapshot_def mem_of_def db_snapshot_def Let_def tally_map budget_remaining_def
        spent_total_def held_total_def)
qed

lemma map_of_index:
  "map_of (map (\<lambda>u. ((bu_provider u, bu_task_id u), bu_id u)) us) (p, k) =
     map_option bu_id (row_where (\<lambda>u. bu_provider u = p \<and> bu_task_id u = k) us)"
  by (induction us) auto

section \<open>One row moves and its budget follows\<close>

lemma usage_by_id_Some:
  assumes "budget_inv d"
  shows "usage_by_id d i = Some u \<longleftrightarrow> u \<in> set (usages d) \<and> bu_id u = i"
proof
  assume "u \<in> set (usages d) \<and> bu_id u = i"
  with assms show "usage_by_id d i = Some u"
    unfolding usage_by_id_def budget_inv_def using row_where_key [of bu_id "usages d" u] by auto
qed (auto simp: usage_by_id_def dest: row_where_SomeD)

lemma usage_budget:
  assumes "budget_inv d" and "u \<in> set (usages d)"
  obtains b where "b \<in> set (budgets d)" and "budget_by_id d (bu_budget_id u) = Some b"
    and "pb_id b = bu_budget_id u" and "pb_provider b = bu_provider u" and "budget_ok d b"
proof -
  from assms obtain b where b: "b \<in> set (budgets d)" "pb_id b = bu_budget_id u"
    "pb_provider b = bu_provider u" "budget_ok d b"
    by (auto simp: budget_inv_def)
  moreover have "budget_by_id d (pb_id b) = Some b"
    unfolding budget_by_id_def using assms(1) b(1)
    by (intro row_where_key) (auto simp: budget_inv_def)
  ultimately show thesis using that by simp
qed

lemma held_cost_le_total:
  assumes "budget_inv d" and "u \<in> set (usages d)"
  shows "held_cost p (as_record u) \<le> held_total d p"
proof -
  have "held_cost p (as_record x) \<ge> 0" if "x \<in> set (usages d)" for x
    using assms(1) that by (auto simp: budget_inv_def usage_ok_def held_cost_def)
  with assms(2) show ?thesis
    unfolding held_total_def by (intro tally_member_le) auto
qed

text \<open>
  \<open>budget_move b u b' u'\<close>: the usage goes from \<open>u\<close> to \<open>u'\<close> and the counters of its budget change
  by what it holds and has spent.
\<close>

definition budget_move ::
  "provider_budget \<Rightarrow> budget_usage \<Rightarrow> provider_budget \<Rightarrow> budget_usage \<Rightarrow> bool" where
  "budget_move b u b' u' \<longleftrightarrow>
     budget_keeps b b' \<and> usage_keeps u u' \<and> usage_ok u' \<and>
     pb_actual_cost b' = pb_actual_cost b - spent_cost (bu_provider u) (as_record u)
       + spent_cost (bu_provider u) (as_record u') \<and>
     pb_reserved_cost b' = pb_reserved_cost b - held_cost (bu_provider u) (as_record u)
       + held_cost (bu_provider u) (as_record u') \<and>
     pb_routing_enabled b' = (budget_remaining b' > 0)"

lemma budget_move_inv:
  assumes inv: "budget_inv d" and u: "u \<in> set (usages d)" and b: "b \<in> set (budgets d)"
    and fk: "pb_id b = bu_budget_id u" and move: "budget_move b u b' u'"
  defines "e \<equiv> set_usage (set_budget d b') u'"
  shows "budget_inv e" and "budget_frame d e"
proof -
  have db: "distinct (map pb_id (budgets d))" "distinct (map pb_provider (budgets d))"
    and du: "distinct (map bu_id (usages d))"
    using inv by (auto simp: budget_inv_def)
  obtain c where "c \<in> set (budgets d)" "pb_id c = bu_budget_id u" "pb_provider c = bu_provider u"
    using inv u by (rule usage_budget)
  with b fk db(1) have prov: "pb_provider b = bu_provider u" by (metis distinct_keyD)
  have keep: "pb_id b' = pb_id b" "pb_provider b' = pb_provider b"
    "pb_credit_budget b' = pb_credit_budget b" "bu_id u' = bu_id u" "bu_provider u' = bu_provider u"
    "bu_task_id u' = bu_task_id u" "bu_budget_id u' = bu_budget_id u" "usage_ok u'"
    using move by (auto simp: budget_move_def budget_keeps_def usage_keeps_def)
  have us: "usages e = update_where (\<lambda>x. bu_id x = bu_id u) (\<lambda>_. u') (usages d)"
    and bs: "budgets e = update_where (\<lambda>x. pb_id x = pb_id b) (\<lambda>_. b') (budgets d)"
    by (simp_all add: e_def set_usage_def set_budget_def keep)
  have uu: "x = u" if "x \<in> set (usages d)" "bu_id x = bu_id u" for x
    using du that u by (blast dest: distinct_keyD)
  have ub: "x = b" if "x \<in> set (budgets d)" "pb_id x = pb_id b" for x
    using db that b by (blast dest: distinct_keyD)
  have maps: "map pb_id (budgets e) = map pb_id (budgets d)"
    "map pb_provider (budgets e) = map pb_provider (budgets d)"
    "map bu_id (usages e) = map bu_id (usages d)"
    "map (\<lambda>u. (bu_provider u, bu_task_id u)) (usages e) =
      map (\<lambda>u. (bu_provider u, bu_task_id u)) (usages d)"
    unfolding us bs update_where_def by (auto simp: keep dest: uu ub)
  have spent: "spent_total e p = spent_total d p - spent_cost p (as_record u) + spent_cost p (as_record u')"
    and held: "held_total e p = held_total d p - held_cost p (as_record u) + held_cost p (as_record u')" for p
    unfolding spent_total_def held_total_def us
    using tally_update_single [OF du u, where f = "\<lambda>_. u'"] by simp_all
  have other: "spent_total e p = spent_total d p" "held_total e p = held_total d p"
    if "p \<noteq> pb_provider b" for p
    using that prov keep(5) unfolding spent held by (simp_all add: spent_cost_def held_cost_def)
  have bok: "budget_ok e x" if x: "x \<in> set (budgets e)" for x
  proof (cases "x = b'")
    case True
    have "budget_ok d b" using inv b by (simp add: budget_inv_def)
    with True move prov keep show ?thesis
      by (simp add: budget_ok_def budget_move_def spent held)
  next
    case False
    then have xd: "x \<in> set (budgets d)" "pb_id x \<noteq> pb_id b"
      using x by (auto simp: bs set_update_where split: if_splits)
    then have "pb_provider x \<noteq> pb_provider b" using db(2) b by (metis distinct_keyD)
    with xd inv show ?thesis by (simp add: budget_ok_def budget_inv_def other)
  qed
  have fkb: "\<exists>y \<in> set (budgets e). pb_id y = pb_id x \<and> pb_provider y = pb_provider x \<and>
      pb_credit_budget y = pb_credit_budget x" if "x \<in> set (budgets d)" for x
    using that ub [OF that] keep unfolding bs by (cases "x = b") (force simp: set_update_where)+
  have uok: "usage_ok x \<and> (\<exists>y \<in> set (budgets e). pb_id y = bu_budget_id x \<and>
      pb_provider y = bu_provider x)" if x: "x \<in> set (usages e)" for x
  proof -
    from x have "x = u' \<or> x \<in> set (usages d)" by (auto simp: us set_update_where)
    moreover have "\<exists>y \<in> set (budgets d). pb_id y = bu_budget_id z \<and> pb_provider y = bu_provider z"
      if "z \<in> set (usages d)" for z using inv that by (auto simp: budget_inv_def)
    ultimately show ?thesis using u inv keep fkb by (metis budget_inv_def)
  qed
  show "budget_inv e"
    unfolding budget_inv_def maps using inv bok uok by (auto simp: budget_inv_def)
  have "\<exists>y \<in> set (usages e). usage_keeps x y" if "x \<in> set (usages d)" for x
    using that uu [OF that] move unfolding us budget_move_def
    by (cases "x = u") (force simp: set_update_where)+
  moreover have "decisions e = decisions d" by (simp add: e_def set_usage_def set_budget_def)
  ultimately show "budget_frame d e"
    using fkb by (auto simp: budget_frame_def budget_keeps_def)
qed

section \<open>The transitions are such moves\<close>

abbreviation open_usage :: "budget_usage \<Rightarrow> bool" where
  "open_usage u \<equiv> bu_status u \<in> {RESERVED, UNCERTAIN}"

lemma usage_ok_open:
  "usage_ok u \<Longrightarrow> open_usage u \<Longrightarrow> bu_actual_cost u = None \<and> bu_estimated_cost u > 0"
  by (auto simp: usage_ok_def)

lemma check_settlement_InrD:
  assumes "check_settlement c st = Inr a"
  shows "st = SETTLED \<and> (\<exists>x. a = Some x \<and> 0 \<le> x) \<or> st = UNCERTAIN \<and> a = None"
  using assms
  by (cases c) (auto simp: check_settlement_def res_simps split: if_split_asm)

lemma budget_remaining_routing [simp]:
  "budget_remaining (b\<lparr>pb_routing_enabled := x\<rparr>) = budget_remaining b"
  by (simp add: budget_remaining_def)

lemma open_usage_costs:
  assumes inv: "budget_inv d" and u: "u \<in> set (usages d)" "open_usage u"
    and b: "b \<in> set (budgets d)" "pb_provider b = bu_provider u"
  shows "max 0 (pb_reserved_cost b - bu_estimated_cost u) = pb_reserved_cost b - bu_estimated_cost u"
    and "spent_cost (bu_provider u) (as_record u) = 0"
    and "held_cost (bu_provider u) (as_record u) = bu_estimated_cost u"
    and "bu_estimated_cost u > 0"
proof -
  have ok: "usage_ok u" and res: "pb_reserved_cost b = held_total d (bu_provider u)"
    using inv u b by (auto simp: budget_inv_def budget_ok_def)
  show held: "held_cost (bu_provider u) (as_record u) = bu_estimated_cost u"
    using u(2) by (auto simp: held_cost_def)
  show "spent_cost (bu_provider u) (as_record u) = 0" using u(2) by (auto simp: spent_cost_def)
  show "bu_estimated_cost u > 0" using ok by (simp add: usage_ok_def)
  show "max 0 (pb_reserved_cost b - bu_estimated_cost u) = pb_reserved_cost b - bu_estimated_cost u"
    using held_cost_le_total [OF inv u(1), of "bu_provider u"] held res by simp
qed

lemma settle_move:
  assumes inv: "budget_inv d" and u: "u \<in> set (usages d)" "open_usage u"
    and b: "b \<in> set (budgets d)" "pb_provider b = bu_provider u" and x: "0 \<le> x"
  shows "budget_move b u
    (b\<lparr>pb_reserved_cost := max 0 (pb_reserved_cost b - bu_estimated_cost u),
       pb_actual_cost := pb_actual_cost b + x, pb_routing_enabled := (budget_remaining
        (b\<lparr>pb_reserved_cost := max 0 (pb_reserved_cost b - bu_estimated_cost u),
           pb_actual_cost := pb_actual_cost b + x\<rparr>) > 0)\<rparr>)
    (u\<lparr>bu_actual_cost := Some x, bu_status := SETTLED, bu_remaining := n, bu_updated_at := now\<rparr>)"
proof -
  have "bu_status u \<noteq> SETTLED" "bu_status u \<noteq> RELEASED" using u(2) by auto
  with open_usage_costs [OF inv u b] x show ?thesis
    unfolding budget_move_def
    by (intro conjI) (simp_all add: budget_keeps_def usage_keeps_def usage_ok_def spent_cost_def
      [of _ "as_record (u\<lparr>bu_actual_cost := _, bu_status := _, bu_remaining := _, bu_updated_at := _\<rparr>)"]
      held_cost_def
      [of _ "as_record (u\<lparr>bu_actual_cost := _, bu_status := _, bu_remaining := _, bu_updated_at := _\<rparr>)"])
qed

lemma release_move:
  assumes inv: "budget_inv d" and u: "u \<in> set (usages d)" "open_usage u"
    and b: "b \<in> set (budgets d)" "pb_provider b = bu_provider u"
  shows "budget_move b u
    (b\<lparr>pb_reserved_cost := max 0 (pb_reserved_cost b - bu_estimated_cost u),
       pb_routing_enabled := (budget_remaining
        (b\<lparr>pb_reserved_cost := max 0 (pb_reserved_cost b - bu_estimated_cost u)\<rparr>) > 0)\<rparr>)
    (u\<lparr>bu_actual_cost := None, bu_status := RELEASED, bu_remaining := n, bu_updated_at := now\<rparr>)"
proof -
  have "bu_status u \<noteq> SETTLED" "bu_status u \<noteq> RELEASED" using u(2) by auto
  with open_usage_costs [OF inv u b] show ?thesis
    unfolding budget_move_def
    by (intro conjI) (simp_all add: budget_keeps_def usage_keeps_def usage_ok_def spent_cost_def
      [of _ "as_record (u\<lparr>bu_actual_cost := _, bu_status := _, bu_remaining := _, bu_updated_at := _\<rparr>)"]
      held_cost_def
      [of _ "as_record (u\<lparr>bu_actual_cost := _, bu_status := _, bu_remaining := _, bu_updated_at := _\<rparr>)"])
qed

lemma uncertain_move:
  assumes "budget_inv d" and "u \<in> set (usages d)" and "open_usage u"
  shows "budget_move b u (b\<lparr>pb_routing_enabled := (budget_remaining b > 0)\<rparr>)
    (u\<lparr>bu_actual_cost := None, bu_status := UNCERTAIN, bu_remaining := n, bu_updated_at := now\<rparr>)"
proof -
  have "bu_status u \<noteq> SETTLED" "bu_status u \<noteq> RELEASED" "usage_ok u"
    using assms by (auto simp: budget_inv_def)
  with assms(3) show ?thesis
    unfolding budget_move_def
    by (intro conjI) (auto simp: budget_keeps_def usage_keeps_def usage_ok_def spent_cost_def
      held_cost_def)
qed

text \<open>A successful settle or release replays, or is one of these moves.\<close>

lemma db_settle_cases:
  assumes run: "db_settle now d i c st = Inr (r, e)" and inv: "budget_inv d"
  obtains (replay) u where "u \<in> set (usages d)" and "bu_id u = i" and "r = as_record u" and "e = d"
  | (moved) u b b' u' where "u \<in> set (usages d)" and "open_usage u" and "bu_id u = i"
    and "b \<in> set (budgets d)" and "pb_id b = bu_budget_id u" and "budget_move b u b' u'"
    and "bu_remaining u' = budget_remaining b'"
    and "r = as_record u'" and "e = set_usage (set_budget d b') u'"
proof -
  from run obtain a where a: "check_settlement c st = Inr a"
    by (auto simp: db_settle_def res_simps)
  from run a obtain u where "usage_by_id d i = Some u"
    by (cases "usage_by_id d i") (auto simp: db_settle_def)
  then have u: "u \<in> set (usages d)" "bu_id u = i" and get: "usage_by_id d i = Some u"
    using usage_by_id_Some [OF inv] by auto
  from inv u(1) obtain b where b: "b \<in> set (budgets d)" "budget_by_id d (bu_budget_id u) = Some b"
    "pb_id b = bu_budget_id u" "pb_provider b = bu_provider u"
    by (rule usage_budget)
  consider "r = as_record u" "e = d" | "open_usage u" "st = SETTLED" | "open_usage u" "st = UNCERTAIN"
      "bu_status u \<noteq> UNCERTAIN"
    using run a get check_settlement_InrD [OF a]
    by (auto simp: db_settle_def split: if_split_asm)
  then show thesis
  proof cases
    case 1
    with u show ?thesis by (intro replay)
  next
    case 2
    with check_settlement_InrD [OF a] obtain x where x: "a = Some x" "0 \<le> x" by auto
    show ?thesis
      by (rule moved [OF u(1) 2(1) u(2) b(1) b(3) settle_move [OF inv u(1) 2(1) b(1,4) x(2)]])
        (use run a get 2 x b(2) in \<open>auto simp: db_settle_def flush_transition_def Let_def
           budget_remaining_def\<close>)
  next
    case 3
    with check_settlement_InrD [OF a] have x: "a = None" by auto
    show ?thesis
      by (rule moved [OF u(1) 3(1) u(2) b(1) b(3) uncertain_move [OF inv u(1) 3(1)]])
        (use run a get 3 x b(2) in \<open>auto simp: db_settle_def flush_transition_def Let_def
           budget_remaining_def\<close>)
  qed
qed

lemma db_release_cases:
  assumes run: "db_release now d i = Inr (r, e)" and inv: "budget_inv d"
  obtains (replay) u where "u \<in> set (usages d)" and "bu_id u = i" and "r = as_record u" and "e = d"
  | (moved) u b b' u' where "u \<in> set (usages d)" and "open_usage u" and "bu_id u = i"
    and "b \<in> set (budgets d)" and "pb_id b = bu_budget_id u" and "budget_move b u b' u'"
    and "bu_remaining u' = budget_remaining b'" and "bu_status u' = RELEASED"
    and "r = as_record u'" and "e = set_usage (set_budget d b') u'"
proof -
  from run obtain u where "usage_by_id d i = Some u"
    by (cases "usage_by_id d i") (auto simp: db_release_def)
  then have u: "u \<in> set (usages d)" "bu_id u = i" and get: "usage_by_id d i = Some u"
    using usage_by_id_Some [OF inv] by auto
  from inv u(1) obtain b where b: "b \<in> set (budgets d)" "budget_by_id d (bu_budget_id u) = Some b"
    "pb_id b = bu_budget_id u" "pb_provider b = bu_provider u"
    by (rule usage_budget)
  consider "r = as_record u" "e = d" | "bu_status u = RESERVED"
    using run get by (auto simp: db_release_def split: if_split_asm)
  then show thesis
  proof cases
    case 1
    with u show ?thesis by (intro replay)
  next
    case 2
    then have op: "open_usage u" by simp
    have none: "bu_actual_cost u = None" using usage_ok_open [OF _ op] inv u(1) by (simp add: budget_inv_def)
    then have eq: "u\<lparr>bu_status := x, bu_remaining := y, bu_updated_at := z\<rparr> =
        u\<lparr>bu_actual_cost := None, bu_status := x, bu_remaining := y, bu_updated_at := z\<rparr>" for x y z
      by (cases u) simp
    show ?thesis
      by (rule moved [OF u(1) op u(2) b(1) b(3) release_move [OF inv u(1) op b(1,4)]])
        (use run get 2 b(2) in \<open>auto simp: db_release_def flush_transition_def Let_def
           budget_remaining_def eq\<close>)
  qed
qed

lemma reconcile_cases:
  assumes run: "reconcile_uncertain env d i0 act c k rs ev = Inr (rc, e)" and inv: "budget_inv d"
  obtains (replay) "e = d" and "rc_replayed rc"
  | (moved) u b b' u' a actual where "u \<in> set (usages d)" and "bu_status u = UNCERTAIN"
    and "bu_id u = py_strip i0" and "reservation_audits d (py_strip i0) = []"
    and "b \<in> set (budgets d)" and "pb_id b = bu_budget_id u" and "budget_move b u b' u'"
    and "bu_status u' = (if act = SETTLE_ACTUAL_COST then SETTLED else RELEASED)"
    and "check_reconciliation (py_strip i0) (py_strip k) (py_strip rs) (py_strip ev) act c = Inr actual"
    and "bu_actual_cost u' = actual"
    and "a = reconciliation_audit env u' UNCERTAIN (py_strip k) act actual (py_strip rs) (py_strip ev)"
    and "\<forall>x \<in> set (decisions d). dr_id x \<noteq> be_id env"
    and "rc_reservation rc = as_record u'" and "\<not> rc_replayed rc"
    and "rc_audit_decision_id rc = be_id env"
    and "e = (set_usage (set_budget d b') u')\<lparr>decisions := decisions d @ [a]\<rparr>"
proof -
  let ?i = "py_strip i0"
  from run obtain actual where a: "check_reconciliation ?i (py_strip k) (py_strip rs) (py_strip ev) act c
      = Inr actual"
    by (auto simp: reconcile_uncertain_def res_simps Let_def)
  from run a obtain u where get: "usage_by_id d ?i = Some u"
    by (cases "usage_by_id d ?i") (auto simp: reconcile_uncertain_def)
  then have u: "u \<in> set (usages d)" "bu_id u = ?i" using usage_by_id_Some [OF inv] by auto
  from inv u(1) obtain b where b: "b \<in> set (budgets d)" "budget_by_id d (bu_budget_id u) = Some b"
    "pb_id b = bu_budget_id u" "pb_provider b = bu_provider u" "budget_ok d b"
    by (rule usage_budget)
  have act: "act = SETTLE_ACTUAL_COST \<and> (\<exists>x. actual = Some x \<and> 0 \<le> x) \<or>
      act \<noteq> SETTLE_ACTUAL_COST \<and> actual = None"
    using a by (cases actual) (auto simp: check_reconciliation_def res_simps split: if_split_asm)
  show thesis
  proof (cases "find (\<lambda>a. feature a ''idempotency_key'' = JStr (py_strip k)) (reservation_audits d ?i)")
    case (Some audit)
    with run a get b(2) have "e = d" and "rc_replayed rc"
      by (auto simp: reconcile_uncertain_def Let_def res_simps)
    then show ?thesis by (rule replay)
  next
    case None
    with run a get b(2) have st: "bu_status u = UNCERTAIN" and none: "reservation_audits d ?i = []"
      and app: "apply_reconciliation env d u b (py_strip k) act actual (py_strip rs) (py_strip ev)
        = Inr (rc, e)"
      by (auto simp: reconcile_uncertain_def Let_def split: if_split_asm)
    then have op: "open_usage u" by simp
    have pos: "pb_reserved_cost b \<ge> bu_estimated_cost u"
      and fresh: "\<forall>x \<in> set (decisions d). dr_id x \<noteq> be_id env"
      using app by (auto simp: apply_reconciliation_def Let_def split_beta split: if_split_asm)
    then have clamp: "max 0 (pb_reserved_cost b - bu_estimated_cost u) =
        pb_reserved_cost b - bu_estimated_cost u" by simp
    from act consider x where "act = SETTLE_ACTUAL_COST" "actual = Some x" "0 \<le> x"
      | "act \<noteq> SETTLE_ACTUAL_COST" "actual = None" by blast
    then show ?thesis
    proof cases
      case 1
      show ?thesis
        by (rule moved [OF u(1) st u(2) none b(1) b(3)
              settle_move [OF inv u(1) op b(1,4) 1(3)] _ a _ refl fresh])
          (use app pos fresh 1 st clamp in \<open>auto simp: apply_reconciliation_def flush_transition_def
             Let_def budget_remaining_def set_usage_def set_budget_def split: if_split_asm\<close>)
    next
      case 2
      show ?thesis
        by (rule moved [OF u(1) st u(2) none b(1) b(3)
              release_move [OF inv u(1) op b(1,4)] _ a _ refl fresh])
          (use app pos fresh 2 st clamp in \<open>auto simp: apply_reconciliation_def flush_transition_def
             Let_def budget_remaining_def set_usage_def set_budget_def split: if_split_asm\<close>)
    qed
  qed
qed

lemma budget_inv_decisions [simp]: "budget_inv (d\<lparr>decisions := ds\<rparr>) = budget_inv d"
  by (simp add: budget_inv_def budget_ok_def spent_total_def held_total_def)

section \<open>Reservations and new budgets\<close>

lemma usage_for_task_Some:
  assumes "budget_inv d"
  shows "usage_for_task d p k = Some u \<longleftrightarrow> u \<in> set (usages d) \<and> bu_provider u = p \<and> bu_task_id u = k"
proof
  assume "u \<in> set (usages d) \<and> bu_provider u = p \<and> bu_task_id u = k"
  with assms show "usage_for_task d p k = Some u"
    unfolding usage_for_task_def budget_inv_def
    using row_where_key [of "\<lambda>u. (bu_provider u, bu_task_id u)" "usages d" u] by auto
qed (auto simp: usage_for_task_def dest: row_where_SomeD)

lemma budget_guard_row:
  assumes "budget_inv d" and "b \<in> set (budgets d)" and "budget_guard (pb_provider b) n b"
  shows "affected (budget_guard (pb_provider b) n) (budgets d) = 1"
    and "update_where (budget_guard (pb_provider b) n) (budget_hold n) (budgets d) =
      update_where (\<lambda>x. pb_id x = pb_id b) (\<lambda>_. budget_hold n b) (budgets d)"
proof -
  let ?G = "budget_guard (pb_provider b) n"
  have d: "distinct (map pb_id (budgets d))" "distinct (map pb_provider (budgets d))"
    using assms(1) by (auto simp: budget_inv_def)
  have uniq: "x = b" if "x \<in> set (budgets d)" "?G x" for x
    using distinct_keyD [OF d(2) that(1) assms(2)] that(2) by (simp add: budget_guard_def)
  have "affected ?G (budgets d) \<le> 1"
    by (rule affected_key_le_one [OF d(2)]) (simp add: budget_guard_def)
  moreover have "affected ?G (budgets d) \<noteq> 0"
    using assms(2,3) by (auto simp: affected_def filter_empty_conv)
  ultimately show "affected ?G (budgets d) = 1" by simp
  show "update_where ?G (budget_hold n) (budgets d) =
      update_where (\<lambda>x. pb_id x = pb_id b) (\<lambda>_. budget_hold n b) (budgets d)"
    by (rule update_where_single [where k = pb_id, OF d(1) assms(2), of ?G, OF assms(3)])
      (use uniq in blast)
qed

text \<open>The state after a granted reservation.\<close>

definition hold_usage :: "budget_env \<Rightarrow> provider_budget \<Rightarrow> string \<Rightarrow> string \<Rightarrow> int \<Rightarrow> string \<Rightarrow> budget_usage" where
  "hold_usage env b task_id task_role n st =
     \<lparr>bu_id = be_id env, bu_budget_id = pb_id b, bu_provider = pb_provider b, bu_task_id = task_id,
      bu_task_role = task_role, bu_estimated_cost = n, bu_actual_cost = None,
      bu_remaining = budget_remaining (budget_hold n b), bu_status = st,
      bu_created_at = be_now env, bu_updated_at = be_now env\<rparr>"

definition hold_state :: "budget_db \<Rightarrow> provider_budget \<Rightarrow> int \<Rightarrow> budget_usage \<Rightarrow> budget_db" where
  "hold_state d b n u = (set_budget d (budget_hold n b))\<lparr>usages := usages d @ [u]\<rparr>"

lemma budget_hold_sel [simp]:
  "pb_id (budget_hold n b) = pb_id b" "pb_provider (budget_hold n b) = pb_provider b"
  "pb_credit_budget (budget_hold n b) = pb_credit_budget b"
  "pb_actual_cost (budget_hold n b) = pb_actual_cost b"
  "pb_reserved_cost (budget_hold n b) = pb_reserved_cost b + n"
  "pb_routing_enabled (budget_hold n b) =
     (pb_credit_budget b - pb_actual_cost b - pb_reserved_cost b - n > 0)"
  by (simp_all add: budget_hold_def)

lemma budget_of_held:
  assumes "budget_inv d" and "b \<in> set (budgets d)" and "pb_provider b' = pb_provider b"
    and "pb_id b' = pb_id b"
  shows "row_where (\<lambda>x. pb_provider x = pb_provider b)
    (update_where (\<lambda>x. pb_id x = pb_id b) (\<lambda>_. b') (budgets d)) = Some b'"
proof -
  have d: "distinct (map pb_id (budgets d))" "distinct (map pb_provider (budgets d))"
    using assms(1) by (auto simp: budget_inv_def)
  have "(pb_id x = pb_id b) = (pb_provider x = pb_provider b)" if "x \<in> set (budgets d)" for x
    using that assms(2) d by (metis distinct_keyD)
  then have "update_where (\<lambda>x. pb_id x = pb_id b) (\<lambda>_. b') (budgets d) =
      update_where (\<lambda>x. pb_provider x = pb_provider b) (\<lambda>_. b') (budgets d)"
    unfolding update_where_def by auto
  with row_where_update_single [OF assms(2,3)] show ?thesis by simp
qed

lemma db_reserve_once_fresh:
  assumes inv: "budget_inv t" and s: "usage_for_task s p k = None" and t: "usage_for_task t p k = None"
    and b: "b \<in> set (budgets t)" "pb_provider b = p" and n: "0 < n"
    and id: "be_id env \<notin> bu_id ` set (usages t)"
  shows "db_reserve_once env s t p k role n st =
    (if n \<le> budget_remaining b
     then Inr (as_record (hold_usage env b k role n st), hold_state t b n (hold_usage env b k role n st))
     else Inl (ProviderBudgetExceeded p (budget_remaining b)))"
proof -
  have ok: "budget_ok t b" and get: "budget_of t p = Some b"
    using inv b budget_of_Some [OF inv] by (auto simp: budget_inv_def)
  have guard: "budget_guard p n b \<longleftrightarrow> n \<le> budget_remaining b"
    using ok b(2) n by (auto simp: budget_guard_def budget_remaining_def budget_ok_def)
  have task: "\<not> (bu_provider x = p \<and> bu_task_id x = k)" if "x \<in> set (usages t)" for x
    using row_where_NoneD [OF t [unfolded usage_for_task_def] that] .
  show ?thesis
  proof (cases "n \<le> budget_remaining b")
    case True
    note row = budget_guard_row [OF inv b(1), of n, unfolded b(2)]
    have held: "budget_of (t\<lparr>budgets := update_where (budget_guard p n) (budget_hold n) (budgets t)\<rparr>) p =
        Some (budget_hold n b)"
      using row(2) True guard budget_of_held [OF inv b(1), of "budget_hold n b"] b(2)
      by (simp add: budget_of_def)
    have idn: "bu_id x \<noteq> be_id env" if "x \<in> set (usages t)" for x
      using id that by (metis image_eqI)
    have "insert_usage (t\<lparr>budgets := update_where (budget_guard p n) (budget_hold n) (budgets t)\<rparr>)
        (hold_usage env b k role n st) = Inr (hold_state t b n (hold_usage env b k role n st))"
      using row(2) True guard task idn b(2)
      by (auto simp: insert_usage_def hold_usage_def hold_state_def set_budget_def)
    with True guard row(1) held s b(2) show ?thesis
      by (simp add: db_reserve_once_def hold_usage_def Let_def)
  next
    case False
    have "affected (budget_guard p n) (budgets t) = 0"
      using False guard inv b unfolding affected_def
      by (auto simp: filter_empty_conv budget_guard_def budget_inv_def dest: distinct_keyD)
    with False s t get show ?thesis by (simp add: db_reserve_once_def)
  qed
qed

lemma hold_state_inv:
  fixes role :: string
  assumes inv: "budget_inv t" and b: "b \<in> set (budgets t)" and n: "0 < n"
    and id: "be_id env \<notin> bu_id ` set (usages t)" and st: "st \<in> {RESERVED, UNCERTAIN}"
    and task: "usage_for_task t (pb_provider b) k = None"
  defines "u \<equiv> hold_usage env b k role n st"
  defines "e \<equiv> hold_state t b n u"
  shows "budget_inv e" and "budget_frame t e"
proof -
  have db: "distinct (map pb_id (budgets t))" "distinct (map pb_provider (budgets t))"
    using inv by (auto simp: budget_inv_def)
  have us: "usages e = usages t @ [u]"
    and bs: "budgets e = update_where (\<lambda>x. pb_id x = pb_id b) (\<lambda>_. budget_hold n b) (budgets t)"
    by (simp_all add: e_def hold_state_def set_budget_def)
  have ub: "x = b" if "x \<in> set (budgets t)" "pb_id x = pb_id b" for x
    using db that b by (blast dest: distinct_keyD)
  have u: "bu_id u = be_id env" "bu_provider u = pb_provider b" "bu_task_id u = k"
    "bu_budget_id u = pb_id b" "usage_ok u"
    using n st by (auto simp: u_def hold_usage_def usage_ok_def)
  have spent: "spent_total e p = spent_total t p"
    and held: "held_total e p = held_total t p + (if p = pb_provider b then n else 0)" for p
    using st by (auto simp: spent_total_def held_total_def us spent_cost_def held_cost_def u_def
        hold_usage_def)
  have maps: "map pb_id (budgets e) = map pb_id (budgets t)"
    "map pb_provider (budgets e) = map pb_provider (budgets t)"
    unfolding bs update_where_def by (auto dest: ub)
  have bok: "budget_ok e x" if x: "x \<in> set (budgets e)" for x
  proof (cases "x = budget_hold n b")
    case True
    have "budget_ok t b" using inv b by (simp add: budget_inv_def)
    with True show ?thesis by (auto simp: budget_ok_def spent held budget_remaining_def)
  next
    case False
    then have xd: "x \<in> set (budgets t)" "pb_id x \<noteq> pb_id b"
      using x by (auto simp: bs set_update_where split: if_splits)
    then have "pb_provider x \<noteq> pb_provider b" using db(2) b by (metis distinct_keyD)
    with xd inv show ?thesis by (simp add: budget_ok_def budget_inv_def spent held)
  qed
  have fkb: "\<exists>y \<in> set (budgets e). pb_id y = pb_id x \<and> pb_provider y = pb_provider x \<and>
      pb_credit_budget y = pb_credit_budget x" if "x \<in> set (budgets t)" for x
  proof (cases "pb_id x = pb_id b")
    case True
    with ub that have "x = b" by blast
    with update_where_hit [OF b, of "\<lambda>x. pb_id x = pb_id b" "\<lambda>_. budget_hold n b"] show ?thesis
      unfolding bs by (intro bexI [of _ "budget_hold n b"]) simp_all
  next
    case False
    with update_where_miss [OF that, of "\<lambda>x. pb_id x = pb_id b" "\<lambda>_. budget_hold n b"] show ?thesis
      unfolding bs by blast
  qed
  have "\<not> (bu_provider x = pb_provider b \<and> bu_task_id x = k)" if "x \<in> set (usages t)" for x
    using row_where_NoneD [OF task [unfolded usage_for_task_def] that] .
  then have key: "(pb_provider b, k) \<notin> (\<lambda>u. (bu_provider u, bu_task_id u)) ` set (usages t)"
    by fastforce
  have uok: "usage_ok x \<and> (\<exists>y \<in> set (budgets e). pb_id y = bu_budget_id x \<and>
      pb_provider y = bu_provider x)" if x: "x \<in> set (usages e)" for x
  proof -
    have "\<exists>y \<in> set (budgets t). pb_id y = bu_budget_id x \<and> pb_provider y = bu_provider x"
      using x inv u b by (auto simp: us budget_inv_def)
    moreover have "usage_ok x" using x inv u by (auto simp: us budget_inv_def)
    ultimately show ?thesis using fkb by metis
  qed
  show "budget_inv e"
    unfolding budget_inv_def maps using inv bok uok u id key by (simp add: budget_inv_def us)
  have "decisions e = decisions t" by (simp add: e_def hold_state_def set_budget_def)
  with fkb show "budget_frame t e"
    unfolding budget_frame_def budget_keeps_def us by (auto intro: keeps_refl)
qed

text \<open>A reservation that returns replays an existing row, or holds the estimate.\<close>

lemma replay_of_InrD:
  "replay_of d u role n = Inr (r, e) \<Longrightarrow> e = d \<and> r = db_reservation u False \<and>
     bu_task_role u = role \<and> bu_estimated_cost u = n"
  by (auto simp: replay_of_def validate_replay_def split: if_split_asm)

lemma db_reserve_once_cases:
  assumes run: "db_reserve_once env s t p k role n st = Inr (r, e)" and inv: "budget_inv t"
    and n: "0 < n"
  obtains (replay) "e = t" and "\<not> br_acquired r"
  | (held) b where "b \<in> set (budgets t)" and "pb_provider b = p" and "n \<le> budget_remaining b"
    and "be_id env \<notin> bu_id ` set (usages t)" and "usage_for_task t p k = None"
    and "r = as_record (hold_usage env b k role n st)"
    and "e = hold_state t b n (hold_usage env b k role n st)"
proof -
  have old: thesis if "replay_of t u role n = Inr (r, e)" for u
    using replay replay_of_InrD [OF that] by (simp add: db_reservation_def)
  show thesis
  proof (cases "usage_for_task s p k")
    case (Some u)
    with run show ?thesis by (auto simp: db_reserve_once_def intro: old)
  next
    case None
    show ?thesis
    proof (cases "affected (budget_guard p n) (budgets t) = 1")
      case False
      with None run show ?thesis
        by (auto simp: db_reserve_once_def split: option.split_asm intro: old)
    next
      case True
      then obtain b where b: "b \<in> set (budgets t)" "budget_guard p n b" by (rule affected_oneE) blast
      then have p: "pb_provider b = p" by (simp add: budget_guard_def)
      have fresh: "\<forall>x \<in> set (usages t). bu_id x \<noteq> be_id env \<and>
          \<not> (bu_provider x = p \<and> bu_task_id x = k)"
        using run None True
        by (auto simp: db_reserve_once_def Let_def res_simps insert_usage_def
            split: option.split_asm if_split_asm)
      then have id: "be_id env \<notin> bu_id ` set (usages t)" by auto
      from fresh have t: "usage_for_task t p k = None"
        by (auto simp: usage_for_task_def row_where_def find_None_iff)
      have "n \<le> budget_remaining b" using b(2) by (auto simp: budget_guard_def budget_remaining_def)
      with run db_reserve_once_fresh [OF inv None t b(1) p n id] b(1) p id t held show ?thesis
        by auto
    qed
  qed
qed

lemma db_reserve_cases:
  assumes run: "db_reserve env s t z p k role c st = Inr (r, e)" and inv: "budget_inv t"
  obtains (replay) "e = t \<or> e = z" and "\<not> br_acquired r"
  | (held) b n where "money c = Inr n" and "0 < n" and "st \<in> {RESERVED, UNCERTAIN}"
    and "b \<in> set (budgets t)" and "pb_provider b = py_strip p" and "n \<le> budget_remaining b"
    and "be_id env \<notin> bu_id ` set (usages t)"
    and "usage_for_task t (py_strip p) (py_strip k) = None"
    and "r = as_record (hold_usage env b (py_strip k) (py_strip role) n st)"
    and "e = hold_state t b n (hold_usage env b (py_strip k) (py_strip role) n st)"
proof -
  from run obtain n where n: "money c = Inr n" "0 < n" "st \<in> {RESERVED, UNCERTAIN}"
    by (auto simp: db_reserve_def Let_def res_simps split: if_split_asm)
  consider "db_reserve_once env s t (py_strip p) (py_strip k) (py_strip role) n st = Inr (r, e)"
    | u where "replay_of z u (py_strip role) n = Inr (r, e)"
    using run n(1)
    by (auto simp: db_reserve_def Let_def split: if_split_asm sum.split_asm budget_error.split_asm
        option.split_asm)
  then show thesis
  proof cases
    case 1
    from 1 inv n(2) show ?thesis
    proof (cases rule: db_reserve_once_cases)
      case replay
      then show ?thesis using that(1) by blast
    next
      case (held b)
      show ?thesis by (rule that(2) [OF n held])
    qed
  next
    case 2
    then have "e = z" and "\<not> br_acquired r" by (auto simp: db_reservation_def dest!: replay_of_InrD)
    then show ?thesis using that(1) by blast
  qed
qed

lemma db_ensure_step:
  assumes run: "db_ensure env s t t p c = Inr (sn, e)" and inv: "budget_inv t"
  shows "budget_inv e \<and> budget_frame t e"
proof (cases "e = t")
  case False
  then obtain b where b: "e = t\<lparr>budgets := budgets t @ [b]\<rparr>" "pb_actual_cost b = 0"
    "pb_reserved_cost b = 0" "pb_routing_enabled b = (pb_credit_budget b > 0)" "pb_provider b \<noteq> ''''"
    "0 \<le> pb_credit_budget b" "\<forall>x \<in> set (budgets t). pb_id x \<noteq> pb_id b \<and> pb_provider x \<noteq> pb_provider b"
    using run by (auto simp: db_ensure_def Let_def res_simps split: if_split_asm option.split_asm)
  have other: "bu_provider u \<noteq> pb_provider b" if "u \<in> set (usages t)" for u
    using inv that b(7) by (metis budget_inv_def)
  have tot: "spent_total e q = spent_total t q" "held_total e q = held_total t q" for q
    by (simp_all add: b(1) spent_total_def held_total_def)
  have "spent_total t (pb_provider b) = 0" "held_total t (pb_provider b) = 0"
    unfolding spent_total_def held_total_def using other
    by (auto intro!: tally_zero simp: spent_cost_def held_cost_def)
  with b(2-6) have "budget_ok e b" by (simp add: budget_ok_def tot budget_remaining_def)
  moreover have "budget_ok e x" if "x \<in> set (budgets t)" for x
    using inv that by (simp add: budget_inv_def budget_ok_def tot)
  moreover have "pb_id b \<notin> pb_id ` set (budgets t)" "pb_provider b \<notin> pb_provider ` set (budgets t)"
    using b(7) by auto
  ultimately have "budget_inv e" using inv by (auto simp: b(1) budget_inv_def)
  then show ?thesis by (auto simp: b(1) budget_frame_def intro: keeps_refl)
qed (use inv in simp)

lemma budget_txn_step:
  assumes "budget_txn s t u" and inv: "budget_inv t"
  shows "budget_inv u \<and> budget_frame t u"
  using assms(1)
proof cases
  case (txn_ensure env p c sn)
  then show ?thesis using inv by (rule db_ensure_step)
next
  case (txn_reserve env p k role c st r)
  then show ?thesis using inv
  proof (cases rule: db_reserve_cases)
    case (held b n)
    then show ?thesis using hold_state_inv [OF inv held(4,2,7,3)] by metis
  qed (use inv in auto)
next
  case (txn_settle now i c st r)
  then show ?thesis using inv
    by (cases rule: db_settle_cases) (use inv in \<open>auto intro: budget_move_inv\<close>)
next
  case (txn_release now i r)
  then show ?thesis using inv
    by (cases rule: db_release_cases) (use inv in \<open>auto intro: budget_move_inv\<close>)
next
  case (txn_reconcile env i a c k reason ev rc)
  then show ?thesis using inv
  proof (cases rule: reconcile_cases)
    case (moved v b b' v' x actual)
    let ?e = "set_usage (set_budget t b') v'"
    have "budget_inv ?e" and "budget_frame t ?e"
      using budget_move_inv [OF inv moved(1,5,6,7)] .
    moreover have "decisions ?e = decisions t" by (simp add: set_usage_def set_budget_def)
    ultimately show ?thesis by (simp add: moved(16) budget_frame_def)
  qed (use inv in simp)
qed

interpretation budget: optimistic_txn budget_txn budget_inv budget_frame
  by unfold_locales (auto intro: budget_frame_trans dest: budget_txn_step)

end
