(* ===== verification/Budget_Properties.thy ===== *)
theory Budget_Properties
  imports Budget_Refinement
begin

text \<open>
  What the provider budget promises. The interface \<^verbatim>\<open>ProviderBudgetRepository\<close> is the
  locale \<open>budget_repository\<close>; both implementations are interpreted in it, and the database
  implementation is shown to answer every sequence of calls as the in-memory one does.
\<close>

section \<open>The database operations simulate the in-memory ones\<close>

text \<open>Python's \<^verbatim>\<open>KeyError\<close> is a \<^verbatim>\<open>LookupError\<close>; messages are not compared.\<close>

datatype error_class = IsValueError | IsLookupError | IsConflict | IsExceeded string int | IsOther

fun classify :: "budget_error \<Rightarrow> error_class" where
  "classify (BudgetValueError m) = IsValueError"
| "classify (BudgetLookupError m) = IsLookupError"
| "classify BudgetKeyError = IsLookupError"
| "classify (ProviderBudgetConflict m xs) = IsConflict"
| "classify (ProviderBudgetExceeded p n) = IsExceeded p n"
| "classify BudgetIntegrityError = IsOther"
| "classify InvalidOperation = IsOther"

fun same_answer ::
  "budget_error + budget_reservation \<times> budget_db \<Rightarrow>
   budget_error + budget_reservation \<times> memory_budget \<Rightarrow> bool" where
  "same_answer (Inl a) (Inl b) \<longleftrightarrow> classify a = classify b"
| "same_answer (Inr (r, d)) (Inr (r', m)) \<longleftrightarrow> r = r' \<and> m = mem_of d"
| "same_answer _ _ \<longleftrightarrow> False"

lemma limits_unchanged:
  assumes "budget_inv d" and "b \<in> set (budgets d)" and "budget_keeps b b'"
  shows "map (\<lambda>b. (pb_provider b, pb_credit_budget b)) (update_where (\<lambda>x. pb_id x = pb_id b) (\<lambda>_. b')
    (budgets d)) = map (\<lambda>b. (pb_provider b, pb_credit_budget b)) (budgets d)"
proof -
  have "x = b" if "x \<in> set (budgets d)" "pb_id x = pb_id b" for x
    using assms(1,2) that by (auto simp: budget_inv_def dest: distinct_keyD)
  then show ?thesis using assms(3) unfolding update_where_def budget_keeps_def by auto
qed

lemma mem_put_update:
  assumes "mem_record m (br_id r) \<noteq> None"
  shows "mem_put m r = m\<lparr>mb_records := update_where (\<lambda>x. br_id x = br_id r) (\<lambda>_. r) (mb_records m)\<rparr>"
  using assms by (auto simp: mem_put_def)

lemma mem_put_twice:
  assumes "mem_record m (br_id r) \<noteq> None" and id: "br_id r' = br_id r"
  shows "mem_put (mem_put m r) r' = mem_put m r'"
proof -
  from assms(1) obtain x where "x \<in> set (mb_records m)" "br_id x = br_id r"
    by (auto simp: mem_record_def dest: row_where_SomeD)
  then have "mem_record (mem_put m r) (br_id r) = Some r"
    using row_where_update_single [of x "mb_records m" br_id r] mem_put_update [OF assms(1)]
    by (simp add: mem_record_def)
  then show ?thesis
    using assms update_where_twice [of br_id r "br_id r" "\<lambda>_. r'" "mb_records m"]
    by (simp add: mem_put_update)
qed

lemma mem_of_moved:
  assumes inv: "budget_inv d" and u: "u \<in> set (usages d)" and b: "b \<in> set (budgets d)"
    and move: "budget_move b u b' u'"
  shows "mem_put (mem_of d) (as_record u') = mem_of (set_usage (set_budget d b') u')"
proof -
  have keep: "bu_id u' = bu_id u" "bu_provider u' = bu_provider u" "bu_task_id u' = bu_task_id u"
    "pb_id b' = pb_id b" "budget_keeps b b'"
    using move by (auto simp: budget_move_def usage_keeps_def budget_keeps_def)
  have "mem_record (mem_of d) (bu_id u) \<noteq> None"
    using mem_of_record [of d "bu_id u"] usage_by_id_Some [OF inv, of "bu_id u" u] u by simp
  moreover have "x = u" if "x \<in> set (usages d)" "bu_id x = bu_id u" for x
    using inv u that by (auto simp: budget_inv_def dest: distinct_keyD)
  then have "map (\<lambda>u. ((bu_provider u, bu_task_id u), bu_id u))
      (update_where (\<lambda>x. bu_id x = bu_id u) (\<lambda>_. u') (usages d)) =
      map (\<lambda>u. ((bu_provider u, bu_task_id u), bu_id u)) (usages d)"
    using keep unfolding update_where_def by auto
  ultimately show ?thesis
    using keep limits_unchanged [OF inv b keep(5)] mem_put_update [of "mem_of d" "as_record u'"]
      update_where_map [of "\<lambda>x. br_id x = bu_id u" as_record "\<lambda>x. bu_id x = bu_id u" u' "usages d"]
    by (simp add: mem_of_def set_usage_def set_budget_def)
qed

lemma mem_move_simulates:
  assumes inv: "budget_inv d" and u: "u \<in> set (usages d)" "open_usage u"
    and b: "b \<in> set (budgets d)" "pb_id b = bu_budget_id u"
    and move: "budget_move b u b' u'" and rem: "bu_remaining u' = budget_remaining b'"
    and v: "v = u'\<lparr>bu_remaining := n\<rparr>"
  shows "mem_move (mem_of d) (as_record v) =
    Inr (as_record u', mem_of (set_usage (set_budget d b') u'))"
proof -
  have keep: "bu_id u' = bu_id u" "bu_provider u' = bu_provider u" "pb_id b' = pb_id b"
    "pb_provider b' = pb_provider b"
    using move by (auto simp: budget_move_def usage_keeps_def budget_keeps_def)
  obtain c where c: "c \<in> set (budgets d)" "pb_id c = bu_budget_id u" "pb_provider c = bu_provider u"
    using inv u(1) by (rule usage_budget)
  have "c = b" using inv b c(1,2) by (auto simp: budget_inv_def dest: distinct_keyD)
  with c(3) have prov: "pb_provider b = bu_provider u" by simp
  have mv: "budget_move b u b' v"
  proof -
    have "bu_status u \<notin> {SETTLED, RELEASED}" using u(2) by auto
    moreover have "spent_cost p (as_record v) = spent_cost p (as_record u')"
      "held_cost p (as_record v) = held_cost p (as_record u')" "usage_ok v = usage_ok u'" for p
      by (auto simp: v spent_cost_def held_cost_def usage_ok_def)
    ultimately show ?thesis
      using move unfolding budget_move_def by (simp add: usage_keeps_def) (simp add: v)
  qed
  let ?e = "set_usage (set_budget d b') v"
  have put: "mem_put (mem_of d) (as_record v) = mem_of ?e"
    using inv u(1) b(1) mv by (rule mem_of_moved)
  have inv': "budget_inv ?e" by (rule budget_move_inv(1) [OF inv u(1) b mv])
  have "b' \<in> set (budgets ?e)"
    using update_where_hit [OF b(1), of "\<lambda>x. pb_id x = pb_id b" "\<lambda>_. b'"] keep
    by (simp add: set_usage_def set_budget_def)
  then have snap: "sn_remaining (mem_snapshot (mem_of ?e) (bu_provider u)) = budget_remaining b'"
    using mem_of_snapshot [OF inv', of b'] keep prov by (simp add: db_snapshot_def)
  have rec: "(as_record v)\<lparr>br_remaining := budget_remaining b'\<rparr> = as_record u'"
    by (simp add: v db_reservation_def rem)
  have id: "bu_id v = bu_id u'" by (simp add: v)
  have mem: "mem_record (mem_of d) (bu_id u') \<noteq> None"
    using mem_of_record [of d "bu_id u"] usage_by_id_Some [OF inv, of "bu_id u" u] u keep(1) by simp
  have "mem_put (mem_put (mem_of d) (as_record v)) (as_record u') = mem_put (mem_of d) (as_record u')"
    using mem id by (intro mem_put_twice) simp_all
  then have "mem_put (mem_of ?e) (as_record u') = mem_of (set_usage (set_budget d b') u')"
    using mem_of_moved [OF inv u(1) b(1) move] put by simp
  with put snap rec show ?thesis
    by (simp add: mem_move_def Let_def) (simp add: v keep)
qed

lemma settle_simulates:
  assumes inv: "budget_inv d"
  shows "same_answer (db_settle now d i c st) (mem_settle now (mem_of d) i c st)"
proof (cases "check_settlement c st")
  case (Inl e)
  then show ?thesis by (simp add: db_settle_def mem_settle_def)
next
  case (Inr a)
  show ?thesis
  proof (cases "usage_by_id d i")
    case None
    then show ?thesis using Inr by (simp add: db_settle_def mem_settle_def mem_of_record)
  next
    case (Some u)
    then have u: "u \<in> set (usages d)" "bu_id u = i" using usage_by_id_Some [OF inv] by auto
    from inv u(1) obtain b where b: "b \<in> set (budgets d)" "budget_by_id d (bu_budget_id u) = Some b"
      "pb_id b = bu_budget_id u" "pb_provider b = bu_provider u"
      by (rule usage_budget)
    note start = db_settle_def mem_settle_def mem_of_record Some Inr
    consider "\<not> open_usage u" | "bu_status u = UNCERTAIN" "st = UNCERTAIN"
      | (settled) x where "open_usage u" "st = SETTLED" "a = Some x" "0 \<le> x"
      | (uncertain) "bu_status u = RESERVED" "st = UNCERTAIN" "a = None"
      using check_settlement_InrD [OF Inr] by blast
    then show ?thesis
    proof cases
      case settled
      note move = settle_move [OF inv u(1) settled(1) b(1,4) settled(4), where now = now and
          n = "budget_remaining (b\<lparr>pb_reserved_cost := max 0 (pb_reserved_cost b - bu_estimated_cost u),
             pb_actual_cost := pb_actual_cost b + x\<rparr>)"]
      have chk: "check_settlement c SETTLED = Inr (Some x)" using Inr settled by simp
      have "mem_settle now (mem_of d) i c st = mem_move (mem_of d)
          (as_record (u\<lparr>bu_actual_cost := Some x, bu_status := SETTLED, bu_updated_at := now\<rparr>))"
        using settled chk by (auto simp: start) (auto simp: db_reservation_def)
      with mem_move_simulates [OF inv u(1) settled(1) b(1,3) move, of _ "bu_remaining u"] show ?thesis
        using settled chk b(2) by (auto simp: start flush_transition_def Let_def)
    next
      case uncertain
      then have op: "open_usage u" by simp
      note move = uncertain_move [OF inv u(1) op, where b = b and n = "budget_remaining b" and now = now]
      have chk: "check_settlement c UNCERTAIN = Inr None" using Inr uncertain by simp
      have "mem_settle now (mem_of d) i c st = mem_move (mem_of d)
          (as_record (u\<lparr>bu_actual_cost := None, bu_status := UNCERTAIN, bu_updated_at := now\<rparr>))"
        using uncertain chk by (simp add: start) (simp add: db_reservation_def)
      with mem_move_simulates [OF inv u(1) op b(1,3) move, of _ "bu_remaining u"] show ?thesis
        using uncertain chk b(2) by (auto simp: start flush_transition_def Let_def)
    next
      case 2
      have chk: "check_settlement c UNCERTAIN = Inr a" using Inr 2 by simp
      with 2 show ?thesis by (simp add: start)
    qed (auto simp: start)
  qed
qed

lemma release_simulates:
  assumes inv: "budget_inv d"
  shows "same_answer (db_release now d i) (mem_release now (mem_of d) i)"
proof (cases "usage_by_id d i")
  case None
  then show ?thesis by (simp add: db_release_def mem_release_def mem_of_record)
next
  case (Some u)
  then have u: "u \<in> set (usages d)" using usage_by_id_Some [OF inv] by auto
  from inv u obtain b where b: "b \<in> set (budgets d)" "budget_by_id d (bu_budget_id u) = Some b"
    "pb_id b = bu_budget_id u" "pb_provider b = bu_provider u"
    by (rule usage_budget)
  note start = db_release_def mem_release_def mem_of_record Some
  show ?thesis
  proof (cases "bu_status u = RESERVED")
    case True
    then have op: "open_usage u" by simp
    have none: "bu_actual_cost u = None" using usage_ok_open [OF _ op] inv u by (simp add: budget_inv_def)
    then have eq: "u\<lparr>bu_status := RELEASED, bu_remaining := n, bu_updated_at := now\<rparr> =
        u\<lparr>bu_actual_cost := None, bu_status := RELEASED, bu_remaining := n, bu_updated_at := now\<rparr>" for n
      by (cases u) simp
    note move = release_move [OF inv u op b(1,4), where now = now and
        n = "budget_remaining (b\<lparr>pb_reserved_cost := max 0 (pb_reserved_cost b - bu_estimated_cost u)\<rparr>)"]
    have "mem_release now (mem_of d) i = mem_move (mem_of d)
        (as_record (u\<lparr>bu_actual_cost := None, bu_status := RELEASED, bu_updated_at := now\<rparr>))"
      using True none by (simp add: start) (simp add: db_reservation_def)
    with mem_move_simulates [OF inv u op b(1,3) move, of _ "bu_remaining u"] show ?thesis
      using True b(2) by (auto simp: start flush_transition_def Let_def eq)
  qed (auto simp: start)
qed

lemma mem_of_hold:
  assumes inv: "budget_inv d" and b: "b \<in> set (budgets d)"
    and id: "bu_id u \<notin> bu_id ` set (usages d)" and task: "usage_for_task d (bu_provider u) (bu_task_id u) = None"
  shows "mem_of (hold_state d b n u) = (mem_put (mem_of d) (as_record u))\<lparr>mb_task_index :=
    AList.update (bu_provider u, bu_task_id u) (bu_id u) (mb_task_index (mem_put (mem_of d) (as_record u)))\<rparr>"
proof -
  have append: "AList.update k v al = al @ [(k, v)]" if "k \<notin> fst ` set al"
    for k :: "string \<times> string" and v :: string and al
    using that by (induction al) auto
  have "usage_by_id d (bu_id u) = None"
  proof (cases "usage_by_id d (bu_id u)")
    case (Some x)
    then have "x \<in> set (usages d)" and "bu_id x = bu_id u" using usage_by_id_Some [OF inv] by auto
    with id show ?thesis by (metis image_eqI)
  qed
  then have "mem_record (mem_of d) (bu_id u) = None" by (simp add: mem_of_record)
  moreover have "(bu_provider u, bu_task_id u) \<notin>
      fst ` set (map (\<lambda>u. ((bu_provider u, bu_task_id u), bu_id u)) (usages d))"
    using row_where_NoneD [OF task [unfolded usage_for_task_def]] by force
  moreover have "budget_keeps b (budget_hold n b)" by (simp add: budget_keeps_def)
  ultimately show ?thesis
    using limits_unchanged [OF inv b] append
    by (simp add: mem_put_def) (simp add: mem_of_def hold_state_def set_budget_def)
qed

lemma reserve_simulates:
  assumes inv: "budget_inv d" and strip: "py_strip p = p" "py_strip k = k" "py_strip role = role"
    and conf: "budget_of d p \<noteq> None"
    and id: "be_id env \<notin> bu_id ` set (usages d)" and ne: "'''' \<notin> bu_id ` set (usages d)"
  shows "same_answer (db_reserve env d d d p k role c st) (mem_reserve env (mem_of d) p k role c st)"
proof (cases "money c")
  case (Inl e)
  then show ?thesis by (simp add: db_reserve_def mem_reserve_def)
next
  case (Inr n)
  from conf obtain b where "budget_of d p = Some b" by auto
  then have b: "b \<in> set (budgets d)" "pb_provider b = p" using budget_of_Some [OF inv] by auto
  then have p: "p \<noteq> ''''" using inv by (auto simp: budget_inv_def budget_ok_def)
  show ?thesis
  proof (cases "k = '''' \<or> role = '''' \<or> n \<le> 0 \<or> st \<notin> {RESERVED, UNCERTAIN}")
    case True
    then show ?thesis using Inr strip p by (auto simp: db_reserve_def mem_reserve_def Let_def)
  next
    case False
    then have ok: "k \<noteq> ''''" "role \<noteq> ''''" "0 < n" "st \<in> {RESERVED, UNCERTAIN}" by auto
    show ?thesis
    proof (cases "usage_for_task d p k")
      case (Some u)
      then have u: "u \<in> set (usages d)" "usage_by_id d (bu_id u) = Some u"
        using usage_for_task_Some [OF inv] usage_by_id_Some [OF inv] by auto
      then have "bu_id u \<noteq> ''''" using ne by (metis image_eqI)
      with u Some ok Inr strip p show ?thesis
        by (auto simp: db_reserve_def mem_reserve_def Let_def db_reserve_once_def replay_of_def
            validate_replay_def mem_of_record map_of_index py_falsy_def mem_of_def [of d]
            usage_for_task_def mem_record_def row_where_map usage_by_id_def db_reservation_def)
    next
      case None
      let ?u = "hold_usage env b k role n st"
      have u: "bu_id ?u = be_id env" "bu_provider ?u = p" "bu_task_id ?u = k"
        by (simp_all add: hold_usage_def b(2))
      have index: "map_of (mb_task_index (mem_of d)) (p, k) = None"
        using None by (simp add: mem_of_def map_of_index usage_for_task_def)
      have rec: "0 < n \<Longrightarrow> n \<le> budget_remaining b \<Longrightarrow> as_record ?u =
          \<lparr>br_id = be_id env, br_provider = p, br_task_id = k, br_task_role = role,
           br_estimated_cost = n, br_actual_cost = None, br_status = st,
           br_remaining = budget_remaining b - n, br_created_at = be_now env,
           br_updated_at = be_now env, br_acquired = True\<rparr>"
        by (auto simp: hold_usage_def db_reservation_def b(2) budget_remaining_def)
      have snap: "mem_snapshot (mem_of d) p = db_snapshot b" "pb_routing_enabled b = (budget_remaining b > 0)"
        using mem_of_snapshot [OF inv b(1)] b inv by (auto simp: budget_inv_def budget_ok_def)
      have hold: "mem_of (hold_state d b n ?u) = (mem_put (mem_of d) (as_record ?u))\<lparr>mb_task_index :=
          AList.update (p, k) (be_id env) (mb_task_index (mem_put (mem_of d) (as_record ?u)))\<rparr>"
        using mem_of_hold [OF inv b(1), of ?u n] id None u by simp
      show ?thesis
        using ok Inr strip p index snap hold rec db_reserve_once_fresh [OF inv None None b ok(3) id]
        by (auto simp: db_reserve_def mem_reserve_def Let_def py_falsy_def db_snapshot_def)
    qed
  qed
qed

section \<open>Sequences of calls on the interface\<close>

datatype budget_call =
    ReserveCall budget_env string string string rat string
  | SettleCall int string "rat option" string
  | ReleaseCall int string

type_synonym 's reserve_op =
  "budget_env \<Rightarrow> 's \<Rightarrow> string \<Rightarrow> string \<Rightarrow> string \<Rightarrow> rat \<Rightarrow> string \<Rightarrow> budget_error + budget_reservation \<times> 's"
type_synonym 's settle_op =
  "int \<Rightarrow> 's \<Rightarrow> string \<Rightarrow> rat option \<Rightarrow> string \<Rightarrow> budget_error + budget_reservation \<times> 's"
type_synonym 's release_op = "int \<Rightarrow> 's \<Rightarrow> string \<Rightarrow> budget_error + budget_reservation \<times> 's"

fun budget_step ::
  "'s reserve_op \<Rightarrow> 's settle_op \<Rightarrow> 's release_op \<Rightarrow> 's \<Rightarrow> budget_call \<Rightarrow>
   budget_error + budget_reservation \<times> 's" where
  "budget_step reserve settle release s (ReserveCall env p k role c st) = reserve env s p k role c st"
| "budget_step reserve settle release s (SettleCall now i c st) = settle now s i c st"
| "budget_step reserve settle release s (ReleaseCall now i) = release now s i"

text \<open>A call that raises leaves the state; the answers are collected with the state reached.\<close>

fun budget_run ::
  "('s \<Rightarrow> budget_call \<Rightarrow> budget_error + budget_reservation \<times> 's) \<Rightarrow> budget_call list \<Rightarrow> 's \<Rightarrow>
   (error_class + budget_reservation) list \<times> 's" where
  "budget_run step [] s = ([], s)"
| "budget_run step (c # cs) s =
     (case step s c of
        Inl e \<Rightarrow> (let (rs, t) = budget_run step cs s in (Inl (classify e) # rs, t))
      | Inr (r, s') \<Rightarrow> (let (rs, t) = budget_run step cs s' in (Inr r # rs, t)))"

fun call_ids :: "budget_call list \<Rightarrow> string list" where
  "call_ids [] = []"
| "call_ids (ReserveCall env p k role c st # cs) = be_id env # call_ids cs"
| "call_ids (_ # cs) = call_ids cs"

definition exposure :: "budget_snapshot \<Rightarrow> int" where
  "exposure sn = sn_actual_cost sn + sn_reserved_cost sn"

section \<open>The contract of a budget repository\<close>

text \<open>
  \<open>overrun s p\<close> is what the settled charges of a provider cost above their estimates, the one way
  spend can pass the ceiling: a charge that really happened is recorded, whatever was estimated.
\<close>

definition spend_ok :: "('s \<Rightarrow> string \<Rightarrow> budget_error + budget_snapshot) \<Rightarrow> ('s \<Rightarrow> string \<Rightarrow> int) \<Rightarrow> 's \<Rightarrow> bool" where
  "spend_ok get overrun s \<longleftrightarrow>
     (\<forall>p a. get s p = Inr a \<longrightarrow> exposure a \<le> sn_credit_budget a + overrun s p)"

definition spend_step ::
  "('s \<Rightarrow> string \<Rightarrow> budget_error + budget_snapshot) \<Rightarrow> ('s \<Rightarrow> string \<Rightarrow> int) \<Rightarrow> 's \<Rightarrow> 's \<Rightarrow> bool" where
  "spend_step get overrun s t \<longleftrightarrow>
     (\<forall>p b. get t p = Inr b \<longrightarrow> exposure b \<le> sn_credit_budget b \<or>
        (\<exists>a. get s p = Inr a \<and> sn_credit_budget a = sn_credit_budget b \<and>
          exposure b - overrun t p \<le> exposure a - overrun s p))"

lemma spend_step_ok:
  assumes "spend_ok get overrun s" and "spend_step get overrun s t" and "\<And>p. 0 \<le> overrun t p"
  shows "spend_ok get overrun t"
  unfolding spend_ok_def
proof (intro allI impI)
  fix p b
  assume "get t p = Inr b"
  with assms(2) consider "exposure b \<le> sn_credit_budget b"
    | a where "get s p = Inr a" "sn_credit_budget a = sn_credit_budget b"
        "exposure b - overrun t p \<le> exposure a - overrun s p"
    unfolding spend_step_def by blast
  then show "exposure b \<le> sn_credit_budget b + overrun t p"
    using assms(1) assms(3) [of p] by cases (fastforce simp: spend_ok_def)+
qed

locale budget_repository =
  fixes get :: "'s \<Rightarrow> string \<Rightarrow> budget_error + budget_snapshot"
    and reserve :: "'s reserve_op"
    and settle :: "'s settle_op"
    and release :: "'s release_op"
    and inv :: "'s \<Rightarrow> bool"
    and ids :: "'s \<Rightarrow> string set"
    and overrun :: "'s \<Rightarrow> string \<Rightarrow> int"
  assumes overrun_nonneg: "inv s \<Longrightarrow> 0 \<le> overrun s p"
    and reserve_law: "inv s \<Longrightarrow> be_id env \<notin> ids s \<Longrightarrow> reserve env s p k role c st = Inr (r, t) \<Longrightarrow>
      inv t \<and> ids t \<subseteq> insert (be_id env) (ids s) \<and> spend_step get overrun s t"
    and settle_law: "inv s \<Longrightarrow> settle now s i a st = Inr (r, t) \<Longrightarrow>
      inv t \<and> ids t \<subseteq> ids s \<and> spend_step get overrun s t"
    and release_law: "inv s \<Longrightarrow> release now s i = Inr (r, t) \<Longrightarrow>
      inv t \<and> ids t \<subseteq> ids s \<and> spend_step get overrun s t"
begin

lemma step_law:
  assumes "budget_step reserve settle release s c = Inr (r, t)" and "inv s" and "spend_ok get overrun s"
    and "set (call_ids [c]) \<inter> ids s = {}"
  shows "inv t \<and> spend_ok get overrun t \<and> ids t \<subseteq> set (call_ids [c]) \<union> ids s"
proof -
  have "inv t \<and> ids t \<subseteq> set (call_ids [c]) \<union> ids s \<and> spend_step get overrun s t"
  proof (cases c)
    case (ReserveCall env p k role x st)
    then show ?thesis using assms(1,2,4) reserve_law [of s env p k role x st r t] by simp
  next
    case (SettleCall now i x st)
    then show ?thesis using assms(1,2) settle_law [of s now i x st r t] by simp
  next
    case (ReleaseCall now i)
    then show ?thesis using assms(1,2) release_law [of s now i r t] by simp
  qed
  then show ?thesis using spend_step_ok [OF assms(3), of t] overrun_nonneg [of t] by simp
qed

lemma run_law:
  assumes "inv s" and "spend_ok get overrun s" and "distinct (call_ids cs)"
    and "set (call_ids cs) \<inter> ids s = {}"
    and "budget_run (budget_step reserve settle release) cs s = (rs, t)"
  shows "inv t \<and> spend_ok get overrun t"
  using assms
proof (induction cs arbitrary: s rs)
  case (Cons c cs)
  have ids: "set (call_ids (c # cs)) = set (call_ids [c]) \<union> set (call_ids cs)"
    "distinct (call_ids cs)" "set (call_ids [c]) \<inter> set (call_ids cs) = {}"
    using Cons.prems(3) by (cases c; auto)+
  show ?case
  proof (cases "budget_step reserve settle release s c")
    case (Inl e)
    then obtain rs' where "budget_run (budget_step reserve settle release) cs s = (rs', t)"
      using Cons.prems(5) by (auto split: prod.split_asm)
    with Cons.prems(1,2,4) ids show ?thesis by (intro Cons.IH) auto
  next
    case (Inr rt)
    obtain r s' where rt: "rt = (r, s')" by fastforce
    then obtain rs' where run: "budget_run (budget_step reserve settle release) cs s' = (rs', t)"
      using Cons.prems(5) Inr by (auto split: prod.split_asm)
    have "inv s' \<and> spend_ok get overrun s' \<and> ids s' \<subseteq> set (call_ids [c]) \<union> ids s"
      using Inr rt Cons.prems(1,2,4) ids(1) by (intro step_law) auto
    with run Cons.prems(4) ids show ?thesis by (intro Cons.IH) auto
  qed
qed simp

end

section \<open>The in-memory repository keeps the contract\<close>

definition record_ok :: "budget_reservation \<Rightarrow> bool" where
  "record_ok r \<longleftrightarrow> br_estimated_cost r > 0 \<and>
     (br_status r \<in> {RESERVED, UNCERTAIN, RELEASED} \<and> br_actual_cost r = None \<or>
      br_status r = SETTLED \<and> (case br_actual_cost r of None \<Rightarrow> False | Some c \<Rightarrow> c \<ge> 0))"

definition mem_inv :: "memory_budget \<Rightarrow> bool" where
  "mem_inv m \<longleftrightarrow> distinct (map br_id (mb_records m)) \<and> (\<forall>r \<in> set (mb_records m). record_ok r)"

definition record_overrun :: "string \<Rightarrow> budget_reservation \<Rightarrow> int" where
  "record_overrun p r =
     (if br_provider r = p \<and> br_status r = SETTLED
      then max 0 (the (br_actual_cost r) - br_estimated_cost r) else 0)"

definition mem_overrun :: "memory_budget \<Rightarrow> string \<Rightarrow> int" where
  "mem_overrun m p = tally (record_overrun p) (mb_records m)"

definition mem_ids :: "memory_budget \<Rightarrow> string set" where
  "mem_ids m = br_id ` set (mb_records m)"

definition record_load :: "string \<Rightarrow> budget_reservation \<Rightarrow> int" where
  "record_load p r = held_cost p r + spent_cost p r - record_overrun p r"

lemma exposure_less_overrun:
  "exposure (mem_snapshot m p) - mem_overrun m p = tally (record_load p) (mb_records m)"
proof -
  have "tally (spent_cost p) rs + tally (held_cost p) rs - tally (record_overrun p) rs =
      tally (record_load p) rs" for rs
    by (induction rs) (auto simp: record_load_def)
  then show ?thesis by (simp add: exposure_def mem_snapshot_def Let_def mem_overrun_def)
qed

text \<open>
  A row carries its provider's estimate while it is open; what it carries never grows afterwards.
\<close>

lemma record_load_bounds:
  assumes "record_ok r"
  shows "record_load p r \<le> (if br_provider r = p then br_estimated_cost r else 0)"
    and "br_status r \<in> {RESERVED, UNCERTAIN} \<Longrightarrow>
      record_load p r = (if br_provider r = p then br_estimated_cost r else 0)"
  using assms
  by (auto simp: record_load_def record_ok_def held_cost_def spent_cost_def record_overrun_def
      split: option.splits)

definition mem_limit :: "memory_budget \<Rightarrow> string \<Rightarrow> int" where
  "mem_limit m p = (case map_of (mb_limits m) p of None \<Rightarrow> 0 | Some l \<Rightarrow> l)"

lemma mem_snapshot_limit [simp]: "sn_credit_budget (mem_snapshot m p) = mem_limit m p"
  by (simp add: mem_snapshot_def mem_limit_def Let_def)

lemma mem_limit_cong: "mb_limits m = mb_limits m' \<Longrightarrow> mem_limit m p = mem_limit m' p"
  by (simp add: mem_limit_def)

lemma mem_spend_step:
  assumes "mb_limits t = mb_limits m"
    and "\<And>p. exposure (mem_snapshot t p) \<le> mem_limit t p \<or>
      tally (record_load p) (mb_records t) \<le> tally (record_load p) (mb_records m)"
  shows "spend_step mem_get mem_overrun m t"
proof -
  have "mem_limit t p = mem_limit m p" for p using assms(1) by (rule mem_limit_cong)
  with assms(2) exposure_less_overrun show ?thesis
    by (simp add: spend_step_def mem_get_def)
qed

lemma mem_hold_law:
  fixes ix :: "((string \<times> string) \<times> string) list"
  assumes inv: "mem_inv m" and id: "br_id r \<notin> mem_ids m" and ok: "record_ok r"
    and st: "br_status r \<in> {RESERVED, UNCERTAIN}"
    and fits: "br_estimated_cost r \<le> sn_remaining (mem_snapshot m (br_provider r))"
  defines "t \<equiv> (mem_put m r)\<lparr>mb_task_index := ix\<rparr>"
  shows "mem_inv t \<and> mem_ids t = insert (br_id r) (mem_ids m) \<and> mb_limits t = mb_limits m \<and>
    spend_step mem_get mem_overrun m t"
proof -
  have "mem_record m (br_id r) = None"
    using id unfolding mem_record_def mem_ids_def row_where_def find_None_iff by (metis image_eqI)
  then have t: "mb_records t = mb_records m @ [r]" "mb_limits t = mb_limits m"
    by (simp_all add: t_def mem_put_def)
  have pos: "0 < br_estimated_cost r" using ok by (simp add: record_ok_def)
  have spent: "spent_cost p r = 0" and held: "held_cost p r = (if br_provider r = p
      then br_estimated_cost r else 0)" for p
    using st by (auto simp: spent_cost_def held_cost_def)
  have "exposure (mem_snapshot t p) \<le> mem_limit t p" if p: "p = br_provider r" for p
  proof -
    have "exposure (mem_snapshot t p) = exposure (mem_snapshot m p) + br_estimated_cost r"
      by (simp add: exposure_def mem_snapshot_def Let_def t spent held p)
    moreover have "br_estimated_cost r \<le> mem_limit m p - exposure (mem_snapshot m p)"
      using fits pos by (auto simp: p exposure_def mem_snapshot_def Let_def mem_limit_def max_def
          split: if_splits)
    ultimately show ?thesis using mem_limit_cong [OF t(2), of p] by simp
  qed
  moreover have "tally (record_load p) (mb_records t) = tally (record_load p) (mb_records m)"
    if "p \<noteq> br_provider r" for p
    using that record_load_bounds(2) [OF ok st, of p] by (simp add: t)
  ultimately have "spend_step mem_get mem_overrun m t"
    using t(2) by (intro mem_spend_step) (blast intro: eq_refl)+
  with inv id ok show ?thesis by (simp add: t mem_inv_def mem_ids_def)
qed

lemma mem_put_law:
  assumes inv: "mem_inv m" and r: "r \<in> set (mb_records m)" "br_status r \<in> {RESERVED, UNCERTAIN}"
    and x: "br_id x = br_id r" "br_provider x = br_provider r"
      "br_estimated_cost x = br_estimated_cost r" "record_ok x"
  defines "t \<equiv> mem_put m x"
  shows "mem_inv t \<and> mem_ids t = mem_ids m \<and> mb_limits t = mb_limits m \<and>
    spend_step mem_get mem_overrun m t"
proof -
  have d: "distinct (map br_id (mb_records m))" and ok: "record_ok r"
    using inv r by (auto simp: mem_inv_def)
  have mem: "mem_record m (br_id x) \<noteq> None"
    using row_where_key [OF d r(1)] x(1) by (simp add: mem_record_def)
  have recs: "mb_records t = update_where (\<lambda>y. br_id y = br_id r) (\<lambda>_. x) (mb_records m)"
    and lim: "mb_limits t = mb_limits m"
    using mem_put_update [OF mem] x(1) by (simp_all add: t_def)
  have "tally (record_load p) (mb_records t) \<le> tally (record_load p) (mb_records m)" for p
    using tally_update_single [OF d r(1), of "record_load p" "\<lambda>_. x"] recs x
      record_load_bounds(1) [OF x(4), of p] record_load_bounds(2) [OF ok r(2), of p]
    by (simp split: if_splits)
  then have "spend_step mem_get mem_overrun m t" using lim by (intro mem_spend_step) auto
  moreover have same: "map br_id (mb_records t) = map br_id (mb_records m)"
    unfolding recs update_where_def using x(1) by auto
  moreover have "mem_inv t"
    unfolding mem_inv_def same using inv x by (auto simp: mem_inv_def recs set_update_where)
  moreover have "mem_ids t = mem_ids m"
    unfolding mem_ids_def using same by (metis list.set_map)
  ultimately show ?thesis using lim by simp
qed

lemma mem_move_law:
  assumes inv: "mem_inv m" and r: "r \<in> set (mb_records m)" "br_status r \<in> {RESERVED, UNCERTAIN}"
    and r': "br_id r' = br_id r" "br_provider r' = br_provider r"
      "br_estimated_cost r' = br_estimated_cost r" "record_ok r'"
    and run: "mem_move m r' = Inr (x, t)"
  shows "mem_inv t \<and> mem_ids t = mem_ids m \<and> mb_limits t = mb_limits m \<and>
    spend_step mem_get mem_overrun m t"
proof -
  have "distinct (map br_id (mb_records m))" using inv by (simp add: mem_inv_def)
  then have "mem_record m (br_id r') \<noteq> None"
    using row_where_key [of br_id "mb_records m" r] r(1) r'(1) by (simp add: mem_record_def)
  then have t: "t = mem_put m x" and x: "x = r'\<lparr>br_remaining := br_remaining x\<rparr>"
    using run mem_put_twice by (auto simp: mem_move_def Let_def)
  have "br_id x = br_id r" "br_provider x = br_provider r" "br_estimated_cost x = br_estimated_cost r"
    "record_ok x"
    using r' by (subst x; simp add: record_ok_def)+
  with inv r show ?thesis unfolding t by (rule mem_put_law)
qed

lemma spend_step_refl [simp]: "spend_step mem_get mem_overrun m m"
  by (intro mem_spend_step) auto

lemma mem_record_SomeD: "mem_record m i = Some r \<Longrightarrow> r \<in> set (mb_records m)"
  unfolding mem_record_def by (drule row_where_SomeD) simp

lemma mem_settle_law:
  assumes inv: "mem_inv m" and run: "mem_settle now m i c st = Inr (x, t)"
  shows "mem_inv t \<and> mem_ids t = mem_ids m \<and> mb_limits t = mb_limits m \<and>
    spend_step mem_get mem_overrun m t"
proof -
  from run obtain a where a: "check_settlement c st = Inr a" by (auto simp: mem_settle_def res_simps)
  from run a obtain r where get: "mem_record m i = Some r"
    by (cases "mem_record m i") (auto simp: mem_settle_def)
  have r: "r \<in> set (mb_records m)" using get by (rule mem_record_SomeD)
  then have ok: "record_ok r" using inv by (simp add: mem_inv_def)
  consider "t = m"
    | (settled) "br_status r \<in> {RESERVED, UNCERTAIN}" "st = SETTLED"
      "mem_move m (r\<lparr>br_actual_cost := a, br_status := SETTLED, br_updated_at := now\<rparr>) = Inr (x, t)"
    | (uncertain) "br_status r \<in> {RESERVED, UNCERTAIN}" "st = UNCERTAIN"
      "mem_move m (r\<lparr>br_actual_cost := a, br_status := UNCERTAIN, br_updated_at := now\<rparr>) = Inr (x, t)"
    using run a get check_settlement_InrD [OF a]
    by (auto simp: mem_settle_def split: if_split_asm)
  then show ?thesis
  proof cases
    case settled
    with check_settlement_InrD [OF a] ok show ?thesis
      by (intro mem_move_law [OF inv r settled(1) _ _ _ _ settled(3)]) (auto simp: record_ok_def)
  next
    case uncertain
    with check_settlement_InrD [OF a] ok show ?thesis
      by (intro mem_move_law [OF inv r uncertain(1) _ _ _ _ uncertain(3)]) (auto simp: record_ok_def)
  qed (use inv in simp)
qed

lemma mem_release_law:
  assumes inv: "mem_inv m" and run: "mem_release now m i = Inr (x, t)"
  shows "mem_inv t \<and> mem_ids t = mem_ids m \<and> mb_limits t = mb_limits m \<and>
    spend_step mem_get mem_overrun m t"
proof -
  from run obtain r where get: "mem_record m i = Some r"
    by (cases "mem_record m i") (auto simp: mem_release_def)
  have r: "r \<in> set (mb_records m)" using get by (rule mem_record_SomeD)
  then have ok: "record_ok r" using inv by (simp add: mem_inv_def)
  consider "t = m" | (released) "br_status r = RESERVED"
      "mem_move m (r\<lparr>br_status := RELEASED, br_updated_at := now\<rparr>) = Inr (x, t)"
    using run get by (auto simp: mem_release_def split: if_split_asm)
  then show ?thesis
  proof cases
    case released
    with ok show ?thesis
      by (intro mem_move_law [OF inv r _ _ _ _ _ released(2)]) (auto simp: record_ok_def)
  qed (use inv in simp)
qed

lemma mem_reserve_law:
  assumes inv: "mem_inv m" and id: "be_id env \<notin> mem_ids m"
    and run: "mem_reserve env m p k role c st = Inr (x, t)"
  shows "mem_inv t \<and> mem_ids t \<subseteq> insert (be_id env) (mem_ids m) \<and> spend_step mem_get mem_overrun m t"
proof -
  from run obtain n where n: "money c = Inr n" by (auto simp: mem_reserve_def res_simps)
  let ?r = "\<lparr>br_id = be_id env, br_provider = p, br_task_id = k, br_task_role = role,
    br_estimated_cost = n, br_actual_cost = None, br_status = st,
    br_remaining = sn_remaining (mem_snapshot m p) - n, br_created_at = be_now env,
    br_updated_at = be_now env, br_acquired = True\<rparr>"
  have st: "st \<in> {RESERVED, UNCERTAIN}" and pos: "0 < n"
    using run n by (auto simp: mem_reserve_def split: if_split_asm)
  consider "t = m" | (held) ix where "record_ok ?r" "br_status ?r \<in> {RESERVED, UNCERTAIN}"
      "n \<le> sn_remaining (mem_snapshot m p)" "t = (mem_put m ?r)\<lparr>mb_task_index := ix\<rparr>"
  proof (cases "py_falsy (map_of (mb_task_index m) (p, k))")
    case False
    with run n have "t = m"
      by (simp add: mem_reserve_def split: if_split_asm option.split_asm)
    then show ?thesis by (rule that(1))
  next
    case True
    with run n have "n \<le> sn_remaining (mem_snapshot m p)" and "\<exists>ix. t = (mem_put m ?r)\<lparr>mb_task_index := ix\<rparr>"
      by (auto simp: mem_reserve_def Let_def split: if_split_asm)
    with st pos show ?thesis using that(2) by (auto simp: record_ok_def)
  qed
  then show ?thesis
  proof cases
    case held
    have "br_id ?r \<notin> mem_ids m" using id by simp
    then have "mem_inv t \<and> mem_ids t = insert (br_id ?r) (mem_ids m) \<and> mb_limits t = mb_limits m \<and>
        spend_step mem_get mem_overrun m t"
      unfolding held(4) by (rule mem_hold_law [OF inv _ held(1,2)]) (use held(3) in simp)
    then show ?thesis by simp
  qed (use inv in auto)
qed

lemma mem_overrun_nonneg: "0 \<le> mem_overrun m p"
  unfolding mem_overrun_def by (rule tally_nonneg) (simp add: record_overrun_def)

interpretation memory: budget_repository mem_get mem_reserve mem_settle mem_release mem_inv mem_ids mem_overrun
proof unfold_locales
  show "0 \<le> mem_overrun s p" for s p by (rule mem_overrun_nonneg)
  show "mem_inv t \<and> mem_ids t \<subseteq> insert (be_id env) (mem_ids s) \<and> spend_step mem_get mem_overrun s t"
    if "mem_inv s" "be_id env \<notin> mem_ids s" "mem_reserve env s p k role c st = Inr (r, t)"
    for s env p k role c st r t
    using that by (rule mem_reserve_law)
  show "mem_inv t \<and> mem_ids t \<subseteq> mem_ids s \<and> spend_step mem_get mem_overrun s t"
    if "mem_inv s" "mem_settle now s i a st = Inr (r, t)" for s now i a st r t
    using mem_settle_law [OF that] by simp
  show "mem_inv t \<and> mem_ids t \<subseteq> mem_ids s \<and> spend_step mem_get mem_overrun s t"
    if "mem_inv s" "mem_release now s i = Inr (r, t)" for s now i r t
    using mem_release_law [OF that] by simp
qed

section \<open>The database repository keeps the contract\<close>

definition db_overrun :: "budget_db \<Rightarrow> string \<Rightarrow> int" where
  "db_overrun d p = mem_overrun (mem_of d) p"

definition db_ids :: "budget_db \<Rightarrow> string set" where
  "db_ids d = bu_id ` set (usages d)"

text \<open>A reservation that no other session interferes with.\<close>

definition db_reserve_alone :: "budget_db reserve_op" where
  "db_reserve_alone env d = db_reserve env d d d"

lemma mem_of_inv: "budget_inv d \<Longrightarrow> mem_inv (mem_of d)"
  by (auto simp: mem_inv_def mem_of_def budget_inv_def comp_def record_ok_def usage_ok_def)

lemma db_get_Inr:
  assumes "budget_inv d"
  shows "db_get d p = Inr a \<longleftrightarrow> (\<exists>b \<in> set (budgets d). pb_provider b = p \<and> a = db_snapshot b)"
proof -
  have "db_get d p = Inr a \<longleftrightarrow> (\<exists>b. budget_of d p = Some b \<and> a = db_snapshot b)"
    by (cases "budget_of d p") (auto simp: db_get_def)
  then show ?thesis unfolding budget_of_Some [OF assms] by blast
qed

lemma db_spend_step:
  assumes inv: "budget_inv d" "budget_inv e" and lim: "mb_limits (mem_of e) = mb_limits (mem_of d)"
    and step: "spend_step mem_get mem_overrun (mem_of d) (mem_of e)"
  shows "spend_step db_get db_overrun d e"
  unfolding spend_step_def
proof (intro allI impI)
  fix p sn
  assume "db_get e p = Inr sn"
  then obtain b where b: "b \<in> set (budgets e)" "pb_provider b = p" "sn = db_snapshot b"
    using db_get_Inr [OF inv(2)] by blast
  have "p \<in> fst ` set (mb_limits (mem_of e))" using b by (force simp: mem_of_def)
  then obtain a where a: "a \<in> set (budgets d)" "pb_provider a = p"
    unfolding lim by (auto simp: mem_of_def)
  have "mem_get (mem_of e) p = Inr sn" "mem_get (mem_of d) p = Inr (db_snapshot a)"
    using mem_of_snapshot [OF inv(2) b(1)] mem_of_snapshot [OF inv(1) a(1)] a b
    by (simp_all add: mem_get_def)
  moreover have "db_get d p = Inr (db_snapshot a)" using db_get_Inr [OF inv(1)] a by blast
  ultimately show "exposure sn \<le> sn_credit_budget sn \<or>
      (\<exists>a. db_get d p = Inr a \<and> sn_credit_budget a = sn_credit_budget sn \<and>
        exposure sn - db_overrun e p \<le> exposure a - db_overrun d p)"
    using step unfolding spend_step_def db_overrun_def by (metis sum.inject(2))
qed

lemma db_move_law:
  assumes inv: "budget_inv d" and u: "u \<in> set (usages d)" "open_usage u"
    and b: "b \<in> set (budgets d)" "pb_id b = bu_budget_id u" and move: "budget_move b u b' u'"
  defines "e \<equiv> set_usage (set_budget d b') u'"
  shows "budget_inv e \<and> db_ids e = db_ids d \<and> spend_step db_get db_overrun d e"
proof -
  have e: "mem_of e = mem_put (mem_of d) (as_record u')"
    unfolding e_def using mem_of_moved [OF inv u(1) b(1) move] by simp
  have "as_record u \<in> set (mb_records (mem_of d))" using u by (simp add: mem_of_def)
  moreover have "bu_id u' = bu_id u" "bu_provider u' = bu_provider u"
    "bu_estimated_cost u' = bu_estimated_cost u" "usage_ok u'"
    using move by (auto simp: budget_move_def usage_keeps_def)
  ultimately have law: "mem_ids (mem_of e) = mem_ids (mem_of d)"
    "mb_limits (mem_of e) = mb_limits (mem_of d)"
    "spend_step mem_get mem_overrun (mem_of d) (mem_of e)"
    using mem_put_law [OF mem_of_inv [OF inv], of "as_record u" "as_record u'"] u(2)
    unfolding e by (simp_all add: record_ok_def usage_ok_def)
  have inve: "budget_inv e" unfolding e_def by (rule budget_move_inv(1) [OF inv u(1) b move])
  have "db_ids x = mem_ids (mem_of x)" for x by (simp add: db_ids_def mem_ids_def mem_of_def image_image)
  with law inve db_spend_step [OF inv inve] show ?thesis by simp
qed

lemma db_spend_refl [simp]: "spend_step db_get db_overrun d d"
  by (auto simp: spend_step_def)

lemma db_reserve_law:
  assumes inv: "budget_inv t" and run: "db_reserve env s t t p k role c st = Inr (r, e)"
  shows "budget_inv e \<and> db_ids e \<subseteq> insert (be_id env) (db_ids t) \<and> spend_step db_get db_overrun t e"
  using run inv
proof (cases rule: db_reserve_cases)
  case (held b n)
  let ?u = "hold_usage env b (py_strip k) (py_strip role) n st"
  have u: "bu_id ?u = be_id env" "bu_provider ?u = pb_provider b" "bu_task_id ?u = py_strip k"
    by (simp_all add: hold_usage_def)
  have inve: "budget_inv e"
    unfolding held(10) using hold_state_inv(1) [OF inv held(4,2,7,3)] held(5,8) by simp
  obtain ix where e: "mem_of e = (mem_put (mem_of t) (as_record ?u))\<lparr>mb_task_index := ix\<rparr>"
    unfolding held(10) using mem_of_hold [OF inv held(4), of ?u n] held(5,7,8) u by simp
  have "br_id (as_record ?u) \<notin> mem_ids (mem_of t)"
    using held(7) u by (simp add: mem_ids_def mem_of_def image_image)
  moreover have "record_ok (as_record ?u)" "br_status (as_record ?u) \<in> {RESERVED, UNCERTAIN}"
    using held(2,3) by (auto simp: record_ok_def hold_usage_def db_reservation_def)
  moreover have "br_estimated_cost (as_record ?u) \<le>
      sn_remaining (mem_snapshot (mem_of t) (br_provider (as_record ?u)))"
    using mem_of_snapshot [OF inv held(4)] held(6) by (simp add: hold_usage_def db_snapshot_def)
  ultimately have "mb_limits (mem_of e) = mb_limits (mem_of t)"
    "spend_step mem_get mem_overrun (mem_of t) (mem_of e)"
    unfolding e using mem_hold_law [OF mem_of_inv [OF inv]] by blast+
  moreover have "db_ids e = insert (be_id env) (db_ids t)"
    unfolding held(10) by (auto simp: db_ids_def hold_state_def hold_usage_def)
  ultimately show ?thesis using inve db_spend_step [OF inv inve] by simp
qed (use inv in auto)

lemma db_settle_law:
  assumes "budget_inv d" and "db_settle now d i c st = Inr (r, e)"
  shows "budget_inv e \<and> db_ids e \<subseteq> db_ids d \<and> spend_step db_get db_overrun d e"
  using assms(2,1)
proof (cases rule: db_settle_cases)
  case (moved u b b' u')
  then show ?thesis using db_move_law [OF assms(1) moved(1,2,4,5,6)] by simp
qed (use assms in simp)

lemma db_release_law:
  assumes "budget_inv d" and "db_release now d i = Inr (r, e)"
  shows "budget_inv e \<and> db_ids e \<subseteq> db_ids d \<and> spend_step db_get db_overrun d e"
  using assms(2,1)
proof (cases rule: db_release_cases)
  case (moved u b b' u')
  then show ?thesis using db_move_law [OF assms(1) moved(1,2,4,5,6)] by simp
qed (use assms in simp)

lemma db_overrun_nonneg: "0 \<le> db_overrun d p"
  by (simp add: db_overrun_def mem_overrun_nonneg)

interpretation database: budget_repository db_get db_reserve_alone db_settle db_release budget_inv
  db_ids db_overrun
proof unfold_locales
  show "0 \<le> db_overrun s p" for s p by (rule db_overrun_nonneg)
  show "budget_inv t \<and> db_ids t \<subseteq> insert (be_id env) (db_ids s) \<and> spend_step db_get db_overrun s t"
    if "budget_inv s" "db_reserve_alone env s p k role c st = Inr (r, t)" for s env p k role c st r t
    using db_reserve_law [OF that(1)] that(2) by (simp add: db_reserve_alone_def)
  show "budget_inv t \<and> db_ids t \<subseteq> db_ids s \<and> spend_step db_get db_overrun s t"
    if "budget_inv s" "db_settle now s i a st = Inr (r, t)" for s now i a st r t
    using that by (rule db_settle_law)
  show "budget_inv t \<and> db_ids t \<subseteq> db_ids s \<and> spend_step db_get db_overrun s t"
    if "budget_inv s" "db_release now s i = Inr (r, t)" for s now i r t
    using that by (rule db_release_law)
qed

text \<open>With concurrent sessions, new budgets and reconciliation included.\<close>

lemma budget_txn_spend:
  assumes "budget_txn s t u" and inv: "budget_inv t"
  shows "spend_step db_get db_overrun t u"
  using assms(1)
proof cases
  case (txn_ensure env p c sn)
  have inv': "budget_inv u" using db_ensure_step [OF txn_ensure inv] by simp
  show ?thesis
  proof (cases "u = t")
    case False
    then obtain b where u: "u = t\<lparr>budgets := budgets t @ [b]\<rparr>" "pb_actual_cost b = 0"
      "pb_reserved_cost b = 0" "0 \<le> pb_credit_budget b"
      using txn_ensure by (auto simp: db_ensure_def Let_def res_simps split: if_split_asm option.split_asm)
    then have "exposure (db_snapshot b) \<le> sn_credit_budget (db_snapshot b)"
      by (simp add: exposure_def db_snapshot_def)
    moreover have "db_overrun u p = db_overrun t p" for p
      by (simp add: u db_overrun_def mem_overrun_def mem_of_def)
    ultimately show ?thesis
      unfolding spend_step_def db_get_Inr [OF inv'] db_get_Inr [OF inv] by (auto simp: u)
  qed simp
next
  case (txn_reserve env p k role c st r)
  then show ?thesis using db_reserve_law [OF inv] by blast
next
  case (txn_settle now i c st r)
  then show ?thesis using db_settle_law [OF inv] by blast
next
  case (txn_release now i r)
  then show ?thesis using db_release_law [OF inv] by blast
next
  case (txn_reconcile env i a c k reason ev rc)
  then show ?thesis using inv
  proof (cases rule: reconcile_cases)
    case (moved v b b' v' x actual)
    let ?e = "set_usage (set_budget t b') v'"
    have "open_usage v" using moved(2) by simp
    then have "spend_step db_get db_overrun t ?e"
      using db_move_law [OF inv moved(1) _ moved(5,6,7)] by blast
    moreover have "db_get u = db_get ?e" "db_overrun u = db_overrun ?e"
      by (simp_all add: fun_eq_iff moved(16) db_get_def budget_of_def db_overrun_def mem_of_def)
    ultimately show ?thesis by (simp add: spend_step_def)
  qed simp
qed

interpretation spend: optimistic_txn budget_txn
  "\<lambda>d. budget_inv d \<and> spend_ok db_get db_overrun d" budget_frame
proof unfold_locales
  show "budget_inv u \<and> spend_ok db_get db_overrun u"
    if "budget_inv t \<and> spend_ok db_get db_overrun t" "budget_txn s t u" for s t u
    using that budget_txn_step [OF that(2)] budget_txn_spend [OF that(2)]
      spend_step_ok [of db_get db_overrun t u] db_overrun_nonneg by blast
qed (auto intro: budget_frame_trans dest: budget_txn_step)

end
