(* ===== verification/Budget_Claims.thy ===== *)
theory Budget_Claims
  imports Budget_Properties
begin

text \<open>The properties of the provider budget, each with an application to concrete rows.\<close>

section \<open>Sequences of calls answered alike\<close>

fun call_ok :: "budget_db \<Rightarrow> budget_call \<Rightarrow> bool" where
  "call_ok d (ReserveCall env p k role c st) \<longleftrightarrow>
     py_strip p = p \<and> py_strip k = k \<and> py_strip role = role \<and> budget_of d p \<noteq> None \<and> be_id env \<noteq> ''''"
| "call_ok d _ \<longleftrightarrow> True"

abbreviation db_step :: "budget_db \<Rightarrow> budget_call \<Rightarrow> budget_error + budget_reservation \<times> budget_db" where
  "db_step \<equiv> budget_step db_reserve_alone db_settle db_release"

abbreviation mem_step :: "memory_budget \<Rightarrow> budget_call \<Rightarrow> budget_error + budget_reservation \<times> memory_budget" where
  "mem_step \<equiv> budget_step mem_reserve mem_settle mem_release"

lemma step_simulates:
  assumes "budget_inv d" and "call_ok d c" and "set (call_ids [c]) \<inter> db_ids d = {}" and "'''' \<notin> db_ids d"
  shows "same_answer (db_step d c) (mem_step (mem_of d) c)"
proof (cases c)
  case (ReserveCall env p k role x st)
  with assms show ?thesis by (auto simp: db_reserve_alone_def db_ids_def intro!: reserve_simulates)
qed (use assms in \<open>simp_all add: settle_simulates release_simulates\<close>)

lemma step_keeps:
  assumes "budget_inv d" and "db_step d c = Inr (r, e)" and "set (call_ids [c]) \<inter> db_ids d = {}"
  shows "budget_inv e \<and> db_ids e \<subseteq> set (call_ids [c]) \<union> db_ids d \<and> budget_frame d e"
proof -
  have "budget_txn d d e \<and> db_ids e \<subseteq> set (call_ids [c]) \<union> db_ids d"
  proof (cases c)
    case (ReserveCall env p k role x st)
    with assms(2) have run: "db_reserve env d d d p k role x st = Inr (r, e)"
      by (simp add: db_reserve_alone_def)
    show ?thesis
      using budget_txn.txn_reserve [OF run] db_reserve_law [OF assms(1) run] ReserveCall by simp
  next
    case (SettleCall now i x st)
    with assms(2) have run: "db_settle now d i x st = Inr (r, e)" by simp
    show ?thesis using budget_txn.txn_settle [OF run] db_settle_law [OF assms(1) run] SettleCall by simp
  next
    case (ReleaseCall now i)
    with assms(2) have run: "db_release now d i = Inr (r, e)" by simp
    show ?thesis using budget_txn.txn_release [OF run] db_release_law [OF assms(1) run] ReleaseCall by simp
  qed
  then show ?thesis using budget_txn_step assms(1) by blast
qed

lemma call_ok_frame:
  assumes "budget_frame d e" and "call_ok d c" and "budget_inv d" and "budget_inv e"
  shows "call_ok e c"
proof (cases c)
  case (ReserveCall env p k role x st)
  with assms(2) obtain b where "budget_of d p = Some b" by auto
  then have "b \<in> set (budgets d)" "pb_provider b = p" using budget_of_Some [OF assms(3)] by auto
  then obtain b' where "b' \<in> set (budgets e)" "pb_provider b' = p"
    using assms(1) by (auto simp: budget_frame_def budget_keeps_def)
  then have "budget_of e p = Some b'" using budget_of_Some [OF assms(4)] by auto
  with ReserveCall assms(2) show ?thesis by simp
qed simp_all

lemma call_ids_nonempty: "\<forall>c \<in> set cs. call_ok d c \<Longrightarrow> '''' \<notin> set (call_ids cs)"
  by (induction cs rule: call_ids.induct) auto

section \<open>A small installation\<close>

definition demo_env :: "string \<Rightarrow> int \<Rightarrow> budget_env" where
  "demo_env i n = \<lparr>be_id = i, be_now = n\<rparr>"

definition demo_budget :: budget_db where
  "demo_budget = \<lparr>budgets = [\<lparr>pb_id = ''b'', pb_provider = ''acme'', pb_credit_budget = 10000000,
     pb_actual_cost = 0, pb_reserved_cost = 0, pb_routing_enabled = True\<rparr>],
     usages = [], decisions = []\<rparr>"

definition demo_uncertain :: budget_db where
  "demo_uncertain = snd (projr
     (db_reserve (demo_env ''u1'' 1) demo_budget demo_budget demo_budget ''acme'' ''t1'' ''edge'' 4 UNCERTAIN))"

lemma demo_budget_inv: "budget_inv demo_budget"
  by code_simp

lemma demo_uncertain_run:
  "\<not> isl (db_reserve (demo_env ''u1'' 1) demo_budget demo_budget demo_budget ''acme'' ''t1'' ''edge'' 4
     UNCERTAIN)"
  by code_simp

lemma demo_uncertain_reached: "interleaved budget_txn demo_budget demo_uncertain"
proof -
  have "db_reserve (demo_env ''u1'' 1) demo_budget demo_budget demo_budget ''acme'' ''t1'' ''edge'' 4
     UNCERTAIN = Inr (fst (projr (db_reserve (demo_env ''u1'' 1) demo_budget demo_budget demo_budget
       ''acme'' ''t1'' ''edge'' 4 UNCERTAIN)), demo_uncertain)"
    using demo_uncertain_run by (simp add: demo_uncertain_def)
  then have "budget_txn demo_budget demo_budget demo_uncertain" by (rule budget_txn.txn_reserve)
  then show ?thesis by (rule interleaved.commit [OF interleaved.start interleaved.start])
qed

lemma demo_uncertain_inv: "budget_inv demo_uncertain"
  using demo_uncertain_reached demo_budget_inv by (rule budget.execution_inv)

section \<open>Properties\<close>

lemma stripped_run_simulates:
  assumes "budget_inv d" and "\<forall>c \<in> set cs. call_ok d c" and "distinct (call_ids cs)"
    and "set (call_ids cs) \<inter> db_ids d = {}" and "'''' \<notin> db_ids d"
  shows "fst (budget_run db_step cs d) = fst (budget_run mem_step cs (mem_of d)) \<and>
    mem_of (snd (budget_run db_step cs d)) = snd (budget_run mem_step cs (mem_of d))"
  using assms
proof (induction cs arbitrary: d)
  case (Cons c cs)
  have ids: "set (call_ids (c # cs)) = set (call_ids [c]) \<union> set (call_ids cs)"
    "distinct (call_ids cs)" "set (call_ids [c]) \<inter> set (call_ids cs) = {}"
    using Cons.prems(3) by (cases c; auto)+
  have sim: "same_answer (db_step d c) (mem_step (mem_of d) c)"
    using Cons.prems ids(1) by (intro step_simulates) auto
  show ?case
  proof (cases "db_step d c")
    case (Inl e)
    with sim obtain f where f: "mem_step (mem_of d) c = Inl f" "classify f = classify e"
      by (cases "mem_step (mem_of d) c") auto
    have "fst (budget_run db_step cs d) = fst (budget_run mem_step cs (mem_of d)) \<and>
      mem_of (snd (budget_run db_step cs d)) = snd (budget_run mem_step cs (mem_of d))"
      using Cons.prems ids by (intro Cons.IH) auto
    with Inl f show ?thesis by (simp add: split_beta Let_def)
  next
    case (Inr x)
    obtain r e where x: "x = (r, e)" by fastforce
    with sim Inr have m: "mem_step (mem_of d) c = Inr (r, mem_of e)"
      by (cases "mem_step (mem_of d) c") auto
    have keep: "budget_inv e \<and> db_ids e \<subseteq> set (call_ids [c]) \<union> db_ids d \<and> budget_frame d e"
      using Cons.prems(1,4) Inr x ids(1) by (intro step_keeps) auto
    have "fst (budget_run db_step cs e) = fst (budget_run mem_step cs (mem_of e)) \<and>
      mem_of (snd (budget_run db_step cs e)) = snd (budget_run mem_step cs (mem_of e))"
    proof (rule Cons.IH)
      show "\<forall>c \<in> set cs. call_ok e c"
        using keep Cons.prems(1,2) call_ok_frame by (metis list.set_intros(2))
      have "'''' \<notin> set (call_ids [c])" using Cons.prems(2) call_ids_nonempty [of "[c]" d] by simp
      with keep Cons.prems(5) show "'''' \<notin> db_ids e" by auto
      show "set (call_ids cs) \<inter> db_ids e = {}" using keep Cons.prems(4) ids by auto
    qed (use keep ids in auto)
    with Inr x m show ?thesis by (simp add: split_beta Let_def)
  qed
qed simp

text \<open>The database strips the names of a call; the memory takes them as they are.\<close>

fun strip_call :: "budget_call \<Rightarrow> budget_call" where
  "strip_call (ReserveCall env p k role c st) = ReserveCall env (py_strip p) (py_strip k) (py_strip role) c st"
| "strip_call c = c"

lemma db_step_strip: "db_step d (strip_call c) = db_step d c"
  by (cases c) (simp_all add: db_reserve_alone_def db_reserve_def)

lemma db_run_strip: "budget_run db_step (map strip_call cs) d = budget_run db_step cs d"
  by (induction cs arbitrary: d) (simp_all add: db_step_strip split: sum.split)

lemma call_ids_strip: "call_ids (map strip_call cs) = call_ids cs"
proof (induction cs)
  case (Cons c cs)
  then show ?case by (cases c) simp_all
qed simp

text \<open>
  C7. The database repository refines the in-memory one, on the calls both are written for: a sequence of
  reserve, settle and release calls whose providers have a budget and whose reservations get new, non-empty
  ids. The memory, called with the names stripped of their blanks, gives the same answer to each call (the
  same reservation, or an exception of the same class), and the database reached is mapped by the
  abstraction to the memory reached.\<close>

theorem database_refines_memory:
  assumes "budget_inv d" and "\<forall>c \<in> set cs. call_ok d (strip_call c)" and "distinct (call_ids cs)"
    and "set (call_ids cs) \<inter> db_ids d = {}" and "'''' \<notin> db_ids d"
  shows "fst (budget_run db_step cs d) = fst (budget_run mem_step (map strip_call cs) (mem_of d)) \<and>
    mem_of (snd (budget_run db_step cs d)) = snd (budget_run mem_step (map strip_call cs) (mem_of d))"
  using stripped_run_simulates [of d "map strip_call cs"] assms by (simp add: db_run_strip call_ids_strip)

definition demo_calls :: "budget_call list" where
  "demo_calls =
     [ReserveCall (demo_env ''u1'' 1) ''acme'' ''t1'' ''edge'' 6 RESERVED,
      ReserveCall (demo_env ''u2'' 2) ''acme'' ''t2'' ''edge'' 5 RESERVED,
      SettleCall 3 ''u1'' (Some (7 / 2)) SETTLED,
      ReserveCall (demo_env ''u3'' 4) ''acme'' ''t2'' ''edge'' 5 UNCERTAIN,
      ReleaseCall 5 ''u3'', SettleCall 6 ''u3'' (Some 9) SETTLED, ReleaseCall 7 ''nope'']"

definition padded_calls :: "budget_call list" where
  "padded_calls = ReserveCall (demo_env ''u0'' 0) '' acme'' ''t0 '' ''edge'' 1 RESERVED # demo_calls"

theorem database_refines_memory_witness:
  "fst (budget_run db_step padded_calls demo_budget) =
     fst (budget_run mem_step (map strip_call padded_calls) (mem_of demo_budget)) \<and>
   map isl (fst (budget_run db_step padded_calls demo_budget)) =
     [False, False, True, False, False, True, False, True]"
proof
  have "\<forall>c \<in> set padded_calls. call_ok demo_budget (strip_call c)" and "distinct (call_ids padded_calls)"
    and "set (call_ids padded_calls) \<inter> db_ids demo_budget = {}" and "'''' \<notin> db_ids demo_budget"
    by code_simp+
  from database_refines_memory [OF demo_budget_inv this]
  show "fst (budget_run db_step padded_calls demo_budget) =
     fst (budget_run mem_step (map strip_call padded_calls) (mem_of demo_budget))" by blast
  show "map isl (fst (budget_run db_step padded_calls demo_budget)) =
     [False, False, True, False, False, True, False, True]"
    by code_simp
qed

text \<open>
  C8. Over every interleaving of sessions, what a provider has been charged and still holds is at
  most its ceiling plus what settled charges cost above their own estimates; in particular
  concurrent reservations never oversubscribe a budget.\<close>

theorem provider_spend_bounded:
  assumes "interleaved budget_txn s t" and "budget_inv s" and "spend_ok db_get db_overrun s"
    and "b \<in> set (budgets t)"
  shows "pb_actual_cost b + pb_reserved_cost b \<le> pb_credit_budget b + db_overrun t (pb_provider b)"
proof -
  have inv: "budget_inv t" and ok: "spend_ok db_get db_overrun t"
    using spend.execution_inv [OF assms(1)] assms(2,3) by simp_all
  have "db_get t (pb_provider b) = Inr (db_snapshot b)" using db_get_Inr [OF inv] assms(4) by blast
  with ok have "exposure (db_snapshot b) \<le> sn_credit_budget (db_snapshot b) + db_overrun t (pb_provider b)"
    unfolding spend_ok_def by blast
  then show ?thesis by (simp add: exposure_def db_snapshot_def)
qed

theorem provider_spend_bounded_witness:
  "pb_actual_cost (hd (budgets demo_uncertain)) + pb_reserved_cost (hd (budgets demo_uncertain)) = 4000000 \<and>
   pb_actual_cost (hd (budgets demo_uncertain)) + pb_reserved_cost (hd (budgets demo_uncertain)) \<le>
     pb_credit_budget (hd (budgets demo_uncertain)) + db_overrun demo_uncertain (pb_provider (hd (budgets demo_uncertain)))"
proof -
  have "spend_ok db_get db_overrun demo_budget"
    unfolding spend_ok_def db_get_Inr [OF demo_budget_inv]
    by (simp add: demo_budget_def exposure_def db_snapshot_def db_overrun_nonneg)
  moreover have "hd (budgets demo_uncertain) \<in> set (budgets demo_uncertain)"
    and "pb_actual_cost (hd (budgets demo_uncertain)) + pb_reserved_cost (hd (budgets demo_uncertain)) = 4000000"
    by code_simp+
  ultimately show ?thesis
    using provider_spend_bounded [OF demo_uncertain_reached demo_budget_inv] by blast
qed

text \<open>
  The in-memory repository keeps the same bound over every sequence of calls with fresh ids.\<close>

theorem memory_spend_bounded:
  assumes "mem_inv m" and "spend_ok mem_get mem_overrun m"
    and "distinct (call_ids cs)" and "set (call_ids cs) \<inter> mem_ids m = {}"
    and "budget_run mem_step cs m = (answers, t)"
  shows "sn_actual_cost (mem_snapshot t p) + sn_reserved_cost (mem_snapshot t p) \<le>
    mem_limit t p + mem_overrun t p"
  using memory.run_law [OF assms] by (simp add: spend_ok_def mem_get_def exposure_def)

theorem memory_spend_bounded_witness:
  "sn_actual_cost (mem_snapshot (snd (budget_run mem_step demo_calls (mem_of demo_budget))) ''acme'') +
   sn_reserved_cost (mem_snapshot (snd (budget_run mem_step demo_calls (mem_of demo_budget))) ''acme'') =
     12500000 \<and>
   (12500000 :: int) \<le> mem_limit (snd (budget_run mem_step demo_calls (mem_of demo_budget))) ''acme'' +
     mem_overrun (snd (budget_run mem_step demo_calls (mem_of demo_budget))) ''acme''"
proof -
  let ?t = "snd (budget_run mem_step demo_calls (mem_of demo_budget))"
  have "mem_inv (mem_of demo_budget)" by (rule mem_of_inv [OF demo_budget_inv])
  moreover have "spend_ok mem_get mem_overrun (mem_of demo_budget)"
    by (auto simp: spend_ok_def mem_get_def exposure_def mem_snapshot_def mem_of_def demo_budget_def
        mem_overrun_def)
  moreover have "distinct (call_ids demo_calls)" and "set (call_ids demo_calls) \<inter> mem_ids (mem_of demo_budget) = {}"
    by code_simp+
  moreover have "budget_run mem_step demo_calls (mem_of demo_budget) =
      (fst (budget_run mem_step demo_calls (mem_of demo_budget)), ?t)" by simp
  ultimately have "sn_actual_cost (mem_snapshot ?t ''acme'') + sn_reserved_cost (mem_snapshot ?t ''acme'') \<le>
      mem_limit ?t ''acme'' + mem_overrun ?t ''acme''"
    by (rule memory_spend_bounded)
  moreover have "sn_actual_cost (mem_snapshot ?t ''acme'') + sn_reserved_cost (mem_snapshot ?t ''acme'') = 12500000"
    by code_simp
  ultimately show ?thesis by simp
qed

text \<open>
  The running counters of a budget are the sums over its usages in every reachable state: the
  actual cost is the sum of the settled charges, the reserved cost the sum of the open estimates,
  and routing is enabled exactly while something remains.\<close>

theorem budget_counters_match_usages:
  assumes "interleaved budget_txn s t" and "budget_inv s" and "b \<in> set (budgets t)"
  shows "pb_actual_cost b = tally (\<lambda>u. if bu_provider u = pb_provider b \<and> bu_status u = SETTLED
      then the (bu_actual_cost u) else 0) (usages t) \<and>
    pb_reserved_cost b = tally (\<lambda>u. if bu_provider u = pb_provider b \<and> bu_status u \<in> {RESERVED, UNCERTAIN}
      then bu_estimated_cost u else 0) (usages t) \<and>
    pb_routing_enabled b = (pb_credit_budget b - pb_actual_cost b - pb_reserved_cost b > 0)"
proof -
  have inv: "budget_inv t" using assms(1,2) by (rule budget.execution_inv)
  then have ok: "budget_ok t b" using assms(3) by (simp add: budget_inv_def)
  have "spent_cost p (as_record u) = (if bu_provider u = p \<and> bu_status u = SETTLED
      then the (bu_actual_cost u) else 0)" if "u \<in> set (usages t)" for p u
    using inv that by (auto simp: budget_inv_def usage_ok_def spent_cost_def split: option.splits)
  then have spent: "spent_total t p = tally (\<lambda>u. if bu_provider u = p \<and> bu_status u = SETTLED
      then the (bu_actual_cost u) else 0) (usages t)" for p
    unfolding spent_total_def by (intro tally_cong)
  have held: "held_total t p = tally (\<lambda>u. if bu_provider u = p \<and> bu_status u \<in> {RESERVED, UNCERTAIN}
      then bu_estimated_cost u else 0) (usages t)" for p
    unfolding held_total_def by (intro tally_cong) (auto simp: held_cost_def)
  have "pb_routing_enabled b = (pb_credit_budget b - pb_actual_cost b - pb_reserved_cost b > 0)"
    using ok by (auto simp: budget_ok_def budget_remaining_def)
  moreover have "pb_actual_cost b = spent_total t (pb_provider b)"
    and "pb_reserved_cost b = held_total t (pb_provider b)"
    using ok by (simp_all add: budget_ok_def)
  ultimately show ?thesis unfolding spent held by blast
qed

theorem budget_counters_match_usages_witness:
  "pb_reserved_cost (hd (budgets demo_uncertain)) =
     tally (\<lambda>u. if bu_provider u = pb_provider (hd (budgets demo_uncertain)) \<and>
       bu_status u \<in> {RESERVED, UNCERTAIN} then bu_estimated_cost u else 0) (usages demo_uncertain)"
proof -
  have "hd (budgets demo_uncertain) \<in> set (budgets demo_uncertain)" by code_simp
  from budget_counters_match_usages [OF demo_uncertain_reached demo_budget_inv this]
  show ?thesis by blast
qed

text \<open>
  A charge that is settled or released is final: the row is unchanged in every later state,
  and an open row keeps its provider, task and estimate.\<close>

theorem decided_charge_is_final:
  assumes "interleaved budget_txn s t" and "budget_inv s" and "u \<in> set (usages s)"
  shows "\<exists>u'. usage_by_id t (bu_id u) = Some u' \<and> bu_provider u' = bu_provider u \<and>
    bu_task_id u' = bu_task_id u \<and> bu_estimated_cost u' = bu_estimated_cost u \<and>
    (bu_status u \<in> {RESERVED, UNCERTAIN} \<or> u' = u)"
proof -
  have inv: "budget_inv t" and "budget_frame s t" using budget.execution [OF assms(1,2)] by simp_all
  with assms(3) obtain u' where u': "u' \<in> set (usages t)" "usage_keeps u u'"
    by (auto simp: budget_frame_def)
  then have "usage_by_id t (bu_id u) = Some u'"
    using usage_by_id_Some [OF inv] by (simp add: usage_keeps_def)
  moreover have "bu_status u \<in> {RESERVED, UNCERTAIN, SETTLED, RELEASED}"
    using assms(2,3) by (auto simp: budget_inv_def usage_ok_def)
  ultimately show ?thesis using u'(2) by (auto simp: usage_keeps_def)
qed

theorem decided_charge_is_final_witness:
  "\<exists>u'. usage_by_id demo_uncertain ''u1'' = Some u' \<and> bu_estimated_cost u' = 4000000"
proof -
  let ?u = "hd (usages demo_uncertain)"
  have "?u \<in> set (usages demo_uncertain)" "bu_id ?u = ''u1''" "bu_estimated_cost ?u = 4000000"
    by code_simp+
  with decided_charge_is_final [OF interleaved.start [of budget_txn demo_uncertain] demo_uncertain_inv, of ?u]
  show ?thesis by auto
qed

lemma reservation_audits_eq:
  "reservation_audits d i = sort_key (\<lambda>a. (dr_created_at a, dr_id a))
     (filter (\<lambda>a. feature a ''provider_budget_reservation_id'' = JStr i \<and>
        dr_decision_type a = PROVIDER_BUDGET_RECONCILIATION) (decisions d))"
  by (simp add: reservation_audits_def filter_sort conj_commute)

lemma reservation_audits_first:
  assumes "reservation_audits d i = []"
    and "feature a ''provider_budget_reservation_id'' = JStr i"
    and "dr_decision_type a = PROVIDER_BUDGET_RECONCILIATION"
    and "decisions e = decisions d @ [a]"
  shows "reservation_audits e i = [a]"
proof -
  let ?P = "\<lambda>a. feature a ''provider_budget_reservation_id'' = JStr i \<and>
    dr_decision_type a = PROVIDER_BUDGET_RECONCILIATION"
  have "length (sort_key (\<lambda>a. (dr_created_at a, dr_id a)) (filter ?P (decisions d))) = 0"
    using assms(1) unfolding reservation_audits_eq by simp
  then have "filter ?P (decisions d) = []" by (simp only: length_sort length_0_conv)
  then show ?thesis using assms(2-4) by (simp add: reservation_audits_eq)
qed

lemma audit_features:
  fixes env u st key act actual rs ev
  defines "a \<equiv> reconciliation_audit env u st key act actual rs ev"
  shows "feature a ''provider_budget_reservation_id'' = JStr (bu_id u)"
    and "feature a ''idempotency_key'' = JStr key" and "feature a ''action'' = JStr act"
    and "feature a ''actual_cost_usd'' = json_of_money actual" and "feature a ''reason'' = JStr rs"
    and "feature a ''evidence_reference'' = JStr ev" and "dr_selected_action a = act"
    and "dr_decision_type a = PROVIDER_BUDGET_RECONCILIATION" and "dr_id a = be_id env"
  by (simp_all add: a_def reconciliation_audit_def feature_def)

text \<open>
  An uncertain charge is decided once: after a reconciliation commits, the same request is a
  replay that returns the same reservation and audit record and writes nothing, and a request
  under any other key is refused, whatever it asks for.\<close>

theorem reconciliation_decides_once:
  assumes run: "reconcile_uncertain env d i act c k rs ev = Inr (rc, e)"
    and "\<not> rc_replayed rc" and inv: "budget_inv d"
  shows "(\<exists>rc'. reconcile_uncertain env' e i act c k rs ev = Inr (rc', e) \<and> rc_replayed rc' \<and>
      rc_reservation rc' = rc_reservation rc \<and> rc_audit_decision_id rc' = rc_audit_decision_id rc) \<and>
    (py_strip k' = py_strip k \<or> isl (reconcile_uncertain env' e i act' c' k' rs' ev'))"
  using run inv
proof (cases rule: reconcile_cases)
  case replay
  then show ?thesis using assms(2) by simp
next
  case (moved u b b' u' a actual)
  let ?i = "py_strip i"
  have sel: "bu_id u' = ?i" "bu_budget_id u' = bu_budget_id u"
    using moved(3,7) by (auto simp: budget_move_def usage_keeps_def)
  have inv': "budget_inv e"
    using budget_move_inv(1) [OF inv moved(1,5,6,7)] unfolding moved(16) by simp
  have "u' \<in> set (usages e)"
    using update_where_hit [OF moved(1), of "\<lambda>x. bu_id x = bu_id u'" "\<lambda>_. u'"] moved(3) sel(1)
    by (simp add: moved(16) set_usage_def set_budget_def)
  then have get: "usage_by_id e ?i = Some u'" using usage_by_id_Some [OF inv'] sel(1) by blast
  from inv' \<open>u' \<in> set (usages e)\<close> obtain y where y: "budget_by_id e (bu_budget_id u') = Some y"
    by (rule usage_budget)
  note F = audit_features [of env u' UNCERTAIN "py_strip k" act actual "py_strip rs" "py_strip ev",
      folded moved(11)]
  have audits: "reservation_audits e ?i = [a]"
    by (rule reservation_audits_first [OF moved(4)]) (use F sel(1) in \<open>simp_all add: moved(16)\<close>)
  have valid: "validate_reconciliation_replay u' a (py_strip k) act actual (py_strip rs) (py_strip ev) = Inr ()"
    using moved(8,10) F by (simp add: validate_reconciliation_replay_def reconciliation_facts_def)
  have "\<exists>rc'. reconcile_uncertain env' e i act c k rs ev = Inr (rc', e) \<and> rc_replayed rc' \<and>
      rc_reservation rc' = rc_reservation rc \<and> rc_audit_decision_id rc' = rc_audit_decision_id rc"
    using moved(9) get audits valid y F(2,9) moved(13,15)
    by (simp add: reconcile_uncertain_def Let_def)
  moreover have "isl (reconcile_uncertain env' e i act' c' k' rs' ev')" if "py_strip k' \<noteq> py_strip k"
  proof (cases "check_reconciliation ?i (py_strip k') (py_strip rs') (py_strip ev') act' c'")
    case (Inr x)
    then show ?thesis using that get audits F(2) by (simp add: reconcile_uncertain_def Let_def)
  qed (simp add: reconcile_uncertain_def Let_def)
  ultimately show ?thesis by blast
qed

abbreviation demo_decision :: "budget_error + budget_reconciliation \<times> budget_db" where
  "demo_decision \<equiv> reconcile_uncertain (demo_env ''a1'' 9) demo_uncertain ''u1'' SETTLE_ACTUAL_COST
     (Some (5 / 2)) ''invoice-0001'' ''billing'' ''inv/1''"

theorem reconciliation_decides_once_witness:
  "\<exists>rc e. demo_decision = Inr (rc, e) \<and>
    (\<exists>rc'. reconcile_uncertain (demo_env ''a2'' 10) e ''u1'' SETTLE_ACTUAL_COST
       (Some (5 / 2)) ''invoice-0001'' ''billing'' ''inv/1'' = Inr (rc', e) \<and> rc_replayed rc') \<and>
    isl (reconcile_uncertain (demo_env ''a2'' 10) e ''u1'' RELEASE_NO_REMOTE_CHARGE None
      ''invoice-0002'' ''billing'' ''inv/1'')"
proof -
  have "\<not> isl demo_decision" and fresh: "\<not> rc_replayed (fst (projr demo_decision))"
    and keys: "py_strip ''invoice-0002'' \<noteq> py_strip ''invoice-0001''"
    by code_simp+
  from not_isl_pair [OF \<open>\<not> isl demo_decision\<close>] obtain rc e where run: "demo_decision = Inr (rc, e)"
    by (elim exE)
  have "\<not> rc_replayed rc" using fresh unfolding run by simp
  note once = reconciliation_decides_once [OF run this demo_uncertain_inv, of "demo_env ''a2'' 10"
      "''invoice-0002''" RELEASE_NO_REMOTE_CHARGE None "''billing''" "''inv/1''"]
  from once [THEN conjunct1] obtain rc' where again:
    "reconcile_uncertain (demo_env ''a2'' 10) e ''u1'' SETTLE_ACTUAL_COST
       (Some (5 / 2)) ''invoice-0001'' ''billing'' ''inv/1'' = Inr (rc', e)" "rc_replayed rc'"
    by (elim exE conjE)
  have other: "isl (reconcile_uncertain (demo_env ''a2'' 10) e ''u1'' RELEASE_NO_REMOTE_CHARGE None
      ''invoice-0002'' ''billing'' ''inv/1'')"
    by (rule disjE [OF once [THEN conjunct2]]) (rule notE [OF keys], assumption+)
  show ?thesis
    by (rule exI, rule exI, rule conjI, rule run, rule conjI, rule exI, rule conjI, rule again, rule again,
      rule other)
qed

text \<open>
  A task is paid for once: when a reservation has been acquired, any session that asks for the
  same task with the same facts, even one whose first read preceded the commit, gets the same
  reservation back, not acquired, and the database is unchanged; with another estimate it is a
  conflict.\<close>

theorem concurrent_reservation_acquired_once:
  assumes run: "db_reserve env s t t p k role c st = Inr (r, u)" and "br_acquired r"
    and inv: "budget_inv t"
    and late: "usage_for_task s' (py_strip p) (py_strip k) = None"
    and st': "st' \<in> {RESERVED, UNCERTAIN}" and c': "money c' = Inr n" "0 < n"
  shows "db_reserve env' s' u u p k role c' st' =
    (if money c = Inr n then Inr (r\<lparr>br_acquired := False\<rparr>, u)
     else Inl (ProviderBudgetConflict ''task id was already reserved with different budget facts'' []))"
  using run inv
proof (cases rule: db_reserve_cases)
  case replay
  then show ?thesis using assms(2) by simp
next
  case (held b m)
  let ?u = "hold_usage env b (py_strip k) (py_strip role) m st"
  have ne: "py_strip p \<noteq> ''''" "py_strip k \<noteq> ''''" "py_strip role \<noteq> ''''"
    using run by (auto simp: db_reserve_def Let_def res_simps split: if_split_asm)
  have sel: "bu_provider ?u = py_strip p" "bu_task_id ?u = py_strip k" "bu_id ?u = be_id env"
    "bu_task_role ?u = py_strip role" "bu_estimated_cost ?u = m"
    by (simp_all add: hold_usage_def held(5))
  have invu: "budget_inv u"
    unfolding held(10) using hold_state_inv(1) [OF inv held(4,2,7,3)] held(5,8) by simp
  have mem: "?u \<in> set (usages u)" by (simp add: held(10) hold_state_def)
  then have get: "usage_for_task u (py_strip p) (py_strip k) = Some ?u"
    using usage_for_task_Some [OF invu] sel by blast
  have clash: "insert_usage (u\<lparr>budgets := bs\<rparr>) v = Inl BudgetIntegrityError"
    if "bu_provider v = py_strip p" "bu_task_id v = py_strip k" for bs v
    using mem sel that by (auto simp: insert_usage_def)
  have once: "db_reserve_once env' s' u (py_strip p) (py_strip k) (py_strip role) n st' \<in>
      {replay_of u ?u (py_strip role) n, Inl BudgetIntegrityError,
       Inl (BudgetLookupError ''provider budget is not configured'')}"
    using late get clash by (auto simp: db_reserve_once_def Let_def split: option.split)
  have "\<exists>b'. budget_of (u\<lparr>budgets := update_where (budget_guard (py_strip p) n) (budget_hold n) (budgets u)\<rparr>)
      (py_strip p) = Some b'"
    if "affected (budget_guard (py_strip p) n) (budgets u) = 1"
  proof -
    from that obtain x where x: "x \<in> set (budgets u)" "budget_guard (py_strip p) n x"
      by (rule affected_oneE) blast
    then have "budget_hold n x \<in> set (update_where (budget_guard (py_strip p) n) (budget_hold n) (budgets u))"
      by (rule update_where_hit)
    moreover have "pb_provider (budget_hold n x) = py_strip p" using x(2) by (simp add: budget_guard_def)
    ultimately show ?thesis
      using row_where_hit [of "budget_hold n x" _ "\<lambda>b. pb_provider b = py_strip p"]
      by (simp add: budget_of_def)
  qed
  then have "db_reserve_once env' s' u (py_strip p) (py_strip k) (py_strip role) n st' \<in>
      {replay_of u ?u (py_strip role) n, Inl BudgetIntegrityError}"
    using late get clash by (auto simp: db_reserve_once_def Let_def)
  moreover have "replay_of u ?u (py_strip role) n =
      (if money c = Inr n then Inr (r\<lparr>br_acquired := False\<rparr>, u)
       else Inl (ProviderBudgetConflict ''task id was already reserved with different budget facts'' []))"
    using held(1,9) sel by (auto simp: replay_of_def validate_replay_def db_reservation_def)
  ultimately show ?thesis
    using c' st' ne get by (auto simp: db_reserve_def Let_def split: if_splits)
qed

theorem concurrent_reservation_acquired_once_witness:
  "db_reserve (demo_env ''u2'' 2) demo_budget demo_uncertain demo_uncertain ''acme'' ''t1'' ''edge'' 4 RESERVED =
     Inr ((fst (projr (db_reserve (demo_env ''u1'' 1) demo_budget demo_budget demo_budget ''acme'' ''t1''
       ''edge'' 4 UNCERTAIN)))\<lparr>br_acquired := False\<rparr>, demo_uncertain)"
proof -
  let ?r = "projr (db_reserve (demo_env ''u1'' 1) demo_budget demo_budget demo_budget ''acme'' ''t1''
    ''edge'' 4 UNCERTAIN)"
  have "db_reserve (demo_env ''u1'' 1) demo_budget demo_budget demo_budget ''acme'' ''t1'' ''edge'' 4
     UNCERTAIN = Inr (fst ?r, demo_uncertain)"
    using demo_uncertain_run by (simp add: demo_uncertain_def)
  moreover have "br_acquired (fst ?r)" and "usage_for_task demo_budget (py_strip ''acme'') (py_strip ''t1'') = None"
    and "RESERVED \<in> {RESERVED, UNCERTAIN}" and "money 4 = Inr 4000000" and "(0 :: int) < 4000000"
    by code_simp+
  ultimately show ?thesis
    using concurrent_reservation_acquired_once [OF _ _ demo_budget_inv] by simp
qed

end
