(* ===== verification/Workflow_Catalog.thy ===== *)
theory Workflow_Catalog
  imports Platform_Domain
begin

text \<open>
  The canvas node catalogue, \<^verbatim>\<open>core/workflows/workflow_core/catalog.py\<close>: every node
  type with its typed ports and its parameters. The columns that only the editor renders (title,
  category, description, icon, step, capability, inline, placeholder, help) and the
  \<^verbatim>\<open>view\<close> functions that copy them out are left out.
\<close>

section \<open>Specifications\<close>

definition GRAPH_SCHEMA :: string where "GRAPH_SCHEMA = ''canvas-graph-v1''"

datatype data_type = TEXT_DATA | IMAGE_DATA | VIDEO_DATA

datatype param_kind =
    TEXT | TEXTAREA | NUMBER | INTEGER | SELECT | BOOLEAN | CONNECTION | MODEL | ASSET
  | PLATFORM_VIDEO_MODEL

record port_spec =
  po_key :: string
  po_label :: string
  po_data_type :: data_type
  po_required :: bool
  po_multiple :: bool
  po_max_connections :: nat

record param_spec =
  pa_key :: string
  pa_label :: string
  pa_kind :: param_kind
  pa_default :: json
  pa_required :: bool
  pa_options :: "(string \<times> string) list"
  pa_minimum :: "rat option"
  pa_maximum :: "rat option"
  pa_max_length :: "int option"
  pa_visible_when :: "(string \<times> string list) list"

record node_type =
  nt_type :: string
  nt_inputs :: "port_spec list"
  nt_outputs :: "port_spec list"
  nt_params :: "param_spec list"
  nt_executable :: bool

definition param_visible :: "param_spec \<Rightarrow> (string \<times> json) list \<Rightarrow> bool" where
  "param_visible p data \<longleftrightarrow> list_all (\<lambda>(k, vs). json_get data k \<in> set (map JStr vs)) (pa_visible_when p)"

definition nt_input :: "node_type \<Rightarrow> string \<Rightarrow> port_spec option" where
  "nt_input t key = row_where (\<lambda>p. po_key p = key) (nt_inputs t)"

definition nt_output :: "node_type \<Rightarrow> string \<Rightarrow> port_spec option" where
  "nt_output t key = row_where (\<lambda>p. po_key p = key) (nt_outputs t)"

definition nt_param :: "node_type \<Rightarrow> string \<Rightarrow> param_spec option" where
  "nt_param t key = row_where (\<lambda>p. pa_key p = key) (nt_params t)"

definition nt_defaults :: "node_type \<Rightarrow> (string \<times> json) list" where
  "nt_defaults t = map (\<lambda>p. (pa_key p, pa_default p)) (nt_params t)"

section \<open>The catalogue\<close>

text \<open>A port and a parameter with the defaults of their constructors.\<close>

definition port :: "string \<Rightarrow> string \<Rightarrow> data_type \<Rightarrow> port_spec" where
  "port key label dt = \<lparr>po_key = key, po_label = label, po_data_type = dt, po_required = False,
     po_multiple = False, po_max_connections = 1\<rparr>"

definition param :: "string \<Rightarrow> string \<Rightarrow> param_kind \<Rightarrow> param_spec" where
  "param key label kind = \<lparr>pa_key = key, pa_label = label, pa_kind = kind, pa_default = JNull,
     pa_required = False, pa_options = [], pa_minimum = None, pa_maximum = None,
     pa_max_length = None, pa_visible_when = []\<rparr>"

definition SOURCE_OPTIONS :: "(string \<times> string) list" where
  "SOURCE_OPTIONS = [(''platform'', ''BestShiny credits''), (''connection'', ''My API connection'')]"

definition ON_PLATFORM :: "(string \<times> string list) list" where
  "ON_PLATFORM = [(''source'', [''platform''])]"

definition ON_CONNECTION :: "(string \<times> string list) list" where
  "ON_CONNECTION = [(''source'', [''connection''])]"

definition ASPECT_OPTIONS_VIDEO :: "(string \<times> string) list" where
  "ASPECT_OPTIONS_VIDEO = [(''16:9'', ''16:9 landscape''), (''9:16'', ''9:16 portrait''),
     (''1:1'', ''1:1 square''), (''4:3'', ''4:3''), (''3:4'', ''3:4''), (''21:9'', ''21:9 cinema'')]"

definition ASPECT_OPTIONS_IMAGE :: "(string \<times> string) list" where
  "ASPECT_OPTIONS_IMAGE = [(''1:1'', ''1:1 square''), (''16:9'', ''16:9 landscape''),
     (''9:16'', ''9:16 portrait''), (''4:3'', ''4:3''), (''3:4'', ''3:4'')]"

definition text_node :: node_type where
  "text_node = \<lparr>nt_type = ''text'', nt_inputs = [], nt_outputs = [port ''text'' ''Text'' TEXT_DATA],
     nt_params = [(param ''text'' ''Text'' TEXTAREA)\<lparr>pa_default := JStr '''', pa_max_length := Some 20000\<rparr>],
     nt_executable = True\<rparr>"

definition image_input_node :: node_type where
  "image_input_node = \<lparr>nt_type = ''image_input'', nt_inputs = [],
     nt_outputs = [port ''image'' ''Image'' IMAGE_DATA],
     nt_params = [(param ''asset_id'' ''Image'' ASSET)\<lparr>pa_required := True\<rparr>],
     nt_executable = True\<rparr>"

definition llm_node :: node_type where
  "llm_node = \<lparr>nt_type = ''llm'',
     nt_inputs = [port ''prompt'' ''Prompt'' TEXT_DATA,
       (port ''context'' ''Context'' TEXT_DATA)\<lparr>po_multiple := True, po_max_connections := 8\<rparr>],
     nt_outputs = [port ''text'' ''Text'' TEXT_DATA],
     nt_params =
       [(param ''connection_id'' ''Connection'' CONNECTION)\<lparr>pa_required := True\<rparr>,
        (param ''model'' ''Model'' MODEL)\<lparr>pa_required := True\<rparr>,
        (param ''instruction'' ''Instruction'' TEXTAREA)\<lparr>pa_default := JStr '''', pa_max_length := Some 20000\<rparr>,
        (param ''system_prompt'' ''System prompt'' TEXTAREA)
          \<lparr>pa_default := JStr '''', pa_max_length := Some 20000\<rparr>,
        (param ''temperature'' ''Temperature'' NUMBER)\<lparr>pa_minimum := Some 0, pa_maximum := Some 2\<rparr>,
        (param ''max_tokens'' ''Max output tokens'' INTEGER)
          \<lparr>pa_minimum := Some 1, pa_maximum := Some 128000\<rparr>],
     nt_executable = True\<rparr>"

definition image_generation_node :: node_type where
  "image_generation_node = \<lparr>nt_type = ''image_generation'',
     nt_inputs = [port ''prompt'' ''Prompt'' TEXT_DATA,
       (port ''reference'' ''References'' IMAGE_DATA)\<lparr>po_multiple := True, po_max_connections := 6\<rparr>],
     nt_outputs = [port ''image'' ''Image'' IMAGE_DATA],
     nt_params =
       [(param ''source'' ''Run on'' SELECT)\<lparr>pa_default := JStr ''platform'', pa_options := SOURCE_OPTIONS\<rparr>,
        (param ''image_tier'' ''Quality'' SELECT)\<lparr>pa_default := JStr ''shiny'',
          pa_options := [(''shiny'', ''Shiny''), (''shinier'', ''Shinier''), (''shiniest'', ''Shiniest'')],
          pa_visible_when := ON_PLATFORM\<rparr>,
        (param ''connection_id'' ''Connection'' CONNECTION)\<lparr>pa_visible_when := ON_CONNECTION\<rparr>,
        (param ''model'' ''Model'' MODEL)\<lparr>pa_visible_when := ON_CONNECTION\<rparr>,
        (param ''prompt'' ''Prompt'' TEXTAREA)\<lparr>pa_default := JStr '''', pa_max_length := Some 30000\<rparr>,
        (param ''aspect_ratio'' ''Aspect ratio'' SELECT)\<lparr>pa_default := JStr ''1:1'',
          pa_options := ASPECT_OPTIONS_IMAGE\<rparr>],
     nt_executable = True\<rparr>"

definition video_generation_node :: node_type where
  "video_generation_node = \<lparr>nt_type = ''video_generation'',
     nt_inputs = [port ''prompt'' ''Prompt'' TEXT_DATA, port ''first_frame'' ''First frame'' IMAGE_DATA,
       port ''last_frame'' ''Last frame'' IMAGE_DATA,
       (port ''reference'' ''References'' IMAGE_DATA)\<lparr>po_multiple := True, po_max_connections := 4\<rparr>],
     nt_outputs = [port ''video'' ''Video'' VIDEO_DATA],
     nt_params =
       [(param ''source'' ''Run on'' SELECT)\<lparr>pa_default := JStr ''platform'', pa_options := SOURCE_OPTIONS\<rparr>,
        (param ''platform_model'' ''Model'' PLATFORM_VIDEO_MODEL)
          \<lparr>pa_default := JStr '''', pa_visible_when := ON_PLATFORM\<rparr>,
        (param ''connection_id'' ''Connection'' CONNECTION)\<lparr>pa_visible_when := ON_CONNECTION\<rparr>,
        (param ''model'' ''Model'' MODEL)\<lparr>pa_visible_when := ON_CONNECTION\<rparr>,
        (param ''prompt'' ''Prompt'' TEXTAREA)\<lparr>pa_default := JStr '''', pa_max_length := Some 30000\<rparr>,
        (param ''duration'' ''Duration (s)'' INTEGER)
          \<lparr>pa_default := JInt 5, pa_minimum := Some 1, pa_maximum := Some 30\<rparr>,
        (param ''aspect_ratio'' ''Aspect ratio'' SELECT)\<lparr>pa_default := JStr ''16:9'',
          pa_options := ASPECT_OPTIONS_VIDEO\<rparr>,
        (param ''resolution'' ''Resolution'' SELECT)\<lparr>pa_default := JStr ''720p'',
          pa_options := [(''480p'', ''480p''), (''720p'', ''720p''), (''1080p'', ''1080p'')]\<rparr>,
        (param ''negative_prompt'' ''Negative prompt'' TEXTAREA)
          \<lparr>pa_default := JStr '''', pa_max_length := Some 5000\<rparr>,
        (param ''generate_audio'' ''Generate audio'' BOOLEAN)
          \<lparr>pa_default := JBool True, pa_visible_when := ON_CONNECTION\<rparr>],
     nt_executable = True\<rparr>"

definition note_node :: node_type where
  "note_node = \<lparr>nt_type = ''note'', nt_inputs = [], nt_outputs = [],
     nt_params = [(param ''text'' ''Note'' TEXTAREA)\<lparr>pa_default := JStr '''', pa_max_length := Some 5000\<rparr>],
     nt_executable = False\<rparr>"

definition NODE_TYPES :: "node_type list" where
  "NODE_TYPES = [text_node, image_input_node, llm_node, image_generation_node, video_generation_node,
     note_node]"

definition find_node_type :: "string \<Rightarrow> node_type option" where
  "find_node_type t = row_where (\<lambda>n. nt_type n = t) NODE_TYPES"

end
