(* ===== verification/Workflow_Graph.thy ===== *)
theory Workflow_Graph
  imports Workflow_Catalog "HOL-Library.Log_Nat" "HOL-Library.Product_Lexorder"
begin

text \<open>
  The canvas document, \<^verbatim>\<open>core/workflows/workflow_core/graph.py\<close>: parsing and
  structural validation, the order of execution, the closures of a selection, validation of a
  run and the fingerprints of nodes.

  A document is a \<open>json\<close> value; a Python dict is an association list with distinct keys. A float
  is an exact rational: the code only compares, clamps and stores floats, and converts an integer
  to the nearest double (\<open>double_of_int\<close>), which raises when there is none. The text of a message
  is kept as its template with the interpolated values beside it. The shortest decimal that
  \<^verbatim>\<open>json.dumps\<close> prints for a float enters through its length, the parameter \<open>flen\<close>; the
  digest of a fingerprint payload (\<^verbatim>\<open>sha256\<close> of its JSON text) is the parameter
  \<open>digest\<close>.
\<close>

section \<open>Values and issues\<close>

definition MAX_NODES :: int where "MAX_NODES = 300"
definition MAX_EDGES :: int where "MAX_EDGES = 1000"
definition MAX_DOCUMENT_BYTES :: int where "MAX_DOCUMENT_BYTES = 1000000"
definition MAX_LABEL :: int where "MAX_LABEL = 120"
definition MAX_REFERENCE_VALUE :: int where "MAX_REFERENCE_VALUE = 200"
definition COORDINATE_LIMIT :: int where "COORDINATE_LIMIT = 1000000"

definition identifier_char :: "char \<Rightarrow> bool" where
  "identifier_char c \<longleftrightarrow> (let n = (of_char c :: int) in
     65 \<le> n \<and> n \<le> 90 \<or> 97 \<le> n \<and> n \<le> 122 \<or> 48 \<le> n \<and> n \<le> 57 \<or> n = 95 \<or> n = 45)"

text \<open>
  \<^verbatim>\<open>_IDENTIFIER.match\<close>: in a Python pattern \<^verbatim>\<open>$\<close> also matches before a
  final newline.
\<close>

definition identifier_match :: "string \<Rightarrow> bool" where
  "identifier_match s \<longleftrightarrow>
     (let body = (if s \<noteq> [] \<and> last s = CHR 0x0A then butlast s else s) in
      body \<noteq> [] \<and> int (length body) \<le> 64 \<and> list_all identifier_char body)"

datatype issue_arg = AText string | ANum rat | AJson json

type_synonym message = "string \<times> issue_arg list"

record graph_issue =
  gi_message :: message
  gi_node_id :: "string option"
  gi_edge_id :: "string option"
  gi_port :: "string option"
  gi_param :: "string option"
  gi_code :: string

definition issue :: "string \<Rightarrow> issue_arg list \<Rightarrow> graph_issue" where
  "issue m args = \<lparr>gi_message = (m, args), gi_node_id = None, gi_edge_id = None, gi_port = None,
     gi_param = None, gi_code = ''INVALID''\<rparr>"

datatype graph_error =
    WorkflowGraphInvalid "graph_issue list"
  | GraphTypeError
  | GraphOverflowError
  | GraphKeyError

text \<open>
  \<^verbatim>\<open>float(n)\<close>: the nearest double, ties to even; no double is left above
  \<^verbatim>\<open>2**1024\<close>.
\<close>

definition double_of_int :: "int \<Rightarrow> int option" where
  "double_of_int n =
     (let b = bitlen \<bar>n\<bar> in
      if b \<le> 53 then Some n
      else let m = 2 ^ nat (b - 53); q = \<bar>n\<bar> div m; r = \<bar>n\<bar> mod m;
             q' = (if 2 * r < m then q else if 2 * r > m then q + 1 else if even q then q else q + 1);
             v = q' * m
           in if v \<ge> 2 ^ 1024 then None else Some (sgn n * v))"

definition is_finite :: "json \<Rightarrow> graph_error + bool" where
  "is_finite v =
     (case v of
        JInt n \<Rightarrow> (case double_of_int n of None \<Rightarrow> Inl GraphOverflowError | Some _ \<Rightarrow> Inr True)
      | JFloat f \<Rightarrow> (case f of Finite _ \<Rightarrow> Inr True | _ \<Rightarrow> Inr False)
      | _ \<Rightarrow> Inr False)"

definition to_float :: "json \<Rightarrow> rat" where
  "to_float v =
     (case v of
        JInt n \<Rightarrow> of_int (the (double_of_int n))
      | JFloat (Finite r) \<Rightarrow> r
      | _ \<Rightarrow> 0)"

text \<open>The exact value of a number, as comparisons and \<^verbatim>\<open>abs\<close> see it.\<close>

definition number_value :: "json \<Rightarrow> rat" where
  "number_value v = (case v of JInt n \<Rightarrow> of_int n | JFloat (Finite r) \<Rightarrow> r | _ \<Rightarrow> 0)"

definition hashable :: "json \<Rightarrow> bool" where
  "hashable v = (case v of JList _ \<Rightarrow> False | JObj _ \<Rightarrow> False | _ \<Rightarrow> True)"

section \<open>The size of a document\<close>

text \<open>Bytes of \<^verbatim>\<open>json.dumps(..., ensure_ascii=False).encode("utf-8")\<close>.\<close>

definition char_bytes :: "char \<Rightarrow> int" where
  "char_bytes c = (let n = (of_char c :: int) in
     if n = 34 \<or> n = 92 \<or> n = 8 \<or> n = 9 \<or> n = 10 \<or> n = 12 \<or> n = 13 then 2
     else if n < 32 then 6 else if n < 128 then 1 else 2)"

definition string_bytes :: "string \<Rightarrow> int" where
  "string_bytes s = 2 + sum_list (map char_bytes s)"

fun float_bytes :: "(rat \<Rightarrow> int) \<Rightarrow> pyfloat \<Rightarrow> int" where
  "float_bytes flen (Finite r) = flen r"
| "float_bytes flen PosInf = 8"
| "float_bytes flen NegInf = 9"
| "float_bytes flen NaN = 3"

function int_bytes :: "int \<Rightarrow> int" where
  "int_bytes n = (if n < 0 then 1 + int_bytes (- n) else if n < 10 then 1 else 1 + int_bytes (n div 10))"
  by auto
termination by (relation "measure (\<lambda>n. if n < 0 then nat (- n) + 1 else nat n)") auto

declare int_bytes.simps [simp del]

text \<open>A list of \<open>n\<close> items has its brackets and \<open>n - 1\<close> commas.\<close>

definition bracket_bytes :: "int \<Rightarrow> int" where
  "bracket_bytes n = 2 + max 0 (n - 1)"

fun json_bytes :: "(rat \<Rightarrow> int) \<Rightarrow> json \<Rightarrow> int" where
  "json_bytes flen JNull = 4"
| "json_bytes flen (JBool b) = (if b then 4 else 5)"
| "json_bytes flen (JInt n) = int_bytes n"
| "json_bytes flen (JFloat f) = float_bytes flen f"
| "json_bytes flen (JStr s) = string_bytes s"
| "json_bytes flen (JList vs) = bracket_bytes (int (length vs)) + sum_list (map (json_bytes flen) vs)"
| "json_bytes flen (JObj kvs) = bracket_bytes (int (length kvs)) +
     sum_list (map (\<lambda>(k, v). string_bytes k + 1 + json_bytes flen v) kvs)"

text \<open>\<^verbatim>\<open>json.dumps\<close> refuses an integer of more than 4300 digits with a \<^verbatim>\<open>ValueError\<close>.\<close>

fun json_encodable :: "json \<Rightarrow> bool" where
  "json_encodable (JInt n) \<longleftrightarrow> int_bytes \<bar>n\<bar> \<le> 4300"
| "json_encodable (JList vs) \<longleftrightarrow> list_all json_encodable vs"
| "json_encodable (JObj kvs) \<longleftrightarrow> list_all (\<lambda>(k, v). json_encodable v) kvs"
| "json_encodable _ \<longleftrightarrow> True"

section \<open>The graph\<close>

record graph_node =
  gn_id :: string
  gn_type :: string
  gn_x :: rat
  gn_y :: rat
  gn_data :: "(string \<times> json) list"
  gn_label :: "string option"

record graph_edge =
  ge_id :: string
  ge_source :: string
  ge_source_port :: string
  ge_target :: string
  ge_target_port :: string

record workflow_graph =
  wg_nodes :: "graph_node list"
  wg_edges :: "graph_edge list"
  wg_viewport :: "(string \<times> json) list"

definition find_node :: "graph_node list \<Rightarrow> string \<Rightarrow> graph_node option" where
  "find_node ns i = row_where (\<lambda>n. gn_id n = i) ns"

definition node_spec :: "graph_node \<Rightarrow> node_type" where
  "node_spec n = the (find_node_type (gn_type n))"

definition node_json :: "graph_node \<Rightarrow> json" where
  "node_json n = JObj
     ([(''id'', JStr (gn_id n)), (''type'', JStr (gn_type n)),
       (''position'', JObj [(''x'', JFloat (Finite (gn_x n))), (''y'', JFloat (Finite (gn_y n)))]),
       (''data'', JObj (gn_data n))] @
      (if py_falsy (gn_label n) then [] else [(''label'', JStr (the (gn_label n)))]))"

definition edge_json :: "graph_edge \<Rightarrow> json" where
  "edge_json e = JObj
     [(''id'', JStr (ge_id e)), (''source'', JStr (ge_source e)),
      (''source_port'', JStr (ge_source_port e)), (''target'', JStr (ge_target e)),
      (''target_port'', JStr (ge_target_port e))]"

definition graph_json :: "workflow_graph \<Rightarrow> json" where
  "graph_json g = JObj
     [(''schema'', JStr GRAPH_SCHEMA), (''nodes'', JList (map node_json (wg_nodes g))),
      (''edges'', JList (map edge_json (wg_edges g))), (''viewport'', JObj (wg_viewport g))]"

definition default_viewport :: "(string \<times> json) list" where
  "default_viewport = [(''x'', JFloat (Finite 0)), (''y'', JFloat (Finite 0)), (''zoom'', JFloat (Finite 1))]"

definition empty_graph :: json where
  "empty_graph = graph_json \<lparr>wg_nodes = [], wg_edges = [], wg_viewport = default_viewport\<rparr>"

text \<open>
  \<^verbatim>\<open>incoming\<close>: the edges into a node, by the position of their port in the node type
  (99 for an unknown port), then in document order; the sort is stable.
\<close>

fun port_index :: "port_spec list \<Rightarrow> string \<Rightarrow> nat" where
  "port_index [] k = 99"
| "port_index (p # ps) k =
     (if po_key p = k then 0 else let i = port_index ps k in if i = 99 then 99 else Suc i)"

definition incoming :: "workflow_graph \<Rightarrow> graph_node \<Rightarrow> graph_edge list" where
  "incoming g n = sort_key (\<lambda>e. port_index (nt_inputs (node_spec n)) (ge_target_port e))
     (filter (\<lambda>e. ge_target e = gn_id n) (wg_edges g))"

definition inputs_on :: "workflow_graph \<Rightarrow> graph_node \<Rightarrow> string \<Rightarrow> graph_edge list" where
  "inputs_on g n p = filter (\<lambda>e. ge_target_port e = p) (incoming g n)"

section \<open>The order of execution\<close>

text \<open>The two dicts of \<^verbatim>\<open>topological_order\<close>; a missing key is \<open>None\<close> (a \<^verbatim>\<open>KeyError\<close>).\<close>

fun count_edges ::
  "graph_edge list \<Rightarrow> (string \<times> int) list \<Rightarrow> (string \<times> string list) list \<Rightarrow>
   ((string \<times> int) list \<times> (string \<times> string list) list) option" where
  "count_edges [] indegree outgoing = Some (indegree, outgoing)"
| "count_edges (e # es) indegree outgoing =
     (case map_of indegree (ge_target e) of
        None \<Rightarrow> None
      | Some d \<Rightarrow>
          (case map_of outgoing (ge_source e) of
             None \<Rightarrow> None
           | Some ts \<Rightarrow>
               count_edges es (AList.update (ge_target e) (d + 1) indegree)
                 (AList.update (ge_source e) (ts @ [ge_target e]) outgoing)))"

text \<open>The inner loop: the targets of the node just taken from the queue.\<close>

fun relax ::
  "string list \<Rightarrow> (string \<times> int) list \<Rightarrow> string list \<Rightarrow> ((string \<times> int) list \<times> string list) option" where
  "relax [] indegree queue = Some (indegree, queue)"
| "relax (t # ts) indegree queue =
     (case map_of indegree t of
        None \<Rightarrow> None
      | Some d \<Rightarrow>
          relax ts (AList.update t (d - 1) indegree) (if d - 1 = 0 then queue @ [t] else queue))"

definition pending :: "(string \<times> int) list \<Rightarrow> nat" where
  "pending indegree = length (filter (\<lambda>(_, d). d > 0) indegree)"

lemma pending_update:
  assumes "map_of indegree t = Some d"
  shows "pending (AList.update t (d - 1) indegree) + (if d = 1 then 1 else 0) = pending indegree"
  using assms by (induction indegree) (auto simp: pending_def split: if_splits)

lemma relax_pending:
  "relax ts indegree queue = Some (indegree', queue') \<Longrightarrow>
     pending indegree' + length queue' = pending indegree + length queue"
proof (induction ts arbitrary: indegree queue)
  case (Cons t ts)
  then obtain d where d: "map_of indegree t = Some d" by (auto split: option.split_asm)
  with Cons show ?case using pending_update [OF d] by (auto split: if_splits)
qed simp

text \<open>
  The outer loop. A node enters the queue when its count falls from one to zero, so the counts
  still positive and the queue together shrink with every node taken.
\<close>

function kahn ::
  "(string \<times> string list) list \<Rightarrow> (string \<times> int) list \<Rightarrow> string list \<Rightarrow> string list \<Rightarrow> string list option" where
  "kahn outgoing indegree [] order = Some order"
| "kahn outgoing indegree (current # queue) order =
     (case map_of outgoing current of
        None \<Rightarrow> None
      | Some ts \<Rightarrow>
          (case relax ts indegree queue of
             None \<Rightarrow> None
           | Some (indegree', queue') \<Rightarrow> kahn outgoing indegree' queue' (order @ [current])))"
  by pat_completeness auto
termination
  by (relation "measure (\<lambda>(_, indegree, queue, _). pending indegree + length queue)")
    (auto dest: relax_pending)

definition topological_order :: "workflow_graph \<Rightarrow> graph_error + string list" where
  "topological_order g =
     (case count_edges (wg_edges g) (map (\<lambda>n. (gn_id n, 0)) (wg_nodes g))
             (map (\<lambda>n. (gn_id n, [])) (wg_nodes g)) of
        None \<Rightarrow> Inl GraphKeyError
      | Some (indegree, outgoing) \<Rightarrow>
          (case kahn outgoing indegree
                  (filter (\<lambda>i. map_of indegree i = Some 0) (map gn_id (wg_nodes g))) [] of
             None \<Rightarrow> Inl GraphKeyError
           | Some order \<Rightarrow>
               if length order \<noteq> length (wg_nodes g)
               then Inl (WorkflowGraphInvalid
                 [(issue ''the workflow contains a cycle'' [])\<lparr>gi_code := ''CYCLE''\<rparr>])
               else Inr order))"

section \<open>What feeds a node, and what it feeds\<close>

text \<open>
  The loop of \<^verbatim>\<open>upstream\<close> and \<^verbatim>\<open>downstream\<close>; \<open>arcs\<close> are the edges in the
  direction walked, the top of the stack is the head of the list.
\<close>

function closure_loop :: "(string \<times> string) list \<Rightarrow> string list \<Rightarrow> string list \<Rightarrow> string list" where
  "closure_loop arcs [] result = result"
| "closure_loop arcs (current # stack) result =
     (if current \<in> set result then closure_loop arcs stack result
      else closure_loop arcs (rev (map snd (filter (\<lambda>a. fst a = current) arcs)) @ stack)
             (result @ [current]))"
  by pat_completeness auto
termination
proof (relation "measures [\<lambda>(arcs, stack, result). card ((set stack \<union> snd ` set arcs) - set result),
    \<lambda>(arcs, stack, result). length stack]", goal_cases)
  case (2 arcs current stack result)
  let ?A = "(set stack \<union> snd ` set arcs) - set result"
  have "(set (current # stack) \<union> snd ` set arcs) - set result = ?A"
    using 2 by auto
  then show ?case by simp
next
  case (3 arcs current stack result)
  let ?next = "rev (map snd (filter (\<lambda>a. fst a = current) arcs)) @ stack"
  let ?small = "(set ?next \<union> snd ` set arcs) - set (result @ [current])"
  let ?large = "(set (current # stack) \<union> snd ` set arcs) - set result"
  have "set ?next \<subseteq> set stack \<union> snd ` set arcs" by auto
  then have "?small \<subseteq> ?large" by (simp only: set_append list.set) blast
  moreover have "current \<in> ?large" "current \<notin> ?small" using 3 by simp_all
  ultimately have "?small \<subset> ?large" by blast
  then have "card ?small < card ?large" by (intro psubset_card_mono) simp_all
  then show ?case by simp
qed simp

definition upstream :: "workflow_graph \<Rightarrow> string list \<Rightarrow> string list" where
  "upstream g ids =
     closure_loop (map (\<lambda>e. (ge_target e, ge_source e)) (wg_edges g))
       (rev (filter (\<lambda>i. i \<in> gn_id ` set (wg_nodes g)) ids)) []"

definition downstream :: "workflow_graph \<Rightarrow> string list \<Rightarrow> string list" where
  "downstream g ids =
     closure_loop (map (\<lambda>e. (ge_source e, ge_target e)) (wg_edges g))
       (rev (filter (\<lambda>i. i \<in> gn_id ` set (wg_nodes g)) ids)) []"

end
