(* ===== verification/Workflow_Parse.thy ===== *)
theory Workflow_Parse
  imports Workflow_Graph
begin

text \<open>
  Validation of a canvas document: \<^verbatim>\<open>normalize_param\<close>, \<^verbatim>\<open>parse_graph\<close>,
  \<^verbatim>\<open>run_issues\<close> and \<^verbatim>\<open>fingerprints\<close> of
  \<^verbatim>\<open>core/workflows/workflow_core/graph.py\<close>. The loops over nodes, parameters and
  connections are recursive functions over the same lists, carrying the variables the loops carry.
\<close>

section \<open>One parameter\<close>

definition bounds_message :: "param_spec \<Rightarrow> rat \<Rightarrow> message option" where
  "bounds_message spec v =
     (case pa_minimum spec of
        Some lo \<Rightarrow>
          if v < lo then Some (''must be at least'', [AText (pa_label spec), ANum lo])
          else (case pa_maximum spec of
                  Some hi \<Rightarrow> if v > hi then Some (''must be at most'', [AText (pa_label spec), ANum hi]) else None
                | None \<Rightarrow> None)
      | None \<Rightarrow>
          (case pa_maximum spec of
             Some hi \<Rightarrow> if v > hi then Some (''must be at most'', [AText (pa_label spec), ANum hi]) else None
           | None \<Rightarrow> None))"

definition normalize_text :: "param_spec \<Rightarrow> json \<Rightarrow> json \<times> message option" where
  "normalize_text spec v =
     (case v of
        JStr s \<Rightarrow>
          (case pa_max_length spec of
             Some m \<Rightarrow>
               if int (length s) > m then (JNull, Some (''is too long'', [AText (pa_label spec), ANum (of_int m)]))
               else (v, None)
           | None \<Rightarrow> (v, None))
      | _ \<Rightarrow> (JNull, Some (''must be text'', [AText (pa_label spec)])))"

definition normalize_number :: "param_spec \<Rightarrow> json \<Rightarrow> graph_error + json \<times> message option" where
  "normalize_number spec v =
     res_bind (is_finite v) (\<lambda>fin.
       if \<not> fin then Inr (JNull, Some (''must be a number'', [AText (pa_label spec)]))
       else (case bounds_message spec (to_float v) of
               Some m \<Rightarrow> Inr (JNull, Some m)
             | None \<Rightarrow> Inr (JFloat (Finite (to_float v)), None)))"

text \<open>\<^verbatim>\<open>float(value) != int(value)\<close> compares exactly; \<^verbatim>\<open>int\<close> drops the fraction.\<close>

definition int_of_number :: "json \<Rightarrow> int" where
  "int_of_number v = (let q = number_value v in if q \<ge> 0 then \<lfloor>q\<rfloor> else - \<lfloor>- q\<rfloor>)"

definition normalize_integer :: "param_spec \<Rightarrow> json \<Rightarrow> graph_error + json \<times> message option" where
  "normalize_integer spec v =
     res_bind (is_finite v) (\<lambda>fin.
       if \<not> fin \<or> to_float v \<noteq> of_int (int_of_number v)
       then Inr (JNull, Some (''must be a whole number'', [AText (pa_label spec)]))
       else (case bounds_message spec (of_int (int_of_number v)) of
               Some m \<Rightarrow> Inr (JNull, Some m)
             | None \<Rightarrow> Inr (JInt (int_of_number v), None)))"

definition normalize_select :: "param_spec \<Rightarrow> json \<Rightarrow> graph_error + json \<times> message option" where
  "normalize_select spec v =
     (if \<not> hashable v then Inl GraphTypeError
      else if v \<notin> JStr ` fst ` set (pa_options spec)
      then Inr (JNull, Some (''must be one of'', AText (pa_label spec) # map (\<lambda>(o', _). AText o') (pa_options spec)))
      else Inr (v, None))"

definition normalize_reference :: "param_spec \<Rightarrow> json \<Rightarrow> json \<times> message option" where
  "normalize_reference spec v =
     (case v of
        JStr s \<Rightarrow>
          let trimmed = py_strip s in
          if int (length trimmed) > MAX_REFERENCE_VALUE \<or> list_ex (\<lambda>c. (of_char c :: int) < 32) trimmed
          then (JNull, Some (''is not a valid value'', [AText (pa_label spec)]))
          else (JStr trimmed, None)
      | _ \<Rightarrow> (JNull, Some (''must be text'', [AText (pa_label spec)])))"

definition normalize_param :: "param_spec \<Rightarrow> json \<Rightarrow> graph_error + json \<times> message option" where
  "normalize_param spec v =
     (if v = JNull then Inr (pa_default spec, None)
      else if v = JStr '''' \<and> pa_kind spec \<in> {SELECT, BOOLEAN} then Inr (pa_default spec, None)
      else if v = JStr '''' \<and> pa_kind spec \<in> {NUMBER, INTEGER, CONNECTION, MODEL, ASSET}
      then Inr (JNull, None)
      else case pa_kind spec of
        TEXT \<Rightarrow> Inr (normalize_text spec v)
      | TEXTAREA \<Rightarrow> Inr (normalize_text spec v)
      | NUMBER \<Rightarrow> normalize_number spec v
      | INTEGER \<Rightarrow> normalize_integer spec v
      | SELECT \<Rightarrow> normalize_select spec v
      | BOOLEAN \<Rightarrow>
          (case v of JBool b \<Rightarrow> Inr (v, None)
           | _ \<Rightarrow> Inr (JNull, Some (''must be true or false'', [AText (pa_label spec)])))
      | CONNECTION \<Rightarrow> Inr (normalize_reference spec v)
      | MODEL \<Rightarrow> Inr (normalize_reference spec v)
      | ASSET \<Rightarrow> Inr (normalize_reference spec v)
      | PLATFORM_VIDEO_MODEL \<Rightarrow> Inr (normalize_reference spec v))"

section \<open>Nodes\<close>

definition as_object :: "json \<Rightarrow> (string \<times> json) list" where
  "as_object v = (case v of JObj d \<Rightarrow> d | _ \<Rightarrow> [])"

fun parse_params ::
  "string \<Rightarrow> (string \<times> json) list \<Rightarrow> param_spec list \<Rightarrow> graph_issue list \<Rightarrow> (string \<times> json) list \<Rightarrow>
   graph_error + graph_issue list \<times> (string \<times> json) list" where
  "parse_params node_id raw_data [] issues data = Inr (issues, data)"
| "parse_params node_id raw_data (p # ps) issues data =
     res_bind (normalize_param p (json_get raw_data (pa_key p))) (\<lambda>(v, err).
       case err of
         Some (m, args) \<Rightarrow>
           parse_params node_id raw_data ps
             (issues @ [(issue m args)\<lparr>gi_node_id := Some node_id, gi_param := Some (pa_key p)\<rparr>]) data
       | None \<Rightarrow> parse_params node_id raw_data ps issues (AList.update (pa_key p) v data))"

definition get_or :: "(string \<times> json) list \<Rightarrow> string \<Rightarrow> json \<Rightarrow> json" where
  "get_or d k dflt = (case map_of d k of None \<Rightarrow> dflt | Some v \<Rightarrow> v)"

text \<open>The position test, with the short circuits of \<^verbatim>\<open>and\<close> and \<^verbatim>\<open>or\<close>.\<close>

definition bad_position :: "json \<Rightarrow> json \<Rightarrow> graph_error + bool" where
  "bad_position x y =
     res_bind (is_finite x) (\<lambda>fx.
       if \<not> fx then Inr True
       else res_bind (is_finite y) (\<lambda>fy.
         Inr (\<not> fy \<or> \<bar>number_value x\<bar> > of_int COORDINATE_LIMIT \<or>
              \<bar>number_value y\<bar> > of_int COORDINATE_LIMIT)))"

definition parse_label :: "string \<Rightarrow> json \<Rightarrow> graph_issue list \<Rightarrow> graph_issue list \<times> string option" where
  "parse_label node_id label issues =
     (case label of
        JNull \<Rightarrow> (issues, None)
      | JStr s \<Rightarrow>
          if int (length s) > MAX_LABEL
          then (issues @ [(issue ''the node title is invalid'' [])\<lparr>gi_node_id := Some node_id\<rparr>], None)
          else (issues, if py_strip s = '''' then None else Some (py_strip s))
      | _ \<Rightarrow> (issues @ [(issue ''the node title is invalid'' [])\<lparr>gi_node_id := Some node_id\<rparr>], None))"

text \<open>One turn of the loop over the nodes; \<open>index\<close> counts from zero.\<close>

definition parse_node ::
  "int \<Rightarrow> json \<Rightarrow> graph_issue list \<times> graph_node list \<Rightarrow> graph_error + graph_issue list \<times> graph_node list" where
  "parse_node index v acc =
     (let (issues, nodes) = acc in
      case v of
        JObj raw \<Rightarrow>
          (case json_get raw ''id'' of
             JStr node_id \<Rightarrow>
               if \<not> identifier_match node_id
               then Inr (issues @ [issue ''node has an invalid id'' [ANum (of_int (index + 1))]], nodes)
               else if find_node nodes node_id \<noteq> None
               then Inr (issues @ [(issue ''two nodes share an id'' [])
                      \<lparr>gi_node_id := Some node_id, gi_code := ''DUPLICATE_NODE''\<rparr>], nodes)
               else (case (case json_get raw ''type'' of JStr t \<Rightarrow> find_node_type t | _ \<Rightarrow> None) of
                 None \<Rightarrow> Inr (issues @ [(issue ''unknown node type'' [AJson (json_get raw ''type'')])
                      \<lparr>gi_node_id := Some node_id\<rparr>], nodes)
               | Some spec \<Rightarrow>
                   let position = as_object (json_get raw ''position'');
                       x = get_or position ''x'' (JInt 0); y = get_or position ''y'' (JInt 0) in
                   res_bind (bad_position x y) (\<lambda>bad.
                     if bad
                     then Inr (issues @ [(issue ''the node position is invalid'' [])
                            \<lparr>gi_node_id := Some node_id\<rparr>], nodes)
                     else res_bind
                       (parse_params node_id (as_object (json_get raw ''data'')) (nt_params spec) issues [])
                       (\<lambda>(issues', data).
                         let (issues'', label) = parse_label node_id (json_get raw ''label'') issues' in
                         Inr (issues'', nodes @ [\<lparr>gn_id = node_id, gn_type = nt_type spec,
                           gn_x = to_float x, gn_y = to_float y, gn_data = data, gn_label = label\<rparr>]))))
           | _ \<Rightarrow> Inr (issues @ [issue ''node has an invalid id'' [ANum (of_int (index + 1))]], nodes))
      | _ \<Rightarrow> Inr (issues @ [issue ''node must be an object'' [ANum (of_int (index + 1))]], nodes))"

fun parse_nodes ::
  "int \<Rightarrow> json list \<Rightarrow> graph_issue list \<times> graph_node list \<Rightarrow> graph_error + graph_issue list \<times> graph_node list" where
  "parse_nodes index [] acc = Inr acc"
| "parse_nodes index (v # vs) acc = res_bind (parse_node index v acc) (parse_nodes (index + 1) vs)"

section \<open>Connections\<close>

record edge_state =
  es_issues :: "graph_issue list"
  es_edges :: "graph_edge list"
  es_edge_ids :: "string set"
  es_pairs :: "(string \<times> string \<times> string \<times> string) set"
  es_fan_in :: "((string \<times> string) \<times> int) list"

definition edge_issue :: "edge_state \<Rightarrow> graph_issue \<Rightarrow> edge_state" where
  "edge_issue st i = st\<lparr>es_issues := es_issues st @ [i]\<rparr>"

text \<open>\<^verbatim>\<open>v in nodes\<close> hashes \<open>v\<close>, which raises for a list or an object.\<close>

definition node_of :: "graph_node list \<Rightarrow> json \<Rightarrow> graph_error + graph_node option" where
  "node_of nodes v =
     (if \<not> hashable v then Inl GraphTypeError
      else Inr (case v of JStr s \<Rightarrow> find_node nodes s | _ \<Rightarrow> None))"

definition fan_in_count :: "edge_state \<Rightarrow> string \<Rightarrow> string \<Rightarrow> int" where
  "fan_in_count st t p = (case map_of (es_fan_in st) (t, p) of None \<Rightarrow> 0 | Some c \<Rightarrow> c)"

definition port_limit :: "port_spec \<Rightarrow> int" where
  "port_limit p = (if po_multiple p then int (po_max_connections p) else 1)"

text \<open>The checks from the self-connection on, with both nodes found.\<close>

definition connect ::
  "string \<Rightarrow> graph_node \<Rightarrow> json \<Rightarrow> graph_node \<Rightarrow> json \<Rightarrow> edge_state \<Rightarrow> edge_state" where
  "connect edge_id source source_port target target_port st =
     (if gn_id source = gn_id target
      then edge_issue st ((issue ''a node cannot connect to itself'' [])
             \<lparr>gi_edge_id := Some edge_id, gi_node_id := Some (gn_id source)\<rparr>)
      else case (case source_port of JStr p \<Rightarrow> nt_output (node_spec source) p | _ \<Rightarrow> None) of
        None \<Rightarrow> edge_issue st ((issue ''a connection starts from an unknown output'' [])
             \<lparr>gi_edge_id := Some edge_id, gi_node_id := Some (gn_id source)\<rparr>)
      | Some out \<Rightarrow>
          (case (case target_port of JStr p \<Rightarrow> nt_input (node_spec target) p | _ \<Rightarrow> None) of
             None \<Rightarrow> edge_issue st ((issue ''a connection ends at an unknown input'' [])
                  \<lparr>gi_edge_id := Some edge_id, gi_node_id := Some (gn_id target)\<rparr>)
           | Some inp \<Rightarrow>
               if po_data_type out \<noteq> po_data_type inp
               then edge_issue st ((issue ''the types of a connection differ'' [])
                  \<lparr>gi_edge_id := Some edge_id, gi_node_id := Some (gn_id target),
                    gi_port := Some (po_key inp), gi_code := ''TYPE_MISMATCH''\<rparr>)
               else let pair = (gn_id source, po_key out, gn_id target, po_key inp) in
               if pair \<in> es_pairs st
               then edge_issue st ((issue ''the same connection appears twice'' [])
                  \<lparr>gi_edge_id := Some edge_id, gi_node_id := Some (gn_id target)\<rparr>)
               else let count = fan_in_count st (gn_id target) (po_key inp) + 1 in
               if count > port_limit inp
               then edge_issue st ((issue ''too many connections''
                    [AText (po_label inp), ANum (of_int (port_limit inp))])
                  \<lparr>gi_edge_id := Some edge_id, gi_node_id := Some (gn_id target),
                    gi_port := Some (po_key inp), gi_code := ''TOO_MANY_CONNECTIONS''\<rparr>)
               else st\<lparr>es_fan_in := AList.update (gn_id target, po_key inp) count (es_fan_in st),
                       es_pairs := insert pair (es_pairs st),
                       es_edge_ids := insert edge_id (es_edge_ids st),
                       es_edges := es_edges st @ [\<lparr>ge_id = edge_id, ge_source = gn_id source,
                         ge_source_port = po_key out, ge_target = gn_id target,
                         ge_target_port = po_key inp\<rparr>]\<rparr>))"

definition parse_edge :: "graph_node list \<Rightarrow> int \<Rightarrow> json \<Rightarrow> edge_state \<Rightarrow> graph_error + edge_state" where
  "parse_edge nodes index v st =
     (case v of
        JObj raw \<Rightarrow>
          (case json_get raw ''id'' of
             JStr edge_id \<Rightarrow>
               if \<not> identifier_match edge_id \<or> edge_id \<in> es_edge_ids st
               then Inr (edge_issue st (issue ''connection has an invalid or repeated id''
                      [ANum (of_int (index + 1))]))
               else res_bind (node_of nodes (json_get raw ''source'')) (\<lambda>source.
                 case source of
                   None \<Rightarrow> Inr (edge_issue st ((issue ''a connection points at a missing node'' [])
                      \<lparr>gi_edge_id := Some edge_id\<rparr>))
                 | Some s \<Rightarrow>
                     res_bind (node_of nodes (json_get raw ''target'')) (\<lambda>target.
                       case target of
                         None \<Rightarrow> Inr (edge_issue st ((issue ''a connection points at a missing node'' [])
                            \<lparr>gi_edge_id := Some edge_id\<rparr>))
                       | Some t \<Rightarrow> Inr (connect edge_id s (json_get raw ''source_port'') t
                            (json_get raw ''target_port'') st)))
           | _ \<Rightarrow> Inr (edge_issue st (issue ''connection has an invalid or repeated id''
                  [ANum (of_int (index + 1))])))
      | _ \<Rightarrow> Inr (edge_issue st (issue ''connection must be an object'' [ANum (of_int (index + 1))])))"

fun parse_edges :: "graph_node list \<Rightarrow> int \<Rightarrow> json list \<Rightarrow> edge_state \<Rightarrow> graph_error + edge_state" where
  "parse_edges nodes index [] st = Inr st"
| "parse_edges nodes index (v # vs) st =
     res_bind (parse_edge nodes index v st) (parse_edges nodes (index + 1) vs)"

section \<open>Viewport and document\<close>

text \<open>The double nearest to 0.1.\<close>

definition tenth :: rat where
  "tenth = 3602879701896397 / 36028797018963968"

text \<open>
  \<^verbatim>\<open>min\<close> and \<^verbatim>\<open>max\<close> return their first argument on a tie, so a coordinate at
  the limit becomes the integer constant.
\<close>

definition clamp_coordinate :: "rat \<Rightarrow> json" where
  "clamp_coordinate x =
     (if x \<ge> of_int COORDINATE_LIMIT then JInt COORDINATE_LIMIT
      else if x \<le> - of_int COORDINATE_LIMIT then JInt (- COORDINATE_LIMIT)
      else JFloat (Finite x))"

definition clamp_zoom :: "rat \<Rightarrow> json" where
  "clamp_zoom z = JFloat (Finite (min 4 (max tenth z)))"

definition viewport_value :: "(string \<times> json) list \<Rightarrow> string \<Rightarrow> rat \<Rightarrow> graph_error + rat" where
  "viewport_value raw key dflt =
     res_bind (is_finite (json_get raw key)) (\<lambda>fin.
       Inr (if fin then to_float (json_get raw key) else dflt))"

definition parse_viewport :: "json \<Rightarrow> graph_error + (string \<times> json) list" where
  "parse_viewport v =
     (let raw = as_object v in
      res_bind (viewport_value raw ''x'' 0) (\<lambda>x.
      res_bind (viewport_value raw ''y'' 0) (\<lambda>y.
      res_bind (viewport_value raw ''zoom'' 1) (\<lambda>zoom.
        Inr [(''x'', clamp_coordinate x), (''y'', clamp_coordinate y), (''zoom'', clamp_zoom zoom)]))))"

definition invalid :: "string \<Rightarrow> issue_arg list \<Rightarrow> graph_error" where
  "invalid m args = WorkflowGraphInvalid [issue m args]"

definition parse_graph :: "(rat \<Rightarrow> int) \<Rightarrow> json \<Rightarrow> graph_error + workflow_graph" where
  "parse_graph flen document =
     (case document of
        JObj doc \<Rightarrow>
          if \<not> json_encodable document
          then Inl (invalid ''the workflow document is not valid JSON'' [])
          else if json_bytes flen document > MAX_DOCUMENT_BYTES
          then Inl (invalid ''the workflow is too large'' [ANum (of_int MAX_DOCUMENT_BYTES)])
          else if get_or doc ''schema'' (JStr GRAPH_SCHEMA) \<noteq> JStr GRAPH_SCHEMA
          then Inl (invalid ''unsupported workflow schema'' [AJson (get_or doc ''schema'' (JStr GRAPH_SCHEMA))])
          else (case (get_or doc ''nodes'' (JList []), get_or doc ''edges'' (JList [])) of
            (JList raw_nodes, JList raw_edges) \<Rightarrow>
              if int (length raw_nodes) > MAX_NODES
              then Inl (invalid ''too many nodes'' [ANum (of_int MAX_NODES)])
              else if int (length raw_edges) > MAX_EDGES
              then Inl (invalid ''too many connections'' [ANum (of_int MAX_EDGES)])
              else
                res_bind (parse_nodes 0 raw_nodes ([], [])) (\<lambda>(issues, nodes).
                res_bind (parse_edges nodes 0 raw_edges
                  \<lparr>es_issues = issues, es_edges = [], es_edge_ids = {}, es_pairs = {}, es_fan_in = []\<rparr>)
                  (\<lambda>st.
                res_bind (parse_viewport (json_get doc ''viewport'')) (\<lambda>viewport.
                if es_issues st \<noteq> [] then Inl (WorkflowGraphInvalid (es_issues st))
                else let g = \<lparr>wg_nodes = nodes, wg_edges = es_edges st, wg_viewport = viewport\<rparr> in
                  res_bind (topological_order g) (\<lambda>_. Inr g))))
          | _ \<Rightarrow> Inl (invalid ''nodes and edges must be lists'' []))
      | _ \<Rightarrow> Inl (invalid ''the workflow document must be an object'' []))"

section \<open>Validation of a run\<close>

definition blank :: "json \<Rightarrow> bool" where
  "blank v = (case v of JNull \<Rightarrow> True | JStr s \<Rightarrow> py_strip s = '''' | _ \<Rightarrow> False)"

definition text_set :: "(string \<times> json) list \<Rightarrow> string \<Rightarrow> bool" where
  "text_set data key = (case json_get data key of JStr s \<Rightarrow> py_strip s \<noteq> '''' | _ \<Rightarrow> False)"

definition param_issues :: "graph_node \<Rightarrow> graph_issue list" where
  "param_issues n =
     map (\<lambda>p. (issue ''is required'' [AText (pa_label p)])
       \<lparr>gi_node_id := Some (gn_id n), gi_param := Some (pa_key p)\<rparr>)
       (filter (\<lambda>p. pa_required p \<and> param_visible p (gn_data n) \<and> blank (json_get (gn_data n) (pa_key p)))
         (nt_params (node_spec n)))"

definition port_issues :: "workflow_graph \<Rightarrow> graph_node \<Rightarrow> graph_issue list" where
  "port_issues g n =
     map (\<lambda>p. (issue ''connect something to the input'' [AText (po_label p)])
       \<lparr>gi_node_id := Some (gn_id n), gi_port := Some (po_key p)\<rparr>)
       (filter (\<lambda>p. po_required p \<and> inputs_on g n (po_key p) = []) (nt_inputs (node_spec n)))"

definition connected_prompt :: "workflow_graph \<Rightarrow> graph_node \<Rightarrow> bool" where
  "connected_prompt g n \<longleftrightarrow> nt_input (node_spec n) ''prompt'' \<noteq> None \<and> inputs_on g n ''prompt'' \<noteq> []"

definition node_param_issue :: "graph_node \<Rightarrow> string \<Rightarrow> issue_arg list \<Rightarrow> string \<Rightarrow> graph_issue" where
  "node_param_issue n m args key =
     (issue m args)\<lparr>gi_node_id := Some (gn_id n), gi_param := Some key\<rparr>"

definition llm_issues :: "workflow_graph \<Rightarrow> graph_node \<Rightarrow> graph_issue list" where
  "llm_issues g n =
     (if gn_type n = ''llm'' \<and> \<not> connected_prompt g n \<and> \<not> text_set (gn_data n) ''instruction''
      then [node_param_issue n ''write an instruction or connect text to Prompt'' [] ''instruction'']
      else [])"

definition generation_issues :: "workflow_graph \<Rightarrow> graph_node \<Rightarrow> graph_issue list" where
  "generation_issues g n =
     (if gn_type n = ''image_generation'' \<or> gn_type n = ''video_generation'' then
        (if \<not> connected_prompt g n \<and> \<not> text_set (gn_data n) ''prompt''
         then [node_param_issue n ''write a prompt or connect text to Prompt'' [] ''prompt''] else []) @
        (if json_get (gn_data n) ''source'' = JStr ''connection''
         then map (\<lambda>(key, label). node_param_issue n ''is required'' [AText label] key)
                (filter (\<lambda>(key, _). \<not> text_set (gn_data n) key)
                  [(''connection_id'', ''Connection''), (''model'', ''Model'')])
         else [])
      else [])"

definition frame_issues :: "workflow_graph \<Rightarrow> graph_node \<Rightarrow> graph_issue list" where
  "frame_issues g n =
     (if gn_type n = ''video_generation'' \<and> inputs_on g n ''last_frame'' \<noteq> [] \<and>
         inputs_on g n ''first_frame'' = []
      then [(issue ''a last frame needs a first frame'' [])
             \<lparr>gi_node_id := Some (gn_id n), gi_port := Some ''last_frame''\<rparr>]
      else [])"

definition node_run_issues :: "workflow_graph \<Rightarrow> graph_node \<Rightarrow> graph_issue list" where
  "node_run_issues g n =
     (if \<not> nt_executable (node_spec n) then []
      else param_issues n @ port_issues g n @ llm_issues g n @ generation_issues g n @ frame_issues g n)"

fun run_issues :: "workflow_graph \<Rightarrow> string list \<Rightarrow> graph_error + graph_issue list" where
  "run_issues g [] = Inr []"
| "run_issues g (i # ids) =
     (case find_node (wg_nodes g) i of
        None \<Rightarrow> Inl GraphKeyError
      | Some n \<Rightarrow> res_bind (run_issues g ids) (\<lambda>rest. Inr (node_run_issues g n @ rest)))"

section \<open>Fingerprints\<close>

record fingerprint_payload =
  fp_type :: string
  fp_params :: "(string \<times> json) list"
  fp_inputs :: "(string \<times> string \<times> string) list"

definition visible_params :: "graph_node \<Rightarrow> (string \<times> json) list" where
  "visible_params n =
     map (\<lambda>p. (pa_key p, json_get (gn_data n) (pa_key p)))
       (filter (\<lambda>p. param_visible p (gn_data n)) (nt_params (node_spec n)))"

text \<open>\<^verbatim>\<open>result[edge.source]\<close> raises when the source has no fingerprint yet.\<close>

fun fingerprint_inputs ::
  "graph_edge list \<Rightarrow> (string \<times> string) list \<Rightarrow> (string \<times> string \<times> string) list option" where
  "fingerprint_inputs [] result = Some []"
| "fingerprint_inputs (e # es) result =
     (case map_of result (ge_source e) of
        None \<Rightarrow> None
      | Some f \<Rightarrow> map_option (\<lambda>rest. (ge_target_port e, f, ge_source_port e) # rest)
          (fingerprint_inputs es result))"

fun fingerprint_loop ::
  "(fingerprint_payload \<Rightarrow> string) \<Rightarrow> workflow_graph \<Rightarrow> string list \<Rightarrow> (string \<times> string) list \<Rightarrow>
   graph_error + (string \<times> string) list" where
  "fingerprint_loop digest g [] result = Inr result"
| "fingerprint_loop digest g (i # ids) result =
     (case find_node (wg_nodes g) i of
        None \<Rightarrow> Inl GraphKeyError
      | Some n \<Rightarrow>
          (case fingerprint_inputs (incoming g n) result of
             None \<Rightarrow> Inl GraphKeyError
           | Some inputs \<Rightarrow>
               fingerprint_loop digest g ids (AList.update i
                 (digest \<lparr>fp_type = gn_type n, fp_params = visible_params n, fp_inputs = inputs\<rparr>)
                 result)))"

definition fingerprints ::
  "(fingerprint_payload \<Rightarrow> string) \<Rightarrow> workflow_graph \<Rightarrow> graph_error + (string \<times> string) list" where
  "fingerprints digest g =
     res_bind (topological_order g) (\<lambda>order. fingerprint_loop digest g order [])"

end
