(* ===== verification/Workflow_Order.thy ===== *)
theory Workflow_Order
  imports Workflow_Parse
begin

text \<open>
  Correctness of the two graph algorithms of the canvas: the queue of \<^verbatim>\<open>topological_order\<close>
  finds an order exactly when the connections have no cycle, and the stack of
  \<^verbatim>\<open>upstream\<close> and \<^verbatim>\<open>downstream\<close> finds exactly what is reachable.
\<close>

section \<open>Graphs with proper connections\<close>

definition node_ids :: "workflow_graph \<Rightarrow> string list" where
  "node_ids g = map gn_id (wg_nodes g)"

definition endpoints_ok :: "workflow_graph \<Rightarrow> bool" where
  "endpoints_ok g \<longleftrightarrow> distinct (node_ids g) \<and>
     (\<forall>e \<in> set (wg_edges g). ge_source e \<in> set (node_ids g) \<and> ge_target e \<in> set (node_ids g))"

definition arcs :: "workflow_graph \<Rightarrow> (string \<times> string) set" where
  "arcs g = (\<lambda>e. (ge_source e, ge_target e)) ` set (wg_edges g)"

text \<open>Every node of the order comes after the sources of its incoming connections.\<close>

definition sources_first :: "graph_edge list \<Rightarrow> string list \<Rightarrow> bool" where
  "sources_first es order \<longleftrightarrow>
     (\<forall>xs v ys. order = xs @ v # ys \<longrightarrow> (\<forall>e \<in> set es. ge_target e = v \<longrightarrow> ge_source e \<in> set xs))"

definition waiting :: "graph_edge list \<Rightarrow> string list \<Rightarrow> string \<Rightarrow> int" where
  "waiting es order v = int (length (filter (\<lambda>e. ge_target e = v \<and> ge_source e \<notin> set order) es))"

lemma waiting_nonneg [simp]: "0 \<le> waiting es order v"
  by (simp add: waiting_def)

lemma waiting_zero: "waiting es order v = 0 \<longleftrightarrow> (\<forall>e \<in> set es. ge_target e = v \<longrightarrow> ge_source e \<in> set order)"
  by (auto simp: waiting_def filter_empty_conv)

lemma waiting_append:
  assumes "current \<notin> set order"
  shows "waiting es (order @ [current]) v =
    waiting es order v - int (count_list (map ge_target (filter (\<lambda>e. ge_source e = current) es)) v)"
  using assms by (induction es) (auto simp: waiting_def)

section \<open>The loops of the topological order\<close>

lemma map_of_update: "map_of (AList.update k v al) = (map_of al)(k \<mapsto> v)"
  by (simp add: fun_eq_iff update_conv')

lemma count_edges_spec:
  assumes "\<forall>e \<in> set es. map_of ind (ge_target e) \<noteq> None \<and> map_of out (ge_source e) \<noteq> None"
  shows "\<exists>ind' out'. count_edges es ind out = Some (ind', out') \<and>
    (\<forall>v. map_of ind' v = map_option (\<lambda>d. d + int (count_list (map ge_target es) v)) (map_of ind v)) \<and>
    (\<forall>v. map_of out' v = map_option (\<lambda>ts. ts @ map ge_target (filter (\<lambda>e. ge_source e = v) es)) (map_of out v))"
  using assms
proof (induction es arbitrary: ind out)
  case (Cons e es)
  then obtain d ts where d: "map_of ind (ge_target e) = Some d" "map_of out (ge_source e) = Some ts"
    by auto
  let ?ind = "AList.update (ge_target e) (d + 1) ind"
  let ?out = "AList.update (ge_source e) (ts @ [ge_target e]) out"
  have "\<forall>e \<in> set es. map_of ?ind (ge_target e) \<noteq> None \<and> map_of ?out (ge_source e) \<noteq> None"
    using Cons.prems by (auto simp: map_of_update)
  from Cons.IH [OF this] obtain ind' out' where run: "count_edges es ?ind ?out = Some (ind', out')"
    and ind': "\<forall>v. map_of ind' v = map_option (\<lambda>d. d + int (count_list (map ge_target es) v)) (map_of ?ind v)"
    and out': "\<forall>v. map_of out' v =
      map_option (\<lambda>ts. ts @ map ge_target (filter (\<lambda>e. ge_source e = v) es)) (map_of ?out v)"
    by blast
  have "map_of ind' v = map_option (\<lambda>d. d + int (count_list (map ge_target (e # es)) v)) (map_of ind v)"
    and "map_of out' v =
      map_option (\<lambda>ts. ts @ map ge_target (filter (\<lambda>e. ge_source e = v) (e # es))) (map_of out v)" for v
    using d by (auto simp: ind' out' map_of_update)
  with run d show ?case by simp
qed (simp add: option.map_ident)

lemma relax_spec:
  assumes "\<forall>t \<in> set ts. \<exists>d. map_of ind t = Some d \<and> int (count_list ts t) \<le> d"
  shows "\<exists>ind' r. relax ts ind q = Some (ind', q @ r) \<and>
    (\<forall>v. map_of ind' v = map_option (\<lambda>d. d - int (count_list ts v)) (map_of ind v)) \<and>
    distinct r \<and> set r = {t \<in> set ts. map_of ind t = Some (int (count_list ts t))}"
  using assms
proof (induction ts arbitrary: ind q)
  case (Cons t ts)
  then obtain d where d: "map_of ind t = Some d" "1 + int (count_list ts t) \<le> d" by auto
  let ?ind = "AList.update t (d - 1) ind"
  let ?q = "if d - 1 = 0 then q @ [t] else q"
  have "\<forall>x \<in> set ts. \<exists>d. map_of ?ind x = Some d \<and> int (count_list ts x) \<le> d"
    using Cons.prems d by (auto simp: map_of_update split: if_splits)
  from Cons.IH [OF this] obtain ind' r where run: "relax ts ?ind ?q = Some (ind', ?q @ r)"
    and ind': "\<forall>v. map_of ind' v = map_option (\<lambda>d. d - int (count_list ts v)) (map_of ?ind v)"
    and r: "distinct r" "set r = {x \<in> set ts. map_of ?ind x = Some (int (count_list ts x))}"
    by blast
  have upd: "map_of ind' v = map_option (\<lambda>d. d - int (count_list (t # ts) v)) (map_of ind v)" for v
    using d by (auto simp: ind' map_of_update)
  have zero: "d = 1 \<Longrightarrow> t \<notin> set ts" using d(2) by (metis add_le_same_cancel1 count_list_0_iff
      of_nat_le_0_iff)
  define r' where "r' = (if d = 1 then t # r else r)"
  have "relax (t # ts) ind q = Some (ind', q @ r')" using run d(1) by (simp add: r'_def)
  moreover have "distinct r'" using r zero by (auto simp: r'_def)
  moreover have "x \<in> set r' \<longleftrightarrow> x \<in> set (t # ts) \<and> map_of ind x = Some (int (count_list (t # ts) x))" for x
  proof (cases "x = t")
    case True
    have "t \<in> set r' \<longleftrightarrow> d = 1 + int (count_list ts t)"
    proof (cases "d = 1")
      case True
      then show ?thesis using d(2) by (simp add: r'_def)
    next
      case False
      have "t \<in> set r' \<longleftrightarrow> t \<in> set ts \<and> d - 1 = int (count_list ts t)"
        using False r(2) by (simp add: r'_def map_of_update)
      moreover have "count_list ts t = 0" if "t \<notin> set ts" using that by (simp add: count_list_0_iff)
      ultimately show ?thesis using False by (cases "t \<in> set ts") linarith+
    qed
    then show ?thesis using True d(1) by (simp add: add.commute)
  next
    case False
    then show ?thesis using r(2) by (simp add: r'_def map_of_update)
  qed
  then have "set r' = {x \<in> set (t # ts). map_of ind x = Some (int (count_list (t # ts) x))}" by blast
  ultimately show ?case using upd by blast
qed (simp add: option.map_ident)

text \<open>What holds each time the queue is looked at.\<close>

definition kahn_inv :: "string list \<Rightarrow> graph_edge list \<Rightarrow> (string \<times> int) list \<Rightarrow> string list \<Rightarrow> string list \<Rightarrow> bool" where
  "kahn_inv vs es ind queue order \<longleftrightarrow>
     distinct (order @ queue) \<and> set (order @ queue) \<subseteq> set vs \<and>
     (\<forall>v \<in> set vs. map_of ind v = Some (waiting es order v)) \<and>
     (\<forall>v \<in> set vs. v \<in> set (order @ queue) \<longleftrightarrow> waiting es order v = 0) \<and>
     sources_first es order"

lemma sources_first_snoc:
  assumes "sources_first es order" and "waiting es order v = 0"
  shows "sources_first es (order @ [v])"
  unfolding sources_first_def
proof (intro allI impI)
  fix xs x ys
  assume "order @ [v] = xs @ x # ys"
  then consider "ys = []" "xs = order" "x = v" | zs where "order = xs @ x # zs"
    by (cases ys rule: rev_cases) auto
  then show "\<forall>e \<in> set es. ge_target e = x \<longrightarrow> ge_source e \<in> set xs"
    using assms by cases (auto simp: sources_first_def waiting_zero)
qed

lemma kahn_step:
  assumes inv: "kahn_inv vs es ind (current # queue) order"
    and ends: "\<forall>e \<in> set es. ge_target e \<in> set vs"
  defines "ts \<equiv> map ge_target (filter (\<lambda>e. ge_source e = current) es)"
  shows "\<exists>ind' queue'. relax ts ind queue = Some (ind', queue') \<and>
    kahn_inv vs es ind' queue' (order @ [current])"
proof -
  have new: "current \<notin> set order" "current \<in> set vs" and zero: "waiting es order current = 0"
    using inv by (auto simp: kahn_inv_def)
  have wait: "waiting es (order @ [current]) v = waiting es order v - int (count_list ts v)" for v
    unfolding ts_def using new(1) by (rule waiting_append)
  have tsv: "t \<in> set vs" if "t \<in> set ts" for t using that ends by (auto simp: ts_def)
  have le: "int (count_list ts t) \<le> waiting es order t" for t
    using wait [of t] waiting_nonneg [of es "order @ [current]" t] by simp
  have "\<forall>t \<in> set ts. \<exists>d. map_of ind t = Some d \<and> int (count_list ts t) \<le> d"
    using inv tsv le by (auto simp: kahn_inv_def)
  from relax_spec [OF this, of queue] obtain ind' r where
    run: "relax ts ind queue = Some (ind', queue @ r)"
    and ind': "\<forall>v. map_of ind' v = map_option (\<lambda>d. d - int (count_list ts v)) (map_of ind v)"
    and r: "distinct r" "set r = {t \<in> set ts. map_of ind t = Some (int (count_list ts t))}"
    by blast
  have r_iff: "t \<in> set r \<longleftrightarrow> t \<in> set ts \<and> waiting es order t = int (count_list ts t)" if "t \<in> set vs" for t
    using r(2) inv that by (auto simp: kahn_inv_def)
  have fresh: "t \<notin> set (order @ current # queue)" if "t \<in> set r" for t
  proof -
    have t: "t \<in> set vs" "t \<in> set ts" using that r(2) tsv by auto
    then have "waiting es order t \<noteq> 0" using r_iff [of t] that count_list_0_iff [of ts t] by auto
    with inv t(1) show ?thesis by (simp add: kahn_inv_def)
  qed
  have queue: "v \<in> set ((order @ [current]) @ queue @ r) \<longleftrightarrow> waiting es (order @ [current]) v = 0"
    if v: "v \<in> set vs" for v
  proof (cases "v \<in> set ts")
    case True
    then have "waiting es order v \<noteq> 0" using le [of v] count_list_0_iff [of ts v] by auto
    with inv v have "v \<notin> set (order @ current # queue)" by (simp add: kahn_inv_def)
    then show ?thesis using r_iff [OF v] True wait [of v] by auto
  next
    case False
    then have "v \<notin> set r" "waiting es (order @ [current]) v = waiting es order v"
      using r(2) wait [of v] by (auto simp: count_list_0_iff)
    moreover have "v \<in> set (order @ current # queue) \<longleftrightarrow> waiting es order v = 0"
      using inv v by (simp add: kahn_inv_def)
    ultimately show ?thesis by auto
  qed
  have "kahn_inv vs es ind' (queue @ r) (order @ [current])"
    unfolding kahn_inv_def
  proof (intro conjI ballI)
    have "distinct (order @ current # queue)" using inv by (simp add: kahn_inv_def)
    moreover have "set r \<inter> set (order @ current # queue) = {}" using fresh by blast
    ultimately show "distinct ((order @ [current]) @ queue @ r)" using r(1) by auto
    show "set ((order @ [current]) @ queue @ r) \<subseteq> set vs"
      using inv r(2) tsv by (auto simp: kahn_inv_def)
    show "map_of ind' v = Some (waiting es (order @ [current]) v)" if "v \<in> set vs" for v
      using inv that by (simp add: ind' wait kahn_inv_def)
    show "sources_first es (order @ [current])"
      using inv zero by (intro sources_first_snoc) (simp_all add: kahn_inv_def)
  qed (use queue in blast)
  with run show ?thesis by blast
qed

lemma kahn_spec:
  assumes "kahn_inv vs es ind queue order" and "\<forall>e \<in> set es. ge_target e \<in> set vs"
    and "\<forall>v \<in> set vs. map_of out v = Some (map ge_target (filter (\<lambda>e. ge_source e = v) es))"
  shows "\<exists>order' ind'. kahn out ind queue order = Some order' \<and> kahn_inv vs es ind' [] order'"
  using assms
proof (induction out ind queue order rule: kahn.induct)
  case (2 out ind current queue order)
  let ?ts = "map ge_target (filter (\<lambda>e. ge_source e = current) es)"
  have "current \<in> set vs" using 2(2) by (simp add: kahn_inv_def)
  then have out: "map_of out current = Some ?ts" using 2(4) by blast
  from kahn_step [OF 2(2,3)] obtain ind' queue' where run: "relax ?ts ind queue = Some (ind', queue')"
    and inv: "kahn_inv vs es ind' queue' (order @ [current])" by blast
  from 2(1) [OF out run refl inv 2(3,4)] out run show ?case by simp
qed auto

section \<open>An order exists exactly for the acyclic graphs\<close>

lemma map_of_const:
  "map_of (map (\<lambda>n. (gn_id n, c)) ns) v = (if v \<in> gn_id ` set ns then Some c else None)"
  by (induction ns) auto

lemma takeWhile_first: "v \<notin> set as \<Longrightarrow> length (takeWhile (\<lambda>x. x \<noteq> v) (as @ v # bs)) = length as"
  by (induction as) auto

lemma kahn_start:
  assumes "endpoints_ok g"
  shows "\<exists>order ind. kahn_inv (node_ids g) (wg_edges g) ind [] order \<and>
    topological_order g = (if length order \<noteq> length (wg_nodes g)
      then Inl (WorkflowGraphInvalid [(issue ''the workflow contains a cycle'' [])\<lparr>gi_code := ''CYCLE''\<rparr>])
      else Inr order)"
proof -
  let ?ind0 = "map (\<lambda>n. (gn_id n, 0 :: int)) (wg_nodes g)"
  let ?out0 = "map (\<lambda>n. (gn_id n, [] :: string list)) (wg_nodes g)"
  have keys: "map_of ?ind0 v = (if v \<in> set (node_ids g) then Some 0 else None)"
    "map_of ?out0 v = (if v \<in> set (node_ids g) then Some [] else None)" for v
    unfolding node_ids_def set_map by (rule map_of_const)+
  have "\<forall>e \<in> set (wg_edges g). map_of ?ind0 (ge_target e) \<noteq> None \<and> map_of ?out0 (ge_source e) \<noteq> None"
    using assms by (simp add: endpoints_ok_def keys)
  from count_edges_spec [OF this] obtain ind out where
    run: "count_edges (wg_edges g) ?ind0 ?out0 = Some (ind, out)"
    and ind: "\<forall>v. map_of ind v = map_option (\<lambda>d. d + int (count_list (map ge_target (wg_edges g)) v)) (map_of ?ind0 v)"
    and out: "\<forall>v. map_of out v =
      map_option (\<lambda>ts. ts @ map ge_target (filter (\<lambda>e. ge_source e = v) (wg_edges g))) (map_of ?out0 v)"
    by blast
  have wait: "waiting es [] v = int (count_list (map ge_target es) v)" for es v
    by (induction es) (auto simp: waiting_def)
  let ?q = "filter (\<lambda>i. map_of ind i = Some 0) (node_ids g)"
  have "kahn_inv (node_ids g) (wg_edges g) ind ?q []"
    using assms by (auto simp: kahn_inv_def ind keys wait sources_first_def endpoints_ok_def)
  moreover have "\<forall>v \<in> set (node_ids g). map_of out v = Some (map ge_target (filter (\<lambda>e. ge_source e = v) (wg_edges g)))"
    by (simp add: out keys)
  moreover have "\<forall>e \<in> set (wg_edges g). ge_target e \<in> set (node_ids g)"
    using assms by (simp add: endpoints_ok_def)
  ultimately obtain order ind' where "kahn out ind ?q [] = Some order"
    "kahn_inv (node_ids g) (wg_edges g) ind' [] order"
    using kahn_spec by blast
  with run show ?thesis by (auto simp: topological_order_def node_ids_def)
qed

text \<open>An order that respects the connections of all nodes rules out a cycle.\<close>

lemma sources_first_acyclic:
  assumes "sources_first (wg_edges g) order" and "distinct order"
    and "\<forall>e \<in> set (wg_edges g). ge_target e \<in> set order"
  shows "acyclic (arcs g)"
proof -
  define pos where "pos v = length (takeWhile (\<lambda>x. x \<noteq> v) order)" for v
  have "pos s < pos t" if "(s, t) \<in> arcs g" for s t
  proof -
    from that obtain e where e: "e \<in> set (wg_edges g)" "s = ge_source e" "t = ge_target e"
      by (auto simp: arcs_def)
    with assms(3) obtain xs ys where order: "order = xs @ t # ys" by (meson split_list)
    with assms(1) e have s: "s \<in> set xs" by (auto simp: sources_first_def)
    have t: "t \<notin> set xs" using assms(2) order by simp
    have "pos t = length xs" unfolding pos_def order using t by (rule takeWhile_first)
    moreover obtain as bs where xs: "xs = as @ s # bs" "s \<notin> set as" using s by (meson split_list_first)
    have "pos s = length as"
      using takeWhile_first [OF xs(2), of "bs @ t # ys"] by (simp add: pos_def order xs(1))
    ultimately show ?thesis using xs(1) by simp
  qed
  then have "arcs g \<subseteq> measure pos" by auto
  then show ?thesis by (meson acyclic_subset wf_acyclic wf_measure)
qed

lemma kahn_leftover_cycle:
  assumes inv: "kahn_inv (node_ids g) (wg_edges g) ind [] order" and ok: "endpoints_ok g"
    and left: "set order \<noteq> set (node_ids g)"
  shows "\<not> acyclic (arcs g)"
proof
  assume "acyclic (arcs g)"
  then have wf: "wf (arcs g)" by (intro finite_acyclic_wf) (simp add: arcs_def)
  let ?R = "set (node_ids g) - set order"
  have "?R \<noteq> {}" using left inv by (auto simp: kahn_inv_def)
  with wf obtain z where z: "z \<in> ?R" "\<And>y. (y, z) \<in> arcs g \<Longrightarrow> y \<notin> ?R"
    by (metis wf_eq_minimal ex_in_conv)
  then have "waiting (wg_edges g) order z \<noteq> 0" using inv by (auto simp: kahn_inv_def)
  then obtain e where e: "e \<in> set (wg_edges g)" "ge_target e = z" "ge_source e \<notin> set order"
    by (auto simp: waiting_zero)
  then have "(ge_source e, z) \<in> arcs g" "ge_source e \<in> ?R"
    using ok by (auto simp: arcs_def endpoints_ok_def)
  with z(2) show False by blast
qed

lemma topological_order_cases:
  assumes ok: "endpoints_ok g"
  shows "if acyclic (arcs g)
    then \<exists>order. topological_order g = Inr order \<and> distinct order \<and> set order = set (node_ids g) \<and>
      sources_first (wg_edges g) order
    else topological_order g =
      Inl (WorkflowGraphInvalid [(issue ''the workflow contains a cycle'' [])\<lparr>gi_code := ''CYCLE''\<rparr>])"
proof -
  from kahn_start [OF ok] obtain order ind where inv: "kahn_inv (node_ids g) (wg_edges g) ind [] order"
    and topo: "topological_order g = (if length order \<noteq> length (wg_nodes g)
      then Inl (WorkflowGraphInvalid [(issue ''the workflow contains a cycle'' [])\<lparr>gi_code := ''CYCLE''\<rparr>])
      else Inr order)"
    by blast
  have d: "distinct order" "distinct (node_ids g)" "set order \<subseteq> set (node_ids g)"
    "sources_first (wg_edges g) order"
    using inv ok by (auto simp: kahn_inv_def endpoints_ok_def)
  have len: "length order = length (wg_nodes g) \<longleftrightarrow> set order = set (node_ids g)"
  proof -
    have "length order = card (set order)" "length (wg_nodes g) = card (set (node_ids g))"
      using distinct_card [OF d(1)] distinct_card [OF d(2)] by (simp_all add: node_ids_def)
    then show ?thesis using card_subset_eq [OF _ d(3)] by auto
  qed
  show ?thesis
  proof (cases "set order = set (node_ids g)")
    case True
    have "acyclic (arcs g)"
      using d(4,1) ok True by (intro sources_first_acyclic) (auto simp: endpoints_ok_def)
    with True d len topo show ?thesis by simp
  next
    case False
    with kahn_leftover_cycle [OF inv ok] len topo show ?thesis by simp
  qed
qed

section \<open>Closures\<close>

lemma closed_reach:
  assumes "A `` R \<subseteq> R \<union> S"
  shows "A\<^sup>* `` R \<subseteq> R \<union> A\<^sup>* `` S"
proof
  fix y
  assume "y \<in> A\<^sup>* `` R"
  then obtain x where "x \<in> R" "(x, y) \<in> A\<^sup>*" by blast
  from this(2,1) show "y \<in> R \<union> A\<^sup>* `` S"
  proof (induction rule: rtrancl_induct)
    case (step y z)
    then consider "y \<in> R" | s where "s \<in> S" "(s, y) \<in> A\<^sup>*" by blast
    then show ?case using assms step.hyps(2) by cases (auto intro: rtrancl.rtrancl_into_rtrancl)
  qed simp
qed

lemma closure_loop_spec:
  assumes "set ps `` set result \<subseteq> set result \<union> set stack" and "distinct result"
  shows "set (closure_loop ps stack result) = set result \<union> (set ps)\<^sup>* `` set stack \<and>
    distinct (closure_loop ps stack result)"
  using assms
proof (induction ps stack result rule: closure_loop.induct)
  case (2 ps current stack result)
  let ?A = "set ps"
  show ?case
  proof (cases "current \<in> set result")
    case True
    then have closed: "?A `` set result \<subseteq> set result \<union> set stack" using 2(3) by auto
    then have "?A\<^sup>* `` {current} \<subseteq> set result \<union> ?A\<^sup>* `` set stack"
      using closed_reach [OF closed] True by blast
    then have "set result \<union> ?A\<^sup>* `` set (current # stack) = set result \<union> ?A\<^sup>* `` set stack" by auto
    with 2(1) [OF True closed 2(4)] True show ?thesis by simp
  next
    case False
    let ?next = "rev (map snd (filter (\<lambda>a. fst a = current) ps)) @ stack"
    have next_set: "set ?next = ?A `` {current} \<union> set stack" by (auto simp: image_iff)
    have "?A `` set (result @ [current]) \<subseteq> set (result @ [current]) \<union> set ?next"
      using 2(3) unfolding next_set by auto
    moreover have "distinct (result @ [current])" using 2(4) False by simp
    moreover have "?A\<^sup>* `` {current} = {current} \<union> ?A\<^sup>* `` (?A `` {current})"
      by (auto elim: converse_rtranclE intro: converse_rtrancl_into_rtrancl)
    ultimately show ?thesis
      using 2(2) [OF False] False unfolding next_set by (simp add: Image_Un) auto
  qed
qed simp

lemma closure_loop_reach:
  "set (closure_loop ps stack []) = (set ps)\<^sup>* `` set stack" "distinct (closure_loop ps stack [])"
  using closure_loop_spec [of ps "[]" stack] by simp_all

section \<open>Fingerprints\<close>

lemma fingerprint_inputs_Some:
  "fingerprint_inputs es result \<noteq> None \<longleftrightarrow> (\<forall>e \<in> set es. map_of result (ge_source e) \<noteq> None)"
  by (induction es) (auto split: option.splits)

lemma fingerprint_inputs_cong:
  "(\<And>e. e \<in> set es \<Longrightarrow> map_of r (ge_source e) = map_of r' (ge_source e)) \<Longrightarrow>
     fingerprint_inputs es r = fingerprint_inputs es r'"
  by (induction es) (auto split: option.splits)

definition node_fingerprint ::
  "(fingerprint_payload \<Rightarrow> string) \<Rightarrow> workflow_graph \<Rightarrow> (string \<times> string) list \<Rightarrow> graph_node \<Rightarrow> string option" where
  "node_fingerprint digest g r n =
     map_option (\<lambda>inputs. digest \<lparr>fp_type = gn_type n, fp_params = visible_params n, fp_inputs = inputs\<rparr>)
       (fingerprint_inputs (incoming g n) r)"

lemma set_incoming: "set (incoming g n) = {e \<in> set (wg_edges g). ge_target e = gn_id n}"
  by (simp add: incoming_def)

lemma find_node_Some:
  assumes "endpoints_ok g" and "n \<in> set (wg_nodes g)"
  shows "find_node (wg_nodes g) (gn_id n) = Some n"
  using assms row_where_key [of gn_id "wg_nodes g" n]
  by (simp add: find_node_def endpoints_ok_def node_ids_def)

lemma find_node_SomeD: "find_node ns i = Some n \<Longrightarrow> n \<in> set ns \<and> gn_id n = i"
  unfolding find_node_def by (rule row_where_SomeD)

lemma fingerprint_loop_spec:
  assumes ok: "endpoints_ok g" and "sources_first (wg_edges g) (xs @ ids)" and "distinct (xs @ ids)"
    and "set (xs @ ids) \<subseteq> set (node_ids g)" and "dom (map_of r) = set xs"
    and "\<forall>n \<in> set (wg_nodes g). gn_id n \<in> set xs \<longrightarrow> map_of r (gn_id n) = node_fingerprint digest g r n"
  shows "\<exists>r'. fingerprint_loop digest g ids r = Inr r' \<and> dom (map_of r') = set (xs @ ids) \<and>
    (\<forall>n \<in> set (wg_nodes g). gn_id n \<in> set (xs @ ids) \<longrightarrow> map_of r' (gn_id n) = node_fingerprint digest g r' n)"
  using assms(2-)
proof (induction ids arbitrary: xs r)
  case (Cons i ids)
  have sources: "ge_source e \<in> set ys" if "xs @ i # ids = ys @ v # zs" "e \<in> set (wg_edges g)" "ge_target e = v"
    for ys v zs e
    using Cons.prems(1) that by (auto simp: sources_first_def)
  from Cons.prems(3) obtain n where n: "n \<in> set (wg_nodes g)" "gn_id n = i" by (auto simp: node_ids_def)
  have find: "find_node (wg_nodes g) i = Some n" using find_node_Some [OF ok n(1)] n(2) by simp
  have "\<forall>e \<in> set (incoming g n). map_of r (ge_source e) \<noteq> None"
    using sources [of xs i ids] Cons.prems(4) n(2) unfolding set_incoming by (auto simp: dom_def)
  then obtain inputs where inputs: "fingerprint_inputs (incoming g n) r = Some inputs"
    using fingerprint_inputs_Some [of "incoming g n" r] by auto
  let ?f = "digest \<lparr>fp_type = gn_type n, fp_params = visible_params n, fp_inputs = inputs\<rparr>"
  let ?r = "AList.update i ?f r"
  have same: "fingerprint_inputs (incoming g m) ?r = fingerprint_inputs (incoming g m) r"
    if "gn_id m \<in> set (xs @ [i])" "m \<in> set (wg_nodes g)" for m
  proof (rule fingerprint_inputs_cong)
    fix e
    assume "e \<in> set (incoming g m)"
    then have e: "e \<in> set (wg_edges g)" "ge_target e = gn_id m" by (auto simp: set_incoming)
    from that(1) obtain ys zs where "xs @ [i] = ys @ gn_id m # zs" by (meson split_list)
    then have "xs @ i # ids = ys @ gn_id m # zs @ ids" and "set ys \<subseteq> set xs"
      by (cases zs rule: rev_cases; auto)+
    with sources [of ys "gn_id m" "zs @ ids" e] e have "ge_source e \<in> set xs" by auto
    then have "ge_source e \<noteq> i" using Cons.prems(2) by auto
    then show "map_of ?r (ge_source e) = map_of r (ge_source e)" by (simp add: map_of_update)
  qed
  have "map_of ?r (gn_id m) = node_fingerprint digest g ?r m"
    if "m \<in> set (wg_nodes g)" "gn_id m \<in> set (xs @ [i])" for m
  proof (cases "gn_id m = i")
    case True
    then have "m = n" using find find_node_Some [OF ok that(1)] by simp
    then show ?thesis using same [OF that(2,1)] inputs n(2) by (simp add: node_fingerprint_def map_of_update)
  next
    case False
    then show ?thesis
      using same [OF that(2,1)] Cons.prems(5) that by (simp add: node_fingerprint_def map_of_update)
  qed
  moreover have "dom (map_of ?r) = set (xs @ [i])" using Cons.prems(4) by (simp add: map_of_update)
  ultimately have "\<exists>r'. fingerprint_loop digest g ids ?r = Inr r' \<and> dom (map_of r') = set ((xs @ [i]) @ ids) \<and>
      (\<forall>n \<in> set (wg_nodes g). gn_id n \<in> set ((xs @ [i]) @ ids) \<longrightarrow>
         map_of r' (gn_id n) = node_fingerprint digest g r' n)"
    using Cons.prems(1,2,3) by (intro Cons.IH) auto
  with find inputs show ?case by simp
qed simp

lemma fingerprints_spec:
  assumes ok: "endpoints_ok g" and "acyclic (arcs g)"
  shows "\<exists>r. fingerprints digest g = Inr r \<and> dom (map_of r) = set (node_ids g) \<and>
    (\<forall>n \<in> set (wg_nodes g). map_of r (gn_id n) = node_fingerprint digest g r n)"
proof -
  from topological_order_cases [OF ok] assms(2) obtain order where
    order: "topological_order g = Inr order" "distinct order" "set order = set (node_ids g)"
      "sources_first (wg_edges g) order" by auto
  from fingerprint_loop_spec [OF ok, of "[]" order "[]" digest] order
  obtain r where "fingerprint_loop digest g order [] = Inr r" "dom (map_of r) = set (node_ids g)"
    "\<forall>n \<in> set (wg_nodes g). gn_id n \<in> set order \<longrightarrow> map_of r (gn_id n) = node_fingerprint digest g r n"
    by auto
  with order show ?thesis by (auto simp: fingerprints_def node_ids_def)
qed

end
