(* ===== verification/Workflow_Sound.thy ===== *)
theory Workflow_Sound
  imports Workflow_Order
begin

text \<open>
  A document that \<^verbatim>\<open>parse_graph\<close> accepts is well formed: \<open>graph_ok\<close> is the statement of
  the module's header, and this theory shows that the loops establish it and that a well-formed
  graph, written out, is read back unchanged.
\<close>

section \<open>Well-formed values\<close>

definition in_bounds :: "param_spec \<Rightarrow> rat \<Rightarrow> bool" where
  "in_bounds p v \<longleftrightarrow> (case pa_minimum p of None \<Rightarrow> True | Some lo \<Rightarrow> lo \<le> v) \<and>
     (case pa_maximum p of None \<Rightarrow> True | Some hi \<Rightarrow> v \<le> hi)"

definition value_ok :: "param_spec \<Rightarrow> json \<Rightarrow> bool" where
  "value_ok p v \<longleftrightarrow> v = JNull \<or>
     (case pa_kind p of
        NUMBER \<Rightarrow> (case v of JFloat (Finite r) \<Rightarrow> in_bounds p r | _ \<Rightarrow> False)
      | INTEGER \<Rightarrow> (case v of JInt n \<Rightarrow> in_bounds p (of_int n) | _ \<Rightarrow> False)
      | SELECT \<Rightarrow> v \<in> JStr ` fst ` set (pa_options p)
      | BOOLEAN \<Rightarrow> (case v of JBool _ \<Rightarrow> True | _ \<Rightarrow> False)
      | k \<Rightarrow> (case v of
          JStr s \<Rightarrow>
            if k \<in> {TEXT, TEXTAREA}
            then (case pa_max_length p of None \<Rightarrow> True | Some m \<Rightarrow> int (length s) \<le> m)
            else py_strip s = s \<and> int (length s) \<le> MAX_REFERENCE_VALUE \<and> list_all (\<lambda>c. (of_char c :: int) \<ge> 32) s
        | _ \<Rightarrow> False))"

text \<open>What the catalogue guarantees of its parameters.\<close>

definition spec_ok :: "param_spec \<Rightarrow> bool" where
  "spec_ok p \<longleftrightarrow> value_ok p (pa_default p) \<and>
     (pa_kind p = INTEGER \<longrightarrow>
        (case pa_minimum p of None \<Rightarrow> False | Some lo \<Rightarrow> lo \<ge> 0) \<and>
        (case pa_maximum p of None \<Rightarrow> False | Some hi \<Rightarrow> hi \<le> 1000000)) \<and>
     (pa_kind p \<in> {SELECT, BOOLEAN} \<longrightarrow> '''' \<notin> fst ` set (pa_options p))"

definition catalogue_ok :: bool where
  "catalogue_ok \<longleftrightarrow> list_all (\<lambda>t. distinct (map pa_key (nt_params t)) \<and> distinct (map po_key (nt_inputs t)) \<and>
     distinct (map po_key (nt_outputs t)) \<and> list_all spec_ok (nt_params t)) NODE_TYPES"

lemma catalogue_is_ok: catalogue_ok
  by code_simp

lemma node_type_ok:
  assumes "find_node_type t = Some spec"
  shows "nt_type spec = t" and "distinct (map pa_key (nt_params spec))"
    and "p \<in> set (nt_params spec) \<Longrightarrow> spec_ok p"
proof -
  have mem: "spec \<in> set NODE_TYPES \<and> nt_type spec = t"
    by (rule row_where_SomeD [OF assms [unfolded find_node_type_def]])
  then show "nt_type spec = t" by simp
  have ok: "distinct (map pa_key (nt_params spec)) \<and> list_all spec_ok (nt_params spec)"
    using bspec [OF catalogue_is_ok [unfolded catalogue_ok_def list_all_iff [of _ NODE_TYPES]] mem [THEN conjunct1]]
    by simp
  then show "distinct (map pa_key (nt_params spec))" by simp
  show "spec_ok p" if "p \<in> set (nt_params spec)" using ok that by (simp add: list_all_iff)
qed

lemma bounds_message_None: "bounds_message p v = None \<longleftrightarrow> in_bounds p v"
  by (auto simp: bounds_message_def in_bounds_def split: option.splits)

lemma double_of_int_small:
  assumes "\<bar>n\<bar> \<le> 1000000"
  shows "double_of_int n = Some n"
proof -
  have "\<bar>n\<bar> < 2 ^ 53" using assms by (rule order.strict_trans1) simp
  then have "bitlen \<bar>n\<bar> \<le> int 53" by (subst bitlen_le_iff_power) simp_all
  then show ?thesis by (simp add: double_of_int_def)
qed

lemma is_finite_Inr_True:
  "is_finite v = Inr True \<longleftrightarrow>
     (\<exists>n m. v = JInt n \<and> double_of_int n = Some m) \<or> (\<exists>r. v = JFloat (Finite r))"
  by (auto simp: is_finite_def split: json.splits pyfloat.splits option.splits)

lemma normalize_number_ok:
  "normalize_number p v = Inr (v', None) \<Longrightarrow> pa_kind p = NUMBER \<Longrightarrow> value_ok p v'"
  by (auto simp: normalize_number_def value_ok_def bounds_message_None res_simps
      split: if_split_asm option.split_asm)

lemma normalize_integer_ok:
  "normalize_integer p v = Inr (v', None) \<Longrightarrow> pa_kind p = INTEGER \<Longrightarrow> value_ok p v'"
  by (auto simp: normalize_integer_def value_ok_def bounds_message_None res_simps
      split: if_split_asm option.split_asm)

lemma normalize_select_ok:
  "normalize_select p v = Inr (v', None) \<Longrightarrow> pa_kind p = SELECT \<Longrightarrow> value_ok p v'"
  by (auto simp: normalize_select_def value_ok_def split: if_split_asm)

lemma normalize_text_ok:
  "normalize_text p v = (v', None) \<Longrightarrow> pa_kind p \<in> {TEXT, TEXTAREA} \<Longrightarrow> value_ok p v'"
  by (cases v) (auto simp: normalize_text_def value_ok_def split: if_split_asm option.split_asm)

lemma normalize_reference_ok:
  "normalize_reference p v = (v', None) \<Longrightarrow>
     pa_kind p \<in> {CONNECTION, MODEL, ASSET, PLATFORM_VIDEO_MODEL} \<Longrightarrow> value_ok p v'"
  by (cases v) (auto simp: normalize_reference_def value_ok_def Let_def list_ex_iff list_all_iff
      not_less split: if_split_asm)

lemma normalize_param_ok:
  assumes "spec_ok p" and "normalize_param p v = Inr (v', None)"
  shows "value_ok p v'"
proof -
  have dflt: "value_ok p (pa_default p)" using assms(1) by (simp add: spec_ok_def)
  have null: "value_ok p JNull" by (simp add: value_ok_def)
  show ?thesis
  proof (cases "v = JNull \<or> v = JStr '''' \<and> pa_kind p \<in> {SELECT, BOOLEAN, NUMBER, INTEGER, CONNECTION, MODEL, ASSET}")
    case True
    then show ?thesis using assms(2) dflt null by (auto simp: normalize_param_def split: if_split_asm)
  next
    case False
    show ?thesis
    proof (cases "pa_kind p")
      case BOOLEAN
      then show ?thesis
        using assms(2) False by (auto simp: normalize_param_def value_ok_def split: json.split_asm)
    qed (use assms(2) False in \<open>auto simp: normalize_param_def intro: normalize_number_ok
          normalize_integer_ok normalize_select_ok normalize_text_ok normalize_reference_ok\<close>)
  qed
qed

text \<open>
  A well-formed value is stored as it is, with two exceptions: null where the default is not null,
  and an empty reference, which the next reading turns into null.
\<close>

definition settled_value :: "param_spec \<Rightarrow> json \<Rightarrow> bool" where
  "settled_value p v \<longleftrightarrow> (v = JNull \<longrightarrow> pa_default p = JNull) \<and>
     \<not> (v = JStr '''' \<and> pa_kind p \<in> {CONNECTION, MODEL, ASSET})"

lemma normalize_param_stable:
  assumes "spec_ok p" and "value_ok p v" and "settled_value p v"
  shows "normalize_param p v = Inr (v, None)"
proof (cases "v = JNull")
  case True
  then show ?thesis using assms(3) by (simp add: normalize_param_def settled_value_def)
next
  case False
  show ?thesis
  proof (cases "pa_kind p")
    case INTEGER
    then obtain n where v: "v = JInt n" and b: "in_bounds p (of_int n)"
      using assms(2) False by (auto simp: value_ok_def split: json.split_asm)
    from assms(1) INTEGER obtain lo hi where "pa_minimum p = Some lo" "0 \<le> lo" "pa_maximum p = Some hi"
      "hi \<le> 1000000" by (auto simp: spec_ok_def split: option.split_asm)
    then have "of_int n \<le> (1000000 :: rat)" "(0 :: rat) \<le> of_int n"
      using b by (auto simp: in_bounds_def)
    then have "n \<le> 1000000" "0 \<le> n" by simp_all
    then have "double_of_int n = Some n" by (intro double_of_int_small) simp
    then show ?thesis
      using INTEGER v b \<open>0 \<le> n\<close>
      by (simp add: normalize_param_def normalize_integer_def is_finite_def to_float_def
          int_of_number_def number_value_def bounds_message_None [THEN iffD2])
  next
    case NUMBER
    then obtain r where v: "v = JFloat (Finite r)" and b: "in_bounds p r"
      using assms(2) False by (auto simp: value_ok_def split: json.split_asm pyfloat.split_asm)
    then show ?thesis
      using NUMBER by (simp add: normalize_param_def normalize_number_def is_finite_def to_float_def
          bounds_message_None [THEN iffD2])
  next
    case SELECT
    then have v: "v \<in> JStr ` fst ` set (pa_options p)" using assms(2) False by (auto simp: value_ok_def)
    then have "hashable v" by (auto simp: hashable_def)
    moreover have "'''' \<notin> fst ` set (pa_options p)" using assms(1) SELECT by (simp add: spec_ok_def)
    then have "v \<noteq> JStr ''''" using v by (metis imageE json.inject(4))
    ultimately show ?thesis
      using SELECT v False by (simp add: normalize_param_def normalize_select_def)
  next
    case BOOLEAN
    then obtain b where "v = JBool b" using assms(2) False by (auto simp: value_ok_def split: json.split_asm)
    then show ?thesis using BOOLEAN by (simp add: normalize_param_def)
  qed (use assms(2,3) False in \<open>auto simp: normalize_param_def value_ok_def normalize_text_def settled_value_def
      normalize_reference_def Let_def list_ex_iff list_all_iff split: json.split_asm option.split_asm if_split_asm\<close>)
qed

section \<open>Well-formed nodes\<close>

definition data_ok :: "param_spec list \<Rightarrow> (string \<times> json) list \<Rightarrow> bool" where
  "data_ok ps data \<longleftrightarrow> map fst data = map pa_key ps \<and> list_all2 (\<lambda>p (k, v). value_ok p v) ps data"

definition label_ok :: "string option \<Rightarrow> bool" where
  "label_ok l \<longleftrightarrow> (case l of None \<Rightarrow> True
     | Some s \<Rightarrow> s \<noteq> '''' \<and> py_strip s = s \<and> int (length s) \<le> MAX_LABEL)"

definition node_ok :: "graph_node \<Rightarrow> bool" where
  "node_ok n \<longleftrightarrow> identifier_match (gn_id n) \<and> find_node_type (gn_type n) \<noteq> None \<and>
     \<bar>gn_x n\<bar> \<le> of_int COORDINATE_LIMIT \<and> \<bar>gn_y n\<bar> \<le> of_int COORDINATE_LIMIT \<and>
     data_ok (nt_params (node_spec n)) (gn_data n) \<and> label_ok (gn_label n)"

lemma update_fresh: "k \<notin> fst ` set al \<Longrightarrow> AList.update k v al = al @ [(k, v)]"
  by (induction al) auto

lemma parse_params_issues:
  "parse_params i raw ps issues data = Inr (issues', data') \<Longrightarrow> \<exists>is. issues' = issues @ is"
proof (induction ps arbitrary: issues data)
  case (Cons p ps)
  then obtain v err where v: "normalize_param p (json_get raw (pa_key p)) = Inr (v, err)"
    by (auto simp: res_simps)
  with Cons show ?case by (cases err) fastforce+
qed simp

lemma parse_params_ok:
  assumes "parse_params i raw ps issues data = Inr ([], data')"
    and "list_all spec_ok ps" and "data_ok done data" and "distinct (map pa_key (done @ ps))"
  shows "issues = [] \<and> data_ok (done @ ps) data'"
  using assms
proof (induction ps arbitrary: issues data "done")
  case Nil
  then show ?case by simp
next
  case (Cons p ps)
  then obtain v err where v: "normalize_param p (json_get raw (pa_key p)) = Inr (v, err)"
    by (auto simp: res_simps)
  have "err = None"
  proof (rule ccontr)
    assume "err \<noteq> None"
    then obtain m args where "err = Some (m, args)" by (cases err) auto
    with v Cons.prems(1) parse_params_issues show False by fastforce
  qed
  with v have ok: "value_ok p v" using Cons.prems(2) by (intro normalize_param_ok) auto
  have "pa_key p \<notin> fst ` set data"
    using Cons.prems(3,4) by (metis data_ok_def distinct_append in_set_conv_decomp list.simps(9) map_append
        not_distinct_conv_prefix set_map append_Cons)
  then have upd: "AList.update (pa_key p) v data = data @ [(pa_key p, v)]" by (rule update_fresh)
  have "data_ok (done @ [p]) (data @ [(pa_key p, v)])"
    using Cons.prems(3) ok by (auto simp: data_ok_def list_all2_append list_all2_lengthD)
  with Cons.IH [of issues "data @ [(pa_key p, v)]" "done @ [p]"] Cons.prems v \<open>err = None\<close> upd
  show ?case by simp
qed

lemma bad_position_False:
  assumes "bad_position x y = Inr False"
  shows "\<bar>to_float x\<bar> \<le> of_int COORDINATE_LIMIT" and "\<bar>to_float y\<bar> \<le> of_int COORDINATE_LIMIT"
proof -
  have fin: "is_finite x = Inr True" "is_finite y = Inr True"
    and lim: "\<bar>number_value x\<bar> \<le> of_int COORDINATE_LIMIT" "\<bar>number_value y\<bar> \<le> of_int COORDINATE_LIMIT"
    using assms by (auto simp: bad_position_def res_simps split: if_split_asm)
  have "to_float v = number_value v"
    if "is_finite v = Inr True" "\<bar>number_value v\<bar> \<le> of_int COORDINATE_LIMIT" for v
  proof (cases v)
    case (JInt n)
    then have "of_int \<bar>n\<bar> \<le> (1000000 :: rat)" using that(2) by (simp add: number_value_def COORDINATE_LIMIT_def)
    then have "\<bar>n\<bar> \<le> 1000000" by (metis of_int_le_iff of_int_numeral)
    then show ?thesis using JInt double_of_int_small by (simp add: to_float_def number_value_def)
  next
    case (JFloat f)
    then show ?thesis by (cases f) (simp_all add: to_float_def number_value_def)
  qed (simp_all add: to_float_def number_value_def)
  with fin lim show "\<bar>to_float x\<bar> \<le> of_int COORDINATE_LIMIT" "\<bar>to_float y\<bar> \<le> of_int COORDINATE_LIMIT"
    by simp_all
qed

lemma parse_label_ok:
  assumes "parse_label i v issues = ([], l)"
  shows "issues = [] \<and> label_ok l"
proof (cases v)
  case (JStr s)
  have "length (py_strip s) \<le> length s"
    using length_dropWhile_le [of py_space "rev (dropWhile py_space s)"] length_dropWhile_le [of py_space s]
    by (simp add: py_strip_def)
  then show ?thesis
    using assms JStr by (auto simp: parse_label_def label_ok_def split: if_split_asm)
qed (use assms in \<open>auto simp: parse_label_def label_ok_def split: if_split_asm\<close>)

definition nodes_ok :: "graph_node list \<Rightarrow> bool" where
  "nodes_ok ns \<longleftrightarrow> distinct (map gn_id ns) \<and> list_all node_ok ns"

lemma parse_node_ok:
  assumes "parse_node k v (issues, nodes) = Inr ([], nodes')"
  shows "issues = [] \<and> (nodes_ok nodes \<longrightarrow> nodes_ok nodes') \<and> length nodes' \<le> length nodes + 1"
proof -
  from assms obtain raw where raw: "v = JObj raw"
    by (cases v) (auto simp: parse_node_def)
  from assms raw obtain i where i: "json_get raw ''id'' = JStr i"
    by (cases "json_get raw ''id''") (auto simp: parse_node_def)
  from assms raw i have idm: "identifier_match i" and new: "find_node nodes i = None"
    by (auto simp: parse_node_def split: if_split_asm)
  define ft where "ft = (case json_get raw ''type'' of JStr t \<Rightarrow> find_node_type t | _ \<Rightarrow> None)"
  from assms raw i idm new obtain spec where spec: "ft = Some spec"
    unfolding parse_node_def ft_def by (cases ft) (auto simp: ft_def [symmetric])
  then obtain t where t: "find_node_type t = Some spec"
    by (auto simp: ft_def split: json.split_asm)
  define x y where "x = get_or (as_object (json_get raw ''position'')) ''x'' (JInt 0)"
    and "y = get_or (as_object (json_get raw ''position'')) ''y'' (JInt 0)"
  have step: "parse_node k v (issues, nodes) = res_bind (bad_position x y) (\<lambda>bad.
      if bad then Inr (issues @ [(issue ''the node position is invalid'' [])\<lparr>gi_node_id := Some i\<rparr>], nodes)
      else res_bind (parse_params i (as_object (json_get raw ''data'')) (nt_params spec) issues [])
        (\<lambda>(issues', data).
          let (issues'', label) = parse_label i (json_get raw ''label'') issues' in
          Inr (issues'', nodes @ [\<lparr>gn_id = i, gn_type = nt_type spec,
            gn_x = to_float x, gn_y = to_float y, gn_data = data, gn_label = label\<rparr>])))"
    using raw i idm new spec unfolding parse_node_def ft_def x_def y_def by (simp add: Let_def)
  from assms step obtain issues' data l where pos: "bad_position x y = Inr False"
    and params: "parse_params i (as_object (json_get raw ''data'')) (nt_params spec) issues [] = Inr (issues', data)"
    and label: "parse_label i (json_get raw ''label'') issues' = ([], l)"
    and nodes': "nodes' = nodes @ [\<lparr>gn_id = i, gn_type = nt_type spec,
        gn_x = to_float x, gn_y = to_float y, gn_data = data, gn_label = l\<rparr>]"
  proof -
    from assms step have pos: "bad_position x y = Inr False"
      by (auto simp: res_simps split: if_split_asm)
    with assms step obtain a b where p: "parse_params i (as_object (json_get raw ''data'')) (nt_params spec) issues [] = Inr (a, b)"
      by (auto simp: res_simps)
    obtain c d where "parse_label i (json_get raw ''label'') a = (c, d)" by fastforce
    with assms step pos p that show thesis by (simp add: Let_def)
  qed
  from parse_label_ok [OF label] have l: "issues' = []" "label_ok l" by auto
  have "issues = [] \<and> data_ok ([] @ nt_params spec) data"
    using params l(1) node_type_ok(2,3) [OF t]
    by (intro parse_params_ok) (auto simp: list_all_iff data_ok_def)
  moreover have "node_spec \<lparr>gn_id = i, gn_type = nt_type spec, gn_x = to_float x, gn_y = to_float y,
      gn_data = data, gn_label = l\<rparr> = spec"
    using t node_type_ok(1) [OF t] by (simp add: node_spec_def)
  moreover have "i \<notin> gn_id ` set nodes"
    using new unfolding find_node_def row_where_def find_None_iff by auto
  ultimately show ?thesis
    using nodes' idm t node_type_ok(1) [OF t] bad_position_False [OF pos] l(2)
    by (auto simp: nodes_ok_def node_ok_def)
qed

lemma parse_nodes_ok:
  assumes "parse_nodes k vs (issues, nodes) = Inr ([], nodes')"
  shows "issues = [] \<and> (nodes_ok nodes \<longrightarrow> nodes_ok nodes') \<and> length nodes' \<le> length nodes + length vs"
  using assms
proof (induction vs arbitrary: k issues nodes)
  case (Cons v vs)
  then obtain is1 ns1 where one: "parse_node k v (issues, nodes) = Inr (is1, ns1)"
    and rest: "parse_nodes (k + 1) vs (is1, ns1) = Inr ([], nodes')"
    by (auto simp: res_simps)
  from Cons.IH [OF rest] have IH: "is1 = []" "nodes_ok ns1 \<longrightarrow> nodes_ok nodes'"
    "length nodes' \<le> length ns1 + length vs" by auto
  with parse_node_ok one show ?case by fastforce
qed simp

section \<open>Well-formed connections\<close>

definition edge_ok :: "graph_node list \<Rightarrow> graph_edge \<Rightarrow> bool" where
  "edge_ok nodes e \<longleftrightarrow> identifier_match (ge_id e) \<and> ge_source e \<noteq> ge_target e \<and>
     (case (find_node nodes (ge_source e), find_node nodes (ge_target e)) of
        (Some s, Some t) \<Rightarrow>
          (case (nt_output (node_spec s) (ge_source_port e), nt_input (node_spec t) (ge_target_port e)) of
             (Some out, Some inp) \<Rightarrow> po_data_type out = po_data_type inp
           | _ \<Rightarrow> False)
      | _ \<Rightarrow> False)"

definition edge_pair :: "graph_edge \<Rightarrow> string \<times> string \<times> string \<times> string" where
  "edge_pair e = (ge_source e, ge_source_port e, ge_target e, ge_target_port e)"

definition fan_in :: "graph_edge list \<Rightarrow> string \<Rightarrow> string \<Rightarrow> int" where
  "fan_in es t p = int (length (filter (\<lambda>e. ge_target e = t \<and> ge_target_port e = p) es))"

definition edges_ok :: "graph_node list \<Rightarrow> graph_edge list \<Rightarrow> bool" where
  "edges_ok nodes es \<longleftrightarrow> distinct (map ge_id es) \<and> distinct (map edge_pair es) \<and> list_all (edge_ok nodes) es \<and>
     list_all (\<lambda>n. list_all (\<lambda>p. fan_in es (gn_id n) (po_key p) \<le> port_limit p) (nt_inputs (node_spec n))) nodes"

definition edge_state_ok :: "graph_node list \<Rightarrow> edge_state \<Rightarrow> bool" where
  "edge_state_ok nodes st \<longleftrightarrow> edges_ok nodes (es_edges st) \<and>
     es_edge_ids st = ge_id ` set (es_edges st) \<and> es_pairs st = edge_pair ` set (es_edges st) \<and>
     (\<forall>t p. fan_in_count st t p = fan_in (es_edges st) t p)"

lemma nt_input_SomeD: "nt_input spec p = Some q \<Longrightarrow> q \<in> set (nt_inputs spec) \<and> po_key q = p"
  unfolding nt_input_def by (rule row_where_SomeD)

lemma nt_output_SomeD: "nt_output spec p = Some q \<Longrightarrow> q \<in> set (nt_outputs spec) \<and> po_key q = p"
  unfolding nt_output_def by (rule row_where_SomeD)

lemma connect_cases:
  obtains (issue) i where "connect eid s sp t tp st = edge_issue st i"
  | (edge) out inp where "gn_id s \<noteq> gn_id t" "sp = JStr (po_key out)" "tp = JStr (po_key inp)"
    "nt_output (node_spec s) (po_key out) = Some out" "nt_input (node_spec t) (po_key inp) = Some inp"
    "po_data_type out = po_data_type inp"
    "(gn_id s, po_key out, gn_id t, po_key inp) \<notin> es_pairs st"
    "fan_in_count st (gn_id t) (po_key inp) + 1 \<le> port_limit inp"
    "connect eid s sp t tp st =
       st\<lparr>es_fan_in := AList.update (gn_id t, po_key inp) (fan_in_count st (gn_id t) (po_key inp) + 1) (es_fan_in st),
          es_pairs := insert (gn_id s, po_key out, gn_id t, po_key inp) (es_pairs st),
          es_edge_ids := insert eid (es_edge_ids st),
          es_edges := es_edges st @ [\<lparr>ge_id = eid, ge_source = gn_id s, ge_source_port = po_key out,
            ge_target = gn_id t, ge_target_port = po_key inp\<rparr>]\<rparr>"
proof (cases "gn_id s = gn_id t")
  case True
  then show thesis by (intro issue) (simp add: connect_def)
next
  case ne: False
  show thesis
  proof (cases "case sp of JStr p \<Rightarrow> nt_output (node_spec s) p | _ \<Rightarrow> None")
    case None
    with ne show thesis by (intro issue) (simp add: connect_def)
  next
    case out: (Some out)
    then have sp: "sp = JStr (po_key out)" "nt_output (node_spec s) (po_key out) = Some out"
      using nt_output_SomeD by (auto split: json.split_asm)
    show thesis
    proof (cases "case tp of JStr p \<Rightarrow> nt_input (node_spec t) p | _ \<Rightarrow> None")
      case None
      with ne out show thesis by (intro issue) (simp add: connect_def)
    next
      case inp: (Some inp)
      then have tp: "tp = JStr (po_key inp)" "nt_input (node_spec t) (po_key inp) = Some inp"
        using nt_input_SomeD by (auto split: json.split_asm)
      show thesis
      proof (cases "po_data_type out = po_data_type inp \<and>
          (gn_id s, po_key out, gn_id t, po_key inp) \<notin> es_pairs st \<and>
          fan_in_count st (gn_id t) (po_key inp) + 1 \<le> port_limit inp")
        case True
        with ne sp tp show thesis by (intro edge) (simp_all add: connect_def)
      next
        case False
        then consider "po_data_type out \<noteq> po_data_type inp"
          | "po_data_type out = po_data_type inp" "(gn_id s, po_key out, gn_id t, po_key inp) \<in> es_pairs st"
          | "po_data_type out = po_data_type inp" "(gn_id s, po_key out, gn_id t, po_key inp) \<notin> es_pairs st"
            "fan_in_count st (gn_id t) (po_key inp) + 1 > port_limit inp" by linarith
        then show thesis
          by cases (use ne out inp in \<open>intro issue, simp add: connect_def Let_def\<close>)+
      qed
    qed
  qed
qed

lemma edge_ok_alt:
  "edge_ok nodes e \<longleftrightarrow> identifier_match (ge_id e) \<and> ge_source e \<noteq> ge_target e \<and>
     (\<exists>s t out inp. find_node nodes (ge_source e) = Some s \<and> find_node nodes (ge_target e) = Some t \<and>
        nt_output (node_spec s) (ge_source_port e) = Some out \<and> nt_input (node_spec t) (ge_target_port e) = Some inp \<and>
        po_data_type out = po_data_type inp)"
  by (auto simp: edge_ok_def split: option.split)

lemma input_key_unique:
  assumes "find_node_type t = Some spec" and "p \<in> set (nt_inputs spec)" and "q \<in> set (nt_inputs spec)"
    and "po_key p = po_key q"
  shows "p = q"
proof -
  have "spec \<in> set NODE_TYPES"
    using row_where_SomeD [OF assms(1) [unfolded find_node_type_def]] by simp
  then have "distinct (map po_key (nt_inputs spec))"
    using bspec [OF catalogue_is_ok [unfolded catalogue_ok_def list_all_iff [of _ NODE_TYPES]]] by blast
  then show ?thesis using assms(2-4) by (simp add: distinct_map inj_on_def)
qed

lemma edge_ok_extend:
  assumes "nodes_ok nodes" and "edges_ok nodes es" and "identifier_match eid" and "eid \<notin> ge_id ` set es"
    and "find_node nodes (gn_id s) = Some s" and "find_node nodes (gn_id t) = Some t" and "gn_id s \<noteq> gn_id t"
    and "nt_output (node_spec s) (po_key out) = Some out" and "nt_input (node_spec t) (po_key inp) = Some inp"
    and "po_data_type out = po_data_type inp"
    and "(gn_id s, po_key out, gn_id t, po_key inp) \<notin> edge_pair ` set es"
    and "fan_in es (gn_id t) (po_key inp) + 1 \<le> port_limit inp"
  shows "edges_ok nodes (es @ [\<lparr>ge_id = eid, ge_source = gn_id s, ge_source_port = po_key out,
    ge_target = gn_id t, ge_target_port = po_key inp\<rparr>])" (is "edges_ok nodes (es @ [?e])")
proof -
  have "edge_ok nodes ?e" using assms(3,5-10) by (simp add: edge_ok_def)
  moreover have "fan_in (es @ [?e]) (gn_id n) (po_key p) \<le> port_limit p"
    if n: "n \<in> set nodes" and p: "p \<in> set (nt_inputs (node_spec n))" for n p
  proof (cases "gn_id n = gn_id t \<and> po_key p = po_key inp")
    case True
    have t: "t \<in> set nodes" using assms(6) by (simp add: find_node_def row_where_SomeD)
    then have "n = t" using True n assms(1) by (simp add: nodes_ok_def distinct_map inj_on_def)
    moreover have "node_ok t" using t assms(1) by (simp add: nodes_ok_def list_all_iff)
    then obtain spec where "find_node_type (gn_type t) = Some spec" by (auto simp: node_ok_def)
    moreover have "inp \<in> set (nt_inputs (node_spec t))" using nt_input_SomeD [OF assms(9)] by simp
    ultimately have "p = inp" using p True
      by (intro input_key_unique [of "gn_type t" spec]) (simp_all add: node_spec_def)
    then show ?thesis using assms(12) True by (simp add: fan_in_def)
  next
    case False
    then show ?thesis using assms(2) n p by (auto simp: edges_ok_def list_all_iff fan_in_def)
  qed
  ultimately show ?thesis
    using assms(2,4,11) by (auto simp: edges_ok_def list_all_iff edge_pair_def)
qed

lemma connect_ok:
  assumes "es_issues (connect eid s sp t tp st) = []" and "nodes_ok nodes" and "edge_state_ok nodes st"
    and "identifier_match eid" and "eid \<notin> es_edge_ids st"
    and "find_node nodes (gn_id s) = Some s" and "find_node nodes (gn_id t) = Some t"
  shows "edge_state_ok nodes (connect eid s sp t tp st)"
proof (cases rule: connect_cases [of eid s sp t tp st])
  case (issue i)
  then show ?thesis using assms(1) by (simp add: edge_issue_def)
next
  case (edge out inp)
  define st' where "st' = connect eid s sp t tp st"
  have "edges_ok nodes (es_edges st')"
    unfolding st'_def edge(9) using edge assms by (simp, intro edge_ok_extend) (auto simp: edge_state_ok_def)
  moreover have "fan_in_count st' t' p = fan_in (es_edges st') t' p" for t' p
    using assms(3) unfolding st'_def edge(9)
    by (auto simp: fan_in_count_def map_of_update fan_in_def edge_state_ok_def)
  ultimately show ?thesis
    using assms(3) unfolding st'_def edge(9) by (auto simp: edge_state_ok_def edge_pair_def)
qed

lemma connect_mono: "length (es_issues st) \<le> length (es_issues (connect eid s sp t tp st)) \<and>
    length (es_edges (connect eid s sp t tp st)) \<le> length (es_edges st) + 1"
  by (cases rule: connect_cases [of eid s sp t tp st]) (simp_all add: edge_issue_def)

lemma node_of_Some: "node_of nodes v = Inr (Some n) \<Longrightarrow> find_node nodes (gn_id n) = Some n \<and> v = JStr (gn_id n)"
  unfolding node_of_def find_node_def
  by (cases v) (auto simp: hashable_def dest: row_where_SomeD split: if_split_asm)

lemma parse_edge_cases:
  assumes "parse_edge nodes k v st = Inr st'"
  obtains (issue) i where "st' = edge_issue st i"
  | (connect) eid s t sp tp where "st' = connect eid s sp t tp st" "identifier_match eid" "eid \<notin> es_edge_ids st"
    "find_node nodes (gn_id s) = Some s" "find_node nodes (gn_id t) = Some t"
proof (cases v)
  case (JObj raw)
  show thesis
  proof (cases "json_get raw ''id''")
    case (JStr eid)
    show thesis
    proof (cases "\<not> identifier_match eid \<or> eid \<in> es_edge_ids st")
      case True
      with JObj JStr assms have "st' = edge_issue st (issue ''connection has an invalid or repeated id''
          [ANum (of_int (k + 1))])" by (auto simp: parse_edge_def)
      then show thesis by (rule issue)
    next
      case new: False
      with JObj JStr assms obtain so where so: "node_of nodes (json_get raw ''source'') = Inr so"
        by (auto simp: parse_edge_def res_simps)
      show thesis
      proof (cases so)
        case None
        with new so JObj JStr assms show thesis by (intro issue [OF sym]) (simp add: parse_edge_def)
      next
        case s: (Some s)
        with new so JObj JStr assms obtain to where "to": "node_of nodes (json_get raw ''target'') = Inr to"
          by (auto simp: parse_edge_def res_simps)
        show thesis
        proof (cases "to")
          case None
          with s "to" new so JObj JStr assms show thesis by (intro issue [OF sym]) (simp add: parse_edge_def)
        next
          case (Some t)
          with s "to" new so JObj JStr assms node_of_Some show thesis
            by (intro connect) (auto simp: parse_edge_def)
        qed
      qed
    qed
  qed (use JObj assms in \<open>intro issue [OF sym], simp add: parse_edge_def\<close>)+
qed (use assms in \<open>intro issue [OF sym], simp add: parse_edge_def\<close>)+

lemma parse_edge_mono:
  assumes "parse_edge nodes k v st = Inr st'"
  shows "length (es_issues st) \<le> length (es_issues st') \<and> length (es_edges st') \<le> length (es_edges st) + 1"
  using assms by (cases rule: parse_edge_cases) (simp_all add: edge_issue_def connect_mono [simplified])

lemma parse_edge_ok:
  assumes "parse_edge nodes k v st = Inr st'" and "es_issues st' = []" and "nodes_ok nodes"
    and "edge_state_ok nodes st"
  shows "edge_state_ok nodes st'"
  using assms(1)
proof (cases rule: parse_edge_cases)
  case (issue i)
  then show ?thesis using assms(2) by (simp add: edge_issue_def)
next
  case (connect eid s t sp tp)
  then show ?thesis using assms by (auto intro: connect_ok)
qed

lemma parse_edges_mono:
  "parse_edges nodes k vs st = Inr st' \<Longrightarrow>
     length (es_issues st) \<le> length (es_issues st') \<and> length (es_edges st') \<le> length (es_edges st) + length vs"
proof (induction vs arbitrary: k st)
  case (Cons v vs)
  then obtain st1 where one: "parse_edge nodes k v st = Inr st1"
    and rest: "parse_edges nodes (k + 1) vs st1 = Inr st'"
    by (auto simp: res_simps)
  from parse_edge_mono [OF one] Cons.IH [OF rest] show ?case by simp
qed simp

lemma parse_edges_ok:
  assumes "parse_edges nodes k vs st = Inr st'" and "es_issues st' = []" and "nodes_ok nodes"
    and "edge_state_ok nodes st"
  shows "edge_state_ok nodes st'"
  using assms(1,4)
proof (induction vs arbitrary: k st)
  case (Cons v vs)
  then obtain st1 where one: "parse_edge nodes k v st = Inr st1"
    and rest: "parse_edges nodes (k + 1) vs st1 = Inr st'"
    by (auto simp: res_simps)
  have "es_issues st1 = []" using parse_edges_mono [OF rest] assms(2) by simp
  with parse_edge_ok [OF one _ assms(3) Cons.prems(2)] Cons.IH [OF rest] show ?case by simp
qed simp

section \<open>Well-formed graphs\<close>

definition coordinate_ok :: "json \<Rightarrow> bool" where
  "coordinate_ok v \<longleftrightarrow> v = JInt COORDINATE_LIMIT \<or> v = JInt (- COORDINATE_LIMIT) \<or>
     (case v of JFloat (Finite r) \<Rightarrow> \<bar>r\<bar> < of_int COORDINATE_LIMIT | _ \<Rightarrow> False)"

definition zoom_ok :: "json \<Rightarrow> bool" where
  "zoom_ok v \<longleftrightarrow> (case v of JFloat (Finite r) \<Rightarrow> tenth \<le> r \<and> r \<le> 4 | _ \<Rightarrow> False)"

definition viewport_ok :: "(string \<times> json) list \<Rightarrow> bool" where
  "viewport_ok vp \<longleftrightarrow> map fst vp = [''x'', ''y'', ''zoom''] \<and>
     list_all2 (\<lambda>ok (k, v). ok v) [coordinate_ok, coordinate_ok, zoom_ok] vp"

definition graph_ok :: "workflow_graph \<Rightarrow> bool" where
  "graph_ok g \<longleftrightarrow> nodes_ok (wg_nodes g) \<and> edges_ok (wg_nodes g) (wg_edges g) \<and>
     int (length (wg_nodes g)) \<le> MAX_NODES \<and> int (length (wg_edges g)) \<le> MAX_EDGES \<and>
     viewport_ok (wg_viewport g) \<and> acyclic (arcs g)"

lemma clamp_coordinate_ok: "coordinate_ok (clamp_coordinate x)"
  by (simp add: coordinate_ok_def clamp_coordinate_def COORDINATE_LIMIT_def abs_less_iff)

lemma clamp_zoom_ok: "zoom_ok (clamp_zoom z)"
  by (simp add: zoom_ok_def clamp_zoom_def tenth_def)

lemma parse_viewport_ok: "parse_viewport v = Inr vp \<Longrightarrow> viewport_ok vp"
  by (auto simp: parse_viewport_def viewport_ok_def res_simps Let_def clamp_coordinate_ok clamp_zoom_ok)

lemma graph_ok_endpoints:
  assumes "nodes_ok (wg_nodes g)" and "edges_ok (wg_nodes g) (wg_edges g)"
  shows "endpoints_ok g"
proof -
  have "ge_source e \<in> set (node_ids g) \<and> ge_target e \<in> set (node_ids g)" if "e \<in> set (wg_edges g)" for e
    using assms(2) that find_node_SomeD unfolding edges_ok_def list_all_iff edge_ok_alt node_ids_def
    by (metis image_eqI set_map)
  then show ?thesis using assms(1) by (simp add: endpoints_ok_def nodes_ok_def node_ids_def)
qed

lemma parse_graph_Inr:
  assumes "parse_graph flen v = Inr g"
  obtains doc raw_nodes raw_edges st order where "v = JObj doc"
    "int (length raw_nodes) \<le> MAX_NODES" "int (length raw_edges) \<le> MAX_EDGES"
    "parse_nodes 0 raw_nodes ([], []) = Inr ([], wg_nodes g)"
    "parse_edges (wg_nodes g) 0 raw_edges
       \<lparr>es_issues = [], es_edges = [], es_edge_ids = {}, es_pairs = {}, es_fan_in = []\<rparr> = Inr st"
    "es_issues st = []" "es_edges st = wg_edges g"
    "parse_viewport (json_get doc ''viewport'') = Inr (wg_viewport g)"
    "topological_order g = Inr order"
proof -
  from assms obtain doc where v: "v = JObj doc" by (cases v) (auto simp: parse_graph_def)
  have guards: "json_encodable v" "\<not> json_bytes flen v > MAX_DOCUMENT_BYTES"
    and schema: "get_or doc ''schema'' (JStr GRAPH_SCHEMA) = JStr GRAPH_SCHEMA"
    using assms v by (auto simp: parse_graph_def split: if_split_asm)
  obtain N E where NE: "get_or doc ''nodes'' (JList []) = N" "get_or doc ''edges'' (JList []) = E" by simp
  have "\<exists>rn re. N = JList rn \<and> E = JList re"
    using assms v guards schema NE by (cases N; cases E) (simp_all add: parse_graph_def)
  then obtain rn re where lists: "get_or doc ''nodes'' (JList []) = JList rn"
    "get_or doc ''edges'' (JList []) = JList re" using NE by auto
  with assms v schema have counts: "int (length rn) \<le> MAX_NODES" "int (length re) \<le> MAX_EDGES"
    by (auto simp: parse_graph_def split: if_split_asm)
  from assms v schema lists counts obtain issues nodes st vp where
    nodes: "parse_nodes 0 rn ([], []) = Inr (issues, nodes)"
    and edges: "parse_edges nodes 0 re
       \<lparr>es_issues = issues, es_edges = [], es_edge_ids = {}, es_pairs = {}, es_fan_in = []\<rparr> = Inr st"
    and vp: "parse_viewport (json_get doc ''viewport'') = Inr vp"
    and none: "es_issues st = []"
    and g: "g = \<lparr>wg_nodes = nodes, wg_edges = es_edges st, wg_viewport = vp\<rparr>"
    and top: "\<not> isl (topological_order g)"
    by (auto simp: parse_graph_def res_simps Let_def split: if_split_asm)
  have issues: "issues = []" using parse_edges_mono [OF edges] none by simp
  from top obtain order where order: "topological_order g = Inr order" by (cases "topological_order g") auto
  show thesis
    by (rule that [OF v counts _ _ none _ _ order]) (use nodes edges vp g issues in simp_all)
qed

lemma parse_graph_ok:
  assumes "parse_graph flen v = Inr g"
  shows "graph_ok g"
  using assms
proof (cases rule: parse_graph_Inr)
  case (1 doc rn re st order)
  have nodes: "nodes_ok (wg_nodes g)" and len: "length (wg_nodes g) \<le> length rn"
    using parse_nodes_ok [OF 1(4)] by (simp_all add: nodes_ok_def)
  have "edge_state_ok (wg_nodes g)
      \<lparr>es_issues = [], es_edges = [], es_edge_ids = {}, es_pairs = {}, es_fan_in = []\<rparr>"
    by (auto simp: edge_state_ok_def edges_ok_def fan_in_def fan_in_count_def list_all_iff port_limit_def)
  with parse_edges_ok [OF 1(5,6) nodes] have "edge_state_ok (wg_nodes g) st" by simp
  then have edges: "edges_ok (wg_nodes g) (wg_edges g)" using 1(7) by (simp add: edge_state_ok_def)
  moreover have "length (wg_edges g) \<le> length re" using parse_edges_mono [OF 1(5)] 1(7) by simp
  moreover have "acyclic (arcs g)"
    using topological_order_cases [OF graph_ok_endpoints [OF nodes edges]] 1(9) by (auto split: if_split_asm)
  ultimately show ?thesis using nodes len 1 parse_viewport_ok by (auto simp: graph_ok_def)
qed

end
