(* ===== verification/Workflow_Roundtrip.thy ===== *)
theory Workflow_Roundtrip
  imports Workflow_Sound
begin

text \<open>
  A stored canvas is read back unchanged. \<open>settled_graph\<close> is the extra condition: no parameter
  holds a value that a second reading would replace.
\<close>

section \<open>Parameters and nodes\<close>

definition settled_node :: "graph_node \<Rightarrow> bool" where
  "settled_node n \<longleftrightarrow> list_all2 (\<lambda>p (k, v). settled_value p v) (nt_params (node_spec n)) (gn_data n)"

definition settled_graph :: "workflow_graph \<Rightarrow> bool" where
  "settled_graph g \<longleftrightarrow> list_all settled_node (wg_nodes g)"

lemma parse_params_stored:
  assumes "list_all2 (\<lambda>p (k, v). value_ok p v) ps rest" and "list_all2 (\<lambda>p (k, v). settled_value p v) ps rest"
    and "map fst rest = map pa_key ps" and "list_all spec_ok ps"
    and "distinct (map fst (pre @ rest))" and "\<forall>(k, v) \<in> set rest. map_of raw k = Some v"
  shows "parse_params i raw ps issues pre = Inr (issues, pre @ rest)"
  using assms
proof (induction ps arbitrary: rest pre)
  case (Cons p ps)
  then obtain v rest' where rest: "rest = (pa_key p, v) # rest'" by (cases rest) auto
  have "normalize_param p v = Inr (v, None)"
    using Cons.prems(1,2,4) rest by (intro normalize_param_stable) auto
  moreover have "json_get raw (pa_key p) = v" using Cons.prems(6) rest by (simp add: json_get_def)
  moreover have "AList.update (pa_key p) v pre = pre @ [(pa_key p, v)]"
    using Cons.prems(5) rest by (intro update_fresh) auto
  ultimately show ?case
    using Cons.IH [of rest' "pre @ [(pa_key p, v)]"] Cons.prems rest by simp
qed simp

lemma parse_label_stored:
  assumes "label_ok l"
  shows "parse_label i (if py_falsy l then JNull else JStr (the l)) issues = (issues, l)"
  using assms by (cases l) (auto simp: parse_label_def label_ok_def py_falsy_def)

lemma parse_node_stored:
  assumes "node_ok n" and "settled_node n" and "find_node nodes (gn_id n) = None"
  shows "parse_node k (node_json n) (issues, nodes) = Inr (issues, nodes @ [n])"
proof -
  from assms(1) obtain spec where spec: "find_node_type (gn_type n) = Some spec" by (auto simp: node_ok_def)
  then have ns: "node_spec n = spec" by (simp add: node_spec_def)
  have keys: "map fst (gn_data n) = map pa_key (nt_params spec)"
    using assms(1) ns by (simp add: node_ok_def data_ok_def)
  have dist: "distinct (map fst (gn_data n))" unfolding keys by (rule node_type_ok(2) [OF spec])
  then have "\<forall>(k, v) \<in> set (gn_data n). map_of (gn_data n) k = Some v" by auto
  then have params: "parse_params (gn_id n) (gn_data n) (nt_params spec) issues [] = Inr (issues, [] @ gn_data n)"
    using assms(1,2) ns keys dist node_type_ok(3) [OF spec]
    by (intro parse_params_stored) (auto simp: node_ok_def data_ok_def settled_node_def list_all_iff)
  have "bad_position (JFloat (Finite (gn_x n))) (JFloat (Finite (gn_y n))) = Inr False"
    using assms(1) by (simp add: bad_position_def is_finite_def number_value_def node_ok_def not_less)
  moreover have "nt_type spec = gn_type n" by (rule node_type_ok(1) [OF spec])
  moreover have "parse_label (gn_id n) (json_get (case node_json n of JObj d \<Rightarrow> d) ''label'') issues = (issues, gn_label n)"
    using assms(1) parse_label_stored [of "gn_label n"] by (auto simp: node_ok_def node_json_def json_get_def)
  moreover have "identifier_match (gn_id n)" using assms(1) by (simp add: node_ok_def)
  ultimately show ?thesis
    using assms(3) spec params
    by (simp add: parse_node_def node_json_def json_get_def get_or_def as_object_def to_float_def)
qed

lemma parse_nodes_stored:
  assumes "nodes_ok (pre @ ns)" and "list_all settled_node ns"
  shows "parse_nodes k (map node_json ns) (issues, pre) = Inr (issues, pre @ ns)"
  using assms
proof (induction ns arbitrary: k pre)
  case (Cons n ns)
  have "find_node pre (gn_id n) = None"
    using Cons.prems(1) unfolding find_node_def row_where_def find_None_iff nodes_ok_def
    by (auto simp: image_iff)
  then have "parse_node k (node_json n) (issues, pre) = Inr (issues, pre @ [n])"
    using Cons.prems by (intro parse_node_stored) (auto simp: nodes_ok_def)
  moreover have "parse_nodes (k + 1) (map node_json ns) (issues, pre @ [n]) = Inr (issues, (pre @ [n]) @ ns)"
    using Cons.prems by (intro Cons.IH) auto
  ultimately show ?case by simp
qed simp

section \<open>Connections\<close>

lemma edges_ok_prefix: "edges_ok nodes (pre @ post) \<Longrightarrow> edges_ok nodes pre"
  unfolding edges_ok_def list_all_iff fan_in_def by fastforce

lemma connect_stored:
  assumes "edges_ok nodes (pre @ e # post)" and "nodes_ok nodes" and "edge_state_ok nodes st"
    and "es_edges st = pre" and "find_node nodes (ge_source e) = Some s" and "find_node nodes (ge_target e) = Some t"
  shows "\<exists>st'. connect (ge_id e) s (JStr (ge_source_port e)) t (JStr (ge_target_port e)) st = st' \<and>
    es_issues st' = es_issues st \<and> es_edges st' = pre @ [e]"
proof -
  have ids: "gn_id s = ge_source e" "gn_id t = ge_target e" "t \<in> set nodes"
    using assms(5,6) find_node_SomeD by auto
  have "edge_ok nodes e" using assms(1) by (simp add: edges_ok_def)
  with assms(5,6) obtain out inp where ports: "nt_output (node_spec s) (ge_source_port e) = Some out"
    "nt_input (node_spec t) (ge_target_port e) = Some inp" "po_data_type out = po_data_type inp"
    "ge_source e \<noteq> ge_target e" by (auto simp: edge_ok_alt)
  have keys: "po_key out = ge_source_port e" "po_key inp = ge_target_port e" "inp \<in> set (nt_inputs (node_spec t))"
    using nt_output_SomeD [OF ports(1)] nt_input_SomeD [OF ports(2)] by auto
  have "edge_pair e \<notin> edge_pair ` set pre" using assms(1) by (auto simp: edges_ok_def)
  then have fresh: "(gn_id s, po_key out, gn_id t, po_key inp) \<notin> es_pairs st"
    using assms(3,4) ids keys by (simp add: edge_state_ok_def edge_pair_def)
  have "fan_in (pre @ e # post) (gn_id t) (po_key inp) \<le> port_limit inp"
    using assms(1) ids(3) keys(3) by (simp add: edges_ok_def list_all_iff)
  then have "fan_in_count st (gn_id t) (po_key inp) + 1 \<le> port_limit inp"
    using assms(3,4) ids keys by (simp add: edge_state_ok_def fan_in_def)
  with fresh ports ids keys assms(4) show ?thesis by (simp add: connect_def)
qed

lemma parse_edge_stored:
  assumes "edges_ok nodes (pre @ e # post)" and "nodes_ok nodes" and "edge_state_ok nodes st"
    and "es_edges st = pre" and "es_issues st = []"
  shows "\<exists>st'. parse_edge nodes k (edge_json e) st = Inr st' \<and> es_issues st' = [] \<and>
    es_edges st' = pre @ [e] \<and> edge_state_ok nodes st'"
proof -
  have e: "edge_ok nodes e" using assms(1) by (simp add: edges_ok_def)
  then obtain s t where st: "find_node nodes (ge_source e) = Some s" "find_node nodes (ge_target e) = Some t"
    and idm: "identifier_match (ge_id e)" by (auto simp: edge_ok_alt)
  have "ge_id e \<notin> ge_id ` set pre" using assms(1) by (auto simp: edges_ok_def)
  then have "ge_id e \<notin> es_edge_ids st" using assms(3,4) by (simp add: edge_state_ok_def)
  then have step: "parse_edge nodes k (edge_json e) st =
      Inr (connect (ge_id e) s (JStr (ge_source_port e)) t (JStr (ge_target_port e)) st)"
    using st idm by (simp add: parse_edge_def edge_json_def json_get_def node_of_def hashable_def)
  from connect_stored [OF assms(1-4) st] assms(5) parse_edge_ok [OF step _ assms(2,3)]
  show ?thesis unfolding step by simp
qed

lemma parse_edges_stored:
  assumes "edges_ok nodes (pre @ es)" and "nodes_ok nodes" and "edge_state_ok nodes st"
    and "es_edges st = pre" and "es_issues st = []"
  shows "\<exists>st'. parse_edges nodes k (map edge_json es) st = Inr st' \<and> es_issues st' = [] \<and> es_edges st' = pre @ es"
  using assms
proof (induction es arbitrary: k pre st)
  case (Cons e es)
  from parse_edge_stored [OF Cons.prems] obtain st' where
    st': "parse_edge nodes k (edge_json e) st = Inr st'" "es_issues st' = []" "es_edges st' = pre @ [e]"
      "edge_state_ok nodes st'" by blast
  from Cons.IH [of "pre @ [e]" st' "k + 1"] Cons.prems(1,2) st' show ?case by simp
qed simp

section \<open>The document\<close>

lemma clamp_coordinate_stored:
  assumes "coordinate_ok v"
  shows "is_finite v = Inr True" and "clamp_coordinate (to_float v) = v"
proof -
  from assms consider "v = JInt 1000000" | "v = JInt (- 1000000)" | r where "v = JFloat (Finite r)" "\<bar>r\<bar> < 1000000"
    by (cases v) (auto simp: coordinate_ok_def COORDINATE_LIMIT_def split: pyfloat.split_asm)
  then have "is_finite v = Inr True \<and> clamp_coordinate (to_float v) = v"
    by cases (auto simp: is_finite_def to_float_def clamp_coordinate_def COORDINATE_LIMIT_def double_of_int_small)
  then show "is_finite v = Inr True" "clamp_coordinate (to_float v) = v" by simp_all
qed

lemma clamp_zoom_stored:
  assumes "zoom_ok v"
  shows "is_finite v = Inr True" and "clamp_zoom (to_float v) = v"
proof -
  from assms obtain r where "v = JFloat (Finite r)" "tenth \<le> r" "r \<le> 4"
    by (cases v) (auto simp: zoom_ok_def split: pyfloat.split_asm)
  then show "is_finite v = Inr True" "clamp_zoom (to_float v) = v"
    by (simp_all add: is_finite_def to_float_def clamp_zoom_def)
qed

lemma parse_viewport_stored:
  assumes "viewport_ok vp"
  shows "parse_viewport (JObj vp) = Inr vp"
proof -
  from assms obtain x y z where vp: "vp = [(''x'', x), (''y'', y), (''zoom'', z)]"
    and ok: "coordinate_ok x" "coordinate_ok y" "zoom_ok z"
    by (cases vp rule: list.exhaust) (auto simp: viewport_ok_def list_all2_Cons1)
  show ?thesis
    unfolding vp
    by (simp add: parse_viewport_def as_object_def viewport_value_def json_get_def
        clamp_coordinate_stored [OF ok(1)] clamp_coordinate_stored [OF ok(2)] clamp_zoom_stored [OF ok(3)])
qed

lemma int_bytes_small:
  assumes "0 \<le> n" and "n < 10 ^ k"
  shows "int_bytes n \<le> int k + 1"
  using assms
proof (induction k arbitrary: n)
  case 0
  then show ?case by (subst int_bytes.simps) simp
next
  case (Suc k)
  have "int_bytes (n div 10) \<le> int k + 1" using Suc.prems by (intro Suc.IH) auto
  then show ?case using Suc.prems by (subst int_bytes.simps) simp
qed

lemma value_encodable:
  assumes "spec_ok p" and "value_ok p v"
  shows "json_encodable v"
proof (cases v)
  case (JInt n)
  then have int: "pa_kind p = INTEGER" "in_bounds p (of_int n)"
    using assms(2) by (auto simp: value_ok_def split: param_kind.split_asm)
  from assms(1) int(1) obtain lo hi where "pa_minimum p = Some lo" "0 \<le> lo" "pa_maximum p = Some hi"
    "hi \<le> 1000000" by (auto simp: spec_ok_def split: option.split_asm)
  then have "of_int n \<le> (1000000 :: rat)" "(0 :: rat) \<le> of_int n" using int(2) by (auto simp: in_bounds_def)
  then have "0 \<le> n" "n < 10 ^ 7" by simp_all
  from int_bytes_small [OF this] this(1) show ?thesis using JInt by simp
next
  case (JList vs)
  then show ?thesis using assms(2) by (auto simp: value_ok_def split: param_kind.split_asm)
next
  case (JObj kvs)
  then show ?thesis using assms(2) by (auto simp: value_ok_def split: param_kind.split_asm)
qed simp_all

lemma node_encodable:
  assumes "node_ok n"
  shows "json_encodable (node_json n)"
proof -
  from assms obtain spec where spec: "find_node_type (gn_type n) = Some spec" by (auto simp: node_ok_def)
  have "list_all2 (\<lambda>p (k, v). value_ok p v) (nt_params spec) (gn_data n)"
    using assms spec by (simp add: node_ok_def data_ok_def node_spec_def)
  then have "list_all2 (\<lambda>p (k, v). json_encodable v) (nt_params spec) (gn_data n)"
    by (rule list.rel_mono_strong) (use node_type_ok(3) [OF spec] value_encodable in auto)
  then have "list_all (\<lambda>(k, v). json_encodable v) (gn_data n)"
    by (fastforce simp: list_all_iff list_all2_conv_all_nth in_set_conv_nth)
  then show ?thesis by (simp add: node_json_def)
qed

lemma graph_encodable:
  assumes "graph_ok g"
  shows "json_encodable (graph_json g)"
proof -
  have "json_encodable v" if "coordinate_ok v" for v
    using that int_bytes_small [of 1000000 7]
    by (cases v) (auto simp: coordinate_ok_def COORDINATE_LIMIT_def)
  moreover have "json_encodable v" if "zoom_ok v" for v using that by (cases v) (auto simp: zoom_ok_def)
  ultimately have "list_all (\<lambda>(k, v). json_encodable v) (wg_viewport g)"
    using assms by (auto simp: graph_ok_def viewport_ok_def list_all2_Cons1)
  moreover have "list_all json_encodable (map node_json (wg_nodes g))"
    using assms node_encodable by (auto simp: graph_ok_def nodes_ok_def list_all_iff)
  ultimately show ?thesis by (simp add: graph_json_def list_all_iff edge_json_def)
qed

lemma parse_graph_stored:
  assumes ok: "graph_ok g" and "settled_graph g" and "json_bytes flen (graph_json g) \<le> MAX_DOCUMENT_BYTES"
  shows "parse_graph flen (graph_json g) = Inr g"
proof -
  have nodes: "parse_nodes 0 (map node_json (wg_nodes g)) ([], []) = Inr ([], wg_nodes g)"
    using parse_nodes_stored [of "[]" "wg_nodes g"] assms by (simp add: graph_ok_def settled_graph_def)
  have "edge_state_ok (wg_nodes g)
      \<lparr>es_issues = [], es_edges = [], es_edge_ids = {}, es_pairs = {}, es_fan_in = []\<rparr>"
    by (auto simp: edge_state_ok_def edges_ok_def fan_in_def fan_in_count_def list_all_iff port_limit_def)
  with parse_edges_stored [of "wg_nodes g" "[]" "wg_edges g"
      "\<lparr>es_issues = [], es_edges = [], es_edge_ids = {}, es_pairs = {}, es_fan_in = []\<rparr>" 0] ok
  obtain st where
    edges: "parse_edges (wg_nodes g) 0 (map edge_json (wg_edges g))
      \<lparr>es_issues = [], es_edges = [], es_edge_ids = {}, es_pairs = {}, es_fan_in = []\<rparr> = Inr st"
    "es_issues st = []" "es_edges st = wg_edges g"
    by (auto simp: graph_ok_def)
  have vp: "parse_viewport (JObj (wg_viewport g)) = Inr (wg_viewport g)"
    using ok by (intro parse_viewport_stored) (simp add: graph_ok_def)
  from ok have "endpoints_ok g" by (intro graph_ok_endpoints) (auto simp: graph_ok_def)
  with topological_order_cases [of g] ok obtain order where order: "topological_order g = Inr order"
    by (auto simp: graph_ok_def)
  have size: "\<not> json_bytes flen (graph_json g) > MAX_DOCUMENT_BYTES" using assms(3) by simp
  note enc = graph_encodable [OF ok]
  have doc: "graph_json g = JObj [(''schema'', JStr GRAPH_SCHEMA), (''nodes'', JList (map node_json (wg_nodes g))),
      (''edges'', JList (map edge_json (wg_edges g))), (''viewport'', JObj (wg_viewport g))]"
    by (rule graph_json_def)
  have same: "\<lparr>wg_nodes = wg_nodes g, wg_edges = wg_edges g, wg_viewport = wg_viewport g\<rparr> = g" by simp
  show ?thesis
    using size enc nodes edges vp order ok unfolding doc parse_graph_def
    by (simp add: get_or_def json_get_def graph_ok_def not_less Let_def same del: json_bytes.simps json_encodable.simps)
qed

end
