(* ===== verification/Workflow_Properties.thy ===== *)
theory Workflow_Properties
  imports Workflow_Roundtrip
begin

text \<open>
  The contract of the canvas document (\<^verbatim>\<open>core/workflows/workflow_core/graph.py\<close>): what a
  document that is accepted looks like, that saving it and reading it back changes nothing, the
  order of execution, the closures of a selection, what makes a selection ready to run, and what a
  fingerprint depends on.
\<close>

section \<open>Sample documents\<close>

definition sample_node :: "string \<Rightarrow> string \<Rightarrow> (string \<times> json) list \<Rightarrow> json" where
  "sample_node i t data = JObj [(''id'', JStr i), (''type'', JStr t),
     (''position'', JObj [(''x'', JInt 0), (''y'', JInt 40)]), (''data'', JObj data)]"

definition sample_edge :: "string \<Rightarrow> string \<Rightarrow> string \<Rightarrow> string \<Rightarrow> string \<Rightarrow> json" where
  "sample_edge i s sp t tp = JObj [(''id'', JStr i), (''source'', JStr s), (''source_port'', JStr sp),
     (''target'', JStr t), (''target_port'', JStr tp)]"

definition sample_document :: "json list \<Rightarrow> json list \<Rightarrow> json" where
  "sample_document ns es = JObj [(''schema'', JStr GRAPH_SCHEMA), (''nodes'', JList ns), (''edges'', JList es)]"

definition sample :: json where
  "sample = sample_document
     [sample_node ''t'' ''text'' [(''text'', JStr ''a cat'')],
      sample_node ''i'' ''image_generation'' [(''prompt'', JStr '''')],
      sample_node ''v'' ''video_generation'' []]
     [sample_edge ''e1'' ''t'' ''text'' ''i'' ''prompt'', sample_edge ''e2'' ''t'' ''text'' ''v'' ''prompt'',
      sample_edge ''e3'' ''i'' ''image'' ''v'' ''first_frame'']"

definition sample_flen :: "rat \<Rightarrow> int" where
  "sample_flen r = 24"

definition sample_graph :: workflow_graph where
  "sample_graph = projr (parse_graph sample_flen sample)"

lemma sample_parses: "parse_graph sample_flen sample = Inr sample_graph"
proof -
  have "\<not> isl (parse_graph sample_flen sample)" by code_simp
  then show ?thesis unfolding sample_graph_def by (rule sum.collapse(2) [symmetric])
qed

lemma sample_ok: "graph_ok sample_graph" and sample_endpoints: "endpoints_ok sample_graph"
proof -
  show ok: "graph_ok sample_graph" by (rule parse_graph_ok [OF sample_parses])
  show "endpoints_ok sample_graph" by (rule graph_ok_endpoints) (use ok in \<open>simp_all add: graph_ok_def\<close>)
qed

section \<open>Acceptance\<close>

text \<open>
  C9. A document that parse_graph accepts is a well-formed graph: at most 300 nodes and
  1000 connections; ids valid and distinct; every node of a known type at a bounded position, holding
  exactly the parameters of its type, each null or a value of its kind within its bounds; every
  connection between two different existing nodes, from an output to an input of the same data type,
  no connection twice and no input beyond its limit; the viewport clamped; and no cycle.
\<close>

theorem accepted_graph_is_well_formed:
  assumes "parse_graph flen document = Inr g"
  shows "graph_ok g"
  using assms by (rule parse_graph_ok)

theorem accepted_graph_is_well_formed_witness:
  "graph_ok sample_graph"
  by (rule accepted_graph_is_well_formed [OF sample_parses])

text \<open>
  C10. Saving and reading back: a well-formed graph in which no parameter is a null that has a
  default or an empty reference, and whose JSON text fits the size limit, is what
  parse_graph returns for its own to_json document.
\<close>

theorem stored_graph_reads_back:
  assumes "graph_ok g" and "settled_graph g" and "json_bytes flen (graph_json g) \<le> MAX_DOCUMENT_BYTES"
  shows "parse_graph flen (graph_json g) = Inr g"
  using assms by (rule parse_graph_stored)

theorem stored_graph_reads_back_witness:
  "parse_graph sample_flen (graph_json sample_graph) = Inr sample_graph \<and> length (wg_nodes sample_graph) = 3"
proof
  have "settled_graph sample_graph" by code_simp
  moreover have "json_bytes sample_flen (graph_json sample_graph) \<le> MAX_DOCUMENT_BYTES" by code_simp
  ultimately show "parse_graph sample_flen (graph_json sample_graph) = Inr sample_graph"
    by (rule stored_graph_reads_back [OF sample_ok])
  show "length (wg_nodes sample_graph) = 3" by code_simp
qed

section \<open>Order and closures\<close>

lemma selection_set:
  "set (rev (filter (\<lambda>i. i \<in> gn_id ` set (wg_nodes g)) ids)) = set ids \<inter> set (node_ids g)"
  by (auto simp: node_ids_def)

lemma upstream_reach: "set (upstream g ids) = ((arcs g)\<inverse>)\<^sup>* `` (set ids \<inter> set (node_ids g))"
proof -
  have "set (map (\<lambda>e. (ge_target e, ge_source e)) (wg_edges g)) = (arcs g)\<inverse>" by (auto simp: arcs_def)
  then show ?thesis unfolding upstream_def closure_loop_reach(1) selection_set by simp
qed

lemma downstream_reach: "set (downstream g ids) = (arcs g)\<^sup>* `` (set ids \<inter> set (node_ids g))"
  unfolding downstream_def closure_loop_reach(1) selection_set by (simp add: arcs_def)

text \<open>
  C11. topological_order decides whether the connections have a cycle: without one it
  returns every node once, each after the sources of all its connections; with one it raises the
  error of code CYCLE.
\<close>

theorem topological_order_decides_cycles:
  assumes "endpoints_ok g"
  shows "case topological_order g of
      Inr order \<Rightarrow> acyclic (arcs g) \<and> distinct order \<and> set order = set (node_ids g) \<and>
        sources_first (wg_edges g) order
    | Inl e \<Rightarrow> \<not> acyclic (arcs g) \<and>
        e = WorkflowGraphInvalid [(issue ''the workflow contains a cycle'' [])\<lparr>gi_code := ''CYCLE''\<rparr>]"
  using topological_order_cases [OF assms] by (cases "acyclic (arcs g)") auto

theorem topological_order_decides_cycles_witness:
  "topological_order sample_graph = Inr [''t'', ''i'', ''v''] \<and> acyclic (arcs sample_graph)"
proof
  show order: "topological_order sample_graph = Inr [''t'', ''i'', ''v'']" by code_simp
  show "acyclic (arcs sample_graph)"
    using topological_order_decides_cycles [OF sample_endpoints] unfolding order by simp
qed

text \<open>
  C12. The stack loops of upstream and downstream compute reachability: the
  selected nodes that exist and everything that reaches them, or that they reach, through connections,
  each node once.
\<close>

theorem closures_are_reachability:
  "set (upstream g ids) = ((arcs g)\<inverse>)\<^sup>* `` (set ids \<inter> set (node_ids g)) \<and> distinct (upstream g ids) \<and>
   set (downstream g ids) = (arcs g)\<^sup>* `` (set ids \<inter> set (node_ids g)) \<and> distinct (downstream g ids)"
  using upstream_reach downstream_reach by (simp add: upstream_def downstream_def closure_loop_reach(2))

section \<open>Fingerprints\<close>

text \<open>What a fingerprint sees of a node: the node itself and its connections in document order.\<close>

definition same_at :: "workflow_graph \<Rightarrow> workflow_graph \<Rightarrow> string \<Rightarrow> bool" where
  "same_at g h i \<longleftrightarrow> find_node (wg_nodes g) i = find_node (wg_nodes h) i \<and>
     filter (\<lambda>e. ge_target e = i) (wg_edges g) = filter (\<lambda>e. ge_target e = i) (wg_edges h)"

lemma upstream_step:
  assumes "endpoints_ok g" and "j \<in> set (node_ids g)" and "e \<in> set (wg_edges g)" and "ge_target e = j"
  shows "ge_source e \<in> set (node_ids g)" and "set (upstream g [ge_source e]) \<subseteq> set (upstream g [j])"
proof -
  show src: "ge_source e \<in> set (node_ids g)" using assms(1,3) by (simp add: endpoints_ok_def)
  have "(ge_source e, j) \<in> arcs g" using assms(3,4) by (auto simp: arcs_def)
  then have "(j, ge_source e) \<in> (arcs g)\<inverse>" by simp
  then have "((arcs g)\<inverse>)\<^sup>* `` {ge_source e} \<subseteq> ((arcs g)\<inverse>)\<^sup>* `` {j}"
    by (auto intro: converse_rtrancl_into_rtrancl)
  then show "set (upstream g [ge_source e]) \<subseteq> set (upstream g [j])"
    using src assms(2) upstream_reach [of g] by simp
qed

lemma same_fingerprint:
  assumes g: "endpoints_ok g" "acyclic (arcs g)" and h: "endpoints_ok h"
    and r: "\<forall>n \<in> set (wg_nodes g). map_of r (gn_id n) = node_fingerprint digest g r n"
    and r': "\<forall>n \<in> set (wg_nodes h). map_of r' (gn_id n) = node_fingerprint digest h r' n"
  shows "i \<in> set (node_ids g) \<Longrightarrow> \<forall>j \<in> set (upstream g [i]). same_at g h j \<Longrightarrow> map_of r i = map_of r' i"
proof -
  have "finite (arcs g)" by (simp add: arcs_def)
  then have wf: "wf (arcs g)" using g(2) by (rule finite_acyclic_wf)
  show "i \<in> set (node_ids g) \<Longrightarrow> \<forall>j \<in> set (upstream g [i]). same_at g h j \<Longrightarrow> map_of r i = map_of r' i"
  proof (induction i rule: wf_induct_rule [OF wf])
    case (1 i)
    have same: "same_at g h i" using 1(2,3) upstream_reach [of g "[i]"] by auto
    from 1(2) obtain n where n: "n \<in> set (wg_nodes g)" "gn_id n = i" by (auto simp: node_ids_def)
    have "find_node (wg_nodes g) i = Some n" using find_node_Some [OF g(1) n(1)] n(2) by simp
    then have "n \<in> set (wg_nodes h)" using same find_node_SomeD by (auto simp: same_at_def)
    moreover have inc: "incoming g n = incoming h n" using same n(2) by (simp add: incoming_def same_at_def)
    moreover have "fingerprint_inputs (incoming g n) r = fingerprint_inputs (incoming g n) r'"
    proof (rule fingerprint_inputs_cong)
      fix e
      assume "e \<in> set (incoming g n)"
      then have e: "e \<in> set (wg_edges g)" "ge_target e = i" using n(2) by (auto simp: set_incoming)
      then have "(ge_source e, i) \<in> arcs g" by (auto simp: arcs_def)
      then show "map_of r (ge_source e) = map_of r' (ge_source e)"
        using 1(1) [of "ge_source e"] 1(3) upstream_step [OF g(1) 1(2) e] by blast
    qed
    ultimately have "node_fingerprint digest g r n = node_fingerprint digest h r' n" "n \<in> set (wg_nodes h)"
      by (simp_all add: node_fingerprint_def)
    then show ?case using r r' n by metis
  qed
qed

text \<open>
  C13. Every node of an accepted graph has a fingerprint, none is missing when it is needed, and it is
  the digest of the node's type, its visible parameters and, per connection in port order, the
  fingerprint of the source.
\<close>

theorem fingerprints_cover_accepted_graphs:
  assumes "parse_graph flen document = Inr g"
  shows "\<exists>r. fingerprints digest g = Inr r \<and> dom (map_of r) = set (node_ids g) \<and>
    list_all (\<lambda>n. map_of r (gn_id n) = node_fingerprint digest g r n \<and> map_of r (gn_id n) \<noteq> None) (wg_nodes g)"
proof -
  have ok: "graph_ok g" using assms by (rule parse_graph_ok)
  then have "endpoints_ok g" by (intro graph_ok_endpoints) (simp_all add: graph_ok_def)
  from fingerprints_spec [OF this, of digest] ok obtain r where r: "fingerprints digest g = Inr r"
    "dom (map_of r) = set (node_ids g)" "\<forall>n \<in> set (wg_nodes g). map_of r (gn_id n) = node_fingerprint digest g r n"
    by (auto simp: graph_ok_def)
  have "map_of r (gn_id n) \<noteq> None" if "n \<in> set (wg_nodes g)" for n
  proof -
    have "gn_id n \<in> dom (map_of r)" unfolding r(2) node_ids_def using that by simp
    then show ?thesis by (simp add: dom_def)
  qed
  then have "list_all (\<lambda>n. map_of r (gn_id n) = node_fingerprint digest g r n \<and> map_of r (gn_id n) \<noteq> None)
      (wg_nodes g)" using r(3) unfolding list_all_iff by blast
  with r show ?thesis by blast
qed

definition sample_digest :: "fingerprint_payload \<Rightarrow> string" where
  "sample_digest p = fp_type p @ concat (map (\<lambda>(port, f, _). port @ f) (fp_inputs p))"

theorem fingerprints_cover_accepted_graphs_witness:
  "\<exists>r. fingerprints sample_digest sample_graph = Inr r \<and> dom (map_of r) = set (node_ids sample_graph)"
  using fingerprints_cover_accepted_graphs [OF sample_parses, of sample_digest] by blast

text \<open>
  A fingerprint depends on the node's upstream cone only: two graphs that agree on the nodes that
  feed a node, and on the connections into them, give it the same fingerprint.
\<close>

theorem fingerprint_depends_on_upstream:
  assumes "graph_ok g" and "graph_ok h" and "i \<in> set (node_ids g)"
    and "\<forall>j \<in> set (upstream g [i]). same_at g h j"
    and "fingerprints digest g = Inr r" and "fingerprints digest h = Inr r'"
  shows "map_of r i = map_of r' i \<and> map_of r i \<noteq> None"
proof -
  have g: "endpoints_ok g" "acyclic (arcs g)" and h: "endpoints_ok h" "acyclic (arcs h)"
    using assms(1,2) by (auto simp: graph_ok_def intro: graph_ok_endpoints)
  have fg: "dom (map_of r) = set (node_ids g)"
    "\<forall>n \<in> set (wg_nodes g). map_of r (gn_id n) = node_fingerprint digest g r n"
    using fingerprints_spec [OF g, of digest] assms(5) by auto
  have fh: "\<forall>n \<in> set (wg_nodes h). map_of r' (gn_id n) = node_fingerprint digest h r' n"
    using fingerprints_spec [OF h, of digest] assms(6) by auto
  have "map_of r i \<noteq> None" using fg(1) assms(3) by auto
  with same_fingerprint [OF g h(1) fg(2) fh assms(3,4)] show ?thesis by simp
qed

text \<open>The same canvas with another duration on the video node: the image keeps its fingerprint.\<close>

definition edited :: json where
  "edited = sample_document
     [sample_node ''t'' ''text'' [(''text'', JStr ''a cat'')],
      sample_node ''i'' ''image_generation'' [(''prompt'', JStr '''')],
      sample_node ''v'' ''video_generation'' [(''duration'', JInt 8)]]
     [sample_edge ''e1'' ''t'' ''text'' ''i'' ''prompt'', sample_edge ''e2'' ''t'' ''text'' ''v'' ''prompt'']"

definition edited_graph :: workflow_graph where
  "edited_graph = projr (parse_graph sample_flen edited)"

lemma edited_ok: "graph_ok edited_graph"
proof (rule parse_graph_ok)
  have "\<not> isl (parse_graph sample_flen edited)" by code_simp
  then show "parse_graph sample_flen edited = Inr edited_graph"
    unfolding edited_graph_def by (rule sum.collapse(2) [symmetric])
qed

theorem fingerprint_depends_on_upstream_witness:
  "sample_graph \<noteq> edited_graph \<and>
   map_of (projr (fingerprints sample_digest sample_graph)) ''i'' =
   map_of (projr (fingerprints sample_digest edited_graph)) ''i''"
proof
  have "wg_edges sample_graph \<noteq> wg_edges edited_graph" by code_simp
  then show "sample_graph \<noteq> edited_graph" by metis
  have "\<not> isl (fingerprints sample_digest sample_graph)" "\<not> isl (fingerprints sample_digest edited_graph)"
    by code_simp+
  moreover have "''i'' \<in> set (node_ids sample_graph)" by code_simp
  moreover have "list_all (same_at sample_graph edited_graph) (upstream sample_graph [''i''])" by code_simp
  ultimately show "map_of (projr (fingerprints sample_digest sample_graph)) ''i'' =
      map_of (projr (fingerprints sample_digest edited_graph)) ''i''"
    using fingerprint_depends_on_upstream [OF sample_ok edited_ok] by (simp add: list_all_iff sum.collapse(2))
qed

section \<open>Readiness of a run\<close>

definition fed :: "workflow_graph \<Rightarrow> graph_node \<Rightarrow> string \<Rightarrow> bool" where
  "fed g n p = list_ex (\<lambda>e. ge_target e = gn_id n \<and> ge_target_port e = p) (wg_edges g)"

definition prompt_given :: "workflow_graph \<Rightarrow> graph_node \<Rightarrow> string \<Rightarrow> bool" where
  "prompt_given g n key \<longleftrightarrow> nt_input (node_spec n) ''prompt'' \<noteq> None \<and> fed g n ''prompt'' \<or> text_set (gn_data n) key"

definition node_ready :: "workflow_graph \<Rightarrow> graph_node \<Rightarrow> bool" where
  "node_ready g n \<longleftrightarrow> \<not> nt_executable (node_spec n) \<or>
     (list_all (\<lambda>p. pa_required p \<and> param_visible p (gn_data n) \<longrightarrow> \<not> blank (json_get (gn_data n) (pa_key p)))
        (nt_params (node_spec n)) \<and>
      list_all (\<lambda>p. po_required p \<longrightarrow> fed g n (po_key p)) (nt_inputs (node_spec n)) \<and>
      (gn_type n = ''llm'' \<longrightarrow> prompt_given g n ''instruction'') \<and>
      (gn_type n \<in> {''image_generation'', ''video_generation''} \<longrightarrow>
         prompt_given g n ''prompt'' \<and>
         (json_get (gn_data n) ''source'' = JStr ''connection'' \<longrightarrow>
            text_set (gn_data n) ''connection_id'' \<and> text_set (gn_data n) ''model'')) \<and>
      (gn_type n = ''video_generation'' \<longrightarrow> fed g n ''last_frame'' \<longrightarrow> fed g n ''first_frame''))"

lemma inputs_on_empty: "inputs_on g n p = [] \<longleftrightarrow> \<not> fed g n p"
  by (auto simp: inputs_on_def fed_def list_ex_iff filter_empty_conv set_incoming)

lemma llm_issues_empty:
  "llm_issues g n = [] \<longleftrightarrow> (gn_type n = ''llm'' \<longrightarrow> prompt_given g n ''instruction'')"
  by (auto simp: llm_issues_def prompt_given_def connected_prompt_def inputs_on_empty)

lemma generation_issues_empty:
  "generation_issues g n = [] \<longleftrightarrow>
     (gn_type n \<in> {''image_generation'', ''video_generation''} \<longrightarrow>
        prompt_given g n ''prompt'' \<and>
        (json_get (gn_data n) ''source'' = JStr ''connection'' \<longrightarrow>
           text_set (gn_data n) ''connection_id'' \<and> text_set (gn_data n) ''model''))"
  by (simp add: generation_issues_def prompt_given_def connected_prompt_def inputs_on_empty) argo

lemma node_run_issues_empty: "node_run_issues g n = [] \<longleftrightarrow> node_ready g n"
proof -
  have params: "param_issues n = [] \<longleftrightarrow>
      list_all (\<lambda>p. pa_required p \<and> param_visible p (gn_data n) \<longrightarrow> \<not> blank (json_get (gn_data n) (pa_key p)))
        (nt_params (node_spec n))"
    by (auto simp: param_issues_def filter_empty_conv list_all_iff)
  have ports: "port_issues g n = [] \<longleftrightarrow>
      list_all (\<lambda>p. po_required p \<longrightarrow> fed g n (po_key p)) (nt_inputs (node_spec n))"
    by (auto simp: port_issues_def filter_empty_conv list_all_iff inputs_on_empty)
  have frames: "frame_issues g n = [] \<longleftrightarrow>
      (gn_type n = ''video_generation'' \<longrightarrow> fed g n ''last_frame'' \<longrightarrow> fed g n ''first_frame'')"
    by (simp add: frame_issues_def inputs_on_empty)
  show ?thesis
  proof (cases "nt_executable (node_spec n)")
    case True
    then have "node_run_issues g n = [] \<longleftrightarrow> param_issues n = [] \<and> port_issues g n = [] \<and> llm_issues g n = [] \<and>
        generation_issues g n = [] \<and> frame_issues g n = []"
      by (simp add: node_run_issues_def)
    then show ?thesis
      using True unfolding params ports frames llm_issues_empty generation_issues_empty node_ready_def by argo
  qed (simp add: node_run_issues_def node_ready_def)
qed

text \<open>
  run_issues finds nothing exactly when every selected node that runs is ready: its
  required visible parameters are filled in, its required inputs are connected, a prompt or an
  instruction is written or connected, a node on the user's own connection names the connection and
  the model, and a last frame comes with a first frame. Every selected node must exist.
\<close>

theorem run_issues_empty_iff_ready:
  assumes "set ids \<subseteq> set (node_ids g)"
  shows "\<exists>issues. run_issues g ids = Inr issues \<and>
    (issues = [] \<longleftrightarrow> list_all (\<lambda>i. node_ready g (the (find_node (wg_nodes g) i))) ids)"
  using assms
proof (induction ids)
  case (Cons i ids)
  then obtain issues where rest: "run_issues g ids = Inr issues"
    "issues = [] \<longleftrightarrow> list_all (\<lambda>i. node_ready g (the (find_node (wg_nodes g) i))) ids" by auto
  from Cons.prems obtain m where "m \<in> set (wg_nodes g)" "gn_id m = i" by (auto simp: node_ids_def)
  then obtain n where "find_node (wg_nodes g) i = Some n"
    using row_where_hit [of m "wg_nodes g" "\<lambda>x. gn_id x = i"] by (auto simp: find_node_def)
  with rest node_run_issues_empty [of g n] show ?case by simp
qed simp

theorem run_issues_empty_iff_ready_witness:
  "run_issues sample_graph [''t'', ''i'', ''v''] = Inr [] \<and> node_ready sample_graph (the (find_node (wg_nodes sample_graph) ''v''))"
proof
  show none: "run_issues sample_graph [''t'', ''i'', ''v''] = Inr []" by code_simp
  have "list_all (\<lambda>i. i \<in> set (node_ids sample_graph)) [''t'', ''i'', ''v'']" by code_simp
  then have "set [''t'', ''i'', ''v''] \<subseteq> set (node_ids sample_graph)" by simp
  from run_issues_empty_iff_ready [OF this] none
  show "node_ready sample_graph (the (find_node (wg_nodes sample_graph) ''v''))" by simp
qed

section \<open>Stored values and errors\<close>

definition catalogue_param :: "param_spec \<Rightarrow> bool" where
  "catalogue_param p \<longleftrightarrow> p \<in> set (concat (map nt_params NODE_TYPES))"

definition default_settled :: "param_spec \<Rightarrow> bool" where
  "default_settled p \<longleftrightarrow> spec_ok p \<and> settled_value p (pa_default p) \<and>
     (pa_kind p \<in> {CONNECTION, MODEL, ASSET} \<longrightarrow> pa_default p = JNull)"

lemma catalogue_defaults_settled: "list_all default_settled (concat (map nt_params NODE_TYPES))"
  by code_simp

lemma catalogue_param_settled: "catalogue_param p \<Longrightarrow> default_settled p"
  using catalogue_defaults_settled unfolding catalogue_param_def list_all_iff by blast

lemma unsettled_cases:
  assumes "value_ok p v" and "\<not> settled_value p v"
  shows "v = JNull \<or> (v = JStr '''' \<and> pa_kind p \<in> {CONNECTION, MODEL, ASSET})"
  using assms by (auto simp: settled_value_def)

text \<open>
  A stored value settles: what a second reading of a catalogue parameter stores is what every
  later reading stores. One reading is enough unless the field was emptied.
\<close>

theorem parameters_settle_after_two_readings:
  assumes "catalogue_param p" and "normalize_param p v = Inr (v1, None)"
  shows "\<exists>v2. normalize_param p v1 = Inr (v2, None) \<and> normalize_param p v2 = Inr (v2, None) \<and>
    (settled_value p v1 \<longrightarrow> v2 = v1)"
proof -
  have p: "default_settled p" using assms(1) by (rule catalogue_param_settled)
  then have spec: "spec_ok p" by (simp add: default_settled_def)
  have v1: "value_ok p v1" using spec assms(2) by (rule normalize_param_ok)
  have dflt: "normalize_param p (pa_default p) = Inr (pa_default p, None)"
    using p spec by (intro normalize_param_stable) (simp_all add: default_settled_def spec_ok_def)
  have null: "normalize_param p JNull = Inr (pa_default p, None)" by (simp add: normalize_param_def)
  show ?thesis
  proof (cases "settled_value p v1")
    case True
    then show ?thesis using normalize_param_stable [OF spec v1] by blast
  next
    case False
    with unsettled_cases [OF v1] consider "v1 = JNull" | "v1 = JStr ''''" "pa_kind p \<in> {CONNECTION, MODEL, ASSET}"
      by blast
    then show ?thesis
    proof cases
      case 1
      then show ?thesis using null dflt False by blast
    next
      case 2
      then have "normalize_param p v1 = Inr (JNull, None)" by (auto simp: normalize_param_def)
      moreover have "pa_default p = JNull" using p 2(2) unfolding default_settled_def by blast
      ultimately show ?thesis using null False by auto
    qed
  qed
qed

definition duration_param :: param_spec where
  "duration_param = the (nt_param video_generation_node ''duration'')"

theorem parameters_settle_after_two_readings_witness:
  "catalogue_param duration_param \<and> normalize_param duration_param (JInt 8) = Inr (JInt 8, None) \<and>
   (\<exists>v2. normalize_param duration_param (JInt 8) = Inr (v2, None) \<and> normalize_param duration_param v2 = Inr (v2, None))"
proof -
  have p: "catalogue_param duration_param" by code_simp
  moreover have v: "normalize_param duration_param (JInt 8) = Inr (JInt 8, None)" by code_simp
  ultimately show ?thesis using parameters_settle_after_two_readings [OF p v] by blast
qed

text \<open>
  An emptied duration does not stay emptied: the reading of the empty field stores null, as the
  comment in the code asks, and the reading of the stored null brings the default of five seconds
  back. The graph saved after the first reading is not the one loaded.
\<close>

theorem emptied_duration_reverts_to_default:
  "normalize_param duration_param (JStr '''') = Inr (JNull, None) \<and>
   normalize_param duration_param JNull = Inr (JInt 5, None)"
  by code_simp

end
