(* ===== verification/Workflow_Runs.thy ===== *)
theory Workflow_Runs
  imports Workflow_Parse "HOL-Library.Char_ord" "HOL-Library.List_Lexorder"
begin

text \<open>
  Runs of a canvas, \<^verbatim>\<open>core/workflows/workflow_core/engine.py\<close>, and the storage of canvases,
  \<^verbatim>\<open>service.py\<close>. The database is a record of tables. Every session of the code is a
  function on it; \<^verbatim>\<open>_transition\<close> and its like are one conditional UPDATE, so what a worker
  loaded earlier (a \<^verbatim>\<open>_NodeState\<close>, here the row it was copied from) is an argument beside the
  state that is written. Times are microseconds; the clock, new ids, tokens, the digest of a
  fingerprint and the hash of a graph are arguments.
\<close>

section \<open>Tables\<close>

datatype run_status = QUEUED | RUN_RUNNING | RUN_SUCCEEDED | RUN_FAILED | RUN_CANCELLED

datatype node_status = PENDING | RUNNING | SUCCEEDED | FAILED | SKIPPED | NODE_CANCELLED | CACHED

record workflow_row =
  wf_id :: string
  wf_project_id :: string
  wf_workspace_id :: "string option"
  wf_name :: string
  wf_graph :: json
  wf_version :: int
  wf_created_by :: "string option"
  wf_updated_by :: "string option"
  wf_updated_at :: int
  wf_deleted_at :: "int option"
  wf_deleted_by :: "string option"

record workflow_run =
  run_id :: string
  run_workflow_id :: string
  run_project_id :: string
  run_workspace_id :: "string option"
  run_created_by :: "string option"
  run_enforce_plan :: bool
  run_status :: run_status
  run_graph :: json
  run_graph_hash :: string
  run_version :: int
  run_scope_ids :: "string list"
  run_force_ids :: "string list"
  run_error :: "string option"
  run_claim_token :: "string option"
  run_claim_expires :: "int option"
  run_next_advance :: "int option"
  run_cancel_requested :: "int option"
  run_started :: "int option"
  run_finished :: "int option"

record node_run =
  nr_id :: string
  nr_run_id :: string
  nr_workflow_id :: string
  nr_node_id :: string
  nr_node_type :: string
  nr_status :: node_status
  nr_fingerprint :: string
  nr_inputs :: "(string \<times> json) list"
  nr_outputs :: "(string \<times> json) list"
  nr_usage :: "(string \<times> json) list"
  nr_error_code :: "string option"
  nr_error_message :: "string option"
  nr_job_id :: "string option"
  nr_connection_id :: "string option"
  nr_cached_from :: "string option"
  nr_attempts :: int
  nr_started :: "int option"
  nr_finished :: "int option"
  nr_created :: int

record canvas_job =
  cj_id :: string
  cj_status :: string
  cj_output_asset :: "string option"
  cj_error_code :: "string option"
  cj_error_message :: "string option"
  cj_deleted_at :: "int option"

record canvas_db =
  cd_projects :: "(string \<times> string option) list"
  cd_workflows :: "workflow_row list"
  cd_runs :: "workflow_run list"
  cd_node_runs :: "node_run list"
  cd_jobs :: "canvas_job list"
  cd_idempotency :: "(string \<times> string) list"
  cd_assets :: "(string \<times> string) list"

datatype canvas_error =
    WorkflowNotFound
  | WorkflowConflict string "string list"
  | GraphRefused graph_error
  | CanvasLookupError string
  | CanvasValueError string

definition active :: "run_status \<Rightarrow> bool" where
  "active s \<longleftrightarrow> s = QUEUED \<or> s = RUN_RUNNING"

definition terminal :: "node_status \<Rightarrow> bool" where
  "terminal s \<longleftrightarrow> s \<in> {SUCCEEDED, FAILED, SKIPPED, NODE_CANCELLED, CACHED}"

definition satisfied :: "node_status \<Rightarrow> bool" where
  "satisfied s \<longleftrightarrow> s \<in> {SUCCEEDED, CACHED}"

definition blocking :: "node_status \<Rightarrow> bool" where
  "blocking s \<longleftrightarrow> s \<in> {FAILED, SKIPPED, NODE_CANCELLED}"

definition generation_node :: "string \<Rightarrow> bool" where
  "generation_node t \<longleftrightarrow> t = ''image_generation'' \<or> t = ''video_generation''"

definition MAX_LLM_ATTEMPTS :: int where "MAX_LLM_ATTEMPTS = 2"
definition MAX_NAME :: int where "MAX_NAME = 200"

definition live_workflow :: "canvas_db \<Rightarrow> string \<Rightarrow> workflow_row option" where
  "live_workflow t wid = row_where (\<lambda>w. wf_id w = wid \<and> wf_deleted_at w = None) (cd_workflows t)"

definition get_run :: "canvas_db \<Rightarrow> string \<Rightarrow> workflow_run option" where
  "get_run t rid = row_where (\<lambda>r. run_id r = rid) (cd_runs t)"

definition get_job :: "canvas_db \<Rightarrow> string \<Rightarrow> canvas_job option" where
  "get_job t jid = row_where (\<lambda>j. cj_id j = jid) (cd_jobs t)"

section \<open>Saved canvases\<close>

text \<open>\<^verbatim>\<open>" ".join(name.split())\<close>\<close>

function py_split :: "string \<Rightarrow> string list" where
  "py_split s =
     (let rest = dropWhile py_space s in
      if rest = [] then [] else takeWhile (\<lambda>c. \<not> py_space c) rest # py_split (dropWhile (\<lambda>c. \<not> py_space c) rest))"
  by auto
termination
proof (relation "measure length", goal_cases)
  case (2 s rest)
  have "\<not> py_space (hd rest)" using 2 by (metis hd_dropWhile)
  moreover obtain c cs where rest: "rest = c # cs" using 2 by (metis neq_Nil_conv)
  ultimately have "length (dropWhile (\<lambda>c. \<not> py_space c) rest) < length rest"
    using length_dropWhile_le [of "\<lambda>c. \<not> py_space c" cs] by simp
  moreover have "length rest \<le> length s" unfolding 2 by (rule length_dropWhile_le)
  ultimately show ?case by simp
qed simp

declare py_split.simps [simp del]

definition join :: "string \<Rightarrow> string list \<Rightarrow> string" where
  "join sep xs = (case xs of [] \<Rightarrow> '''' | y # ys \<Rightarrow> y @ concat (map (\<lambda>z. sep @ z) ys))"

definition normalize_name :: "string option \<Rightarrow> canvas_error + string" where
  "normalize_name name =
     (let v = join '' '' (py_split (case name of None \<Rightarrow> '''' | Some n \<Rightarrow> n)) in
      if int (length v) > MAX_NAME then Inl (CanvasValueError ''a workflow name is too long'')
      else Inr (if v = '''' then ''Untitled canvas'' else v))"

definition parsed_document :: "(rat \<Rightarrow> int) \<Rightarrow> json option \<Rightarrow> canvas_error + json option" where
  "parsed_document flen graph =
     (case graph of
        None \<Rightarrow> Inr None
      | Some d \<Rightarrow> (case parse_graph flen d of Inl e \<Rightarrow> Inl (GraphRefused e) | Inr g \<Rightarrow> Inr (Some (graph_json g))))"

definition create ::
  "(rat \<Rightarrow> int) \<Rightarrow> string \<Rightarrow> int \<Rightarrow> canvas_db \<Rightarrow> string \<Rightarrow> string option \<Rightarrow> string option \<Rightarrow> json option \<Rightarrow>
   canvas_error + workflow_row \<times> canvas_db" where
  "create flen new_id now t project_id user name graph =
     res_bind (parsed_document flen graph) (\<lambda>document.
       case map_of (cd_projects t) project_id of
         None \<Rightarrow> Inl (CanvasLookupError ''project not found'')
       | Some workspace \<Rightarrow> res_bind (normalize_name name) (\<lambda>n.
           let w = \<lparr>wf_id = new_id, wf_project_id = project_id, wf_workspace_id = workspace, wf_name = n,
             wf_graph = (case document of None \<Rightarrow> empty_graph | Some d \<Rightarrow> d), wf_version = 1,
             wf_created_by = user, wf_updated_by = user, wf_updated_at = now, wf_deleted_at = None,
             wf_deleted_by = None\<rparr>
           in Inr (w, t\<lparr>cd_workflows := cd_workflows t @ [w]\<rparr>)))"

text \<open>The version is compared in the UPDATE; the row it was read from is \<open>s\<close>.\<close>

definition save ::
  "(rat \<Rightarrow> int) \<Rightarrow> int \<Rightarrow> canvas_db \<Rightarrow> canvas_db \<Rightarrow> string \<Rightarrow> string option \<Rightarrow> int \<Rightarrow> string option \<Rightarrow> json option \<Rightarrow>
   canvas_error + int \<times> canvas_db" where
  "save flen now s t wid user base_version name graph =
     res_bind (parsed_document flen graph) (\<lambda>document.
       case live_workflow s wid of
         None \<Rightarrow> Inl WorkflowNotFound
       | Some w \<Rightarrow>
           res_bind (case name of None \<Rightarrow> Inr None | Some n \<Rightarrow> res_bind (normalize_name (Some n)) (\<lambda>v. Inr (Some v))) (\<lambda>n.
             let P = (\<lambda>w. wf_id w = wid \<and> wf_version w = base_version \<and> wf_deleted_at w = None);
                 f = (\<lambda>w. w\<lparr>wf_version := wf_version w + 1, wf_updated_by := user, wf_updated_at := now,
                       wf_graph := (case document of None \<Rightarrow> wf_graph w | Some d \<Rightarrow> d),
                       wf_name := (case n of None \<Rightarrow> wf_name w | Some v \<Rightarrow> v)\<rparr>)
             in if affected P (cd_workflows t) \<noteq> 1
                then Inl (WorkflowConflict ''WORKFLOW_VERSION_CONFLICT'' [])
                else Inr (base_version + 1, t\<lparr>cd_workflows := update_where P f (cd_workflows t)\<rparr>)))"

section \<open>Starting a run\<close>

definition finish ::
  "node_status \<Rightarrow> int \<Rightarrow> (string \<times> json) list option \<Rightarrow> (string \<times> string) option \<Rightarrow> node_run \<Rightarrow> node_run" where
  "finish status now outputs err r =
     r\<lparr>nr_status := status, nr_started := (case nr_started r of None \<Rightarrow> Some now | Some v \<Rightarrow> Some v),
       nr_finished := Some now, nr_outputs := (case outputs of None \<Rightarrow> nr_outputs r | Some v \<Rightarrow> v),
       nr_error_code := (case err of None \<Rightarrow> nr_error_code r | Some (c, _) \<Rightarrow> Some (take 100 c)),
       nr_error_message := (case err of None \<Rightarrow> nr_error_message r | Some (_, m) \<Rightarrow> Some (take 1000 m))\<rparr>"

definition reusable :: "canvas_db \<Rightarrow> node_run \<Rightarrow> bool" where
  "reusable t c \<longleftrightarrow> nr_outputs c \<noteq> [] \<and>
     (if py_falsy (nr_job_id c) then True
      else case get_job t (the (nr_job_id c)) of
        None \<Rightarrow> False
      | Some j \<Rightarrow> cj_deleted_at j = None \<and> cj_status j = ''COMPLETED'')"

definition cache_candidates :: "canvas_db \<Rightarrow> node_run \<Rightarrow> node_run list" where
  "cache_candidates t r =
     take 5 (sort_key (\<lambda>c. - nr_created c)
       (filter (\<lambda>c. nr_workflow_id c = nr_workflow_id r \<and> nr_node_id c = nr_node_id r \<and>
            nr_fingerprint c = nr_fingerprint r \<and> satisfied (nr_status c) \<and> nr_id c \<noteq> nr_id r) (cd_node_runs t)))"

definition reuse_cached :: "canvas_db \<Rightarrow> int \<Rightarrow> node_run \<Rightarrow> node_run" where
  "reuse_cached t now r =
     (case filter (reusable t) (cache_candidates t r) of
        [] \<Rightarrow> r
      | c # _ \<Rightarrow>
          r\<lparr>nr_status := CACHED, nr_outputs := nr_outputs c, nr_usage := [(''cached'', JBool True)],
            nr_job_id := nr_job_id c, nr_connection_id := nr_connection_id c,
            nr_cached_from := (if py_falsy (nr_cached_from c) then Some (nr_id c) else nr_cached_from c),
            nr_started := Some now, nr_finished := Some now\<rparr>)"

text \<open>\<^verbatim>\<open>str(data.get(key) or "")\<close> of a text parameter.\<close>

definition text_of :: "(string \<times> json) list \<Rightarrow> string \<Rightarrow> string" where
  "text_of data key = (case json_get data key of JStr s \<Rightarrow> s | _ \<Rightarrow> '''')"

definition start_node ::
  "canvas_db \<Rightarrow> int \<Rightarrow> string \<Rightarrow> string list \<Rightarrow> node_run \<Rightarrow> graph_node \<Rightarrow> node_run" where
  "start_node t now project_id forced r n =
     (if gn_type n = ''text'' then finish SUCCEEDED now (Some [(''text'', JStr (text_of (gn_data n) ''text''))]) None r
      else if gn_type n = ''image_input'' then
        (let asset_id = text_of (gn_data n) ''asset_id'' in
         if asset_id \<noteq> '''' \<and> map_of (cd_assets t) asset_id = Some project_id
         then finish SUCCEEDED now (Some [(''image'', JObj [(''asset_id'', JStr asset_id)])]) None r
         else finish FAILED now None
           (Some (''ASSET_NOT_FOUND'', ''the image is not in this project; upload it again'')) r)
      else if gn_id n \<notin> set forced then reuse_cached t now r
      else r)"

text \<open>
  \<^verbatim>\<open>dict.fromkeys\<close> keeps the first of equal ids.
\<close>

definition first_occurrences :: "'a list \<Rightarrow> 'a list" where
  "first_occurrences xs = rev (remdups (rev xs))"

definition executable_id :: "workflow_graph \<Rightarrow> string \<Rightarrow> bool" where
  "executable_id g i \<longleftrightarrow> (case find_node (wg_nodes g) i of None \<Rightarrow> False | Some n \<Rightarrow> nt_executable (node_spec n))"

text \<open>Targets, scope in topological order, and the nodes whose cached results are not reused.\<close>

definition run_plan ::
  "workflow_graph \<Rightarrow> string list \<Rightarrow> string list option \<Rightarrow> bool option \<Rightarrow>
   canvas_error + string list \<times> string list \<times> string list" where
  "run_plan g order node_ids force =
     (let ids = map gn_id (wg_nodes g); executable = filter (executable_id g) ids;
          chosen = (case node_ids of None \<Rightarrow> [] | Some xs \<Rightarrow> xs) in
      if chosen \<noteq> [] then
        (let unknown = filter (\<lambda>i. i \<notin> set ids) chosen;
             targets = filter (executable_id g) (first_occurrences chosen);
             reach = set (upstream g targets) in
         if unknown \<noteq> [] then Inl (WorkflowConflict ''WORKFLOW_NODE_UNKNOWN'' unknown)
         else if targets = [] then Inl (WorkflowConflict ''WORKFLOW_NOTHING_TO_RUN'' [])
         else Inr (targets, filter (executable_id g) (filter (\<lambda>i. i \<in> reach) order),
                   if force = Some False then [] else targets))
      else Inr (executable, filter (executable_id g) (filter (\<lambda>i. i \<in> set executable) order),
                if force = Some True then executable else []))"

definition graph_result :: "graph_error + 'a \<Rightarrow> canvas_error + 'a" where
  "graph_result m = (case m of Inl e \<Rightarrow> Inl (GraphRefused e) | Inr x \<Rightarrow> Inr x)"

definition new_node_run ::
  "workflow_run \<Rightarrow> (string \<Rightarrow> string) \<Rightarrow> (string \<times> string) list \<Rightarrow> int \<Rightarrow> graph_node \<Rightarrow> node_run" where
  "new_node_run run node_row_id prints now n =
     \<lparr>nr_id = node_row_id (gn_id n), nr_run_id = run_id run, nr_workflow_id = run_workflow_id run,
      nr_node_id = gn_id n, nr_node_type = gn_type n, nr_status = PENDING,
      nr_fingerprint = (case map_of prints (gn_id n) of None \<Rightarrow> '''' | Some f \<Rightarrow> f),
      nr_inputs = [], nr_outputs = [], nr_usage = [], nr_error_code = None, nr_error_message = None,
      nr_job_id = None, nr_connection_id = None, nr_cached_from = None, nr_attempts = 0,
      nr_started = None, nr_finished = None, nr_created = now\<rparr>"

record run_request =
  rq_workflow_id :: string
  rq_user :: "string option"
  rq_enforce_plan :: bool
  rq_base_version :: "int option"
  rq_node_ids :: "string list option"
  rq_force :: "bool option"

definition active_run_of :: "canvas_db \<Rightarrow> string \<Rightarrow> workflow_run option" where
  "active_run_of t wid = row_where (\<lambda>r. run_workflow_id r = wid \<and> active (run_status r)) (cd_runs t)"

definition start ::
  "(rat \<Rightarrow> int) \<Rightarrow> (fingerprint_payload \<Rightarrow> string) \<Rightarrow> (json \<Rightarrow> string) \<Rightarrow> string \<Rightarrow> (string \<Rightarrow> string) \<Rightarrow> int \<Rightarrow>
   canvas_db \<Rightarrow> run_request \<Rightarrow> canvas_error + workflow_run \<times> canvas_db" where
  "start flen digest graph_hash new_id node_row_id now t rq =
     (case live_workflow t (rq_workflow_id rq) of
        None \<Rightarrow> Inl WorkflowNotFound
      | Some w \<Rightarrow>
          if rq_base_version rq \<noteq> None \<and> rq_base_version rq \<noteq> Some (wf_version w)
          then Inl (WorkflowConflict ''WORKFLOW_VERSION_CONFLICT'' [])
          else if active_run_of t (wf_id w) \<noteq> None
          then Inl (WorkflowConflict ''WORKFLOW_RUN_ACTIVE'' [run_id (the (active_run_of t (wf_id w)))])
          else
            res_bind (graph_result (parse_graph flen (wf_graph w))) (\<lambda>g.
            res_bind (graph_result (topological_order g)) (\<lambda>order.
            res_bind (run_plan g order (rq_node_ids rq) (rq_force rq)) (\<lambda>(targets, scope, forced).
              if scope = [] then Inl (WorkflowConflict ''WORKFLOW_NOTHING_TO_RUN'' [])
              else
                res_bind (graph_result (run_issues g scope)) (\<lambda>issues.
                if issues \<noteq> [] then Inl (GraphRefused (WorkflowGraphInvalid issues))
                else
                  res_bind (graph_result (fingerprints digest g)) (\<lambda>prints.
                  let run = \<lparr>run_id = new_id, run_workflow_id = wf_id w, run_project_id = wf_project_id w,
                        run_workspace_id = wf_workspace_id w, run_created_by = rq_user rq,
                        run_enforce_plan = rq_enforce_plan rq, run_status = QUEUED, run_graph = graph_json g,
                        run_graph_hash = graph_hash (graph_json g), run_version = wf_version w,
                        run_scope_ids = targets, run_force_ids = sort (remdups forced), run_error = None,
                        run_claim_token = None, run_claim_expires = None, run_next_advance = Some now,
                        run_cancel_requested = None, run_started = None, run_finished = None\<rparr>;
                      row = (\<lambda>i. let n = the (find_node (wg_nodes g) i) in
                        start_node t now (wf_project_id w) forced (new_node_run run node_row_id prints now n) n)
                  in Inr (run, t\<lparr>cd_runs := cd_runs t @ [run],
                                  cd_node_runs := cd_node_runs t @ map row scope\<rparr>)))))))"

section \<open>Leases\<close>

text \<open>\<^verbatim>\<open>_lease\<close> in microseconds; the settings are seconds.\<close>

definition lease :: "int \<Rightarrow> int \<Rightarrow> int" where
  "lease lease_seconds llm_timeout_seconds = max lease_seconds (llm_timeout_seconds + 60) * 1000000"

definition lease_free :: "int \<Rightarrow> workflow_run \<Rightarrow> bool" where
  "lease_free now r \<longleftrightarrow> (case run_claim_expires r of None \<Rightarrow> True | Some e \<Rightarrow> e \<le> now)"

definition update_runs :: "(workflow_run \<Rightarrow> bool) \<Rightarrow> (workflow_run \<Rightarrow> workflow_run) \<Rightarrow> canvas_db \<Rightarrow> bool \<times> canvas_db" where
  "update_runs P f t = (affected P (cd_runs t) = 1, t\<lparr>cd_runs := update_where P f (cd_runs t)\<rparr>)"

definition claim :: "int \<Rightarrow> int \<Rightarrow> string \<Rightarrow> canvas_db \<Rightarrow> string \<Rightarrow> bool \<times> canvas_db" where
  "claim now duration token t rid =
     update_runs (\<lambda>r. run_id r = rid \<and> active (run_status r) \<and> lease_free now r)
       (\<lambda>r. r\<lparr>run_claim_token := Some token, run_claim_expires := Some (now + duration)\<rparr>) t"

definition release :: "string \<Rightarrow> canvas_db \<Rightarrow> string \<Rightarrow> canvas_db" where
  "release token t rid =
     snd (update_runs (\<lambda>r. run_id r = rid \<and> run_claim_token r = Some token)
       (\<lambda>r. r\<lparr>run_claim_token := None, run_claim_expires := None\<rparr>) t)"

definition renew :: "int \<Rightarrow> int \<Rightarrow> string \<Rightarrow> canvas_db \<Rightarrow> string \<Rightarrow> bool \<times> canvas_db" where
  "renew now duration token t rid =
     update_runs (\<lambda>r. run_id r = rid \<and> run_claim_token r = Some token \<and> active (run_status r))
       (\<lambda>r. r\<lparr>run_claim_expires := Some (now + duration)\<rparr>) t"

definition mark_running :: "int \<Rightarrow> string \<Rightarrow> canvas_db \<Rightarrow> string \<Rightarrow> canvas_db" where
  "mark_running now token t rid =
     snd (update_runs (\<lambda>r. run_id r = rid \<and> run_claim_token r = Some token \<and> run_status r = QUEUED)
       (\<lambda>r. r\<lparr>run_status := RUN_RUNNING, run_started := Some now\<rparr>) t)"

definition schedule :: "int \<Rightarrow> string \<Rightarrow> canvas_db \<Rightarrow> string \<Rightarrow> canvas_db" where
  "schedule due token t rid =
     snd (update_runs (\<lambda>r. run_id r = rid \<and> run_claim_token r = Some token)
       (\<lambda>r. r\<lparr>run_next_advance := Some due\<rparr>) t)"

text \<open>\<^verbatim>\<open>advance_due\<close>: the runs to look at, soonest first.\<close>

definition due_runs :: "int \<Rightarrow> nat \<Rightarrow> canvas_db \<Rightarrow> string list" where
  "due_runs now limit t =
     take (max 1 limit) (map run_id (sort_key (\<lambda>r. (case run_next_advance r of None \<Rightarrow> (1 :: nat, 0) | Some d \<Rightarrow> (0, d), run_id r))
       (filter (\<lambda>r. active (run_status r) \<and> lease_free now r \<and>
          (case run_next_advance r of None \<Rightarrow> True | Some d \<Rightarrow> d \<le> now)) (cd_runs t))))"

section \<open>Transitions of a node\<close>

definition transition ::
  "canvas_db \<Rightarrow> string \<Rightarrow> node_status \<Rightarrow> node_status \<Rightarrow> int option \<Rightarrow> (node_run \<Rightarrow> node_run) \<Rightarrow> bool \<times> canvas_db" where
  "transition t row_id from_status to_status attempt values =
     (let P = (\<lambda>r. nr_id r = row_id \<and> nr_status r = from_status \<and> (attempt = None \<or> Some (nr_attempts r) = attempt)) in
      (affected P (cd_node_runs t) = 1,
       t\<lparr>cd_node_runs := update_where P (\<lambda>r. (values r)\<lparr>nr_status := to_status\<rparr>) (cd_node_runs t)\<rparr>))"

definition ended :: "int \<Rightarrow> string \<Rightarrow> string \<Rightarrow> node_run \<Rightarrow> node_run" where
  "ended now code message r =
     r\<lparr>nr_finished := Some now, nr_error_code := Some code, nr_error_message := Some message\<rparr>"

definition skip :: "int \<Rightarrow> canvas_db \<Rightarrow> node_run \<Rightarrow> canvas_db" where
  "skip now t st = snd (transition t (nr_id st) PENDING SKIPPED None
     (ended now ''INPUT_UNAVAILABLE'' ''an input this node needs did not finish''))"

text \<open>Only the session that records a job id found by the idempotency key.\<close>

definition recover_job :: "canvas_db \<Rightarrow> node_run \<Rightarrow> string option \<times> canvas_db" where
  "recover_job t st =
     (case map_of (cd_idempotency t) (''canvas:'' @ nr_id st) of
        None \<Rightarrow> (None, t)
      | Some j \<Rightarrow> (Some j, if j = '''' then t else t\<lparr>cd_node_runs :=
          update_where (\<lambda>r. nr_id r = nr_id st \<and> nr_status r = RUNNING) (\<lambda>r. r\<lparr>nr_job_id := Some j\<rparr>) (cd_node_runs t)\<rparr>))"

definition llm_abandoned :: "int \<Rightarrow> int \<Rightarrow> node_run \<Rightarrow> bool" where
  "llm_abandoned now llm_timeout_seconds st =
     (case nr_started st of None \<Rightarrow> True | Some s \<Rightarrow> now - s > (llm_timeout_seconds + 60) * 1000000)"

definition job_failed :: "string \<Rightarrow> bool" where
  "job_failed s \<longleftrightarrow> s = ''FAILED'' \<or> s = ''CANCELLED'' \<or> s = ''WORKER_NEEDS_USER_ACTION''"

definition ascii_lower :: "string \<Rightarrow> string" where
  "ascii_lower s = map (\<lambda>c. let n = (of_char c :: nat) in if 65 \<le> n \<and> n \<le> 90 then char_of (n + 32) else c) s"

definition failure_message :: "string \<Rightarrow> string option \<Rightarrow> string" where
  "failure_message status err =
     (let m = py_strip (case err of None \<Rightarrow> '''' | Some e \<Rightarrow> e);
          m = (if m = '''' then ''the generation ended as '' @ ascii_lower status else m)
      in if status = ''WORKER_NEEDS_USER_ACTION'' then m @ '' - open Productions to resolve it'' else m)"

text \<open>The job as read in an earlier session, and the transition it leads to.\<close>

definition follow_outcome ::
  "int \<Rightarrow> canvas_job option \<Rightarrow> canvas_db \<Rightarrow> node_run \<Rightarrow> string \<Rightarrow> bool \<times> canvas_db" where
  "follow_outcome now job t st jid =
     (let status = (case job of None \<Rightarrow> ''MISSING'' | Some j \<Rightarrow> cj_status j);
          asset = (case job of None \<Rightarrow> None | Some j \<Rightarrow> cj_output_asset j);
          code = (case job of None \<Rightarrow> Some ''JOB_MISSING'' | Some j \<Rightarrow> cj_error_code j);
          message = (case job of None \<Rightarrow> Some ''job not found'' | Some j \<Rightarrow> cj_error_message j) in
      if status = ''COMPLETED'' \<and> py_falsy asset
      then transition t (nr_id st) RUNNING FAILED None
        (ended now ''JOB_NO_OUTPUT'' ''the generation completed without an output'')
      else if status = ''COMPLETED''
      then transition t (nr_id st) RUNNING SUCCEEDED None
        (\<lambda>r. r\<lparr>nr_finished := Some now,
               nr_outputs := [(if nr_node_type st = ''video_generation'' then ''video'' else ''image'',
                 JObj [(''asset_id'', JStr (the asset)), (''generation_job_id'', JStr jid)])]\<rparr>)
      else if job_failed status \<or> status = ''MISSING''
      then transition t (nr_id st) RUNNING FAILED None
        (ended now (take 100 (if py_falsy code then ''JOB_'' @ status else the code))
          (take 1000 (failure_message status message)))
      else (False, t))"

definition follow_job :: "int \<Rightarrow> int \<Rightarrow> canvas_db \<Rightarrow> node_run \<Rightarrow> bool \<times> canvas_db" where
  "follow_job now llm_timeout_seconds t st =
     (if py_falsy (nr_job_id st) then
        (let (found, t1) = recover_job t st in
         if py_falsy found then
           (if \<not> llm_abandoned now llm_timeout_seconds st then (False, t1)
            else transition t1 (nr_id st) RUNNING FAILED None
              (ended now ''JOB_MISSING'' ''the generation could not be created''))
         else follow_outcome now (get_job t1 (the found)) t1 st (the found))
      else follow_outcome now (get_job t (the (nr_job_id st))) t st (the (nr_job_id st)))"

definition reset_or_fail_llm :: "int \<Rightarrow> canvas_db \<Rightarrow> node_run \<Rightarrow> canvas_db" where
  "reset_or_fail_llm now t st =
     snd (if nr_attempts st < MAX_LLM_ATTEMPTS
          then transition t (nr_id st) RUNNING PENDING (Some (nr_attempts st)) (\<lambda>r. r)
          else transition t (nr_id st) RUNNING FAILED (Some (nr_attempts st))
            (ended now ''LLM_TIMEOUT'' ''the model call did not finish''))"

text \<open>The first transition of \<^verbatim>\<open>_execute\<close>, and the ones that end an attempt.\<close>

definition begin_attempt :: "int \<Rightarrow> canvas_db \<Rightarrow> node_run \<Rightarrow> bool \<times> canvas_db" where
  "begin_attempt now t st = transition t (nr_id st) PENDING RUNNING None
     (\<lambda>r. r\<lparr>nr_started := Some now, nr_attempts := nr_attempts st + 1\<rparr>)"

definition fail_attempt :: "int \<Rightarrow> canvas_db \<Rightarrow> node_run \<Rightarrow> int \<Rightarrow> string \<Rightarrow> string \<Rightarrow> canvas_db" where
  "fail_attempt now t st attempt code message =
     snd (transition t (nr_id st) RUNNING FAILED (Some attempt) (ended now (take 100 code) (take 1000 message)))"

definition answer_llm :: "int \<Rightarrow> canvas_db \<Rightarrow> node_run \<Rightarrow> int \<Rightarrow> string \<Rightarrow> (string \<times> json) list \<Rightarrow> canvas_db" where
  "answer_llm now t st attempt text usage =
     snd (transition t (nr_id st) RUNNING SUCCEEDED (Some attempt)
       (\<lambda>r. r\<lparr>nr_finished := Some now, nr_outputs := [(''text'', JStr text)], nr_usage := usage\<rparr>))"

definition update_attempt :: "canvas_db \<Rightarrow> node_run \<Rightarrow> int \<Rightarrow> (node_run \<Rightarrow> node_run) \<Rightarrow> canvas_db" where
  "update_attempt t st attempt f = t\<lparr>cd_node_runs :=
     update_where (\<lambda>r. nr_id r = nr_id st \<and> nr_status r = RUNNING \<and> nr_attempts r = attempt) f (cd_node_runs t)\<rparr>"

definition record_inputs ::
  "canvas_db \<Rightarrow> node_run \<Rightarrow> int \<Rightarrow> (string \<times> json) list \<Rightarrow> string option \<Rightarrow> canvas_db" where
  "record_inputs t st attempt inputs connection =
     update_attempt t st attempt (\<lambda>r. r\<lparr>nr_inputs := inputs,
       nr_connection_id := (if py_falsy connection then None else connection)\<rparr>)"

definition record_job :: "canvas_db \<Rightarrow> node_run \<Rightarrow> int \<Rightarrow> string \<Rightarrow> canvas_db" where
  "record_job t st attempt job = update_attempt t st attempt (\<lambda>r. r\<lparr>nr_job_id := Some job\<rparr>)"

section \<open>One round of a worker\<close>

text \<open>
  What is to be done with the pending nodes: the second step of \<^verbatim>\<open>advance\<close>. \<open>states\<close> are the
  rows of the run as loaded, by node id.
\<close>

definition state_of :: "node_run list \<Rightarrow> string \<Rightarrow> node_run option" where
  "state_of states i = row_where (\<lambda>r. nr_node_id r = i) states"

definition source_states :: "workflow_graph \<Rightarrow> node_run list \<Rightarrow> string \<Rightarrow> node_run option list" where
  "source_states g states i =
     map (\<lambda>e. state_of states (ge_source e)) (incoming g (the (find_node (wg_nodes g) i)))"

definition unreachable_input :: "node_run option \<Rightarrow> bool" where
  "unreachable_input s = (case s of None \<Rightarrow> True | Some r \<Rightarrow> blocking (nr_status r))"

definition input_ready :: "node_run option \<Rightarrow> bool" where
  "input_ready s = (case s of None \<Rightarrow> False | Some r \<Rightarrow> satisfied (nr_status r))"

fun triage ::
  "workflow_graph \<Rightarrow> node_run list \<Rightarrow> string list \<Rightarrow> node_run list \<times> node_run list" where
  "triage g states [] = ([], [])"
| "triage g states (i # order) =
     (let (skipped, ready) = triage g states order in
      case state_of states i of
        None \<Rightarrow> (skipped, ready)
      | Some st \<Rightarrow>
          if nr_status st \<noteq> PENDING then (skipped, ready)
          else if list_ex unreachable_input (source_states g states i) then (st # skipped, ready)
          else if list_all input_ready (source_states g states i) then (skipped, st # ready)
          else (skipped, ready))"

definition unfinished :: "nat \<Rightarrow> string option" where
  "unfinished n = (if n = 0 then None
     else Some (py_int_str (int n) @ '' node'' @ (if n \<noteq> 1 then ''s'' else '''') @ '' did not finish''))"

text \<open>The end of a run: \<^verbatim>\<open>current\<close> are its rows as loaded again.\<close>

definition settle_run ::
  "int \<Rightarrow> int \<Rightarrow> string \<Rightarrow> bool \<Rightarrow> canvas_db \<Rightarrow> canvas_db \<Rightarrow> string \<Rightarrow> canvas_db" where
  "settle_run now due token waiting s t rid =
     (case get_run s rid of
        None \<Rightarrow> t
      | Some r0 \<Rightarrow>
          if \<not> active (run_status r0) then t
          else
            let current = filter (\<lambda>n. nr_run_id n = rid) (cd_node_runs s);
                failed = filter (\<lambda>n. nr_status n = FAILED \<or> nr_status n = SKIPPED) current
            in if list_ex (\<lambda>n. \<not> terminal (nr_status n)) current \<or> waiting then schedule due token t rid
            else snd (update_runs
              (\<lambda>r. run_id r = rid \<and> run_claim_token r = Some token \<and> active (run_status r))
              (\<lambda>r. r\<lparr>run_status := (if failed \<noteq> [] then RUN_FAILED else RUN_SUCCEEDED), run_finished := Some now,
                run_started := (case run_started r0 of None \<Rightarrow> Some now | Some v \<Rightarrow> Some v), run_next_advance := None,
                run_error := unfinished (length failed)\<rparr>) t))"

section \<open>Stopping\<close>

definition cancel_run_rows :: "string \<Rightarrow> int \<Rightarrow> canvas_db \<Rightarrow> string \<Rightarrow> bool \<times> canvas_db" where
  "cancel_run_rows reason now t rid =
     (let (stopped, t1) = update_runs (\<lambda>r. run_id r = rid \<and> active (run_status r))
            (\<lambda>r. r\<lparr>run_status := RUN_CANCELLED, run_cancel_requested := Some now, run_finished := Some now,
              run_error := Some (take 1000 reason), run_claim_token := None, run_claim_expires := None\<rparr>) t
      in if \<not> stopped then (False, t1)
      else (True, t1\<lparr>cd_node_runs :=
        update_where (\<lambda>n. nr_run_id n = rid \<and> (nr_status n = PENDING \<or> nr_status n = RUNNING))
          (\<lambda>n. (ended now ''RUN_CANCELLED'' (take 1000 reason) n)\<lparr>nr_status := NODE_CANCELLED\<rparr>) (cd_node_runs t1)\<rparr>))"

text \<open>The transaction of \<^verbatim>\<open>cancel\<close>: the jobs to stop at the provider and the new state.\<close>

definition cancel :: "int \<Rightarrow> canvas_db \<Rightarrow> string \<Rightarrow> canvas_error + string list \<times> canvas_db" where
  "cancel now t rid =
     (case get_run t rid of
        None \<Rightarrow> Inl (CanvasLookupError ''workflow run not found'')
      | Some _ \<Rightarrow>
          let jobs = map (\<lambda>n. the (nr_job_id n)) (filter (\<lambda>n. nr_run_id n = rid \<and> nr_status n = RUNNING \<and>
                \<not> py_falsy (nr_job_id n)) (cd_node_runs t));
              (stopped, t1) = cancel_run_rows ''stopped by the user'' now t rid
          in Inr (if stopped then jobs else [], t1))"

definition delete_workflow :: "int \<Rightarrow> canvas_db \<Rightarrow> string \<Rightarrow> string option \<Rightarrow> canvas_error + canvas_db" where
  "delete_workflow now t wid user =
     (case live_workflow t wid of
        None \<Rightarrow> Inl WorkflowNotFound
      | Some _ \<Rightarrow>
          let t1 = t\<lparr>cd_workflows := update_where (\<lambda>w. wf_id w = wid \<and> wf_deleted_at w = None)
                (\<lambda>w. w\<lparr>wf_deleted_at := Some now, wf_deleted_by := user\<rparr>) (cd_workflows t)\<rparr>;
              runs = map run_id (filter (\<lambda>r. run_workflow_id r = wid \<and> active (run_status r)) (cd_runs t1))
          in Inr (fold (\<lambda>rid t. snd (cancel_run_rows ''the canvas was deleted'' now t rid)) runs t1))"

end
