(* ===== verification/Workflow_Run_Safety.thy ===== *)
theory Workflow_Run_Safety
  imports Workflow_Runs Workflow_Properties
begin

text \<open>
  Runs under concurrency: any number of workers, a user who cancels, edits or deletes, and jobs that
  move on their own. \<open>canvas_txn s t u\<close> is one session of the program: what it knows was read from
  \<open>s\<close>, it changes \<open>t\<close> to \<open>u\<close>. The invariant of the tables and what no execution takes back are
  shown rowwise.
\<close>

section \<open>Sessions\<close>

inductive canvas_txn :: "canvas_db \<Rightarrow> canvas_db \<Rightarrow> canvas_db \<Rightarrow> bool" where
  txn_create: "create flen new_id now t p user name graph = Inr (w, u) \<Longrightarrow>
    new_id \<notin> wf_id ` set (cd_workflows t) \<Longrightarrow> canvas_txn s t u"
| txn_save: "save flen now s t wid user v name graph = Inr (v', u) \<Longrightarrow> canvas_txn s t u"
| txn_start: "start flen digest graph_hash new_id node_row_id now t rq = Inr (run, u) \<Longrightarrow>
    new_id \<notin> run_id ` set (cd_runs t) \<Longrightarrow> inj node_row_id \<Longrightarrow>
    range node_row_id \<inter> nr_id ` set (cd_node_runs t) = {} \<Longrightarrow> canvas_txn s t u"
| txn_claim: "canvas_txn s t (snd (claim now duration token t rid))"
| txn_release: "canvas_txn s t (release token t rid)"
| txn_renew: "canvas_txn s t (snd (renew now duration token t rid))"
| txn_mark_running: "canvas_txn s t (mark_running now token t rid)"
| txn_schedule: "canvas_txn s t (schedule due token t rid)"
| txn_skip: "canvas_txn s t (skip now t st)"
| txn_recover: "canvas_txn s t (snd (recover_job t st))"
| txn_follow: "canvas_txn s t (snd (follow_job now limit t st))"
| txn_outcome: "canvas_txn s t (snd (follow_outcome now (get_job s jid) t st jid))"
| txn_reset: "st \<in> set (cd_node_runs s) \<Longrightarrow> nr_node_type st = ''llm'' \<Longrightarrow> canvas_txn s t (reset_or_fail_llm now t st)"
| txn_begin: "st \<in> set (cd_node_runs s) \<Longrightarrow> nr_status st = PENDING \<Longrightarrow> canvas_txn s t (snd (begin_attempt now t st))"
| txn_fail: "canvas_txn s t (fail_attempt now t st attempt code msg)"
| txn_answer: "canvas_txn s t (answer_llm now t st attempt txt usage)"
| txn_inputs: "canvas_txn s t (record_inputs t st attempt inputs connection)"
| txn_job: "canvas_txn s t (record_job t st attempt job)"
| txn_settle: "canvas_txn s t (settle_run now due token w s t rid)"
| txn_cancel: "cancel now t rid = Inr (jobs, u) \<Longrightarrow> canvas_txn s t u"
| txn_delete: "delete_workflow now t wid user = Inr u \<Longrightarrow> canvas_txn s t u"
| txn_outside: "canvas_txn s t (t\<lparr>cd_projects := p, cd_jobs := j, cd_idempotency := i, cd_assets := a\<rparr>)"

section \<open>The invariant and the frame\<close>

definition node_row_ok :: "node_run \<Rightarrow> bool" where
  "node_row_ok n \<longleftrightarrow> 0 \<le> nr_attempts n \<and> nr_attempts n \<le> MAX_LLM_ATTEMPTS \<and>
     (nr_status n = PENDING \<longrightarrow> nr_attempts n \<le> 1) \<and>
     (nr_node_type n \<noteq> ''llm'' \<longrightarrow> nr_attempts n \<le> 1 \<and> (nr_status n = PENDING \<longrightarrow> nr_attempts n = 0))"

definition run_nodes_ok :: "run_status \<Rightarrow> node_status \<Rightarrow> bool" where
  "run_nodes_ok r n \<longleftrightarrow> (\<not> active r \<longrightarrow> terminal n) \<and> (r = RUN_SUCCEEDED \<longrightarrow> satisfied n) \<and>
     (active r \<longrightarrow> n \<noteq> NODE_CANCELLED)"

definition canvas_inv :: "canvas_db \<Rightarrow> bool" where
  "canvas_inv t \<longleftrightarrow> distinct (map run_id (cd_runs t)) \<and> distinct (map nr_id (cd_node_runs t)) \<and>
     list_all node_row_ok (cd_node_runs t) \<and>
     nr_run_id ` set (cd_node_runs t) \<subseteq> run_id ` set (cd_runs t) \<and>
     list_all (\<lambda>r. list_all (\<lambda>n. nr_run_id n = run_id r \<longrightarrow> run_nodes_ok (run_status r) (nr_status n))
       (cd_node_runs t)) (cd_runs t) \<and>
     distinct (map run_workflow_id (filter (\<lambda>r. active (run_status r)) (cd_runs t)))"

definition node_evolves :: "node_run \<Rightarrow> node_run \<Rightarrow> bool" where
  "node_evolves n n' \<longleftrightarrow> nr_id n' = nr_id n \<and> nr_run_id n' = nr_run_id n \<and> nr_node_id n' = nr_node_id n \<and>
     nr_node_type n' = nr_node_type n \<and> (terminal (nr_status n) \<longrightarrow> n' = n) \<and>
     (nr_node_type n \<noteq> ''llm'' \<and> nr_status n \<noteq> PENDING \<longrightarrow> nr_status n' \<noteq> PENDING)"

definition run_evolves :: "workflow_run \<Rightarrow> workflow_run \<Rightarrow> bool" where
  "run_evolves r r' \<longleftrightarrow> run_id r' = run_id r \<and> run_workflow_id r' = run_workflow_id r \<and> run_graph r' = run_graph r \<and>
     (\<not> active (run_status r) \<longrightarrow> run_status r' = run_status r \<and> run_finished r' = run_finished r \<and> run_error r' = run_error r)"

definition canvas_frame :: "canvas_db \<Rightarrow> canvas_db \<Rightarrow> bool" where
  "canvas_frame s t \<longleftrightarrow> (\<forall>r \<in> set (cd_runs s). \<exists>r' \<in> set (cd_runs t). run_evolves r r') \<and>
     (\<forall>n \<in> set (cd_node_runs s). \<exists>n' \<in> set (cd_node_runs t). node_evolves n n') \<and>
     (\<forall>n' \<in> set (cd_node_runs t). nr_run_id n' \<in> run_id ` set (cd_runs s) \<longrightarrow>
        (\<exists>n \<in> set (cd_node_runs s). node_evolves n n'))"

lemma node_evolves_refl [simp]: "node_evolves n n"
  by (simp add: node_evolves_def)

lemma run_evolves_refl [simp]: "run_evolves r r"
  by (simp add: run_evolves_def)

lemma node_evolves_trans: "node_evolves a b \<Longrightarrow> node_evolves b c \<Longrightarrow> node_evolves a c"
  by (auto simp: node_evolves_def)

lemma run_evolves_trans: "run_evolves a b \<Longrightarrow> run_evolves b c \<Longrightarrow> run_evolves a c"
  by (auto simp: run_evolves_def)

lemma canvas_frame_refl: "canvas_frame s s"
  by (auto simp: canvas_frame_def intro: node_evolves_refl run_evolves_refl)

lemma canvas_frame_trans:
  assumes "canvas_frame s t" and "canvas_frame t u"
  shows "canvas_frame s u"
proof -
  have "\<exists>n \<in> set (cd_node_runs s). node_evolves n n''"
    if n'': "n'' \<in> set (cd_node_runs u)" "nr_run_id n'' \<in> run_id ` set (cd_runs s)" for n''
  proof -
    from n''(2) obtain r where r: "r \<in> set (cd_runs s)" "run_id r = nr_run_id n''" by auto
    with assms(1) obtain r' where "r' \<in> set (cd_runs t)" "run_evolves r r'" by (auto simp: canvas_frame_def)
    then have "nr_run_id n'' \<in> run_id ` set (cd_runs t)" using r(2) by (metis image_eqI run_evolves_def)
    with assms(2) n''(1) obtain n' where n': "n' \<in> set (cd_node_runs t)" "node_evolves n' n''"
      by (auto simp: canvas_frame_def)
    then have "nr_run_id n' \<in> run_id ` set (cd_runs s)" using n''(2) by (simp add: node_evolves_def)
    with assms(1) n'(1) obtain n where "n \<in> set (cd_node_runs s)" "node_evolves n n'" by (auto simp: canvas_frame_def)
    with n'(2) show ?thesis by (blast intro: node_evolves_trans)
  qed
  moreover have "\<forall>r \<in> set (cd_runs s). \<exists>r' \<in> set (cd_runs u). run_evolves r r'"
    using assms unfolding canvas_frame_def by (meson run_evolves_trans)
  moreover have "\<forall>n \<in> set (cd_node_runs s). \<exists>n' \<in> set (cd_node_runs u). node_evolves n n'"
    using assms unfolding canvas_frame_def by (meson node_evolves_trans)
  ultimately show ?thesis unfolding canvas_frame_def by blast
qed

section \<open>Rowwise changes\<close>

lemma rowwise:
  assumes inv: "canvas_inv t"
    and runs: "cd_runs u = map h (cd_runs t)" and nodes: "cd_node_runs u = map g (cd_node_runs t)"
    and h: "\<And>r. r \<in> set (cd_runs t) \<Longrightarrow> run_evolves r (h r)"
    and act: "\<And>r. r \<in> set (cd_runs t) \<Longrightarrow> active (run_status (h r)) \<Longrightarrow> active (run_status r)"
    and g: "\<And>n. n \<in> set (cd_node_runs t) \<Longrightarrow> node_evolves n (g n) \<and> node_row_ok (g n)"
    and cross: "\<And>r n. r \<in> set (cd_runs t) \<Longrightarrow> n \<in> set (cd_node_runs t) \<Longrightarrow> nr_run_id n = run_id r \<Longrightarrow>
      active (run_status r) \<Longrightarrow> run_nodes_ok (run_status (h r)) (nr_status (g n))"
  shows "canvas_inv u \<and> canvas_frame t u"
proof
  have ids: "map run_id (map h (cd_runs t)) = map run_id (cd_runs t)"
    "map nr_id (map g (cd_node_runs t)) = map nr_id (cd_node_runs t)"
    using h g by (auto simp: run_evolves_def node_evolves_def)
  have "run_nodes_ok (run_status (h r)) (nr_status (g n))"
    if r: "r \<in> set (cd_runs t)" and n: "n \<in> set (cd_node_runs t)" and eq: "nr_run_id (g n) = run_id (h r)" for r n
  proof -
    have eq': "nr_run_id n = run_id r" using eq h [OF r] g [OF n] by (simp add: run_evolves_def node_evolves_def)
    show ?thesis
    proof (cases "active (run_status r)")
      case True
      then show ?thesis using cross r n eq' by blast
    next
      case False
      have ok: "run_nodes_ok (run_status r) (nr_status n)"
        using inv r n eq' by (auto simp: canvas_inv_def list_all_iff)
      then have "g n = n" using False g [OF n] by (simp add: run_nodes_ok_def node_evolves_def)
      then show ?thesis using ok False h [OF r] by (simp add: run_evolves_def)
    qed
  qed
  then have "list_all (\<lambda>r. list_all (\<lambda>n. nr_run_id n = run_id r \<longrightarrow> run_nodes_ok (run_status r) (nr_status n))
       (cd_node_runs u)) (cd_runs u)" unfolding runs nodes by (auto simp: list_all_iff)
  moreover have "nr_run_id ` set (cd_node_runs u) \<subseteq> run_id ` set (cd_runs u)"
  proof -
    have "nr_run_id ` set (cd_node_runs u) = nr_run_id ` set (cd_node_runs t)"
      unfolding nodes using g by (force simp: node_evolves_def image_iff)
    moreover have "run_id ` set (cd_runs u) = run_id ` set (cd_runs t)"
      unfolding runs using h by (force simp: run_evolves_def image_iff)
    ultimately show ?thesis using inv by (simp add: canvas_inv_def)
  qed
  moreover have "distinct (map run_workflow_id (filter (\<lambda>r. active (run_status r)) (cd_runs u)))"
  proof -
    have "distinct (map run_workflow_id (filter (\<lambda>r. active (run_status r)) (map h rs)))"
      if "set rs \<subseteq> set (cd_runs t)" "distinct (map run_workflow_id (filter (\<lambda>r. active (run_status r)) rs))" for rs
      using that
    proof (induction rs)
      case (Cons r rs)
      then have r: "run_workflow_id (h r) = run_workflow_id r" using h [of r] by (simp add: run_evolves_def)
      have "run_workflow_id r \<notin> run_workflow_id ` set (filter (\<lambda>r. active (run_status r)) (map h rs))"
        if "active (run_status r)"
      proof
        assume "run_workflow_id r \<in> run_workflow_id ` set (filter (\<lambda>r. active (run_status r)) (map h rs))"
        then obtain x where "x \<in> set rs" "active (run_status (h x))" "run_workflow_id (h x) = run_workflow_id r" by auto
        then have "x \<in> set rs" "active (run_status x)" "run_workflow_id x = run_workflow_id r"
          using Cons.prems(1) act [of x] h [of x] by (auto simp: run_evolves_def)
        then show False using Cons.prems(2) that by (auto simp: image_iff)
      qed
      then show ?case using Cons r act [of r] by (auto split: if_split_asm)
    qed simp
    then show ?thesis unfolding runs using inv by (simp add: canvas_inv_def)
  qed
  moreover have "list_all node_row_ok (cd_node_runs u)" unfolding nodes using g by (auto simp: list_all_iff)
  ultimately show "canvas_inv u" using inv unfolding canvas_inv_def runs nodes ids by simp
  have "\<exists>n \<in> set (cd_node_runs t). node_evolves n n'" if "n' \<in> set (cd_node_runs u)" for n'
    using that g unfolding nodes by auto
  then show "canvas_frame t u"
    unfolding canvas_frame_def runs nodes using h g by auto
qed

lemma node_statuses: "terminal s \<longleftrightarrow> s \<noteq> PENDING \<and> s \<noteq> RUNNING"
  by (cases s) (simp_all add: terminal_def)

definition canvas_safe :: "canvas_db \<Rightarrow> canvas_db \<Rightarrow> bool" where
  "canvas_safe t u \<longleftrightarrow> (canvas_inv t \<longrightarrow> canvas_inv u \<and> canvas_frame t u)"

lemma canvas_safe_refl: "canvas_safe t t"
  by (simp add: canvas_safe_def canvas_frame_refl)

lemma canvas_safe_trans: "canvas_safe s t \<Longrightarrow> canvas_safe t u \<Longrightarrow> canvas_safe s u"
  by (auto simp: canvas_safe_def intro: canvas_frame_trans)

lemma same_rows:
  "cd_runs u = cd_runs t \<Longrightarrow> cd_node_runs u = cd_node_runs t \<Longrightarrow> canvas_safe t u"
  using canvas_frame_refl [of t] by (simp add: canvas_safe_def canvas_inv_def canvas_frame_def)

lemma inv_row:
  assumes "canvas_inv t" and "n \<in> set (cd_node_runs t)"
  shows "node_row_ok n"
  using assms by (simp add: canvas_inv_def list_all_iff)

lemma inv_pair:
  assumes "canvas_inv t" and "r \<in> set (cd_runs t)" and "n \<in> set (cd_node_runs t)" and "nr_run_id n = run_id r"
  shows "run_nodes_ok (run_status r) (nr_status n)"
  using assms by (simp add: canvas_inv_def list_all_iff)

text \<open>A row after an UPDATE; an UPDATE of runs, and one of node rows.\<close>

lemma set_update_whereE:
  assumes "x \<in> set (update_where P f rows)"
  obtains y where "y \<in> set rows" and "P y" and "x = f y" | "x \<in> set rows" and "\<not> P x"
proof -
  from assms obtain y where "y \<in> set rows" "x = (if P y then f y else y)" unfolding set_update_where by blast
  then show thesis using that by (cases "P y") auto
qed

lemma update_runs_safe:
  assumes "\<And>r. r \<in> set (cd_runs t) \<Longrightarrow> P r \<Longrightarrow> run_evolves r (f r) \<and> (active (run_status (f r)) \<longrightarrow> active (run_status r))"
    and "\<And>r n. canvas_inv t \<Longrightarrow> r \<in> set (cd_runs t) \<Longrightarrow> P r \<Longrightarrow> active (run_status r) \<Longrightarrow> n \<in> set (cd_node_runs t) \<Longrightarrow>
      nr_run_id n = run_id r \<Longrightarrow> run_nodes_ok (run_status r) (nr_status n) \<Longrightarrow> run_nodes_ok (run_status (f r)) (nr_status n)"
  shows "canvas_safe t (snd (update_runs P f t))"
  unfolding canvas_safe_def
proof
  assume inv: "canvas_inv t"
  show "canvas_inv (snd (update_runs P f t)) \<and> canvas_frame t (snd (update_runs P f t))"
  proof (rule rowwise [OF inv, where h = "\<lambda>r. if P r then f r else r" and g = "\<lambda>n. n"])
    show "run_nodes_ok (run_status (if P r then f r else r)) (nr_status n)"
      if "r \<in> set (cd_runs t)" "n \<in> set (cd_node_runs t)" "nr_run_id n = run_id r" "active (run_status r)" for r n
      using assms(2) [OF inv that(1) _ that(4,2,3)] inv_pair [OF inv that(1-3)] by simp
  qed (use assms(1) inv_row [OF inv] in \<open>auto simp: update_runs_def update_where_def split: if_split_asm\<close>)
qed

lemma update_nodes_safe:
  assumes "\<And>n. canvas_inv t \<Longrightarrow> n \<in> set (cd_node_runs t) \<Longrightarrow> P n \<Longrightarrow> node_row_ok n \<Longrightarrow>
      node_evolves n (f n) \<and> node_row_ok (f n) \<and> (nr_status (f n) = NODE_CANCELLED \<longrightarrow> nr_status n = NODE_CANCELLED)"
  shows "canvas_safe t (t\<lparr>cd_node_runs := update_where P f (cd_node_runs t)\<rparr>)"
  unfolding canvas_safe_def
proof
  assume inv: "canvas_inv t"
  show "canvas_inv (t\<lparr>cd_node_runs := update_where P f (cd_node_runs t)\<rparr>) \<and>
      canvas_frame t (t\<lparr>cd_node_runs := update_where P f (cd_node_runs t)\<rparr>)"
  proof (rule rowwise [OF inv, where h = "\<lambda>r. r" and g = "\<lambda>n. if P n then f n else n"])
    show "run_nodes_ok (run_status r) (nr_status (if P n then f n else n))"
      if "r \<in> set (cd_runs t)" "n \<in> set (cd_node_runs t)" "nr_run_id n = run_id r" "active (run_status r)" for r n
      using assms [OF inv that(2) _ inv_row [OF inv that(2)]] inv_pair [OF inv that(1-3)] that(4)
      by (auto simp: run_nodes_ok_def active_def)
  qed (use assms [OF inv] inv_row [OF inv] in \<open>auto simp: update_where_def\<close>)
qed

lemma transition_safe:
  assumes "\<not> terminal from" and "to' \<noteq> NODE_CANCELLED"
    and "\<And>n. canvas_inv t \<Longrightarrow> n \<in> set (cd_node_runs t) \<Longrightarrow> nr_id n = row_id \<Longrightarrow> nr_status n = from \<Longrightarrow>
      (attempt = None \<or> Some (nr_attempts n) = attempt) \<Longrightarrow> node_row_ok n \<Longrightarrow>
      nr_id (values n) = nr_id n \<and> nr_run_id (values n) = nr_run_id n \<and> nr_node_id (values n) = nr_node_id n \<and>
      nr_node_type (values n) = nr_node_type n \<and> node_row_ok ((values n)\<lparr>nr_status := to'\<rparr>) \<and>
      (to' = PENDING \<longrightarrow> nr_node_type n = ''llm'')"
  shows "canvas_safe t (snd (transition t row_id from to' attempt values))"
  unfolding transition_def Let_def snd_conv
proof (rule update_nodes_safe, goal_cases)
  case (1 n)
  with assms(3) [of n] assms(1,2) show ?case by (auto simp: node_evolves_def)
qed

lemma ending_safe:
  assumes "to' \<in> {SUCCEEDED, FAILED, SKIPPED}" and "from = PENDING \<or> from = RUNNING"
    and "\<And>n. nr_id (values n) = nr_id n \<and> nr_run_id (values n) = nr_run_id n \<and> nr_node_id (values n) = nr_node_id n \<and>
      nr_node_type (values n) = nr_node_type n \<and> nr_attempts (values n) = nr_attempts n"
  shows "canvas_safe t (snd (transition t row_id from to' attempt values))"
  using assms by (intro transition_safe) (auto simp: terminal_def node_row_ok_def)

lemma ended_keeps: "nr_id (ended now c m n) = nr_id n \<and> nr_run_id (ended now c m n) = nr_run_id n \<and>
    nr_node_id (ended now c m n) = nr_node_id n \<and> nr_node_type (ended now c m n) = nr_node_type n \<and>
    nr_attempts (ended now c m n) = nr_attempts n \<and> nr_status (ended now c m n) = nr_status n"
  by (simp add: ended_def)

lemma recover_job_safe: "canvas_safe t (snd (recover_job t st))"
proof (cases "map_of (cd_idempotency t) (''canvas:'' @ nr_id st)")
  case None
  then show ?thesis unfolding recover_job_def by (simp add: canvas_safe_refl)
next
  case (Some j)
  have "canvas_safe t (t\<lparr>cd_node_runs := update_where (\<lambda>r. nr_id r = nr_id st \<and> nr_status r = RUNNING)
      (\<lambda>r. r\<lparr>nr_job_id := Some j\<rparr>) (cd_node_runs t)\<rparr>)"
    by (rule update_nodes_safe) (auto simp: node_evolves_def node_row_ok_def terminal_def)
  with Some show ?thesis unfolding recover_job_def by (auto simp: canvas_safe_refl)
qed

lemma follow_outcome_safe: "canvas_safe t (snd (follow_outcome now job t st jid))"
  unfolding follow_outcome_def Let_def
  by (auto intro!: ending_safe canvas_safe_refl simp: ended_keeps simp del: append.simps)

lemma follow_job_safe: "canvas_safe t (snd (follow_job now limit t st))"
proof (cases "py_falsy (nr_job_id st)")
  case True
  obtain found t1 where rec: "recover_job t st = (found, t1)" by fastforce
  have t1: "canvas_safe t t1" using recover_job_safe [of t st] by (simp add: rec)
  have fail: "canvas_safe t1 (snd (transition t1 (nr_id st) RUNNING FAILED None (ended now c m)))" for c m
    by (rule ending_safe) (simp_all add: ended_keeps)
  from True rec show ?thesis unfolding follow_job_def
    by (auto intro: t1 canvas_safe_trans [OF t1 fail] canvas_safe_trans [OF t1 follow_outcome_safe])
next
  case False
  then show ?thesis unfolding follow_job_def by (simp add: follow_outcome_safe)
qed

lemma frame_row:
  assumes "canvas_frame s t" and "canvas_inv t" and "st \<in> set (cd_node_runs s)" and "n \<in> set (cd_node_runs t)"
    and "nr_id n = nr_id st"
  shows "node_evolves st n"
proof -
  from assms(1,3) obtain n' where n': "n' \<in> set (cd_node_runs t)" "node_evolves st n'"
    by (auto simp: canvas_frame_def)
  then have "nr_id n' = nr_id n" using assms(5) by (simp add: node_evolves_def)
  moreover have "inj_on nr_id (set (cd_node_runs t))" using assms(2) by (simp add: canvas_inv_def distinct_map)
  ultimately have "n' = n" using n'(1) assms(4) by (simp add: inj_on_eq_iff)
  with n' show ?thesis by simp
qed

lemma frame_run:
  assumes "canvas_frame s t" and "canvas_inv t" and "r \<in> set (cd_runs s)" and "r' \<in> set (cd_runs t)"
    and "run_id r' = run_id r"
  shows "run_evolves r r'"
proof -
  from assms(1,3) obtain x where x: "x \<in> set (cd_runs t)" "run_evolves r x"
    by (auto simp: canvas_frame_def)
  then have "run_id x = run_id r'" using assms(5) by (simp add: run_evolves_def)
  moreover have "inj_on run_id (set (cd_runs t))" using assms(2) by (simp add: canvas_inv_def distinct_map)
  ultimately have "x = r'" using x(1) assms(4) by (simp add: inj_on_eq_iff)
  with x show ?thesis by simp
qed

text \<open>Leases and times do not touch a status.\<close>

lemma lease_only_safe:
  assumes "\<And>r. run_id (f r) = run_id r \<and> run_workflow_id (f r) = run_workflow_id r \<and> run_graph (f r) = run_graph r \<and>
      run_status (f r) = run_status r \<and> run_finished (f r) = run_finished r \<and> run_error (f r) = run_error r"
  shows "canvas_safe t (snd (update_runs P f t))"
  by (rule update_runs_safe) (simp_all add: assms run_evolves_def)

lemma claim_safe: "canvas_safe t (snd (claim now duration token t rid))"
  unfolding claim_def by (rule lease_only_safe) simp

lemma release_safe: "canvas_safe t (release token t rid)"
  unfolding release_def by (rule lease_only_safe) simp

lemma renew_safe: "canvas_safe t (snd (renew now duration token t rid))"
  unfolding renew_def by (rule lease_only_safe) simp

lemma schedule_safe: "canvas_safe t (schedule due token t rid)"
  unfolding schedule_def by (rule lease_only_safe) simp

lemma mark_running_safe: "canvas_safe t (mark_running now token t rid)"
  unfolding mark_running_def
  by (rule update_runs_safe) (auto simp: run_evolves_def active_def run_nodes_ok_def)

section \<open>Nodes\<close>

lemma skip_safe: "canvas_safe t (skip now t st)"
  unfolding skip_def by (rule ending_safe) (simp_all add: ended_keeps)

lemma fail_attempt_safe: "canvas_safe t (fail_attempt now t st attempt code msg)"
  unfolding fail_attempt_def by (rule ending_safe) (simp_all add: ended_keeps)

lemma answer_llm_safe: "canvas_safe t (answer_llm now t st attempt txt usage)"
  unfolding answer_llm_def by (rule ending_safe) simp_all

lemma update_attempt_safe:
  assumes "\<And>n. nr_id (f n) = nr_id n \<and> nr_run_id (f n) = nr_run_id n \<and> nr_node_id (f n) = nr_node_id n \<and>
      nr_node_type (f n) = nr_node_type n \<and> nr_attempts (f n) = nr_attempts n \<and> nr_status (f n) = nr_status n"
  shows "canvas_safe t (update_attempt t st attempt f)"
  unfolding update_attempt_def
  by (rule update_nodes_safe) (simp add: assms node_evolves_def node_row_ok_def terminal_def)

lemma record_inputs_safe: "canvas_safe t (record_inputs t st attempt inputs connection)"
  unfolding record_inputs_def by (rule update_attempt_safe) simp

lemma record_job_safe: "canvas_safe t (record_job t st attempt job)"
  unfolding record_job_def by (rule update_attempt_safe) simp

lemma reset_or_fail_llm_safe:
  assumes "canvas_frame s t" and "st \<in> set (cd_node_runs s)" and "nr_node_type st = ''llm''"
  shows "canvas_safe t (reset_or_fail_llm now t st)"
proof (cases "nr_attempts st < MAX_LLM_ATTEMPTS")
  case True
  have "canvas_safe t (snd (transition t (nr_id st) RUNNING PENDING (Some (nr_attempts st)) (\<lambda>r. r)))"
  proof (rule transition_safe, goal_cases)
    case (3 n)
    then have "nr_node_type n = ''llm''" using frame_row [OF assms(1) _ assms(2)] assms(3) by (simp add: node_evolves_def)
    with 3 True show ?case by (simp add: node_row_ok_def MAX_LLM_ATTEMPTS_def)
  qed (simp_all add: terminal_def)
  with True show ?thesis by (simp add: reset_or_fail_llm_def)
next
  case False
  have "canvas_safe t (snd (transition t (nr_id st) RUNNING FAILED a (ended now c m)))" for a c m
    by (rule ending_safe) (simp_all add: ended_keeps)
  with False show ?thesis by (simp add: reset_or_fail_llm_def)
qed

lemma begin_attempt_safe:
  assumes "canvas_frame s t" and "canvas_inv s" and "st \<in> set (cd_node_runs s)" and "nr_status st = PENDING"
  shows "canvas_safe t (snd (begin_attempt now t st))"
  unfolding begin_attempt_def
proof (rule transition_safe, goal_cases)
  case (3 n)
  then have "nr_node_type n = nr_node_type st"
    using frame_row [OF assms(1) _ assms(3)] by (simp add: node_evolves_def)
  moreover have "node_row_ok st" using assms(2,3) by (rule inv_row)
  ultimately show ?case using assms(4) by (simp add: node_row_ok_def MAX_LLM_ATTEMPTS_def)
qed (simp_all add: terminal_def)

section \<open>Runs\<close>

lemma get_run_SomeD: "get_run s rid = Some r \<Longrightarrow> r \<in> set (cd_runs s) \<and> run_id r = rid"
  unfolding get_run_def by (rule row_where_SomeD)

text \<open>
  The rows that \<^verbatim>\<open>_settle\<close> read and found finished are the rows of the run when it writes:
  no worker can have added one, and a finished row is final.
\<close>

lemma settled_rows:
  assumes frame: "canvas_frame s t" and run: "get_run s rid = Some r0"
    and all: "\<not> list_ex (\<lambda>n. \<not> terminal (nr_status n)) (filter (\<lambda>n. nr_run_id n = rid) (cd_node_runs s))"
    and n: "n \<in> set (cd_node_runs t)" "nr_run_id n = rid"
  shows "n \<in> set (cd_node_runs s) \<and> terminal (nr_status n)"
proof -
  have "nr_run_id n \<in> run_id ` set (cd_runs s)" using get_run_SomeD [OF run] n(2) by (simp add: image_iff) metis
  with frame n(1) obtain n0 where n0: "n0 \<in> set (cd_node_runs s)" "node_evolves n0 n" by (auto simp: canvas_frame_def)
  then have "nr_run_id n0 = rid" using n(2) by (simp add: node_evolves_def)
  with n0(1) all have "terminal (nr_status n0)" by (auto simp: list_ex_iff)
  with n0 show ?thesis by (simp add: node_evolves_def)
qed

lemma settle_run_safe:
  assumes "canvas_frame s t"
  shows "canvas_safe t (settle_run now due token w s t rid)"
proof (cases "get_run s rid")
  case None
  then show ?thesis by (simp add: settle_run_def canvas_safe_refl)
next
  case (Some r0)
  define current where "current = filter (\<lambda>n. nr_run_id n = rid) (cd_node_runs s)"
  define failed where "failed = filter (\<lambda>n. nr_status n = FAILED \<or> nr_status n = SKIPPED) current"
  show ?thesis
  proof (cases "active (run_status r0) \<and> \<not> list_ex (\<lambda>n. \<not> terminal (nr_status n)) current \<and> \<not> w")
    case False
    with Some show ?thesis
      by (auto simp: settle_run_def Let_def current_def [symmetric] canvas_safe_refl schedule_safe)
  next
    case True
    let ?f = "\<lambda>r. r\<lparr>run_status := (if failed \<noteq> [] then RUN_FAILED else RUN_SUCCEEDED), run_finished := Some now,
        run_started := (case run_started r0 of None \<Rightarrow> Some now | Some v \<Rightarrow> Some v), run_next_advance := None,
        run_error := unfinished (length failed)\<rparr>"
    let ?P = "\<lambda>r. run_id r = rid \<and> run_claim_token r = Some token \<and> active (run_status r)"
    have "canvas_safe t (snd (update_runs ?P ?f t))"
    proof (rule update_runs_safe, goal_cases)
      case (1 r)
      then show ?case by (simp add: run_evolves_def)
    next
      case (2 r n)
      then have rid: "nr_run_id n = rid" by simp
      have "\<not> list_ex (\<lambda>n. \<not> terminal (nr_status n)) current" using True by simp
      from settled_rows [OF assms Some this [unfolded current_def] 2(5) rid]
      have n: "n \<in> set (cd_node_runs s)" "nr_run_id n = rid" "terminal (nr_status n)"
        using rid by simp_all
      have "satisfied (nr_status n)" if "failed = []"
      proof -
        have "nr_status n \<noteq> FAILED" "nr_status n \<noteq> SKIPPED"
          using n that by (auto simp: failed_def current_def filter_empty_conv)
        moreover have "nr_status n \<noteq> NODE_CANCELLED" using 2 by (simp add: run_nodes_ok_def)
        ultimately show ?thesis using n(3) by (simp add: terminal_def satisfied_def)
      qed
      with n(3) show ?case by (simp add: run_nodes_ok_def active_def)
    qed
    with Some True show ?thesis
      by (simp add: settle_run_def Let_def current_def [symmetric] failed_def [symmetric])
  qed
qed

text \<open>Cancelling writes the run and its rows in one transaction.\<close>

lemma cancel_run_rows_safe: "canvas_safe t (snd (cancel_run_rows reason now t rid))"
proof -
  let ?P = "\<lambda>r. run_id r = rid \<and> active (run_status r)"
  let ?f = "\<lambda>r. r\<lparr>run_status := RUN_CANCELLED, run_cancel_requested := Some now, run_finished := Some now,
      run_error := Some (take 1000 reason), run_claim_token := None, run_claim_expires := None\<rparr>"
  let ?Q = "\<lambda>n. nr_run_id n = rid \<and> (nr_status n = PENDING \<or> nr_status n = RUNNING)"
  let ?g = "\<lambda>n. (ended now ''RUN_CANCELLED'' (take 1000 reason) n)\<lparr>nr_status := NODE_CANCELLED\<rparr>"
  show ?thesis
  proof (cases "affected ?P (cd_runs t) = 1")
    case False
    have "canvas_inv (snd (cancel_run_rows reason now t rid)) \<and> canvas_frame t (snd (cancel_run_rows reason now t rid))"
      if inv: "canvas_inv t"
    proof -
      have "affected ?P (cd_runs t) \<le> 1"
        by (rule affected_key_le_one [where k = run_id and c = rid]) (use inv in \<open>simp_all add: canvas_inv_def\<close>)
      with False have "update_where ?P ?f (cd_runs t) = cd_runs t" by (intro update_where_none) linarith
      with False inv show ?thesis by (simp add: cancel_run_rows_def update_runs_def canvas_frame_refl)
    qed
    then show ?thesis by (simp add: canvas_safe_def)
  next
    case True
    let ?u = "t\<lparr>cd_runs := update_where ?P ?f (cd_runs t), cd_node_runs := update_where ?Q ?g (cd_node_runs t)\<rparr>"
    have "canvas_inv ?u \<and> canvas_frame t ?u" if inv: "canvas_inv t"
    proof (rule rowwise [OF inv, where h = "\<lambda>r. if ?P r then ?f r else r" and g = "\<lambda>n. if ?Q n then ?g n else n"])
      show "run_nodes_ok (run_status (if ?P r then ?f r else r)) (nr_status (if ?Q n then ?g n else n))"
        if r: "r \<in> set (cd_runs t)" "n \<in> set (cd_node_runs t)" "nr_run_id n = run_id r" "active (run_status r)" for r n
        using inv_pair [OF inv r(1-3)] r(3,4) by (cases "run_id r = rid") (auto simp: run_nodes_ok_def active_def node_statuses)
      show "node_evolves n (if ?Q n then ?g n else n) \<and> node_row_ok (if ?Q n then ?g n else n)"
        if "n \<in> set (cd_node_runs t)" for n
        using inv_row [OF inv that] by (auto simp: node_evolves_def node_row_ok_def ended_keeps terminal_def)
      show "active (run_status r)" if "active (run_status (if ?P r then ?f r else r))" for r
        using that by (auto split: if_split_asm)
    qed (simp_all add: update_where_def run_evolves_def)
    with True show ?thesis by (simp add: cancel_run_rows_def update_runs_def canvas_safe_def)
  qed
qed

lemma cancel_safe:
  assumes "cancel now t rid = Inr (jobs, u)"
  shows "canvas_safe t u"
proof -
  obtain stopped t1 where rows: "cancel_run_rows ''stopped by the user'' now t rid = (stopped, t1)" by fastforce
  with cancel_run_rows_safe [of t "''stopped by the user''" now rid] have t1: "canvas_safe t t1" by simp
  show ?thesis
  proof (cases "get_run t rid")
    case None
    with assms show ?thesis by (simp add: cancel_def)
  next
    case (Some r)
    with assms rows have "u = t1" by (simp add: cancel_def Let_def)
    with t1 show ?thesis by simp
  qed
qed

lemma cancel_all_safe: "canvas_safe t (fold (\<lambda>rid t. snd (cancel_run_rows reason now t rid)) runs t)"
  by (induction runs arbitrary: t) (auto intro: canvas_safe_refl canvas_safe_trans [OF cancel_run_rows_safe])

lemma delete_workflow_safe:
  assumes "delete_workflow now t wid user = Inr u"
  shows "canvas_safe t u"
proof -
  from assms obtain x reason runs where
    "u = fold (\<lambda>rid t. snd (cancel_run_rows reason now t rid)) runs (t\<lparr>cd_workflows := x\<rparr>)"
    by (auto simp: delete_workflow_def Let_def split: option.split_asm)
  then show ?thesis using canvas_safe_trans [OF same_rows cancel_all_safe] by simp
qed

section \<open>Starting a run\<close>

lemma start_node_keeps:
  "nr_id (start_node t now p forced r n) = nr_id r \<and> nr_run_id (start_node t now p forced r n) = nr_run_id r \<and>
   nr_node_type (start_node t now p forced r n) = nr_node_type r \<and>
   nr_attempts (start_node t now p forced r n) = nr_attempts r \<and>
   (nr_status r = PENDING \<longrightarrow> nr_status (start_node t now p forced r n) \<in> {PENDING, SUCCEEDED, FAILED, CACHED})"
proof -
  have fin: "nr_id (finish s now v e r) = nr_id r \<and> nr_run_id (finish s now v e r) = nr_run_id r \<and>
      nr_node_type (finish s now v e r) = nr_node_type r \<and> nr_attempts (finish s now v e r) = nr_attempts r \<and>
      nr_status (finish s now v e r) = s" for s v e
    by (simp add: finish_def)
  have "nr_id (reuse_cached t now r) = nr_id r \<and> nr_run_id (reuse_cached t now r) = nr_run_id r \<and>
      nr_node_type (reuse_cached t now r) = nr_node_type r \<and> nr_attempts (reuse_cached t now r) = nr_attempts r \<and>
      (nr_status r = PENDING \<longrightarrow> nr_status (reuse_cached t now r) \<in> {PENDING, CACHED})"
    by (simp add: reuse_cached_def split: list.split)
  with fin show ?thesis unfolding start_node_def Let_def by simp blast
qed

lemma run_plan_scope:
  assumes "run_plan g order chosen force = Inr (targets, scope, forced)"
  shows "\<exists>P. scope = filter P order"
proof -
  have "\<exists>reach. scope = filter (executable_id g) (filter (\<lambda>i. i \<in> reach) order)"
    using assms unfolding run_plan_def Let_def by (cases chosen; simp split: if_split_asm) blast+
  then show ?thesis unfolding filter_filter by blast
qed

text \<open>What a successful \<^verbatim>\<open>start\<close> has checked and written.\<close>

lemma start_Inr:
  assumes "start flen digest graph_hash new_id node_row_id now t rq = Inr (run, u)"
  obtains w g order scope row where "live_workflow t (rq_workflow_id rq) = Some w" and "active_run_of t (wf_id w) = None"
    and "parse_graph flen (wf_graph w) = Inr g" and "topological_order g = Inr order"
    and "distinct scope" and "set scope \<subseteq> set (node_ids g)" and "scope \<noteq> []"
    and "run_issues g scope = Inr []"
    and "run_id run = new_id" and "run_workflow_id run = wf_id w" and "run_status run = QUEUED"
    and "run_graph run = graph_json g"
    and "u = t\<lparr>cd_runs := cd_runs t @ [run], cd_node_runs := cd_node_runs t @ map row scope\<rparr>"
    and "\<forall>i \<in> set scope. nr_id (row i) = node_row_id i \<and> nr_run_id (row i) = new_id \<and>
      nr_attempts (row i) = 0 \<and> nr_status (row i) \<in> {PENDING, SUCCEEDED, FAILED, CACHED}"
proof -
  have result: "graph_result m = Inr x \<longleftrightarrow> m = Inr x" for m :: "graph_error + 'a" and x
    by (cases m) (simp_all add: graph_result_def)
  from assms obtain w g order targets scope forced prints where
    w: "live_workflow t (rq_workflow_id rq) = Some w" "active_run_of t (wf_id w) = None"
    and g: "parse_graph flen (wf_graph w) = Inr g" and order: "topological_order g = Inr order"
    and plan: "run_plan g order (rq_node_ids rq) (rq_force rq) = Inr (targets, scope, forced)" and scope: "scope \<noteq> []"
    and issues: "run_issues g scope = Inr []" and prints: "fingerprints digest g = Inr prints"
    and run: "run = \<lparr>run_id = new_id, run_workflow_id = wf_id w, run_project_id = wf_project_id w,
        run_workspace_id = wf_workspace_id w, run_created_by = rq_user rq,
        run_enforce_plan = rq_enforce_plan rq, run_status = QUEUED, run_graph = graph_json g,
        run_graph_hash = graph_hash (graph_json g), run_version = wf_version w,
        run_scope_ids = targets, run_force_ids = sort (remdups forced), run_error = None,
        run_claim_token = None, run_claim_expires = None, run_next_advance = Some now,
        run_cancel_requested = None, run_started = None, run_finished = None\<rparr>"
    and u: "u = t\<lparr>cd_runs := cd_runs t @ [run], cd_node_runs := cd_node_runs t @ map (\<lambda>i.
        let n = the (find_node (wg_nodes g) i) in
        start_node t now (wf_project_id w) forced (new_node_run run node_row_id prints now n) n) scope\<rparr>"
    unfolding start_def
    by (auto simp: res_simps result Let_def split: option.split_asm if_split_asm)
  have ok: "endpoints_ok g" using parse_graph_ok [OF g] by (simp add: graph_ok_def graph_ok_endpoints)
  have ids: "distinct order" "set order = set (node_ids g)"
    using topological_order_cases [OF ok] order by (auto split: if_split_asm)
  from run_plan_scope [OF plan] obtain P where P: "scope = filter P order" by blast
  have d: "distinct scope" unfolding P by (rule distinct_filter) (rule ids)
  have sub: "set scope \<subseteq> set (node_ids g)" unfolding P ids(2) [symmetric] by (rule filter_is_subset)
  let ?n = "\<lambda>i. the (find_node (wg_nodes g) i)"
  let ?row = "\<lambda>i. start_node t now (wf_project_id w) forced (new_node_run run node_row_id prints now (?n i)) (?n i)"
  have "nr_id (?row i) = node_row_id i \<and> nr_run_id (?row i) = new_id \<and> nr_attempts (?row i) = 0 \<and>
      nr_status (?row i) \<in> {PENDING, SUCCEEDED, FAILED, CACHED}" if i: "i \<in> set scope" for i
  proof -
    from i sub have "i \<in> gn_id ` set (wg_nodes g)" by (auto simp: node_ids_def)
    then obtain n where n: "n \<in> set (wg_nodes g)" "gn_id n = i" by auto
    then have "gn_id (?n i) = i" using find_node_Some [OF ok] by auto
    moreover have new: "nr_id (new_node_run run node_row_id prints now m) = node_row_id (gn_id m) \<and>
        nr_run_id (new_node_run run node_row_id prints now m) = new_id \<and>
        nr_attempts (new_node_run run node_row_id prints now m) = 0 \<and>
        nr_status (new_node_run run node_row_id prints now m) = PENDING" for m
      by (simp add: new_node_run_def run)
    ultimately show ?thesis
      using start_node_keeps [of t now "wf_project_id w" forced "new_node_run run node_row_id prints now (?n i)" "?n i"]
      by simp
  qed
  with w g order d sub scope issues show thesis
    by (intro that [where row = ?row and w = w and g = g and order = order and scope = scope]) (simp_all add: run u Let_def)
qed

lemma active_run_of_None:
  "active_run_of t wid = None \<longleftrightarrow> wid \<notin> run_workflow_id ` set (filter (\<lambda>r. active (run_status r)) (cd_runs t))"
  by (auto simp: active_run_of_def row_where_def find_None_iff)

lemma start_safe:
  assumes start: "start flen digest graph_hash new_id node_row_id now t rq = Inr (run, u)"
    and fresh: "new_id \<notin> run_id ` set (cd_runs t)"
    and rows: "inj node_row_id" "range node_row_id \<inter> nr_id ` set (cd_node_runs t) = {}"
  shows "canvas_safe t u"
  unfolding canvas_safe_def
proof
  assume inv: "canvas_inv t"
  obtain w g order scope row where "live_workflow t (rq_workflow_id rq) = Some w"
    and w: "active_run_of t (wf_id w) = None"
    and "parse_graph flen (wf_graph w) = Inr g" "topological_order g = Inr order"
    and scope: "distinct scope" and "set scope \<subseteq> set (node_ids g)" "scope \<noteq> []" "run_issues g scope = Inr []"
    and run: "run_id run = new_id" "run_workflow_id run = wf_id w" "run_status run = QUEUED"
    and "run_graph run = graph_json g"
    and u: "u = t\<lparr>cd_runs := cd_runs t @ [run], cd_node_runs := cd_node_runs t @ map row scope\<rparr>"
    and row: "\<forall>i \<in> set scope. nr_id (row i) = node_row_id i \<and> nr_run_id (row i) = new_id \<and>
      nr_attempts (row i) = 0 \<and> nr_status (row i) \<in> {PENDING, SUCCEEDED, FAILED, CACHED}"
    using start by (rule start_Inr)
  have old: "nr_run_id n \<noteq> new_id" if "n \<in> set (cd_node_runs t)" for n
    using inv that fresh by (auto simp: canvas_inv_def)
  have ids: "map nr_id (map row scope) = map node_row_id scope" using row by simp
  have "distinct (map node_row_id scope)" using rows(1) scope by (simp add: distinct_map inj_on_subset [OF rows(1)])
  moreover have "nr_id ` set (cd_node_runs t) \<inter> set (map node_row_id scope) = {}" using rows(2) by auto
  ultimately have "distinct (map nr_id (cd_node_runs u))"
    using inv unfolding u by (simp add: canvas_inv_def ids [unfolded map_map o_def] o_def)
  moreover have "distinct (map run_id (cd_runs u))" using inv fresh by (simp add: u run canvas_inv_def)
  moreover have "list_all node_row_ok (cd_node_runs u)"
    using inv row by (auto simp: u canvas_inv_def list_all_iff node_row_ok_def MAX_LLM_ATTEMPTS_def)
  moreover have "nr_run_id ` set (cd_node_runs u) \<subseteq> run_id ` set (cd_runs u)"
    using inv row run by (auto simp: u canvas_inv_def)
  moreover have "run_nodes_ok (run_status r) (nr_status n)"
    if r: "r \<in> set (cd_runs u)" and n: "n \<in> set (cd_node_runs u)" and eq: "nr_run_id n = run_id r" for r n
  proof (cases "n \<in> set (cd_node_runs t)")
    case True
    then have "r \<in> set (cd_runs t)" using r eq old [OF True] run by (auto simp: u)
    then show ?thesis using inv_pair [OF inv _ True eq] by simp
  next
    case False
    then obtain i where "i \<in> set scope" "n = row i" using n by (auto simp: u)
    with row have "nr_run_id n = new_id" "nr_status n \<in> {PENDING, SUCCEEDED, FAILED, CACHED}" by auto
    moreover from this have "r = run" using r eq fresh by (auto simp: u)
    ultimately show ?thesis using run by (auto simp: run_nodes_ok_def active_def)
  qed
  then have "list_all (\<lambda>r. list_all (\<lambda>n. nr_run_id n = run_id r \<longrightarrow> run_nodes_ok (run_status r) (nr_status n))
       (cd_node_runs u)) (cd_runs u)" by (simp add: list_all_iff)
  moreover have "distinct (map run_workflow_id (filter (\<lambda>r. active (run_status r)) (cd_runs u)))"
    using inv w by (simp add: u run canvas_inv_def active_run_of_None)
  ultimately have "canvas_inv u" unfolding canvas_inv_def by blast
  moreover have "n \<in> set (cd_node_runs t)" if "n \<in> set (cd_node_runs u)" "nr_run_id n \<in> run_id ` set (cd_runs t)" for n
    using that row fresh by (auto simp: u)
  then have "canvas_frame t u"
    using canvas_frame_refl [of t] unfolding canvas_frame_def by (simp add: u) blast
  ultimately show "canvas_inv u \<and> canvas_frame t u" ..
qed

lemma document_safe:
  "create flen new_id now t p user name graph = Inr (w, u) \<Longrightarrow> canvas_safe t u"
  "save flen now s t wid user v name graph = Inr (v', u) \<Longrightarrow> canvas_safe t u"
  by (auto intro!: same_rows simp: create_def save_def res_simps Let_def split: option.split_asm if_split_asm)

section \<open>Every session\<close>

lemma canvas_txn_safe:
  assumes "canvas_txn s t u" and "canvas_inv s" and "canvas_frame s t"
  shows "canvas_safe t u"
  using assms(1)
proof cases
  case txn_reset
  then show ?thesis using reset_or_fail_llm_safe assms(3) by blast
next
  case txn_begin
  then show ?thesis using begin_attempt_safe assms(2,3) by blast
next
  case txn_settle
  then show ?thesis using settle_run_safe assms(3) by blast
next
  case txn_outside
  then show ?thesis by (intro same_rows) simp_all
qed (blast intro: document_safe start_safe claim_safe release_safe renew_safe mark_running_safe schedule_safe
    skip_safe recover_job_safe follow_job_safe follow_outcome_safe fail_attempt_safe answer_llm_safe record_inputs_safe
    record_job_safe cancel_safe delete_workflow_safe)+

interpretation canvas: optimistic_txn canvas_txn canvas_inv canvas_frame
proof unfold_locales
  show "canvas_inv u" and "canvas_frame t u"
    if "canvas_inv s" "canvas_inv t" "canvas_frame s t" "canvas_txn s t u" for s t u
    using canvas_txn_safe [OF that(4,1,3)] that(2) by (auto simp: canvas_safe_def)
qed (auto intro: canvas_frame_refl canvas_frame_trans)

end
