(* ===== verification/Workflow_Execution.thy ===== *)
theory Workflow_Execution
  imports Workflow_Runs
begin

text \<open>
  A worker's visit to a run, \<^verbatim>\<open>advance\<close> of
  \<^verbatim>\<open>core/workflows/workflow_core/engine.py\<close>, with what it sends out for each node: the
  message of a model call and the request of a generation job. The chat of a connection and the
  submitter of jobs are parameters; a submitter also leaves the tables of jobs and of idempotency
  keys. The sessions of a visit follow each other on one state at one time \<open>now\<close>; each of them is
  a session of \<^verbatim>\<open>Workflow_Run_Safety\<close>, where others come in between. Texts that
  \<^verbatim>\<open>str\<close> is applied to are strings by the node catalogue; another value counts as blank.
\<close>

section \<open>Inputs of a node\<close>

definition MAX_PROMPT_CHARS :: nat where "MAX_PROMPT_CHARS = 30000"
definition MAX_MODEL_ID :: nat where "MAX_MODEL_ID = 120"
definition MAX_ROUNDS_PER_ADVANCE :: nat where "MAX_ROUNDS_PER_ADVANCE = 50"

definition input_values ::
  "workflow_graph \<Rightarrow> node_run list \<Rightarrow> graph_node \<Rightarrow> string \<Rightarrow> json list" where
  "input_values g states n pt =
     filter (\<lambda>v. v \<noteq> JNull \<and> v \<noteq> JStr '''')
       (concat (map (\<lambda>e. case state_of states (ge_source e) of None \<Rightarrow> []
          | Some r \<Rightarrow> [json_get (nr_outputs r) (ge_source_port e)]) (inputs_on g n pt)))"

definition asset_id_of :: "json \<Rightarrow> string list" where
  "asset_id_of v = (case v of JObj d \<Rightarrow> (case json_get d ''asset_id'' of JStr s \<Rightarrow> [s] | _ \<Rightarrow> []) | _ \<Rightarrow> [])"

definition asset_ids :: "json list \<Rightarrow> string list" where
  "asset_ids vs = concat (map asset_id_of vs)"

definition text_value :: "json \<Rightarrow> string" where
  "text_value v = (case v of JStr s \<Rightarrow> s | _ \<Rightarrow> '''')"

definition blank_text :: "string \<Rightarrow> bool" where
  "blank_text s \<longleftrightarrow> py_strip s = ''''"

definition paragraph_break :: string where
  "paragraph_break = [char_of (10 :: nat), char_of (10 :: nat)]"

text \<open>\<^verbatim>\<open>value or default\<close> of a text parameter.\<close>

definition text_or :: "(string \<times> json) list \<Rightarrow> string \<Rightarrow> string \<Rightarrow> string" where
  "text_or data key default' = (if text_of data key = '''' then default' else text_of data key)"

section \<open>A model call\<close>

record chat_request =
  ch_connection :: string
  ch_workspace :: "string option"
  ch_model :: string
  ch_message :: string
  ch_system :: "string option"
  ch_max_tokens :: json
  ch_temperature :: json

datatype chat_result =
    ChatTimeout
  | ChatNodeFailure string string
  | ChatError string string
  | ChatAnswer string "(string \<times> json) list"

definition llm_message :: "string \<Rightarrow> string list \<Rightarrow> string list \<Rightarrow> string" where
  "llm_message instruction prompts contexts =
     (let sections = filter (\<lambda>p. \<not> blank_text p) (instruction # prompts) @
        (if contexts = [] then []
         else [''Context:'' @ [char_of (10 :: nat)] @
           join (paragraph_break @ ''---'' @ paragraph_break) contexts])
      in take (MAX_PROMPT_CHARS * 4) (py_strip (join paragraph_break sections)))"

definition chat_request_of ::
  "workflow_graph \<Rightarrow> node_run list \<Rightarrow> string option \<Rightarrow> graph_node \<Rightarrow> (string \<times> string) + chat_request" where
  "chat_request_of g states ws n =
     (let message = llm_message (py_strip (text_of (gn_data n) ''instruction''))
            (map text_value (input_values g states n ''prompt''))
            (map text_value (input_values g states n ''context''));
          system = py_strip (text_of (gn_data n) ''system_prompt'')
      in if message = '''' then Inl (''EMPTY_PROMPT'', ''there is nothing to send to the model'')
         else Inr \<lparr>ch_connection = text_of (gn_data n) ''connection_id'', ch_workspace = ws,
           ch_model = text_of (gn_data n) ''model'', ch_message = message,
           ch_system = (if system = '''' then None else Some system),
           ch_max_tokens = json_get (gn_data n) ''max_tokens'',
           ch_temperature = json_get (gn_data n) ''temperature''\<rparr>)"

definition execute_llm ::
  "(chat_request \<Rightarrow> chat_result) \<Rightarrow> int \<Rightarrow> workflow_graph \<Rightarrow> node_run list \<Rightarrow> string option \<Rightarrow>
   canvas_db \<Rightarrow> graph_node \<Rightarrow> node_run \<Rightarrow> int \<Rightarrow> canvas_db" where
  "execute_llm chat now g states ws t n st attempt =
     (case chat_request_of g states ws n of
        Inl (code, message) \<Rightarrow> fail_attempt now t st attempt code message
      | Inr rq \<Rightarrow>
          let t1 = record_inputs t st attempt
                [(''connection_id'', JStr (ch_connection rq)), (''model'', JStr (ch_model rq)),
                 (''prompt_preview'', JStr (take 2000 (ch_message rq)))] (Some (ch_connection rq))
          in (case chat rq of
                ChatTimeout \<Rightarrow> fail_attempt now t1 st attempt ''LLM_TIMEOUT'' ''the model did not answer in time''
              | ChatNodeFailure code message \<Rightarrow> fail_attempt now t1 st attempt code message
              | ChatError code message \<Rightarrow>
                  fail_attempt now t1 st attempt (if code = '''' then ''LLM_FAILED'' else code) message
              | ChatAnswer answer usage \<Rightarrow> answer_llm now t1 st attempt answer usage))"

section \<open>A generation job\<close>

record generation_order =
  go_project :: string
  go_media_type :: string
  go_prompt :: string
  go_negative_prompt :: string
  go_idempotency_key :: string
  go_metadata :: "(string \<times> json) list"
  go_duration :: "rat option"
  go_aspect_ratio :: string
  go_resolution :: string
  go_start_frame :: "string option"
  go_end_frame :: "string option"
  go_references :: "string list"

datatype job_request =
    PlatformGeneration generation_order bool string string "string option"
  | ConnectionGeneration generation_order string string

fun order_of :: "job_request \<Rightarrow> generation_order" where
  "order_of (PlatformGeneration d _ _ _ _) = d"
| "order_of (ConnectionGeneration d _ _) = d"

definition duration_of :: "(string \<times> json) list \<Rightarrow> rat" where
  "duration_of data = (case json_get data ''duration'' of
       JInt k \<Rightarrow> (if k = 0 then 5 else of_int k)
     | JFloat (Finite q) \<Rightarrow> (if q = 0 then 5 else q)
     | _ \<Rightarrow> 5)"

definition head_option :: "'a list \<Rightarrow> 'a option" where
  "head_option xs = (case xs of [] \<Rightarrow> None | x # _ \<Rightarrow> Some x)"

definition optional_text :: "string option \<Rightarrow> json" where
  "optional_text v = (case v of None \<Rightarrow> JNull | Some s \<Rightarrow> JStr s)"

definition generation_prompt ::
  "workflow_graph \<Rightarrow> node_run list \<Rightarrow> graph_node \<Rightarrow> string" where
  "generation_prompt g states n =
     (let connected = join paragraph_break
            (filter (\<lambda>p. \<not> blank_text p) (map text_value (input_values g states n ''prompt'')))
      in py_strip (if connected = '''' then text_of (gn_data n) ''prompt'' else connected))"

text \<open>What both submitters get; the key depends on the row alone.\<close>

definition generation_order_of ::
  "workflow_run \<Rightarrow> workflow_graph \<Rightarrow> node_run list \<Rightarrow> graph_node \<Rightarrow> node_run \<Rightarrow> generation_order" where
  "generation_order_of run g states n st =
     (let video = gn_type n = ''video_generation'';
          first = asset_ids (input_values g states n ''first_frame'');
          last' = asset_ids (input_values g states n ''last_frame'')
      in \<lparr>go_project = run_project_id run, go_media_type = (if video then ''video'' else ''image''),
          go_prompt = take MAX_PROMPT_CHARS (generation_prompt g states n),
          go_negative_prompt = text_of (gn_data n) ''negative_prompt'',
          go_idempotency_key = ''canvas:'' @ nr_id st,
          go_metadata = [(''workflow_id'', JStr (run_workflow_id run)), (''workflow_run_id'', JStr (run_id run)),
            (''workflow_node_id'', JStr (gn_id n))],
          go_duration = (if video then Some (duration_of (gn_data n)) else None),
          go_aspect_ratio = text_or (gn_data n) ''aspect_ratio'' (if video then ''16:9'' else ''1:1''),
          go_resolution = (if video then text_or (gn_data n) ''resolution'' ''720p'' else ''720p''),
          go_start_frame = head_option first,
          go_end_frame = (if first \<noteq> [] then head_option last' else None),
          go_references = asset_ids (input_values g states n ''reference'')\<rparr>)"

text \<open>The inputs that are recorded on the row, the connection, and the request.\<close>

definition generation_request ::
  "workflow_run \<Rightarrow> workflow_graph \<Rightarrow> node_run list \<Rightarrow> graph_node \<Rightarrow> node_run \<Rightarrow>
   (string \<times> string) + (string \<times> json) list \<times> string option \<times> job_request" where
  "generation_request run g states n st =
     (let d = generation_order_of run g states n st;
          video = gn_type n = ''video_generation'';
          source = text_or (gn_data n) ''source'' ''platform'';
          last' = asset_ids (input_values g states n ''last_frame'');
          inputs = [(''source'', JStr source), (''prompt_preview'', JStr (take 2000 (go_prompt d))),
            (''reference_asset_ids'', JList (map JStr (go_references d))),
            (''first_frame_asset_id'', optional_text (go_start_frame d)),
            (''last_frame_asset_id'', optional_text (head_option last'))]
      in if generation_prompt g states n = '''' then Inl (''EMPTY_PROMPT'', ''the generation has no prompt'')
         else if source = ''connection'' then
           (let connection = text_of (gn_data n) ''connection_id''; model = text_of (gn_data n) ''model'';
                audio = json_get (gn_data n) ''generate_audio'';
                options = (if video then (case audio of JBool b \<Rightarrow> [(''generate_audio'', JBool b)] | _ \<Rightarrow> []) else [])
            in if length model > MAX_MODEL_ID then Inl (''MODEL_ID_TOO_LONG'', ''a model id is too long'')
               else Inr (inputs @ [(''connection_id'', JStr connection), (''model'', JStr model)], Some connection,
                 ConnectionGeneration
                   (d\<lparr>go_metadata := go_metadata d @
                     (if options = [] then [] else [(''connection_options'', JObj options)])\<rparr>) connection model))
         else
           (let selected = text_of (gn_data n) ''platform_model'';
                provider = takeWhile (\<lambda>c. c \<noteq> CHR '':'') selected;
                model = drop 1 (dropWhile (\<lambda>c. c \<noteq> CHR '':'') selected)
            in Inr (inputs @ [(''platform_model'', JStr selected), (''image_tier'', json_get (gn_data n) ''image_tier'')],
                 None,
                 PlatformGeneration d (run_enforce_plan run)
                   (if video \<and> model \<noteq> '''' then provider else '''')
                   (if video \<and> provider \<noteq> '''' then model else '''')
                   (if video then None else Some (text_or (gn_data n) ''image_tier'' ''shiny'')))))"

type_synonym submitter =
  "canvas_db \<Rightarrow> job_request \<Rightarrow> ((string \<times> string) + string) \<times> canvas_job list \<times> (string \<times> string) list"

definition execute_generation ::
  "submitter \<Rightarrow> int \<Rightarrow> workflow_run \<Rightarrow> workflow_graph \<Rightarrow> node_run list \<Rightarrow>
   canvas_db \<Rightarrow> graph_node \<Rightarrow> node_run \<Rightarrow> int \<Rightarrow> canvas_db" where
  "execute_generation submit now run g states t n st attempt =
     (case generation_request run g states n st of
        Inl (code, message) \<Rightarrow> fail_attempt now t st attempt code message
      | Inr (inputs, connection, rq) \<Rightarrow>
          let t1 = record_inputs t st attempt inputs connection;
              (result, jobs, keys) = submit t1 rq;
              t2 = t1\<lparr>cd_jobs := jobs, cd_idempotency := keys\<rparr>
          in (case result of
                Inl (code, message) \<Rightarrow> fail_attempt now t2 st attempt code message
              | Inr job \<Rightarrow> record_job t2 st attempt job))"

definition execute ::
  "(chat_request \<Rightarrow> chat_result) \<Rightarrow> submitter \<Rightarrow> int \<Rightarrow> workflow_run \<Rightarrow> workflow_graph \<Rightarrow> node_run list \<Rightarrow>
   string option \<Rightarrow> canvas_db \<Rightarrow> node_run \<Rightarrow> canvas_db" where
  "execute chat submit now run g states ws t st =
     (let n = the (find_node (wg_nodes g) (nr_node_id st));
          attempt = nr_attempts st + 1;
          (begun, t1) = begin_attempt now t st
      in if \<not> begun then t1
         else if gn_type n = ''llm'' then execute_llm chat now g states ws t1 n st attempt
         else if generation_node (gn_type n) then execute_generation submit now run g states t1 n st attempt
         else fail_attempt now t1 st attempt ''NODE_NOT_EXECUTABLE'' ''nodes of this type do not run'')"

section \<open>The rounds of an advance\<close>

text \<open>Step 1: did a job end, and is one still going.\<close>

fun follow_all :: "int \<Rightarrow> int \<Rightarrow> canvas_db \<Rightarrow> node_run list \<Rightarrow> bool \<times> bool \<times> canvas_db" where
  "follow_all now limit t [] = (False, False, t)"
| "follow_all now limit t (st # states) =
     (if nr_status st = RUNNING \<and> generation_node (nr_node_type st) then
        let (outcome, t1) = follow_job now limit t st;
            (progressed, w, t2) = follow_all now limit t1 states
        in (outcome \<or> progressed, \<not> outcome \<or> w, t2)
      else follow_all now limit t states)"

text \<open>Step 3: a model call that outlived its worker.\<close>

fun retry_calls :: "int \<Rightarrow> int \<Rightarrow> canvas_db \<Rightarrow> node_run list \<Rightarrow> bool \<times> bool \<times> canvas_db" where
  "retry_calls now limit t [] = (False, False, t)"
| "retry_calls now limit t (st # states) =
     (if nr_status st = RUNNING \<and> nr_node_type st = ''llm'' then
        if llm_abandoned now limit st then
          let (progressed, w, t1) = retry_calls now limit (reset_or_fail_llm now t st) states in (True, w, t1)
        else let (progressed, w, t1) = retry_calls now limit t states in (progressed, True, t1)
      else retry_calls now limit t states)"

datatype round_result = Stopped | Again | Execute "node_run list"

record worker =
  wk_now :: int
  wk_token :: string
  wk_limit :: int
  wk_lease :: int
  wk_wait :: int

definition run_rows :: "canvas_db \<Rightarrow> string \<Rightarrow> node_run list" where
  "run_rows t rid = filter (\<lambda>n. nr_run_id n = rid) (cd_node_runs t)"

text \<open>One round with the run, its graph and its rows as loaded.\<close>

definition round_with ::
  "worker \<Rightarrow> canvas_db \<Rightarrow> workflow_run \<Rightarrow> workflow_graph \<Rightarrow> string list \<Rightarrow> node_run list \<Rightarrow> round_result \<times> canvas_db" where
  "round_with k t run g order states =
     (let rid = run_id run; now = wk_now k;
          t1 = (if run_status run = QUEUED then mark_running now (wk_token k) t rid else t);
          (followed, w1, t2) = follow_all now (wk_limit k) t1 states
      in if followed then (Again, t2)
         else
           let (skipped, ready) = triage g states order;
               t3 = fold (\<lambda>st t. skip now t st) skipped t2
           in if skipped \<noteq> [] then (Again, t3)
              else
                let (retried, w2, t4) = retry_calls now (wk_limit k) t3 states
                in if retried then (Again, t4)
                   else if ready = []
                   then (Stopped, settle_run now (now + wk_wait k) (wk_token k) (w1 \<or> w2) t4 t4 rid)
                   else let (renewed, t5) = renew now (wk_lease k) (wk_token k) t4 rid
                        in (if renewed then Execute ready else Stopped, t5))"

text \<open>\<^verbatim>\<open>_load\<close> with the checks that follow it; \<open>None\<close> ends the visit.\<close>

definition load ::
  "(rat \<Rightarrow> int) \<Rightarrow> string \<Rightarrow> canvas_db \<Rightarrow> string \<Rightarrow>
   canvas_error + (workflow_run \<times> workflow_graph \<times> string list) option" where
  "load flen token t rid =
     (case get_run t rid of
        None \<Rightarrow> Inr None
      | Some run \<Rightarrow>
          if \<not> active (run_status run) then Inr None
          else res_bind (graph_result (parse_graph flen (run_graph run))) (\<lambda>g.
            if run_claim_token run \<noteq> Some token then Inr None
            else res_bind (graph_result (topological_order g)) (\<lambda>order. Inr (Some (run, g, order)))))"

text \<open>Generation jobs first and in order, then the model calls.\<close>

definition execute_ready ::
  "(chat_request \<Rightarrow> chat_result) \<Rightarrow> submitter \<Rightarrow> worker \<Rightarrow> workflow_run \<Rightarrow> workflow_graph \<Rightarrow> string option \<Rightarrow>
   node_run list \<Rightarrow> node_run list \<Rightarrow> canvas_db \<Rightarrow> canvas_db" where
  "execute_ready chat submit k run g ws states ready t =
     fold (\<lambda>st t. execute chat submit (wk_now k) run g states ws t st)
       (filter (\<lambda>st. generation_node (nr_node_type st)) ready @
        filter (\<lambda>st. \<not> generation_node (nr_node_type st)) ready) t"

definition workspace_of :: "canvas_db \<Rightarrow> workflow_run \<Rightarrow> string option" where
  "workspace_of t run = (case map_of (cd_projects t) (run_project_id run) of None \<Rightarrow> None | Some w \<Rightarrow> w)"

fun advance_rounds ::
  "(chat_request \<Rightarrow> chat_result) \<Rightarrow> submitter \<Rightarrow> (rat \<Rightarrow> int) \<Rightarrow> worker \<Rightarrow> nat \<Rightarrow> canvas_db \<Rightarrow> string \<Rightarrow>
   canvas_error + canvas_db" where
  "advance_rounds chat submit flen k 0 t rid = Inr (schedule (wk_now k) (wk_token k) t rid)"
| "advance_rounds chat submit flen k (Suc rounds) t rid =
     res_bind (load flen (wk_token k) t rid) (\<lambda>loaded.
       case loaded of
         None \<Rightarrow> Inr t
       | Some (run, g, order) \<Rightarrow>
           (case round_with k t run g order (run_rows t rid) of
              (Stopped, t1) \<Rightarrow> Inr t1
            | (Again, t1) \<Rightarrow> advance_rounds chat submit flen k rounds t1 rid
            | (Execute ready, t1) \<Rightarrow>
                let t2 = execute_ready chat submit k run g (workspace_of t run) (run_rows t rid) ready t1;
                    (renewed, t3) = renew (wk_now k) (wk_lease k) (wk_token k) t2 rid
                in if renewed then advance_rounds chat submit flen k rounds t3 rid else Inr t3))"

definition advance ::
  "(chat_request \<Rightarrow> chat_result) \<Rightarrow> submitter \<Rightarrow> (rat \<Rightarrow> int) \<Rightarrow> worker \<Rightarrow> canvas_db \<Rightarrow> string \<Rightarrow>
   canvas_error + canvas_db" where
  "advance chat submit flen k t rid = advance_rounds chat submit flen k MAX_ROUNDS_PER_ADVANCE t rid"

text \<open>
  \<^verbatim>\<open>advance_due\<close>: claim what is due, advance what was claimed, release it. A raise is
  logged; it comes from the graph of the run, which no round changes, so before anything is written.
\<close>

definition advance_claimed ::
  "(chat_request \<Rightarrow> chat_result) \<Rightarrow> submitter \<Rightarrow> (rat \<Rightarrow> int) \<Rightarrow> worker \<Rightarrow> canvas_db \<Rightarrow> string \<Rightarrow> canvas_db" where
  "advance_claimed chat submit flen k t rid =
     release (wk_token k) (case advance chat submit flen k t rid of Inl _ \<Rightarrow> t | Inr u \<Rightarrow> u) rid"

fun claim_all ::
  "int \<Rightarrow> int \<Rightarrow> (string \<Rightarrow> string) \<Rightarrow> canvas_db \<Rightarrow> string list \<Rightarrow> (string \<times> string) list \<times> canvas_db" where
  "claim_all now duration token t [] = ([], t)"
| "claim_all now duration token t (rid # due) =
     (let (won, t1) = claim now duration (token rid) t rid;
          (claimed, t2) = claim_all now duration token t1 due
      in (if won then (rid, token rid) # claimed else claimed, t2))"

definition advance_due ::
  "(chat_request \<Rightarrow> chat_result) \<Rightarrow> submitter \<Rightarrow> (rat \<Rightarrow> int) \<Rightarrow> worker \<Rightarrow> (string \<Rightarrow> string) \<Rightarrow> nat \<Rightarrow>
   canvas_db \<Rightarrow> nat \<times> canvas_db" where
  "advance_due chat submit flen k token limit t =
     (let (claimed, t1) = claim_all (wk_now k) (wk_lease k) token t (due_runs (wk_now k) limit t)
      in (length claimed,
          fold (\<lambda>(rid, tk) t. advance_claimed chat submit flen (k\<lparr>wk_token := tk\<rparr>) t rid) claimed t1))"

section \<open>Codes and scope\<close>

text \<open>
  \<^verbatim>\<open>node_failure_code\<close>: the attributes \<^verbatim>\<open>code\<close> and
  \<^verbatim>\<open>reason_code\<close> of an exception (\<open>JNull\<close> when it has none) and the names of its
  classes.
\<close>

definition FAILURE_CODES :: "(string \<times> string) list" where
  "FAILURE_CODES =
     [(''InsufficientWorkspaceCredits'', ''INSUFFICIENT_CREDITS''),
      (''PlanEntitlementDenied'', ''PLAN_DENIED''),
      (''ProductionBudgetExceeded'', ''PLATFORM_BUSY''),
      (''SpendAuthorizationDenied'', ''SPEND_NOT_AUTHORIZED''),
      (''PricingUnverified'', ''PRICING_UNVERIFIED''),
      (''ExplicitModelUnavailable'', ''MODEL_UNAVAILABLE''),
      (''IdempotencyConflict'', ''IDEMPOTENCY_CONFLICT''),
      (''WorkspaceCreditConflict'', ''CREDIT_CONFLICT''),
      (''CapabilityProviderNotFound'', ''MODEL_UNAVAILABLE''),
      (''LookupError'', ''NOT_FOUND''),
      (''ValueError'', ''GENERATION_REJECTED'')]"

fun json_falsy :: "json \<Rightarrow> bool" where
  "json_falsy JNull = True"
| "json_falsy (JBool b) = (\<not> b)"
| "json_falsy (JInt k) = (k = 0)"
| "json_falsy (JFloat q) = (q = Finite 0)"
| "json_falsy (JStr s) = (s = '''')"
| "json_falsy (JList xs) = (xs = [])"
| "json_falsy (JObj d) = (d = [])"

definition node_failure_code :: "json \<Rightarrow> json \<Rightarrow> string list \<Rightarrow> string" where
  "node_failure_code code reason_code classes =
     (let explicit = (if json_falsy code then reason_code else code);
          table = (case filter (\<lambda>(name, c). name \<in> set classes) FAILURE_CODES of
            [] \<Rightarrow> ''GENERATION_FAILED'' | (name, c) # _ \<Rightarrow> c)
      in case explicit of JStr s \<Rightarrow> (if s = '''' then table else s) | _ \<Rightarrow> table)"

text \<open>\<^verbatim>\<open>run_scope\<close>: was the run asked for every executable node of its snapshot.\<close>

definition run_scope :: "workflow_run \<Rightarrow> string" where
  "run_scope run =
     (let nodes = (case run_graph run of JObj d \<Rightarrow> (case json_get d ''nodes'' of JList ns \<Rightarrow> ns | _ \<Rightarrow> []) | _ \<Rightarrow> []);
          executable = concat (map (\<lambda>n. case n of
            JObj d \<Rightarrow> (if json_get d ''type'' = JStr ''note'' then [] else [json_get d ''id'']) | _ \<Rightarrow> []) nodes)
      in if JStr ` set (run_scope_ids run) = set executable then ''ALL'' else ''NODES'')"

end
