(* ===== verification/Workflow_Advance.thy ===== *)
theory Workflow_Advance
  imports Workflow_Run_Safety Workflow_Execution Workflow_Properties
begin

text \<open>
  A visit of a worker (\<^verbatim>\<open>advance_due\<close>) as sessions: it is one of the executions the
  safety properties range over. And what a visit sends out: a prompt within its bound, and a key that
  finds the job again when the worker dies between creating a job and recording it.
\<close>

section \<open>A visit is a sequence of sessions\<close>

lemma then_session: "interleaved canvas_txn s t \<Longrightarrow> canvas_txn t t u \<Longrightarrow> interleaved canvas_txn s u"
  by (rule interleaved.commit [OF _ interleaved.start])

lemma then_stale_session: "interleaved canvas_txn s t \<Longrightarrow> canvas_txn s t u \<Longrightarrow> interleaved canvas_txn s u"
  by (rule interleaved.commit [OF interleaved.start])

lemmas sessions = then_session [OF _ txn_claim] then_session [OF _ txn_release]
  then_session [OF _ txn_renew] then_session [OF _ txn_mark_running] then_session [OF _ txn_schedule]
  then_session [OF _ txn_skip] then_session [OF _ txn_follow] then_session [OF _ txn_fail]
  then_session [OF _ txn_answer] then_session [OF _ txn_inputs] then_session [OF _ txn_job]
  then_session [OF _ txn_settle]

lemma outside_session:
  assumes "interleaved canvas_txn s t"
  shows "interleaved canvas_txn s (t\<lparr>cd_jobs := jobs, cd_idempotency := keys\<rparr>)"
proof -
  have "canvas_txn t t (t\<lparr>cd_projects := cd_projects t, cd_jobs := jobs, cd_idempotency := keys,
      cd_assets := cd_assets t\<rparr>)" by (rule txn_outside)
  then show ?thesis using then_session [OF assms] by simp
qed

lemma execute_llm_sessions:
  assumes "interleaved canvas_txn s t"
  shows "interleaved canvas_txn s (execute_llm chat now g states ws t n st a)"
proof (cases "chat_request_of g states ws n")
  case (Inl f)
  with assms show ?thesis by (cases f) (simp add: execute_llm_def sessions)
next
  case (Inr rq)
  have t1: "interleaved canvas_txn s (record_inputs t st a inputs c)" for inputs c
    by (rule sessions) (rule assms)
  show ?thesis
    unfolding execute_llm_def Inr sum.case Let_def
    by (cases "chat rq") (simp_all add: sessions t1 del: append.simps)
qed

lemma execute_generation_sessions:
  assumes "interleaved canvas_txn s t"
  shows "interleaved canvas_txn s (execute_generation submit now run g states t n st a)"
proof (cases "generation_request run g states n st")
  case (Inl f)
  with assms show ?thesis by (cases f) (simp add: execute_generation_def sessions)
next
  case (Inr x)
  obtain inputs c rq where x: "x = (inputs, c, rq)" by (cases x)
  obtain result jobs keys where out: "submit (record_inputs t st a inputs c) rq = (result, jobs, keys)"
    by (cases "submit (record_inputs t st a inputs c) rq")
  have "interleaved canvas_txn s ((record_inputs t st a inputs c)\<lparr>cd_jobs := jobs, cd_idempotency := keys\<rparr>)"
    by (intro outside_session sessions assms)
  then show ?thesis
    unfolding execute_generation_def Inr x
    by (cases result) (simp_all add: out sessions split: prod.split)
qed

lemma execute_sessions:
  assumes "interleaved canvas_txn s t" and "st \<in> set (cd_node_runs s)" and "nr_status st = PENDING"
  shows "interleaved canvas_txn s (execute chat submit now run g states ws t st)"
proof -
  obtain begun t1 where first: "begin_attempt now t st = (begun, t1)" by fastforce
  have "interleaved canvas_txn s (snd (begin_attempt now t st))"
    by (rule then_stale_session [OF assms(1) txn_begin]) (use assms in auto)
  then have "interleaved canvas_txn s t1" by (simp add: first)
  then show ?thesis
    unfolding execute_def Let_def first prod.case
    by (simp add: execute_llm_sessions execute_generation_sessions sessions split: if_split)
qed

lemma execute_ready_sessions:
  assumes "interleaved canvas_txn s t" and "set ready \<subseteq> {st \<in> set (cd_node_runs s). nr_status st = PENDING}"
  shows "interleaved canvas_txn s (execute_ready chat submit k run g ws states ready t)"
proof -
  have "interleaved canvas_txn s (fold (\<lambda>st t. execute chat submit (wk_now k) run g states ws t st) sts t)"
    if "set sts \<subseteq> {st \<in> set (cd_node_runs s). nr_status st = PENDING}" for sts
    using assms(1) that by (induction sts arbitrary: t) (simp_all add: execute_sessions)
  from this [of "filter (\<lambda>st. generation_node (nr_node_type st)) ready @
      filter (\<lambda>st. \<not> generation_node (nr_node_type st)) ready"]
  show ?thesis unfolding execute_ready_def using assms(2) by auto
qed

lemma follow_all_sessions:
  "interleaved canvas_txn s t \<Longrightarrow> interleaved canvas_txn s (snd (snd (follow_all now limit t states)))"
proof (induction states arbitrary: t)
  case (Cons st states)
  obtain o1 t1 where job: "follow_job now limit t st = (o1, t1)" by fastforce
  obtain p w t2 where rest: "follow_all now limit t1 states = (p, w, t2)" by (cases "follow_all now limit t1 states")
  have "interleaved canvas_txn s (snd (follow_job now limit t st))" using Cons.prems by (rule sessions)
  from Cons.IH [OF this] have "interleaved canvas_txn s t2" by (simp add: job rest)
  with Cons show ?case by (simp add: job rest)
qed simp

lemma retry_calls_sessions:
  assumes "interleaved canvas_txn s t" and "set states \<subseteq> set (cd_node_runs s)"
  shows "interleaved canvas_txn s (snd (snd (retry_calls now limit t states)))"
  using assms
proof (induction states arbitrary: t)
  case (Cons st states)
  have reset: "interleaved canvas_txn s (reset_or_fail_llm now t st)" if "nr_node_type st = ''llm''"
    by (rule then_stale_session [OF Cons.prems(1) txn_reset]) (use that Cons.prems in auto)
  have "snd (snd (retry_calls now limit t (st # states))) =
      snd (snd (retry_calls now limit (if nr_status st = RUNNING \<and> nr_node_type st = ''llm'' \<and> llm_abandoned now limit st
        then reset_or_fail_llm now t st else t) states))"
    by (simp add: Let_def case_prod_beta)
  with Cons.IH [OF reset] Cons.IH [OF Cons.prems(1)] Cons.prems show ?case by simp
qed simp

lemma skip_all_sessions:
  "interleaved canvas_txn s t \<Longrightarrow> interleaved canvas_txn s (fold (\<lambda>st t. skip now t st) sts t)"
  by (induction sts arbitrary: t) (simp_all add: sessions)

lemma triage_rows:
  "set (fst (triage g states order)) \<union> set (snd (triage g states order)) \<subseteq>
     {st \<in> set states. nr_status st = PENDING}"
proof (induction order)
  case (Cons i order)
  obtain sk rd where rest: "triage g states order = (sk, rd)" by fastforce
  have "st \<in> set states" if "state_of states i = Some st" for st
    using that row_where_SomeD unfolding state_of_def by metis
  with Cons rest show ?case by (auto simp: Let_def split: option.split)
qed simp

lemma round_with_sessions:
  assumes "set states \<subseteq> set (cd_node_runs t)"
  shows "interleaved canvas_txn t (snd (round_with k t run g order states)) \<and>
    (fst (round_with k t run g order states) = Execute ready \<longrightarrow>
       set ready \<subseteq> {st \<in> set (cd_node_runs t). nr_status st = PENDING})"
proof -
  define t1 where "t1 = (if run_status run = QUEUED then mark_running (wk_now k) (wk_token k) t (run_id run) else t)"
  obtain p w1 t2 where follow: "follow_all (wk_now k) (wk_limit k) t1 states = (p, w1, t2)" by (cases "follow_all (wk_now k) (wk_limit k) t1 states")
  obtain sk rd where tri: "triage g states order = (sk, rd)" by fastforce
  define t3 where "t3 = fold (\<lambda>st t. skip (wk_now k) t st) sk t2"
  obtain q w2 t4 where retry: "retry_calls (wk_now k) (wk_limit k) t3 states = (q, w2, t4)" by (cases "retry_calls (wk_now k) (wk_limit k) t3 states")
  obtain ok t5 where renew: "renew (wk_now k) (wk_lease k) (wk_token k) t4 (run_id run) = (ok, t5)" by fastforce
  have s1: "interleaved canvas_txn t t1" unfolding t1_def by (auto intro: sessions interleaved.start)
  have s2: "interleaved canvas_txn t t2" using follow_all_sessions [OF s1] follow by (metis snd_conv)
  have s3: "interleaved canvas_txn t t3" unfolding t3_def by (rule skip_all_sessions) (rule s2)
  have s4: "interleaved canvas_txn t t4" using retry_calls_sessions [OF s3 assms] retry by (metis snd_conv)
  have s5: "interleaved canvas_txn t t5" using sessions(3) [OF s4] renew by (metis snd_conv)
  have settle: "interleaved canvas_txn t (settle_run n d tk w t4 t4 rid)" for n d tk w rid using s4 by (rule sessions)
  have rows: "set rd \<subseteq> {st \<in> set states. nr_status st = PENDING}" using triage_rows [of g states order] tri by simp
  have eq: "round_with k t run g order states =
    (if p then (Again, t2) else if sk \<noteq> [] then (Again, t3) else if q then (Again, t4)
     else if rd = [] then (Stopped, settle_run (wk_now k) (wk_now k + wk_wait k) (wk_token k) (w1 \<or> w2) t4 t4 (run_id run))
     else (if ok then Execute rd else Stopped, t5))"
    unfolding round_with_def Let_def t1_def [symmetric] follow prod.case tri t3_def [symmetric] retry renew by simp
  show ?thesis unfolding eq using s2 s3 s4 s5 settle rows assms by auto
qed

lemma load_Some:
  assumes "load flen token t rid = Inr (Some (run, g, order))"
  shows "get_run t rid = Some run \<and> active (run_status run) \<and> parse_graph flen (run_graph run) = Inr g \<and>
    run_claim_token run = Some token \<and> topological_order g = Inr order"
proof -
  have result: "graph_result m = Inr x \<longleftrightarrow> m = Inr x" for m :: "graph_error + 'a" and x
    by (cases m) (simp_all add: graph_result_def)
  show ?thesis using assms unfolding load_def
    by (auto simp: res_simps result split: option.split_asm if_split_asm)
qed

lemma advance_rounds_sessions:
  "advance_rounds chat submit flen k rounds t rid = Inr u \<Longrightarrow> interleaved canvas_txn t u"
proof (induction rounds arbitrary: t)
  case 0
  then show ?case by (auto intro: sessions interleaved.start)
next
  case (Suc rounds)
  from Suc.prems obtain loaded where loaded: "load flen (wk_token k) t rid = Inr loaded"
    by (auto simp: res_simps)
  show ?case
  proof (cases loaded)
    case None
    with Suc.prems loaded show ?thesis by (simp add: interleaved.start)
  next
    case (Some x)
    obtain run g order where x: "x = (run, g, order)" by (cases x)
    obtain result t1 where rnd: "round_with k t run g order (run_rows t rid) = (result, t1)" by fastforce
    have sub: "set (run_rows t rid) \<subseteq> set (cd_node_runs t)" by (auto simp: run_rows_def)
    note step = round_with_sessions [OF sub, of k run g order, unfolded rnd fst_conv snd_conv]
    show ?thesis
    proof (cases result)
      case Stopped
      with Suc.prems loaded Some x rnd step show ?thesis by simp
    next
      case Again
      with Suc.prems loaded Some x rnd have "advance_rounds chat submit flen k rounds t1 rid = Inr u" by simp
      from interleaved_trans [OF Suc.IH [OF this]] step show ?thesis by blast
    next
      case (Execute ready)
      define t2 where "t2 = execute_ready chat submit k run g (workspace_of t run) (run_rows t rid) ready t1"
      obtain ok t3 where renew: "renew (wk_now k) (wk_lease k) (wk_token k) t2 rid = (ok, t3)" by fastforce
      have "interleaved canvas_txn t t2" unfolding t2_def
        by (rule execute_ready_sessions) (use step Execute in auto)
      then have "interleaved canvas_txn t (snd (renew (wk_now k) (wk_lease k) (wk_token k) t2 rid))" by (rule sessions)
      then have t3: "interleaved canvas_txn t t3" by (simp add: renew)
      from Suc.prems loaded Some x rnd Execute t2_def renew
      have "(if ok then advance_rounds chat submit flen k rounds t3 rid else Inr t3) = Inr u"
        by (simp add: Let_def)
      then consider "advance_rounds chat submit flen k rounds t3 rid = Inr u" | "u = t3" by (cases ok) simp_all
      then show ?thesis using t3 interleaved_trans [OF Suc.IH t3] by cases simp_all
    qed
  qed
qed

section \<open>A round on a run in which nothing is running\<close>

lemma triage_collects:
  assumes "i \<in> set order" and "state_of states i = Some st" and "nr_status st = PENDING"
  shows "(list_ex unreachable_input (source_states g states i) \<longrightarrow> st \<in> set (fst (triage g states order))) \<and>
    (\<not> list_ex unreachable_input (source_states g states i) \<and> list_all input_ready (source_states g states i) \<longrightarrow>
       st \<in> set (snd (triage g states order)))"
  using assms(1)
proof (induction order)
  case (Cons j order)
  obtain sk rd where rest: "triage g states order = (sk, rd)" by fastforce
  show ?case
  proof (cases "i = j")
    case True
    with assms(2,3) rest show ?thesis by simp
  next
    case False
    with Cons rest show ?thesis by (auto split: option.split)
  qed
qed simp

text \<open>
  A round never stalls: when nothing of the run is running and some node is still pending, the round
  finds a node to skip or a node whose inputs are all there.
\<close>

lemma triage_never_stalls:
  assumes "parse_graph flen doc = Inr g" and "topological_order g = Inr order"
    and "\<forall>st \<in> set states. nr_status st \<noteq> RUNNING"
    and "i \<in> set order" and "state_of states i = Some st" and "nr_status st = PENDING"
  shows "fst (triage g states order) \<noteq> [] \<or> snd (triage g states order) \<noteq> []"
proof -
  have ok: "endpoints_ok g" using parse_graph_ok [OF assms(1)] by (simp add: graph_ok_def graph_ok_endpoints)
  have order: "distinct order" "set order = set (node_ids g)" "sources_first (wg_edges g) order"
    using topological_order_cases [OF ok] assms(2) by (auto split: if_split_asm)
  let ?pend = "\<lambda>i. \<exists>st. state_of states i = Some st \<and> nr_status st = PENDING"
  have "\<exists>x \<in> set order. ?pend x" using assms(4-6) by blast
  from split_list_first_propE [OF this] obtain xs v ys where
    split: "order = xs @ v # ys" "?pend v" "\<forall>x \<in> set xs. \<not> ?pend x" by blast
  from split(2) obtain sv where sv: "state_of states v = Some sv" "nr_status sv = PENDING" by blast
  have v: "v \<in> set order" using split(1) by simp
  then obtain n where n: "n \<in> set (wg_nodes g)" "gn_id n = v" unfolding order(2) by (auto simp: node_ids_def)
  then have node: "the (find_node (wg_nodes g) v) = n" using find_node_Some [OF ok n(1)] by simp
  have input: "input_ready (state_of states (ge_source e)) \<or> unreachable_input (state_of states (ge_source e))"
    if e: "e \<in> set (incoming g n)" for e
  proof (cases "state_of states (ge_source e)")
    case None
    then show ?thesis by (simp add: unreachable_input_def)
  next
    case (Some r)
    have "e \<in> set (wg_edges g)" "ge_target e = v" using e n(2) by (auto simp: incoming_def)
    then have "ge_source e \<in> set xs" using order(3) split(1) by (auto simp: sources_first_def)
    then have "nr_status r \<noteq> PENDING" using split(3) Some by blast
    moreover have "r \<in> set states" using Some row_where_SomeD unfolding state_of_def by metis
    then have "nr_status r \<noteq> RUNNING" using assms(3) by blast
    ultimately show ?thesis using Some
      by (cases "nr_status r") (simp_all add: unreachable_input_def input_ready_def blocking_def satisfied_def)
  qed
  have "list_ex unreachable_input (source_states g states v) \<or> list_all input_ready (source_states g states v)"
    using input by (auto simp: source_states_def node list_ex_iff list_all_iff)
  with triage_collects [OF v sv] show ?thesis by fastforce
qed

lemma triage_ready:
  "st \<in> set (snd (triage g states order)) \<Longrightarrow>
     \<exists>i. state_of states i = Some st \<and> list_all input_ready (source_states g states i)"
proof (induction order)
  case (Cons i order)
  obtain sk rd where rest: "triage g states order = (sk, rd)" by fastforce
  with Cons show ?case by (auto simp: Let_def split: option.split_asm if_split_asm)
qed simp

lemma follow_none: "\<forall>st \<in> set states. nr_status st \<noteq> RUNNING \<Longrightarrow> follow_all now limit t states = (False, False, t)"
  by (induction states) simp_all

lemma retry_none: "\<forall>st \<in> set states. nr_status st \<noteq> RUNNING \<Longrightarrow> retry_calls now limit t states = (False, False, t)"
  by (induction states) simp_all

lemma safe_row:
  assumes "canvas_safe t u" and "canvas_inv t" and "n \<in> set (cd_node_runs t)" and "terminal (nr_status n)"
  shows "n \<in> set (cd_node_runs u)"
  using assms unfolding canvas_safe_def canvas_frame_def node_evolves_def by metis

lemma skip_all_safe: "canvas_safe t (fold (\<lambda>st t. skip now t st) sts t)"
  by (induction sts arbitrary: t) (auto intro: canvas_safe_refl canvas_safe_trans [OF skip_safe])

lemma skip_hits:
  assumes "canvas_inv t" and "st \<in> set (cd_node_runs t)" and "nr_status st = PENDING"
  shows "\<exists>n \<in> set (cd_node_runs (fold (\<lambda>st t. skip now t st) (st # sts) t)).
    nr_id n = nr_id st \<and> nr_run_id n = nr_run_id st \<and> nr_status n = SKIPPED"
proof -
  let ?n = "(ended now ''INPUT_UNAVAILABLE'' ''an input this node needs did not finish'' st)\<lparr>nr_status := SKIPPED\<rparr>"
  have "?n \<in> set (cd_node_runs (skip now t st))"
    unfolding skip_def transition_def Let_def using assms(2,3) by (auto simp: set_update_where)
  moreover have "canvas_inv (skip now t st)" using skip_safe assms(1) by (auto simp: canvas_safe_def)
  ultimately have "?n \<in> set (cd_node_runs (fold (\<lambda>st t. skip now t st) sts (skip now t st)))"
    by (intro safe_row [OF skip_all_safe]) (simp_all add: terminal_def)
  then show ?thesis by (intro bexI [where x = ?n]) (simp_all add: ended_keeps)
qed

text \<open>After \<^verbatim>\<open>_mark_running\<close> the worker still holds the run.\<close>

lemma mark_running_holds:
  assumes "canvas_inv t" and "get_run t rid = Some run" and "active (run_status run)" and "run_claim_token run = Some token"
    and "t1 = (if run_status run = QUEUED then mark_running now token t rid else t)"
  obtains r where "get_run t1 rid = Some r" and "active (run_status r)" and "run_claim_token r = Some token"
    and "canvas_inv t1" and "cd_node_runs t1 = cd_node_runs t"
proof (cases "run_status run = QUEUED")
  case False
  with assms that show thesis by simp
next
  case True
  let ?r = "run\<lparr>run_status := RUN_RUNNING, run_started := Some now\<rparr>"
  have run: "run \<in> set (cd_runs t)" "run_id run = rid" using get_run_SomeD [OF assms(2)] by auto
  have t1: "t1 = mark_running now token t rid" using True assms(5) by simp
  have "canvas_inv t1" using mark_running_safe [of t now token rid] assms(1) by (simp add: t1 canvas_safe_def)
  moreover have "?r \<in> set (cd_runs t1)" using run True assms(4)
    by (auto simp: t1 mark_running_def update_runs_def set_update_where)
  ultimately have "get_run t1 rid = Some ?r"
    using row_where_key [of run_id "cd_runs t1" ?r] run(2) by (simp add: get_run_def canvas_inv_def)
  moreover have "cd_node_runs t1 = cd_node_runs t" by (simp add: t1 mark_running_def update_runs_def)
  ultimately show thesis using that \<open>canvas_inv t1\<close> assms(4) by (simp add: active_def)
qed

lemma held_affected:
  assumes "canvas_inv t" and "get_run t rid = Some r" and "active (run_status r)" and "run_claim_token r = Some token"
  shows "affected (\<lambda>r. run_id r = rid \<and> run_claim_token r = Some token \<and> active (run_status r)) (cd_runs t) = 1"
proof -
  have r: "r \<in> set (cd_runs t)" "run_id r = rid" using get_run_SomeD [OF assms(2)] by auto
  let ?P = "\<lambda>r. run_id r = rid \<and> run_claim_token r = Some token \<and> active (run_status r)"
  have "affected ?P (cd_runs t) \<le> 1"
    by (rule affected_key_le_one [where k = run_id and c = rid]) (use assms(1) in \<open>simp_all add: canvas_inv_def\<close>)
  moreover have "filter ?P (cd_runs t) \<noteq> []" using r assms(3,4) by (auto simp: filter_empty_conv)
  then have "affected ?P (cd_runs t) \<noteq> 0" by (simp add: affected_def)
  ultimately show ?thesis by simp
qed

lemma settle_run_ends:
  assumes "canvas_inv t" and "get_run t rid = Some r" and "active (run_status r)" and "run_claim_token r = Some token"
    and "\<forall>n \<in> set (run_rows t rid). terminal (nr_status n)"
  shows "\<exists>r' \<in> set (cd_runs (settle_run now due token False t t rid)). run_id r' = rid \<and> \<not> active (run_status r')"
proof -
  have r: "r \<in> set (cd_runs t)" "run_id r = rid" using get_run_SomeD [OF assms(2)] by auto
  have none: "\<not> list_ex (\<lambda>n. \<not> terminal (nr_status n)) (filter (\<lambda>n. nr_run_id n = rid) (cd_node_runs t))"
    using assms(5) by (simp add: list_ex_iff run_rows_def)
  let ?f = "filter (\<lambda>n. nr_status n = FAILED \<or> nr_status n = SKIPPED) (filter (\<lambda>n. nr_run_id n = rid) (cd_node_runs t))"
  let ?r = "r\<lparr>run_status := (if ?f \<noteq> [] then RUN_FAILED else RUN_SUCCEEDED), run_finished := Some now,
      run_started := (case run_started r of None \<Rightarrow> Some now | Some v \<Rightarrow> Some v), run_next_advance := None,
      run_error := unfinished (length ?f)\<rparr>"
  have "?r \<in> set (cd_runs (settle_run now due token False t t rid))"
    using r assms(3,4) none
    by (simp only: settle_run_def assms(2) option.case Let_def if_False if_True not_not simp_thms)
      (auto simp: update_runs_def set_update_where)
  then show ?thesis using r(2) by (intro bexI [where x = ?r]) (auto simp: active_def)
qed

end
