(* ===== verification/Workflow_Run_Properties.thy ===== *)
theory Workflow_Run_Properties
  imports Workflow_Advance
begin

text \<open>
  The contract of canvas runs (\<^verbatim>\<open>core/workflows/workflow_core/engine.py\<close> and
  \<^verbatim>\<open>service.py\<close>): what holds in every state that sessions of workers and users reach,
  whatever happened between what a session read and what it wrote; when a round of a worker makes
  progress; what stopping a run does; and that a save never overwrites an edit it has not seen.
\<close>

section \<open>A sample state\<close>

definition demo_node :: "string \<Rightarrow> string \<Rightarrow> node_status \<Rightarrow> int \<Rightarrow> string option \<Rightarrow> node_run" where
  "demo_node i ty st k job = \<lparr>nr_id = ''row-'' @ i, nr_run_id = ''r1'', nr_workflow_id = ''w1'', nr_node_id = i,
     nr_node_type = ty, nr_status = st, nr_fingerprint = '''', nr_inputs = [], nr_outputs = [], nr_usage = [],
     nr_error_code = None, nr_error_message = None, nr_job_id = job, nr_connection_id = None, nr_cached_from = None,
     nr_attempts = k, nr_started = None, nr_finished = None, nr_created = 0\<rparr>"

definition demo_run :: "string \<Rightarrow> string \<Rightarrow> run_status \<Rightarrow> workflow_run" where
  "demo_run i w st = \<lparr>run_id = i, run_workflow_id = w, run_project_id = ''p1'', run_workspace_id = None,
     run_created_by = None, run_enforce_plan = False, run_status = st, run_graph = empty_graph, run_graph_hash = '''',
     run_version = 1, run_scope_ids = [], run_force_ids = [], run_error = None, run_claim_token = Some ''k1'',
     run_claim_expires = Some 9, run_next_advance = None, run_cancel_requested = None, run_started = None,
     run_finished = None\<rparr>"

definition demo_workflow :: workflow_row where
  "demo_workflow = \<lparr>wf_id = ''w1'', wf_project_id = ''p1'', wf_workspace_id = None, wf_name = ''c'',
     wf_graph = empty_graph, wf_version = 1, wf_created_by = None, wf_updated_by = None, wf_updated_at = 0,
     wf_deleted_at = None, wf_deleted_by = None\<rparr>"

definition demo_done :: node_run where
  "demo_done = demo_node ''t'' ''text'' SUCCEEDED 0 None"

definition demo_busy :: node_run where
  "demo_busy = demo_node ''i'' ''image_generation'' RUNNING 1 (Some ''j1'')"

definition demo_next :: node_run where
  "demo_next = demo_node ''v'' ''video_generation'' PENDING 0 None"

definition demo_db :: canvas_db where
  "demo_db = \<lparr>cd_projects = [(''p1'', None)], cd_workflows = [demo_workflow],
     cd_runs = [demo_run ''r1'' ''w1'' RUN_RUNNING, demo_run ''r0'' ''w1'' RUN_CANCELLED],
     cd_node_runs = [demo_done, demo_busy, demo_next], cd_jobs = [], cd_idempotency = [], cd_assets = []\<rparr>"

lemma demo_canvas_inv: "canvas_inv demo_db"
  by code_simp

lemma one_session: "txn s s u \<Longrightarrow> interleaved txn s u"
  using interleaved.commit [OF interleaved.start interleaved.start] .

lemma demo_cancel:
  "\<exists>u. cancel 5 demo_db ''r1'' = Inr ([''j1''], u) \<and> interleaved canvas_txn demo_db u"
proof -
  have "fst (projr (cancel 5 demo_db ''r1'')) = [''j1''] \<and> \<not> isl (cancel 5 demo_db ''r1'')" by code_simp
  then obtain u where "cancel 5 demo_db ''r1'' = Inr ([''j1''], u)" by (cases "cancel 5 demo_db ''r1''") auto
  then show ?thesis using one_session [of canvas_txn] txn_cancel by blast
qed

section \<open>Results are final\<close>

text \<open>
  C14. Over every interleaving of sessions (workers, users, jobs), with any staleness of what a
  session read, a node row that reached an end is never written again, and a run that ended keeps its
  status, its end and its message.
\<close>

theorem finished_work_is_final:
  assumes "interleaved canvas_txn s t" and "canvas_inv s"
  shows "(\<forall>n \<in> set (cd_node_runs s). terminal (nr_status n) \<longrightarrow> n \<in> set (cd_node_runs t)) \<and>
    (\<forall>r \<in> set (cd_runs s). \<not> active (run_status r) \<longrightarrow>
       (\<exists>r' \<in> set (cd_runs t). run_id r' = run_id r \<and> run_status r' = run_status r \<and>
          run_finished r' = run_finished r \<and> run_error r' = run_error r))"
proof -
  have "canvas_frame s t" using assms by (rule canvas.execution_frame)
  then show ?thesis unfolding canvas_frame_def node_evolves_def run_evolves_def by metis
qed

theorem finished_work_is_final_witness:
  "\<exists>u. cancel 5 demo_db ''r1'' = Inr ([''j1''], u) \<and> demo_done \<in> set (cd_node_runs u)"
proof -
  from demo_cancel obtain u where u: "cancel 5 demo_db ''r1'' = Inr ([''j1''], u)" "interleaved canvas_txn demo_db u"
    by blast
  have "demo_done \<in> set (cd_node_runs demo_db)" "terminal (nr_status demo_done)"
    by (simp_all add: demo_db_def demo_done_def demo_node_def terminal_def)
  then show ?thesis using finished_work_is_final [OF u(2) demo_canvas_inv] u(1) by blast
qed

text \<open>
  C15. In every state the sessions reach, a canvas has at most one queued or running run; every node of
  a run that ended has ended; a run that succeeded has only nodes that succeeded or were cached; and
  no node of a run still going is cancelled.
\<close>

theorem runs_agree_with_their_nodes:
  assumes "interleaved canvas_txn s t" and "canvas_inv s"
  shows "(\<forall>r \<in> set (cd_runs t). \<forall>r' \<in> set (cd_runs t). active (run_status r) \<and> active (run_status r') \<and>
        run_workflow_id r = run_workflow_id r' \<longrightarrow> r = r') \<and>
    (\<forall>r \<in> set (cd_runs t). \<forall>n \<in> set (cd_node_runs t). nr_run_id n = run_id r \<longrightarrow>
        (if active (run_status r) then nr_status n \<noteq> NODE_CANCELLED
         else terminal (nr_status n) \<and> (run_status r = RUN_SUCCEEDED \<longrightarrow> satisfied (nr_status n))))"
proof
  have inv: "canvas_inv t" using assms by (rule canvas.execution_inv)
  then have "inj_on run_workflow_id {r \<in> set (cd_runs t). active (run_status r)}"
    by (simp add: canvas_inv_def distinct_map)
  then show "\<forall>r \<in> set (cd_runs t). \<forall>r' \<in> set (cd_runs t). active (run_status r) \<and> active (run_status r') \<and>
        run_workflow_id r = run_workflow_id r' \<longrightarrow> r = r'"
    by (auto dest: inj_onD)
  show "\<forall>r \<in> set (cd_runs t). \<forall>n \<in> set (cd_node_runs t). nr_run_id n = run_id r \<longrightarrow>
        (if active (run_status r) then nr_status n \<noteq> NODE_CANCELLED
         else terminal (nr_status n) \<and> (run_status r = RUN_SUCCEEDED \<longrightarrow> satisfied (nr_status n)))"
    using inv_pair [OF inv] by (simp add: run_nodes_ok_def)
qed

theorem runs_agree_with_their_nodes_witness:
  "\<exists>u. cancel 5 demo_db ''r1'' = Inr ([''j1''], u) \<and>
     (\<forall>r \<in> set (cd_runs u). \<forall>n \<in> set (cd_node_runs u). nr_run_id n = run_id r \<longrightarrow>
        active (run_status r) \<or> terminal (nr_status n))"
proof -
  from demo_cancel obtain u where u: "cancel 5 demo_db ''r1'' = Inr ([''j1''], u)" "interleaved canvas_txn demo_db u"
    by blast
  have "\<forall>r \<in> set (cd_runs u). \<forall>n \<in> set (cd_node_runs u). nr_run_id n = run_id r \<longrightarrow>
      active (run_status r) \<or> terminal (nr_status n)"
    using runs_agree_with_their_nodes [OF u(2) demo_canvas_inv, THEN conjunct2] by metis
  with u(1) show ?thesis by blast
qed

text \<open>
  C16. A node that spends money is started once: when an image or video node has left the pending
  state, every later attempt of any worker to start its row, whatever it had read, changes nothing,
  and the row counts at most one attempt. A model call counts at most two.
\<close>

theorem generation_starts_once:
  assumes "interleaved canvas_txn s t" and "canvas_inv s" and "n \<in> set (cd_node_runs s)"
    and "nr_node_type n \<noteq> ''llm''" and "nr_status n \<noteq> PENDING" and "nr_id st = nr_id n"
  shows "begin_attempt now t st = (False, t) \<and>
    (\<forall>m \<in> set (cd_node_runs t). nr_attempts m \<le> (if nr_node_type m = ''llm'' then MAX_LLM_ATTEMPTS else 1))"
proof
  have inv: "canvas_inv t" and frame: "canvas_frame s t"
    using canvas.execution [OF assms(1,2)] by auto
  let ?P = "\<lambda>r. nr_id r = nr_id st \<and> nr_status r = PENDING"
  have none: "filter ?P (cd_node_runs t) = []"
    unfolding filter_empty_conv using frame_row [OF frame inv assms(3)] assms(4-6) by (auto simp: node_evolves_def)
  then have "update_where ?P f (cd_node_runs t) = cd_node_runs t" for f
    by (intro update_where_none) (simp add: affected_def)
  with none show "begin_attempt now t st = (False, t)"
    by (simp add: begin_attempt_def transition_def affected_def)
  show "\<forall>m \<in> set (cd_node_runs t). nr_attempts m \<le> (if nr_node_type m = ''llm'' then MAX_LLM_ATTEMPTS else 1)"
    using inv_row [OF inv] by (simp add: node_row_ok_def)
qed

theorem generation_starts_once_witness:
  "\<exists>u. snd (begin_attempt 3 demo_db demo_next) = u \<and> fst (begin_attempt 3 demo_db demo_next) \<and>
     begin_attempt 4 u demo_next = (False, u)"
proof -
  let ?u = "snd (begin_attempt 3 demo_db demo_next)"
  let ?n = "demo_next\<lparr>nr_started := Some 3, nr_attempts := 1, nr_status := RUNNING\<rparr>"
  have first: "canvas_txn demo_db demo_db ?u"
    by (rule txn_begin) (simp_all add: demo_db_def demo_next_def demo_node_def)
  then have inv: "canvas_inv ?u" by (intro canvas.execution_inv [OF one_session demo_canvas_inv])
  have n: "?n \<in> set (cd_node_runs ?u)" "fst (begin_attempt 3 demo_db demo_next)"
    by (simp_all add: demo_db_def demo_next_def demo_busy_def demo_done_def demo_node_def begin_attempt_def transition_def affected_def)
  have "begin_attempt 4 ?u demo_next = (False, ?u)"
    using generation_starts_once [OF interleaved.start inv n(1), of demo_next 4]
    by (simp add: demo_next_def demo_node_def)
  with n(2) show ?thesis by blast
qed

section \<open>A round of a worker\<close>

lemma quiet_round:
  assumes inv: "canvas_inv t" and run: "get_run t rid = Some run" "active (run_status run)"
      "run_claim_token run = Some (wk_token k)"
    and none: "\<forall>st \<in> set states. nr_status st \<noteq> RUNNING" and tri: "triage g states order = (sk, rd)"
  obtains t1 r where "get_run t1 rid = Some r" and "active (run_status r)" and "run_claim_token r = Some (wk_token k)"
    and "canvas_inv t1" and "cd_node_runs t1 = cd_node_runs t"
    and "round_with k t run g order states = (if sk \<noteq> [] then (Again, fold (\<lambda>st t. skip (wk_now k) t st) sk t1)
      else if rd = [] then (Stopped, settle_run (wk_now k) (wk_now k + wk_wait k) (wk_token k) False t1 t1 rid)
      else (Execute rd, snd (renew (wk_now k) (wk_lease k) (wk_token k) t1 rid)))"
proof -
  from run(1) have rid: "run_id run = rid" using get_run_SomeD by blast
  define t1 where "t1 = (if run_status run = QUEUED then mark_running (wk_now k) (wk_token k) t rid else t)"
  from mark_running_holds [OF inv run t1_def] obtain r where r: "get_run t1 rid = Some r"
    "active (run_status r)" "run_claim_token r = Some (wk_token k)" and inv1: "canvas_inv t1"
    and same: "cd_node_runs t1 = cd_node_runs t" by blast
  have "fst (renew (wk_now k) (wk_lease k) (wk_token k) t1 rid)"
    using held_affected [OF inv1 r] by (simp add: renew_def update_runs_def)
  then show thesis
    by (intro that [OF r inv1 same])
      (simp add: round_with_def Let_def rid t1_def [symmetric] follow_none [OF none] retry_none [OF none] tri case_prod_beta)
qed

lemma quiet_rows_end:
  assumes g: "parse_graph flen doc = Inr g" and order: "topological_order g = Inr order"
    and none: "\<forall>st \<in> set states. nr_status st \<noteq> RUNNING" and tri: "triage g states order = ([], [])"
    and rows: "distinct (map nr_node_id states)" and n: "n \<in> set states" "nr_node_id n \<in> set (node_ids g)"
  shows "terminal (nr_status n)"
proof -
  have ok: "endpoints_ok g" using parse_graph_ok [OF g] by (simp add: graph_ok_def graph_ok_endpoints)
  have "set order = set (node_ids g)" using topological_order_cases [OF ok] order by (auto split: if_split_asm)
  then have i: "nr_node_id n \<in> set order" using n by simp
  have "state_of states (nr_node_id n) = Some n" using row_where_key [OF rows n(1)] by (simp add: state_of_def)
  then have "nr_status n \<noteq> PENDING" using triage_never_stalls [OF g order none i] tri by (metis fst_conv snd_conv)
  with none n(1) show ?thesis by (simp add: node_statuses)
qed

text \<open>
  C17. A round on a run in which nothing is running never stalls: it skips a node that can no
  longer run, or starts nodes whose inputs are all there, or ends the run. It does not put a run
  aside that nothing would wake up.
\<close>

theorem quiet_round_makes_progress:
  assumes inv: "canvas_inv t" and loaded: "load flen (wk_token k) t rid = Inr (Some (run, g, order))"
    and quiet: "\<forall>n \<in> set (run_rows t rid). nr_status n \<noteq> RUNNING \<and> nr_node_id n \<in> set (node_ids g)"
    and rows: "distinct (map nr_node_id (run_rows t rid))"
  shows "case round_with k t run g order (run_rows t rid) of
      (Again, u) \<Rightarrow> \<exists>st \<in> set (run_rows t rid). nr_status st = PENDING \<and>
        (\<exists>n \<in> set (run_rows u rid). nr_id n = nr_id st \<and> nr_status n = SKIPPED)
    | (Execute ready, u) \<Rightarrow> ready \<noteq> [] \<and> (\<forall>st \<in> set ready. st \<in> set (run_rows t rid) \<and> nr_status st = PENDING \<and>
        list_all input_ready (source_states g (run_rows t rid) (nr_node_id st)))
    | (Stopped, u) \<Rightarrow> \<exists>r \<in> set (cd_runs u). run_id r = rid \<and> \<not> active (run_status r)"
proof -
  let ?rows = "run_rows t rid"
  from load_Some [OF loaded] have run: "get_run t rid = Some run" "active (run_status run)"
    "run_claim_token run = Some (wk_token k)" and g: "parse_graph flen (run_graph run) = Inr g"
    and order: "topological_order g = Inr order" by auto
  obtain sk rd where tri: "triage g ?rows order = (sk, rd)" by fastforce
  have none: "\<forall>st \<in> set ?rows. nr_status st \<noteq> RUNNING" using quiet by blast
  obtain t1 r where r: "get_run t1 rid = Some r" "active (run_status r)" "run_claim_token r = Some (wk_token k)"
    and inv1: "canvas_inv t1" and same: "cd_node_runs t1 = cd_node_runs t"
    and round: "round_with k t run g order ?rows = (if sk \<noteq> [] then (Again, fold (\<lambda>st t. skip (wk_now k) t st) sk t1)
      else if rd = [] then (Stopped, settle_run (wk_now k) (wk_now k + wk_wait k) (wk_token k) False t1 t1 rid)
      else (Execute rd, snd (renew (wk_now k) (wk_lease k) (wk_token k) t1 rid)))"
    using inv run none tri by (rule quiet_round)
  have pending: "st \<in> set ?rows \<and> nr_status st = PENDING" if "st \<in> set sk \<union> set rd" for st
    using that triage_rows [of g ?rows order] tri by auto
  consider st sts where "sk = st # sts" | "sk = []" "rd \<noteq> []" | "sk = []" "rd = []" by (cases sk) auto
  then show ?thesis
  proof cases
    case 1
    with pending have st: "st \<in> set ?rows" "nr_status st = PENDING" by auto
    then obtain n where n: "n \<in> set (cd_node_runs (fold (\<lambda>st t. skip (wk_now k) t st) sk t1))"
      "nr_id n = nr_id st" "nr_run_id n = nr_run_id st" "nr_status n = SKIPPED"
      using skip_hits [OF inv1, of st "wk_now k" sts] same unfolding 1 by (auto simp: run_rows_def)
    with st have "n \<in> set (run_rows (fold (\<lambda>st t. skip (wk_now k) t st) sk t1) rid)" by (simp add: run_rows_def)
    with round 1 st n show ?thesis by auto
  next
    case 2
    have "list_all input_ready (source_states g ?rows (nr_node_id st))" if st: "st \<in> set rd" for st
    proof -
      from triage_ready [of st g ?rows order] st tri obtain i where
        i: "state_of ?rows i = Some st" "list_all input_ready (source_states g ?rows i)" by auto
      then show ?thesis using row_where_SomeD [OF i(1) [unfolded state_of_def]] by simp
    qed
    with 2 round pending show ?thesis by simp
  next
    case 3
    then have "\<forall>n \<in> set (run_rows t1 rid). terminal (nr_status n)"
      using quiet_rows_end [OF g order none _ rows] quiet tri same by (simp add: run_rows_def)
    from settle_run_ends [OF inv1 r this] show ?thesis using round 3 by simp
  qed
qed

definition quiet_db :: "node_status \<Rightarrow> canvas_db" where
  "quiet_db st = \<lparr>cd_projects = [(''p1'', None)], cd_workflows = [demo_workflow],
     cd_runs = [(demo_run ''r1'' ''w1'' RUN_RUNNING)\<lparr>run_graph := sample\<rparr>],
     cd_node_runs = [demo_node ''t'' ''text'' st 0 None, demo_node ''i'' ''image_generation'' PENDING 0 None,
       demo_node ''v'' ''video_generation'' PENDING 0 None],
     cd_jobs = [], cd_idempotency = [], cd_assets = []\<rparr>"

definition demo_worker :: worker where
  "demo_worker = \<lparr>wk_now = 5, wk_token = ''k1'', wk_limit = 300, wk_lease = 360, wk_wait = 2\<rparr>"

definition demo_order :: "string list" where
  "demo_order = [''t'', ''i'', ''v'']"

lemma demo_load:
  "load sample_flen (wk_token demo_worker) (quiet_db st) ''r1'' =
     Inr (Some ((demo_run ''r1'' ''w1'' RUN_RUNNING)\<lparr>run_graph := sample\<rparr>, sample_graph, demo_order))"
proof -
  have order: "topological_order sample_graph = Inr demo_order" by code_simp
  show ?thesis
    by (simp add: load_def get_run_def quiet_db_def demo_run_def active_def sample_parses graph_result_def order
        demo_worker_def)
qed

theorem quiet_round_makes_progress_witness:
  "fst (round_with demo_worker (quiet_db SUCCEEDED) ((demo_run ''r1'' ''w1'' RUN_RUNNING)\<lparr>run_graph := sample\<rparr>)
      sample_graph demo_order (run_rows (quiet_db SUCCEEDED) ''r1'')) = Execute [demo_node ''i'' ''image_generation'' PENDING 0 None] \<and>
   list_all input_ready (source_states sample_graph (run_rows (quiet_db SUCCEEDED) ''r1'') ''i'')"
proof
  let ?round = "round_with demo_worker (quiet_db SUCCEEDED) ((demo_run ''r1'' ''w1'' RUN_RUNNING)\<lparr>run_graph := sample\<rparr>)
      sample_graph demo_order (run_rows (quiet_db SUCCEEDED) ''r1'')"
  let ?i = "demo_node ''i'' ''image_generation'' PENDING 0 None"
  show first: "fst ?round = Execute [?i]" by code_simp
  have inv: "canvas_inv (quiet_db SUCCEEDED)" by code_simp
  have quiet: "\<forall>n \<in> set (run_rows (quiet_db SUCCEEDED) ''r1''). nr_status n \<noteq> RUNNING \<and>
      nr_node_id n \<in> set (node_ids sample_graph)" by code_simp
  have rows: "distinct (map nr_node_id (run_rows (quiet_db SUCCEEDED) ''r1''))" by code_simp
  obtain u where round: "?round = (Execute [?i], u)" using first by (metis prod.collapse)
  have "nr_node_id ?i = ''i''" by (simp add: demo_node_def)
  with quiet_round_makes_progress [OF inv demo_load quiet rows] round
  show "list_all input_ready (source_states sample_graph (run_rows (quiet_db SUCCEEDED) ''r1'') ''i'')" by simp
qed

text \<open>
  C18. A visit of a worker to the runs that are due, with whatever the model calls and the submitter
  answer, is an execution of sessions: everything shown of sessions holds of it, interrupted at any
  point by anyone.
\<close>

theorem visit_refines_sessions:
  "interleaved canvas_txn t (snd (advance_due chat submit flen k token limit t))"
proof -
  have claimed: "interleaved canvas_txn t u \<Longrightarrow> interleaved canvas_txn t (snd (claim_all now d token u due))" for now d u due
  proof (induction due arbitrary: u)
    case (Cons rid due)
    obtain won t1 where one: "claim now d (token rid) u rid = (won, t1)" by fastforce
    obtain cs t2 where rest: "claim_all now d token t1 due = (cs, t2)" by fastforce
    have "interleaved canvas_txn t (snd (claim now d (token rid) u rid))" using Cons.prems by (rule sessions)
    from Cons.IH [OF this] show ?case by (simp add: one rest)
  qed simp
  have visited: "interleaved canvas_txn t u \<Longrightarrow>
      interleaved canvas_txn t (fold (\<lambda>(rid, tk) t. advance_claimed chat submit flen (k\<lparr>wk_token := tk\<rparr>) t rid) cs u)" for u cs
  proof (induction cs arbitrary: u)
    case (Cons c cs)
    obtain rid tk where c: "c = (rid, tk)" by (cases c)
    have "interleaved canvas_txn t (case advance chat submit flen (k\<lparr>wk_token := tk\<rparr>) u rid of Inl _ \<Rightarrow> u | Inr v \<Rightarrow> v)"
      using Cons.prems interleaved_trans [OF advance_rounds_sessions Cons.prems]
      by (auto simp: advance_def split: sum.split)
    then have "interleaved canvas_txn t (advance_claimed chat submit flen (k\<lparr>wk_token := tk\<rparr>) u rid)"
      unfolding advance_claimed_def by (rule sessions)
    from Cons.IH [OF this] show ?case by (simp add: c)
  qed simp
  show ?thesis
    using visited [OF claimed [OF interleaved.start]]
    by (simp add: advance_due_def Let_def case_prod_beta)
qed

section \<open>What a visit sends out\<close>

text \<open>
  C19. A crash between creating a generation job and recording it is made up for: the request a node
  sends carries a key of its row alone, and when that key names a job, the next look at the row that
  runs without one records this job and follows it instead of starting another. Requests of two
  rows never share a key.
\<close>

theorem crashed_submission_is_recovered:
  assumes rq: "generation_request run g states n st = Inr (inputs, connection, rq)"
    and key: "map_of (cd_idempotency t) (go_idempotency_key (order_of rq)) = Some j" and j: "j \<noteq> ''''"
    and st': "nr_id st' = nr_id st" "py_falsy (nr_job_id st')"
  shows "follow_job now limit t st' = follow_outcome now (get_job t j) (snd (recover_job t st')) st' j \<and>
    (\<forall>m \<in> set (cd_node_runs (snd (recover_job t st'))). nr_id m = nr_id st \<and> nr_status m = RUNNING \<longrightarrow> nr_job_id m = Some j) \<and>
    (\<forall>run2 g2 states2 n2 st2 inputs2 connection2 rq2.
       generation_request run2 g2 states2 n2 st2 = Inr (inputs2, connection2, rq2) \<and> nr_id st2 \<noteq> nr_id st \<longrightarrow>
       go_idempotency_key (order_of rq2) \<noteq> go_idempotency_key (order_of rq))"
proof -
  have own: "go_idempotency_key (order_of rq) = ''canvas:'' @ nr_id st"
    if "generation_request run g states n st = Inr (inputs, connection, rq)" for run g states n st inputs connection rq
    using that unfolding generation_request_def Let_def
    by (simp add: generation_order_of_def Let_def split: if_split_asm) auto
  have rec: "recover_job t st' = (Some j, t\<lparr>cd_node_runs :=
      update_where (\<lambda>r. nr_id r = nr_id st \<and> nr_status r = RUNNING) (\<lambda>r. r\<lparr>nr_job_id := Some j\<rparr>) (cd_node_runs t)\<rparr>)"
    using key j unfolding own [OF rq] by (simp add: recover_job_def st'(1))
  have "get_job (snd (recover_job t st')) j = get_job t j" by (simp add: rec get_job_def)
  then have "follow_job now limit t st' = follow_outcome now (get_job t j) (snd (recover_job t st')) st' j"
    using st'(2) j by (simp add: follow_job_def rec py_falsy_def)
  moreover have "\<forall>m \<in> set (cd_node_runs (snd (recover_job t st'))). nr_id m = nr_id st \<and> nr_status m = RUNNING \<longrightarrow>
      nr_job_id m = Some j"
    by (auto simp: rec set_update_where)
  moreover have "go_idempotency_key (order_of rq2) \<noteq> go_idempotency_key (order_of rq)"
    if "generation_request run2 g2 states2 n2 st2 = Inr (inputs2, connection2, rq2)" "nr_id st2 \<noteq> nr_id st"
    for run2 g2 states2 n2 st2 inputs2 connection2 rq2
    using own [OF that(1)] own [OF rq] that(2) by simp
  ultimately show ?thesis by blast
qed

definition demo_inputs :: "node_run list" where
  "demo_inputs = [(demo_node ''t'' ''text'' SUCCEEDED 0 None)\<lparr>nr_outputs := [(''text'', JStr ''a cat'')]\<rparr>]"

definition demo_request ::
  "(string \<times> string) + (string \<times> json) list \<times> string option \<times> job_request" where
  "demo_request = generation_request (demo_run ''r1'' ''w1'' RUN_RUNNING) sample_graph demo_inputs
     (the (find_node (wg_nodes sample_graph) ''i'')) (demo_node ''i'' ''image_generation'' RUNNING 1 None)"

theorem crashed_submission_is_recovered_witness:
  "\<exists>t u. map_of (cd_idempotency t) ''canvas:row-i'' = Some ''j7'' \<and>
     follow_job 9 300 t (demo_node ''i'' ''image_generation'' RUNNING 1 None) =
     follow_outcome 9 None u (demo_node ''i'' ''image_generation'' RUNNING 1 None) ''j7''"
proof -
  let ?st = "demo_node ''i'' ''image_generation'' RUNNING 1 None"
  let ?t = "demo_db\<lparr>cd_idempotency := [(''canvas:row-i'', ''j7'')]\<rparr>"
  let ?n = "the (find_node (wg_nodes sample_graph) ''i'')"
  have prompt: "generation_prompt sample_graph demo_inputs ?n = ''a cat''" by code_simp
  have source: "text_or (gn_data ?n) ''source'' ''platform'' = ''platform''" by code_simp
  define result where "result = demo_request"
  have "\<not> isl result \<and> go_idempotency_key (order_of (snd (snd (projr result)))) = ''canvas:row-i''"
    unfolding result_def
    unfolding demo_request_def generation_request_def Let_def prompt source
    by (simp add: generation_order_of_def Let_def demo_node_def)
  then obtain inputs connection rq where rq: "demo_request = Inr (inputs, connection, rq)"
    and key: "go_idempotency_key (order_of rq) = ''canvas:row-i''"
    unfolding result_def [symmetric] by (cases result) auto
  have t: "map_of (cd_idempotency ?t) (go_idempotency_key (order_of rq)) = Some ''j7''" by (simp add: key)
  have j: "''j7'' \<noteq> ''''" by simp
  have open': "py_falsy (nr_job_id ?st)" by (simp add: demo_node_def py_falsy_def)
  have "follow_job 9 300 ?t ?st = follow_outcome 9 (get_job ?t ''j7'') (snd (recover_job ?t ?st)) ?st ''j7''"
    by (rule crashed_submission_is_recovered [OF rq [unfolded demo_request_def] t j refl open', THEN conjunct1])
  moreover have "get_job ?t ''j7'' = None" by (simp add: get_job_def demo_db_def)
  ultimately show ?thesis by (intro exI [where x = ?t] exI [where x = "snd (recover_job ?t ?st)"]) simp
qed

section \<open>Edits and stops\<close>

lemma save_Inr:
  assumes "save flen now s t wid user v name graph = Inr (v', u)"
  obtains f where "cd_workflows u = update_where (\<lambda>w. wf_id w = wid \<and> wf_version w = v \<and> wf_deleted_at w = None) f (cd_workflows t)"
    and "\<forall>w. wf_id (f w) = wf_id w \<and> wf_version (f w) = wf_version w + 1"
    and "affected (\<lambda>w. wf_id w = wid \<and> wf_version w = v \<and> wf_deleted_at w = None) (cd_workflows t) = 1"
proof -
  let ?P = "\<lambda>w. wf_id w = wid \<and> wf_version w = v \<and> wf_deleted_at w = None"
  obtain document where rest: "(case live_workflow s wid of
         None \<Rightarrow> Inl WorkflowNotFound
       | Some w \<Rightarrow>
           res_bind (case name of None \<Rightarrow> Inr None | Some n \<Rightarrow> res_bind (normalize_name (Some n)) (\<lambda>v. Inr (Some v))) (\<lambda>n.
             let P = ?P;
                 f = (\<lambda>w. w\<lparr>wf_version := wf_version w + 1, wf_updated_by := user, wf_updated_at := now,
                       wf_graph := (case document of None \<Rightarrow> wf_graph w | Some d \<Rightarrow> d),
                       wf_name := (case n of None \<Rightarrow> wf_name w | Some v \<Rightarrow> v)\<rparr>)
             in if affected P (cd_workflows t) \<noteq> 1
                then Inl (WorkflowConflict ''WORKFLOW_VERSION_CONFLICT'' [])
                else Inr (v + 1, t\<lparr>cd_workflows := update_where P f (cd_workflows t)\<rparr>))) = Inr (v', u)"
    using assms unfolding save_def by (rule res_bind_InrE)
  then obtain w where "live_workflow s wid = Some w" by (cases "live_workflow s wid") auto
  with rest obtain n where "(let P = ?P;
                 f = (\<lambda>w. w\<lparr>wf_version := wf_version w + 1, wf_updated_by := user, wf_updated_at := now,
                       wf_graph := (case document of None \<Rightarrow> wf_graph w | Some d \<Rightarrow> d),
                       wf_name := (case n of None \<Rightarrow> wf_name w | Some v \<Rightarrow> v)\<rparr>)
             in if affected P (cd_workflows t) \<noteq> 1
                then Inl (WorkflowConflict ''WORKFLOW_VERSION_CONFLICT'' [])
                else Inr (v + 1, t\<lparr>cd_workflows := update_where P f (cd_workflows t)\<rparr>)) = Inr (v', u)"
    unfolding option.case by (auto elim: res_bind_InrE)
  then have one: "affected ?P (cd_workflows t) = 1"
    and u: "cd_workflows u = update_where ?P (\<lambda>w. w\<lparr>wf_version := wf_version w + 1, wf_updated_by := user, wf_updated_at := now,
        wf_graph := (case document of None \<Rightarrow> wf_graph w | Some d \<Rightarrow> d),
        wf_name := (case n of None \<Rightarrow> wf_name w | Some v \<Rightarrow> v)\<rparr>) (cd_workflows t)"
    by (auto simp: Let_def split: if_split_asm)
  show thesis by (rule that [OF u _ one]) simp
qed

lemma delete_workflow_Inr:
  assumes "delete_workflow now t wid user = Inr u"
  obtains P f where "cd_workflows u = update_where P f (cd_workflows t)"
    and "\<forall>w. wf_id (f w) = wf_id w \<and> wf_version (f w) = wf_version w"
proof -
  have rows: "cd_workflows (snd (cancel_run_rows reason now t rid)) = cd_workflows t" for reason t rid
    by (simp add: cancel_run_rows_def update_runs_def Let_def)
  have "cd_workflows (fold (\<lambda>rid t. snd (cancel_run_rows reason now t rid)) runs t) = cd_workflows t" for reason t runs
    by (induction runs arbitrary: t) (simp_all add: rows)
  with assms have "cd_workflows u = update_where (\<lambda>w. wf_id w = wid \<and> wf_deleted_at w = None)
      (\<lambda>w. w\<lparr>wf_deleted_at := Some now, wf_deleted_by := user\<rparr>) (cd_workflows t)"
    by (auto simp: delete_workflow_def Let_def split: option.split_asm)
  then show thesis by (rule that) simp_all
qed

lemma txn_workflows:
  assumes "canvas_txn s t u"
  shows "wid \<in> wf_id ` set (cd_workflows t) \<Longrightarrow> \<forall>w' \<in> set (cd_workflows u). wf_id w' = wid \<longrightarrow>
      (\<exists>w \<in> set (cd_workflows t). wf_id w = wid \<and> wf_version w \<le> wf_version w')"
    and "wf_id ` set (cd_workflows t) \<subseteq> wf_id ` set (cd_workflows u)"
proof -
  have cancelled: "cd_workflows (snd (cancel_run_rows reason now t rid)) = cd_workflows t" for reason now t rid
    by (simp add: cancel_run_rows_def update_runs_def Let_def)
  have moved: "cd_workflows (snd (transition t i a b k f)) = cd_workflows t" for t i a b k f
    by (simp add: transition_def Let_def)
  have recovered: "cd_workflows (snd (recover_job t st)) = cd_workflows t" for t st
    by (simp add: recover_job_def split: option.split)
  have outcome: "cd_workflows (snd (follow_outcome now job t st jid)) = cd_workflows t" for now job t st jid
    unfolding follow_outcome_def Let_def by (simp add: moved split: if_split)
  have followed: "cd_workflows (snd (follow_job now limit t st)) = cd_workflows t" for now limit t st
    unfolding follow_job_def Let_def case_prod_beta by (simp add: moved outcome recovered split: if_split)
  have settled: "cd_workflows (settle_run now due token w s t rid) = cd_workflows t" for now due token w s t rid
    unfolding settle_run_def Let_def by (simp add: update_runs_def schedule_def split: option.split)
  consider w where "cd_workflows u = cd_workflows t @ [w]" "wf_id w \<notin> wf_id ` set (cd_workflows t)"
    | P f where "cd_workflows u = update_where P f (cd_workflows t)" "\<And>w. wf_id (f w) = wf_id w"
        "\<And>w. wf_version w \<le> wf_version (f w)"
    | "cd_workflows u = cd_workflows t"
    using assms
  proof cases
    case (txn_create flen new_id now p user name graph w)
    then have "cd_workflows u = cd_workflows t @ [w] \<and> wf_id w = new_id"
      by (auto simp: create_def res_simps Let_def split: option.split_asm)
    with txn_create that(1) [of w] show ?thesis by simp
  next
    case (txn_save flen now wid' user v name graph v')
    then obtain f where u: "cd_workflows u = update_where (\<lambda>w. wf_id w = wid' \<and> wf_version w = v \<and> wf_deleted_at w = None)
        f (cd_workflows t)" and f: "\<forall>w. wf_id (f w) = wf_id w \<and> wf_version (f w) = wf_version w + 1"
      by (elim save_Inr)
    show ?thesis by (rule that(2) [OF u]) (simp_all add: f)
  next
    case (txn_delete now wid' user)
    then obtain P f where u: "cd_workflows u = update_where P f (cd_workflows t)"
        and f: "\<forall>w. wf_id (f w) = wf_id w \<and> wf_version (f w) = wf_version w"
      by (elim delete_workflow_Inr)
    show ?thesis by (rule that(2) [OF u]) (simp_all add: f)
  next
    case txn_cancel
    then have "cd_workflows u = cd_workflows t"
      by (auto simp: cancel_def Let_def case_prod_beta cancelled split: option.split_asm)
    then show ?thesis using that by blast
  next
    case txn_start
    then have "cd_workflows u = cd_workflows t" by (elim start_Inr) simp
    then show ?thesis using that by blast
  qed (use that in \<open>simp_all add: moved recovered outcome followed settled claim_def release_def renew_def mark_running_def
      schedule_def update_runs_def skip_def reset_or_fail_llm_def begin_attempt_def fail_attempt_def answer_llm_def
      record_inputs_def record_job_def update_attempt_def\<close>)
  note cases = this
  show "\<forall>w' \<in> set (cd_workflows u). wf_id w' = wid \<longrightarrow>
      (\<exists>w \<in> set (cd_workflows t). wf_id w = wid \<and> wf_version w \<le> wf_version w')"
    if wid: "wid \<in> wf_id ` set (cd_workflows t)"
    using cases
  proof cases
    case 1
    then show ?thesis using wid by auto
  next
    case 2
    show ?thesis
    proof (intro ballI impI)
      fix w' assume "w' \<in> set (cd_workflows u)" "wf_id w' = wid"
      then obtain x where "x \<in> set (cd_workflows t)" "w' = (if P x then f x else x)" "wf_id w' = wid"
        unfolding 2(1) set_update_where by blast
      then show "\<exists>w \<in> set (cd_workflows t). wf_id w = wid \<and> wf_version w \<le> wf_version w'"
        using 2(2,3) [of x] by (intro bexI [where x = x]) auto
    qed
  qed auto
  show "wf_id ` set (cd_workflows t) \<subseteq> wf_id ` set (cd_workflows u)"
    using cases
  proof cases
    case 2
    then have "map wf_id (cd_workflows u) = map wf_id (cd_workflows t)"
      unfolding 2(1) by (intro map_update_where)
    then show ?thesis by (metis list.set_map order_refl)
  qed auto
qed

lemma version_floor:
  assumes "interleaved canvas_txn s t" and "wid \<in> wf_id ` set (cd_workflows s)"
    and "\<forall>w \<in> set (cd_workflows s). wf_id w = wid \<longrightarrow> b < wf_version w"
  shows "wid \<in> wf_id ` set (cd_workflows t) \<and> (\<forall>w \<in> set (cd_workflows t). wf_id w = wid \<longrightarrow> b < wf_version w)"
  using assms
proof (induction rule: interleaved.induct)
  case (commit s0 s t u)
  from commit.IH(1) [OF commit.prems] have s: "wid \<in> wf_id ` set (cd_workflows s)"
    "\<forall>w \<in> set (cd_workflows s). wf_id w = wid \<longrightarrow> b < wf_version w" by (rule conjunct1, rule conjunct2)
  from commit.IH(2) [OF s] have t: "wid \<in> wf_id ` set (cd_workflows t)"
    "\<forall>w \<in> set (cd_workflows t). wf_id w = wid \<longrightarrow> b < wf_version w" by (rule conjunct1, rule conjunct2)
  have "b < wf_version w'" if "w' \<in> set (cd_workflows u)" "wf_id w' = wid" for w'
    using txn_workflows(1) [OF commit.hyps(3) t(1)] that t(2) by fastforce
  with txn_workflows(2) [OF commit.hyps(3)] t(1) show ?case by blast
qed simp

text \<open>
  C20. No edit is lost: once a save from some version of a canvas succeeded, no other save from that
  version ever does, whatever else happens to the canvas, however old the copy it was read from.
\<close>

theorem stale_save_is_refused:
  assumes "save flen now s t wid user v name graph = Inr (v', u)" and "interleaved canvas_txn u u2"
    and "distinct (map wf_id (cd_workflows t))"
  shows "\<exists>e. save flen2 now2 s2 u2 wid user2 v name2 graph2 = Inl e"
proof -
  let ?P = "\<lambda>w. wf_id w = wid \<and> wf_version w = v \<and> wf_deleted_at w = None"
  obtain f where u: "cd_workflows u = update_where ?P f (cd_workflows t)"
    and f: "\<forall>w. wf_id (f w) = wf_id w \<and> wf_version (f w) = wf_version w + 1"
    and one: "affected ?P (cd_workflows t) = 1"
    using assms(1) by (rule save_Inr)
  from one obtain w where w: "w \<in> set (cd_workflows t)" "?P w" by (rule affected_oneE)
  have "inj_on wf_id (set (cd_workflows t))" using assms(3) by (simp add: distinct_map)
  then have only: "x = w" if "x \<in> set (cd_workflows t)" "wf_id x = wid" for x
    using that w by (auto dest: inj_onD)
  have "f w \<in> set (cd_workflows u)" unfolding u using w by (rule update_where_hit)
  then have "wf_id (f w) \<in> wf_id ` set (cd_workflows u)" by (rule imageI)
  then have "wid \<in> wf_id ` set (cd_workflows u)" using f w(2) by simp
  moreover have "\<forall>x \<in> set (cd_workflows u). wf_id x = wid \<longrightarrow> v < wf_version x"
  proof (intro ballI impI)
    fix x assume x: "x \<in> set (cd_workflows u)" "wf_id x = wid"
    from x(1) show "v < wf_version x" unfolding u
    proof (rule set_update_whereE)
      show "v < wf_version x" if "?P y" "x = f y" for y using f that by simp
      show "v < wf_version x" if "x \<in> set (cd_workflows t)" "\<not> ?P x" using only [OF that(1) x(2)] that(2) w(2) by simp
    qed
  qed
  ultimately have "\<forall>x \<in> set (cd_workflows u2). wf_id x = wid \<longrightarrow> v < wf_version x"
    using version_floor [OF assms(2)] by blast
  then have none: "filter ?P (cd_workflows u2) = []" by (auto simp: filter_empty_conv)
  have "affected ?P (cd_workflows u2) \<noteq> 1" unfolding affected_def none by simp
  then have "\<not> (\<exists>r u'. save flen2 now2 s2 u2 wid user2 v name2 graph2 = Inr (r, u'))"
    by (auto elim: save_Inr)
  then show ?thesis by (cases "save flen2 now2 s2 u2 wid user2 v name2 graph2") auto
qed

theorem stale_save_is_refused_witness:
  "\<exists>u e. save sample_flen 7 demo_db demo_db ''w1'' None 1 (Some ''a'') None = Inr (2, u) \<and>
     save sample_flen 8 demo_db u ''w1'' None 1 (Some ''b'') None = Inl e"
proof -
  define result where "result = save sample_flen 7 demo_db demo_db ''w1'' None 1 (Some ''a'') None"
  have "\<not> isl result \<and> fst (projr result) = 2" unfolding result_def by code_simp
  then obtain u where u: "save sample_flen 7 demo_db demo_db ''w1'' None 1 (Some ''a'') None = Inr (2, u)"
    unfolding result_def [symmetric] by (cases result) auto
  have "distinct (map wf_id (cd_workflows demo_db))" by code_simp
  with stale_save_is_refused [OF u interleaved.start] u show ?thesis by blast
qed

lemma cancel_idle:
  assumes "get_run u rid \<noteq> None" and "\<forall>x \<in> set (cd_runs u). run_id x = rid \<longrightarrow> \<not> active (run_status x)"
  shows "cancel now u rid = Inr ([], u)"
proof -
  let ?P = "\<lambda>r. run_id r = rid \<and> active (run_status r)"
  have none: "filter ?P (cd_runs u) = []" using assms(2) by (auto simp: filter_empty_conv)
  have "affected ?P (cd_runs u) = 0" by (simp add: affected_def none)
  then have "update_where ?P f (cd_runs u) = cd_runs u" for f by (rule update_where_none)
  then have "cancel_run_rows reason now u rid = (False, u)" for reason
    by (simp add: cancel_run_rows_def update_runs_def Let_def affected_def none)
  with assms(1) show ?thesis by (auto simp: cancel_def Let_def)
qed

text \<open>The jobs of the running nodes of a run, and the state its cancellation leaves.\<close>

definition running_jobs :: "canvas_db \<Rightarrow> string \<Rightarrow> string list" where
  "running_jobs t rid = map (\<lambda>n. the (nr_job_id n)) (filter (\<lambda>n. nr_run_id n = rid \<and> nr_status n = RUNNING \<and>
     \<not> py_falsy (nr_job_id n)) (cd_node_runs t))"

definition cancelled :: "int \<Rightarrow> canvas_db \<Rightarrow> string \<Rightarrow> canvas_db" where
  "cancelled now t rid = t\<lparr>
     cd_runs := update_where (\<lambda>r. run_id r = rid \<and> active (run_status r))
       (\<lambda>r. r\<lparr>run_status := RUN_CANCELLED, run_cancel_requested := Some now, run_finished := Some now,
          run_error := Some (take 1000 ''stopped by the user''), run_claim_token := None, run_claim_expires := None\<rparr>) (cd_runs t),
     cd_node_runs := update_where (\<lambda>n. nr_run_id n = rid \<and> (nr_status n = PENDING \<or> nr_status n = RUNNING))
       (\<lambda>n. (ended now ''RUN_CANCELLED'' (take 1000 ''stopped by the user'') n)\<lparr>nr_status := NODE_CANCELLED\<rparr>)
       (cd_node_runs t)\<rparr>"

lemma running_jobs_set:
  "set (running_jobs t rid) = {j. j \<noteq> '''' \<and> (\<exists>n \<in> set (cd_node_runs t). nr_run_id n = rid \<and>
     nr_status n = RUNNING \<and> nr_job_id n = Some j)}"
  by (force simp: running_jobs_def py_falsy_def image_iff)

lemma cancel_active:
  assumes "canvas_inv t" and "r \<in> set (cd_runs t)" and "run_id r = rid" and "active (run_status r)"
  shows "cancel now t rid = Inr (running_jobs t rid, cancelled now t rid)" and "get_run (cancelled now t rid) rid \<noteq> None"
proof -
  let ?P = "\<lambda>r. run_id r = rid \<and> active (run_status r)"
  have "affected ?P (cd_runs t) \<le> 1"
    by (rule affected_key_le_one [where k = run_id and c = rid]) (use assms(1) in \<open>simp_all add: canvas_inv_def\<close>)
  moreover have "filter ?P (cd_runs t) \<noteq> []" using assms(2-4) by (auto simp: filter_empty_conv)
  ultimately have hit: "affected ?P (cd_runs t) = 1" by (auto simp: affected_def le_Suc_eq)
  moreover obtain x where "get_run t rid = Some x"
    using assms(2,3) row_where_hit [of r "cd_runs t" "\<lambda>r. run_id r = rid"] by (auto simp: get_run_def)
  ultimately show "cancel now t rid = Inr (running_jobs t rid, cancelled now t rid)"
    unfolding cancel_def cancel_run_rows_def update_runs_def Let_def cancelled_def running_jobs_def by simp
  have "map run_id (cd_runs (cancelled now t rid)) = map run_id (cd_runs t)"
    unfolding cancelled_def by (simp add: update_where_def)
  then have same: "set (map run_id (cd_runs (cancelled now t rid))) = set (map run_id (cd_runs t))" by (rule arg_cong)
  have "rid \<in> set (map run_id (cd_runs (cancelled now t rid)))"
    unfolding same using assms(2) by (simp add: assms(3) [symmetric])
  then obtain y where "y \<in> set (cd_runs (cancelled now t rid))" "run_id y = rid" unfolding set_map by blast
  then show "get_run (cancelled now t rid) rid \<noteq> None"
    using row_where_hit [of y _ "\<lambda>r. run_id r = rid"] by (auto simp: get_run_def)
qed

lemma cancelled_rows:
  "\<forall>x \<in> set (cd_runs (cancelled now t rid)). run_id x = rid \<longrightarrow> \<not> active (run_status x)"
  "\<forall>n \<in> set (cd_node_runs (cancelled now t rid)). nr_run_id n = rid \<longrightarrow> terminal (nr_status n)"
  "filter (\<lambda>n. nr_run_id n \<noteq> rid) (cd_node_runs (cancelled now t rid)) = filter (\<lambda>n. nr_run_id n \<noteq> rid) (cd_node_runs t)"
proof -
  show "\<forall>x \<in> set (cd_runs (cancelled now t rid)). run_id x = rid \<longrightarrow> \<not> active (run_status x)"
  proof (intro ballI impI)
    fix x assume "x \<in> set (cd_runs (cancelled now t rid))" "run_id x = rid"
    then show "\<not> active (run_status x)"
      unfolding cancelled_def by (simp, elim set_update_whereE) (simp_all add: active_def)
  qed
  show "\<forall>n \<in> set (cd_node_runs (cancelled now t rid)). nr_run_id n = rid \<longrightarrow> terminal (nr_status n)"
  proof (intro ballI impI)
    fix n assume "n \<in> set (cd_node_runs (cancelled now t rid))" "nr_run_id n = rid"
    then show "terminal (nr_status n)"
      unfolding cancelled_def by (simp, elim set_update_whereE) (simp_all add: node_statuses)
  qed
  have kept: "filter (\<lambda>n. nr_run_id n \<noteq> rid) (update_where P g rows) = filter (\<lambda>n. nr_run_id n \<noteq> rid) rows"
    if "\<And>n. P n \<Longrightarrow> nr_run_id n = rid \<and> nr_run_id (g n) = rid" for P g rows
    using that by (induction rows) auto
  show "filter (\<lambda>n. nr_run_id n \<noteq> rid) (cd_node_runs (cancelled now t rid)) =
      filter (\<lambda>n. nr_run_id n \<noteq> rid) (cd_node_runs t)"
    unfolding cancelled_def by simp (rule kept, simp add: ended_keeps)
qed

text \<open>
  Stopping a run ends it and every node of it, touches no other run's nodes, hands back exactly
  the jobs its running nodes had when it was still active, and does nothing the second time.
\<close>

theorem cancel_stops_the_run:
  assumes "canvas_inv t" and "get_run t rid = Some r"
  shows "\<exists>jobs u. cancel now t rid = Inr (jobs, u) \<and> (\<forall>x \<in> set (cd_runs u). run_id x = rid \<longrightarrow> \<not> active (run_status x)) \<and>
    (\<forall>n \<in> set (cd_node_runs u). nr_run_id n = rid \<longrightarrow> terminal (nr_status n)) \<and>
    filter (\<lambda>n. nr_run_id n \<noteq> rid) (cd_node_runs u) = filter (\<lambda>n. nr_run_id n \<noteq> rid) (cd_node_runs t) \<and>
    set jobs = (if active (run_status r) then {j. j \<noteq> '''' \<and> (\<exists>n \<in> set (cd_node_runs t). nr_run_id n = rid \<and>
      nr_status n = RUNNING \<and> nr_job_id n = Some j)} else {}) \<and>
    (\<forall>now'. cancel now' u rid = Inr ([], u))"
proof -
  have r: "r \<in> set (cd_runs t)" "run_id r = rid" using get_run_SomeD [OF assms(2)] by auto
  show ?thesis
  proof (cases "active (run_status r)")
    case False
    have "inj_on run_id (set (cd_runs t))" using assms(1) by (simp add: canvas_inv_def distinct_map)
    then have "\<forall>x \<in> set (cd_runs t). run_id x = rid \<longrightarrow> \<not> active (run_status x)"
      using r False by (auto dest: inj_onD)
    moreover have "\<forall>n \<in> set (cd_node_runs t). nr_run_id n = rid \<longrightarrow> terminal (nr_status n)"
      using inv_pair [OF assms(1) r(1)] r(2) False by (auto simp: run_nodes_ok_def)
    ultimately show ?thesis
      using cancel_idle [of t] assms(2) False by (intro exI [where x = "[]"] exI [where x = t]) simp
  next
    case True
    note rows = cancelled_rows [where now = now and t = t and rid = rid] and stop = cancel_active [OF assms(1) r True, where now = now]
    have "\<forall>now'. cancel now' (cancelled now t rid) rid = Inr ([], cancelled now t rid)"
      using cancel_idle stop(2) rows(1) by blast
    with stop(1) rows True show ?thesis
      by (intro exI [where x = "running_jobs t rid"] exI [where x = "cancelled now t rid"])
        (simp add: running_jobs_set)
  qed
qed

theorem cancel_stops_the_run_witness:
  "\<exists>jobs u. cancel 5 demo_db ''r1'' = Inr (jobs, u) \<and> set jobs = {j. j \<noteq> '''' \<and> (\<exists>n \<in> set (cd_node_runs demo_db).
     nr_run_id n = ''r1'' \<and> nr_status n = RUNNING \<and> nr_job_id n = Some j)} \<and> cancel 6 u ''r1'' = Inr ([], u)"
proof -
  have run: "get_run demo_db ''r1'' = Some (demo_run ''r1'' ''w1'' RUN_RUNNING)"
    by (simp add: get_run_def demo_db_def demo_run_def)
  have "active (run_status (demo_run ''r1'' ''w1'' RUN_RUNNING))" by (simp add: demo_run_def active_def)
  with cancel_stops_the_run [OF demo_canvas_inv run, of 5] show ?thesis by (simp only: if_True) blast
qed

end
