(* ===== verification/Execution_Duration.thy ===== *)
theory Execution_Duration
  imports Platform_Domain Python_Float
begin

text \<open>
  Execution length of a shot, \<^verbatim>\<open>core/model-registry/model_registry_core/duration.py\<close>, and
  the envelope the router passes to it (\<^verbatim>\<open>_mode_declaration\<close>, \<^verbatim>\<open>_duration_bounds\<close>
  and \<^verbatim>\<open>_execution_plan\<close> of \<^verbatim>\<open>router.py\<close>). A length is a finite float. The
  metadata comes from a JSON column, whose numbers are finite. The text of
  \<^verbatim>\<open>ExecutionDurationPlan.detail\<close> is left out.
\<close>

section \<open>The plan\<close>

datatype duration_strategy = EXACT | SNAP_UP | SPLIT_SHOT

record execution_plan =
  ep_requested :: rat
  ep_strategy :: duration_strategy
  ep_execution :: rat
  ep_segments :: "rat list"

datatype duration_error = DurationOverflow | DurationZeroDivision | GeneratorStopped

definition runnable :: "execution_plan \<Rightarrow> bool" where
  "runnable p \<longleftrightarrow> ep_strategy p \<noteq> SPLIT_SHOT"

definition max_double_bound :: rat where
  "max_double_bound = 2 ^ 1024"

text \<open>\<^verbatim>\<open>float(item)\<close> of a number; a boolean counts as a number here.\<close>

definition json_float :: "json \<Rightarrow> duration_error + rat" where
  "json_float v =
     (case v of
        JInt n \<Rightarrow> if \<bar>fl (of_int n)\<bar> \<ge> max_double_bound then Inl DurationOverflow else Inr (fl (of_int n))
      | JFloat (Finite r) \<Rightarrow> Inr r
      | JBool b \<Rightarrow> Inr (if b then 1 else 0)
      | _ \<Rightarrow> Inr 0)"

definition json_is_number :: "json \<Rightarrow> bool" where
  "json_is_number v = (case v of JInt _ \<Rightarrow> True | JFloat _ \<Rightarrow> True | JBool _ \<Rightarrow> True | _ \<Rightarrow> False)"

definition outside :: "rat option \<Rightarrow> rat option \<Rightarrow> rat \<Rightarrow> bool" where
  "outside lo hi v \<longleftrightarrow> (case lo of None \<Rightarrow> False | Some l \<Rightarrow> v < l) \<or> (case hi of None \<Rightarrow> False | Some h \<Rightarrow> v > h)"

fun legal_loop :: "json list \<Rightarrow> rat option \<Rightarrow> rat option \<Rightarrow> rat list \<Rightarrow> duration_error + rat list" where
  "legal_loop [] lo hi values = Inr values"
| "legal_loop (item # items) lo hi values =
     (if (case item of JBool _ \<Rightarrow> True | _ \<Rightarrow> False) \<or> \<not> json_is_number item
      then legal_loop items lo hi values
      else res_bind (json_float item) (\<lambda>v.
        if v \<le> 0 \<or> outside lo hi v \<or> v \<in> set values then legal_loop items lo hi values
        else legal_loop items lo hi (values @ [v])))"

definition legal_durations :: "json list \<Rightarrow> rat option \<Rightarrow> rat option \<Rightarrow> duration_error + rat list" where
  "legal_durations supported lo hi = res_bind (legal_loop supported lo hi []) (\<lambda>values. Inr (sort values))"

text \<open>\<^verbatim>\<open>max(2, math.ceil(wanted / ceiling))\<close>.\<close>

definition segment_count :: "rat \<Rightarrow> rat \<Rightarrow> duration_error + int" where
  "segment_count wanted ceil =
     (if ceil = 0 then Inl DurationZeroDivision
      else if \<bar>fl (wanted / ceil)\<bar> \<ge> max_double_bound then Inl DurationOverflow
      else Inr (max 2 \<lceil>fl (wanted / ceil)\<rceil>))"

text \<open>
  \<^verbatim>\<open>next(...)\<close> over an exhausted generator inside the generator expression is a
  \<^verbatim>\<open>RuntimeError\<close>.
\<close>

definition split_legal :: "rat \<Rightarrow> rat list \<Rightarrow> duration_error + execution_plan" where
  "split_legal wanted legal =
     res_bind (segment_count wanted (last legal)) (\<lambda>count.
       case find (\<lambda>v. v \<ge> fl (wanted / of_int count)) legal of
         None \<Rightarrow> Inl GeneratorStopped
       | Some v \<Rightarrow>
           let segments = replicate (nat count) v in
           Inr \<lparr>ep_requested = wanted, ep_strategy = SPLIT_SHOT,
                ep_execution = py_round (py_sum segments) 2, ep_segments = segments\<rparr>)"

definition split_range :: "rat \<Rightarrow> rat option \<Rightarrow> rat \<Rightarrow> duration_error + execution_plan" where
  "split_range wanted lo hi =
     res_bind (segment_count wanted hi) (\<lambda>count.
       let per_segment = fl (wanted / of_int count);
           per_segment = (case lo of None \<Rightarrow> per_segment | Some l \<Rightarrow> max per_segment l);
           segments = replicate (nat count) (py_round per_segment 2)
       in Inr \<lparr>ep_requested = wanted, ep_strategy = SPLIT_SHOT,
               ep_execution = py_round (py_sum segments) 2, ep_segments = segments\<rparr>)"

definition one_call :: "rat \<Rightarrow> duration_strategy \<Rightarrow> rat \<Rightarrow> execution_plan" where
  "one_call wanted s v = \<lparr>ep_requested = wanted, ep_strategy = s, ep_execution = v, ep_segments = [v]\<rparr>"

definition plan_execution_duration ::
  "rat \<Rightarrow> rat option \<Rightarrow> rat option \<Rightarrow> json list option \<Rightarrow> duration_error + execution_plan" where
  "plan_execution_duration wanted lo hi supported =
     res_bind (legal_durations (case supported of None \<Rightarrow> [] | Some items \<Rightarrow> items) lo hi) (\<lambda>legal.
       if legal \<noteq> [] then
         (if wanted \<in> set legal then Inr (one_call wanted EXACT wanted)
          else case filter (\<lambda>v. v \<ge> wanted) legal of
            chosen # _ \<Rightarrow> Inr (one_call wanted SNAP_UP chosen)
          | [] \<Rightarrow> split_legal wanted legal)
       else if outside lo None wanted then Inr (one_call wanted SNAP_UP (the lo))
       else (case hi of
         None \<Rightarrow> Inr (one_call wanted EXACT wanted)
       | Some h \<Rightarrow> if wanted > h then split_range wanted lo h else Inr (one_call wanted EXACT wanted)))"

section \<open>The envelope of a request\<close>

datatype task_type = T2V | I2V | R2V | V2V | T2I | I2I | R2I | ANY_TASK

record duration_profile =
  dp_min :: "rat option"
  dp_max :: "rat option"
  dp_metadata :: "(string \<times> json) list"

fun mode_keys :: "task_type \<Rightarrow> string list" where
  "mode_keys V2V = [''v2v'', ''r2v'']"
| "mode_keys T2V = [''t2v'']"
| "mode_keys I2V = [''i2v'']"
| "mode_keys R2V = [''r2v'']"
| "mode_keys T2I = [''t2i'']"
| "mode_keys I2I = [''i2i'']"
| "mode_keys R2I = [''r2i'']"
| "mode_keys ANY_TASK = [''any'']"

fun first_object :: "(string \<times> json) list \<Rightarrow> string list \<Rightarrow> (string \<times> json) list option" where
  "first_object modes [] = None"
| "first_object modes (k # ks) =
     (case json_get modes k of JObj d \<Rightarrow> Some d | _ \<Rightarrow> first_object modes ks)"

definition mode_declaration :: "duration_profile \<Rightarrow> task_type \<Rightarrow> (string \<times> json) list option" where
  "mode_declaration profile t =
     (case json_get (dp_metadata profile) ''modes'' of
        JObj modes \<Rightarrow> first_object modes (mode_keys t)
      | _ \<Rightarrow> None)"

text \<open>A declared number replaces the bound, anything else leaves it.\<close>

definition declared_bound ::
  "(string \<times> json) list \<Rightarrow> string \<Rightarrow> rat option \<Rightarrow> duration_error + rat option" where
  "declared_bound declaration key bound =
     (if json_is_number (json_get declaration key)
      then res_bind (json_float (json_get declaration key)) (\<lambda>v. Inr (Some v))
      else Inr bound)"

definition json_list :: "json \<Rightarrow> json list option" where
  "json_list v = (case v of JList items \<Rightarrow> Some items | _ \<Rightarrow> None)"

definition duration_bounds ::
  "duration_profile \<Rightarrow> bool \<Rightarrow> task_type \<Rightarrow>
   duration_error + rat option \<times> rat option \<times> json list option" where
  "duration_bounds profile requires_reference_video t =
     (let supported = json_get (dp_metadata profile) ''supported_durations'' in
      case mode_declaration profile t of
        None \<Rightarrow> Inr (dp_min profile, dp_max profile, json_list supported)
      | Some d \<Rightarrow>
          res_bind (declared_bound d ''min_duration'' (dp_min profile)) (\<lambda>minimum.
          res_bind (declared_bound d ''max_duration'' (dp_max profile)) (\<lambda>maximum.
          res_bind (if requires_reference_video
                    then declared_bound d ''max_duration_with_reference_video'' maximum
                    else Inr maximum) (\<lambda>maximum.
            Inr (minimum, maximum,
                 json_list (case json_get d ''supported_durations'' of JList items \<Rightarrow> JList items | _ \<Rightarrow> supported))))))"

definition execution_plan_for ::
  "duration_profile \<Rightarrow> rat \<Rightarrow> bool \<Rightarrow> task_type \<Rightarrow> duration_error + execution_plan" where
  "execution_plan_for profile duration requires_reference_video t =
     res_bind (duration_bounds profile requires_reference_video t) (\<lambda>(minimum, maximum, supported).
       plan_execution_duration duration minimum maximum supported)"

section \<open>Rounding of whole seconds\<close>

lemma sum_loop_exact:
  assumes "set xs \<subseteq> of_int ` {0 .. m}" and "0 \<le> a" and "a + int (length xs) * m < 2 ^ 53"
  shows "sum_loop xs (of_int a) 0 = of_int a + sum_list xs"
  using assms
proof (induction xs arbitrary: a)
  case (Cons x xs)
  then obtain n where n: "x = of_int n" "0 \<le> n" "n \<le> m" by auto
  have bound: "a + n + int (length xs) * m < 2 ^ 53" using Cons.prems(3) n(3) by (simp add: algebra_simps)
  have "0 \<le> m" using n by simp
  then have "0 \<le> int (length xs) * m" by simp
  then have small: "a + n < 2 ^ 53" using bound by linarith
  have t: "fl (of_int a + x) = of_int (a + n)" using fl_of_int [of "a + n"] n Cons.prems(2) small by simp
  have zero: "fl (fl (of_int a - of_int (a + n)) + x) = 0" "fl (fl (x - of_int (a + n)) + of_int a) = 0"
    using fl_neg_of_int [of n] fl_neg_of_int [of a] n Cons.prems(2) small by simp_all
  have "sum_loop (x # xs) (of_int a) 0 = sum_loop xs (of_int (a + n)) 0"
    by (simp add: t zero Let_def del: of_int_add)
  also have "\<dots> = of_int (a + n) + sum_list xs"
    using Cons.prems n bound by (intro Cons.IH) auto
  finally show ?case using n by simp
qed simp

abbreviation seconds :: "int set" where
  "seconds \<equiv> {1 .. 1000000}"

lemma ceiling_fl_quotient:
  assumes "a \<in> seconds" and "b \<in> seconds"
  shows "\<lceil>fl (of_int a / of_int b)\<rceil> = \<lceil>of_int a / (of_int b :: rat)\<rceil>"
proof (rule ceiling_unique)
  let ?x = "of_int a / (of_int b :: rat)"
  have pos: "0 < ?x" using assms by simp
  have "?x \<le> of_int a" using assms by (simp add: divide_le_eq)
  define k where "k = \<lceil>?x\<rceil>"
  have "k \<le> a" unfolding k_def using \<open>?x \<le> of_int a\<close> by (simp only: ceiling_le_iff)
  moreover have "0 < k" unfolding k_def using pos by (simp only: zero_less_ceiling)
  ultimately have m: "0 \<le> k - 1" "k - 1 \<le> 1000000" "0 \<le> k" "k \<le> 1000000" using assms(1) by simp_all
  have "of_int (k - 1) < ?x" using ceiling_correct [of ?x] by (simp add: k_def)
  then show "of_int \<lceil>?x\<rceil> - 1 < fl ?x"
    using fl_quotient(1) [of a b "k - 1"] assms m by (simp add: k_def)
  have "?x \<le> of_int k" unfolding k_def by (rule le_of_int_ceiling)
  then show "fl ?x \<le> of_int \<lceil>?x\<rceil>"
    unfolding k_def [symmetric] using fl_quotient(2,3) [of a b k] assms m by (cases "?x = of_int k") simp_all
qed

lemma json_float_seconds:
  assumes "n \<in> seconds"
  shows "json_float (JInt n) = Inr (of_int n)"
proof -
  have "fl (of_int n) = of_int n" using assms by (intro fl_of_int) simp_all
  moreover have "(of_int n :: rat) < of_int (2 ^ 1024)" using assms by (subst of_int_less_iff) simp
  ultimately show ?thesis using assms by (simp add: json_float_def max_double_bound_def)
qed

lemma legal_loop_seconds:
  assumes "set ns \<subseteq> seconds" and "set vs \<subseteq> seconds"
  shows "\<exists>vs'. legal_loop (map JInt ns) lo hi (map of_int vs) = Inr (map of_int vs') \<and> set vs' \<subseteq> seconds"
  using assms
proof (induction ns arbitrary: vs)
  case (Cons n ns)
  have n: "n \<in> seconds" using Cons.prems(1) by simp
  have ns: "set ns \<subseteq> seconds" using Cons.prems(1) by simp
  have append: "map of_int vs @ [of_int n] = map of_int (vs @ [n])" "set (vs @ [n]) \<subseteq> seconds"
    using n Cons.prems(2) by simp_all
  show ?case
    using Cons.IH [OF ns Cons.prems(2)] Cons.IH [OF ns append(2)] json_float_seconds [OF n]
    by (simp add: json_is_number_def append(1) del: append_Cons map_append)
qed auto

lemma legal_durations_seconds:
  assumes "set ns \<subseteq> seconds"
  shows "\<exists>legal. legal_durations (map JInt ns) lo hi = Inr legal \<and> set legal \<subseteq> of_int ` seconds"
proof -
  from legal_loop_seconds [OF assms, of "[]" lo hi] obtain vs where
    "legal_loop (map JInt ns) lo hi [] = Inr (map of_int vs)" "set vs \<subseteq> seconds" by auto
  then show ?thesis by (auto simp: legal_durations_def)
qed

lemma py_sum_seconds:
  assumes "v \<in> seconds" and "int n \<le> 1000000"
  shows "py_round (py_sum (replicate n (of_int v))) 2 = sum_list (replicate n (of_int v))"
proof -
  have "int n * 1000000 \<le> 1000000 * 1000000" using assms(2) by (intro mult_right_mono) simp_all
  then have "py_sum (replicate n (of_int v)) = sum_list (replicate n (of_int v))"
    using sum_loop_exact [of "replicate n (of_int v)" 1000000 0] assms(1) by (simp add: py_sum_def set_replicate_conv_if)
  moreover have "sum_list (replicate n (of_int v :: rat)) = of_int (int n * v)" by (simp add: sum_list_replicate)
  moreover have "int n * v \<le> 1000000 * 1000000" using assms by (intro mult_mono) simp_all
  then have "fl (of_int (int n * v)) = of_int (int n * v)" using assms(1) by (intro fl_of_int) simp_all
  moreover have "of_int (int n * v) * 10 ^ 2 = (of_int (int n * v * 100) :: rat)" by simp
  then have "round_half_even (of_int (int n * v) * 10 ^ 2) = int n * v * 100"
    by (simp only: round_half_even_of_int)
  ultimately show ?thesis by (simp add: py_round_def)
qed
lemma split_legal_seconds:
  assumes "w \<in> seconds" and legal: "set legal \<subseteq> of_int ` seconds" and "legal \<noteq> []"
    and less: "\<forall>v \<in> set legal. v < of_int w"
  shows "\<exists>p. split_legal (of_int w) legal = Inr p \<and> ep_strategy p = SPLIT_SHOT \<and> set (ep_segments p) \<subseteq> set legal \<and>
    of_int w \<le> sum_list (ep_segments p) \<and> ep_execution p = sum_list (ep_segments p)"
proof -
  from assms(3) have last: "last legal \<in> set legal" by simp
  with legal less obtain c where c: "last legal = of_int c" "c \<in> seconds" "c < w" by fastforce
  let ?x = "of_int w / (of_int c :: rat)"
  define k where "k = \<lceil>fl ?x\<rceil>"
  have k: "k = \<lceil>?x\<rceil>" unfolding k_def using assms(1) c(2) by (rule ceiling_fl_quotient)
  have x: "?x \<le> of_int k" unfolding k by (rule le_of_int_ceiling)
  have "?x \<le> of_int w" using assms(1) c(2) by (simp add: divide_le_eq)
  then have "k \<le> w" unfolding k by (simp only: ceiling_le_iff)
  have "1 < ?x" using c by simp
  then have "2 \<le> k" using less_le_trans [OF _ x, of 1] by simp
  have "fl ?x \<le> of_int k" unfolding k_def by (rule le_of_int_ceiling)
  moreover have "of_int k - 1 < fl ?x" unfolding k_def using ceiling_correct [of "fl ?x"] by simp
  moreover have "(of_int k :: rat) < of_int (2 ^ 1024)" using \<open>k \<le> w\<close> assms(1) by (subst of_int_less_iff) simp
  moreover have "(1 :: rat) \<le> of_int k" using \<open>2 \<le> k\<close> by simp
  ultimately have "\<not> \<bar>fl ?x\<bar> \<ge> max_double_bound" unfolding max_double_bound_def abs_le_iff by simp
  then have count: "segment_count (of_int w) (of_int c) = Inr k"
    using c(2) \<open>2 \<le> k\<close> by (simp add: segment_count_def k_def [symmetric])
  have ks: "k \<in> seconds" using \<open>2 \<le> k\<close> \<open>k \<le> w\<close> assms(1) by simp
  have "of_int w / of_int k \<le> (of_int c :: rat)" using x ks c(2) by (simp add: divide_le_eq mult.commute)
  then have "fl (of_int w / of_int k) \<le> of_int c"
    using fl_quotient(2,3) [of w k c] assms(1) ks c(2) by (cases "of_int w / of_int k = (of_int c :: rat)") simp_all
  then have "last legal \<in> set legal \<and> last legal \<ge> fl (of_int w / of_int k)" using last c(1) by simp
  then obtain v where find: "find (\<lambda>v. v \<ge> fl (of_int w / of_int k)) legal = Some v"
    by (cases "find (\<lambda>v. v \<ge> fl (of_int w / of_int k)) legal") (auto simp: find_None_iff)
  then have v: "v \<in> set legal" "fl (of_int w / of_int k) \<le> v" by (auto simp: find_Some_iff in_set_conv_nth)
  with legal obtain n where n: "v = of_int n" "n \<in> seconds" by auto
  have "of_int w / of_int k \<le> (of_int n :: rat)"
    using fl_quotient(1) [of w k n] assms(1) ks n v(2) by (simp add: not_less [symmetric]) argo
  then have "of_int w \<le> (of_int k * of_int n :: rat)" using ks by (simp add: divide_le_eq mult.commute)
  moreover have "py_round (py_sum (replicate (nat k) (of_int n))) 2 = sum_list (replicate (nat k) (of_int n))"
    using n(2) ks by (intro py_sum_seconds) simp_all
  ultimately show ?thesis
    using count find c(1) n ks v(1) by (simp add: split_legal_def Let_def sum_list_replicate)
qed

section \<open>Fitting lengths\<close>

definition fits :: "rat option \<Rightarrow> rat option \<Rightarrow> rat list \<Rightarrow> rat \<Rightarrow> bool" where
  "fits lo hi legal v \<longleftrightarrow> (if legal = [] then \<not> outside lo hi v else v \<in> set legal)"

lemma legal_sorted: "legal_durations supported lo hi = Inr legal \<Longrightarrow> sorted legal"
  by (auto simp: legal_durations_def res_simps)

lemma filter_least:
  assumes "sorted vs" and "filter (\<lambda>v. v \<ge> w) vs = c # cs"
  shows "c \<in> set vs \<and> w \<le> c \<and> (\<forall>v \<in> set vs. w \<le> v \<longrightarrow> c \<le> v)"
proof -
  have "sorted (c # cs)" unfolding assms(2) [symmetric] using assms(1) by (rule sorted_wrt_filter)
  moreover have "set (c # cs) = {v \<in> set vs. w \<le> v}" unfolding assms(2) [symmetric] by auto
  ultimately show ?thesis by auto
qed

lemma split_strategy:
  "split_legal w legal = Inr p \<Longrightarrow> ep_strategy p = SPLIT_SHOT"
  "split_range w lo h = Inr p \<Longrightarrow> ep_strategy p = SPLIT_SHOT"
  by (auto simp: split_legal_def split_range_def res_simps Let_def split: option.split_asm)

section \<open>Claims\<close>

text \<open>
  C35. One provider call runs the shortest length that fits: when the plan is EXACT or SNAP_UP, its
  single segment is a declared length (or, without declared lengths, one inside the range), it is not
  shorter than the request, and no fitting length at or above the request is shorter; it is EXACT
  exactly when it equals the request. When the plan is SPLIT_SHOT, every fitting length is shorter
  than the request.
\<close>

theorem plan_is_least_fitting_length:
  assumes "legal_durations (case supported of None \<Rightarrow> [] | Some items \<Rightarrow> items) lo hi = Inr legal"
    and "case (lo, hi) of (Some l, Some h) \<Rightarrow> l \<le> h | _ \<Rightarrow> True"
    and "plan_execution_duration wanted lo hi supported = Inr p"
  shows "if runnable p
    then ep_segments p = [ep_execution p] \<and> fits lo hi legal (ep_execution p) \<and> wanted \<le> ep_execution p \<and>
      (\<forall>v. fits lo hi legal v \<and> wanted \<le> v \<longrightarrow> ep_execution p \<le> v) \<and>
      (ep_strategy p = EXACT \<longleftrightarrow> ep_execution p = wanted)
    else \<forall>v. fits lo hi legal v \<longrightarrow> v < wanted"
proof (cases "legal = []")
  case False
  note plan = assms(3) [unfolded plan_execution_duration_def assms(1), simplified, simplified False, simplified]
  show ?thesis
  proof (cases "wanted \<in> set legal")
    case True
    with plan False show ?thesis by (auto simp: runnable_def one_call_def fits_def)
  next
    case absent: False
    show ?thesis
    proof (cases "filter (\<lambda>v. v \<ge> wanted) legal")
      case Nil
      with plan absent False have "split_legal wanted legal = Inr p" by simp
      moreover have "\<forall>v \<in> set legal. v < wanted" using Nil by (simp add: filter_empty_conv not_le)
      ultimately show ?thesis using False split_strategy(1) by (auto simp: runnable_def fits_def)
    next
      case (Cons c cs)
      have "c \<in> set legal \<and> wanted \<le> c \<and> (\<forall>v \<in> set legal. wanted \<le> v \<longrightarrow> c \<le> v)"
        using legal_sorted [OF assms(1)] Cons by (rule filter_least)
      moreover have "p = one_call wanted SNAP_UP c" using plan absent False Cons by simp
      ultimately show ?thesis using False absent by (auto simp: runnable_def one_call_def fits_def)
    qed
  qed
next
  case True
  note plan = assms(3) [unfolded plan_execution_duration_def assms(1), simplified, simplified True, simplified]
  show ?thesis
    using plan True assms(2) split_strategy(2)
    by (auto simp: runnable_def one_call_def fits_def outside_def split: option.split_asm if_split_asm)
qed
theorem plan_is_least_fitting_length_witness:
  "plan_execution_duration 5 None None (Some (map JInt [4, 6, 8])) = Inr (one_call 5 SNAP_UP 6) \<and> (5 :: rat) \<le> 6"
proof
  have legal: "legal_durations (map JInt [4, 6, 8]) None None = Inr [4, 6, 8]"
    by (simp add: legal_durations_def json_is_number_def json_float_seconds outside_def)
  then show plan: "plan_execution_duration 5 None None (Some (map JInt [4, 6, 8])) = Inr (one_call 5 SNAP_UP 6)"
    by (simp add: plan_execution_duration_def)
  from plan_is_least_fitting_length [of "Some (map JInt [4, 6, 8])" None None, OF _ _ plan] legal
  show "(5 :: rat) \<le> 6" by (simp add: runnable_def one_call_def)
qed

text \<open>
  C36. For whole seconds (requests and declared lengths between one and a million) a plan always
  exists, every segment is a declared length, the segments together are at least as long as the
  request, and the execution length is their exact sum.
\<close>

theorem whole_second_plan_covers_request:
  assumes "w \<in> {1 .. 1000000}" and "set ns \<subseteq> {1 .. 1000000}"
    and "legal_durations (map JInt ns) lo hi = Inr legal" and "legal \<noteq> []"
  shows "\<exists>p. plan_execution_duration (of_int w) lo hi (Some (map JInt ns)) = Inr p \<and>
    set (ep_segments p) \<subseteq> set legal \<and> of_int w \<le> sum_list (ep_segments p) \<and>
    ep_execution p = sum_list (ep_segments p)"
proof -
  have ints: "set legal \<subseteq> of_int ` seconds" using legal_durations_seconds [OF assms(2), of lo hi] assms(3) by auto
  let ?longer = "filter (\<lambda>v. v \<ge> of_int w) legal"
  have plan: "plan_execution_duration (of_int w) lo hi (Some (map JInt ns)) =
      (if of_int w \<in> set legal then Inr (one_call (of_int w) EXACT (of_int w))
       else case ?longer of chosen # _ \<Rightarrow> Inr (one_call (of_int w) SNAP_UP chosen)
         | [] \<Rightarrow> split_legal (of_int w) legal)"
    using assms(3,4) by (simp add: plan_execution_duration_def)
  show ?thesis
  proof (cases "of_int w \<in> set legal")
    case True
    then show ?thesis unfolding plan by (simp add: one_call_def)
  next
    case absent: False
    show ?thesis
    proof (cases ?longer)
      case Nil
      then have "\<forall>v \<in> set legal. v < of_int w" by (simp add: filter_empty_conv not_le)
      from split_legal_seconds [OF assms(1) ints assms(4) this] show ?thesis unfolding plan using absent Nil by auto
    next
      case (Cons c cs)
      then have "c \<in> set ?longer" by simp
      then have "c \<in> set legal \<and> of_int w \<le> c" by simp
      then show ?thesis unfolding plan using absent Cons by (simp add: one_call_def)
    qed
  qed
qed

theorem whole_second_plan_covers_request_witness:
  "\<exists>p. plan_execution_duration (of_int 25) None None (Some (map JInt [4, 6, 8])) = Inr p \<and>
    set (ep_segments p) \<subseteq> {4, 6, 8} \<and> of_int 25 \<le> sum_list (ep_segments p)"
proof -
  have "legal_durations (map JInt [4, 6, 8]) None None = Inr [4, 6, 8]"
    by (simp add: legal_durations_def json_is_number_def json_float_seconds outside_def)
  from whole_second_plan_covers_request [OF _ _ this, of 25] show ?thesis by auto
qed

text \<open>The doubles nearest to 38.28, 1.16 and 8.33, and the two quotients the plan computes from them.\<close>

lemma double_literals:
  "fl (3828 / 100) = of_int 5387431054241956 / 2 ^ 47" "fl (116 / 100) = of_int 5224175567749775 / 2 ^ 52"
  "fl (25 / 3) = of_int 4691249611844267 / 2 ^ 49" "fl (833 / 100) = of_int 4689373111999529 / 2 ^ 49"
  by (rule fl_eqI; simp)+

lemma double_quotients:
  "fl ((of_int 5387431054241956 / 2 ^ 47) / (of_int 5224175567749775 / 2 ^ 52)) = of_int 4644337115725824 / 2 ^ 47"
  "fl ((of_int 5387431054241956 / 2 ^ 47) / of_int 33) = of_int 5224175567749776 / 2 ^ 52"
  by (rule fl_eqI; simp)+

text \<open>
  C37. Two requests with fractions that the rounding lets down. A request of 38.28 seconds on a model
  that declares 1.16 seconds is counted as 33 segments, whose length 38.28 / 33 rounds to just above
  1.16, so no declared length holds it and the search for one raises. A request of 25 seconds on a
  model with a ceiling of 12 seconds is planned as three segments of 8.33 seconds, which together are
  shorter than the request.
\<close>

theorem fractional_splits_fall_short:
  "plan_execution_duration (fl (3828 / 100)) None None (Some [JFloat (Finite (fl (116 / 100)))]) =
     Inl GeneratorStopped \<and>
   (\<exists>p. plan_execution_duration 25 None (Some 12) None = Inr p \<and> ep_segments p = replicate 3 (fl (833 / 100)) \<and>
      sum_list (ep_segments p) < 25)"
proof
  have "segment_count (fl (3828 / 100)) (fl (116 / 100)) = Inr 33"
    unfolding segment_count_def double_literals double_quotients max_double_bound_def by simp
  moreover have "\<not> fl (116 / 100) \<ge> fl (fl (3828 / 100) / of_int 33)"
    unfolding double_literals double_quotients by simp
  moreover have "legal_durations [JFloat (Finite (fl (116 / 100)))] None None = Inr [fl (116 / 100)]"
    "fl (3828 / 100) \<noteq> fl (116 / 100)" "\<not> fl (116 / 100) \<ge> fl (3828 / 100)"
    unfolding double_literals by (simp_all add: legal_durations_def json_is_number_def json_float_def outside_def)
  ultimately show "plan_execution_duration (fl (3828 / 100)) None None (Some [JFloat (Finite (fl (116 / 100)))]) =
      Inl GeneratorStopped"
    by (simp add: plan_execution_duration_def split_legal_def)
next
  have "\<lceil>25 / 12 :: rat\<rceil> = 3" by (rule ceiling_unique) simp_all
  then have "\<lceil>fl (of_int 25 / of_int 12)\<rceil> = 3" by (subst ceiling_fl_quotient) simp_all
  moreover have "fl (of_int 25 / of_int 12) < of_int 3" by (rule fl_quotient) simp_all
  moreover have "of_int 2 < fl (of_int 25 / of_int 12)" by (rule fl_quotient) simp_all
  ultimately have count: "segment_count 25 12 = Inr 3"
    by (simp add: segment_count_def max_double_bound_def)
  have "round_half_even (fl (25 / 3) * 10 ^ 2) = 833"
    unfolding double_literals by (rule round_half_even_eqI) simp
  then have round: "py_round (fl (25 / 3)) 2 = fl (833 / 100)" by (simp add: py_round_def)
  have "3 * fl (833 / 100) < 25" unfolding double_literals by simp
  then show "\<exists>p. plan_execution_duration 25 None (Some 12) None = Inr p \<and> ep_segments p = replicate 3 (fl (833 / 100)) \<and>
      sum_list (ep_segments p) < 25"
    using count round
    by (simp add: plan_execution_duration_def legal_durations_def outside_def split_range_def Let_def sum_list_replicate)
qed

end
