(* ===== verification/Generation_Policy.thy ===== *)
theory Generation_Policy
  imports Platform_Domain Python_Float "HOL-Library.Char_ord" "HOL-Library.List_Lexorder"
    "HOL-Library.Product_Lexorder"
begin

text \<open>
  Generation policy, \<^verbatim>\<open>core/generation-policy/generation_policy_core/engine.py\<close>:
  \<^verbatim>\<open>GenerationPolicyEngine.decide\<close> turns the continuity intent and the assets at hand into a
  policy, \<^verbatim>\<open>CapabilityResolver.resolve\<close> finds a provider that can execute it. The tables
  the code reads are lists of rows in the order the queries return them; the decision records a
  session adds are returned in a list. Floats follow \<^verbatim>\<open>Python_Float\<close>. The JSON a
  pydantic profile dumps to is the parameter \<open>model_dump\<close>.
\<close>

section \<open>Assets and decisions\<close>

datatype policy_error =
    GenerationPolicyInputError string string "string list"
  | PolicyLookupError string

record available_assets =
  aa_previous_end_frame :: "string option"
  aa_previous_video :: "string option"
  aa_start_frame :: "string option"
  aa_end_frame :: "string option"
  aa_character_references :: "string list"
  aa_scene_references :: "string list"
  aa_generic_references :: "string list"
  aa_character_binding :: bool
  aa_narrative_state :: bool
  aa_current_action_prompt :: bool
  aa_current_camera_prompt :: bool

definition available_inputs :: "available_assets \<Rightarrow> string list" where
  "available_inputs a =
     (if py_falsy (aa_previous_end_frame a) then [] else [''previous_end_frame'']) @
     (if py_falsy (aa_previous_video a) then [] else [''previous_video'']) @
     (if py_falsy (aa_start_frame a) then [] else [''start_frame'']) @
     (if py_falsy (aa_end_frame a) then [] else [''end_frame'']) @
     (if aa_character_references a = [] then [] else [''character_reference'', ''character_master'']) @
     (if aa_scene_references a = [] then [] else [''scene_reference'']) @
     (if aa_generic_references a = [] then [] else [''reference_images'']) @
     (if aa_character_binding a then [''character_binding''] else []) @
     (if aa_narrative_state a then [''narrative_state''] else []) @
     (if aa_current_action_prompt a then [''current_action_prompt'', ''shot_prompt''] else []) @
     (if aa_current_camera_prompt a then [''current_camera_prompt'', ''current_camera_state''] else [])"

record policy_decision =
  pd_policy :: string
  pd_required_inputs :: "string list"
  pd_reason_codes :: "string list"
  pd_use_previous_end_frame_as_start :: bool
  pd_require_new_keyframe :: bool

record policy_record =
  pr_project_id :: "string option"
  pr_shot_id :: "string option"
  pr_decision_type :: string
  pr_input_features :: "(string \<times> json) list"
  pr_selected_action :: string
  pr_reason_codes :: "string list"
  pr_model_version :: string
  pr_policy_version :: string

definition REANCHOR_INPUTS :: "string list" where
  "REANCHOR_INPUTS = [''character_reference'', ''scene_reference'', ''narrative_state'', ''current_camera_prompt'']"

text \<open>The chain of conditions: policy, required inputs and reasons.\<close>

definition choose_policy ::
  "string \<Rightarrow> available_assets \<Rightarrow> policy_error + string \<times> string list \<times> string list" where
  "choose_policy continuity_mode a =
     (let available = set (available_inputs a) in
      if continuity_mode = ''HARD_CONTINUITY'' then
        Inr (''CONTINUE_I2V'', [''previous_end_frame'', ''character_binding'', ''current_action_prompt''],
             [''HARD_CONTINUITY'', ''INHERIT_PREVIOUS_END_FRAME''])
      else if continuity_mode = ''HYBRID'' then
        (if {''previous_end_frame'', ''character_reference''} \<subseteq> available then
           Inr (''HYBRID_REFERENCE'', [''previous_end_frame'', ''character_reference'', ''current_camera_state'',
                  ''narrative_state'', ''shot_prompt''], [''HYBRID_CONTINUITY'', ''END_FRAME_AS_SOFT_CONTEXT''])
         else if {''character_reference'', ''scene_reference''} \<subseteq> available then
           Inr (''REANCHOR_FULL'', REANCHOR_INPUTS, [''HYBRID_CONTEXT_INCOMPLETE'', ''CANONICAL_REANCHOR_SAFER''])
         else Inl (GenerationPolicyInputError ''hybrid continuity inputs'' '''' []))
      else if continuity_mode = ''RE_ANCHOR'' then
        Inr (''REANCHOR_FULL'', REANCHOR_INPUTS,
             [''RE_ANCHOR'', ''IGNORE_PREVIOUS_END_FRAME'', ''CANONICAL_REFERENCES_REQUIRED''])
      else if \<not> py_falsy (aa_start_frame a) \<and> \<not> py_falsy (aa_end_frame a) then
        Inr (''START_END_FRAME'', [''start_frame'', ''end_frame''], [''EXPLICIT_START_AND_END_FRAMES''])
      else if \<not> py_falsy (aa_start_frame a) then
        Inr (''IMAGE_TO_VIDEO'', [''start_frame'', ''narrative_state''], [''EXPLICIT_START_FRAME''])
      else if aa_generic_references a \<noteq> [] then
        Inr (''REFERENCE_TO_VIDEO'', [''reference_images'', ''narrative_state''], [''REFERENCE_IMAGES_AVAILABLE''])
      else
        Inr (''TEXT_TO_VIDEO'', [''narrative_state'', ''current_action_prompt''], [''NO_CONTINUITY_DEPENDENCY'']))"

text \<open>\<^verbatim>\<open>sorted(set(required).difference(available))\<close>.\<close>

definition missing_inputs :: "string list \<Rightarrow> string list \<Rightarrow> string list" where
  "missing_inputs required available = sort (filter (\<lambda>i. i \<notin> set available) (remdups required))"

definition policy_version_rules :: string where
  "policy_version_rules = ''generation-policy-rules-v2''"

definition decide ::
  "string \<Rightarrow> available_assets \<Rightarrow> string option \<Rightarrow> string option \<Rightarrow> policy_error + policy_decision \<times> policy_record list" where
  "decide continuity_mode a project_id shot_id =
     res_bind (choose_policy continuity_mode a) (\<lambda>(policy, required, reasons).
       let available = available_inputs a; missing = missing_inputs required available in
       if missing \<noteq> [] then Inl (GenerationPolicyInputError ''missing required canonical inputs'' policy missing)
       else Inr
         (\<lparr>pd_policy = policy, pd_required_inputs = required, pd_reason_codes = reasons,
           pd_use_previous_end_frame_as_start = (policy = ''CONTINUE_I2V''),
           pd_require_new_keyframe = (take 9 policy = ''REANCHOR_'')\<rparr>,
          if py_falsy project_id \<and> py_falsy shot_id then []
          else [\<lparr>pr_project_id = project_id, pr_shot_id = shot_id,
            pr_decision_type = ''GENERATION_POLICY_DECISION'',
            pr_input_features = [(''continuity_mode'', JStr continuity_mode),
              (''available_inputs'', JList (map JStr (sort available))),
              (''required_inputs'', JList (map JStr required))],
            pr_selected_action = policy, pr_reason_codes = reasons, pr_model_version = policy_version_rules,
            pr_policy_version = ''generation-policy-v2''\<rparr>]))"

section \<open>Capabilities\<close>

record model_profile =
  mp_logical_name :: string
  mp_provider :: string
  mp_modality :: string
  mp_enabled :: bool
  mp_supports :: "string list"
  mp_identity_prior :: rat
  mp_camera_prior :: rat
  mp_render_prior :: rat
  mp_action_prior :: rat
  mp_cost :: "(string \<times> rat) list"
  mp_latency :: "(string \<times> rat) list"

definition registry_all :: "model_profile list \<Rightarrow> model_profile list" where
  "registry_all rows = sort_key mp_logical_name (filter mp_enabled rows)"

definition by_provider :: "model_profile list \<Rightarrow> string \<Rightarrow> model_profile list" where
  "by_provider rows provider = filter (\<lambda>p. mp_provider p = provider) (registry_all rows)"

definition requirements :: "(string \<times> string list) list" where
  "requirements =
     [(''TEXT_TO_VIDEO'', [''supports_t2v'']),
      (''IMAGE_TO_VIDEO'', [''supports_i2v'', ''supports_start_frame'']),
      (''CONTINUE_I2V'', [''supports_i2v'', ''supports_start_frame'']),
      (''CONTINUE_V2V'', [''supports_v2v'']),
      (''HYBRID_REFERENCE'', [''supports_reference_image'']),
      (''REANCHOR_CHARACTER'', [''supports_character_reference'']),
      (''REANCHOR_SCENE'', [''supports_reference_image'']),
      (''REANCHOR_FULL'', [''supports_character_reference'', ''supports_reference_image'']),
      (''START_END_FRAME'', [''supports_start_end'']),
      (''REFERENCE_TO_VIDEO'', [''supports_reference_image''])]"

definition required_inputs :: "(string \<times> string list) list" where
  "required_inputs =
     [(''TEXT_TO_VIDEO'', [''narrative_state'', ''current_action_prompt'']),
      (''IMAGE_TO_VIDEO'', [''start_frame'', ''narrative_state'']),
      (''CONTINUE_I2V'', [''previous_end_frame'', ''character_binding'', ''current_action_prompt'']),
      (''CONTINUE_V2V'', [''previous_video'', ''narrative_state'']),
      (''HYBRID_REFERENCE'', [''previous_end_frame'', ''character_reference'', ''current_camera_state'',
         ''narrative_state'', ''shot_prompt'']),
      (''REANCHOR_CHARACTER'', [''character_reference'', ''narrative_state'', ''current_camera_prompt'']),
      (''REANCHOR_SCENE'', [''scene_reference'', ''narrative_state'']),
      (''REANCHOR_FULL'', [''character_reference'', ''scene_reference'', ''narrative_state'', ''current_camera_prompt'']),
      (''START_END_FRAME'', [''start_frame'', ''end_frame'']),
      (''REFERENCE_TO_VIDEO'', [''reference_images'', ''narrative_state''])]"

definition lookup_list :: "(string \<times> 'a list) list \<Rightarrow> string \<Rightarrow> 'a list" where
  "lookup_list d k = (case map_of d k of None \<Rightarrow> [] | Some v \<Rightarrow> v)"

definition capable :: "string \<Rightarrow> model_profile \<Rightarrow> bool" where
  "capable policy p \<longleftrightarrow> mp_modality p = ''video'' \<and> list_all (\<lambda>f. f \<in> set (mp_supports p)) (lookup_list requirements policy)"

definition best_profile :: "model_profile list \<Rightarrow> string \<Rightarrow> string \<Rightarrow> model_profile option" where
  "best_profile rows provider policy =
     (case sort_key (\<lambda>p. (- mp_render_prior p, - mp_identity_prior p, mp_logical_name p))
             (filter (capable policy) (by_provider rows provider)) of
        [] \<Rightarrow> None
      | p # _ \<Rightarrow> Some p)"

definition supports :: "model_profile list \<Rightarrow> string \<Rightarrow> string \<Rightarrow> bool" where
  "supports rows provider policy \<longleftrightarrow> best_profile rows provider policy \<noteq> None"

section \<open>Routing score\<close>

record cost_record =
  cr_provider :: string
  cr_estimated_cost :: rat
  cr_actual_cost :: "rat option"
  cr_retry_cost :: rat
  cr_accepted :: bool

record provider_account =
  pv_provider :: string
  pv_success_count :: int
  pv_error_count :: int

text \<open>Times are microseconds.\<close>

record finished_job =
  fj_provider :: string
  fj_started_at :: "int option"
  fj_completed_at :: "int option"

record routing_db =
  rd_profiles :: "model_profile list"
  rd_costs :: "cost_record list"
  rd_accounts :: "provider_account list"
  rd_jobs :: "finished_job list"

definition ascii_upper :: "string \<Rightarrow> string" where
  "ascii_upper s = map (\<lambda>c. let n = (of_char c :: nat) in if 97 \<le> n \<and> n \<le> 122 then char_of (n - 32) else c) s"

definition dmul :: "rat \<Rightarrow> rat \<Rightarrow> rat" where "dmul a b = fl (a * b)"
definition dadd :: "rat \<Rightarrow> rat \<Rightarrow> rat" where "dadd a b = fl (a + b)"
definition dsub :: "rat \<Rightarrow> rat \<Rightarrow> rat" where "dsub a b = fl (a - b)"
definition ddiv :: "rat \<Rightarrow> rat \<Rightarrow> rat" where "ddiv a b = fl (a / b)"

text \<open>A literal of two decimals.\<close>

definition cents :: "rat \<Rightarrow> rat" where "cents n = fl (n / 100)"

text \<open>\<^verbatim>\<open>a * x + b * y + c * z\<close>\<close>

definition weigh :: "rat \<Rightarrow> rat \<Rightarrow> rat \<Rightarrow> rat \<Rightarrow> rat \<Rightarrow> rat \<Rightarrow> rat" where
  "weigh a x b y c z = dadd (dadd (dmul a (cents x)) (dmul b (cents y))) (dmul c (cents z))"

definition expected_quality :: "model_profile \<Rightarrow> string \<Rightarrow> rat" where
  "expected_quality p quality_profile =
     (let profile = ascii_upper quality_profile in
      if profile = ''CLOSE_UP_CHARACTER'' \<or> profile = ''DIALOGUE''
      then weigh (mp_identity_prior p) 65 (mp_camera_prior p) 20 (mp_render_prior p) 15
      else if profile = ''ACTION''
      then weigh (mp_action_prior p) 55 (mp_camera_prior p) 30 (mp_identity_prior p) 15
      else weigh (mp_render_prior p) 50 (mp_camera_prior p) 30 (mp_action_prior p) 20)"

record observed =
  ob_attempts :: int
  ob_accepted :: int
  ob_accepted_cost :: "rat option"
  ob_reliability :: "rat option"
  ob_latency :: "rat option"
  ob_samples :: int

definition observe :: "routing_db \<Rightarrow> string \<Rightarrow> observed" where
  "observe db provider =
     (let costs = filter (\<lambda>c. cr_provider c = provider) (rd_costs db);
          accounts = filter (\<lambda>a. pv_provider a = provider) (rd_accounts db);
          jobs = filter (\<lambda>j. fj_provider j = provider \<and> fj_completed_at j \<noteq> None) (rd_jobs db);
          attempts = int (length costs);
          accepted = int (length (filter cr_accepted costs));
          total_cost = py_sum (map (\<lambda>c. dadd (case cr_actual_cost c of Some v \<Rightarrow> v | None \<Rightarrow> cr_estimated_cost c)
            (cr_retry_cost c)) costs);
          successes = sum_list (map pv_success_count accounts);
          failures = sum_list (map pv_error_count accounts);
          latencies = map (\<lambda>j. ddiv (of_int (the (fj_completed_at j) - the (fj_started_at j))) 1000000)
            (filter (\<lambda>j. fj_started_at j \<noteq> None) jobs)
      in \<lparr>ob_attempts = attempts, ob_accepted = accepted,
          ob_accepted_cost = (if accepted \<noteq> 0 then Some (ddiv total_cost (of_int accepted)) else None),
          ob_reliability = (if accounts \<noteq> [] then Some (ddiv (of_int successes) (of_int (max 1 (successes + failures)))) else None),
          ob_latency = (if latencies \<noteq> [] then Some (ddiv (py_sum latencies) (of_nat (length latencies))) else None),
          ob_samples = max attempts (successes + failures)\<rparr>)"

text \<open>\<^verbatim>\<open>prior * effective_prior_weight + observed * effective_observation_weight\<close>\<close>

definition blend :: "rat \<Rightarrow> rat \<Rightarrow> rat \<Rightarrow> rat" where
  "blend w prior obs = dadd (dmul prior (dsub 1 w)) (dmul obs w)"

definition json_rat :: "rat option \<Rightarrow> json" where
  "json_rat v = (case v of None \<Rightarrow> JNull | Some r \<Rightarrow> JFloat (Finite r))"

definition round4 :: "rat \<Rightarrow> rat" where "round4 x = py_round x 4"

definition routing_score ::
  "routing_db \<Rightarrow> model_profile \<Rightarrow> string \<Rightarrow> string \<Rightarrow> string \<Rightarrow> rat \<times> (string \<times> json) list" where
  "routing_score db capabilities provider preferred quality_profile =
     (let ob = observe db provider;
          preference_penalty = (if provider = preferred then 0 else cents 18);
          expected = expected_quality capabilities quality_profile;
          coverage = min 1 (ddiv (of_int (ob_samples ob)) 20);
          w = dmul (cents 20) coverage;
          observed_quality = (if ob_attempts ob \<noteq> 0 then Some (ddiv (of_int (ob_accepted ob)) (of_int (ob_attempts ob))) else None);
          blended_quality = (case observed_quality of None \<Rightarrow> expected | Some q \<Rightarrow> blend w expected q);
          capability_penalty = dmul (dsub 1 blended_quality) (cents 45);
          prior_cost = min (dmul (case map_of (mp_cost capabilities) ''normalized'' of Some c \<Rightarrow> c | None \<Rightarrow> cents 23) (cents 35)) (cents 35);
          observed_cost = (case ob_accepted_cost ob of Some c \<Rightarrow> min (ddiv c 10) (cents 35) | None \<Rightarrow> prior_cost);
          cost_penalty = blend w prior_cost observed_cost;
          blended_reliability = (case ob_reliability ob of None \<Rightarrow> cents 85 | Some r \<Rightarrow> blend w (cents 85) r);
          reliability_penalty = dmul (dsub 1 blended_reliability) (cents 35);
          prior_latency = min (dmul (case map_of (mp_latency capabilities) ''normalized'' of Some l \<Rightarrow> l | None \<Rightarrow> cents 25) (cents 20)) (cents 20);
          observed_latency = (case ob_latency ob of Some l \<Rightarrow> min (ddiv l 600) (cents 20) | None \<Rightarrow> prior_latency);
          latency_penalty = blend w prior_latency observed_latency;
          score = round4 (dadd (dadd (dadd (dadd preference_penalty capability_penalty) cost_penalty)
            reliability_penalty) latency_penalty)
      in (score,
          [(''attempts'', JInt (ob_attempts ob)), (''accepted'', JInt (ob_accepted ob)),
           (''cost_per_accepted_shot'', json_rat (ob_accepted_cost ob)),
           (''reliability'', json_rat (ob_reliability ob)),
           (''average_latency_seconds'', json_rat (ob_latency ob)),
           (''prior_weight'', JFloat (Finite (cents 80))), (''observation_weight'', JFloat (Finite (cents 20))),
           (''effective_prior_weight'', JFloat (Finite (round4 (dsub 1 w)))),
           (''effective_observation_weight'', JFloat (Finite (round4 w))),
           (''minimum_sample_count'', JInt 20), (''observation_sample_count'', JInt (ob_samples ob)),
           (''observed_acceptance_rate'', json_rat observed_quality),
           (''user_preferred'', JBool (provider = preferred)),
           (''expected_task_quality'', JFloat (Finite (round4 expected))),
           (''blended_task_quality'', JFloat (Finite (round4 blended_quality))),
           (''capability_penalty'', JFloat (Finite (round4 capability_penalty))),
           (''routing_score'', JFloat (Finite score))]))"

section \<open>Resolution\<close>

text \<open>\<^verbatim>\<open>min(xs, key=f)\<close>: the first of the smallest.\<close>

fun first_min :: "('a \<Rightarrow> rat) \<Rightarrow> 'a \<Rightarrow> 'a list \<Rightarrow> 'a" where
  "first_min f x [] = x"
| "first_min f x (y # ys) = (if f y < f x then first_min f y ys else first_min f x ys)"

definition score_of :: "routing_db \<Rightarrow> string \<Rightarrow> string \<Rightarrow> string \<Rightarrow> string \<Rightarrow> rat \<times> (string \<times> json) list" where
  "score_of db policy preferred quality_profile provider =
     routing_score db (the (best_profile (rd_profiles db) provider policy)) provider preferred quality_profile"

definition select_provider ::
  "routing_db \<Rightarrow> string list \<Rightarrow> string \<Rightarrow> string \<Rightarrow> string \<Rightarrow> string option \<times> (string \<times> json) list" where
  "select_provider db providers policy preferred quality_profile =
     (let eligible = filter (\<lambda>p. supports (rd_profiles db) p policy) providers;
          scored = score_of db policy preferred quality_profile in
      case eligible of
        [] \<Rightarrow> (None, [])
      | p # ps \<Rightarrow> (Some (first_min (\<lambda>x. fst (scored x)) p ps),
                  fold (\<lambda>x. AList.update x (JObj (snd (scored x)))) eligible []))"

record generation_plan =
  gp_policy :: string
  gp_required_inputs :: "string list"
  gp_provider :: string
  gp_fallback_providers :: "string list"
  gp_quality_profile :: string
  gp_degraded_from :: "string option"
  gp_reasons :: "string list"

definition candidate_providers :: "string \<Rightarrow> string list \<Rightarrow> string list" where
  "candidate_providers preferred fallbacks = preferred # filter (\<lambda>n. n \<noteq> preferred) fallbacks"

definition resolution_record ::
  "(model_profile \<Rightarrow> json) \<Rightarrow> routing_db \<Rightarrow> string \<Rightarrow> string \<Rightarrow> generation_plan \<Rightarrow> (string \<times> json) list \<Rightarrow>
   string option \<Rightarrow> string option \<Rightarrow> policy_record" where
  "resolution_record model_dump db policy preferred plan features project_id shot_id =
     \<lparr>pr_project_id = project_id, pr_shot_id = shot_id, pr_decision_type = ''CAPABILITY_RESOLUTION'',
      pr_input_features = [(''desired_policy'', JStr policy), (''preferred_provider'', JStr preferred),
        (''capabilities'', case best_profile (rd_profiles db) (gp_provider plan) (gp_policy plan) of
           Some p \<Rightarrow> model_dump p | None \<Rightarrow> JObj []),
        (''provider_scores'', JObj features)],
      pr_selected_action = gp_provider plan @ '':'' @ gp_policy plan,
      pr_reason_codes = gp_reasons plan, pr_model_version = ''capability-rules-v2-blended-evidence'',
      pr_policy_version = ''v1''\<rparr>"

definition resolve ::
  "(model_profile \<Rightarrow> json) \<Rightarrow> routing_db \<Rightarrow> string \<Rightarrow> string \<Rightarrow> string list \<Rightarrow> string option \<Rightarrow> string option \<Rightarrow> string \<Rightarrow>
   string list option \<Rightarrow> policy_error + generation_plan \<times> policy_record list" where
  "resolve model_dump db policy preferred fallbacks project_id shot_id quality_profile available =
     (let candidates = candidate_providers preferred fallbacks;
          missing = (case available of None \<Rightarrow> [] | Some inputs \<Rightarrow> missing_inputs (lookup_list required_inputs policy) inputs)
      in if missing \<noteq> [] then Inl (GenerationPolicyInputError ''cannot be resolved without inputs'' policy missing)
      else
        let (selected, features) = select_provider db candidates policy preferred quality_profile;
            degrade = (selected = None \<and> policy = ''START_END_FRAME'');
            resolved = (if degrade then ''IMAGE_TO_VIDEO'' else policy);
            (selected, features) = (if degrade then select_provider db candidates resolved preferred quality_profile
                                    else (selected, features))
        in case selected of
          None \<Rightarrow> Inl (PolicyLookupError policy)
        | Some provider \<Rightarrow>
            let plan = \<lparr>gp_policy = resolved, gp_required_inputs = lookup_list required_inputs resolved,
              gp_provider = provider,
              gp_fallback_providers = filter (\<lambda>n. n \<noteq> provider \<and> supports (rd_profiles db) n resolved) candidates,
              gp_quality_profile = quality_profile, gp_degraded_from = (if degrade then Some policy else None),
              gp_reasons = (if degrade then [''START_END_UNSUPPORTED_DEGRADED_TO_I2V''] else [''CAPABILITY_MATCH''])\<rparr>
            in Inr (plan, if py_falsy project_id \<and> py_falsy shot_id then []
                 else [resolution_record model_dump db policy preferred plan features project_id shot_id]))"

end
