(* ===== verification/Policy_Properties.thy ===== *)
theory Policy_Properties
  imports Generation_Policy
begin

text \<open>
  What the policy engine and the capability resolver promise each other: a decided policy has the
  inputs the resolver asks for, and a resolved plan runs on the best scored provider that can execute
  it.
\<close>

section \<open>Decision\<close>

text \<open>The rows of the decision: which policies \<^verbatim>\<open>decide\<close> can choose, and with what.\<close>

lemma choose_policy_cases:
  assumes "choose_policy mode a = Inr (policy, required, reasons)"
  obtains (hard) "mode = ''HARD_CONTINUITY''" "policy = ''CONTINUE_I2V''"
      "required = [''previous_end_frame'', ''character_binding'', ''current_action_prompt'']"
  | (hybrid) "mode = ''HYBRID''" "policy = ''HYBRID_REFERENCE''"
      "required = [''previous_end_frame'', ''character_reference'', ''current_camera_state'', ''narrative_state'', ''shot_prompt'']"
  | (reanchor) "mode = ''HYBRID'' \<or> mode = ''RE_ANCHOR''" "mode \<noteq> ''HARD_CONTINUITY''" "policy = ''REANCHOR_FULL''" "required = REANCHOR_INPUTS"
  | (frames) "mode \<notin> {''HARD_CONTINUITY'', ''HYBRID'', ''RE_ANCHOR''}" "policy = ''START_END_FRAME''"
      "required = [''start_frame'', ''end_frame'']"
  | (image) "mode \<notin> {''HARD_CONTINUITY'', ''HYBRID'', ''RE_ANCHOR''}" "policy = ''IMAGE_TO_VIDEO''"
      "required = [''start_frame'', ''narrative_state'']"
  | (reference) "mode \<notin> {''HARD_CONTINUITY'', ''HYBRID'', ''RE_ANCHOR''}" "policy = ''REFERENCE_TO_VIDEO''"
      "required = [''reference_images'', ''narrative_state'']"
  | (plain) "mode \<notin> {''HARD_CONTINUITY'', ''HYBRID'', ''RE_ANCHOR''}" "policy = ''TEXT_TO_VIDEO''"
      "required = [''narrative_state'', ''current_action_prompt'']"
proof (cases "mode \<in> {''HARD_CONTINUITY'', ''HYBRID'', ''RE_ANCHOR''}")
  case True
  then consider "mode = ''HARD_CONTINUITY''" | "mode = ''HYBRID''" | "mode = ''RE_ANCHOR''" by blast
  then show thesis
  proof cases
    case 1
    then show thesis using assms by (intro hard) (simp_all add: choose_policy_def)
  next
    case 2
    then show thesis
    proof (cases "{''previous_end_frame'', ''character_reference''} \<subseteq> set (available_inputs a)")
      case True
      with 2 show thesis using assms by (intro hybrid) (simp_all add: choose_policy_def)
    next
      case False
      with 2 show thesis using assms
        by (intro reanchor) (simp_all add: choose_policy_def Let_def split: if_split_asm)
    qed
  next
    case 3
    then show thesis using assms by (intro reanchor) (simp_all add: choose_policy_def)
  qed
next
  case False
  then have m: "mode \<noteq> ''HARD_CONTINUITY''" "mode \<noteq> ''HYBRID''" "mode \<noteq> ''RE_ANCHOR''" by blast+
  show thesis
  proof (cases "py_falsy (aa_start_frame a)")
    case True
    then show thesis
      using assms m False reference plain by (cases "aa_generic_references a = []") (simp_all add: choose_policy_def Let_def)
  next
    case start: False
    then show thesis
      using assms m False frames image by (cases "py_falsy (aa_end_frame a)") (simp_all add: choose_policy_def Let_def)
  qed
qed

lemma required_inputs_table:
  "lookup_list required_inputs ''CONTINUE_I2V'' = [''previous_end_frame'', ''character_binding'', ''current_action_prompt'']"
  "lookup_list required_inputs ''HYBRID_REFERENCE'' =
     [''previous_end_frame'', ''character_reference'', ''current_camera_state'', ''narrative_state'', ''shot_prompt'']"
  "lookup_list required_inputs ''REANCHOR_FULL'' = REANCHOR_INPUTS"
  "lookup_list required_inputs ''START_END_FRAME'' = [''start_frame'', ''end_frame'']"
  "lookup_list required_inputs ''IMAGE_TO_VIDEO'' = [''start_frame'', ''narrative_state'']"
  "lookup_list required_inputs ''REFERENCE_TO_VIDEO'' = [''reference_images'', ''narrative_state'']"
  "lookup_list required_inputs ''TEXT_TO_VIDEO'' = [''narrative_state'', ''current_action_prompt'']"
  by code_simp+

lemma missing_inputs_empty: "missing_inputs required available = [] \<longleftrightarrow> set required \<subseteq> set available"
proof -
  have "missing_inputs required available = [] \<longleftrightarrow> set (missing_inputs required available) = {}" by simp
  also have "set (missing_inputs required available) = set required - set available"
    by (auto simp: missing_inputs_def)
  finally show ?thesis by auto
qed

lemma decide_InrD:
  assumes "decide mode a project_id shot_id = Inr (d, recs)"
  obtains required reasons where "choose_policy mode a = Inr (pd_policy d, required, reasons)"
    "pd_required_inputs d = required" "set required \<subseteq> set (available_inputs a)"
    "pd_use_previous_end_frame_as_start d \<longleftrightarrow> pd_policy d = ''CONTINUE_I2V''"
    "pd_require_new_keyframe d \<longleftrightarrow> take 9 (pd_policy d) = ''REANCHOR_''"
proof -
  from assms obtain policy required reasons where c: "choose_policy mode a = Inr (policy, required, reasons)"
    by (auto simp: decide_def res_simps)
  with assms have m: "missing_inputs required (available_inputs a) = []"
    by (auto simp: decide_def Let_def split: if_split_asm)
  with assms c have "d = \<lparr>pd_policy = policy, pd_required_inputs = required, pd_reason_codes = reasons,
      pd_use_previous_end_frame_as_start = (policy = ''CONTINUE_I2V''),
      pd_require_new_keyframe = (take 9 policy = ''REANCHOR_'')\<rparr>"
    by (simp add: decide_def Let_def)
  with that [of required reasons] c m show thesis by (simp add: missing_inputs_empty)
qed

section \<open>Resolution\<close>

lemma first_min_least:
  "first_min f x xs \<in> set (x # xs) \<and> (\<forall>y \<in> set (x # xs). f (first_min f x xs) \<le> f y)"
proof (induction xs arbitrary: x)
  case (Cons y ys)
  then show ?case by (cases "f y < f x") force+
qed simp

definition eligible :: "routing_db \<Rightarrow> string list \<Rightarrow> string \<Rightarrow> string list" where
  "eligible db providers policy = filter (\<lambda>p. supports (rd_profiles db) p policy) providers"

lemma select_provider_None: "fst (select_provider db ps policy preferred q) = None \<longleftrightarrow> eligible db ps policy = []"
  by (simp add: select_provider_def eligible_def Let_def split: list.split)

lemma select_provider_Some:
  assumes "fst (select_provider db ps policy preferred q) = Some p"
  shows "p \<in> set (eligible db ps policy) \<and>
    (\<forall>c \<in> set (eligible db ps policy). fst (score_of db policy preferred q p) \<le> fst (score_of db policy preferred q c))"
proof (cases "eligible db ps policy")
  case Nil
  then show ?thesis using assms by (simp add: select_provider_def eligible_def Let_def)
next
  case (Cons x xs)
  then have "p = first_min (\<lambda>y. fst (score_of db policy preferred q y)) x xs"
    using assms by (simp add: select_provider_def eligible_def Let_def)
  then show ?thesis unfolding Cons using first_min_least [of "\<lambda>y. fst (score_of db policy preferred q y)" x xs] by simp
qed

text \<open>The policy that is resolved, and the two shapes of the result.\<close>

definition resolved_policy :: "routing_db \<Rightarrow> string list \<Rightarrow> string \<Rightarrow> string" where
  "resolved_policy db candidates policy =
     (if policy = ''START_END_FRAME'' \<and> eligible db candidates policy = [] then ''IMAGE_TO_VIDEO'' else policy)"

lemma resolve_selected:
  "resolve model_dump db policy preferred fallbacks project_id shot_id q available =
     (let candidates = candidate_providers preferred fallbacks;
          resolved = resolved_policy db candidates policy;
          missing = (case available of None \<Rightarrow> [] | Some inputs \<Rightarrow> missing_inputs (lookup_list required_inputs policy) inputs)
      in if missing \<noteq> [] then Inl (GenerationPolicyInputError ''cannot be resolved without inputs'' policy missing)
      else case select_provider db candidates resolved preferred q of
          (None, _) \<Rightarrow> Inl (PolicyLookupError policy)
        | (Some provider, features) \<Rightarrow>
            let plan = \<lparr>gp_policy = resolved, gp_required_inputs = lookup_list required_inputs resolved,
              gp_provider = provider,
              gp_fallback_providers = filter (\<lambda>n. n \<noteq> provider \<and> supports (rd_profiles db) n resolved) candidates,
              gp_quality_profile = q, gp_degraded_from = (if resolved = policy then None else Some policy),
              gp_reasons = (if resolved = policy then [''CAPABILITY_MATCH''] else [''START_END_UNSUPPORTED_DEGRADED_TO_I2V''])\<rparr>
            in Inr (plan, if py_falsy project_id \<and> py_falsy shot_id then []
                 else [resolution_record model_dump db policy preferred plan features project_id shot_id]))"
proof -
  let ?c = "candidate_providers preferred fallbacks"
  obtain s f where sf: "select_provider db ?c policy preferred q = (s, f)" by fastforce
  then have none: "s = None \<longleftrightarrow> eligible db ?c policy = []" using select_provider_None [of db ?c policy preferred q] by simp
  show ?thesis
  proof (cases "s = None \<and> policy = ''START_END_FRAME''")
    case True
    with none have "policy = ''START_END_FRAME'' \<and> eligible db ?c policy = []" by blast
    then have "resolved_policy db ?c policy = ''IMAGE_TO_VIDEO''" unfolding resolved_policy_def by (rule if_P)
    moreover have "policy \<noteq> ''IMAGE_TO_VIDEO''" using True by simp
    moreover obtain s' f' where "select_provider db ?c ''IMAGE_TO_VIDEO'' preferred q = (s', f')" by fastforce
    ultimately show ?thesis using True sf unfolding resolve_def Let_def by (cases s') simp_all
  next
    case False
    then have "resolved_policy db ?c policy = policy" using none by (auto simp: resolved_policy_def)
    then show ?thesis using False sf unfolding resolve_def Let_def by (cases s) simp_all
  qed
qed

section \<open>Claims\<close>

text \<open>
  C38. A policy that is decided can be resolved as far as its inputs go: every input it requires is
  available, the resolver's own table asks for the same inputs, and a resolver that is given the same
  inputs fails only for want of a provider.
\<close>

theorem decided_policy_has_its_inputs:
  assumes "decide mode a project_id shot_id = Inr (d, recs)"
  shows "set (pd_required_inputs d) \<subseteq> set (available_inputs a) \<and>
    lookup_list required_inputs (pd_policy d) = pd_required_inputs d \<and>
    (case resolve model_dump db (pd_policy d) preferred fallbacks project_id shot_id q (Some (available_inputs a)) of
       Inl e \<Rightarrow> e = PolicyLookupError (pd_policy d) | Inr _ \<Rightarrow> True)"
  using assms
proof (cases rule: decide_InrD)
  case (1 required reasons)
  have table: "lookup_list required_inputs (pd_policy d) = required"
    by (rule choose_policy_cases [OF 1(1)]) (simp_all only: required_inputs_table)
  then have "missing_inputs (lookup_list required_inputs (pd_policy d)) (available_inputs a) = []"
    using 1(3) by (simp add: missing_inputs_empty)
  then have "case resolve model_dump db (pd_policy d) preferred fallbacks project_id shot_id q (Some (available_inputs a)) of
       Inl e \<Rightarrow> e = PolicyLookupError (pd_policy d) | Inr _ \<Rightarrow> True"
    unfolding resolve_selected by (simp add: Let_def split: prod.split option.split)
  with 1 table show ?thesis by simp
qed

definition sample_assets :: available_assets where
  "sample_assets = \<lparr>aa_previous_end_frame = Some ''f'', aa_previous_video = None, aa_start_frame = None,
     aa_end_frame = None, aa_character_references = [''c''], aa_scene_references = [''s''],
     aa_generic_references = [], aa_character_binding = True, aa_narrative_state = True,
     aa_current_action_prompt = True, aa_current_camera_prompt = True\<rparr>"

definition sample_decision :: "policy_decision \<times> policy_record list" where
  "sample_decision = projr (decide ''RE_ANCHOR'' sample_assets (Some ''p'') None)"

lemma sample_decided: "decide ''RE_ANCHOR'' sample_assets (Some ''p'') None = Inr (fst sample_decision, snd sample_decision)"
proof -
  have "\<not> isl (decide ''RE_ANCHOR'' sample_assets (Some ''p'') None)" by code_simp
  then show ?thesis unfolding sample_decision_def by (simp add: sum.collapse(2))
qed

theorem decided_policy_has_its_inputs_witness:
  "set (pd_required_inputs (fst sample_decision)) \<subseteq> set (available_inputs sample_assets) \<and>
   pd_policy (fst sample_decision) = ''REANCHOR_FULL''"
proof
  show "set (pd_required_inputs (fst sample_decision)) \<subseteq> set (available_inputs sample_assets)"
    using decided_policy_has_its_inputs [OF sample_decided] by simp
  show "pd_policy (fst sample_decision) = ''REANCHOR_FULL''" by code_simp
qed

text \<open>
  Continuity: the previous end frame becomes the start frame exactly under hard continuity, a new
  keyframe is asked for exactly when the policy re-anchors, which only the modes HYBRID and RE_ANCHOR
  do, and re-anchoring neither requires the previous end frame nor changes with it.
\<close>

theorem continuity_modes_are_respected:
  assumes "decide mode a project_id shot_id = Inr (d, recs)"
  shows "(pd_use_previous_end_frame_as_start d \<longleftrightarrow> mode = ''HARD_CONTINUITY'') \<and>
    (pd_require_new_keyframe d \<longleftrightarrow> pd_policy d = ''REANCHOR_FULL'') \<and>
    (pd_require_new_keyframe d \<longrightarrow> ''previous_end_frame'' \<notin> set (pd_required_inputs d) \<and>
       mode \<in> {''HYBRID'', ''RE_ANCHOR''}) \<and>
    (mode = ''RE_ANCHOR'' \<longrightarrow> pd_require_new_keyframe d \<and>
       choose_policy mode (a\<lparr>aa_previous_end_frame := f\<rparr>) = choose_policy mode a)"
  using assms
proof (cases rule: decide_InrD)
  case (1 required reasons)
  have same: "choose_policy ''RE_ANCHOR'' (a\<lparr>aa_previous_end_frame := f\<rparr>) = choose_policy ''RE_ANCHOR'' a"
    by (simp add: choose_policy_def)
  show ?thesis
    by (rule choose_policy_cases [OF 1(1)])
      (use 1(2,4,5) same in \<open>simp_all add: REANCHOR_INPUTS_def\<close>)
qed

theorem continuity_modes_are_respected_witness:
  "\<not> pd_use_previous_end_frame_as_start (fst sample_decision) \<and> pd_require_new_keyframe (fst sample_decision)"
  using continuity_modes_are_respected [OF sample_decided, where f = None] by auto

text \<open>
  C39. Resolution picks the best: a plan runs on a candidate that supports the resolved policy with
  the smallest routing score among the candidates that do; the fallbacks are the other candidates
  that support it, in order; the policy is the one asked for unless no candidate supports start and
  end frames, when it is degraded to image to video. Without any candidate that supports it there
  is no plan.
\<close>

theorem resolve_picks_best_capable_provider:
  assumes "available = None \<or> (\<exists>inputs. available = Some inputs \<and> set (lookup_list required_inputs policy) \<subseteq> set inputs)"
  shows "case resolve model_dump db policy preferred fallbacks project_id shot_id q available of
      Inr (plan, recs) \<Rightarrow>
        let candidates = candidate_providers preferred fallbacks; capable = eligible db candidates (gp_policy plan) in
        gp_provider plan \<in> set capable \<and>
        list_all (\<lambda>c. fst (score_of db (gp_policy plan) preferred q (gp_provider plan)) \<le>
                      fst (score_of db (gp_policy plan) preferred q c)) capable \<and>
        gp_fallback_providers plan = filter (\<lambda>c. c \<noteq> gp_provider plan) capable \<and>
        gp_policy plan = resolved_policy db candidates policy
    | Inl e \<Rightarrow> e = PolicyLookupError policy \<and>
        eligible db (candidate_providers preferred fallbacks) (resolved_policy db (candidate_providers preferred fallbacks) policy) = []"
proof -
  let ?c = "candidate_providers preferred fallbacks"
  let ?r = "resolved_policy db ?c policy"
  have missing: "(case available of None \<Rightarrow> [] | Some inputs \<Rightarrow> missing_inputs (lookup_list required_inputs policy) inputs) = []"
    using assms by (auto simp: missing_inputs_empty)
  obtain s f where sf: "select_provider db ?c ?r preferred q = (s, f)" by fastforce
  show ?thesis
  proof (cases s)
    case None
    then have "eligible db ?c ?r = []" using select_provider_None [of db ?c ?r preferred q] sf by simp
    with None sf missing show ?thesis by (simp add: resolve_selected Let_def)
  next
    case (Some p)
    with select_provider_Some [of db ?c ?r preferred q p] sf
    have "p \<in> set (eligible db ?c ?r)" "\<forall>c \<in> set (eligible db ?c ?r).
        fst (score_of db ?r preferred q p) \<le> fst (score_of db ?r preferred q c)" by simp_all
    moreover have "filter (\<lambda>n. n \<noteq> p \<and> supports (rd_profiles db) n ?r) ?c = filter (\<lambda>c. c \<noteq> p) (eligible db ?c ?r)"
      by (simp add: eligible_def conj_commute)
    ultimately show ?thesis using Some sf missing by (simp add: resolve_selected Let_def list_all_iff)
  qed
qed

definition sample_profile :: model_profile where
  "sample_profile = \<lparr>mp_logical_name = ''kling-pro'', mp_provider = ''kling'', mp_modality = ''video'', mp_enabled = True,
     mp_supports = [''supports_i2v'', ''supports_start_frame''], mp_identity_prior = 1 / 2, mp_camera_prior = 1 / 2,
     mp_render_prior = 1 / 2, mp_action_prior = 1 / 2, mp_cost = [], mp_latency = []\<rparr>"

definition sample_db :: routing_db where
  "sample_db = \<lparr>rd_profiles = [sample_profile], rd_costs = [], rd_accounts = [], rd_jobs = []\<rparr>"

lemma sample_eligible:
  "eligible sample_db (candidate_providers ''veo'' [''kling'']) ''START_END_FRAME'' = []"
  "eligible sample_db (candidate_providers ''veo'' [''kling'']) ''IMAGE_TO_VIDEO'' = [''kling'']"
  by code_simp+

lemma sample_resolved: "resolved_policy sample_db (candidate_providers ''veo'' [''kling'']) ''START_END_FRAME'' = ''IMAGE_TO_VIDEO''"
  unfolding resolved_policy_def sample_eligible by simp

theorem resolve_picks_best_capable_provider_witness:
  "case resolve (\<lambda>_. JNull) sample_db ''START_END_FRAME'' ''veo'' [''kling''] None None ''ACTION'' None of
     Inr (plan, recs) \<Rightarrow> gp_provider plan = ''kling'' \<and> gp_policy plan = ''IMAGE_TO_VIDEO''
   | Inl e \<Rightarrow> False"
  using resolve_picks_best_capable_provider [where available = None and policy = "''START_END_FRAME''"
    and model_dump = "\<lambda>_. JNull" and db = sample_db and preferred = "''veo''" and fallbacks = "[''kling'']"
    and project_id = None and shot_id = None and q = "''ACTION''"]
  by (auto simp: sample_resolved sample_eligible Let_def split: sum.split_asm sum.split)

text \<open>
  The inputs of a degraded plan are not checked: with a start and an end frame and nothing else, a
  request for start and end frames is resolved to an image-to-video plan on a provider without that
  capability, whose required inputs include the narrative state that is missing.
\<close>

theorem degraded_plan_may_lack_inputs:
  "\<exists>plan. resolve (\<lambda>_. JNull) sample_db ''START_END_FRAME'' ''veo'' [''kling''] None None ''ACTION''
       (Some [''start_frame'', ''end_frame'']) = Inr (plan, []) \<and>
     gp_policy plan = ''IMAGE_TO_VIDEO'' \<and> ''narrative_state'' \<in> set (gp_required_inputs plan)"
proof -
  obtain s f where sf: "select_provider sample_db (candidate_providers ''veo'' [''kling'']) ''IMAGE_TO_VIDEO'' ''veo'' ''ACTION'' = (s, f)"
    by fastforce
  then obtain p where "s = Some p"
    using select_provider_None [of sample_db "candidate_providers ''veo'' [''kling'']" "''IMAGE_TO_VIDEO''" "''veo''" "''ACTION''"]
    by (auto simp: sample_eligible)
  moreover have "missing_inputs (lookup_list required_inputs ''START_END_FRAME'') [''start_frame'', ''end_frame''] = []"
    by code_simp
  ultimately show ?thesis
    using sf unfolding resolve_selected by (simp add: Let_def sample_resolved required_inputs_table py_falsy_def)
qed

end
