(* ===== verification/Retry_Engine.thy ===== *)
theory Retry_Engine
  imports Platform_Domain
begin

text \<open>
  Bounded repair after an evaluation, \<^verbatim>\<open>core/evaluation/evaluation_core/retry.py\<close> with the
  data of \<^verbatim>\<open>schemas.py\<close>. Of an evaluation the engine reads the decision, the reasons and the
  patch. \<open>repairs\<close> is the relation between successive attempts of a shot: an attempt is evaluated,
  the engine plans, and a plan that is not terminal is submitted as the next attempt with the
  provider, model and reference strength of the plan, as
  \<^verbatim>\<open>services/production-engine/production_engine/runtime.py\<close> does. It allows every
  evaluation; the feature flag and the spend cap of that service only end the sequence earlier.
\<close>

section \<open>The engine\<close>

datatype evaluation_decision =
    ACCEPT | RETRY_SAME_MODEL | RETRY_REWRITE_PROMPT | SWITCH_MODEL | REJECT

record evaluation_result =
  er_decision :: evaluation_decision
  er_retry_reasons :: "string list"
  er_retry_patch :: string

record retry_plan =
  rp_action :: evaluation_decision
  rp_attempt_number :: int
  rp_terminal :: bool
  rp_next_provider :: "string option"
  rp_next_model :: "string option"
  rp_prompt_patch :: string
  rp_inject_stronger_references :: bool
  rp_reasons :: "string list"

datatype retry_error = RetryValueError

definition retry_engine :: "int \<Rightarrow> retry_error + int" where
  "retry_engine max_auto_retries =
     (if max_auto_retries < 0 \<or> max_auto_retries > 5 then Inl RetryValueError else Inr max_auto_retries)"

text \<open>A plan with the defaults of \<^verbatim>\<open>RetryPlan\<close>.\<close>

definition bare_plan :: "evaluation_decision \<Rightarrow> int \<Rightarrow> bool \<Rightarrow> string list \<Rightarrow> retry_plan" where
  "bare_plan act n terminal reasons = \<lparr>rp_action = act, rp_attempt_number = n, rp_terminal = terminal,
     rp_next_provider = None, rp_next_model = None, rp_prompt_patch = '''',
     rp_inject_stronger_references = False, rp_reasons = reasons\<rparr>"

definition towards :: "string \<times> string \<Rightarrow> retry_plan \<Rightarrow> retry_plan" where
  "towards target p = p\<lparr>rp_next_provider := Some (fst target), rp_next_model := Some (snd target)\<rparr>"

definition plan ::
  "int \<Rightarrow> evaluation_result \<Rightarrow> int \<Rightarrow> string \<Rightarrow> string \<Rightarrow> (string \<times> string) list option \<Rightarrow> bool \<Rightarrow> retry_plan" where
  "plan max_auto_retries e attempt_number current_provider current_model alternatives strengthened =
     (if er_decision e = ACCEPT then bare_plan ACCEPT attempt_number True [''evaluation accepted'']
      else if er_decision e = REJECT \<or> attempt_number \<ge> max_auto_retries
      then bare_plan REJECT attempt_number True
        (er_retry_reasons e @ [''automatic retry limit reached or evidence unavailable''])
      else
        let next_attempt = attempt_number + 1; current = (current_provider, current_model);
            others = filter (\<lambda>item. item \<noteq> current) (case alternatives of None \<Rightarrow> [] | Some items \<Rightarrow> items)
        in if er_decision e = SWITCH_MODEL \<and> others \<noteq> []
           then (towards (hd others) (bare_plan SWITCH_MODEL next_attempt False (er_retry_reasons e)))
             \<lparr>rp_prompt_patch := er_retry_patch e, rp_inject_stronger_references := \<not> strengthened\<rparr>
           else if er_decision e = RETRY_REWRITE_PROMPT
           then (towards current (bare_plan RETRY_REWRITE_PROMPT next_attempt False (er_retry_reasons e)))
             \<lparr>rp_prompt_patch := er_retry_patch e, rp_inject_stronger_references := \<not> strengthened\<rparr>
           else if \<not> strengthened
           then (towards current (bare_plan RETRY_SAME_MODEL next_attempt False (er_retry_reasons e)))
             \<lparr>rp_inject_stronger_references := True\<rparr>
           else if others \<noteq> []
           then towards (hd others) (bare_plan SWITCH_MODEL next_attempt False (er_retry_reasons e))
           else towards current (bare_plan RETRY_SAME_MODEL next_attempt False (er_retry_reasons e)))"

section \<open>Attempts\<close>

record attempt =
  at_number :: int
  at_provider :: string
  at_model :: string
  at_strengthened :: bool

inductive repairs :: "int \<Rightarrow> (string \<times> string) list option \<Rightarrow> attempt \<Rightarrow> attempt \<Rightarrow> bool" for m alts where
  retry: "plan m e (at_number a) (at_provider a) (at_model a) alts (at_strengthened a) = p \<Longrightarrow> \<not> rp_terminal p \<Longrightarrow>
     repairs m alts a \<lparr>at_number = rp_attempt_number p, at_provider = the (rp_next_provider p),
       at_model = the (rp_next_model p), at_strengthened = (at_strengthened a \<or> rp_inject_stronger_references p)\<rparr>"

inductive_cases repairsE: "repairs m alts a b"

inductive attempts :: "int \<Rightarrow> (string \<times> string) list option \<Rightarrow> attempt \<Rightarrow> attempt list \<Rightarrow> bool" for m alts where
  first: "attempts m alts a []"
| more: "repairs m alts a b \<Longrightarrow> attempts m alts b bs \<Longrightarrow> attempts m alts a (b # bs)"

lemma plan_cases:
  assumes "p = plan m e n prov mdl alts strengthened"
  obtains (terminal) "rp_terminal p" "er_decision e \<in> {ACCEPT, REJECT} \<or> n \<ge> m" "rp_attempt_number p = n"
      "rp_next_provider p = None" "rp_next_model p = None" "rp_action p = (if er_decision e = ACCEPT then ACCEPT else REJECT)"
  | (same) "\<not> rp_terminal p" "n < m" "er_decision e \<notin> {ACCEPT, REJECT}" "rp_attempt_number p = n + 1"
      "rp_next_provider p = Some prov" "rp_next_model p = Some mdl" "rp_action p \<in> {RETRY_SAME_MODEL, RETRY_REWRITE_PROMPT}"
  | (other) q where "\<not> rp_terminal p" "n < m" "er_decision e \<notin> {ACCEPT, REJECT}" "rp_attempt_number p = n + 1"
      "rp_next_provider p = Some (fst q)" "rp_next_model p = Some (snd q)" "q \<in> set (case alts of None \<Rightarrow> [] | Some xs \<Rightarrow> xs)"
      "q \<noteq> (prov, mdl)" "rp_action p = SWITCH_MODEL"
proof (cases "er_decision e \<in> {ACCEPT, REJECT} \<or> n \<ge> m")
  case True
  then show thesis using assms by (intro terminal) (auto simp: plan_def bare_plan_def)
next
  case False
  let ?others = "filter (\<lambda>item. item \<noteq> (prov, mdl)) (case alts of None \<Rightarrow> [] | Some items \<Rightarrow> items)"
  have not: "er_decision e \<noteq> ACCEPT" "\<not> (er_decision e = REJECT \<or> n \<ge> m)" using False by auto
  show thesis
  proof (cases "?others \<noteq> [] \<and> (er_decision e = SWITCH_MODEL \<or> er_decision e \<noteq> RETRY_REWRITE_PROMPT \<and> strengthened)")
    case True
    then have "hd ?others \<in> set ?others" by (intro hd_in_set) simp
    then have "hd ?others \<in> set (case alts of None \<Rightarrow> [] | Some xs \<Rightarrow> xs)" "hd ?others \<noteq> (prov, mdl)" by auto
    with True not False assms show thesis
      by (intro other [of "hd ?others"]) (auto simp: plan_def bare_plan_def towards_def Let_def)
  next
    case False
    with not \<open>\<not> (er_decision e \<in> {ACCEPT, REJECT} \<or> n \<ge> m)\<close> assms show thesis
      by (intro same) (auto simp: plan_def bare_plan_def towards_def Let_def)
  qed
qed

lemma repairs_step:
  assumes "repairs m alts a b"
  shows "at_number a < m \<and> at_number b = at_number a + 1 \<and> (at_strengthened a \<longrightarrow> at_strengthened b) \<and>
    ((at_provider b, at_model b) = (at_provider a, at_model a) \<or>
     (at_provider b, at_model b) \<in> set (case alts of None \<Rightarrow> [] | Some xs \<Rightarrow> xs))"
proof -
  from assms obtain e p where p: "p = plan m e (at_number a) (at_provider a) (at_model a) alts (at_strengthened a)"
    and open_plan: "\<not> rp_terminal p"
    and b: "b = \<lparr>at_number = rp_attempt_number p, at_provider = the (rp_next_provider p),
       at_model = the (rp_next_model p), at_strengthened = (at_strengthened a \<or> rp_inject_stronger_references p)\<rparr>"
    by (auto elim: repairsE)
  show ?thesis by (rule plan_cases [OF p]) (use open_plan b in auto)
qed

section \<open>Claims\<close>

text \<open>
  C40. Repair is bounded: from an attempt with number n there are at most max_auto_retries - n further
  attempts, numbered n + 1, n + 2 and so on, whatever the evaluations say, and no attempt has a number
  above the limit unless the first has. Every attempt runs on the model of the attempt before it or on
  one of the alternatives.
\<close>

theorem automatic_retries_are_bounded:
  assumes "retry_engine max_auto_retries = Inr m" and "attempts m alts a bs"
  shows "int (length bs) \<le> max 0 (m - at_number a) \<and> m \<le> 5 \<and>
    map at_number bs = map (\<lambda>k. at_number a + int k + 1) [0 ..< length bs] \<and>
    (\<forall>b \<in> set bs. (at_provider b, at_model b) \<in>
       insert (at_provider a, at_model a) (set (case alts of None \<Rightarrow> [] | Some xs \<Rightarrow> xs)))"
proof -
  have "m \<le> 5" using assms(1) by (simp add: retry_engine_def split: if_split_asm)
  moreover have "int (length bs) \<le> max 0 (m - at_number a) \<and>
      map at_number bs = map (\<lambda>k. at_number a + int k + 1) [0 ..< length bs] \<and>
      (\<forall>b \<in> set bs. (at_provider b, at_model b) \<in>
         insert (at_provider a, at_model a) (set (case alts of None \<Rightarrow> [] | Some xs \<Rightarrow> xs)))"
    using assms(2)
  proof (induction rule: attempts.induct)
    case (more a b bs)
    note step = repairs_step [OF more(1)]
    have "map at_number (b # bs) = (at_number a + 1) # map (\<lambda>k. at_number a + int (Suc k) + 1) [0 ..< length bs]"
      using step more.IH by (simp add: algebra_simps)
    also have "\<dots> = map (\<lambda>k. at_number a + int k + 1) [0 ..< length (b # bs)]"
      unfolding length_Cons upt_conv_Cons [OF zero_less_Suc] list.map map_Suc_upt [symmetric]
      by (simp add: comp_def)
    finally show ?case using step more.IH by auto
  qed simp
  ultimately show ?thesis by blast
qed

definition sample_evaluation :: evaluation_result where
  "sample_evaluation = \<lparr>er_decision = RETRY_REWRITE_PROMPT, er_retry_reasons = [''hair''], er_retry_patch = ''keep the hair''\<rparr>"

definition sample_attempt :: "int \<Rightarrow> bool \<Rightarrow> attempt" where
  "sample_attempt n strengthened = \<lparr>at_number = n, at_provider = ''kling'', at_model = ''pro'', at_strengthened = strengthened\<rparr>"

lemma sample_repairs: "repairs 2 None (sample_attempt 0 False) (sample_attempt 1 True)"
proof -
  let ?p = "plan 2 sample_evaluation 0 ''kling'' ''pro'' None False"
  have "\<not> rp_terminal ?p \<and> rp_attempt_number ?p = 1 \<and> rp_next_provider ?p = Some ''kling'' \<and>
      rp_next_model ?p = Some ''pro'' \<and> rp_inject_stronger_references ?p" by code_simp
  with repairs.retry [of 2 sample_evaluation "sample_attempt 0 False" None ?p]
  show ?thesis by (simp add: sample_attempt_def)
qed

theorem automatic_retries_are_bounded_witness:
  "attempts 2 None (sample_attempt 0 False) [sample_attempt 1 True] \<and>
   map at_number [sample_attempt 1 True] = map (\<lambda>k. int k + 1) [0 ..< 1]"
proof
  show run: "attempts 2 None (sample_attempt 0 False) [sample_attempt 1 True]"
    by (intro attempts.intros sample_repairs)
  have "retry_engine 2 = Inr 2" by code_simp
  from automatic_retries_are_bounded [OF this run]
  show "map at_number [sample_attempt 1 True] = map (\<lambda>k. int k + 1) [0 ..< 1]"
    by (simp add: sample_attempt_def)
qed

end
