(* ===== verification/Production_Budget.thy ===== *)
theory Production_Budget
  imports Platform_Domain Python_Float "HOL-Library.Char_ord" "HOL-Library.List_Lexorder"
    "HOL-Library.Product_Lexorder"
begin

text \<open>
  The automatic production budget,
  \<^verbatim>\<open>core/entitlements/entitlement_core/production_budget.py\<close>: spend authorizations,
  one per operation, under the platform's and the provider's ledger of the day. Amounts are
  micro-dollars; an amount that enters is a finite decimal, a \<open>rat\<close>. Every operation locks the rows
  it changes and is one step on the state \<open>t\<close>; only the search for an existing authorization finds
  no row to lock when there is none, so it reads an earlier state \<open>s\<close> and the unique constraints of
  the table decide. The conversion of ledgers and authorizations into JSON is left out, as is the
  parsing of the settings, the columns of an audit that copy the authorization, and the bound of the
  \<^verbatim>\<open>Numeric(14, 6)\<close> columns. Times are seconds; ids, the audit id and the request hash are arguments.
\<close>

section \<open>Tables\<close>

record budget_ledger =
  bl_id :: string
  bl_scope :: string
  bl_scope_key :: string
  bl_window_start :: int
  bl_window_seconds :: int
  bl_limit :: int
  bl_reserved :: int
  bl_actual :: int
  bl_version :: int

record spend_authorization =
  sa_id :: string
  sa_operation_key :: string
  sa_kind :: string
  sa_workspace_id :: "string option"
  sa_project_id :: "string option"
  sa_job_id :: "string option"
  sa_model_role :: "string option"
  sa_provider :: string
  sa_model :: string
  sa_max_cost :: int
  sa_reserved_cost :: int
  sa_actual_cost :: "int option"
  sa_quoted_credits :: int
  sa_pricing_version :: string
  sa_status :: string
  sa_fence :: string
  sa_settlement_source :: "string option"
  sa_evidence :: "string option"
  sa_platform_ledger :: string
  sa_provider_ledger :: string
  sa_version :: int

record spend_facts =
  sf_authorization_id :: string
  sf_action :: string
  sf_actual_cost :: "int option"
  sf_evidence :: string

record spend_audit =
  au_id :: string
  au_type :: string
  au_facts :: spend_facts
  au_operation_key :: string
  au_previous_status :: string
  au_resulting_status :: string
  au_reason :: string
  au_request_hash :: string
  au_actor :: string

record spend_db =
  sd_ledgers :: "budget_ledger list"
  sd_authorizations :: "spend_authorization list"
  sd_audits :: "spend_audit list"

datatype spend_error =
    SpendValueError string
  | SpendDenied string
  | SpendConflict string
  | ProductionBudgetExceeded string int int
  | SpendLookupError
  | SpendRuntimeError string
  | SpendIntegrityError

definition PLATFORM_SCOPE :: string where "PLATFORM_SCOPE = ''PLATFORM''"
definition PROVIDER_SCOPE :: string where "PROVIDER_SCOPE = ''PROVIDER''"
definition PLATFORM_SCOPE_KEY :: string where "PLATFORM_SCOPE_KEY = ''platform''"
definition GENERATION_KIND :: string where "GENERATION_KIND = ''GENERATION''"
definition MODEL_ROLE_KIND :: string where "MODEL_ROLE_KIND = ''MODEL_ROLE''"
definition FENCE_PENDING :: string where "FENCE_PENDING = ''PENDING''"
definition FENCE_PRODUCTION :: string where "FENCE_PRODUCTION = ''PRODUCTION''"
definition FENCE_CANARY :: string where "FENCE_CANARY = ''CANARY''"
definition SPEND_SETTLE_ACTUAL_COST :: string where "SPEND_SETTLE_ACTUAL_COST = ''SETTLE_ACTUAL_COST''"
definition SPEND_RELEASE_NO_REMOTE_CHARGE :: string where "SPEND_RELEASE_NO_REMOTE_CHARGE = ''RELEASE_NO_REMOTE_CHARGE''"
definition SPEND_AUTHORIZATION_RECONCILED :: string where
  "SPEND_AUTHORIZATION_RECONCILED = ''SPEND_AUTHORIZATION_RECONCILED''"
definition SOURCE_VERIFIED_PROVIDER :: string where "SOURCE_VERIFIED_PROVIDER = ''VERIFIED_PROVIDER''"
definition SOURCE_TOKENS_LIST :: string where "SOURCE_TOKENS_LIST = ''TOKENS_LIST''"
definition SOURCE_ESTIMATED_QUOTE :: string where "SOURCE_ESTIMATED_QUOTE = ''ESTIMATED_QUOTE''"
definition SOURCE_RECONCILED_MANUAL :: string where "SOURCE_RECONCILED_MANUAL = ''RECONCILED_MANUAL''"

section \<open>Money, windows, policy\<close>

definition spend_money :: "rat \<Rightarrow> spend_error + int" where
  "spend_money v = (let q = round_half_even (v * 1000000) in
     if \<bar>q\<bar> \<ge> 10 ^ 28 then Inl (SpendValueError ''spend amount must be a decimal amount'')
     else if q < 0 then Inl (SpendValueError ''spend amount cannot be negative'')
     else Inr q)"

fun spend_money_option :: "rat option \<Rightarrow> spend_error + int option" where
  "spend_money_option None = Inr None"
| "spend_money_option (Some v) = res_bind (spend_money v) (\<lambda>q. Inr (Some q))"

definition window_start_for :: "int \<Rightarrow> int \<Rightarrow> int" where
  "window_start_for now window_seconds = now - now mod window_seconds"

record spend_policy =
  sp_platform_limit :: int
  sp_provider_limits :: "(string \<times> int) list"
  sp_window_seconds :: int

text \<open>The constructor; a name that appears twice keeps its last limit.\<close>

fun quantised_limits :: "(string \<times> rat) list \<Rightarrow> spend_error + (string \<times> int) list" where
  "quantised_limits [] = Inr []"
| "quantised_limits ((name, v) # limits) =
     res_bind (spend_money v) (\<lambda>q. res_bind (quantised_limits limits) (\<lambda>rest.
       Inr (if map_of rest (py_strip name) = None then (py_strip name, q) # rest else rest)))"

definition make_policy :: "rat \<Rightarrow> (string \<times> rat) list \<Rightarrow> int \<Rightarrow> spend_error + spend_policy" where
  "make_policy platform_limit provider_limits window_seconds =
     res_bind (spend_money platform_limit) (\<lambda>p.
     res_bind (quantised_limits provider_limits) (\<lambda>limits.
       if window_seconds \<le> 0 then Inl (SpendValueError ''production budget window must be positive'')
       else Inr \<lparr>sp_platform_limit = p, sp_provider_limits = limits, sp_window_seconds = window_seconds\<rparr>))"

definition policy_enabled :: "spend_policy \<Rightarrow> bool" where
  "policy_enabled p \<longleftrightarrow> sp_platform_limit p > 0"

definition provider_limit :: "spend_policy \<Rightarrow> string \<Rightarrow> int" where
  "provider_limit p provider =
     (case map_of (sp_provider_limits p) (py_strip provider) of
        None \<Rightarrow> sp_platform_limit p
      | Some own \<Rightarrow> min own (sp_platform_limit p))"

definition overran_quote :: "spend_authorization \<Rightarrow> bool" where
  "overran_quote a \<longleftrightarrow> (case sa_actual_cost a of None \<Rightarrow> False | Some c \<Rightarrow> c > sa_max_cost a)"

definition ledger_remaining :: "budget_ledger \<Rightarrow> int" where
  "ledger_remaining l = max 0 (bl_limit l - bl_reserved l - bl_actual l)"

section \<open>Ledgers\<close>

definition ledger_for :: "spend_db \<Rightarrow> string \<Rightarrow> string \<Rightarrow> int \<Rightarrow> budget_ledger option" where
  "ledger_for t scope key start =
     row_where (\<lambda>l. bl_scope l = scope \<and> bl_scope_key l = key \<and> bl_window_start l = start) (sd_ledgers t)"

definition ledger_by_id :: "spend_db \<Rightarrow> string \<Rightarrow> budget_ledger option" where
  "ledger_by_id t i = row_where (\<lambda>l. bl_id l = i) (sd_ledgers t)"

definition put_ledger :: "budget_ledger \<Rightarrow> spend_db \<Rightarrow> spend_db" where
  "put_ledger l t = t\<lparr>sd_ledgers := update_where (\<lambda>x. bl_id x = bl_id l) (\<lambda>_. l) (sd_ledgers t)\<rparr>"

text \<open>
  \<^verbatim>\<open>_ledger_for_update\<close>. A concurrent insertion of the same window is the row found here:
  the code catches the integrity error and locks it.
\<close>

definition ledger_for_update ::
  "spend_policy \<Rightarrow> string \<Rightarrow> int \<Rightarrow> spend_db \<Rightarrow> string \<Rightarrow> string \<Rightarrow> int \<Rightarrow> budget_ledger \<times> spend_db" where
  "ledger_for_update p new_id now t scope key limit =
     (let start = window_start_for now (sp_window_seconds p) in
      case ledger_for t scope key start of
        None \<Rightarrow>
          let l = \<lparr>bl_id = new_id, bl_scope = scope, bl_scope_key = key, bl_window_start = start,
            bl_window_seconds = sp_window_seconds p, bl_limit = limit, bl_reserved = 0, bl_actual = 0, bl_version = 1\<rparr>
          in (l, t\<lparr>sd_ledgers := sd_ledgers t @ [l]\<rparr>)
      | Some l \<Rightarrow>
          if bl_limit l \<noteq> limit
          then let l' = l\<lparr>bl_limit := limit, bl_version := bl_version l + 1\<rparr> in (l', put_ledger l' t)
          else (l, t))"

definition reserve_on_ledger :: "spend_db \<Rightarrow> budget_ledger \<Rightarrow> int \<Rightarrow> spend_error + spend_db" where
  "reserve_on_ledger t ledger amount =
     (let P = (\<lambda>l. bl_id l = bl_id ledger \<and> bl_reserved l + bl_actual l + amount \<le> bl_limit l);
          f = (\<lambda>l. l\<lparr>bl_reserved := bl_reserved l + amount, bl_version := bl_version l + 1\<rparr>)
      in if affected P (sd_ledgers t) \<noteq> 1
         then Inl (ProductionBudgetExceeded
           (if bl_scope ledger = PLATFORM_SCOPE then ''platform'' else ''provider '' @ bl_scope_key ledger)
           amount (case ledger_by_id t (bl_id ledger) of None \<Rightarrow> 0 | Some l \<Rightarrow> ledger_remaining l))
         else Inr (t\<lparr>sd_ledgers := update_where P f (sd_ledgers t)\<rparr>))"

record spend_env =
  se_now :: int
  se_platform_ledger_id :: string
  se_provider_ledger_id :: string
  se_authorization_id :: string

definition reserve_window ::
  "spend_policy \<Rightarrow> spend_env \<Rightarrow> spend_db \<Rightarrow> string \<Rightarrow> int \<Rightarrow> spend_error + (string \<times> string) \<times> spend_db" where
  "reserve_window p env t provider amount =
     (let (pl, t1) = ledger_for_update p (se_platform_ledger_id env) (se_now env) t PLATFORM_SCOPE PLATFORM_SCOPE_KEY
            (sp_platform_limit p);
          (pr, t2) = ledger_for_update p (se_provider_ledger_id env) (se_now env) t1 PROVIDER_SCOPE provider
            (provider_limit p provider)
      in res_bind (reserve_on_ledger t2 pl amount) (\<lambda>t3.
         res_bind (reserve_on_ledger t3 pr amount) (\<lambda>t4. Inr ((bl_id pl, bl_id pr), t4))))"

fun adjust_ledgers :: "int \<Rightarrow> int \<Rightarrow> string list \<Rightarrow> spend_db \<Rightarrow> spend_error + spend_db" where
  "adjust_ledgers release_reserved add_actual [] t = Inr t"
| "adjust_ledgers release_reserved add_actual (i # ids) t =
     (case ledger_by_id t i of
        None \<Rightarrow> Inl (SpendRuntimeError ''production budget ledger disappeared under an authorization'')
      | Some l \<Rightarrow> adjust_ledgers release_reserved add_actual ids
          (put_ledger (l\<lparr>bl_reserved := max 0 (bl_reserved l - release_reserved),
             bl_actual := bl_actual l + add_actual, bl_version := bl_version l + 1\<rparr>) t))"

definition ledgers_of :: "spend_authorization \<Rightarrow> string list" where
  "ledgers_of a = [sa_platform_ledger a, sa_provider_ledger a]"

section \<open>Authorizations\<close>

definition authorization_for :: "spend_db \<Rightarrow> string \<Rightarrow> spend_authorization option" where
  "authorization_for t key = row_where (\<lambda>a. sa_operation_key a = key) (sd_authorizations t)"

definition authorization_by_id :: "spend_db \<Rightarrow> string \<Rightarrow> spend_authorization option" where
  "authorization_by_id t i = row_where (\<lambda>a. sa_id a = i) (sd_authorizations t)"

definition put_authorization :: "spend_authorization \<Rightarrow> spend_db \<Rightarrow> spend_db" where
  "put_authorization a t = t\<lparr>sd_authorizations := update_where (\<lambda>x. sa_id x = sa_id a) (\<lambda>_. a) (sd_authorizations t)\<rparr>"

text \<open>The unique constraints of \<^verbatim>\<open>generation_spend_authorizations\<close>.\<close>

definition insert_authorization :: "spend_authorization \<Rightarrow> spend_db \<Rightarrow> spend_error + spend_db" where
  "insert_authorization a t =
     (if list_ex (\<lambda>x. sa_operation_key x = sa_operation_key a \<or> (sa_job_id a \<noteq> None \<and> sa_job_id x = sa_job_id a))
          (sd_authorizations t)
      then Inl SpendIntegrityError
      else Inr (t\<lparr>sd_authorizations := sd_authorizations t @ [a]\<rparr>))"

record spend_request =
  sq_operation_key :: string
  sq_kind :: string
  sq_job_id :: "string option"
  sq_workspace_id :: "string option"
  sq_project_id :: "string option"
  sq_model_role :: "string option"
  sq_provider :: string
  sq_model :: string
  sq_max_cost :: rat
  sq_quoted_credits :: int
  sq_pricing_version :: string

definition new_authorization ::
  "spend_env \<Rightarrow> spend_request \<Rightarrow> int \<Rightarrow> string \<Rightarrow> string \<Rightarrow> spend_authorization" where
  "new_authorization env rq amount pl pr =
     \<lparr>sa_id = se_authorization_id env, sa_operation_key = py_strip (sq_operation_key rq), sa_kind = sq_kind rq,
      sa_workspace_id = sq_workspace_id rq, sa_project_id = sq_project_id rq, sa_job_id = sq_job_id rq,
      sa_model_role = sq_model_role rq, sa_provider = py_strip (sq_provider rq), sa_model = py_strip (sq_model rq),
      sa_max_cost = amount, sa_reserved_cost = amount, sa_actual_cost = None,
      sa_quoted_credits = max 0 (sq_quoted_credits rq), sa_pricing_version = take 80 (sq_pricing_version rq),
      sa_status = RESERVED, sa_fence = FENCE_PENDING, sa_settlement_source = None, sa_evidence = None,
      sa_platform_ledger = pl, sa_provider_ledger = pr, sa_version = 1\<rparr>"

text \<open>A view is the row and whether it was replayed.\<close>

definition authorize ::
  "spend_policy \<Rightarrow> spend_env \<Rightarrow> spend_db \<Rightarrow> spend_db \<Rightarrow> spend_request \<Rightarrow>
   spend_error + (spend_authorization \<times> bool) \<times> spend_db" where
  "authorize p env s t rq =
     (let key = py_strip (sq_operation_key rq); provider = py_strip (sq_provider rq); model = py_strip (sq_model rq) in
      if key = '''' \<or> provider = '''' \<or> model = ''''
      then Inl (SpendValueError ''operation_key, provider and model are required'')
      else if sq_kind rq \<noteq> GENERATION_KIND \<and> sq_kind rq \<noteq> MODEL_ROLE_KIND
      then Inl (SpendValueError ''unsupported spend authorization kind'')
      else res_bind (spend_money (sq_max_cost rq)) (\<lambda>amount.
        if amount \<le> 0 then Inl (SpendDenied ''live spend requires a positive quote'')
        else case (if authorization_for s key = None then None else authorization_for t key) of
          Some a \<Rightarrow>
            if sa_provider a \<noteq> provider \<or> sa_model a \<noteq> model \<or> sa_max_cost a \<noteq> amount
            then Inl (SpendConflict ''operation key was reused with different facts'')
            else Inr ((a, True), t)
        | None \<Rightarrow>
            res_bind (reserve_window p env t provider amount) (\<lambda>((pl, pr), t1).
            let a = new_authorization env rq amount pl pr in
            res_bind (insert_authorization a t1) (\<lambda>t2. Inr ((a, False), t2)))))"

definition authorize_generation ::
  "spend_policy \<Rightarrow> spend_env \<Rightarrow> spend_db \<Rightarrow> spend_db \<Rightarrow> spend_request \<Rightarrow>
   spend_error + (spend_authorization \<times> bool) \<times> spend_db" where
  "authorize_generation p env s t rq =
     (if \<not> policy_enabled p then Inl (SpendRuntimeError ''the production budget is not enabled'')
      else authorize p env s t (rq\<lparr>sq_kind := GENERATION_KIND, sq_model_role := None\<rparr>))"

definition authorize_operation ::
  "spend_policy \<Rightarrow> spend_env \<Rightarrow> spend_db \<Rightarrow> spend_db \<Rightarrow> spend_request \<Rightarrow>
   spend_error + (spend_authorization \<times> bool) \<times> spend_db" where
  "authorize_operation p env s t rq =
     (if \<not> policy_enabled p then Inl (SpendRuntimeError ''the production budget is not enabled'')
      else authorize p env s t (rq\<lparr>sq_job_id := None, sq_quoted_credits := 0\<rparr>))"

definition find_operation :: "spend_db \<Rightarrow> string \<Rightarrow> spend_authorization option" where
  "find_operation t operation_key =
     (let key = py_strip operation_key in if key = '''' then None else authorization_for t key)"

definition require_operation ::
  "spend_db \<Rightarrow> string \<Rightarrow> string \<Rightarrow> string \<Rightarrow> string list \<Rightarrow> spend_error + spend_authorization" where
  "require_operation t operation_key provider model allowed =
     (let key = py_strip operation_key in
      if key = '''' then Inl (SpendValueError ''operation_key is required'')
      else case authorization_for t key of
        None \<Rightarrow> Inl (SpendDenied ''live operation has no spend authorization'')
      | Some a \<Rightarrow>
          if sa_provider a \<noteq> provider \<or> sa_model a \<noteq> model
          then Inl (SpendDenied ''spend authorization does not match the server-selected provider/model'')
          else if sa_status a \<notin> set allowed
          then Inl (SpendDenied ''spend authorization is not boundary-ready'')
          else Inr a)"

section \<open>The paid boundary\<close>

definition prepare_boundary ::
  "spend_policy \<Rightarrow> spend_env \<Rightarrow> spend_db \<Rightarrow> string \<Rightarrow> string \<Rightarrow> string \<Rightarrow> string \<Rightarrow> string \<Rightarrow>
   spend_error + (spend_authorization \<times> bool) \<times> spend_db" where
  "prepare_boundary p env t i provider model fence evidence_reference =
     (let evidence = py_strip evidence_reference in
      if fence \<noteq> FENCE_PRODUCTION \<and> fence \<noteq> FENCE_CANARY then Inl (SpendValueError ''fence must be PRODUCTION or CANARY'')
      else if evidence = '''' then Inl (SpendValueError ''boundary preparation requires evidence_reference'')
      else case authorization_by_id t i of
        None \<Rightarrow> Inl SpendLookupError
      | Some a \<Rightarrow>
          if sa_provider a \<noteq> provider \<or> sa_model a \<noteq> model
          then Inl (SpendDenied ''spend authorization does not match the server-selected provider/model'')
          else if sa_status a = UNCERTAIN \<or> sa_status a = SETTLED then Inr ((a, True), t)
          else res_bind
            (if sa_status a = RELEASED
             then res_bind (reserve_window p env t (sa_provider a) (sa_max_cost a)) (\<lambda>((pl, pr), t1).
               Inr (a\<lparr>sa_platform_ledger := pl, sa_provider_ledger := pr, sa_reserved_cost := sa_max_cost a\<rparr>, t1))
             else if sa_status a \<noteq> RESERVED then Inl (SpendConflict ''cannot prepare a paid boundary'')
             else Inr (a, t))
            (\<lambda>(b, t1).
              let c = b\<lparr>sa_status := UNCERTAIN, sa_fence := fence, sa_evidence := Some (take 500 evidence),
                    sa_version := sa_version b + 1\<rparr>
              in Inr ((c, False), put_authorization c t1)))"

definition release_pre_boundary ::
  "spend_db \<Rightarrow> string \<Rightarrow> string \<Rightarrow> spend_error + (spend_authorization \<times> bool) \<times> spend_db" where
  "release_pre_boundary t i evidence_reference =
     (let evidence = py_strip evidence_reference in
      if evidence = '''' then Inl (SpendValueError ''pre-boundary release requires evidence_reference'')
      else case authorization_by_id t i of
        None \<Rightarrow> Inl SpendLookupError
      | Some a \<Rightarrow>
          if sa_status a = RELEASED then Inr ((a, True), t)
          else if sa_status a \<noteq> RESERVED \<and> sa_status a \<noteq> UNCERTAIN
          then Inl (SpendConflict ''cannot release a spend authorization'')
          else res_bind (adjust_ledgers (sa_reserved_cost a) 0 (ledgers_of a) t) (\<lambda>t1.
            let c = a\<lparr>sa_reserved_cost := 0, sa_status := RELEASED, sa_evidence := Some (take 500 evidence),
                  sa_version := sa_version a + 1\<rparr>
            in Inr ((c, False), put_authorization c t1)))"

definition settle_spend ::
  "spend_db \<Rightarrow> string \<Rightarrow> rat option \<Rightarrow> string \<Rightarrow> string \<Rightarrow>
   spend_error + (spend_authorization \<times> bool) \<times> spend_db" where
  "settle_spend t i actual_cost evidence_reference source =
     (let evidence = py_strip evidence_reference in
      if source \<notin> {SOURCE_VERIFIED_PROVIDER, SOURCE_TOKENS_LIST, SOURCE_ESTIMATED_QUOTE, SOURCE_RECONCILED_MANUAL}
      then Inl (SpendValueError ''unsupported settlement source'')
      else if evidence = '''' then Inl (SpendValueError ''settlement requires evidence_reference'')
      else if actual_cost = None \<and> source \<noteq> SOURCE_ESTIMATED_QUOTE
      then Inl (SpendValueError ''settlement requires actual_cost_usd'')
      else case authorization_by_id t i of
        None \<Rightarrow> Inl SpendLookupError
      | Some a \<Rightarrow>
          res_bind (case actual_cost of None \<Rightarrow> Inr (sa_max_cost a) | Some v \<Rightarrow> spend_money v) (\<lambda>amount.
          if sa_status a = SETTLED then
            (if (case sa_actual_cost a of None \<Rightarrow> 0 | Some c \<Rightarrow> c) \<noteq> amount \<or> sa_settlement_source a \<noteq> Some source
             then Inl (SpendConflict ''spend authorization was settled with different facts'')
             else Inr ((a, True), t))
          else if sa_status a \<noteq> RESERVED \<and> sa_status a \<noteq> UNCERTAIN
          then Inl (SpendConflict ''cannot settle a spend authorization'')
          else res_bind (adjust_ledgers (sa_reserved_cost a) amount (ledgers_of a) t) (\<lambda>t1.
            let c = a\<lparr>sa_reserved_cost := 0, sa_actual_cost := Some amount, sa_settlement_source := Some source,
                  sa_evidence := Some (take 500 evidence), sa_status := SETTLED, sa_version := sa_version a + 1\<rparr>
            in Inr ((c, False), put_authorization c t1))))"

section \<open>Reconciliation\<close>

record reconcile_request =
  rr_authorization_id :: string
  rr_action :: string
  rr_actual_cost :: "rat option"
  rr_idempotency_key :: string
  rr_reason :: string
  rr_evidence :: string
  rr_actor :: string

definition PLATFORM_API_KEY :: string where "PLATFORM_API_KEY = ''PLATFORM_API_KEY''"

text \<open>The checks of the arguments: key, reason, facts.\<close>

definition check_finding :: "reconcile_request \<Rightarrow> spend_error + string \<times> string \<times> spend_facts" where
  "check_finding rq =
     (let key = py_strip (rr_idempotency_key rq); detail = py_strip (rr_reason rq); evidence = py_strip (rr_evidence rq) in
      if rr_action rq \<noteq> SPEND_SETTLE_ACTUAL_COST \<and> rr_action rq \<noteq> SPEND_RELEASE_NO_REMOTE_CHARGE
      then Inl (SpendValueError ''unsupported spend authorization reconciliation action'')
      else if rr_actor rq \<noteq> PLATFORM_API_KEY then Inl (SpendValueError ''reconciliation requires the PLATFORM_API_KEY actor'')
      else if \<not> (8 \<le> length key \<and> length key \<le> 200) then Inl (SpendValueError ''Idempotency-Key must contain 8 to 200 characters'')
      else if \<not> (3 \<le> length detail \<and> length detail \<le> 240) then Inl (SpendValueError ''reason must contain 3 to 240 characters'')
      else if \<not> (3 \<le> length evidence \<and> length evidence \<le> 500)
      then Inl (SpendValueError ''evidence_reference must contain 3 to 500 characters'')
      else res_bind (spend_money_option (rr_actual_cost rq)) (\<lambda>actual.
        if rr_action rq = SPEND_SETTLE_ACTUAL_COST \<and> actual = None
        then Inl (SpendValueError ''SETTLE_ACTUAL_COST requires actual_cost_usd'')
        else if rr_action rq = SPEND_RELEASE_NO_REMOTE_CHARGE \<and> actual \<noteq> None
        then Inl (SpendValueError ''RELEASE_NO_REMOTE_CHARGE forbids actual_cost_usd'')
        else Inr (key, detail, \<lparr>sf_authorization_id = rr_authorization_id rq, sf_action = rr_action rq,
          sf_actual_cost = actual, sf_evidence = evidence\<rparr>)))"

definition audit_by_id :: "spend_db \<Rightarrow> string \<Rightarrow> spend_audit option" where
  "audit_by_id t i = row_where (\<lambda>a. au_id a = i) (sd_audits t)"

text \<open>
  The audit is read before the row is locked, in \<open>s\<close>. A second finding under one key that passed
  this read is stopped by the primary key of the audit.
\<close>

definition reconcile_spend ::
  "(string \<Rightarrow> string) \<Rightarrow> (spend_facts \<Rightarrow> string) \<Rightarrow> spend_db \<Rightarrow> spend_db \<Rightarrow> reconcile_request \<Rightarrow>
   spend_error + (spend_authorization \<times> string \<times> bool) \<times> spend_db" where
  "reconcile_spend audit_id_of request_hash s t rq =
     res_bind (check_finding rq) (\<lambda>(key, detail, facts).
       let audit_id = audit_id_of key in
       case audit_by_id s audit_id of
         Some audit \<Rightarrow>
           if au_type audit \<noteq> SPEND_AUTHORIZATION_RECONCILED \<or> au_request_hash audit \<noteq> request_hash facts
           then Inl (SpendConflict ''Idempotency-Key was already used for a different finding'')
           else (case authorization_by_id s (rr_authorization_id rq) of
             None \<Rightarrow> Inl (SpendRuntimeError ''audit points to a missing row'')
           | Some a \<Rightarrow> Inr ((a, audit_id, True), t))
       | None \<Rightarrow>
           (case authorization_by_id t (rr_authorization_id rq) of
              None \<Rightarrow> Inl SpendLookupError
            | Some a \<Rightarrow>
                if sa_status a \<noteq> UNCERTAIN then Inl (SpendConflict ''reconciliation requires UNCERTAIN'')
                else
                  let settled = rr_action rq = SPEND_SETTLE_ACTUAL_COST;
                      amount = (case sf_actual_cost facts of None \<Rightarrow> 0 | Some c \<Rightarrow> c);
                      c = a\<lparr>sa_actual_cost := (if settled then Some amount else None),
                            sa_status := (if settled then SETTLED else RELEASED), sa_reserved_cost := 0,
                            sa_settlement_source := Some SOURCE_RECONCILED_MANUAL,
                            sa_evidence := Some (sf_evidence facts), sa_version := sa_version a + 1\<rparr>
                  in res_bind (adjust_ledgers (sa_reserved_cost a) (if settled then amount else 0) (ledgers_of a) t) (\<lambda>t1.
                    if audit_by_id t1 audit_id \<noteq> None then Inl SpendIntegrityError
                    else Inr ((c, audit_id, False),
                      (put_authorization c t1)\<lparr>sd_audits := sd_audits t1 @
                        [\<lparr>au_id = audit_id, au_type = SPEND_AUTHORIZATION_RECONCILED, au_facts = facts,
                          au_operation_key = sa_operation_key a, au_previous_status = sa_status a,
                          au_resulting_status = sa_status c, au_reason = detail, au_request_hash = request_hash facts,
                          au_actor = rr_actor rq\<rparr>]\<rparr>))))"

section \<open>Reading\<close>

record budget_window =
  bw_scope :: string
  bw_scope_key :: string
  bw_start :: int
  bw_end :: int
  bw_limit :: int
  bw_reserved :: int
  bw_actual :: int
  bw_remaining :: int
  bw_tripped :: bool

definition window_view :: "budget_ledger \<Rightarrow> budget_window" where
  "window_view l = \<lparr>bw_scope = bl_scope l, bw_scope_key = bl_scope_key l, bw_start = bl_window_start l,
     bw_end = bl_window_start l + bl_window_seconds l, bw_limit = bl_limit l, bw_reserved = bl_reserved l,
     bw_actual = bl_actual l, bw_remaining = ledger_remaining l, bw_tripped = (ledger_remaining l \<le> 0)\<rparr>"

definition empty_window :: "spend_policy \<Rightarrow> string \<Rightarrow> string \<Rightarrow> int \<Rightarrow> int \<Rightarrow> budget_window" where
  "empty_window p scope key limit start = \<lparr>bw_scope = scope, bw_scope_key = key, bw_start = start,
     bw_end = start + sp_window_seconds p, bw_limit = limit, bw_reserved = 0, bw_actual = 0,
     bw_remaining = limit, bw_tripped = (limit \<le> 0)\<rparr>"

definition windows :: "spend_policy \<Rightarrow> int \<Rightarrow> spend_db \<Rightarrow> budget_window list" where
  "windows p now t =
     (let start = window_start_for now (sp_window_seconds p);
          rows = sort_key (\<lambda>l. (bl_scope l, bl_scope_key l)) (filter (\<lambda>l. bl_window_start l = start) (sd_ledgers t));
          seen = set (map (\<lambda>l. (bl_scope l, bl_scope_key l)) rows)
      in (if (PLATFORM_SCOPE, PLATFORM_SCOPE_KEY) \<in> seen then []
          else [empty_window p PLATFORM_SCOPE PLATFORM_SCOPE_KEY (sp_platform_limit p) start]) @
         map window_view rows @
         map (\<lambda>provider. empty_window p PROVIDER_SCOPE provider (provider_limit p provider) start)
           (filter (\<lambda>provider. (PROVIDER_SCOPE, provider) \<notin> seen) (sort (map fst (sp_provider_limits p)))))"

end
