(* ===== verification/Production_Ledgers.thy ===== *)
theory Production_Ledgers
  imports Production_Budget
begin

text \<open>
  The ledgers of the production budget as sums over its authorizations. \<open>spend_shift\<close> says that one
  authorization changed and each ledger moved by exactly what this authorization moves on it; the
  invariant of the sums and the breaker follow from that alone. Then what locking, reserving and
  adjusting do to the two ledgers of a window.
\<close>

section \<open>Sums over authorizations\<close>

definition fresh_env :: "spend_env \<Rightarrow> spend_db \<Rightarrow> bool" where
  "fresh_env env t \<longleftrightarrow> se_platform_ledger_id env \<notin> bl_id ` set (sd_ledgers t) \<and>
     se_provider_ledger_id env \<notin> bl_id ` set (sd_ledgers t) \<and> se_platform_ledger_id env \<noteq> se_provider_ledger_id env \<and>
     se_authorization_id env \<notin> sa_id ` set (sd_authorizations t)"

definition held_on :: "string \<Rightarrow> spend_authorization \<Rightarrow> int" where
  "held_on i a = (if i \<in> set (ledgers_of a) then sa_reserved_cost a else 0)"

definition charged_on :: "string \<Rightarrow> spend_authorization \<Rightarrow> int" where
  "charged_on i a = (if i \<in> set (ledgers_of a) then (case sa_actual_cost a of None \<Rightarrow> 0 | Some c \<Rightarrow> c) else 0)"

definition overrun_on :: "string \<Rightarrow> spend_authorization \<Rightarrow> int" where
  "overrun_on i a = (if i \<in> set (ledgers_of a)
     then (case sa_actual_cost a of None \<Rightarrow> 0 | Some c \<Rightarrow> max 0 (c - sa_max_cost a)) else 0)"

definition authorization_ok :: "spend_authorization \<Rightarrow> bool" where
  "authorization_ok a \<longleftrightarrow> 0 < sa_max_cost a \<and> sa_platform_ledger a \<noteq> sa_provider_ledger a \<and>
     ((sa_status a = RESERVED \<or> sa_status a = UNCERTAIN) \<and> sa_reserved_cost a = sa_max_cost a \<and> sa_actual_cost a = None \<or>
      sa_status a = SETTLED \<and> sa_reserved_cost a = 0 \<and> (\<exists>c \<ge> 0. sa_actual_cost a = Some c) \<or>
      sa_status a = RELEASED \<and> sa_reserved_cost a = 0 \<and> sa_actual_cost a = None)"

definition ledger_ids :: "spend_db \<Rightarrow> string set" where
  "ledger_ids t = bl_id ` set (sd_ledgers t)"

definition spend_inv :: "spend_db \<Rightarrow> bool" where
  "spend_inv t \<longleftrightarrow> distinct (map bl_id (sd_ledgers t)) \<and> distinct (map sa_id (sd_authorizations t)) \<and>
     distinct (map sa_operation_key (sd_authorizations t)) \<and>
     (\<forall>a \<in> set (sd_authorizations t). authorization_ok a \<and> set (ledgers_of a) \<subseteq> ledger_ids t) \<and>
     (\<forall>l \<in> set (sd_ledgers t). bl_reserved l = tally (held_on (bl_id l)) (sd_authorizations t) \<and>
        bl_actual l = tally (charged_on (bl_id l)) (sd_authorizations t))"

definition limit_of :: "spend_policy \<Rightarrow> string \<Rightarrow> string \<Rightarrow> int" where
  "limit_of p scope key = (if scope = PLATFORM_SCOPE then sp_platform_limit p else provider_limit p key)"

definition breaker :: "(string \<Rightarrow> string \<Rightarrow> int) \<Rightarrow> spend_db \<Rightarrow> bool" where
  "breaker cap t \<longleftrightarrow> (\<forall>l \<in> set (sd_ledgers t). bl_reserved l + bl_actual l \<le>
     cap (bl_scope l) (bl_scope_key l) + tally (overrun_on (bl_id l)) (sd_authorizations t))"

section \<open>One authorization moves\<close>

definition moved :: "(string \<Rightarrow> spend_authorization \<Rightarrow> int) \<Rightarrow> spend_authorization option \<Rightarrow> spend_authorization \<Rightarrow> string \<Rightarrow> int" where
  "moved g before a i = g i a - (case before of None \<Rightarrow> 0 | Some b \<Rightarrow> g i b)"

definition writes_authorization :: "spend_db \<Rightarrow> spend_authorization option \<Rightarrow> spend_authorization \<Rightarrow> spend_authorization list \<Rightarrow> bool" where
  "writes_authorization t before a rows \<longleftrightarrow> (case before of
       None \<Rightarrow> sa_id a \<notin> sa_id ` set (sd_authorizations t) \<and>
         sa_operation_key a \<notin> sa_operation_key ` set (sd_authorizations t) \<and> rows = sd_authorizations t @ [a]
     | Some b \<Rightarrow> b \<in> set (sd_authorizations t) \<and> sa_id a = sa_id b \<and> sa_operation_key a = sa_operation_key b \<and>
         rows = update_where (\<lambda>x. sa_id x = sa_id b) (\<lambda>_. a) (sd_authorizations t))"

definition ledger_moved :: "spend_db \<Rightarrow> budget_ledger \<Rightarrow> int \<Rightarrow> int \<Rightarrow> bool" where
  "ledger_moved t l dr da \<longleftrightarrow>
     (\<exists>l0 \<in> set (sd_ledgers t). bl_id l = bl_id l0 \<and> bl_scope l = bl_scope l0 \<and> bl_scope_key l = bl_scope_key l0 \<and>
        bl_reserved l = bl_reserved l0 + dr \<and> bl_actual l = bl_actual l0 + da) \<or>
     bl_id l \<notin> ledger_ids t \<and> bl_reserved l = dr \<and> bl_actual l = da"

definition spend_shift ::
  "spend_policy set \<Rightarrow> spend_db \<Rightarrow> spend_authorization option \<Rightarrow> spend_authorization \<Rightarrow> spend_db \<Rightarrow> bool" where
  "spend_shift ps t before a u \<longleftrightarrow> writes_authorization t before a (sd_authorizations u) \<and>
     authorization_ok a \<and> set (ledgers_of a) \<subseteq> ledger_ids u \<and> ledger_ids t \<subseteq> ledger_ids u \<and>
     distinct (map bl_id (sd_ledgers u)) \<and>
     (\<forall>l \<in> set (sd_ledgers u). ledger_moved t l (moved held_on before a (bl_id l)) (moved charged_on before a (bl_id l)) \<and>
        (bl_id l \<in> ledger_ids t \<and>
           moved held_on before a (bl_id l) + moved charged_on before a (bl_id l) \<le> moved overrun_on before a (bl_id l) \<or>
         (\<exists>p \<in> ps. bl_reserved l + bl_actual l \<le> limit_of p (bl_scope l) (bl_scope_key l))))"

lemma writes_tally:
  assumes "spend_inv t" and "writes_authorization t before a rows"
  shows "tally (g i) rows = tally (g i) (sd_authorizations t) + moved g before a i"
proof (cases before)
  case None
  with assms(2) show ?thesis by (simp add: writes_authorization_def moved_def)
next
  case (Some b)
  have "distinct (map sa_id (sd_authorizations t))" using assms(1) by (simp add: spend_inv_def)
  with Some assms(2) show ?thesis
    by (simp add: writes_authorization_def moved_def tally_update_single)
qed

lemma writes_rows:
  assumes "spend_inv t" and "writes_authorization t before a rows"
  shows "distinct (map sa_id rows) \<and> distinct (map sa_operation_key rows) \<and>
    set rows \<subseteq> insert a (set (sd_authorizations t))"
proof (cases before)
  case None
  with assms show ?thesis by (auto simp: writes_authorization_def spend_inv_def)
next
  case (Some b)
  with assms(2) have b: "b \<in> set (sd_authorizations t)" "sa_operation_key a = sa_operation_key b" "sa_id a = sa_id b"
    and rows: "rows = update_where (\<lambda>x. sa_id x = sa_id b) (\<lambda>_. a) (sd_authorizations t)"
    by (auto simp: writes_authorization_def)
  have ids: "distinct (map sa_id (sd_authorizations t))" using assms(1) by (simp add: spend_inv_def)
  have "map sa_id rows = map sa_id (sd_authorizations t)" unfolding rows by (rule map_update_where) (simp add: b)
  moreover have "map sa_operation_key rows = map sa_operation_key (sd_authorizations t)"
    unfolding rows update_where_def using b ids by (auto dest: distinct_keyD)
  moreover have "set rows \<subseteq> insert a (set (sd_authorizations t))"
    by (auto simp: rows set_update_where)
  ultimately show ?thesis using assms(1) by (simp add: spend_inv_def)
qed

lemma overrun_nonneg [simp]: "0 \<le> tally (overrun_on i) rows"
  by (rule tally_nonneg) (simp add: overrun_on_def split: option.split)

lemma absent_ledger:
  assumes "spend_inv t" and "i \<notin> ledger_ids t"
  shows "tally (held_on i) (sd_authorizations t) = 0" and "tally (charged_on i) (sd_authorizations t) = 0"
    and "tally (overrun_on i) (sd_authorizations t) = 0"
proof -
  have "i \<notin> set (ledgers_of a)" if "a \<in> set (sd_authorizations t)" for a
    using assms that by (auto simp: spend_inv_def)
  then show "tally (held_on i) (sd_authorizations t) = 0" and "tally (charged_on i) (sd_authorizations t) = 0"
    and "tally (overrun_on i) (sd_authorizations t) = 0"
    by (auto intro!: tally_zero simp: held_on_def charged_on_def overrun_on_def)
qed

lemma shift_inv:
  assumes inv: "spend_inv t" and shift: "spend_shift ps t before a u"
  shows "spend_inv u"
proof -
  have w: "writes_authorization t before a (sd_authorizations u)" using shift by (simp add: spend_shift_def)
  note sums = writes_tally [OF inv w]
  have "bl_reserved l = tally (held_on (bl_id l)) (sd_authorizations u) \<and>
      bl_actual l = tally (charged_on (bl_id l)) (sd_authorizations u)" if "l \<in> set (sd_ledgers u)" for l
  proof -
    have "ledger_moved t l (moved held_on before a (bl_id l)) (moved charged_on before a (bl_id l))"
      using shift that by (simp add: spend_shift_def)
    then show ?thesis
      using inv absent_ledger [OF inv, of "bl_id l"] by (auto simp: ledger_moved_def sums spend_inv_def)
  qed
  moreover have "authorization_ok x \<and> set (ledgers_of x) \<subseteq> ledger_ids u" if "x \<in> set (sd_authorizations u)" for x
    using writes_rows [OF inv w] inv shift that unfolding spend_inv_def spend_shift_def by blast
  ultimately show ?thesis
    using writes_rows [OF inv w] shift by (simp add: spend_inv_def spend_shift_def)
qed

lemma shift_breaker:
  assumes inv: "spend_inv t" and shift: "spend_shift ps t before a u" and "breaker cap t"
    and cap: "\<And>p scope key. p \<in> ps \<Longrightarrow> limit_of p scope key \<le> cap scope key"
  shows "breaker cap u"
  unfolding breaker_def
proof
  fix l assume l: "l \<in> set (sd_ledgers u)"
  have w: "writes_authorization t before a (sd_authorizations u)" using shift by (simp add: spend_shift_def)
  let ?o = "tally (overrun_on (bl_id l)) (sd_authorizations u)"
  consider "bl_id l \<in> ledger_ids t"
      "moved held_on before a (bl_id l) + moved charged_on before a (bl_id l) \<le> moved overrun_on before a (bl_id l)"
    | p where "p \<in> ps" "bl_reserved l + bl_actual l \<le> limit_of p (bl_scope l) (bl_scope_key l)"
    using shift l by (auto simp: spend_shift_def)
  then show "bl_reserved l + bl_actual l \<le> cap (bl_scope l) (bl_scope_key l) + ?o"
  proof cases
    case 1
    have "ledger_moved t l (moved held_on before a (bl_id l)) (moved charged_on before a (bl_id l))"
      using shift l by (simp add: spend_shift_def)
    with 1 obtain l0 where "l0 \<in> set (sd_ledgers t)" "bl_id l = bl_id l0" "bl_scope l = bl_scope l0"
        "bl_scope_key l = bl_scope_key l0" "bl_reserved l = bl_reserved l0 + moved held_on before a (bl_id l)"
        "bl_actual l = bl_actual l0 + moved charged_on before a (bl_id l)"
      by (auto simp: ledger_moved_def)
    with assms(3) 1(2) writes_tally [OF inv w, of overrun_on "bl_id l"] show ?thesis by (fastforce simp: breaker_def)
  next
    case 2
    then show ?thesis using cap [OF 2(1), of "bl_scope l" "bl_scope_key l"] overrun_nonneg [of "bl_id l" "sd_authorizations u"]
      by linarith
  qed
qed

section \<open>Locking and reserving the ledgers of a window\<close>

lemma ledger_movedI:
  "l0 \<in> set (sd_ledgers t) \<Longrightarrow> bl_id l = bl_id l0 \<Longrightarrow> bl_scope l = bl_scope l0 \<Longrightarrow> bl_scope_key l = bl_scope_key l0 \<Longrightarrow>
   bl_reserved l = bl_reserved l0 + dr \<Longrightarrow> bl_actual l = bl_actual l0 + da \<Longrightarrow> ledger_moved t l dr da"
  by (auto simp: ledger_moved_def)

definition locked :: "spend_db \<Rightarrow> budget_ledger \<Rightarrow> spend_db \<Rightarrow> bool" where
  "locked t l u \<longleftrightarrow> sd_authorizations u = sd_authorizations t \<and> sd_audits u = sd_audits t \<and>
     distinct (map bl_id (sd_ledgers u)) \<and> l \<in> set (sd_ledgers u) \<and> ledger_ids u = insert (bl_id l) (ledger_ids t) \<and>
     (\<forall>x \<in> set (sd_ledgers u). ledger_moved t x 0 0 \<and> (bl_id x \<noteq> bl_id l \<longrightarrow> x \<in> set (sd_ledgers t))) \<and>
     (\<forall>x \<in> set (sd_ledgers t). bl_id x \<noteq> bl_id l \<longrightarrow> x \<in> set (sd_ledgers u))"

lemma ledger_for_update_locked:
  assumes "ledger_for_update p new_id now t scope key limit = (l, u)"
    and ids: "distinct (map bl_id (sd_ledgers t))" and fresh: "new_id \<notin> ledger_ids t"
  shows "locked t l u \<and> bl_scope l = scope \<and> bl_scope_key l = key \<and> bl_limit l = limit \<and>
    (bl_id l = new_id \<or> bl_id l \<in> ledger_ids t)"
proof (cases "ledger_for t scope key (window_start_for now (sp_window_seconds p))")
  case None
  then have l: "l = \<lparr>bl_id = new_id, bl_scope = scope, bl_scope_key = key,
      bl_window_start = window_start_for now (sp_window_seconds p), bl_window_seconds = sp_window_seconds p,
      bl_limit = limit, bl_reserved = 0, bl_actual = 0, bl_version = 1\<rparr>"
    and u: "u = t\<lparr>sd_ledgers := sd_ledgers t @ [l]\<rparr>"
    using assms(1) by (auto simp: ledger_for_update_def Let_def)
  have "ledger_moved t x 0 0" if "x \<in> set (sd_ledgers u)" for x
    using that fresh by (auto simp: u l ledger_moved_def ledger_ids_def)
  then show ?thesis using ids fresh by (auto simp: locked_def u l ledger_ids_def)
next
  case (Some l0)
  have l0: "l0 \<in> set (sd_ledgers t)" "bl_scope l0 = scope" "bl_scope_key l0 = key"
    using row_where_SomeD [OF Some [unfolded ledger_for_def]] by auto
  show ?thesis
  proof (cases "bl_limit l0 = limit")
    case True
    then have "l = l0" "u = t" using assms(1) Some by (simp_all add: ledger_for_update_def)
    moreover have "ledger_moved t x 0 0" if "x \<in> set (sd_ledgers t)" for x using that by (auto simp: ledger_moved_def)
    ultimately show ?thesis using l0 True ids by (auto simp: locked_def ledger_ids_def)
  next
    case False
    then have l: "l = l0\<lparr>bl_limit := limit, bl_version := bl_version l0 + 1\<rparr>" and u: "u = put_ledger l t"
      using assms(1) Some by (auto simp: ledger_for_update_def Let_def)
    have same: "map bl_id (sd_ledgers u) = map bl_id (sd_ledgers t)"
      by (auto simp: u put_ledger_def intro!: map_update_where)
    then have lids: "ledger_ids u = ledger_ids t" unfolding ledger_ids_def by (metis list.set_map)
    have mem: "x \<in> set (sd_ledgers u) \<longleftrightarrow> x = l \<or> x \<in> set (sd_ledgers t) \<and> bl_id x \<noteq> bl_id l" for x
      using l0(1) by (auto simp: u put_ledger_def set_update_where l)
    have rest: "sd_authorizations u = sd_authorizations t" "sd_audits u = sd_audits t" by (simp_all add: u put_ledger_def)
    have old: "ledger_moved t x 0 0" if "x \<in> set (sd_ledgers t)" for x using that by (auto simp: ledger_moved_def)
    have "ledger_moved t l 0 0" using l0(1) by (auto simp: ledger_moved_def l)
    with old have "ledger_moved t x 0 0" if "x \<in> set (sd_ledgers u)" for x using that unfolding mem by blast
    moreover have "bl_id l \<in> ledger_ids t" using l0(1) by (simp add: l ledger_ids_def)
    moreover have "bl_scope l = scope" "bl_scope_key l = key" "bl_limit l = limit" using l0 by (simp_all add: l)
    ultimately show ?thesis using ids same lids mem rest by (auto simp: locked_def insert_absorb)
  qed
qed

lemma reserve_on_ledger_Inr:
  assumes "reserve_on_ledger t l m = Inr u" and ids: "distinct (map bl_id (sd_ledgers t))" and l: "l \<in> set (sd_ledgers t)"
  shows "bl_reserved l + bl_actual l + m \<le> bl_limit l \<and>
    u = t\<lparr>sd_ledgers := update_where (\<lambda>x. bl_id x = bl_id l)
      (\<lambda>_. l\<lparr>bl_reserved := bl_reserved l + m, bl_version := bl_version l + 1\<rparr>) (sd_ledgers t)\<rparr>"
proof -
  let ?P = "\<lambda>x. bl_id x = bl_id l \<and> bl_reserved x + bl_actual x + m \<le> bl_limit x"
  from assms(1) have hit: "affected ?P (sd_ledgers t) = 1"
    and u: "u = t\<lparr>sd_ledgers := update_where ?P (\<lambda>l. l\<lparr>bl_reserved := bl_reserved l + m, bl_version := bl_version l + 1\<rparr>)
      (sd_ledgers t)\<rparr>"
    by (auto simp: reserve_on_ledger_def Let_def split: if_split_asm)
  from hit obtain x where x: "x \<in> set (sd_ledgers t)" "?P x" by (rule affected_oneE)
  have inj: "y = l" if "y \<in> set (sd_ledgers t)" "bl_id y = bl_id l" for y
    using ids that l by (auto simp: distinct_map dest: inj_onD)
  with x have guard: "bl_reserved l + bl_actual l + m \<le> bl_limit l" by auto
  have "update_where ?P (\<lambda>l. l\<lparr>bl_reserved := bl_reserved l + m, bl_version := bl_version l + 1\<rparr>) (sd_ledgers t) =
      update_where (\<lambda>x. bl_id x = bl_id l) (\<lambda>_. l\<lparr>bl_reserved := bl_reserved l + m, bl_version := bl_version l + 1\<rparr>) (sd_ledgers t)"
    unfolding update_where_def using inj guard by (auto intro!: map_cong)
  with guard u show ?thesis by simp
qed

lemma update_ids:
  assumes "distinct (map bl_id rows)" and "l \<in> set rows" and "bl_id l' = bl_id l"
  shows "map bl_id (update_where (\<lambda>x. bl_id x = bl_id l) (\<lambda>_. l') rows) = map bl_id rows"
    and "x \<in> set (update_where (\<lambda>x. bl_id x = bl_id l) (\<lambda>_. l') rows) \<longleftrightarrow> x = l' \<or> x \<in> set rows \<and> bl_id x \<noteq> bl_id l"
  using assms by (auto simp: set_update_where intro!: map_update_where)

definition window_held :: "spend_policy \<Rightarrow> spend_db \<Rightarrow> string \<Rightarrow> string \<Rightarrow> int \<Rightarrow> spend_db \<Rightarrow> bool" where
  "window_held p t pl pr m u \<longleftrightarrow> sd_authorizations u = sd_authorizations t \<and> sd_audits u = sd_audits t \<and> pl \<noteq> pr \<and>
     distinct (map bl_id (sd_ledgers u)) \<and> ledger_ids u = {pl, pr} \<union> ledger_ids t \<and>
     (\<forall>l \<in> set (sd_ledgers u). ledger_moved t l (if bl_id l \<in> {pl, pr} then m else 0) 0 \<and>
        (bl_id l \<in> {pl, pr} \<longrightarrow> bl_reserved l + bl_actual l \<le> limit_of p (bl_scope l) (bl_scope_key l)))"

lemma scopes_differ [simp]: "PLATFORM_SCOPE \<noteq> PROVIDER_SCOPE" "PROVIDER_SCOPE \<noteq> PLATFORM_SCOPE"
  by (simp_all add: PLATFORM_SCOPE_def PROVIDER_SCOPE_def)

lemma ledger_moved_two:
  assumes "ledger_moved t1 x 0 0" and "\<forall>y \<in> set (sd_ledgers t1). ledger_moved t y 0 0" and "ledger_ids t \<subseteq> ledger_ids t1"
  shows "ledger_moved t x 0 0"
proof (cases "bl_id x \<in> ledger_ids t1")
  case True
  with assms(1) obtain y where y: "y \<in> set (sd_ledgers t1)" "bl_id x = bl_id y" "bl_scope x = bl_scope y"
      "bl_scope_key x = bl_scope_key y" "bl_reserved x = bl_reserved y" "bl_actual x = bl_actual y"
    by (auto simp: ledger_moved_def)
  from assms(2) y(1) have "ledger_moved t y 0 0" by blast
  with y show ?thesis by (simp add: ledger_moved_def)
next
  case False
  with assms(1) have "bl_reserved x = 0 \<and> bl_actual x = 0" by (auto simp: ledger_moved_def ledger_ids_def)
  with False assms(3) show ?thesis by (auto simp: ledger_moved_def)
qed

lemma ledger_moved_more:
  "ledger_moved t x dr da \<Longrightarrow> ledger_moved t (x\<lparr>bl_reserved := bl_reserved x + m, bl_version := v\<rparr>) (dr + m) da"
  by (auto simp: ledger_moved_def)

text \<open>The two ledgers a reservation locks, and what the first of the two updates leaves of the second.\<close>

lemma window_locks:
  assumes first: "ledger_for_update p (se_platform_ledger_id env) (se_now env) t PLATFORM_SCOPE PLATFORM_SCOPE_KEY
      (sp_platform_limit p) = (l1, t1)"
    and second: "ledger_for_update p (se_provider_ledger_id env) (se_now env) t1 PROVIDER_SCOPE provider
      (provider_limit p provider) = (l2, t2)"
    and ids: "distinct (map bl_id (sd_ledgers t))" and fresh: "fresh_env env t"
  shows "distinct (map bl_id (sd_ledgers t1))" and "distinct (map bl_id (sd_ledgers t2))" and "l1 \<in> set (sd_ledgers t2)"
    and "l2 \<in> set (sd_ledgers t2)" and "bl_id l1 \<noteq> bl_id l2" and "locked t l1 t1" and "locked t1 l2 t2"
    and "bl_scope l1 = PLATFORM_SCOPE" and "bl_limit l1 = sp_platform_limit p"
    and "bl_scope l2 = PROVIDER_SCOPE" and "bl_scope_key l2 = provider" and "bl_limit l2 = provider_limit p provider"
proof -
  have f1: "se_platform_ledger_id env \<notin> ledger_ids t" using fresh by (simp add: fresh_env_def ledger_ids_def)
  from ledger_for_update_locked [OF first ids f1] have one: "locked t l1 t1" "bl_scope l1 = PLATFORM_SCOPE"
    "bl_limit l1 = sp_platform_limit p" "bl_id l1 = se_platform_ledger_id env \<or> bl_id l1 \<in> ledger_ids t" by auto
  then have ids1: "distinct (map bl_id (sd_ledgers t1))" by (simp add: locked_def)
  have f2: "se_provider_ledger_id env \<notin> ledger_ids t1"
    using fresh one by (auto simp: fresh_env_def locked_def ledger_ids_def)
  from ledger_for_update_locked [OF second ids1 f2] have two: "locked t1 l2 t2" "bl_scope l2 = PROVIDER_SCOPE"
    "bl_scope_key l2 = provider" "bl_limit l2 = provider_limit p provider" by auto
  have diff: "bl_id l1 \<noteq> bl_id l2"
  proof
    assume "bl_id l1 = bl_id l2"
    moreover have "ledger_moved t1 l2 0 0" using two by (simp add: locked_def)
    moreover have l1: "l1 \<in> set (sd_ledgers t1)" using one by (simp add: locked_def)
    moreover from l1 have "bl_id l1 \<in> ledger_ids t1" by (simp add: ledger_ids_def)
    ultimately obtain l0 where l0: "l0 \<in> set (sd_ledgers t1)" "bl_id l0 = bl_id l1" "bl_scope l0 = bl_scope l2"
      unfolding ledger_moved_def by auto
    have "l0 = l1" by (rule inj_onD [OF _ l0(2) l0(1) l1]) (use ids1 in \<open>simp add: distinct_map\<close>)
    with one(2) two(2) l0(3) show False by simp
  qed
  show "l1 \<in> set (sd_ledgers t2)" "l2 \<in> set (sd_ledgers t2)" using one(1) two(1) diff by (simp_all add: locked_def)
  show "distinct (map bl_id (sd_ledgers t2))" using two(1) by (simp add: locked_def)
  show "distinct (map bl_id (sd_ledgers t1))" by (rule ids1)
  show "bl_id l1 \<noteq> bl_id l2" by (rule diff)
  show "locked t l1 t1" "bl_scope l1 = PLATFORM_SCOPE" "bl_limit l1 = sp_platform_limit p" by (fact one)+
  show "locked t1 l2 t2" "bl_scope l2 = PROVIDER_SCOPE" "bl_scope_key l2 = provider" "bl_limit l2 = provider_limit p provider"
    by (fact two)+
qed

lemma reserved_first:
  assumes "reserve_on_ledger t2 l1 m = Inr t3" and ids: "distinct (map bl_id (sd_ledgers t2))"
    and l: "l1 \<in> set (sd_ledgers t2)" "l2 \<in> set (sd_ledgers t2)" "bl_id l1 \<noteq> bl_id l2"
  shows "distinct (map bl_id (sd_ledgers t3))" and "l2 \<in> set (sd_ledgers t3)"
proof -
  let ?l1 = "l1\<lparr>bl_reserved := bl_reserved l1 + m, bl_version := bl_version l1 + 1\<rparr>"
  have t3: "sd_ledgers t3 = update_where (\<lambda>x. bl_id x = bl_id l1) (\<lambda>_. ?l1) (sd_ledgers t2)"
    using reserve_on_ledger_Inr [OF assms(1) ids l(1)] by simp
  show "distinct (map bl_id (sd_ledgers t3))" unfolding t3 using update_ids(1) [OF ids l(1), of ?l1] ids by simp
  show "l2 \<in> set (sd_ledgers t3)" unfolding t3 using l(2,3) by (intro update_where_miss) simp_all
qed

lemma reserve_window_Inr:
  assumes res: "reserve_window p env t provider m = Inr ((pl, pr), u)"
    and ids: "distinct (map bl_id (sd_ledgers t))" and fresh: "fresh_env env t"
  shows "window_held p t pl pr m u"
proof -
  obtain l1 t1 where first: "ledger_for_update p (se_platform_ledger_id env) (se_now env) t PLATFORM_SCOPE PLATFORM_SCOPE_KEY
      (sp_platform_limit p) = (l1, t1)" by fastforce
  obtain l2 t2 where second: "ledger_for_update p (se_provider_ledger_id env) (se_now env) t1 PROVIDER_SCOPE provider
      (provider_limit p provider) = (l2, t2)" by fastforce
  from res first second obtain t3 where three: "reserve_on_ledger t2 l1 m = Inr t3" and four: "reserve_on_ledger t3 l2 m = Inr u"
    and pl: "pl = bl_id l1" and pr: "pr = bl_id l2"
    by (auto simp: reserve_window_def res_simps)
  note lock = window_locks [OF first second ids fresh]
  note one = lock(6,8,9) and two = lock(7,10-12) and ids2 = lock(2) and m1 = lock(3) and m2 = lock(4)
  have diff: "pl \<noteq> pr" using lock(5) by (simp add: pl pr)
  let ?l1 = "l1\<lparr>bl_reserved := bl_reserved l1 + m, bl_version := bl_version l1 + 1\<rparr>"
  let ?l2 = "l2\<lparr>bl_reserved := bl_reserved l2 + m, bl_version := bl_version l2 + 1\<rparr>"
  from reserve_on_ledger_Inr [OF three ids2 m1] have g1: "bl_reserved l1 + bl_actual l1 + m \<le> bl_limit l1"
    and t3: "t3 = t2\<lparr>sd_ledgers := update_where (\<lambda>x. bl_id x = bl_id l1) (\<lambda>_. ?l1) (sd_ledgers t2)\<rparr>" by auto
  have rows3: "map bl_id (sd_ledgers t3) = map bl_id (sd_ledgers t2)"
    "\<And>x. x \<in> set (sd_ledgers t3) \<longleftrightarrow> x = ?l1 \<or> x \<in> set (sd_ledgers t2) \<and> bl_id x \<noteq> bl_id l1"
    using update_ids [OF ids2 m1, of ?l1] by (simp_all add: t3)
  note ids3 = reserved_first(1) [OF three lock(2-5)] and m3 = reserved_first(2) [OF three lock(2-5)]
  from reserve_on_ledger_Inr [OF four ids3 m3] have g2: "bl_reserved l2 + bl_actual l2 + m \<le> bl_limit l2"
    and u: "u = t3\<lparr>sd_ledgers := update_where (\<lambda>x. bl_id x = bl_id l2) (\<lambda>_. ?l2) (sd_ledgers t3)\<rparr>" by auto
  have rows: "map bl_id (sd_ledgers u) = map bl_id (sd_ledgers t2)"
    "\<And>x. x \<in> set (sd_ledgers u) \<longleftrightarrow> x = ?l1 \<or> x = ?l2 \<or> x \<in> set (sd_ledgers t2) \<and> bl_id x \<notin> {pl, pr}"
  proof -
    show "map bl_id (sd_ledgers u) = map bl_id (sd_ledgers t2)"
      using update_ids(1) [OF ids3 m3, of ?l2] rows3(1) by (simp add: u)
    have "x \<in> set (sd_ledgers u) \<longleftrightarrow> x = ?l2 \<or> x \<in> set (sd_ledgers t3) \<and> bl_id x \<noteq> bl_id l2" for x
      using update_ids(2) [OF ids3 m3, of ?l2 x] by (simp add: u)
    moreover have "bl_id ?l1 \<noteq> bl_id l2" using diff by (simp add: pl pr)
    ultimately show "x \<in> set (sd_ledgers u) \<longleftrightarrow> x = ?l1 \<or> x = ?l2 \<or> x \<in> set (sd_ledgers t2) \<and> bl_id x \<notin> {pl, pr}" for x
      unfolding rows3(2) pl pr by blast
  qed
  have from_t: "ledger_moved t x 0 0" if "x \<in> set (sd_ledgers t2)" for x
  proof (rule ledger_moved_two)
    show "ledger_moved t1 x 0 0" using two(1) that by (simp add: locked_def)
    show "\<forall>y \<in> set (sd_ledgers t1). ledger_moved t y 0 0" "ledger_ids t \<subseteq> ledger_ids t1" 
      using one(1) by (auto simp: locked_def)
  qed
  have lids: "ledger_ids u = {pl, pr} \<union> ledger_ids t"
  proof -
    have "ledger_ids u = ledger_ids t2" using arg_cong [OF rows(1), of set] by (simp add: ledger_ids_def)
    also have "\<dots> = insert pr (insert pl (ledger_ids t))" using one two by (simp add: locked_def pl pr)
    finally show ?thesis by auto
  qed
  have held: "ledger_moved t ?l1 m 0" "ledger_moved t ?l2 m 0"
    using ledger_moved_more [OF from_t [OF m1]] ledger_moved_more [OF from_t [OF m2]] by simp_all
  have room: "bl_reserved ?l1 + bl_actual ?l1 \<le> limit_of p (bl_scope ?l1) (bl_scope_key ?l1)"
    "bl_reserved ?l2 + bl_actual ?l2 \<le> limit_of p (bl_scope ?l2) (bl_scope_key ?l2)"
    using g1 g2 one two by (simp_all add: limit_of_def)
  have facts: "sd_authorizations u = sd_authorizations t" "sd_audits u = sd_audits t" "distinct (map bl_id (sd_ledgers u))"
    using one two ids2 rows(1) by (simp_all add: locked_def t3 u)
  have "ledger_moved t x m 0 \<and> bl_reserved x + bl_actual x \<le> limit_of p (bl_scope x) (bl_scope_key x)"
    if "x \<in> set (sd_ledgers u)" "bl_id x \<in> {pl, pr}" for x
  proof -
    have "x = ?l1 \<or> x = ?l2" using that unfolding rows(2) by blast
    with held room show ?thesis by (elim disjE) (simp_all only: simp_thms)
  qed
  moreover have "ledger_moved t x 0 0" if "x \<in> set (sd_ledgers u)" "bl_id x \<notin> {pl, pr}" for x
  proof (rule from_t)
    show "x \<in> set (sd_ledgers t2)" using that unfolding rows(2) by (auto simp: pl pr)
  qed
  ultimately show ?thesis using facts diff lids by (simp add: window_held_def)
qed


section \<open>Giving back and charging\<close>

definition ledgers_shifted :: "spend_db \<Rightarrow> string set \<Rightarrow> int \<Rightarrow> int \<Rightarrow> spend_db \<Rightarrow> bool" where
  "ledgers_shifted t S dr da u \<longleftrightarrow> sd_authorizations u = sd_authorizations t \<and> sd_audits u = sd_audits t \<and>
     map bl_id (sd_ledgers u) = map bl_id (sd_ledgers t) \<and>
     (\<forall>l \<in> set (sd_ledgers u). \<exists>l0 \<in> set (sd_ledgers t). bl_id l = bl_id l0 \<and> bl_scope l = bl_scope l0 \<and>
        bl_scope_key l = bl_scope_key l0 \<and> bl_limit l = bl_limit l0 \<and>
        bl_reserved l = bl_reserved l0 + (if bl_id l \<in> S then dr else 0) \<and>
        bl_actual l = bl_actual l0 + (if bl_id l \<in> S then da else 0))"

lemma adjust_one:
  assumes l: "l \<in> set (sd_ledgers t)" and "r \<le> bl_reserved l"
  shows "ledgers_shifted t {bl_id l} (- r) c (put_ledger (l\<lparr>bl_reserved := max 0 (bl_reserved l - r),
    bl_actual := bl_actual l + c, bl_version := bl_version l + 1\<rparr>) t)" (is "ledgers_shifted t _ _ _ (put_ledger ?l t)")
proof -
  let ?u = "put_ledger ?l t"
  have u: "sd_ledgers ?u = update_where (\<lambda>x. bl_id x = bl_id l) (\<lambda>_. ?l) (sd_ledgers t)" by (simp add: put_ledger_def)
  have "\<exists>l0 \<in> set (sd_ledgers t). bl_id x = bl_id l0 \<and> bl_scope x = bl_scope l0 \<and> bl_scope_key x = bl_scope_key l0 \<and>
      bl_limit x = bl_limit l0 \<and> bl_reserved x = bl_reserved l0 + (if bl_id x \<in> {bl_id l} then - r else 0) \<and>
      bl_actual x = bl_actual l0 + (if bl_id x \<in> {bl_id l} then c else 0)" if "x \<in> set (sd_ledgers ?u)" for x
  proof (cases "bl_id x = bl_id l")
    case True
    with that have "x = ?l" unfolding u set_update_where by (elim bexE) (simp split: if_split_asm)
    then show ?thesis using l assms(2) by (intro bexI [of _ l]) simp_all
  next
    case False
    with that have "x \<in> set (sd_ledgers t)" unfolding u set_update_where by auto
    with False show ?thesis by (intro bexI [of _ x]) simp_all
  qed
  moreover have "map bl_id (sd_ledgers ?u) = map bl_id (sd_ledgers t)"
    unfolding u by (rule map_update_where) simp
  ultimately show ?thesis by (simp add: ledgers_shifted_def put_ledger_def)
qed

lemma adjust_rows:
  "adjust_ledgers r c is t = Inr u \<Longrightarrow> sd_authorizations u = sd_authorizations t \<and> sd_audits u = sd_audits t"
  by (induction "is" arbitrary: t) (auto simp: put_ledger_def split: option.split_asm)

lemma adjust_ledgers_Inr:
  assumes "adjust_ledgers r c is t = Inr u" and "distinct is" and "distinct (map bl_id (sd_ledgers t))"
    and "\<forall>l \<in> set (sd_ledgers t). bl_id l \<in> set is \<longrightarrow> r \<le> bl_reserved l"
  shows "ledgers_shifted t (set is) (- r) c u"
  using assms
proof (induction "is" arbitrary: t)
  case Nil
  then show ?case by (auto simp: ledgers_shifted_def)
next
  case (Cons i "is")
  then obtain l where l: "ledger_by_id t i = Some l" by (auto split: option.split_asm)
  from row_where_SomeD [OF l [unfolded ledger_by_id_def]] have mem: "l \<in> set (sd_ledgers t)" and i: "bl_id l = i" by auto
  define t1 where "t1 = put_ledger (l\<lparr>bl_reserved := max 0 (bl_reserved l - r), bl_actual := bl_actual l + c,
    bl_version := bl_version l + 1\<rparr>) t"
  have rest: "adjust_ledgers r c is t1 = Inr u" using Cons.prems(1) l by (simp add: t1_def)
  have first: "ledgers_shifted t {i} (- r) c t1"
    unfolding t1_def i [symmetric] using Cons.prems mem i by (intro adjust_one) auto
  have "ledgers_shifted t1 (set is) (- r) c u"
  proof (rule Cons.IH [OF rest])
    show "distinct is" using Cons.prems(2) by simp
    show "distinct (map bl_id (sd_ledgers t1))" using first Cons.prems(3) by (simp add: ledgers_shifted_def)
    show "\<forall>l \<in> set (sd_ledgers t1). bl_id l \<in> set is \<longrightarrow> r \<le> bl_reserved l"
    proof (intro ballI impI)
      fix x assume x: "x \<in> set (sd_ledgers t1)" "bl_id x \<in> set is"
      from first x(1) obtain l0 where l0: "l0 \<in> set (sd_ledgers t)" "bl_id x = bl_id l0"
          "bl_reserved x = bl_reserved l0 + (if bl_id x \<in> {i} then - r else 0)"
        unfolding ledgers_shifted_def by blast
      moreover have "bl_id x \<noteq> i" using x(2) Cons.prems(2) by auto
      ultimately show "r \<le> bl_reserved x" using Cons.prems(4) x(2) by auto
    qed
  qed
  then show ?case using first Cons.prems(2) unfolding ledgers_shifted_def by fastforce
qed

end
