(* ===== verification/Production_Safety.thy ===== *)
theory Production_Safety
  imports Production_Ledgers
begin

text \<open>
  Spend under concurrency. \<open>spend_txn ps s t u\<close> is one transaction of the production budget under
  one of the operator's policies \<open>ps\<close>. Every transaction that writes is a \<open>spend_shift\<close>, keeps the
  facts of every grant and only adds to the audit log.
\<close>

section \<open>Transactions\<close>

inductive spend_txn :: "spend_policy set \<Rightarrow> spend_db \<Rightarrow> spend_db \<Rightarrow> spend_db \<Rightarrow> bool" for ps where
  txn_generation: "p \<in> ps \<Longrightarrow> fresh_env env t \<Longrightarrow> authorize_generation p env s t rq = Inr (v, u) \<Longrightarrow> spend_txn ps s t u"
| txn_operation: "p \<in> ps \<Longrightarrow> fresh_env env t \<Longrightarrow> authorize_operation p env s t rq = Inr (v, u) \<Longrightarrow> spend_txn ps s t u"
| txn_boundary: "p \<in> ps \<Longrightarrow> fresh_env env t \<Longrightarrow> prepare_boundary p env t i provider m fence ev = Inr (v, u) \<Longrightarrow>
    spend_txn ps s t u"
| txn_give_back: "release_pre_boundary t i ev = Inr (v, u) \<Longrightarrow> spend_txn ps s t u"
| txn_settlement: "settle_spend t i cost ev source = Inr (v, u) \<Longrightarrow> spend_txn ps s t u"
| txn_finding: "reconcile_spend audit_id_of request_hash s t rq = Inr (v, u) \<Longrightarrow> spend_txn ps s t u"

section \<open>Every operation that writes moves one authorization\<close>

lemma held_le:
  assumes inv: "spend_inv t" and a: "a \<in> set (sd_authorizations t)" and l: "l \<in> set (sd_ledgers t)"
    and "bl_id l \<in> set (ledgers_of a)"
  shows "sa_reserved_cost a \<le> bl_reserved l"
proof -
  have "0 \<le> held_on (bl_id l) x" if "x \<in> set (sd_authorizations t)" for x
    using inv that by (auto simp: spend_inv_def held_on_def authorization_ok_def)
  with a have "held_on (bl_id l) a \<le> tally (held_on (bl_id l)) (sd_authorizations t)" by (rule tally_member_le)
  with inv l assms(4) show ?thesis by (simp add: spend_inv_def held_on_def)
qed

definition charge :: "spend_authorization \<Rightarrow> int" where
  "charge a = (case sa_actual_cost a of None \<Rightarrow> 0 | Some c \<Rightarrow> c)"

lemma close_shift:
  assumes inv: "spend_inv t" and a: "a \<in> set (sd_authorizations t)" and open_: "sa_actual_cost a = None"
    and adj: "adjust_ledgers (sa_reserved_cost a) d (ledgers_of a) t = Inr t1"
    and c: "sa_id c = sa_id a" "sa_operation_key c = sa_operation_key a" "ledgers_of c = ledgers_of a"
      "sa_max_cost c = sa_max_cost a" "sa_reserved_cost c = 0" "charge c = d" "authorization_ok c"
    and held: "sa_reserved_cost a = sa_max_cost a"
    and u: "sd_ledgers u = sd_ledgers t1"
      "sd_authorizations u = update_where (\<lambda>x. sa_id x = sa_id a) (\<lambda>_. c) (sd_authorizations t)"
  shows "spend_shift ps t (Some a) c u"
proof -
  have ids: "distinct (map bl_id (sd_ledgers t))" and ok: "authorization_ok a" and known: "set (ledgers_of a) \<subseteq> ledger_ids t"
    using inv a by (auto simp: spend_inv_def)
  have "ledgers_shifted t (set (ledgers_of a)) (- sa_reserved_cost a) d t1"
  proof (rule adjust_ledgers_Inr [OF adj _ ids])
    show "distinct (ledgers_of a)" using ok by (auto simp: authorization_ok_def ledgers_of_def)
    show "\<forall>l \<in> set (sd_ledgers t). bl_id l \<in> set (ledgers_of a) \<longrightarrow> sa_reserved_cost a \<le> bl_reserved l"
      using held_le [OF inv a] by blast
  qed
  then have rows: "map bl_id (sd_ledgers u) = map bl_id (sd_ledgers t)"
    and shifted: "\<forall>l \<in> set (sd_ledgers u). \<exists>l0 \<in> set (sd_ledgers t). bl_id l = bl_id l0 \<and> bl_scope l = bl_scope l0 \<and>
        bl_scope_key l = bl_scope_key l0 \<and> bl_limit l = bl_limit l0 \<and>
        bl_reserved l = bl_reserved l0 + (if bl_id l \<in> set (ledgers_of a) then - sa_reserved_cost a else 0) \<and>
        bl_actual l = bl_actual l0 + (if bl_id l \<in> set (ledgers_of a) then d else 0)"
    by (simp_all add: ledgers_shifted_def u)
  have lids: "ledger_ids u = ledger_ids t" using arg_cong [OF rows, of set] by (simp add: ledger_ids_def)
  have mr: "moved held_on (Some a) c i = (if i \<in> set (ledgers_of a) then - sa_reserved_cost a else 0)" for i
    using c by (simp add: moved_def held_on_def)
  have mc: "moved charged_on (Some a) c i = (if i \<in> set (ledgers_of a) then d else 0)" for i
    using c open_ by (simp add: moved_def charged_on_def charge_def)
  have mo: "(if i \<in> set (ledgers_of a) then max 0 (d - sa_max_cost a) else 0) = moved overrun_on (Some a) c i" for i
    using c open_ ok by (auto simp: moved_def overrun_on_def charge_def authorization_ok_def split: option.splits)
  have "ledger_moved t l (moved held_on (Some a) c (bl_id l)) (moved charged_on (Some a) c (bl_id l)) \<and>
      bl_id l \<in> ledger_ids t \<and>
      moved held_on (Some a) c (bl_id l) + moved charged_on (Some a) c (bl_id l) \<le> moved overrun_on (Some a) c (bl_id l)"
    if "l \<in> set (sd_ledgers u)" for l
  proof -
    from shifted that obtain l0 where l0: "l0 \<in> set (sd_ledgers t)" "bl_id l = bl_id l0" "bl_scope l = bl_scope l0"
        "bl_scope_key l = bl_scope_key l0"
        "bl_reserved l = bl_reserved l0 + (if bl_id l \<in> set (ledgers_of a) then - sa_reserved_cost a else 0)"
        "bl_actual l = bl_actual l0 + (if bl_id l \<in> set (ledgers_of a) then d else 0)" by blast
    have "ledger_moved t l (moved held_on (Some a) c (bl_id l)) (moved charged_on (Some a) c (bl_id l))"
      unfolding mr mc by (rule ledger_movedI [OF l0])
    moreover have "bl_id l \<in> ledger_ids t" using l0 by (simp add: ledger_ids_def)
    moreover have "moved held_on (Some a) c (bl_id l) + moved charged_on (Some a) c (bl_id l) \<le> moved overrun_on (Some a) c (bl_id l)"
      unfolding mr mc mo [symmetric] using held by auto
    ultimately show ?thesis by blast
  qed
  moreover have "writes_authorization t (Some a) c (sd_authorizations u)"
    using a c u(2) by (simp add: writes_authorization_def)
  moreover have "distinct (map bl_id (sd_ledgers u))" using ids rows by simp
  ultimately show ?thesis unfolding spend_shift_def lids c(3) using known c(7) by blast
qed

lemma window_shift:
  assumes inv: "spend_inv t" and p: "p \<in> ps" and held: "window_held p t pl pr m t1"
    and a: "ledgers_of a = [pl, pr]" "sa_reserved_cost a = m" "sa_actual_cost a = None" "authorization_ok a"
    and before: "\<And>b. before = Some b \<Longrightarrow> sa_reserved_cost b = 0 \<and> sa_actual_cost b = None"
    and u: "sd_ledgers u = sd_ledgers t1" "writes_authorization t before a (sd_authorizations u)"
  shows "spend_shift ps t before a u"
proof -
  have none: "(case before of None \<Rightarrow> 0 | Some b \<Rightarrow> held_on i b) = 0" "(case before of None \<Rightarrow> 0 | Some b \<Rightarrow> charged_on i b) = 0"
    "(case before of None \<Rightarrow> 0 | Some b \<Rightarrow> overrun_on i b) = 0" for i
    using before by (auto simp: held_on_def charged_on_def overrun_on_def split: option.split)
  have mr: "moved held_on before a i = (if i \<in> {pl, pr} then m else 0)" for i
    unfolding moved_def none by (simp add: held_on_def a)
  have mc: "moved charged_on before a i = 0" "moved overrun_on before a i = 0" for i
    unfolding moved_def none by (simp_all add: charged_on_def overrun_on_def a)
  have lids: "ledger_ids u = {pl, pr} \<union> ledger_ids t" using held u(1) by (simp add: window_held_def ledger_ids_def)
  have "ledger_moved t l (if bl_id l \<in> {pl, pr} then m else 0) 0 \<and>
      (bl_id l \<in> ledger_ids t \<and> (if bl_id l \<in> {pl, pr} then m else 0) + 0 \<le> 0 \<or>
       (\<exists>p \<in> ps. bl_reserved l + bl_actual l \<le> limit_of p (bl_scope l) (bl_scope_key l)))" if "l \<in> set (sd_ledgers u)" for l
  proof (cases "bl_id l \<in> {pl, pr}")
    case True
    with held that p show ?thesis by (auto simp: window_held_def u)
  next
    case False
    moreover from that have "bl_id l \<in> ledger_ids u" by (simp add: ledger_ids_def)
    ultimately have "bl_id l \<in> ledger_ids t" using lids by blast
    moreover have "ledger_moved t l (if bl_id l \<in> {pl, pr} then m else 0) 0"
      using held that unfolding window_held_def u(1) by blast
    ultimately show ?thesis using False by simp
  qed
  moreover have "distinct (map bl_id (sd_ledgers u))" using held u(1) by (simp add: window_held_def)
  moreover have "set (ledgers_of a) \<subseteq> ledger_ids u" "ledger_ids t \<subseteq> ledger_ids u" by (auto simp: a lids)
  ultimately show ?thesis unfolding spend_shift_def mr mc using a(4) u(2) by blast
qed


section \<open>What every transaction keeps\<close>

text \<open>
  The facts an authorization was granted for never change; a settled row never changes, and a row
  that left \<open>RESERVED\<close> does not come back to it. The audit log grows at its end.
\<close>

definition same_grant :: "spend_authorization \<Rightarrow> spend_authorization \<Rightarrow> bool" where
  "same_grant a b \<longleftrightarrow> sa_id b = sa_id a \<and> sa_operation_key b = sa_operation_key a \<and> sa_kind b = sa_kind a \<and>
     sa_workspace_id b = sa_workspace_id a \<and> sa_project_id b = sa_project_id a \<and> sa_job_id b = sa_job_id a \<and>
     sa_provider b = sa_provider a \<and> sa_model b = sa_model a \<and> sa_max_cost b = sa_max_cost a"

definition row_keeps :: "spend_authorization \<Rightarrow> spend_authorization \<Rightarrow> bool" where
  "row_keeps a b \<longleftrightarrow> b = a \<or> same_grant a b \<and> sa_version a < sa_version b \<and> sa_status a \<noteq> SETTLED \<and> sa_status b \<noteq> RESERVED"

lemma row_keeps_refl [simp]: "row_keeps a a"
  by (simp add: row_keeps_def)

lemma row_keeps_trans: "row_keeps a b \<Longrightarrow> row_keeps b c \<Longrightarrow> row_keeps a c"
  unfolding row_keeps_def by (elim disjE) (simp_all add: same_grant_def)

definition spend_frame :: "spend_db \<Rightarrow> spend_db \<Rightarrow> bool" where
  "spend_frame t u \<longleftrightarrow> (\<forall>a \<in> set (sd_authorizations t). \<exists>b \<in> set (sd_authorizations u). row_keeps a b) \<and>
     prefix (sd_audits t) (sd_audits u)"

lemma spend_frame_refl: "spend_frame t t"
  by (auto simp: spend_frame_def intro!: bexI row_keeps_refl)

lemma spend_frame_trans:
  assumes st: "spend_frame s t" and tu: "spend_frame t u"
  shows "spend_frame s u"
proof -
  have "\<exists>c \<in> set (sd_authorizations u). row_keeps a c" if a: "a \<in> set (sd_authorizations s)" for a
  proof -
    from st a obtain b where b: "b \<in> set (sd_authorizations t)" "row_keeps a b" by (auto simp: spend_frame_def)
    from tu b(1) obtain c where "c \<in> set (sd_authorizations u)" "row_keeps b c" by (auto simp: spend_frame_def)
    with b(2) show ?thesis by (blast intro: row_keeps_trans)
  qed
  with st tu show ?thesis by (auto simp: spend_frame_def intro: prefix_order.trans)
qed

definition spend_safe :: "spend_policy set \<Rightarrow> spend_db \<Rightarrow> spend_db \<Rightarrow> bool" where
  "spend_safe ps t u \<longleftrightarrow> spend_frame t u \<and>
     (sd_ledgers u = sd_ledgers t \<and> sd_authorizations u = sd_authorizations t \<or> (\<exists>before a. spend_shift ps t before a u))"

lemma safe_same: "spend_safe ps t t"
  by (simp add: spend_safe_def spend_frame_refl)

lemma safe_shift:
  assumes inv: "spend_inv t" and shift: "spend_shift ps t before a u" and "prefix (sd_audits t) (sd_audits u)"
    and keeps: "\<And>b. before = Some b \<Longrightarrow> row_keeps b a"
  shows "spend_safe ps t u"
proof -
  have w: "writes_authorization t before a (sd_authorizations u)" using shift by (simp add: spend_shift_def)
  have "\<exists>y \<in> set (sd_authorizations u). row_keeps x y" if x: "x \<in> set (sd_authorizations t)" for x
  proof (cases before)
    case None
    with w x show ?thesis by (auto simp: writes_authorization_def intro!: bexI row_keeps_refl)
  next
    case (Some b)
    with w have b: "b \<in> set (sd_authorizations t)"
      and rows: "sd_authorizations u = update_where (\<lambda>x. sa_id x = sa_id b) (\<lambda>_. a) (sd_authorizations t)"
      by (simp_all add: writes_authorization_def)
    show ?thesis
    proof (cases "sa_id x = sa_id b")
      case True
      then have "x = b" using inv x b by (auto simp: spend_inv_def dest: distinct_keyD)
      moreover have "a \<in> set (sd_authorizations u)" unfolding rows by (rule update_where_hit [OF b]) simp
      ultimately show ?thesis using keeps [OF Some] by blast
    next
      case False
      then have "x \<in> set (sd_authorizations u)" unfolding rows by (intro update_where_miss [OF x])
      then show ?thesis by (blast intro: row_keeps_refl)
    qed
  qed
  with assms(2,3) show ?thesis by (auto simp: spend_safe_def spend_frame_def)
qed

lemma authorization_byD:
  "authorization_by_id t i = Some a \<Longrightarrow> a \<in> set (sd_authorizations t) \<and> sa_id a = i"
  unfolding authorization_by_id_def by (rule row_where_SomeD)

lemma inv_ok: "spend_inv t \<Longrightarrow> a \<in> set (sd_authorizations t) \<Longrightarrow> authorization_ok a"
  by (simp add: spend_inv_def)

lemma open_ok:
  "authorization_ok a \<Longrightarrow> sa_status a = RESERVED \<or> sa_status a = UNCERTAIN \<Longrightarrow>
   sa_actual_cost a = None \<and> sa_reserved_cost a = sa_max_cost a"
  by (auto simp: authorization_ok_def)

lemma release_spend_safe:
  assumes "release_pre_boundary t i ev = Inr (v, u)" and inv: "spend_inv t"
  shows "spend_safe ps t u"
proof -
  from assms(1) obtain a where a: "authorization_by_id t i = Some a"
    by (auto simp: release_pre_boundary_def Let_def split: if_split_asm option.split_asm)
  note mem = conjunct1 [OF authorization_byD [OF a]]
  show ?thesis
  proof (cases "sa_status a = RELEASED")
    case True
    then have "u = t" using assms(1) a by (auto simp: release_pre_boundary_def Let_def split: if_split_asm)
    then show ?thesis by (simp add: safe_same)
  next
    case False
    let ?c = "a\<lparr>sa_reserved_cost := 0, sa_status := RELEASED, sa_evidence := Some (take 500 (py_strip ev)),
      sa_version := sa_version a + 1\<rparr>"
    from False assms(1) a obtain t1 where st: "sa_status a = RESERVED \<or> sa_status a = UNCERTAIN"
      and adj: "adjust_ledgers (sa_reserved_cost a) 0 (ledgers_of a) t = Inr t1" and u: "u = put_authorization ?c t1"
      by (auto simp: release_pre_boundary_def Let_def res_simps split: if_split_asm)
    note o = open_ok [OF inv_ok [OF inv mem] st]
    have rows: "sd_authorizations t1 = sd_authorizations t \<and> sd_audits t1 = sd_audits t"
      using adj by (rule adjust_rows)
    have "authorization_ok ?c" using inv_ok [OF inv mem] o by (auto simp: authorization_ok_def)
    then have "spend_shift ps t (Some a) ?c u"
      by (intro close_shift [OF inv mem _ adj]) (simp_all add: o u rows put_authorization_def ledgers_of_def charge_def)
    then show ?thesis using st
      by (intro safe_shift [OF inv]) (auto simp: u rows put_authorization_def row_keeps_def same_grant_def)
  qed
qed


lemma spend_money_nonneg: "spend_money v = Inr q \<Longrightarrow> 0 \<le> q"
  by (auto simp: spend_money_def Let_def split: if_split_asm)

lemma settle_safe:
  assumes "settle_spend t i cost ev source = Inr (v, u)" and inv: "spend_inv t"
  shows "spend_safe ps t u"
proof -
  from assms(1) obtain a amount where a: "authorization_by_id t i = Some a"
    and amount: "(case cost of None \<Rightarrow> Inr (sa_max_cost a) | Some x \<Rightarrow> spend_money x) = Inr amount"
    by (auto simp: settle_spend_def Let_def res_simps split: if_split_asm option.split_asm)
  note mem = conjunct1 [OF authorization_byD [OF a]] and ok = inv_ok [OF inv conjunct1 [OF authorization_byD [OF a]]]
  have nonneg: "0 \<le> amount"
    using amount ok by (cases cost) (auto simp: authorization_ok_def dest: spend_money_nonneg)
  show ?thesis
  proof (cases "sa_status a = SETTLED")
    case True
    then have "u = t"
      using assms(1) a amount by (auto simp: settle_spend_def Let_def res_simps split: if_split_asm)
    then show ?thesis by (simp add: safe_same)
  next
    case False
    let ?c = "a\<lparr>sa_reserved_cost := 0, sa_actual_cost := Some amount, sa_settlement_source := Some source,
      sa_evidence := Some (take 500 (py_strip ev)), sa_status := SETTLED, sa_version := sa_version a + 1\<rparr>"
    from False assms(1) a amount obtain t1 where st: "sa_status a = RESERVED \<or> sa_status a = UNCERTAIN"
      and adj: "adjust_ledgers (sa_reserved_cost a) amount (ledgers_of a) t = Inr t1" and u: "u = put_authorization ?c t1"
      by (auto simp: settle_spend_def Let_def res_simps split: if_split_asm)
    note o = open_ok [OF ok st] and rows = adjust_rows [OF adj]
    have "authorization_ok ?c" using ok nonneg by (auto simp: authorization_ok_def)
    then have "spend_shift ps t (Some a) ?c u"
      by (intro close_shift [OF inv mem _ adj]) (simp_all add: o u rows put_authorization_def ledgers_of_def charge_def)
    then show ?thesis using st
      by (intro safe_shift [OF inv]) (auto simp: u rows put_authorization_def row_keeps_def same_grant_def)
  qed
qed

definition finding_row :: "reconcile_request \<Rightarrow> spend_facts \<Rightarrow> spend_authorization \<Rightarrow> spend_authorization" where
  "finding_row rq facts a =
     (let settled = rr_action rq = SPEND_SETTLE_ACTUAL_COST;
          amount = (case sf_actual_cost facts of None \<Rightarrow> 0 | Some c \<Rightarrow> c)
      in a\<lparr>sa_actual_cost := (if settled then Some amount else None),
           sa_status := (if settled then SETTLED else RELEASED), sa_reserved_cost := 0,
           sa_settlement_source := Some SOURCE_RECONCILED_MANUAL, sa_evidence := Some (sf_evidence facts),
           sa_version := sa_version a + 1\<rparr>)"

lemma reconcile_new:
  assumes "reconcile_spend audit_id_of request_hash s t rq = Inr (v, u)"
  shows "u = t \<or> (\<exists>key detail facts a t1 d. check_finding rq = Inr (key, detail, facts) \<and>
     authorization_by_id t (rr_authorization_id rq) = Some a \<and> sa_status a = UNCERTAIN \<and>
     d = charge (finding_row rq facts a) \<and> adjust_ledgers (sa_reserved_cost a) d (ledgers_of a) t = Inr t1 \<and>
     sd_ledgers u = sd_ledgers t1 \<and> sd_authorizations u = sd_authorizations (put_authorization (finding_row rq facts a) t1) \<and>
     prefix (sd_audits t1) (sd_audits u))"
proof -
  from assms obtain key detail facts where check: "check_finding rq = Inr (key, detail, facts)"
    by (auto simp: reconcile_spend_def res_simps)
  show ?thesis
  proof (cases "audit_by_id s (audit_id_of key)")
    case (Some audit)
    with assms check have "u = t"
      by (auto simp: reconcile_spend_def Let_def split: if_split_asm option.split_asm)
    then show ?thesis ..
  next
    case None
    let ?n = "case sf_actual_cost facts of None \<Rightarrow> 0 | Some c \<Rightarrow> c"
    let ?d = "if rr_action rq = SPEND_SETTLE_ACTUAL_COST then ?n else 0"
    from None assms check obtain a t1 where a: "authorization_by_id t (rr_authorization_id rq) = Some a" "sa_status a = UNCERTAIN"
      and adj: "adjust_ledgers (sa_reserved_cost a) ?d (ledgers_of a) t = Inr t1"
      and u: "sd_ledgers u = sd_ledgers t1" "prefix (sd_audits t1) (sd_audits u)"
        "sd_authorizations u = sd_authorizations (put_authorization (finding_row rq facts a) t1)"
      by (auto simp: reconcile_spend_def Let_def res_simps put_authorization_def finding_row_def
          split: if_split_asm option.split_asm)
    have "?d = charge (finding_row rq facts a)" by (simp add: finding_row_def charge_def Let_def)
    with check a adj u have "check_finding rq = Inr (key, detail, facts) \<and>
      authorization_by_id t (rr_authorization_id rq) = Some a \<and> sa_status a = UNCERTAIN \<and>
      ?d = charge (finding_row rq facts a) \<and> adjust_ledgers (sa_reserved_cost a) ?d (ledgers_of a) t = Inr t1 \<and>
      sd_ledgers u = sd_ledgers t1 \<and> sd_authorizations u = sd_authorizations (put_authorization (finding_row rq facts a) t1) \<and>
      prefix (sd_audits t1) (sd_audits u)" by (intro conjI)
    then show ?thesis by (intro disjI2 exI)
  qed
qed

lemma check_finding_nonneg:
  "check_finding rq = Inr (key, detail, facts) \<Longrightarrow> 0 \<le> (case sf_actual_cost facts of None \<Rightarrow> 0 | Some c \<Rightarrow> c)"
  by (cases "rr_actual_cost rq")
    (auto simp: check_finding_def Let_def res_simps dest: spend_money_nonneg split: if_split_asm)

lemma reconcile_safe:
  assumes "reconcile_spend audit_id_of request_hash s t rq = Inr (v, u)" and inv: "spend_inv t"
  shows "spend_safe ps t u"
proof (cases "u = t")
  case True
  then show ?thesis by (simp add: safe_same)
next
  case False
  with reconcile_new [OF assms(1)] obtain key detail facts a t1 d where
    check: "check_finding rq = Inr (key, detail, facts)" and a: "authorization_by_id t (rr_authorization_id rq) = Some a"
    and st: "sa_status a = UNCERTAIN" and d: "d = charge (finding_row rq facts a)"
    and adj: "adjust_ledgers (sa_reserved_cost a) d (ledgers_of a) t = Inr t1"
    and u: "sd_ledgers u = sd_ledgers t1" "sd_authorizations u = sd_authorizations (put_authorization (finding_row rq facts a) t1)"
      "prefix (sd_audits t1) (sd_audits u)" by blast
  note mem = conjunct1 [OF authorization_byD [OF a]]
  note ok = inv_ok [OF inv mem] and o = open_ok [OF inv_ok [OF inv mem] disjI2 [OF st]] and rows = adjust_rows [OF adj]
  let ?c = "finding_row rq facts a"
  have "authorization_ok ?c"
    using ok check_finding_nonneg [OF check] by (auto simp: authorization_ok_def finding_row_def Let_def)
  then have "spend_shift ps t (Some a) ?c u"
    by (intro close_shift [OF inv mem _ adj])
      (simp_all add: o u rows put_authorization_def ledgers_of_def d finding_row_def Let_def)
  then show ?thesis using st u rows
    by (intro safe_shift [OF inv]) (auto simp: row_keeps_def same_grant_def finding_row_def Let_def split: if_split_asm)
qed


lemma inv_ids: "spend_inv t \<Longrightarrow> distinct (map bl_id (sd_ledgers t))"
  by (simp add: spend_inv_def)

text \<open>Preparation moves a reserved row as it is, or reserves the window again for a released one.\<close>

lemma prepare_cases:
  assumes "prepare_boundary p env t i provider m fence ev = Inr ((c, replayed), u)"
  obtains a where "authorization_by_id t i = Some a" "replayed" "c = a" "u = t" "sa_status a = UNCERTAIN \<or> sa_status a = SETTLED"
    | a b t1 where "authorization_by_id t i = Some a" "\<not> replayed"
        "c = b\<lparr>sa_status := UNCERTAIN, sa_fence := fence, sa_evidence := Some (take 500 (py_strip ev)), sa_version := sa_version b + 1\<rparr>"
        "u = put_authorization c t1" "sa_status a = RESERVED" "b = a" "t1 = t"
    | a b t1 pl pr where "authorization_by_id t i = Some a" "\<not> replayed"
        "c = b\<lparr>sa_status := UNCERTAIN, sa_fence := fence, sa_evidence := Some (take 500 (py_strip ev)), sa_version := sa_version b + 1\<rparr>"
        "u = put_authorization c t1" "sa_status a = RELEASED"
        "reserve_window p env t (sa_provider a) (sa_max_cost a) = Inr ((pl, pr), t1)"
        "b = a\<lparr>sa_platform_ledger := pl, sa_provider_ledger := pr, sa_reserved_cost := sa_max_cost a\<rparr>"
proof -
  from assms obtain a where a: "authorization_by_id t i = Some a"
    by (auto simp: prepare_boundary_def Let_def split: if_split_asm option.split_asm)
  note eq = assms [unfolded prepare_boundary_def Let_def a option.case if_Inl_Inr_iff]
  have "(sa_status a = UNCERTAIN \<or> sa_status a = SETTLED) \<or> sa_status a = RELEASED \<or> sa_status a = RESERVED" (is ?st)
  proof (rule ccontr)
    assume "\<not> ?st"
    with eq show False by simp
  qed
  then consider "sa_status a = UNCERTAIN \<or> sa_status a = SETTLED" | "sa_status a = RELEASED" | "sa_status a = RESERVED" by blast
  then show thesis
  proof cases
    case 1
    with eq have "Inr ((a, True), t) = (Inr ((c, replayed), u) :: spend_error + (spend_authorization \<times> bool) \<times> spend_db)"
      by (elim conjE) (simp only: if_True)
    then have "c = a" "replayed" "u = t" by simp_all
    with that(1) [OF a] 1 show thesis by blast
  next
    case 2
    with eq obtain w0 where "reserve_window p env t (sa_provider a) (sa_max_cost a) = Inr w0"
      by (cases "reserve_window p env t (sa_provider a) (sa_max_cost a)") simp_all
    then obtain pl pr t1 where w: "reserve_window p env t (sa_provider a) (sa_max_cost a) = Inr ((pl, pr), t1)"
      by (cases w0) fastforce
    let ?b = "a\<lparr>sa_platform_ledger := pl, sa_provider_ledger := pr, sa_reserved_cost := sa_max_cost a\<rparr>"
    from eq 2 w have "\<not> replayed" "u = put_authorization c t1"
      "c = ?b\<lparr>sa_status := UNCERTAIN, sa_fence := fence, sa_evidence := Some (take 500 (py_strip ev)), sa_version := sa_version ?b + 1\<rparr>"
      by auto
    with that(3) [OF a] 2 w show thesis by blast
  next
    case 3
    with eq have "\<not> replayed" "u = put_authorization c t"
      "c = a\<lparr>sa_status := UNCERTAIN, sa_fence := fence, sa_evidence := Some (take 500 (py_strip ev)), sa_version := sa_version a + 1\<rparr>"
      by auto
    with that(2) [OF a] 3 show thesis by blast
  qed
qed

lemma prepare_safe:
  assumes "prepare_boundary p env t i provider m fence ev = Inr (v, u)" and inv: "spend_inv t"
    and p: "p \<in> ps" and fresh: "fresh_env env t"
  shows "spend_safe ps t u"
proof -
  obtain c replayed where v: "v = (c, replayed)" by fastforce
  from assms(1) [unfolded v] show ?thesis
  proof (cases rule: prepare_cases)
    case (1 a)
    then show ?thesis by (simp add: safe_same)
  next
    case (2 a b t1)
    note mem = conjunct1 [OF authorization_byD [OF 2(1)]]
    note o = open_ok [OF inv_ok [OF inv mem] disjI1 [OF 2(5)]]
    have ok: "authorization_ok c" using inv_ok [OF inv mem] 2(3,5,6) by (auto simp: authorization_ok_def)
    have same: "moved g (Some a) c j = 0" if "g = held_on \<or> g = charged_on \<or> g = overrun_on" for g j
      using that 2(3,6) o by (auto simp: moved_def held_on_def charged_on_def overrun_on_def ledgers_of_def)
    have "ledger_moved t l 0 0 \<and> bl_id l \<in> ledger_ids t" if "l \<in> set (sd_ledgers t)" for l
      using that by (auto simp: ledger_moved_def ledger_ids_def)
    moreover have "sd_ledgers u = sd_ledgers t" using 2(4,7) by (simp add: put_authorization_def)
    moreover have "writes_authorization t (Some a) c (sd_authorizations u)"
      using mem 2(3,4,6,7) by (simp add: writes_authorization_def put_authorization_def)
    moreover have "set (ledgers_of c) \<subseteq> ledger_ids t" using inv mem 2(3,6) by (auto simp: spend_inv_def ledgers_of_def)
    ultimately have "spend_shift ps t (Some a) c u"
      using ok inv_ids [OF inv] by (simp add: spend_shift_def same ledger_ids_def)
    then show ?thesis
      by (rule safe_shift [OF inv]) (use 2 in \<open>auto simp: put_authorization_def row_keeps_def same_grant_def\<close>)
  next
    case (3 a b t1 pl pr)
    note mem = conjunct1 [OF authorization_byD [OF 3(1)]]
    have rel: "sa_reserved_cost a = 0" "sa_actual_cost a = None" "0 < sa_max_cost a"
      using inv_ok [OF inv mem] 3(5) by (auto simp: authorization_ok_def)
    have held: "window_held p t pl pr (sa_max_cost a) t1" by (rule reserve_window_Inr [OF 3(6) inv_ids [OF inv] fresh])
    then have rows: "sd_authorizations t1 = sd_authorizations t" "sd_audits t1 = sd_audits t" "pl \<noteq> pr"
      by (simp_all add: window_held_def)
    have "spend_shift ps t (Some a) c u"
    proof (rule window_shift [OF inv p held])
      show "authorization_ok c" using 3(3,7) rel rows(3) by (simp add: authorization_ok_def)
      show "writes_authorization t (Some a) c (sd_authorizations u)"
        using mem 3(3,4,7) rows(1) by (simp add: writes_authorization_def put_authorization_def)
    qed (use 3(3,4,7) rel in \<open>simp_all add: ledgers_of_def put_authorization_def\<close>)
    then show ?thesis
      by (rule safe_shift [OF inv])
        (use 3(3,4,5,7) rows in \<open>auto simp: put_authorization_def row_keeps_def same_grant_def\<close>)
  qed
qed

lemma insert_authorization_Inr:
  "insert_authorization a t = Inr u \<longleftrightarrow>
     sa_operation_key a \<notin> sa_operation_key ` set (sd_authorizations t) \<and>
     (sa_job_id a = None \<or> sa_job_id a \<notin> sa_job_id ` set (sd_authorizations t)) \<and>
     u = t\<lparr>sd_authorizations := sd_authorizations t @ [a]\<rparr>"
proof -
  have "list_ex (\<lambda>x. sa_operation_key x = sa_operation_key a \<or> (sa_job_id a \<noteq> None \<and> sa_job_id x = sa_job_id a))
      (sd_authorizations t) \<longleftrightarrow> sa_operation_key a \<in> sa_operation_key ` set (sd_authorizations t) \<or>
      sa_job_id a \<noteq> None \<and> sa_job_id a \<in> sa_job_id ` set (sd_authorizations t)"
    unfolding list_ex_iff image_iff eq_commute [of "sa_operation_key a"] eq_commute [of "sa_job_id a"] by blast
  then show ?thesis unfolding insert_authorization_def by (simp only: if_Inl_Inr_iff sum.inject) blast
qed

lemma authorize_cases:
  assumes "authorize p env s t rq = Inr ((a, replayed), u)"
  obtains "replayed" "u = t" "a \<in> set (sd_authorizations t)" "sa_operation_key a = py_strip (sq_operation_key rq)"
    | pl pr amount t1 where "\<not> replayed" "spend_money (sq_max_cost rq) = Inr amount" "0 < amount"
        "reserve_window p env t (py_strip (sq_provider rq)) amount = Inr ((pl, pr), t1)"
        "a = new_authorization env rq amount pl pr" "insert_authorization a t1 = Inr u"
proof -
  let ?found = "if authorization_for s (py_strip (sq_operation_key rq)) = None then None
    else authorization_for t (py_strip (sq_operation_key rq))"
  show thesis
  proof (cases ?found)
    case None
    with assms that(2) show thesis
      by (auto simp: authorize_def Let_def res_simps not_le split: if_split_asm)
  next
    case (Some x)
    with assms have x: "replayed" "u = t" "a = x" by (auto simp: authorize_def Let_def res_simps split: if_split_asm)
    from Some have "authorization_for t (py_strip (sq_operation_key rq)) = Some x" by (auto split: if_split_asm)
    from row_where_SomeD [OF this [unfolded authorization_for_def]] x that(1) show thesis by blast
  qed
qed

lemma authorize_safe:
  assumes "authorize p env s t rq = Inr (v, u)" and inv: "spend_inv t" and p: "p \<in> ps" and fresh: "fresh_env env t"
  shows "spend_safe ps t u"
proof -
  obtain a replayed where v: "v = (a, replayed)" by fastforce
  from assms(1) [unfolded v] show ?thesis
  proof (cases rule: authorize_cases)
    case 1
    then show ?thesis by (simp add: safe_same)
  next
    case (2 pl pr amount t1)
    have held: "window_held p t pl pr amount t1" by (rule reserve_window_Inr [OF 2(4) inv_ids [OF inv] fresh])
    then have rows: "sd_authorizations t1 = sd_authorizations t" "sd_audits t1 = sd_audits t" "pl \<noteq> pr"
      by (simp_all add: window_held_def)
    note ins = 2(6) [unfolded insert_authorization_Inr]
    have "spend_shift ps t None a u"
    proof (rule window_shift [OF inv p held])
      show "authorization_ok a" using 2(3) rows(3) by (simp add: 2(5) new_authorization_def authorization_ok_def)
      show "writes_authorization t None a (sd_authorizations u)"
        using ins rows(1) fresh by (simp add: writes_authorization_def 2(5) new_authorization_def fresh_env_def)
    qed (use ins in \<open>simp_all add: 2(5) new_authorization_def ledgers_of_def\<close>)
    then show ?thesis by (rule safe_shift [OF inv]) (use ins rows in simp_all)
  qed
qed

lemma spend_txn_safe:
  assumes "spend_txn ps s t u" and inv: "spend_inv t"
  shows "spend_safe ps t u"
  using assms(1)
proof cases
  case (txn_generation p env rq v)
  then show ?thesis using authorize_safe [OF _ inv] by (auto simp: authorize_generation_def split: if_split_asm)
next
  case (txn_operation p env rq v)
  then show ?thesis using authorize_safe [OF _ inv] by (auto simp: authorize_operation_def split: if_split_asm)
qed (blast intro: prepare_safe [OF _ inv] release_spend_safe [OF _ inv] settle_safe [OF _ inv] reconcile_safe [OF _ inv])+

text \<open>Shift or not, the sums are kept, and the breaker holds under any caps the policies respect.\<close>

definition caps :: "spend_policy set \<Rightarrow> (string \<Rightarrow> string \<Rightarrow> int) \<Rightarrow> bool" where
  "caps ps cap \<longleftrightarrow> (\<forall>p \<in> ps. \<forall>scope key. limit_of p scope key \<le> cap scope key)"

lemma safe_inv:
  assumes "spend_safe ps t u" and "spend_inv t"
  shows "spend_inv u"
  using assms by (auto simp: spend_safe_def intro: shift_inv) (simp_all add: spend_inv_def ledger_ids_def)

lemma safe_breaker:
  assumes "spend_safe ps t u" and "spend_inv t" and "breaker cap t" and "caps ps cap"
  shows "breaker cap u"
  using assms by (auto simp: spend_safe_def caps_def intro: shift_breaker) (simp add: breaker_def)


text \<open>What holds at every moment: the sums, and the breaker under any caps the policies respect.\<close>

definition spend_guarded :: "spend_policy set \<Rightarrow> spend_db \<Rightarrow> bool" where
  "spend_guarded ps t \<longleftrightarrow> spend_inv t \<and> (\<forall>cap. caps ps cap \<longrightarrow> breaker cap t)"

interpretation platform_spend: optimistic_txn "spend_txn ps" "spend_guarded ps" spend_frame for ps
proof unfold_locales
  show "spend_guarded ps u" and "spend_frame t u"
    if "spend_guarded ps s" "spend_guarded ps t" "spend_frame s t" "spend_txn ps s t u" for s t u
    using spend_txn_safe [OF that(4)] that(2) safe_inv safe_breaker
    by (auto simp: spend_guarded_def) (simp add: spend_safe_def)
qed (auto intro: spend_frame_refl spend_frame_trans)

lemma empty_guarded: "spend_guarded ps \<lparr>sd_ledgers = [], sd_authorizations = [], sd_audits = []\<rparr>"
  by (simp add: spend_guarded_def spend_inv_def breaker_def)

lemma kept_row:
  assumes "interleaved (spend_txn ps) t u" and "spend_guarded ps t" and "a \<in> set (sd_authorizations t)"
  obtains b where "authorization_by_id u (sa_id a) = Some b" and "row_keeps a b"
proof -
  from platform_spend.execution [OF assms(1,2)] have inv: "spend_inv u" and "spend_frame t u"
    by (auto simp: spend_guarded_def)
  with assms(3) obtain b where b: "b \<in> set (sd_authorizations u)" "row_keeps a b" by (auto simp: spend_frame_def)
  then have "sa_id b = sa_id a" by (auto simp: row_keeps_def same_grant_def)
  with b inv have "authorization_by_id u (sa_id a) = Some b"
    using row_where_key [of sa_id "sd_authorizations u" b] by (simp add: spend_inv_def authorization_by_id_def)
  with b(2) that show thesis by blast
qed

end
