(* ===== verification/Production_Properties.thy ===== *)
theory Production_Properties
  imports Production_Safety
begin

text \<open>
  The production budget's properties: what its ledgers add up to and where they stop under any
  interleaving, when an authorization is granted, what a release gives back, and which row a second
  preparation or a second settlement meets.
\<close>

section \<open>When a window has room\<close>

definition used_in :: "spend_db \<Rightarrow> string \<Rightarrow> string \<Rightarrow> int \<Rightarrow> int" where
  "used_in t scope key start = (case ledger_for t scope key start of None \<Rightarrow> 0 | Some l \<Rightarrow> bl_reserved l + bl_actual l)"

lemma row_where_skip:
  "(\<And>x. x \<in> set rows \<Longrightarrow> Q x \<Longrightarrow> \<not> P x \<and> \<not> P (f x)) \<Longrightarrow> row_where P (update_where Q f rows) = row_where P rows"
  by (induction rows) auto

lemma row_where_append: "row_where P (xs @ ys) = (case row_where P xs of None \<Rightarrow> row_where P ys | Some x \<Rightarrow> Some x)"
  by (induction xs) auto

lemma ledger_for_put:
  assumes "l \<in> set (sd_ledgers t)" and ids: "distinct (map bl_id (sd_ledgers t))" and "bl_id l' = bl_id l"
    and "bl_scope l' = bl_scope l" and "bl_scope l \<noteq> scope"
  shows "ledger_for (put_ledger l' t) scope key start = ledger_for t scope key start"
  unfolding ledger_for_def put_ledger_def
proof (simp, rule row_where_skip)
  fix x assume "x \<in> set (sd_ledgers t)" "bl_id x = bl_id l'"
  with assms have "x = l" by (auto dest: distinct_keyD)
  with assms show "\<not> (bl_scope x = scope \<and> bl_scope_key x = key \<and> bl_window_start x = start) \<and>
      \<not> (bl_scope l' = scope \<and> bl_scope_key l' = key \<and> bl_window_start l' = start)" by simp
qed

lemma ledger_for_update_used:
  assumes "ledger_for_update p new_id now t scope key limit = (l, u)" and ids: "distinct (map bl_id (sd_ledgers t))"
  shows "bl_reserved l + bl_actual l = used_in t scope key (window_start_for now (sp_window_seconds p))"
    and "scope' \<noteq> scope \<Longrightarrow> ledger_for u scope' key' start' = ledger_for t scope' key' start'"
proof -
  let ?start = "window_start_for now (sp_window_seconds p)"
  have "bl_reserved l + bl_actual l = used_in t scope key ?start \<and>
      (scope' \<noteq> scope \<longrightarrow> ledger_for u scope' key' start' = ledger_for t scope' key' start')"
  proof (cases "ledger_for t scope key ?start")
    case None
    with assms(1) show ?thesis
      by (auto simp: ledger_for_update_def used_in_def Let_def ledger_for_def row_where_append split: option.split)
  next
    case (Some l0)
    then have "l0 \<in> set (sd_ledgers t)" "bl_scope l0 = scope" using row_where_SomeD unfolding ledger_for_def by fastforce+
    then have "ledger_for (put_ledger (l0\<lparr>bl_limit := limit, bl_version := bl_version l0 + 1\<rparr>) t) scope' key' start' =
        ledger_for t scope' key' start'" if "scope' \<noteq> scope" using that ids by (intro ledger_for_put) auto
    with Some assms(1) show ?thesis
      by (auto simp: ledger_for_update_def used_in_def Let_def split: if_split_asm)
  qed
  then show "bl_reserved l + bl_actual l = used_in t scope key ?start"
    and "scope' \<noteq> scope \<Longrightarrow> ledger_for u scope' key' start' = ledger_for t scope' key' start'" by blast+
qed

definition ledger_name :: "budget_ledger \<Rightarrow> string" where
  "ledger_name l = (if bl_scope l = PLATFORM_SCOPE then ''platform'' else ''provider '' @ bl_scope_key l)"

lemma reserve_on_ledger_decides:
  assumes ids: "distinct (map bl_id (sd_ledgers t))" and l: "l \<in> set (sd_ledgers t)"
  shows "bl_limit l < bl_reserved l + bl_actual l + m \<Longrightarrow>
      reserve_on_ledger t l m = Inl (ProductionBudgetExceeded (ledger_name l) m (ledger_remaining l))"
    and "bl_reserved l + bl_actual l + m \<le> bl_limit l \<Longrightarrow> \<exists>u. reserve_on_ledger t l m = Inr u"
proof -
  let ?P = "\<lambda>x. bl_id x = bl_id l \<and> bl_reserved x + bl_actual x + m \<le> bl_limit x"
  have only: "x = l" if "x \<in> set (sd_ledgers t)" "bl_id x = bl_id l" for x using ids that l by (auto dest: distinct_keyD)
  have by_id: "ledger_by_id t (bl_id l) = Some l" unfolding ledger_by_id_def by (rule row_where_key [OF ids l])
  show "reserve_on_ledger t l m = Inl (ProductionBudgetExceeded (ledger_name l) m (ledger_remaining l))"
    if "bl_limit l < bl_reserved l + bl_actual l + m"
  proof -
    have "filter ?P (sd_ledgers t) = []" using that only by (force simp: filter_empty_conv)
    then show ?thesis by (simp add: reserve_on_ledger_def affected_def by_id ledger_name_def)
  qed
  show "\<exists>u. reserve_on_ledger t l m = Inr u" if "bl_reserved l + bl_actual l + m \<le> bl_limit l"
  proof -
    have "affected ?P (sd_ledgers t) = affected (\<lambda>x. bl_id x = bl_id l) (sd_ledgers t)"
      unfolding affected_def using only that by (intro arg_cong [of _ _ length] filter_cong) auto
    with affected_key_one [OF ids l] show ?thesis by (simp add: reserve_on_ledger_def)
  qed
qed

lemma reserve_window_decides:
  assumes ids: "distinct (map bl_id (sd_ledgers t))" and fresh: "fresh_env env t"
    and P: "P = used_in t PLATFORM_SCOPE PLATFORM_SCOPE_KEY (window_start_for (se_now env) (sp_window_seconds p))"
    and R: "R = used_in t PROVIDER_SCOPE provider (window_start_for (se_now env) (sp_window_seconds p))"
  shows "sp_platform_limit p < P + m \<Longrightarrow> reserve_window p env t provider m =
      Inl (ProductionBudgetExceeded ''platform'' m (max 0 (sp_platform_limit p - P)))"
    and "P + m \<le> sp_platform_limit p \<Longrightarrow> provider_limit p provider < R + m \<Longrightarrow> reserve_window p env t provider m =
      Inl (ProductionBudgetExceeded (''provider '' @ provider) m (max 0 (provider_limit p provider - R)))"
    and "P + m \<le> sp_platform_limit p \<Longrightarrow> R + m \<le> provider_limit p provider \<Longrightarrow>
      \<exists>ids u. reserve_window p env t provider m = Inr (ids, u)"
proof -
  obtain l1 t1 where first: "ledger_for_update p (se_platform_ledger_id env) (se_now env) t PLATFORM_SCOPE PLATFORM_SCOPE_KEY
      (sp_platform_limit p) = (l1, t1)" by fastforce
  obtain l2 t2 where second: "ledger_for_update p (se_provider_ledger_id env) (se_now env) t1 PROVIDER_SCOPE provider
      (provider_limit p provider) = (l2, t2)" by fastforce
  have eq: "reserve_window p env t provider m = res_bind (reserve_on_ledger t2 l1 m) (\<lambda>t3.
      res_bind (reserve_on_ledger t3 l2 m) (\<lambda>t4. Inr ((bl_id l1, bl_id l2), t4)))"
    by (simp add: reserve_window_def first second)
  note lock = window_locks [OF first second ids fresh]
  have u1: "bl_reserved l1 + bl_actual l1 = P" unfolding P by (rule ledger_for_update_used [OF first ids])
  have u2: "bl_reserved l2 + bl_actual l2 = R"
    using ledger_for_update_used(1) [OF second lock(1)] ledger_for_update_used(2) [OF first ids, of PROVIDER_SCOPE]
    by (simp add: R used_in_def)
  have n: "ledger_name l1 = ''platform''" "ledger_name l2 = ''provider '' @ provider"
    "ledger_remaining l1 = max 0 (sp_platform_limit p - P)" "ledger_remaining l2 = max 0 (provider_limit p provider - R)"
    using lock u1 u2 by (simp_all add: ledger_name_def ledger_remaining_def)
  note d1 = reserve_on_ledger_decides [OF lock(2,3), of m]
  show "reserve_window p env t provider m = Inl (ProductionBudgetExceeded ''platform'' m (max 0 (sp_platform_limit p - P)))"
    if "sp_platform_limit p < P + m" using d1(1) that u1 lock unfolding eq n by simp
  show "reserve_window p env t provider m =
      Inl (ProductionBudgetExceeded (''provider '' @ provider) m (max 0 (provider_limit p provider - R)))"
    if room: "P + m \<le> sp_platform_limit p" and "provider_limit p provider < R + m"
  proof -
    from d1(2) room u1 lock obtain t3 where t3: "reserve_on_ledger t2 l1 m = Inr t3" by auto
    from reserve_on_ledger_decides(1) [OF reserved_first [OF t3 lock(2-5)], of m] that u2 lock
    show ?thesis unfolding eq t3 by (simp add: n)
  qed
  show "\<exists>ids u. reserve_window p env t provider m = Inr (ids, u)"
    if room: "P + m \<le> sp_platform_limit p" and "R + m \<le> provider_limit p provider"
  proof -
    from d1(2) room u1 lock obtain t3 where t3: "reserve_on_ledger t2 l1 m = Inr t3" by auto
    from reserve_on_ledger_decides(2) [OF reserved_first [OF t3 lock(2-5)], of m] that u2 lock
    show ?thesis unfolding eq t3 by auto
  qed
qed


lemma spend_execution:
  assumes "interleaved (spend_txn ps) s t" and "spend_guarded ps s"
  shows "spend_inv t" and "spend_guarded ps t" and "spend_frame s t"
  using platform_spend.execution [OF assms] by (auto simp: spend_guarded_def)

section \<open>One call from grant to settlement\<close>

definition demo_limits :: spend_policy where
  "demo_limits = \<lparr>sp_platform_limit = 5000000, sp_provider_limits = [(''veo'', 2000000)], sp_window_seconds = 86400\<rparr>"

definition demo_ids :: spend_env where
  "demo_ids = \<lparr>se_now = 100000, se_platform_ledger_id = ''L1'', se_provider_ledger_id = ''L2'', se_authorization_id = ''A1''\<rparr>"

definition demo_turn :: spend_request where
  "demo_turn = \<lparr>sq_operation_key = '' op-1 '', sq_kind = MODEL_ROLE_KIND, sq_job_id = None, sq_workspace_id = None,
     sq_project_id = None, sq_model_role = Some ''director'', sq_provider = ''veo'', sq_model = ''veo-3'', sq_max_cost = 3 / 2,
     sq_quoted_credits = 0, sq_pricing_version = ''v1''\<rparr>"

definition demo_ledger :: "string \<Rightarrow> string \<Rightarrow> string \<Rightarrow> int \<Rightarrow> int \<Rightarrow> int \<Rightarrow> int \<Rightarrow> budget_ledger" where
  "demo_ledger i scope key limit reserved actual v = \<lparr>bl_id = i, bl_scope = scope, bl_scope_key = key, bl_window_start = 86400,
     bl_window_seconds = 86400, bl_limit = limit, bl_reserved = reserved, bl_actual = actual, bl_version = v\<rparr>"

definition demo_grant :: spend_authorization where
  "demo_grant = new_authorization demo_ids demo_turn 1500000 ''L1'' ''L2''"

definition no_spend :: spend_db where
  "no_spend = \<lparr>sd_ledgers = [], sd_authorizations = [], sd_audits = []\<rparr>"

definition demo_granted :: spend_db where
  "demo_granted = \<lparr>sd_ledgers = [demo_ledger ''L1'' PLATFORM_SCOPE PLATFORM_SCOPE_KEY 5000000 1500000 0 2,
       demo_ledger ''L2'' PROVIDER_SCOPE ''veo'' 2000000 1500000 0 2],
     sd_authorizations = [demo_grant], sd_audits = []\<rparr>"

lemma demo_grants: "authorize demo_limits demo_ids no_spend no_spend demo_turn = Inr ((demo_grant, False), demo_granted)"
  by code_simp


definition demo_next_ids :: spend_env where
  "demo_next_ids = \<lparr>se_now = 100100, se_platform_ledger_id = ''L3'', se_provider_ledger_id = ''L4'', se_authorization_id = ''A2''\<rparr>"

definition demo_sent :: spend_authorization where
  "demo_sent = demo_grant\<lparr>sa_status := UNCERTAIN, sa_fence := FENCE_PRODUCTION, sa_evidence := Some ''sent'', sa_version := 2\<rparr>"

definition demo_charged :: spend_authorization where
  "demo_charged = demo_sent\<lparr>sa_reserved_cost := 0, sa_actual_cost := Some 1750000,
     sa_settlement_source := Some SOURCE_VERIFIED_PROVIDER, sa_evidence := Some ''invoice'', sa_status := SETTLED, sa_version := 3\<rparr>"

definition demo_crossed :: spend_db where
  "demo_crossed = demo_granted\<lparr>sd_authorizations := [demo_sent]\<rparr>"

definition demo_paid :: spend_db where
  "demo_paid = \<lparr>sd_ledgers = [demo_ledger ''L1'' PLATFORM_SCOPE PLATFORM_SCOPE_KEY 5000000 0 1750000 3,
       demo_ledger ''L2'' PROVIDER_SCOPE ''veo'' 2000000 0 1750000 3],
     sd_authorizations = [demo_charged], sd_audits = []\<rparr>"

lemma demo_boundary:
  "prepare_boundary demo_limits demo_next_ids demo_granted ''A1'' ''veo'' ''veo-3'' FENCE_PRODUCTION ''sent'' =
     Inr ((demo_sent, False), demo_crossed)"
  by code_simp

lemma demo_settlement:
  "settle_spend demo_crossed ''A1'' (Some (7 / 4)) ''invoice'' SOURCE_VERIFIED_PROVIDER = Inr ((demo_charged, False), demo_paid)"
  by code_simp

lemma demo_fresh: "fresh_env demo_ids no_spend" "fresh_env demo_next_ids demo_granted" "fresh_env demo_next_ids demo_paid"
  by code_simp+

lemma demo_runs:
  "interleaved (spend_txn {demo_limits}) no_spend demo_granted"
  "interleaved (spend_txn {demo_limits}) demo_granted demo_crossed"
  "interleaved (spend_txn {demo_limits}) demo_crossed demo_paid"
proof -
  have one: "interleaved txn s u" if "txn s s u" for txn and s u :: spend_db
    using that by (rule interleaved.commit [OF interleaved.start interleaved.start])
  have "authorize_operation demo_limits demo_ids no_spend no_spend demo_turn = Inr ((demo_grant, False), demo_granted)"
    by code_simp
  then show "interleaved (spend_txn {demo_limits}) no_spend demo_granted"
    by (intro one txn_operation [OF _ demo_fresh(1)]) simp
  show "interleaved (spend_txn {demo_limits}) demo_granted demo_crossed"
    by (intro one txn_boundary [OF _ demo_fresh(2) demo_boundary]) simp
  show "interleaved (spend_txn {demo_limits}) demo_crossed demo_paid"
    by (intro one txn_settlement [OF demo_settlement])
qed

lemma demo_guarded:
  "spend_guarded ps no_spend" "spend_guarded {demo_limits} demo_granted" "spend_guarded {demo_limits} demo_crossed"
  "spend_guarded {demo_limits} demo_paid"
proof -
  show "spend_guarded ps no_spend" for ps using empty_guarded [of ps] by (simp add: no_spend_def)
  then show g: "spend_guarded {demo_limits} demo_granted" by (rule spend_execution(2) [OF demo_runs(1)])
  then show c: "spend_guarded {demo_limits} demo_crossed" by (rule spend_execution(2) [OF demo_runs(2)])
  then show "spend_guarded {demo_limits} demo_paid" by (rule spend_execution(2) [OF demo_runs(3)])
qed

lemma demo_caps: "caps {demo_limits} (limit_of demo_limits)"
  by (simp add: caps_def)

definition demo_second_turn :: spend_request where
  "demo_second_turn = demo_turn\<lparr>sq_operation_key := ''op-2'', sq_max_cost := 1 / 2\<rparr>"

section \<open>Invariants\<close>

text \<open>The sums the invariant is stated with, over the rows booked on one ledger.\<close>

lemma tally_booked:
  "tally (held_on i) rows = tally sa_reserved_cost (filter (\<lambda>a. i \<in> set (ledgers_of a)) rows)"
  "tally (charged_on i) rows = tally charge (filter (\<lambda>a. i \<in> set (ledgers_of a)) rows)"
  "tally (overrun_on i) rows = tally (\<lambda>a. if overran_quote a then charge a - sa_max_cost a else 0)
     (filter (\<lambda>a. i \<in> set (ledgers_of a)) rows)"
  by (induction rows) (auto simp: held_on_def charged_on_def overrun_on_def overran_quote_def charge_def split: option.split)

text \<open>
  C21. Over every interleaving of the service's transactions, whatever policies of the operator they run
  under, the reserved amount of a ledger is the sum of the holds of the authorizations booked on it and
  its actual amount the sum of their settled costs; and while the policies' limits stay within the caps,
  no ledger of any window ever holds and has spent more than its cap, plus what settlements above their
  own quote added.
\<close>

theorem breaker_stops_spend:
  assumes "interleaved (spend_txn ps) s t" and "spend_guarded ps s" and "caps ps cap" and "l \<in> set (sd_ledgers t)"
    and booked: "rows = filter (\<lambda>a. bl_id l \<in> set (ledgers_of a)) (sd_authorizations t)"
  shows "bl_reserved l = tally sa_reserved_cost rows \<and> bl_actual l = tally charge rows \<and>
    bl_reserved l + bl_actual l \<le> cap (bl_scope l) (bl_scope_key l) +
      tally (\<lambda>a. if overran_quote a then charge a - sa_max_cost a else 0) rows"
proof -
  have inv: "spend_inv t" "breaker cap t" using spend_execution(1,2) [OF assms(1,2)] assms(3) by (simp_all add: spend_guarded_def)
  then show ?thesis using assms(4) by (simp add: spend_inv_def breaker_def booked flip: tally_booked)
qed

lemma breaker_stops_spend_witness:
  "1750000 \<le> limit_of demo_limits PROVIDER_SCOPE ''veo'' + tally (\<lambda>a. if overran_quote a then charge a - sa_max_cost a else 0)
     (filter (\<lambda>a. ''L2'' \<in> set (ledgers_of a)) (sd_authorizations demo_paid)) \<and>
   tally charge (filter (\<lambda>a. ''L2'' \<in> set (ledgers_of a)) (sd_authorizations demo_paid)) = 1750000"
proof -
  let ?l = "demo_ledger ''L2'' PROVIDER_SCOPE ''veo'' 2000000 0 1750000 3"
  have "?l \<in> set (sd_ledgers demo_paid)" by (simp add: demo_paid_def)
  from breaker_stops_spend [OF demo_runs(3) demo_guarded(3) demo_caps this refl] show ?thesis by (simp add: demo_ledger_def)
qed

section \<open>Granting\<close>

text \<open>
  C22. A new authorization is granted exactly when its quote fits what is left of the platform's and of
  the provider's window; otherwise it is refused with the first of the two that is short, the amount
  and what remains there.
\<close>

theorem authorize_decides_by_room:
  assumes inv: "spend_guarded ps t" and fresh: "fresh_env env t"
    and request: "py_strip (sq_operation_key rq) \<noteq> ''''" "provider = py_strip (sq_provider rq)" "provider \<noteq> ''''"
      "py_strip (sq_model rq) \<noteq> ''''" "sq_kind rq = GENERATION_KIND \<or> sq_kind rq = MODEL_ROLE_KIND"
      "spend_money (sq_max_cost rq) = Inr amount" "0 < amount"
    and new: "authorization_for s (py_strip (sq_operation_key rq)) = None"
      "\<forall>a \<in> set (sd_authorizations t). sa_operation_key a \<noteq> py_strip (sq_operation_key rq) \<and>
        (sq_job_id rq \<noteq> None \<longrightarrow> sa_job_id a \<noteq> sq_job_id rq)"
    and used: "P = used_in t PLATFORM_SCOPE PLATFORM_SCOPE_KEY (window_start_for (se_now env) (sp_window_seconds p))"
      "R = used_in t PROVIDER_SCOPE provider (window_start_for (se_now env) (sp_window_seconds p))"
  shows "if sp_platform_limit p < P + amount
     then authorize p env s t rq = Inl (ProductionBudgetExceeded ''platform'' amount (max 0 (sp_platform_limit p - P)))
     else if provider_limit p provider < R + amount
     then authorize p env s t rq = Inl (ProductionBudgetExceeded (''provider '' @ provider) amount (max 0 (provider_limit p provider - R)))
     else \<exists>pl pr u. authorize p env s t rq = Inr ((new_authorization env rq amount pl pr, False), u)"
proof -
  have ids: "distinct (map bl_id (sd_ledgers t))" using inv by (simp add: spend_guarded_def spend_inv_def)
  have eq: "authorize p env s t rq = res_bind (reserve_window p env t provider amount) (\<lambda>((pl, pr), t1).
      res_bind (insert_authorization (new_authorization env rq amount pl pr) t1)
        (\<lambda>t2. Inr ((new_authorization env rq amount pl pr, False), t2)))"
    using request new(1) by (auto simp: authorize_def Let_def)
  note d = reserve_window_decides [OF ids fresh used, of amount]
  show ?thesis
  proof (cases "sp_platform_limit p < P + amount \<or> provider_limit p provider < R + amount")
    case True
    then show ?thesis using d(1,2) by (auto simp: eq)
  next
    case False
    with d(3) obtain pl pr t1 where w: "reserve_window p env t provider amount = Inr ((pl, pr), t1)" by fastforce
    then have "sd_authorizations t1 = sd_authorizations t"
      using reserve_window_Inr [OF w ids fresh] by (simp add: window_held_def)
    then have "insert_authorization (new_authorization env rq amount pl pr) t1 =
        Inr (t1\<lparr>sd_authorizations := sd_authorizations t1 @ [new_authorization env rq amount pl pr]\<rparr>)"
      using new(2) unfolding insert_authorization_Inr by (force simp: new_authorization_def)
    with False show ?thesis unfolding eq w by auto
  qed
qed

lemma authorize_decides_by_room_witness:
  "authorize demo_limits demo_next_ids demo_paid demo_paid demo_second_turn =
     Inl (ProductionBudgetExceeded ''provider veo'' 500000 250000)"
proof -
  have request: "py_strip (sq_operation_key demo_second_turn) \<noteq> ''''" "''veo'' = py_strip (sq_provider demo_second_turn)"
    "py_strip (sq_model demo_second_turn) \<noteq> ''''"
    "spend_money (sq_max_cost demo_second_turn) = Inr 500000" by code_simp+
  have kind: "sq_kind demo_second_turn = GENERATION_KIND \<or> sq_kind demo_second_turn = MODEL_ROLE_KIND" by code_simp
  have new: "authorization_for demo_paid (py_strip (sq_operation_key demo_second_turn)) = None"
    "\<forall>a \<in> set (sd_authorizations demo_paid). sa_operation_key a \<noteq> py_strip (sq_operation_key demo_second_turn) \<and>
       (sq_job_id demo_second_turn \<noteq> None \<longrightarrow> sa_job_id a \<noteq> sq_job_id demo_second_turn)" by code_simp+
  have used: "1750000 = used_in demo_paid PLATFORM_SCOPE PLATFORM_SCOPE_KEY
      (window_start_for (se_now demo_next_ids) (sp_window_seconds demo_limits))"
    "1750000 = used_in demo_paid PROVIDER_SCOPE ''veo'' (window_start_for (se_now demo_next_ids) (sp_window_seconds demo_limits))"
    by code_simp+
  have lim: "sp_platform_limit demo_limits = 5000000" "provider_limit demo_limits ''veo'' = 2000000" by code_simp+
  have "if sp_platform_limit demo_limits < 1750000 + 500000
     then authorize demo_limits demo_next_ids demo_paid demo_paid demo_second_turn =
       Inl (ProductionBudgetExceeded ''platform'' 500000 (max 0 (sp_platform_limit demo_limits - 1750000)))
     else if provider_limit demo_limits ''veo'' < 1750000 + 500000
     then authorize demo_limits demo_next_ids demo_paid demo_paid demo_second_turn =
       Inl (ProductionBudgetExceeded (''provider '' @ ''veo'') 500000 (max 0 (provider_limit demo_limits ''veo'' - 1750000)))
     else \<exists>pl pr u. authorize demo_limits demo_next_ids demo_paid demo_paid demo_second_turn =
       Inr ((new_authorization demo_next_ids demo_second_turn 500000 pl pr, False), u)"
    by (rule authorize_decides_by_room [OF demo_guarded(4) demo_fresh(3) request(1,2) _ request(3) kind request(4) _ new used]) simp_all
  then show ?thesis unfolding lim by simp
qed


section \<open>Giving back\<close>

lemma ledger_by_id_known:
  assumes "i \<in> ledger_ids t"
  obtains l where "ledger_by_id t i = Some l"
  using assms row_where_hit [of _ "sd_ledgers t" "\<lambda>l. bl_id l = i"] by (auto simp: ledger_ids_def ledger_by_id_def)

lemma adjust_ledgers_total:
  "set is \<subseteq> ledger_ids t \<Longrightarrow> \<exists>u. adjust_ledgers r c is t = Inr u"
proof (induction "is" arbitrary: t)
  case (Cons i "is")
  then obtain l where l: "ledger_by_id t i = Some l" by (auto elim: ledger_by_id_known)
  let ?t1 = "put_ledger (l\<lparr>bl_reserved := max 0 (bl_reserved l - r), bl_actual := bl_actual l + c, bl_version := bl_version l + 1\<rparr>) t"
  have "map bl_id (sd_ledgers ?t1) = map bl_id (sd_ledgers t)"
    unfolding put_ledger_def by (simp, rule map_update_where) simp
  from arg_cong [OF this, of set] have "ledger_ids ?t1 = ledger_ids t" by (simp add: ledger_ids_def)
  with Cons.prems have "set is \<subseteq> ledger_ids ?t1" by simp
  from Cons.IH [OF this] l show ?case by simp
qed simp

text \<open>
  C23. Authorizing and then releasing before the boundary succeeds and leaves every ledger with the held
  and spent amounts it had, a window opened on the way with none.
\<close>

theorem release_gives_the_room_back:
  assumes guarded: "spend_guarded ps t" and p: "p \<in> ps" "fresh_env env t"
    and granted: "authorize p env s t rq = Inr ((a, False), t1)" and "py_strip ev \<noteq> ''''"
  shows "\<exists>c u. release_pre_boundary t1 (sa_id a) ev = Inr ((c, False), u) \<and> sa_status c = RELEASED \<and>
    (\<forall>l \<in> set (sd_ledgers u). (\<exists>l0 \<in> set (sd_ledgers t). bl_id l = bl_id l0 \<and> bl_reserved l = bl_reserved l0 \<and>
        bl_actual l = bl_actual l0) \<or> bl_id l \<notin> ledger_ids t \<and> bl_reserved l = 0 \<and> bl_actual l = 0)"
proof -
  have inv: "spend_inv t" using guarded by (simp add: spend_guarded_def)
  have inv1: "spend_inv t1" by (rule safe_inv [OF authorize_safe [OF granted inv p] inv])
  from granted have "sa_status a = RESERVED \<and> sa_actual_cost a = None \<and> sd_authorizations t1 = sd_authorizations t @ [a]"
  proof (cases rule: authorize_cases)
    case (2 pl pr amount t0)
    have "sd_authorizations t0 = sd_authorizations t"
      using reserve_window_Inr [OF 2(4) inv_ids [OF inv] p(2)] by (simp add: window_held_def)
    with 2(6) have "sd_authorizations t1 = sd_authorizations t @ [a]" unfolding insert_authorization_Inr by simp
    moreover have "sa_status a = RESERVED" "sa_actual_cost a = None" using 2(5) by (simp_all add: new_authorization_def)
    ultimately show ?thesis by blast
  qed simp
  then have a: "sa_status a = RESERVED" "sa_actual_cost a = None" and t1: "sd_authorizations t1 = sd_authorizations t @ [a]"
    by blast+
  have row: "authorization_by_id t1 (sa_id a) = Some a"
    unfolding authorization_by_id_def by (rule row_where_key) (use inv1 t1 in \<open>simp_all add: spend_inv_def\<close>)
  have "set (ledgers_of a) \<subseteq> ledger_ids t1" using inv1 t1 by (simp add: spend_inv_def)
  then obtain t2 where t2: "adjust_ledgers (sa_reserved_cost a) 0 (ledgers_of a) t1 = Inr t2"
    using adjust_ledgers_total by blast
  let ?c = "a\<lparr>sa_reserved_cost := 0, sa_status := RELEASED, sa_evidence := Some (take 500 (py_strip ev)),
    sa_version := sa_version a + 1\<rparr>"
  let ?u = "put_authorization ?c t2"
  have released: "release_pre_boundary t1 (sa_id a) ev = Inr ((?c, False), ?u)"
    using assms(5) row a t2 by (simp add: release_pre_boundary_def Let_def)
  have inv2: "spend_inv ?u" by (rule safe_inv [OF release_spend_safe [OF released inv1] inv1])
  have "sa_id a \<notin> sa_id ` set (sd_authorizations t)" using inv1 t1 by (simp add: spend_inv_def)
  then have "update_where (\<lambda>x. sa_id x = sa_id a) (\<lambda>_. ?c) (sd_authorizations t) = sd_authorizations t"
    unfolding update_where_def by (intro map_idI) (auto simp: image_iff)
  then have rows: "sd_authorizations ?u = sd_authorizations t @ [?c]"
    using adjust_rows [OF t2] t1 by (simp add: put_authorization_def)
  have "(\<exists>l0 \<in> set (sd_ledgers t). bl_id l = bl_id l0 \<and> bl_reserved l = bl_reserved l0 \<and> bl_actual l = bl_actual l0) \<or>
      bl_id l \<notin> ledger_ids t \<and> bl_reserved l = 0 \<and> bl_actual l = 0" if l: "l \<in> set (sd_ledgers ?u)" for l
  proof -
    have "held_on (bl_id l) ?c = 0" "charged_on (bl_id l) ?c = 0" using a by (simp_all add: held_on_def charged_on_def)
    with inv2 l have l_sums: "bl_reserved l = tally (held_on (bl_id l)) (sd_authorizations t)"
      "bl_actual l = tally (charged_on (bl_id l)) (sd_authorizations t)"
      unfolding spend_inv_def rows by simp_all
    show ?thesis
    proof (cases "bl_id l \<in> ledger_ids t")
      case True
      then obtain l0 where "l0 \<in> set (sd_ledgers t)" "bl_id l = bl_id l0" by (auto simp: ledger_ids_def)
      with inv l_sums show ?thesis by (intro disjI1 bexI [of _ l0]) (simp_all add: spend_inv_def)
    next
      case False
      with l_sums absent_ledger [OF inv False] show ?thesis by simp
    qed
  qed
  with released show ?thesis by (intro exI [of _ ?c] exI [of _ ?u]) simp
qed

lemma release_gives_the_room_back_witness:
  "\<exists>c u. release_pre_boundary demo_granted ''A1'' ''no call'' = Inr ((c, False), u) \<and> sa_status c = RELEASED"
proof -
  have ev: "py_strip ''no call'' \<noteq> ''''" by code_simp
  have "sa_id demo_grant = ''A1''" by (simp add: demo_grant_def new_authorization_def demo_ids_def)
  with release_gives_the_room_back [OF demo_guarded(1) _ demo_fresh(1) demo_grants ev, of "{demo_limits}"] show ?thesis by auto
qed

section \<open>The boundary and the settlement\<close>


lemma put_row:
  assumes "a \<in> set rows" and "sa_id c = sa_id a"
  shows "c \<in> set (update_where (\<lambda>x. sa_id x = sa_id c) (\<lambda>_. c) rows)"
  using update_where_hit [OF assms(1), of "\<lambda>x. sa_id x = sa_id c" "\<lambda>_. c"] assms(2) by simp

lemma prepared_row:
  assumes "prepare_boundary p env t i provider m fence ev = Inr ((c, False), u)" and inv: "spend_inv t" and fresh: "fresh_env env t"
  shows "c \<in> set (sd_authorizations u) \<and> sa_id c = i \<and> sa_status c = UNCERTAIN"
  using assms(1)
proof (cases rule: prepare_cases)
  case (2 a b t1)
  then show ?thesis
    using put_row [of a "sd_authorizations t" c] authorization_byD [OF 2(1)] by (simp add: put_authorization_def)
next
  case (3 a b t1 pl pr)
  have "sd_authorizations t1 = sd_authorizations t"
    using reserve_window_Inr [OF 3(6) inv_ids [OF inv] fresh] by (simp add: window_held_def)
  with 3 show ?thesis
    using put_row [of a "sd_authorizations t" c] authorization_byD [OF 3(1)] by (simp add: put_authorization_def)
qed simp

text \<open>
  C24. After a boundary was prepared, and whatever ran since, another preparation of that authorization is
  a replay, unless it meets a released row at a later version.
\<close>

theorem boundary_is_prepared_once:
  assumes guarded: "spend_guarded ps t" and p: "p \<in> ps" "fresh_env env t"
    and first: "prepare_boundary p env t i provider m fence ev = Inr ((c, False), t1)"
    and run: "interleaved (spend_txn ps) t1 t2"
    and second: "prepare_boundary p' env' t2 i provider' m' fence' ev' = Inr ((d, replayed), t3)"
  shows "replayed \<or> (\<exists>b. authorization_by_id t2 i = Some b \<and> sa_status b = RELEASED \<and> sa_version c < sa_version b)"
proof -
  have inv: "spend_inv t" using guarded by (simp add: spend_guarded_def)
  have "spend_txn ps t t t1" using first p by (intro txn_boundary)
  with guarded have guarded1: "spend_guarded ps t1"
    by (intro platform_spend.txn_inv [OF guarded guarded spend_frame_refl])
  from prepared_row [OF first inv p(2)] have c: "c \<in> set (sd_authorizations t1)" "sa_id c = i" "sa_status c = UNCERTAIN" by auto
  obtain b where b: "authorization_by_id t2 i = Some b" "row_keeps c b"
    using kept_row [OF run guarded1 c(1)] c(2) by blast
  from second show ?thesis
  proof (cases rule: prepare_cases)
    case (2 a)
    with b c(3) show ?thesis by (auto simp: row_keeps_def)
  next
    case (3 a)
    with b c(3) show ?thesis by (auto simp: row_keeps_def)
  qed simp
qed

lemma boundary_is_prepared_once_witness:
  "\<exists>d. prepare_boundary demo_limits demo_next_ids demo_crossed ''A1'' ''veo'' ''veo-3'' FENCE_PRODUCTION ''again'' =
     Inr ((d, True), demo_crossed)"
proof -
  have second: "prepare_boundary demo_limits demo_next_ids demo_crossed ''A1'' ''veo'' ''veo-3'' FENCE_PRODUCTION ''again'' =
      Inr ((demo_sent, True), demo_crossed)" by code_simp
  have "authorization_by_id demo_crossed ''A1'' = Some demo_sent" "sa_status demo_sent = UNCERTAIN" by code_simp+
  with boundary_is_prepared_once [OF demo_guarded(2) _ demo_fresh(2) demo_boundary interleaved.start second]
  show ?thesis using second by auto
qed

lemma settled_row:
  assumes "settle_spend t i cost ev source = Inr ((c, r), u)"
  shows "c \<in> set (sd_authorizations u) \<and> sa_id c = i \<and> sa_status c = SETTLED"
proof -
  from assms obtain a amount where a: "authorization_by_id t i = Some a"
    and amount: "(case cost of None \<Rightarrow> Inr (sa_max_cost a) | Some x \<Rightarrow> spend_money x) = Inr amount"
    by (auto simp: settle_spend_def Let_def res_simps split: if_split_asm option.split_asm)
  note mem = authorization_byD [OF a]
  show ?thesis
  proof (cases "sa_status a = SETTLED")
    case True
    then have "c = a \<and> u = t"
      using assms(1) a amount by (auto simp: settle_spend_def Let_def res_simps split: if_split_asm)
    with mem True show ?thesis by simp
  next
    case False
    let ?c = "a\<lparr>sa_reserved_cost := 0, sa_actual_cost := Some amount, sa_settlement_source := Some source,
      sa_evidence := Some (take 500 (py_strip ev)), sa_status := SETTLED, sa_version := sa_version a + 1\<rparr>"
    from False assms(1) a amount obtain t1 where 
      adj: "adjust_ledgers (sa_reserved_cost a) amount (ledgers_of a) t = Inr t1" and u: "u = put_authorization ?c t1" "c = ?c"
      by (auto simp: settle_spend_def Let_def res_simps split: if_split_asm)
    then show ?thesis
      using put_row [of a "sd_authorizations t" ?c] mem adjust_rows [OF adj] by (simp add: put_authorization_def)
  qed
qed

text \<open>
  C25. After a settlement, and whatever ran since, the row is as it was settled: a release or an operator's
  finding is a conflict, a preparation is a replay, and a settlement that is accepted is a replay.
\<close>

theorem settled_spend_is_final:
  assumes guarded: "spend_guarded ps t" and settled: "settle_spend t i cost ev source = Inr ((c, r), t1)"
    and run: "interleaved (spend_txn ps) t1 t2"
  shows "authorization_by_id t2 i = Some c \<and>
    (py_strip ev' \<noteq> '''' \<longrightarrow> release_pre_boundary t2 i ev' = Inl (SpendConflict ''cannot release a spend authorization'')) \<and>
    (fence \<in> {FENCE_PRODUCTION, FENCE_CANARY} \<and> py_strip ev' \<noteq> '''' \<longrightarrow>
       prepare_boundary p env t2 i (sa_provider c) (sa_model c) fence ev' = Inr ((c, True), t2)) \<and>
    (settle_spend t2 i cost' ev' source' = Inr v \<longrightarrow> v = ((c, True), t2)) \<and>
    (check_finding rq = Inr (key, detail, facts) \<and> rr_authorization_id rq = i \<and> audit_by_id t2 (audit_id_of key) = None \<longrightarrow>
       reconcile_spend audit_id_of request_hash t2 t2 rq = Inl (SpendConflict ''reconciliation requires UNCERTAIN''))"
proof -
  have inv: "spend_inv t" using guarded by (simp add: spend_guarded_def)
  have "spend_txn ps t t t1" using settled by (intro txn_settlement)
  with guarded have guarded1: "spend_guarded ps t1"
    by (intro platform_spend.txn_inv [OF guarded guarded spend_frame_refl])
  from settled_row [OF settled] have c: "c \<in> set (sd_authorizations t1)" "sa_id c = i" "sa_status c = SETTLED" by auto
  obtain b where "authorization_by_id t2 i = Some b" "row_keeps c b"
    using kept_row [OF run guarded1 c(1)] c(2) by blast
  with c(3) have row: "authorization_by_id t2 i = Some c" by (auto simp: row_keeps_def)
  have "v = ((c, True), t2)" if "settle_spend t2 i cost' ev' source' = Inr v"
    using that row c(3) by (auto simp: settle_spend_def Let_def res_simps split: if_split_asm)
  moreover have "reconcile_spend audit_id_of request_hash t2 t2 rq = Inl (SpendConflict ''reconciliation requires UNCERTAIN'')"
    if "check_finding rq = Inr (key, detail, facts)" "rr_authorization_id rq = i" "audit_by_id t2 (audit_id_of key) = None"
    using that row c(3) by (simp add: reconcile_spend_def)
  ultimately show ?thesis using row c(3) by (auto simp: release_pre_boundary_def prepare_boundary_def)
qed

lemma settled_spend_is_final_witness:
  "release_pre_boundary demo_paid ''A1'' ''late'' = Inl (SpendConflict ''cannot release a spend authorization'')"
proof -
  have "py_strip ''late'' \<noteq> ''''" by code_simp
  with settled_spend_is_final [OF demo_guarded(3) demo_settlement interleaved.start, of "''late''"] show ?thesis by blast
qed

end
