(* ===== verification/Live_Canary.thy ===== *)
theory Live_Canary
  imports Production_Budget
begin

text \<open>
  The operator's permits for live calls, \<^verbatim>\<open>core/entitlements/entitlement_core/canary.py\<close>: a
  permit bounds the requests and the cost of one provider and model, a usage is one operation's share
  of it. Amounts are micro-dollars, times are seconds. Every operation locks the rows it changes, so
  it is one step on the state; the session rolls back when it raises, so \<open>Inl\<close> carries no state,
  not even the status the code assigns before it raises. Permits are kept in the order of
  \<^verbatim>\<open>created_at, id\<close>. Ids, hashes and the clock are arguments.
\<close>

section \<open>Tables\<close>

record live_permit =
  lp_id :: string
  lp_provider :: string
  lp_model :: string
  lp_max_requests :: int
  lp_max_cost :: int
  lp_used_requests :: int
  lp_reserved :: int
  lp_actual :: int
  lp_expires_at :: int
  lp_purpose :: string
  lp_status :: string
  lp_version :: int

record canary_usage =
  cu_id :: string
  cu_permit_id :: string
  cu_key :: string
  cu_provider :: string
  cu_model :: string
  cu_estimated :: int
  cu_actual :: "int option"
  cu_status :: string
  cu_evidence :: "string option"

record canary_audit =
  ca_id :: string
  ca_type :: string
  ca_action :: string
  ca_request_hash :: string
  ca_subject :: string

record canary_db =
  cd_permits :: "live_permit list"
  cd_usages :: "canary_usage list"
  cd_audits :: "canary_audit list"

datatype canary_error =
    CanaryValueError string
  | CanaryDenied string
  | CanaryConflict string
  | CanaryLookupError
  | CanaryRuntimeError string
  | CanaryIntegrityError

definition ACTIVE :: string where "ACTIVE = ''ACTIVE''"
definition EXHAUSTED :: string where "EXHAUSTED = ''EXHAUSTED''"
definition LIVE_CANARY_PERMIT_CREATED :: string where "LIVE_CANARY_PERMIT_CREATED = ''LIVE_CANARY_PERMIT_CREATED''"
definition CREATE_LIVE_CANARY_PERMIT :: string where "CREATE_LIVE_CANARY_PERMIT = ''CREATE_LIVE_CANARY_PERMIT''"
definition LIVE_CANARY_USAGE_RECONCILED :: string where "LIVE_CANARY_USAGE_RECONCILED = ''LIVE_CANARY_USAGE_RECONCILED''"
definition CONFIRM_PROVIDER_NOT_CREATED :: string where "CONFIRM_PROVIDER_NOT_CREATED = ''CONFIRM_PROVIDER_NOT_CREATED''"

text \<open>\<^verbatim>\<open>_money\<close>.\<close>

definition canary_money :: "rat \<Rightarrow> canary_error + int" where
  "canary_money v = (let q = round_half_even (v * 1000000) in
     if \<bar>q\<bar> \<ge> 10 ^ 28 then Inl (CanaryValueError ''canary cost must be a decimal amount'')
     else if q < 0 then Inl (CanaryValueError ''canary cost cannot be negative'')
     else Inr q)"

section \<open>Permits\<close>

definition permit_spent :: "live_permit \<Rightarrow> bool" where
  "permit_spent p \<longleftrightarrow> lp_used_requests p \<ge> lp_max_requests p \<or> lp_actual p + lp_reserved p \<ge> lp_max_cost p"

definition refresh_permit_capacity :: "int \<Rightarrow> live_permit \<Rightarrow> live_permit" where
  "refresh_permit_capacity now p =
     (if lp_status p \<noteq> ACTIVE \<and> lp_status p \<noteq> EXHAUSTED then p
      else if permit_spent p then p\<lparr>lp_status := EXHAUSTED\<rparr>
      else if lp_status p = EXHAUSTED \<and> lp_expires_at p > now then p\<lparr>lp_status := ACTIVE\<rparr>
      else p)"

record permit_request =
  pq_provider :: string
  pq_model :: string
  pq_max_requests :: int
  pq_max_cost :: rat
  pq_expires_at :: int
  pq_purpose :: string

definition new_permit :: "string \<Rightarrow> int \<Rightarrow> permit_request \<Rightarrow> canary_error + live_permit" where
  "new_permit new_id now rq =
     (let provider = py_strip (pq_provider rq); model = py_strip (pq_model rq); purpose = py_strip (pq_purpose rq) in
      res_bind (canary_money (pq_max_cost rq)) (\<lambda>maximum.
        if provider = '''' \<or> model = '''' \<or> purpose = ''''
        then Inl (CanaryValueError ''provider, model, and purpose are required'')
        else if pq_max_requests rq < 1 \<or> maximum \<le> 0 then Inl (CanaryValueError ''canary limits must be positive'')
        else if pq_expires_at rq \<le> now then Inl (CanaryValueError ''canary permit must expire in the future'')
        else Inr \<lparr>lp_id = new_id, lp_provider = provider, lp_model = model, lp_max_requests = pq_max_requests rq,
          lp_max_cost = maximum, lp_used_requests = 0, lp_reserved = 0, lp_actual = 0,
          lp_expires_at = pq_expires_at rq, lp_purpose = purpose, lp_status = ACTIVE, lp_version = 1\<rparr>))"

definition create_permit :: "string \<Rightarrow> int \<Rightarrow> canary_db \<Rightarrow> permit_request \<Rightarrow> canary_error + live_permit \<times> canary_db" where
  "create_permit new_id now t rq =
     res_bind (new_permit new_id now rq) (\<lambda>p. Inr (p, t\<lparr>cd_permits := cd_permits t @ [p]\<rparr>))"

definition permit_by_id :: "canary_db \<Rightarrow> string \<Rightarrow> live_permit option" where
  "permit_by_id t i = row_where (\<lambda>p. lp_id p = i) (cd_permits t)"

definition canary_audit_by_id :: "canary_db \<Rightarrow> string \<Rightarrow> canary_audit option" where
  "canary_audit_by_id t i = row_where (\<lambda>a. ca_id a = i) (cd_audits t)"

text \<open>\<^verbatim>\<open>_authorized_replay\<close>: the permit of an earlier grant under the same key, if there is one.\<close>

definition authorized_replay :: "canary_db \<Rightarrow> string \<Rightarrow> string \<Rightarrow> canary_error + live_permit option" where
  "authorized_replay t audit_id request_hash =
     (case canary_audit_by_id t audit_id of
        None \<Rightarrow> Inr None
      | Some audit \<Rightarrow>
          if ca_type audit \<noteq> LIVE_CANARY_PERMIT_CREATED \<or> ca_action audit \<noteq> CREATE_LIVE_CANARY_PERMIT \<or>
             ca_request_hash audit \<noteq> request_hash
          then Inl (CanaryConflict ''Idempotency-Key was already used for different live canary facts'')
          else case permit_by_id t (ca_subject audit) of
            None \<Rightarrow> Inl (CanaryRuntimeError ''live canary authorization audit points to a missing permit'')
          | Some p \<Rightarrow> Inr (Some p))"

text \<open>
  A loser of two concurrent grants hits the audit's primary key, rolls back and reads the winner: it
  sees the state in which the winner committed, so it is one step on that state.
\<close>

definition create_authorized ::
  "(string \<Rightarrow> string) \<Rightarrow> (live_permit \<Rightarrow> string) \<Rightarrow> string \<Rightarrow> int \<Rightarrow> canary_db \<Rightarrow> permit_request \<Rightarrow> bool \<Rightarrow> string \<Rightarrow> string \<Rightarrow>
   canary_error + (live_permit \<times> string \<times> bool) \<times> canary_db" where
  "create_authorized audit_id_of request_hash new_id now t rq explicit_confirmation actor idempotency_key =
     (let key = py_strip idempotency_key in
      if \<not> explicit_confirmation then Inl (CanaryValueError ''explicit confirmation is required'')
      else if actor \<noteq> PLATFORM_API_KEY then Inl (CanaryValueError ''live canary permits require the PLATFORM_API_KEY actor'')
      else if key = '''' \<or> length key > 200 then Inl (CanaryValueError ''a bounded Idempotency-Key is required'')
      else res_bind (new_permit new_id now rq) (\<lambda>p.
        let audit_id = audit_id_of key in
        res_bind (authorized_replay t audit_id (request_hash p)) (\<lambda>replay. case replay of
          Some old \<Rightarrow> Inr ((old, audit_id, True), t)
        | None \<Rightarrow> Inr ((p, audit_id, False), t\<lparr>cd_permits := cd_permits t @ [p], cd_audits := cd_audits t @
            [\<lparr>ca_id = audit_id, ca_type = LIVE_CANARY_PERMIT_CREATED, ca_action = CREATE_LIVE_CANARY_PERMIT,
              ca_request_hash = request_hash p, ca_subject = lp_id p\<rparr>]\<rparr>))))"

section \<open>Usages\<close>

definition canary_usage_by_id :: "canary_db \<Rightarrow> string \<Rightarrow> canary_usage option" where
  "canary_usage_by_id t i = row_where (\<lambda>u. cu_id u = i) (cd_usages t)"

definition put_permit :: "live_permit \<Rightarrow> canary_db \<Rightarrow> canary_db" where
  "put_permit p t = t\<lparr>cd_permits := update_where (\<lambda>x. lp_id x = lp_id p) (\<lambda>_. p) (cd_permits t)\<rparr>"

definition put_usage :: "canary_usage \<Rightarrow> canary_db \<Rightarrow> canary_db" where
  "put_usage u t = t\<lparr>cd_usages := update_where (\<lambda>x. cu_id x = cu_id u) (\<lambda>_. u) (cd_usages t)\<rparr>"

text \<open>The unique constraint of \<^verbatim>\<open>live_canary_usages\<close>.\<close>

definition insert_canary_usage :: "canary_usage \<Rightarrow> canary_db \<Rightarrow> canary_error + canary_db" where
  "insert_canary_usage u t =
     (if list_ex (\<lambda>x. cu_permit_id x = cu_permit_id u \<and> cu_key x = cu_key u) (cd_usages t) then Inl CanaryIntegrityError
      else Inr (t\<lparr>cd_usages := cd_usages t @ [u]\<rparr>))"

definition assert_replay :: "canary_usage \<Rightarrow> string \<Rightarrow> string \<Rightarrow> int \<Rightarrow> canary_error + unit" where
  "assert_replay u provider model estimate =
     (if cu_provider u \<noteq> provider \<or> cu_model u \<noteq> model \<or> cu_estimated u \<noteq> estimate
      then Inl (CanaryConflict ''canary idempotency key was reused with different facts'') else Inr ())"

text \<open>The permit after one more request, and the row of the request; the end of both reservations.\<close>

definition take_request ::
  "string \<Rightarrow> canary_db \<Rightarrow> live_permit \<Rightarrow> string \<Rightarrow> int \<Rightarrow> canary_error + (canary_usage \<times> bool) \<times> canary_db" where
  "take_request new_id t p key estimate =
     (let u = \<lparr>cu_id = new_id, cu_permit_id = lp_id p, cu_key = key, cu_provider = lp_provider p, cu_model = lp_model p,
            cu_estimated = estimate, cu_actual = None, cu_status = RESERVED, cu_evidence = None\<rparr>;
          q = p\<lparr>lp_used_requests := lp_used_requests p + 1, lp_reserved := lp_reserved p + estimate,
            lp_version := lp_version p + 1\<rparr>;
          q' = (if permit_spent q then q\<lparr>lp_status := EXHAUSTED\<rparr> else q)
      in res_bind (insert_canary_usage u (put_permit q' t)) (\<lambda>t'. Inr ((u, False), t')))"

text \<open>The usage is looked for in \<open>s\<close>, without a lock; the permit is locked in \<open>t\<close>.\<close>

definition reserve_permit ::
  "string \<Rightarrow> int \<Rightarrow> canary_db \<Rightarrow> canary_db \<Rightarrow> string \<Rightarrow> string \<Rightarrow> string \<Rightarrow> rat \<Rightarrow> string \<Rightarrow>
   canary_error + (canary_usage \<times> bool) \<times> canary_db" where
  "reserve_permit new_id now s t permit_id provider model estimated_cost idempotency_key =
     res_bind (canary_money estimated_cost) (\<lambda>estimate.
       let key = py_strip idempotency_key in
       if key = '''' then Inl (CanaryValueError ''canary idempotency_key is required'')
       else case row_where (\<lambda>u. cu_permit_id u = permit_id \<and> cu_key u = key) (cd_usages s) of
         Some u \<Rightarrow> res_bind (assert_replay u provider model estimate) (\<lambda>_. Inr ((u, True), t))
       | None \<Rightarrow> (case permit_by_id t permit_id of
           None \<Rightarrow> Inl (CanaryDenied ''live canary permit not found'')
         | Some p \<Rightarrow>
             if lp_expires_at p \<le> now then Inl (CanaryDenied ''live canary permit expired'')
             else if lp_provider p \<noteq> provider \<or> lp_model p \<noteq> model
             then Inl (CanaryDenied ''live canary permit does not match provider/model'')
             else if lp_used_requests p \<ge> lp_max_requests p then Inl (CanaryDenied ''live canary request limit reached'')
             else if lp_status p \<noteq> ACTIVE then Inl (CanaryDenied ''live canary permit is not active'')
             else if lp_actual p + lp_reserved p + estimate > lp_max_cost p
             then Inl (CanaryDenied ''live canary cost limit reached'')
             else take_request new_id t p key estimate))"

text \<open>A retry of an operation whose usage was released: the same row, the same permit, once more.\<close>

definition reopen_usage :: "int \<Rightarrow> canary_db \<Rightarrow> canary_usage \<Rightarrow> canary_error + (canary_usage \<times> bool) \<times> canary_db" where
  "reopen_usage now t u =
     (case permit_by_id t (cu_permit_id u) of
        None \<Rightarrow> Inl (CanaryRuntimeError ''canary permit disappeared'')
      | Some p \<Rightarrow>
          if lp_expires_at p \<le> now then Inl (CanaryDenied ''live canary permit expired'')
          else if lp_status p \<noteq> ACTIVE then Inl (CanaryDenied ''live canary permit is not active'')
          else if lp_used_requests p \<ge> lp_max_requests p then Inl (CanaryDenied ''live canary request limit reached'')
          else if lp_actual p + lp_reserved p + cu_estimated u > lp_max_cost p
          then Inl (CanaryDenied ''live canary cost limit reached'')
          else
            let q = p\<lparr>lp_used_requests := lp_used_requests p + 1, lp_reserved := lp_reserved p + cu_estimated u,
                  lp_version := lp_version p + 1\<rparr>;
                v = u\<lparr>cu_status := RESERVED, cu_actual := None, cu_evidence := None\<rparr>
            in Inr ((v, True), put_usage v (put_permit q t)))"

text \<open>The oldest active permit for the target, or the oldest unexpired one of any status.\<close>

definition matching_permit :: "int \<Rightarrow> canary_db \<Rightarrow> string \<Rightarrow> string \<Rightarrow> live_permit option" where
  "matching_permit now t provider model =
     (let fits = (\<lambda>p. lp_provider p = provider \<and> lp_model p = model \<and> lp_expires_at p > now) in
      case row_where (\<lambda>p. fits p \<and> lp_status p = ACTIVE) (cd_permits t) of
        Some p \<Rightarrow> Some p
      | None \<Rightarrow> row_where fits (cd_permits t))"

definition same_operation :: "string \<Rightarrow> string \<Rightarrow> rat option \<Rightarrow> canary_usage \<Rightarrow> canary_error + unit" where
  "same_operation provider model estimated_cost u =
     (if cu_provider u \<noteq> provider \<or> cu_model u \<noteq> model
      then Inl (CanaryConflict ''canary operation idempotency key was reused for another provider/model'')
      else case estimated_cost of None \<Rightarrow> Inr ()
        | Some v \<Rightarrow> res_bind (canary_money v) (assert_replay u provider model))"

text \<open>
  The operation's rows are read in \<open>s\<close>; the permit is locked, and the operation looked up once
  more, in the later state \<open>t\<close>. A row that was there is locked by the read, so it is its row in \<open>t\<close>.
\<close>

definition reserve_matching ::
  "string \<Rightarrow> int \<Rightarrow> canary_db \<Rightarrow> canary_db \<Rightarrow> string \<Rightarrow> string \<Rightarrow> string \<Rightarrow> rat option \<Rightarrow>
   canary_error + (canary_usage \<times> bool) \<times> canary_db" where
  "reserve_matching new_id now s t provider model idempotency_key estimated_cost =
     (let key = py_strip idempotency_key in
      if key = '''' then Inl (CanaryValueError ''canary idempotency_key is required'')
      else let rows = filter (\<lambda>u. cu_key u = key \<and> cu_id u \<in> cu_id ` set (cd_usages s)) (cd_usages t) in
      if length rows > 1 then Inl (CanaryConflict ''canary operation idempotency key is ambiguously bound to multiple permits'')
      else if rows \<noteq> [] then
        (let u = hd rows in res_bind (same_operation provider model estimated_cost u) (\<lambda>_.
           if cu_status u \<noteq> RELEASED then Inr ((u, True), t) else reopen_usage now t u))
      else case matching_permit now t provider model of
        None \<Rightarrow> Inl (CanaryDenied ''no active live canary permit matches the server-selected provider/model'')
      | Some p \<Rightarrow>
          (case row_where (\<lambda>u. cu_key u = key) (cd_usages t) of
             Some u \<Rightarrow> res_bind (same_operation provider model estimated_cost u) (\<lambda>_. Inr ((u, True), t))
           | None \<Rightarrow>
               if lp_used_requests p \<ge> lp_max_requests p then Inl (CanaryDenied ''live canary request limit reached'')
               else if lp_status p \<noteq> ACTIVE then Inl (CanaryDenied ''live canary permit is not active'')
               else res_bind (case estimated_cost of
                   None \<Rightarrow> (let estimate = lp_max_cost p - lp_actual p - lp_reserved p in
                     if estimate < 0 then Inl (CanaryValueError ''canary cost cannot be negative'')
                     else if estimate = 0 then Inl (CanaryDenied ''live canary cost limit reached'') else Inr estimate)
                 | Some v \<Rightarrow> canary_money v) (\<lambda>estimate.
                 if lp_actual p + lp_reserved p + estimate > lp_max_cost p
                 then Inl (CanaryDenied ''live canary cost limit reached'')
                 else take_request new_id t p key estimate)))"

definition require_operation_boundary ::
  "int \<Rightarrow> canary_db \<Rightarrow> string \<Rightarrow> string \<Rightarrow> string \<Rightarrow> string list \<Rightarrow> bool \<Rightarrow> canary_error + canary_usage" where
  "require_operation_boundary now t provider model idempotency_key allowed require_unexpired =
     (let key = py_strip idempotency_key in
      if key = '''' then Inl (CanaryValueError ''canary idempotency_key is required'')
      else case filter (\<lambda>u. cu_key u = key) (cd_usages t) of
        [u] \<Rightarrow>
          if cu_provider u \<noteq> provider \<or> cu_model u \<noteq> model
          then Inl (CanaryDenied ''live generation canary does not match the server-selected provider/model'')
          else if cu_status u \<notin> set allowed then Inl (CanaryDenied ''live generation canary is not boundary-ready'')
          else (case permit_by_id t (cu_permit_id u) of
            None \<Rightarrow> Inl (CanaryDenied ''live generation canary permit no longer exists'')
          | Some p \<Rightarrow>
              if lp_provider p \<noteq> provider \<or> lp_model p \<noteq> model
              then Inl (CanaryDenied ''live generation permit does not match the server-selected provider/model'')
              else if lp_status p \<noteq> ACTIVE \<and> lp_status p \<noteq> EXHAUSTED then Inl (CanaryDenied ''live generation permit is not usable'')
              else if require_unexpired \<and> lp_expires_at p \<le> now
              then Inl (CanaryDenied ''live generation permit expired before provider boundary'')
              else Inr u)
      | _ \<Rightarrow> Inl (CanaryDenied ''live generation operation has no unique durable canary usage''))"

section \<open>Closing a usage\<close>

text \<open>The hold of a usage is replaced by its cost; the capacity of the permit is measured again.\<close>

definition charge_permit :: "int \<Rightarrow> canary_usage \<Rightarrow> int \<Rightarrow> live_permit \<Rightarrow> live_permit" where
  "charge_permit now u actual p =
     refresh_permit_capacity now (p\<lparr>lp_reserved := max 0 (lp_reserved p - cu_estimated u), lp_actual := lp_actual p + actual,
       lp_version := lp_version p + 1\<rparr>)"

definition settle_usage :: "int \<Rightarrow> canary_db \<Rightarrow> string \<Rightarrow> rat \<Rightarrow> string \<Rightarrow> canary_error + (canary_usage \<times> bool) \<times> canary_db" where
  "settle_usage now t i actual_cost evidence_reference =
     res_bind (canary_money actual_cost) (\<lambda>actual.
       let evidence = py_strip evidence_reference in
       if evidence = '''' then Inl (CanaryValueError ''canary settlement requires evidence_reference'')
       else case canary_usage_by_id t i of
         None \<Rightarrow> Inl CanaryLookupError
       | Some u \<Rightarrow>
           if cu_status u = SETTLED then
             (if (case cu_actual u of None \<Rightarrow> 0 | Some c \<Rightarrow> c) \<noteq> actual \<or> cu_evidence u \<noteq> Some evidence
              then Inl (CanaryConflict ''canary usage was settled with different evidence'')
              else Inr ((u, True), t))
           else if cu_status u \<noteq> RESERVED \<and> cu_status u \<noteq> UNCERTAIN then Inl (CanaryConflict ''cannot settle canary usage'')
           else (case permit_by_id t (cu_permit_id u) of
             None \<Rightarrow> Inl (CanaryRuntimeError ''canary permit disappeared'')
           | Some p \<Rightarrow>
               let v = u\<lparr>cu_actual := Some actual, cu_evidence := Some evidence, cu_status := SETTLED\<rparr>
               in Inr ((v, False), put_usage v (put_permit (charge_permit now u actual p) t))))"

record canary_finding =
  cf_usage_id :: string
  cf_action :: string
  cf_actual_cost :: "rat option"
  cf_idempotency_key :: string
  cf_reason :: string
  cf_evidence :: string
  cf_actor :: string

text \<open>The checks of the arguments: key, cost, evidence.\<close>

definition check_canary_finding :: "canary_finding \<Rightarrow> canary_error + string \<times> int \<times> string" where
  "check_canary_finding rq =
     (let key = py_strip (cf_idempotency_key rq); detail = py_strip (cf_reason rq); evidence = py_strip (cf_evidence rq) in
      if cf_action rq \<noteq> CONFIRM_PROVIDER_NOT_CREATED \<and> cf_action rq \<noteq> SPEND_SETTLE_ACTUAL_COST
      then Inl (CanaryValueError ''unsupported live canary usage reconciliation action'')
      else if cf_actor rq \<noteq> PLATFORM_API_KEY
      then Inl (CanaryValueError ''live canary reconciliation requires the PLATFORM_API_KEY actor'')
      else if key = '''' \<or> length key > 200 then Inl (CanaryValueError ''a bounded Idempotency-Key is required'')
      else if detail = '''' then Inl (CanaryValueError ''live canary reconciliation requires a reason'')
      else if evidence = '''' then Inl (CanaryValueError ''live canary reconciliation requires evidence_reference'')
      else res_bind
        (if cf_action rq = CONFIRM_PROVIDER_NOT_CREATED
         then (case cf_actual_cost rq of None \<Rightarrow> Inr 0
           | Some v \<Rightarrow> res_bind (canary_money v) (\<lambda>q. if q \<noteq> 0
               then Inl (CanaryValueError ''CONFIRM_PROVIDER_NOT_CREATED settles at zero cost'') else Inr 0))
         else (case cf_actual_cost rq of None \<Rightarrow> Inl (CanaryValueError ''SETTLE_ACTUAL_COST requires actual_cost_usd'')
           | Some v \<Rightarrow> canary_money v))
        (\<lambda>actual. Inr (key, actual, evidence)))"

text \<open>
  The audit is read in \<open>s\<close>, before the usage is locked; the primary key of the audit stops a second
  finding under the same key that passed this read. \<open>request_hash\<close> digests usage, action, cost and
  evidence.
\<close>

definition reconcile_usage ::
  "(string \<Rightarrow> string) \<Rightarrow> (string \<Rightarrow> string \<Rightarrow> int \<Rightarrow> string \<Rightarrow> string) \<Rightarrow> int \<Rightarrow> canary_db \<Rightarrow> canary_db \<Rightarrow> canary_finding \<Rightarrow>
   canary_error + (canary_usage \<times> string \<times> bool) \<times> canary_db" where
  "reconcile_usage audit_id_of request_hash now s t rq =
     res_bind (check_canary_finding rq) (\<lambda>(key, actual, evidence).
       let audit_id = audit_id_of key; hash = request_hash (cf_usage_id rq) (cf_action rq) actual evidence in
       case canary_audit_by_id s audit_id of
         Some audit \<Rightarrow>
           if ca_type audit \<noteq> LIVE_CANARY_USAGE_RECONCILED \<or> ca_request_hash audit \<noteq> hash
           then Inl (CanaryConflict ''Idempotency-Key was already used for a different live canary finding'')
           else (case canary_usage_by_id s (cf_usage_id rq) of
             None \<Rightarrow> Inl (CanaryRuntimeError ''live canary reconciliation audit points to a missing usage'')
           | Some u \<Rightarrow> Inr ((u, audit_id, True), t))
       | None \<Rightarrow>
           (case canary_usage_by_id t (cf_usage_id rq) of
              None \<Rightarrow> Inl CanaryLookupError
            | Some u \<Rightarrow>
                if cu_status u \<noteq> UNCERTAIN then Inl (CanaryConflict ''live canary reconciliation requires UNCERTAIN'')
                else case permit_by_id t (cu_permit_id u) of
                  None \<Rightarrow> Inl (CanaryRuntimeError ''canary permit disappeared'')
                | Some p \<Rightarrow>
                    if canary_audit_by_id t audit_id \<noteq> None then Inl CanaryIntegrityError
                    else
                      let v = u\<lparr>cu_actual := Some actual, cu_evidence := Some evidence, cu_status := SETTLED\<rparr>;
                          t' = put_usage v (put_permit (charge_permit now u actual p) t)
                      in Inr ((v, audit_id, False), t'\<lparr>cd_audits := cd_audits t @
                        [\<lparr>ca_id = audit_id, ca_type = LIVE_CANARY_USAGE_RECONCILED, ca_action = cf_action rq,
                          ca_request_hash = hash, ca_subject = cu_id u\<rparr>]\<rparr>)))"

definition mark_uncertain :: "canary_db \<Rightarrow> string \<Rightarrow> string \<Rightarrow> canary_error + (canary_usage \<times> bool) \<times> canary_db" where
  "mark_uncertain t i evidence_reference =
     (case canary_usage_by_id t i of
        None \<Rightarrow> Inl CanaryLookupError
      | Some u \<Rightarrow>
          if cu_status u = UNCERTAIN then Inr ((u, True), t)
          else if cu_status u \<noteq> RESERVED then Inl (CanaryConflict ''cannot mark canary usage uncertain'')
          else
            let evidence = py_strip evidence_reference;
                v = u\<lparr>cu_status := UNCERTAIN, cu_evidence := (if evidence = '''' then None else Some evidence)\<rparr>
            in Inr ((v, False), put_usage v t))"

text \<open>The permit gets the request and its hold back, and is active again until it expires.\<close>

definition return_request :: "int \<Rightarrow> canary_usage \<Rightarrow> live_permit \<Rightarrow> live_permit" where
  "return_request now u p =
     p\<lparr>lp_reserved := max 0 (lp_reserved p - cu_estimated u), lp_used_requests := max 0 (lp_used_requests p - 1),
       lp_version := lp_version p + 1,
       lp_status := (if lp_status p = EXHAUSTED \<and> lp_expires_at p > now then ACTIVE else lp_status p)\<rparr>"

definition release_usage :: "int \<Rightarrow> canary_db \<Rightarrow> string \<Rightarrow> canary_error + (canary_usage \<times> bool) \<times> canary_db" where
  "release_usage now t i =
     (case canary_usage_by_id t i of
        None \<Rightarrow> Inl CanaryLookupError
      | Some u \<Rightarrow>
          if cu_status u = RELEASED then Inr ((u, True), t)
          else if cu_status u \<noteq> RESERVED then Inl (CanaryConflict ''cannot release canary usage'')
          else case permit_by_id t (cu_permit_id u) of
            None \<Rightarrow> Inl (CanaryRuntimeError ''canary permit disappeared'')
          | Some p \<Rightarrow>
              let v = u\<lparr>cu_status := RELEASED\<rparr>
              in Inr ((v, False), put_usage v (put_permit (return_request now u p) t)))"

definition release_usage_pre_boundary ::
  "int \<Rightarrow> canary_db \<Rightarrow> string \<Rightarrow> string \<Rightarrow> canary_error + (canary_usage \<times> bool) \<times> canary_db" where
  "release_usage_pre_boundary now t i evidence_reference =
     (let evidence = py_strip evidence_reference in
      if evidence = '''' then Inl (CanaryValueError ''pre-boundary release requires evidence_reference'')
      else case canary_usage_by_id t i of
        None \<Rightarrow> Inl CanaryLookupError
      | Some u \<Rightarrow>
          if cu_status u = RELEASED then
            (if cu_evidence u \<noteq> Some evidence
             then Inl (CanaryConflict ''canary usage was released with different pre-boundary evidence'')
             else Inr ((u, True), t))
          else if cu_status u \<noteq> RESERVED \<and> cu_status u \<noteq> UNCERTAIN
          then Inl (CanaryConflict ''cannot release pre-boundary canary usage'')
          else case permit_by_id t (cu_permit_id u) of
            None \<Rightarrow> Inl (CanaryRuntimeError ''canary permit disappeared'')
          | Some p \<Rightarrow>
              let v = u\<lparr>cu_status := RELEASED, cu_evidence := Some evidence\<rparr>
              in Inr ((v, False), put_usage v (put_permit (return_request now u p) t)))"

end
