(* ===== verification/Canary_Safety.thy ===== *)
theory Canary_Safety
  imports Live_Canary
begin

text \<open>
  Permits under concurrency. \<open>canary_txn s t w\<close> is one transaction of the permit service. A transaction
  that touches a usage is a \<open>canary_shift\<close>: one usage is written and its permit moves by exactly what
  that usage holds, has cost and counts for; the invariant of the counters follows from that alone.
\<close>

section \<open>Transactions\<close>

definition fresh_id :: "string \<Rightarrow> canary_db \<Rightarrow> bool" where
  "fresh_id i t \<longleftrightarrow> i \<notin> lp_id ` set (cd_permits t) \<and> i \<notin> cu_id ` set (cd_usages t)"

inductive canary_txn :: "canary_db \<Rightarrow> canary_db \<Rightarrow> canary_db \<Rightarrow> bool" where
  canary_create: "fresh_id i t \<Longrightarrow> create_permit i now t rq = Inr (v, w) \<Longrightarrow> canary_txn s t w"
| canary_grant: "fresh_id i t \<Longrightarrow> create_authorized audit_id_of request_hash i now t rq confirmed actor key = Inr (v, w) \<Longrightarrow>
    canary_txn s t w"
| canary_reserve: "fresh_id i t \<Longrightarrow> reserve_permit i now s t pid provider m cost key = Inr (v, w) \<Longrightarrow> canary_txn s t w"
| canary_match: "fresh_id i t \<Longrightarrow> reserve_matching i now s t provider m key cost = Inr (v, w) \<Longrightarrow> canary_txn s t w"
| canary_settle: "settle_usage now t i cost ev = Inr (v, w) \<Longrightarrow> canary_txn s t w"
| canary_finding: "reconcile_usage audit_id_of digest now s t fq = Inr (v, w) \<Longrightarrow> canary_txn s t w"
| canary_mark: "mark_uncertain t i ev = Inr (v, w) \<Longrightarrow> canary_txn s t w"
| canary_release: "release_usage now t i = Inr (v, w) \<Longrightarrow> canary_txn s t w"
| canary_abandon: "release_usage_pre_boundary now t i ev = Inr (v, w) \<Longrightarrow> canary_txn s t w"

section \<open>Counters as sums over usages\<close>

definition usage_hold :: "canary_usage \<Rightarrow> int" where
  "usage_hold u = (if cu_status u = RESERVED \<or> cu_status u = UNCERTAIN then cu_estimated u else 0)"

definition usage_cost :: "canary_usage \<Rightarrow> int" where
  "usage_cost u = (case cu_actual u of None \<Rightarrow> 0 | Some c \<Rightarrow> c)"

definition usage_overrun :: "canary_usage \<Rightarrow> int" where
  "usage_overrun u = (if cu_actual u = None then 0 else max 0 (usage_cost u - cu_estimated u))"

definition usage_request :: "canary_usage \<Rightarrow> int" where
  "usage_request u = (if cu_status u = RELEASED then 0 else 1)"

definition on_permit :: "string \<Rightarrow> (canary_usage \<Rightarrow> int) \<Rightarrow> canary_usage \<Rightarrow> int" where
  "on_permit i g u = (if cu_permit_id u = i then g u else 0)"

definition canary_usage_ok :: "canary_usage \<Rightarrow> bool" where
  "canary_usage_ok u \<longleftrightarrow> 0 \<le> cu_estimated u \<and>
     ((cu_status u = RESERVED \<or> cu_status u = UNCERTAIN \<or> cu_status u = RELEASED) \<and> cu_actual u = None \<or>
      cu_status u = SETTLED \<and> (\<exists>c \<ge> 0. cu_actual u = Some c))"

definition permit_status_ok :: "live_permit \<Rightarrow> bool" where
  "permit_status_ok p \<longleftrightarrow> lp_status p = ACTIVE \<or> lp_status p = EXHAUSTED"

definition permit_ok :: "canary_usage list \<Rightarrow> live_permit \<Rightarrow> bool" where
  "permit_ok rows p \<longleftrightarrow> permit_status_ok p \<and>
     lp_reserved p = tally (on_permit (lp_id p) usage_hold) rows \<and>
     lp_actual p = tally (on_permit (lp_id p) usage_cost) rows \<and>
     lp_used_requests p = tally (on_permit (lp_id p) usage_request) rows \<and>
     lp_used_requests p \<le> lp_max_requests p \<and>
     lp_reserved p + lp_actual p \<le> lp_max_cost p + tally (on_permit (lp_id p) usage_overrun) rows"

definition canary_inv :: "canary_db \<Rightarrow> bool" where
  "canary_inv t \<longleftrightarrow> distinct (map lp_id (cd_permits t)) \<and> distinct (map cu_id (cd_usages t)) \<and>
     distinct (map (\<lambda>u. (cu_permit_id u, cu_key u)) (cd_usages t)) \<and>
     (\<forall>u \<in> set (cd_usages t). canary_usage_ok u \<and> cu_permit_id u \<in> lp_id ` set (cd_permits t)) \<and>
     (\<forall>p \<in> set (cd_permits t). permit_ok (cd_usages t) p)"

section \<open>One usage moves\<close>

definition change :: "(canary_usage \<Rightarrow> int) \<Rightarrow> canary_usage option \<Rightarrow> canary_usage \<Rightarrow> int" where
  "change g before v = g v - (case before of None \<Rightarrow> 0 | Some b \<Rightarrow> g b)"

definition writes_usage :: "canary_db \<Rightarrow> canary_usage option \<Rightarrow> canary_usage \<Rightarrow> canary_usage list \<Rightarrow> bool" where
  "writes_usage t before v rows \<longleftrightarrow> (case before of
       None \<Rightarrow> cu_id v \<notin> cu_id ` set (cd_usages t) \<and>
         (\<forall>x \<in> set (cd_usages t). \<not> (cu_permit_id x = cu_permit_id v \<and> cu_key x = cu_key v)) \<and> rows = cd_usages t @ [v]
     | Some b \<Rightarrow> b \<in> set (cd_usages t) \<and> cu_id v = cu_id b \<and> cu_permit_id v = cu_permit_id b \<and> cu_key v = cu_key b \<and>
         rows = update_where (\<lambda>x. cu_id x = cu_id b) (\<lambda>_. v) (cd_usages t))"

definition same_permit :: "live_permit \<Rightarrow> live_permit \<Rightarrow> bool" where
  "same_permit p q \<longleftrightarrow> lp_id q = lp_id p \<and> lp_provider q = lp_provider p \<and> lp_model q = lp_model p \<and>
     lp_max_requests q = lp_max_requests p \<and> lp_max_cost q = lp_max_cost p \<and> lp_expires_at q = lp_expires_at p"

definition canary_shift ::
  "canary_db \<Rightarrow> canary_usage option \<Rightarrow> canary_usage \<Rightarrow> live_permit \<Rightarrow> live_permit \<Rightarrow> canary_db \<Rightarrow> bool" where
  "canary_shift t before v p q w \<longleftrightarrow> p \<in> set (cd_permits t) \<and> same_permit p q \<and> cu_permit_id v = lp_id p \<and>
     writes_usage t before v (cd_usages w) \<and>
     cd_permits w = update_where (\<lambda>x. lp_id x = lp_id p) (\<lambda>_. q) (cd_permits t) \<and>
     canary_usage_ok v \<and> permit_status_ok q \<and>
     lp_reserved q = lp_reserved p + change usage_hold before v \<and>
     lp_actual q = lp_actual p + change usage_cost before v \<and>
     lp_used_requests q = lp_used_requests p + change usage_request before v \<and>
     (change usage_hold before v + change usage_cost before v \<le> change usage_overrun before v \<and>
        change usage_request before v \<le> 0 \<or>
      lp_reserved q + lp_actual q \<le> lp_max_cost q \<and> lp_used_requests q \<le> lp_max_requests q)"

lemma overrun_usage_nonneg [simp]: "0 \<le> tally (on_permit i usage_overrun) rows"
  by (rule tally_nonneg) (simp add: on_permit_def usage_overrun_def)

lemma writes_usage_tally:
  assumes "canary_inv t" and "writes_usage t before v rows"
  shows "tally (on_permit i g) rows = tally (on_permit i g) (cd_usages t) + (if cu_permit_id v = i then change g before v else 0)"
proof (cases before)
  case None
  with assms(2) show ?thesis by (simp add: writes_usage_def change_def on_permit_def)
next
  case (Some b)
  have "distinct (map cu_id (cd_usages t))" using assms(1) by (simp add: canary_inv_def)
  with Some assms(2) show ?thesis
    by (simp add: writes_usage_def change_def tally_update_single on_permit_def)
qed

lemma writes_usage_rows:
  assumes inv: "canary_inv t" and "writes_usage t before v rows"
  shows "distinct (map cu_id rows) \<and> distinct (map (\<lambda>u. (cu_permit_id u, cu_key u)) rows) \<and>
    set rows \<subseteq> insert v (set (cd_usages t))"
proof (cases before)
  case None
  with assms show ?thesis by (auto simp: writes_usage_def canary_inv_def)
next
  case (Some b)
  with assms(2) have b: "b \<in> set (cd_usages t)" "cu_id v = cu_id b" "cu_permit_id v = cu_permit_id b" "cu_key v = cu_key b"
    and rows: "rows = update_where (\<lambda>x. cu_id x = cu_id b) (\<lambda>_. v) (cd_usages t)" by (auto simp: writes_usage_def)
  have ids: "distinct (map cu_id (cd_usages t))" using inv by (simp add: canary_inv_def)
  have "map cu_id rows = map cu_id (cd_usages t)" unfolding rows by (rule map_update_where) (simp add: b)
  moreover have "map (\<lambda>u. (cu_permit_id u, cu_key u)) rows = map (\<lambda>u. (cu_permit_id u, cu_key u)) (cd_usages t)"
    unfolding rows update_where_def using b ids by (auto dest: distinct_keyD)
  moreover have "set rows \<subseteq> insert v (set (cd_usages t))" by (auto simp: rows set_update_where)
  ultimately show ?thesis using inv by (simp add: canary_inv_def)
qed

lemma permit_rows:
  assumes "p \<in> set ps" and "lp_id q = lp_id p"
  shows "map lp_id (update_where (\<lambda>x. lp_id x = lp_id p) (\<lambda>_. q) ps) = map lp_id ps"
    and "x \<in> set (update_where (\<lambda>x. lp_id x = lp_id p) (\<lambda>_. q) ps) \<longleftrightarrow> x = q \<or> x \<in> set ps \<and> lp_id x \<noteq> lp_id p"
  using assms by (auto simp: set_update_where intro!: map_update_where)

lemma shift_canary_inv:
  assumes inv: "canary_inv t" and shift: "canary_shift t before v p q w"
  shows "canary_inv w"
proof -
  have p: "p \<in> set (cd_permits t)" and same: "same_permit p q" and pid: "cu_permit_id v = lp_id p"
    and wr: "writes_usage t before v (cd_usages w)"
    and pw: "cd_permits w = update_where (\<lambda>x. lp_id x = lp_id p) (\<lambda>_. q) (cd_permits t)"
    and ok: "canary_usage_ok v" "permit_status_ok q"
    and moves: "lp_reserved q = lp_reserved p + change usage_hold before v"
      "lp_actual q = lp_actual p + change usage_cost before v"
      "lp_used_requests q = lp_used_requests p + change usage_request before v"
    and room: "change usage_hold before v + change usage_cost before v \<le> change usage_overrun before v \<and>
        change usage_request before v \<le> 0 \<or>
      lp_reserved q + lp_actual q \<le> lp_max_cost q \<and> lp_used_requests q \<le> lp_max_requests q"
    using shift by (auto simp: canary_shift_def)
  have lid: "lp_id q = lp_id p" using same by (simp add: same_permit_def)
  note prow = permit_rows [OF p lid, folded pw]
  note sums = writes_usage_tally [OF inv wr]
  have ids: "lp_id ` set (cd_permits w) = lp_id ` set (cd_permits t)"
    using arg_cong [OF prow(1), of set] by simp
  have old: "permit_ok (cd_usages t) x" if "x \<in> set (cd_permits t)" for x
    using inv that by (simp add: canary_inv_def)
  have "permit_ok (cd_usages w) x" if "x \<in> set (cd_permits w)" for x
  proof (cases "x = q")
    case True
    have limits: "lp_max_cost q = lp_max_cost p" "lp_max_requests q = lp_max_requests p" using same by (simp_all add: same_permit_def)
    have "lp_reserved q + lp_actual q \<le> lp_max_cost q + tally (on_permit (lp_id q) usage_overrun) (cd_usages w) \<and>
        lp_used_requests q \<le> lp_max_requests q"
      using room old [OF p] moves overrun_usage_nonneg [of "lp_id p" "cd_usages w"] pid
      unfolding permit_ok_def sums lid limits by auto
    with old [OF p] moves ok pid show ?thesis unfolding permit_ok_def sums True lid by simp
  next
    case False
    with that prow(2) have x: "x \<in> set (cd_permits t)" "lp_id x \<noteq> lp_id p" by auto
    with old [OF x(1)] pid show ?thesis unfolding permit_ok_def sums by simp
  qed
  moreover have "canary_usage_ok u \<and> cu_permit_id u \<in> lp_id ` set (cd_permits w)" if "u \<in> set (cd_usages w)" for u
  proof -
    from writes_usage_rows [OF inv wr] that have "u = v \<or> u \<in> set (cd_usages t)" by auto
    then show ?thesis
    proof
      assume "u = v"
      with ok pid p show ?thesis unfolding ids by simp
    next
      assume "u \<in> set (cd_usages t)"
      with inv show ?thesis unfolding ids by (simp add: canary_inv_def)
    qed
  qed
  ultimately show ?thesis
    using writes_usage_rows [OF inv wr] inv prow(1) by (simp add: canary_inv_def)
qed


section \<open>Every operation on a usage is such a move\<close>

lemma usage_byD: "canary_usage_by_id t i = Some u \<Longrightarrow> u \<in> set (cd_usages t) \<and> cu_id u = i"
  unfolding canary_usage_by_id_def by (rule row_where_SomeD)

lemma permit_byD: "permit_by_id t i = Some p \<Longrightarrow> p \<in> set (cd_permits t) \<and> lp_id p = i"
  unfolding permit_by_id_def by (rule row_where_SomeD)

lemma usage_inv: "canary_inv t \<Longrightarrow> u \<in> set (cd_usages t) \<Longrightarrow> canary_usage_ok u"
  by (simp add: canary_inv_def)

lemma permit_inv: "canary_inv t \<Longrightarrow> p \<in> set (cd_permits t) \<Longrightarrow> permit_ok (cd_usages t) p"
  by (simp add: canary_inv_def)

lemma usage_share:
  assumes inv: "canary_inv t" and u: "u \<in> set (cd_usages t)" and p: "p \<in> set (cd_permits t)" and "cu_permit_id u = lp_id p"
  shows "usage_hold u \<le> lp_reserved p" and "usage_request u \<le> lp_used_requests p"
proof -
  have "0 \<le> on_permit (lp_id p) usage_hold x" "0 \<le> on_permit (lp_id p) usage_request x" if "x \<in> set (cd_usages t)" for x
    using usage_inv [OF inv that] by (auto simp: on_permit_def usage_hold_def usage_request_def canary_usage_ok_def)
  then have "on_permit (lp_id p) usage_hold u \<le> tally (on_permit (lp_id p) usage_hold) (cd_usages t)"
    "on_permit (lp_id p) usage_request u \<le> tally (on_permit (lp_id p) usage_request) (cd_usages t)"
    using u by (auto intro: tally_member_le)
  then show "usage_hold u \<le> lp_reserved p" and "usage_request u \<le> lp_used_requests p"
    using permit_inv [OF inv p] assms(4) by (simp_all add: permit_ok_def on_permit_def)
qed

definition moved_to :: "canary_db \<Rightarrow> canary_usage \<Rightarrow> live_permit \<Rightarrow> canary_db \<Rightarrow> bool" where
  "moved_to t v q w \<longleftrightarrow> cd_usages w = cd_usages (put_usage v t) \<and> cd_permits w = cd_permits (put_permit q t)"

lemma moved_to_put [simp]: "moved_to t v q (put_usage v (put_permit q t))"
  by (simp add: moved_to_def put_usage_def put_permit_def)

lemma canary_distinct: "ACTIVE \<noteq> EXHAUSTED" "EXHAUSTED \<noteq> ACTIVE"
  by (simp_all add: ACTIVE_def EXHAUSTED_def)

lemma charge_shift:
  assumes inv: "canary_inv t" and u: "u \<in> set (cd_usages t)" and st: "cu_status u = RESERVED \<or> cu_status u = UNCERTAIN"
    and p: "permit_by_id t (cu_permit_id u) = Some p" and "0 \<le> actual"
    and v: "v = u\<lparr>cu_actual := Some actual, cu_evidence := e, cu_status := SETTLED\<rparr>"
    and w: "moved_to t v (charge_permit now u actual p) w"
  shows "canary_shift t (Some u) v p (charge_permit now u actual p) w"
proof -
  note pm = permit_byD [OF p]
  let ?p = "p\<lparr>lp_reserved := max 0 (lp_reserved p - cu_estimated u), lp_actual := lp_actual p + actual, lp_version := lp_version p + 1\<rparr>"
  have ok: "canary_usage_ok u" "permit_status_ok p" using usage_inv [OF inv u] permit_inv [OF inv] pm by (auto simp: permit_ok_def)
  have share: "cu_estimated u \<le> lp_reserved p" using usage_share(1) [OF inv u] pm st by (simp add: usage_hold_def)
  have q: "charge_permit now u actual p = ?p\<lparr>lp_status := lp_status (charge_permit now u actual p)\<rparr>"
    "permit_status_ok (charge_permit now u actual p)"
    using ok(2) by (auto simp: charge_permit_def refresh_permit_capacity_def permit_status_ok_def canary_distinct)
  have same: "same_permit p (charge_permit now u actual p)" by (subst q(1)) (simp add: same_permit_def)
  have sums: "lp_reserved (charge_permit now u actual p) = lp_reserved p - cu_estimated u"
    "lp_actual (charge_permit now u actual p) = lp_actual p + actual"
    "lp_used_requests (charge_permit now u actual p) = lp_used_requests p"
    using share by (subst q(1), simp)+
  have ch: "change usage_hold (Some u) v = - cu_estimated u" "change usage_cost (Some u) v = actual"
    "change usage_overrun (Some u) v = max 0 (actual - cu_estimated u)" "change usage_request (Some u) v = 0"
    using ok(1) st by (auto simp: v change_def usage_hold_def usage_cost_def usage_overrun_def usage_request_def canary_usage_ok_def)
  have "canary_usage_ok v" using ok(1) assms(5) by (simp add: v canary_usage_ok_def)
  with ch sums same q(2) pm u w show ?thesis
    by (simp add: canary_shift_def moved_to_def put_usage_def put_permit_def writes_usage_def same_permit_def v)
qed

lemma return_shift:
  assumes inv: "canary_inv t" and u: "u \<in> set (cd_usages t)" and st: "cu_status u = RESERVED \<or> cu_status u = UNCERTAIN"
    and p: "permit_by_id t (cu_permit_id u) = Some p" and v: "v = u\<lparr>cu_status := RELEASED, cu_evidence := e\<rparr>"
    and w: "moved_to t v (return_request now u p) w"
  shows "canary_shift t (Some u) v p (return_request now u p) w"
proof -
  note pm = permit_byD [OF p]
  have ok: "canary_usage_ok u" "permit_status_ok p" using usage_inv [OF inv u] permit_inv [OF inv] pm by (auto simp: permit_ok_def)
  have share: "cu_estimated u \<le> lp_reserved p" "1 \<le> lp_used_requests p"
    using usage_share [OF inv u] pm st by (auto simp: usage_hold_def usage_request_def)
  have ch: "change usage_hold (Some u) v = - cu_estimated u" "change usage_cost (Some u) v = 0"
    "change usage_overrun (Some u) v = 0" "change usage_request (Some u) v = - 1"
    using ok(1) st by (auto simp: v change_def usage_hold_def usage_cost_def usage_overrun_def usage_request_def canary_usage_ok_def)
  have "canary_usage_ok v" using ok(1) st by (auto simp: v canary_usage_ok_def)
  moreover have "permit_status_ok (return_request now u p)" using ok(2) by (auto simp: return_request_def permit_status_ok_def)
  moreover have "0 \<le> cu_estimated u" using ok(1) by (simp add: canary_usage_ok_def)
  ultimately show ?thesis using ch pm u w share
    by (simp add: canary_shift_def moved_to_def put_usage_def put_permit_def writes_usage_def same_permit_def v return_request_def)
qed

lemma mark_shift:
  assumes inv: "canary_inv t" and u: "u \<in> set (cd_usages t)" and st: "cu_status u = RESERVED"
    and v: "v = u\<lparr>cu_status := UNCERTAIN, cu_evidence := e\<rparr>"
  obtains p where "canary_shift t (Some u) v p p (put_usage v t)"
proof -
  from inv u obtain p where p: "p \<in> set (cd_permits t)" "cu_permit_id u = lp_id p" by (auto simp: canary_inv_def)
  have same: "update_where (\<lambda>x. lp_id x = lp_id p) (\<lambda>_. p) (cd_permits t) = cd_permits t"
    unfolding update_where_def using inv p by (intro map_idI) (auto simp: canary_inv_def dest: distinct_keyD)
  have ch: "change usage_hold (Some u) v = 0" "change usage_cost (Some u) v = 0" "change usage_overrun (Some u) v = 0"
    "change usage_request (Some u) v = 0"
    using st by (simp_all add: v change_def usage_hold_def usage_cost_def usage_overrun_def usage_request_def)
  have facts: "cu_id v = cu_id u" "cu_permit_id v = cu_permit_id u" "cu_key v = cu_key u" by (simp_all add: v)
  have "canary_usage_ok v" using usage_inv [OF inv u] st by (auto simp: v canary_usage_ok_def)
  then have "canary_shift t (Some u) v p p (put_usage v t)"
    using permit_inv [OF inv p(1)] p u
    by (simp add: canary_shift_def same same_permit_def put_usage_def writes_usage_def ch facts permit_ok_def)
  then show thesis by (rule that)
qed

lemma reopen_shift:
  assumes "reopen_usage now t u = Inr (r, w)" and inv: "canary_inv t" and u: "u \<in> set (cd_usages t)" and st: "cu_status u = RELEASED"
  obtains v p q where "canary_shift t (Some u) v p q w" and "r = (v, True)" and "cu_id v = cu_id u" and "cd_audits w = cd_audits t"
    and "v = u\<lparr>cu_status := RESERVED, cu_actual := None, cu_evidence := None\<rparr>"
proof -
  let ?v = "u\<lparr>cu_status := RESERVED, cu_actual := None, cu_evidence := None\<rparr>"
  from assms(1) obtain p where p: "permit_by_id t (cu_permit_id u) = Some p" by (auto simp: reopen_usage_def split: option.split_asm)
  let ?q = "p\<lparr>lp_used_requests := lp_used_requests p + 1, lp_reserved := lp_reserved p + cu_estimated u, lp_version := lp_version p + 1\<rparr>"
  note pm = permit_byD [OF p]
  from assms(1) p have room: "lp_used_requests p < lp_max_requests p" "lp_actual p + lp_reserved p + cu_estimated u \<le> lp_max_cost p"
    and w: "w = put_usage ?v (put_permit ?q t)" and r: "r = (?v, True)"
    by (auto simp: reopen_usage_def Let_def split: if_split_asm)
  have ok: "canary_usage_ok u" "permit_status_ok p" using usage_inv [OF inv u] permit_inv [OF inv] pm by (auto simp: permit_ok_def)
  have ch: "change usage_hold (Some u) ?v = cu_estimated u" "change usage_cost (Some u) ?v = 0"
    "change usage_overrun (Some u) ?v = 0" "change usage_request (Some u) ?v = 1"
    using ok(1) st by (auto simp: change_def usage_hold_def usage_cost_def usage_overrun_def usage_request_def canary_usage_ok_def)
  have "canary_usage_ok ?v" using ok(1) by (simp add: canary_usage_ok_def)
  then have "canary_shift t (Some u) ?v p ?q w" using ch pm u room ok
    by (simp add: canary_shift_def w put_usage_def put_permit_def writes_usage_def same_permit_def permit_status_ok_def)
  then show thesis by (rule that) (simp_all add: r w put_usage_def put_permit_def)
qed

lemma take_shift:
  assumes "take_request new_id t p key estimate = Inr (r, w)" and inv: "canary_inv t" and p: "p \<in> set (cd_permits t)"
    and fresh: "fresh_id new_id t" and "0 \<le> estimate"
    and room: "lp_used_requests p < lp_max_requests p" "lp_actual p + lp_reserved p + estimate \<le> lp_max_cost p"
  obtains v q where "canary_shift t None v p q w" and "r = (v, False)" and "cu_key v = key" and "cd_audits w = cd_audits t"
    and "cu_status v = RESERVED" and "cu_estimated v = estimate"
proof -
  let ?v = "\<lparr>cu_id = new_id, cu_permit_id = lp_id p, cu_key = key, cu_provider = lp_provider p, cu_model = lp_model p,
    cu_estimated = estimate, cu_actual = None, cu_status = RESERVED, cu_evidence = None\<rparr>"
  define q0 where "q0 = p\<lparr>lp_used_requests := lp_used_requests p + 1, lp_reserved := lp_reserved p + estimate,
    lp_version := lp_version p + 1\<rparr>"
  define q where "q = (if permit_spent q0 then q0\<lparr>lp_status := EXHAUSTED\<rparr> else q0)"
  from assms(1) have ins: "insert_canary_usage ?v (put_permit q t) = Inr w" and r: "r = (?v, False)"
    by (auto simp: take_request_def q_def q0_def Let_def res_simps)
  from ins have new: "\<forall>x \<in> set (cd_usages t). \<not> (cu_permit_id x = lp_id p \<and> cu_key x = key)"
    and w: "w = (put_permit q t)\<lparr>cd_usages := cd_usages t @ [?v]\<rparr>"
    by (auto simp: insert_canary_usage_def put_permit_def list_ex_iff split: if_split_asm)
  have q: "same_permit p q" "permit_status_ok q" "lp_reserved q = lp_reserved p + estimate" "lp_actual q = lp_actual p"
    "lp_used_requests q = lp_used_requests p + 1" "lp_max_cost q = lp_max_cost p" "lp_max_requests q = lp_max_requests p"
    using permit_inv [OF inv p] by (auto simp: q_def q0_def same_permit_def permit_ok_def permit_status_ok_def)
  have lid: "lp_id q = lp_id p" using q(1) by (simp add: same_permit_def)
  have "canary_shift t None ?v p q w"
    using q p room new fresh assms(5)
    by (simp add: canary_shift_def w put_permit_def lid writes_usage_def fresh_id_def change_def usage_hold_def usage_cost_def
        usage_overrun_def usage_request_def canary_usage_ok_def)
  then show thesis by (rule that) (simp_all add: r w put_permit_def)
qed


section \<open>What every transaction keeps\<close>

text \<open>
  A usage keeps the permit, the operation, the target and the hold it was made for, and a settled
  usage never changes; a permit keeps its target, limits and expiry; the audit log grows at its end.
\<close>

definition canary_usage_keeps :: "canary_usage \<Rightarrow> canary_usage \<Rightarrow> bool" where
  "canary_usage_keeps a b \<longleftrightarrow> cu_id b = cu_id a \<and> cu_permit_id b = cu_permit_id a \<and> cu_key b = cu_key a \<and>
     cu_provider b = cu_provider a \<and> cu_model b = cu_model a \<and> cu_estimated b = cu_estimated a \<and>
     (cu_status a = SETTLED \<longrightarrow> b = a)"

definition canary_frame :: "canary_db \<Rightarrow> canary_db \<Rightarrow> bool" where
  "canary_frame t w \<longleftrightarrow> (\<forall>a \<in> set (cd_usages t). \<exists>b \<in> set (cd_usages w). canary_usage_keeps a b) \<and>
     (\<forall>p \<in> set (cd_permits t). \<exists>q \<in> set (cd_permits w). same_permit p q) \<and> prefix (cd_audits t) (cd_audits w)"

lemma canary_usage_keeps_refl [simp]: "canary_usage_keeps a a" and same_permit_refl [simp]: "same_permit p p"
  by (simp_all add: canary_usage_keeps_def same_permit_def)

lemma canary_usage_keeps_trans: "canary_usage_keeps a b \<Longrightarrow> canary_usage_keeps b c \<Longrightarrow> canary_usage_keeps a c"
proof -
  assume ab: "canary_usage_keeps a b" and bc: "canary_usage_keeps b c"
  have "c = a" if "cu_status a = SETTLED"
  proof -
    from ab that have "b = a" by (simp add: canary_usage_keeps_def)
    with bc that show ?thesis by (simp add: canary_usage_keeps_def)
  qed
  with ab bc show "canary_usage_keeps a c" unfolding canary_usage_keeps_def by simp
qed

lemma same_permit_trans: "same_permit p q \<Longrightarrow> same_permit q r \<Longrightarrow> same_permit p r"
  by (simp add: same_permit_def)

lemma canary_frame_refl: "canary_frame t t"
  by (auto simp: canary_frame_def intro!: bexI canary_usage_keeps_refl same_permit_refl)

lemma canary_frame_trans:
  assumes st: "canary_frame s t" and tw: "canary_frame t w"
  shows "canary_frame s w"
proof -
  have "\<exists>c \<in> set (cd_usages w). canary_usage_keeps a c" if a: "a \<in> set (cd_usages s)" for a
  proof -
    from st a obtain b where b: "b \<in> set (cd_usages t)" "canary_usage_keeps a b" by (auto simp: canary_frame_def)
    from tw b(1) obtain c where "c \<in> set (cd_usages w)" "canary_usage_keeps b c" by (auto simp: canary_frame_def)
    with b(2) show ?thesis by (blast intro: canary_usage_keeps_trans)
  qed
  moreover have "\<exists>r \<in> set (cd_permits w). same_permit p r" if p: "p \<in> set (cd_permits s)" for p
  proof -
    from st p obtain q where q: "q \<in> set (cd_permits t)" "same_permit p q" by (auto simp: canary_frame_def)
    from tw q(1) obtain r where "r \<in> set (cd_permits w)" "same_permit q r" by (auto simp: canary_frame_def)
    with q(2) show ?thesis by (blast intro: same_permit_trans)
  qed
  moreover have "prefix (cd_audits s) (cd_audits w)" using st tw by (auto simp: canary_frame_def intro: prefix_order.trans)
  ultimately show ?thesis by (simp add: canary_frame_def)
qed

definition canary_safe :: "canary_db \<Rightarrow> canary_db \<Rightarrow> bool" where
  "canary_safe t w \<longleftrightarrow> canary_inv w \<and> canary_frame t w"

lemma canary_same: "canary_inv t \<Longrightarrow> canary_safe t t"
  by (simp add: canary_safe_def canary_frame_refl)

lemma shift_safe:
  assumes inv: "canary_inv t" and shift: "canary_shift t before v p q w" and "prefix (cd_audits t) (cd_audits w)"
    and keeps: "\<And>b. before = Some b \<Longrightarrow> canary_usage_keeps b v"
  shows "canary_safe t w"
proof -
  have wr: "writes_usage t before v (cd_usages w)" and p: "p \<in> set (cd_permits t)" and same: "same_permit p q"
    and pw: "cd_permits w = update_where (\<lambda>x. lp_id x = lp_id p) (\<lambda>_. q) (cd_permits t)"
    using shift by (simp_all add: canary_shift_def)
  have "\<exists>y \<in> set (cd_usages w). canary_usage_keeps x y" if x: "x \<in> set (cd_usages t)" for x
  proof (cases before)
    case None
    with wr x show ?thesis by (auto simp: writes_usage_def intro!: bexI canary_usage_keeps_refl)
  next
    case (Some b)
    with wr have b: "b \<in> set (cd_usages t)" and rows: "cd_usages w = update_where (\<lambda>x. cu_id x = cu_id b) (\<lambda>_. v) (cd_usages t)"
      by (simp_all add: writes_usage_def)
    show ?thesis
    proof (cases "cu_id x = cu_id b")
      case True
      then have "x = b" using inv x b by (auto simp: canary_inv_def dest: distinct_keyD)
      moreover have "v \<in> set (cd_usages w)" unfolding rows by (rule update_where_hit [OF b]) simp
      ultimately show ?thesis using keeps [OF Some] by blast
    next
      case False
      then have "x \<in> set (cd_usages w)" unfolding rows by (intro update_where_miss [OF x])
      then show ?thesis by (blast intro: canary_usage_keeps_refl)
    qed
  qed
  moreover have "\<exists>y \<in> set (cd_permits w). same_permit x y" if x: "x \<in> set (cd_permits t)" for x
  proof (cases "lp_id x = lp_id p")
    case True
    then have "x = p" using inv x p by (auto simp: canary_inv_def dest: distinct_keyD)
    moreover have "q \<in> set (cd_permits w)" unfolding pw by (rule update_where_hit [OF p]) simp
    ultimately show ?thesis using same by blast
  next
    case False
    then have "x \<in> set (cd_permits w)" unfolding pw by (intro update_where_miss [OF x])
    then show ?thesis by (blast intro: same_permit_refl)
  qed
  ultimately have "canary_frame t w" using assms(3) unfolding canary_frame_def by blast
  with shift_canary_inv [OF inv shift] show ?thesis by (simp add: canary_safe_def)
qed

lemma new_permit_safe:
  assumes inv: "canary_inv t" and fresh: "fresh_id i t" and p: "new_permit i now rq = Inr p"
    and w: "cd_permits w = cd_permits t @ [p]" "cd_usages w = cd_usages t" "prefix (cd_audits t) (cd_audits w)"
  shows "canary_safe t w"
proof -
  from p have facts: "lp_id p = i" "lp_status p = ACTIVE" "lp_used_requests p = 0" "lp_reserved p = 0" "lp_actual p = 0"
    "1 \<le> lp_max_requests p" "0 < lp_max_cost p"
    by (auto simp: new_permit_def Let_def res_simps not_le not_less)
  have "cu_permit_id u \<noteq> i" if "u \<in> set (cd_usages t)" for u
    using inv fresh that unfolding canary_inv_def fresh_id_def by auto
  then have "tally (on_permit i g) (cd_usages t) = 0" for g by (intro tally_zero) (simp add: on_permit_def)
  then have "permit_ok (cd_usages t) p" using facts by (simp add: permit_ok_def permit_status_ok_def)
  then have "canary_inv w" using inv fresh facts(1) by (auto simp: canary_inv_def w fresh_id_def)
  moreover have "canary_frame t w"
    using w by (auto simp: canary_frame_def intro!: bexI canary_usage_keeps_refl same_permit_refl)
  ultimately show ?thesis by (simp add: canary_safe_def)
qed

lemma canary_money_nonneg: "canary_money v = Inr q \<Longrightarrow> 0 \<le> q"
  by (auto simp: canary_money_def Let_def split: if_split_asm)

lemma settle_usage_safe:
  assumes res: "settle_usage now t i cost ev = Inr (v, w)" and inv: "canary_inv t"
  shows "canary_safe t w"
proof -
  from res obtain u actual where u: "canary_usage_by_id t i = Some u" and actual: "canary_money cost = Inr actual"
    by (auto simp: settle_usage_def Let_def res_simps split: if_split_asm option.split_asm)
  note mem = conjunct1 [OF usage_byD [OF u]]
  show ?thesis
  proof (cases "cu_status u = SETTLED")
    case True
    then have "w = t" using res u actual by (auto simp: settle_usage_def Let_def split: if_split_asm)
    then show ?thesis by (simp add: canary_same inv)
  next
    case False
    let ?e = "Some (py_strip ev)"
    let ?v = "u\<lparr>cu_actual := Some actual, cu_evidence := ?e, cu_status := SETTLED\<rparr>"
    from False res u actual obtain p where st: "cu_status u = RESERVED \<or> cu_status u = UNCERTAIN"
      and p: "permit_by_id t (cu_permit_id u) = Some p" and w: "w = put_usage ?v (put_permit (charge_permit now u actual p) t)"
      by (auto simp: settle_usage_def Let_def split: if_split_asm option.split_asm)
    have "canary_shift t (Some u) ?v p (charge_permit now u actual p) w"
      by (rule charge_shift [OF inv mem st p canary_money_nonneg [OF actual] refl]) (simp add: w)
    then show ?thesis
      by (rule shift_safe [OF inv]) (use st in \<open>auto simp: w put_usage_def put_permit_def canary_usage_keeps_def\<close>)
  qed
qed

lemma check_canary_finding_nonneg: "check_canary_finding fq = Inr (key, actual, evidence) \<Longrightarrow> 0 \<le> actual"
  by (auto simp: check_canary_finding_def Let_def res_simps dest: canary_money_nonneg split: if_split_asm option.split_asm)

lemma reconcile_usage_safe:
  assumes res: "reconcile_usage audit_id_of digest now s t fq = Inr (v, w)" and inv: "canary_inv t"
  shows "canary_safe t w"
proof -
  from res obtain key actual evidence where check: "check_canary_finding fq = Inr (key, actual, evidence)"
    by (auto simp: reconcile_usage_def res_simps)
  show ?thesis
  proof (cases "canary_audit_by_id s (audit_id_of key)")
    case (Some audit)
    with res check have "w = t" by (auto simp: reconcile_usage_def Let_def split: if_split_asm option.split_asm)
    then show ?thesis by (simp add: canary_same inv)
  next
    case None
    from res check None obtain u where u: "canary_usage_by_id t (cf_usage_id fq) = Some u" and st: "cu_status u = UNCERTAIN"
      by (auto simp: reconcile_usage_def Let_def split: if_split_asm option.split_asm)
    let ?v = "u\<lparr>cu_actual := Some actual, cu_evidence := Some evidence, cu_status := SETTLED\<rparr>"
    from res check None u st obtain p where p: "permit_by_id t (cu_permit_id u) = Some p"
      and w: "cd_usages w = cd_usages (put_usage ?v (put_permit (charge_permit now u actual p) t))"
        "cd_permits w = cd_permits (put_usage ?v (put_permit (charge_permit now u actual p) t))"
        "prefix (cd_audits t) (cd_audits w)"
      by (auto simp: reconcile_usage_def Let_def split: if_split_asm option.split_asm)
    note mem = conjunct1 [OF usage_byD [OF u]]
    have "canary_shift t (Some u) ?v p (charge_permit now u actual p) w"
      by (rule charge_shift [OF inv mem disjI2 [OF st] p check_canary_finding_nonneg [OF check] refl])
        (simp add: moved_to_def w put_usage_def put_permit_def)
    then show ?thesis by (rule shift_safe [OF inv _ w(3)]) (use st in \<open>auto simp: canary_usage_keeps_def\<close>)
  qed
qed


lemma mark_uncertain_safe:
  assumes res: "mark_uncertain t i ev = Inr (v, w)" and inv: "canary_inv t"
  shows "canary_safe t w"
proof -
  from res obtain u where u: "canary_usage_by_id t i = Some u" by (auto simp: mark_uncertain_def split: option.split_asm)
  note mem = conjunct1 [OF usage_byD [OF u]]
  show ?thesis
  proof (cases "cu_status u = RESERVED")
    case True
    let ?e = "if py_strip ev = '''' then None else Some (py_strip ev)"
    let ?v = "u\<lparr>cu_status := UNCERTAIN, cu_evidence := ?e\<rparr>"
    from res u True have w: "w = put_usage ?v t" by (auto simp: mark_uncertain_def Let_def)
    obtain p where "canary_shift t (Some u) ?v p p w" using mark_shift [OF inv mem True refl] unfolding w by blast
    then show ?thesis by (rule shift_safe [OF inv]) (use True in \<open>auto simp: w put_usage_def canary_usage_keeps_def\<close>)
  next
    case False
    with res u have "w = t" by (auto simp: mark_uncertain_def Let_def split: if_split_asm)
    then show ?thesis by (simp add: canary_same inv)
  qed
qed

lemma returned_safe:
  assumes inv: "canary_inv t" and u: "u \<in> set (cd_usages t)" and st: "cu_status u = RESERVED \<or> cu_status u = UNCERTAIN"
    and p: "permit_by_id t (cu_permit_id u) = Some p"
  shows "canary_safe t (put_usage (u\<lparr>cu_status := RELEASED, cu_evidence := e\<rparr>) (put_permit (return_request now u p) t))"
  by (rule shift_safe [OF inv return_shift [OF inv u st p refl moved_to_put]])
    (use st in \<open>auto simp: put_usage_def put_permit_def canary_usage_keeps_def\<close>)

lemma release_usage_safe:
  assumes res: "release_usage now t i = Inr (v, w)" and inv: "canary_inv t"
  shows "canary_safe t w"
proof -
  from res obtain u where u: "canary_usage_by_id t i = Some u" by (auto simp: release_usage_def split: option.split_asm)
  note mem = conjunct1 [OF usage_byD [OF u]]
  show ?thesis
  proof (cases "cu_status u = RELEASED")
    case True
    with res u have "w = t" by (auto simp: release_usage_def)
    then show ?thesis by (simp add: canary_same inv)
  next
    case False
    with res u obtain p where st: "cu_status u = RESERVED" and p: "permit_by_id t (cu_permit_id u) = Some p"
      and w: "w = put_usage (u\<lparr>cu_status := RELEASED\<rparr>) (put_permit (return_request now u p) t)"
      by (auto simp: release_usage_def Let_def split: if_split_asm option.split_asm)
    have "u\<lparr>cu_status := RELEASED\<rparr> = u\<lparr>cu_status := RELEASED, cu_evidence := cu_evidence u\<rparr>" by simp
    with returned_safe [OF inv mem disjI1 [OF st] p, of "cu_evidence u" now] show ?thesis unfolding w by simp
  qed
qed

lemma release_usage_pre_boundary_safe:
  assumes res: "release_usage_pre_boundary now t i ev = Inr (v, w)" and inv: "canary_inv t"
  shows "canary_safe t w"
proof -
  from res obtain u where u: "canary_usage_by_id t i = Some u"
    by (auto simp: release_usage_pre_boundary_def Let_def split: option.split_asm if_split_asm)
  note mem = conjunct1 [OF usage_byD [OF u]]
  show ?thesis
  proof (cases "cu_status u = RELEASED")
    case True
    with res u have "w = t" by (auto simp: release_usage_pre_boundary_def Let_def split: if_split_asm)
    then show ?thesis by (simp add: canary_same inv)
  next
    case False
    with res u obtain p where st: "cu_status u = RESERVED \<or> cu_status u = UNCERTAIN"
      and p: "permit_by_id t (cu_permit_id u) = Some p"
      and w: "w = put_usage (u\<lparr>cu_status := RELEASED, cu_evidence := Some (py_strip ev)\<rparr>) (put_permit (return_request now u p) t)"
      by (auto simp: release_usage_pre_boundary_def Let_def split: if_split_asm option.split_asm)
    show ?thesis unfolding w by (rule returned_safe [OF inv mem st p])
  qed
qed

lemma take_safe:
  assumes "take_request i t p key estimate = Inr (r, w)" and inv: "canary_inv t" and "p \<in> set (cd_permits t)"
    and "fresh_id i t" and "0 \<le> estimate" and "lp_used_requests p < lp_max_requests p"
    and "lp_actual p + lp_reserved p + estimate \<le> lp_max_cost p"
  shows "canary_safe t w"
proof -
  obtain v q where shift: "canary_shift t None v p q w" and "cd_audits w = cd_audits t"
    using take_shift [OF assms] by metis
  then show ?thesis by (intro shift_safe [OF inv shift]) simp_all
qed

lemma reserve_permit_safe:
  assumes res: "reserve_permit i now s t pid provider m cost key = Inr (r, w)" and inv: "canary_inv t" and fresh: "fresh_id i t"
  shows "canary_safe t w"
proof -
  let ?k = "py_strip key"
  from res obtain estimate where estimate: "canary_money cost = Inr estimate" by (auto simp: reserve_permit_def res_simps)
  show ?thesis
  proof (cases "row_where (\<lambda>u. cu_permit_id u = pid \<and> cu_key u = ?k) (cd_usages s)")
    case (Some u)
    with res estimate have "w = t" by (auto simp: reserve_permit_def Let_def res_simps split: if_split_asm)
    then show ?thesis by (simp add: canary_same inv)
  next
    case None
    with res estimate obtain p where p: "permit_by_id t pid = Some p"
      and room: "lp_used_requests p < lp_max_requests p" "lp_actual p + lp_reserved p + estimate \<le> lp_max_cost p"
      and take: "take_request i t p ?k estimate = Inr (r, w)"
      by (auto simp: reserve_permit_def Let_def not_le split: if_split_asm option.split_asm)
    show ?thesis
      by (rule take_safe [OF take inv conjunct1 [OF permit_byD [OF p]] fresh canary_money_nonneg [OF estimate] room])
  qed
qed

lemma matching_permitD: "matching_permit now t provider m = Some p \<Longrightarrow> p \<in> set (cd_permits t)"
  by (auto simp: matching_permit_def Let_def split: option.split_asm dest: row_where_SomeD)

text \<open>The three ways a matching reservation succeeds: a replay, a row opened again, a new row.\<close>

lemma reserve_matching_cases:
  assumes res: "reserve_matching i now s t provider m key cost = Inr (r, w)"
  obtains (replay) u where "r = (u, True)" "w = t" "u \<in> set (cd_usages t)" "cu_key u = py_strip key"
        "cu_status u \<noteq> RELEASED \<or> cu_id u \<notin> cu_id ` set (cd_usages s)"
    | (reopen) u where "u \<in> set (cd_usages t)" "cu_key u = py_strip key" "cu_status u = RELEASED" "reopen_usage now t u = Inr (r, w)"
    | (fresh) p estimate where "p \<in> set (cd_permits t)" "0 \<le> estimate" "lp_used_requests p < lp_max_requests p"
        "lp_actual p + lp_reserved p + estimate \<le> lp_max_cost p" "take_request i t p (py_strip key) estimate = Inr (r, w)"
        "row_where (\<lambda>u. cu_key u = py_strip key) (cd_usages t) = None"
proof -
  define rows where "rows = filter (\<lambda>u. cu_key u = py_strip key \<and> cu_id u \<in> cu_id ` set (cd_usages s)) (cd_usages t)"
  note res' = res [unfolded reserve_matching_def Let_def, folded rows_def]
  show thesis
  proof (cases "rows = []")
    case False
    define u where "u = hd rows"
    from False have "u \<in> set rows" by (simp add: u_def)
    then have u: "u \<in> set (cd_usages t)" "cu_key u = py_strip key" by (auto simp: rows_def)
    from res' False have "res_bind (same_operation provider m cost u) (\<lambda>_. if cu_status u \<noteq> RELEASED then Inr ((u, True), t) else reopen_usage now t u) = Inr (r, w)"
      by (simp add: u_def split: if_split_asm)
    then have "(if cu_status u \<noteq> RELEASED then Inr ((u, True), t) else reopen_usage now t u) = Inr (r, w)"
      by (auto simp only: res_simps)
    then show thesis by (cases "cu_status u = RELEASED") (use u in \<open>auto intro: replay reopen\<close>)
  next
    case True
    with res' obtain p where p: "matching_permit now t provider m = Some p"
      by (auto split: if_split_asm option.split_asm)
    show thesis
    proof (cases "row_where (\<lambda>u. cu_key u = py_strip key) (cd_usages t)")
      case (Some u)
      with res' True p have "r = (u, True) \<and> w = t" by (auto simp: res_simps split: if_split_asm)
      moreover have "cu_id u \<notin> cu_id ` set (cd_usages s)"
        using True row_where_SomeD [OF Some] by (auto simp: rows_def filter_empty_conv)
      ultimately show thesis using row_where_SomeD [OF Some] by (intro replay [of u]) simp_all
    next
      case None
      with res' True p obtain estimate where room: "lp_used_requests p < lp_max_requests p"
        and est: "(case cost of None \<Rightarrow> (if lp_max_cost p - lp_actual p - lp_reserved p < 0
              then Inl (CanaryValueError ''canary cost cannot be negative'')
              else if lp_max_cost p - lp_actual p - lp_reserved p = 0 then Inl (CanaryDenied ''live canary cost limit reached'')
              else Inr (lp_max_cost p - lp_actual p - lp_reserved p))
            | Some v \<Rightarrow> canary_money v) = Inr estimate"
        and cost: "lp_actual p + lp_reserved p + estimate \<le> lp_max_cost p"
        and take: "take_request i t p (py_strip key) estimate = Inr (r, w)"
        by (auto simp: res_simps not_le split: if_split_asm)
      have "0 \<le> estimate" using est canary_money_nonneg by (auto split: option.split_asm if_split_asm)
      with matching_permitD [OF p] room cost take None show thesis by (intro fresh [of p estimate]) simp_all
    qed
  qed
qed

lemma reserve_matching_safe:
  assumes res: "reserve_matching i now s t provider m key cost = Inr (r, w)" and inv: "canary_inv t" and fresh: "fresh_id i t"
  shows "canary_safe t w"
  using res
proof (cases rule: reserve_matching_cases)
  case (replay u)
  then show ?thesis by (simp add: canary_same inv)
next
  case (reopen u)
  from reopen_shift [OF reopen(4) inv reopen(1,3)] obtain v p q where shift: "canary_shift t (Some u) v p q w"
    and "cd_audits w = cd_audits t" "v = u\<lparr>cu_status := RESERVED, cu_actual := None, cu_evidence := None\<rparr>" by metis
  then show ?thesis using reopen(3) by (intro shift_safe [OF inv shift]) (auto simp: canary_usage_keeps_def)
next
  case (fresh p estimate)
  show ?thesis by (rule take_safe [OF fresh(5) inv fresh(1) assms(3) fresh(2-4)])
qed

lemma canary_txn_safe:
  assumes "canary_txn s t w" and inv: "canary_inv t"
  shows "canary_safe t w"
  using assms(1)
proof cases
  case (canary_create i now rq v)
  then show ?thesis by (auto simp: create_permit_def res_simps intro!: new_permit_safe [OF inv])
next
  case (canary_grant i audit_id_of request_hash now rq confirmed actor key v)
  then obtain p replay where p: "new_permit i now rq = Inr p"
    and r: "authorized_replay t (audit_id_of (py_strip key)) (request_hash p) = Inr replay"
    by (auto simp: create_authorized_def Let_def res_simps split: if_split_asm)
  show ?thesis
  proof (cases replay)
    case None
    with canary_grant p r have "cd_permits w = cd_permits t @ [p]" "cd_usages w = cd_usages t" "prefix (cd_audits t) (cd_audits w)"
      by (auto simp: create_authorized_def Let_def split: if_split_asm)
    with new_permit_safe [OF inv canary_grant(1) p] show ?thesis by blast
  next
    case (Some old)
    with canary_grant p r have "w = t" by (auto simp: create_authorized_def Let_def split: if_split_asm)
    then show ?thesis by (simp add: canary_same inv)
  qed
next
  case (canary_reserve i now pid provider m cost key v)
  from reserve_permit_safe [OF canary_reserve(2) inv canary_reserve(1)] show ?thesis .
next
  case (canary_match i now provider m key cost v)
  from reserve_matching_safe [OF canary_match(2) inv canary_match(1)] show ?thesis .
qed (blast intro: settle_usage_safe [OF _ inv] reconcile_usage_safe [OF _ inv] mark_uncertain_safe [OF _ inv]
    release_usage_safe [OF _ inv] release_usage_pre_boundary_safe [OF _ inv])+

interpretation permits: optimistic_txn canary_txn canary_inv canary_frame
proof unfold_locales
  show "canary_inv w" and "canary_frame t w"
    if "canary_inv s" "canary_inv t" "canary_frame s t" "canary_txn s t w" for s t w
    using canary_txn_safe [OF that(4,2)] by (auto simp: canary_safe_def)
qed (auto intro: canary_frame_refl canary_frame_trans)

end
