(* ===== verification/Canary_Properties.thy ===== *)
theory Canary_Properties
  imports Canary_Safety
begin

text \<open>
  The permits' properties: what their counters add up to and where they stop under any interleaving,
  that an operation has one usage however often it is retried, and two ways in which the code leaves
  a permit active that can grant nothing.
\<close>

section \<open>Two permits, and the calls on them\<close>

definition demo_permit :: "string \<Rightarrow> int \<Rightarrow> int \<Rightarrow> live_permit" where
  "demo_permit i requests cost = \<lparr>lp_id = i, lp_provider = ''veo'', lp_model = ''veo-3'', lp_max_requests = requests,
     lp_max_cost = cost, lp_used_requests = 0, lp_reserved = 0, lp_actual = 0, lp_expires_at = 1000, lp_purpose = ''audit'',
     lp_status = ACTIVE, lp_version = 1\<rparr>"

definition demo_permits :: "live_permit list \<Rightarrow> canary_db" where
  "demo_permits ps = \<lparr>cd_permits = ps, cd_usages = [], cd_audits = []\<rparr>"

definition demo_usage :: "string \<Rightarrow> string \<Rightarrow> string \<Rightarrow> int \<Rightarrow> canary_usage" where
  "demo_usage i pid key estimate = \<lparr>cu_id = i, cu_permit_id = pid, cu_key = key, cu_provider = ''veo'', cu_model = ''veo-3'',
     cu_estimated = estimate, cu_actual = None, cu_status = RESERVED, cu_evidence = None\<rparr>"

definition one_shot :: canary_db where
  "one_shot = demo_permits [demo_permit ''P1'' 1 1000000, demo_permit ''P2'' 1 1000000]"

definition one_shot_held :: canary_db where
  "one_shot_held = \<lparr>cd_permits = [(demo_permit ''P1'' 1 1000000)\<lparr>lp_used_requests := 1, lp_reserved := 1000000,
       lp_status := EXHAUSTED, lp_version := 2\<rparr>, demo_permit ''P2'' 1 1000000],
     cd_usages = [demo_usage ''U1'' ''P1'' ''A'' 1000000], cd_audits = []\<rparr>"

definition one_shot_released :: canary_db where
  "one_shot_released = \<lparr>cd_permits = [(demo_permit ''P1'' 1 1000000)\<lparr>lp_version := 3\<rparr>, demo_permit ''P2'' 1 1000000],
     cd_usages = [(demo_usage ''U1'' ''P1'' ''A'' 1000000)\<lparr>cu_status := RELEASED, cu_evidence := Some ''no call''\<rparr>], cd_audits = []\<rparr>"

definition one_shot_reopened :: canary_db where
  "one_shot_reopened = \<lparr>cd_permits = [(demo_permit ''P1'' 1 1000000)\<lparr>lp_used_requests := 1, lp_reserved := 1000000,
       lp_version := 4\<rparr>, demo_permit ''P2'' 1 1000000],
     cd_usages = [demo_usage ''U1'' ''P1'' ''A'' 1000000], cd_audits = []\<rparr>"

lemma one_shot_calls:
  "reserve_matching ''U1'' 10 one_shot one_shot ''veo'' ''veo-3'' ''A'' None = Inr ((demo_usage ''U1'' ''P1'' ''A'' 1000000, False), one_shot_held)"
  "release_usage_pre_boundary 20 one_shot_held ''U1'' ''no call'' = Inr ((hd (cd_usages one_shot_released), False), one_shot_released)"
  "reserve_matching ''U2'' 30 one_shot_released one_shot_released ''veo'' ''veo-3'' '' A '' None =
     Inr ((demo_usage ''U1'' ''P1'' ''A'' 1000000, True), one_shot_reopened)"
  by code_simp+

lemma one_step: "canary_txn t t w \<Longrightarrow> interleaved canary_txn t w"
  by (rule interleaved.commit [OF interleaved.start interleaved.start])

lemma one_shot_runs:
  "interleaved canary_txn one_shot one_shot_held" "interleaved canary_txn one_shot_held one_shot_released"
  "interleaved canary_txn one_shot_released one_shot_reopened"
proof -
  have "fresh_id ''U1'' one_shot" "fresh_id ''U2'' one_shot_released" by code_simp+
  then show "interleaved canary_txn one_shot one_shot_held" "interleaved canary_txn one_shot_released one_shot_reopened"
    by (auto intro: one_step canary_match [OF _ one_shot_calls(1)] canary_match [OF _ one_shot_calls(3)])
  show "interleaved canary_txn one_shot_held one_shot_released" by (rule one_step [OF canary_abandon [OF one_shot_calls(2)]])
qed

lemma one_shot_inv: "canary_inv one_shot" "canary_inv one_shot_held" "canary_inv one_shot_released"
proof -
  show "canary_inv one_shot"
    by (simp add: canary_inv_def one_shot_def demo_permits_def demo_permit_def permit_ok_def permit_status_ok_def)
  then show h: "canary_inv one_shot_held" by (rule permits.execution_inv [OF one_shot_runs(1)])
  then show "canary_inv one_shot_released" by (rule permits.execution_inv [OF one_shot_runs(2)])
qed

section \<open>The counters\<close>

text \<open>The sums the invariant is stated with, over the usages of one permit.\<close>

lemma tally_of_permit:
  "tally (on_permit i usage_hold) rows =
     tally cu_estimated (filter (\<lambda>u. cu_status u \<in> {RESERVED, UNCERTAIN}) (filter (\<lambda>u. cu_permit_id u = i) rows))"
  "tally (on_permit i usage_cost) rows = tally usage_cost (filter (\<lambda>u. cu_permit_id u = i) rows)"
  "tally (on_permit i usage_request) rows =
     int (length (filter (\<lambda>u. cu_status u \<noteq> RELEASED) (filter (\<lambda>u. cu_permit_id u = i) rows)))"
  by (induction rows) (simp_all add: on_permit_def usage_hold_def usage_request_def del: filter_filter)

lemma tally_overrun:
  "\<forall>u \<in> set rows. canary_usage_ok u \<Longrightarrow> tally (on_permit i usage_overrun) rows \<le>
     tally (\<lambda>u. max 0 (usage_cost u - cu_estimated u)) (filter (\<lambda>u. cu_status u = SETTLED) (filter (\<lambda>u. cu_permit_id u = i) rows))"
  by (induction rows) (auto simp: on_permit_def usage_overrun_def canary_usage_ok_def simp del: filter_filter)

text \<open>
  C26. Over every interleaving of the service's transactions a permit's reserved amount is the sum of
  the estimates of its open usages, its actual amount the sum of what its usages cost, its request
  count the number of its usages that were not released, and its status is ACTIVE or EXHAUSTED: the
  status the code assigns to an expired permit is rolled back with the refusal that follows. It never
  counts more requests than it allows, and what it holds and has spent stays within its ceiling, plus
  what settlements above their own estimate added.
\<close>

theorem permit_is_a_hard_stop:
  assumes "interleaved canary_txn s t" and "canary_inv s" and "p \<in> set (cd_permits t)"
    and of_permit: "rows = filter (\<lambda>u. cu_permit_id u = lp_id p) (cd_usages t)"
  shows "lp_reserved p = tally cu_estimated (filter (\<lambda>u. cu_status u \<in> {RESERVED, UNCERTAIN}) rows) \<and>
    lp_actual p = tally usage_cost rows \<and> lp_used_requests p = int (length (filter (\<lambda>u. cu_status u \<noteq> RELEASED) rows)) \<and>
    lp_status p \<in> {ACTIVE, EXHAUSTED} \<and> lp_used_requests p \<le> lp_max_requests p \<and>
    lp_reserved p + lp_actual p \<le> lp_max_cost p +
      tally (\<lambda>u. max 0 (usage_cost u - cu_estimated u)) (filter (\<lambda>u. cu_status u = SETTLED) rows)"
proof -
  have inv: "canary_inv t" by (rule permits.execution_inv [OF assms(1,2)])
  have ok: "permit_ok (cd_usages t) p" by (rule permit_inv [OF inv assms(3)])
  have "\<forall>u \<in> set (cd_usages t). canary_usage_ok u" using usage_inv [OF inv] by blast
  from tally_overrun [OF this, of "lp_id p"] ok show ?thesis
    unfolding of_permit tally_of_permit [symmetric] by (simp add: permit_ok_def permit_status_ok_def del: filter_filter)
qed

lemma permit_is_a_hard_stop_witness:
  "tally cu_estimated (filter (\<lambda>u. cu_status u \<in> {RESERVED, UNCERTAIN})
     (filter (\<lambda>u. cu_permit_id u = ''P1'') (cd_usages one_shot_held))) = 1000000"
proof -
  let ?p = "(demo_permit ''P1'' 1 1000000)\<lparr>lp_used_requests := 1, lp_reserved := 1000000, lp_status := EXHAUSTED, lp_version := 2\<rparr>"
  have "?p \<in> set (cd_permits one_shot_held)" by (simp add: one_shot_held_def)
  from permit_is_a_hard_stop [OF one_shot_runs(1) one_shot_inv(1) this refl] show ?thesis by (simp add: demo_permit_def)
qed

section \<open>One operation, one usage\<close>

lemma matched_row:
  assumes res: "reserve_matching i now s t provider m key cost = Inr ((u, r), w)" and inv: "canary_inv t" and fresh: "fresh_id i t"
  shows "u \<in> set (cd_usages w) \<and> cu_key u = py_strip key"
  using res
proof (cases rule: reserve_matching_cases)
  case (reopen v)
  from reopen_shift [OF reopen(4) inv reopen(1,3)] obtain v' p q where "canary_shift t (Some v) v' p q w" and "u = v'" 
    and "v' = v\<lparr>cu_status := RESERVED, cu_actual := None, cu_evidence := None\<rparr>" by (metis prod.inject)
  then have "cd_usages w = update_where (\<lambda>x. cu_id x = cu_id v) (\<lambda>_. u) (cd_usages t)" "cu_key u = cu_key v"
    by (auto simp: canary_shift_def writes_usage_def)
  with reopen(1,2) show ?thesis by (auto intro: update_where_hit)
next
  case (fresh p estimate)
  from take_shift [OF fresh(5) inv fresh(1) assms(3) fresh(2-4)] obtain v q where "canary_shift t None v p q w" "u = v" "cu_key v = py_strip key"
    by (metis prod.inject)
  then show ?thesis by (auto simp: canary_shift_def writes_usage_def)
qed simp

lemma known_operation:
  assumes res: "reserve_matching i now s t provider m key cost = Inr ((v, r), w)"
    and u: "u \<in> set (cd_usages t)" "cu_key u = py_strip key" "cu_id u \<in> cu_id ` set (cd_usages s)"
  shows "r \<and> cu_id v = cu_id u \<and> cu_permit_id v = cu_permit_id u"
proof -
  define rows where "rows = filter (\<lambda>u. cu_key u = py_strip key \<and> cu_id u \<in> cu_id ` set (cd_usages s)) (cd_usages t)"
  note res' = res [unfolded reserve_matching_def Let_def, folded rows_def]
  have u_in: "u \<in> set rows" using u by (simp add: rows_def)
  moreover have "length rows \<le> 1" using res' by (simp split: if_split_asm)
  ultimately have rows: "rows = [u]" by (cases rows) auto
  with res' have "(if cu_status u \<noteq> RELEASED then Inr ((u, True), t) else reopen_usage now t u) = Inr ((v, r), w)"
    by (auto simp: res_simps split: if_split_asm)
  then show ?thesis by (auto simp: reopen_usage_def Let_def split: if_split_asm option.split_asm)
qed

text \<open>
  C27. Once a matching reservation gave an operation its usage, every later one for that operation is
  a replay on the same usage of the same permit, whatever ran in between: a retry never consumes a
  second permit, nor a second request unless the first was given back.
\<close>

theorem operation_keeps_its_usage:
  assumes inv: "canary_inv t0" and fresh: "fresh_id i t0"
    and first: "reserve_matching i now s0 t0 provider m key cost = Inr ((u, r), t1)"
    and runs: "interleaved canary_txn t1 s" "interleaved canary_txn s t2"
    and second: "reserve_matching i' now' s t2 provider' m' key' cost' = Inr ((v, replayed), t3)" and same: "py_strip key' = py_strip key"
  shows "replayed \<and> cu_id v = cu_id u \<and> cu_permit_id v = cu_permit_id u"
proof -
  have inv1: "canary_inv t1" using reserve_matching_safe [OF first inv fresh] by (simp add: canary_safe_def)
  from matched_row [OF first inv fresh] have u: "u \<in> set (cd_usages t1)" "cu_key u = py_strip key" by auto
  have inv2: "canary_inv s" and f1: "canary_frame t1 s" using permits.execution [OF runs(1) inv1] by auto
  have f2: "canary_frame s t2" by (rule permits.execution_frame [OF runs(2) inv2])
  from f1 u(1) obtain us where us: "us \<in> set (cd_usages s)" "canary_usage_keeps u us" by (auto simp: canary_frame_def)
  from f2 us(1) obtain ut where ut: "ut \<in> set (cd_usages t2)" "canary_usage_keeps us ut" by (auto simp: canary_frame_def)
  have keys: "cu_key ut = py_strip key'" "cu_id ut = cu_id u" "cu_permit_id ut = cu_permit_id u" "cu_id ut = cu_id us"
    using us(2) ut(2) u(2) same by (auto simp: canary_usage_keeps_def)
  have "cu_id ut \<in> cu_id ` set (cd_usages s)" using keys(4) us(1) by simp
  from known_operation [OF second ut(1) keys(1) this] keys show ?thesis by simp
qed

lemma operation_keeps_its_usage_witness:
  "\<exists>v. reserve_matching ''U2'' 30 one_shot_released one_shot_released ''veo'' ''veo-3'' '' A '' None = Inr ((v, True), one_shot_reopened) \<and>
     cu_id v = cu_id (demo_usage ''U1'' ''P1'' ''A'' 1000000)"
proof -
  have "fresh_id ''U1'' one_shot" "py_strip '' A '' = py_strip ''A''" by code_simp+
  from operation_keeps_its_usage [OF one_shot_inv(1) this(1) one_shot_calls(1) one_shot_runs(2) interleaved.start one_shot_calls(3) this(2)]
  show ?thesis using one_shot_calls(3) by blast
qed

section \<open>Permits that stay active and grant nothing\<close>

definition two_calls :: canary_db where
  "two_calls = demo_permits [demo_permit ''P1'' 3 10000000]"

definition two_calls_held :: canary_db where
  "two_calls_held = \<lparr>cd_permits = [(demo_permit ''P1'' 3 10000000)\<lparr>lp_used_requests := 2, lp_reserved := 10000000,
       lp_status := EXHAUSTED, lp_version := 3\<rparr>],
     cd_usages = [demo_usage ''U1'' ''P1'' ''A'' 5000000, demo_usage ''U2'' ''P1'' ''B'' 5000000], cd_audits = []\<rparr>"

definition two_calls_overrun :: canary_db where
  "two_calls_overrun = \<lparr>cd_permits = [(demo_permit ''P1'' 3 10000000)\<lparr>lp_used_requests := 1, lp_actual := 12000000, lp_version := 5\<rparr>],
     cd_usages = [(demo_usage ''U1'' ''P1'' ''A'' 5000000)\<lparr>cu_actual := Some 12000000, cu_status := SETTLED, cu_evidence := Some ''bill''\<rparr>,
       (demo_usage ''U2'' ''P1'' ''B'' 5000000)\<lparr>cu_status := RELEASED\<rparr>], cd_audits = []\<rparr>"

text \<open>The state a step leaves; the initial state when it raises.\<close>

definition after :: "canary_error + 'v \<times> canary_db \<Rightarrow> canary_db" where
  "after r = (case r of Inl _ \<Rightarrow> two_calls | Inr (_, w) \<Rightarrow> w)"

lemma two_calls_run: "interleaved canary_txn two_calls two_calls_overrun"
proof -
  let ?a = "reserve_matching ''U1'' 10 two_calls two_calls ''veo'' ''veo-3'' ''A'' (Some 5)"
  let ?b = "reserve_matching ''U2'' 20 (after ?a) (after ?a) ''veo'' ''veo-3'' ''B'' (Some 5)"
  let ?c = "settle_usage 30 two_calls_held ''U1'' 12 ''bill''"
  let ?d = "release_usage 40 (after ?c) ''U2''"
  have a: "\<not> isl ?a" "fresh_id ''U1'' two_calls" and b: "\<not> isl ?b" "fresh_id ''U2'' (after ?a)" "after ?b = two_calls_held"
    and c: "\<not> isl ?c" and d: "\<not> isl ?d" "after ?d = two_calls_overrun" by code_simp+
  have go: "\<exists>v. r = Inr (v, after r)" if "\<not> isl r" for r :: "canary_error + (canary_usage \<times> bool) \<times> canary_db"
    using that by (cases r) (auto simp: after_def)
  from go [OF a(1)] have s1: "interleaved canary_txn two_calls (after ?a)" by (blast intro: one_step canary_match [OF a(2)])
  from go [OF b(1)] have s2: "interleaved canary_txn (after ?a) two_calls_held"
    unfolding b(3) [symmetric] by (blast intro: one_step canary_match [OF b(2)])
  from go [OF c] have s3: "interleaved canary_txn two_calls_held (after ?c)" by (blast intro: one_step canary_settle)
  from go [OF d(1)] have s4: "interleaved canary_txn (after ?c) two_calls_overrun"
    unfolding d(2) [symmetric] by (blast intro: one_step canary_release)
  show ?thesis using s1 s2 s3 s4 by (blast intro: interleaved_trans)
qed

text \<open>
  C28. Two ways in which a permit stays ACTIVE with nothing left. Opening a released usage again does
  not measure the permit's capacity, so the spent permit remains the oldest active one and the next
  operation is refused although a second permit is unused. A release makes an exhausted permit active
  without measuring either; after an overrun what remains is negative and the reservation raises
  ValueError, which is no spending denial.
\<close>

theorem spent_permit_stays_active:
  "(\<exists>t p. interleaved canary_txn one_shot t \<and>
     reserve_matching ''U2'' 40 t t ''veo'' ''veo-3'' ''B'' None = Inl (CanaryDenied ''live canary request limit reached'') \<and>
     p \<in> set (cd_permits t) \<and> lp_id p = ''P2'' \<and> lp_status p = ACTIVE \<and> lp_used_requests p = 0 \<and> lp_expires_at p > 40) \<and>
   (\<exists>t p. interleaved canary_txn two_calls t \<and> p \<in> set (cd_permits t) \<and> lp_status p = ACTIVE \<and> lp_actual p > lp_max_cost p \<and>
     reserve_matching ''U3'' 50 t t ''veo'' ''veo-3'' ''C'' None = Inl (CanaryValueError ''canary cost cannot be negative''))"
proof
  have "interleaved canary_txn one_shot one_shot_reopened"
    using one_shot_runs by (blast intro: interleaved_trans)
  moreover have "reserve_matching ''U2'' 40 one_shot_reopened one_shot_reopened ''veo'' ''veo-3'' ''B'' None =
      Inl (CanaryDenied ''live canary request limit reached'')" by code_simp
  moreover have "demo_permit ''P2'' 1 1000000 \<in> set (cd_permits one_shot_reopened)" by (simp add: one_shot_reopened_def)
  moreover have "lp_id (demo_permit ''P2'' 1 1000000) = ''P2'' \<and> lp_status (demo_permit ''P2'' 1 1000000) = ACTIVE \<and>
      lp_used_requests (demo_permit ''P2'' 1 1000000) = 0 \<and> lp_expires_at (demo_permit ''P2'' 1 1000000) > 40"
    by (simp add: demo_permit_def)
  ultimately show "\<exists>t p. interleaved canary_txn one_shot t \<and>
     reserve_matching ''U2'' 40 t t ''veo'' ''veo-3'' ''B'' None = Inl (CanaryDenied ''live canary request limit reached'') \<and>
     p \<in> set (cd_permits t) \<and> lp_id p = ''P2'' \<and> lp_status p = ACTIVE \<and> lp_used_requests p = 0 \<and> lp_expires_at p > 40" by blast
next
  let ?p = "(demo_permit ''P1'' 3 10000000)\<lparr>lp_used_requests := 1, lp_actual := 12000000, lp_version := 5\<rparr>"
  have "?p \<in> set (cd_permits two_calls_overrun)" by (simp add: two_calls_overrun_def)
  moreover have "lp_status ?p = ACTIVE \<and> lp_actual ?p > lp_max_cost ?p" by (simp add: demo_permit_def)
  moreover have "reserve_matching ''U3'' 50 two_calls_overrun two_calls_overrun ''veo'' ''veo-3'' ''C'' None =
      Inl (CanaryValueError ''canary cost cannot be negative'')" by code_simp
  ultimately show "\<exists>t p. interleaved canary_txn two_calls t \<and> p \<in> set (cd_permits t) \<and> lp_status p = ACTIVE \<and> lp_actual p > lp_max_cost p \<and>
     reserve_matching ''U3'' 50 t t ''veo'' ''veo-3'' ''C'' None = Inl (CanaryValueError ''canary cost cannot be negative'')"
    using two_calls_run by blast
qed

end
