(* ===== verification/Generation_Fence.thy ===== *)
theory Generation_Fence
  imports Live_Canary
begin

text \<open>
  The fence of a live generation, \<^verbatim>\<open>services/generation-gateway/generation_gateway/gateway.py\<close>:
  which holds a job takes before the paid boundary, and how they are given back, asserted and settled.
  Every call of the two spending services commits on its own, so a step of the gateway returns the
  state it leaves also when it raises. The job's spend authorization is looked up in \<open>s\<close>, an earlier
  state than \<open>t\<close>, in which the holds are taken. What the provider reported as cost is an argument.
\<close>

section \<open>State and steps\<close>

record fence_db =
  fd_spend :: spend_db
  fd_canary :: canary_db
  fd_events :: "(string \<times> string) list"

datatype fence_error =
    FenceSpend spend_error
  | FenceCanary canary_error
  | ResubmissionForbidden

record generation_fence =
  gf_canary :: "canary_usage option"
  gf_authorization :: "spend_authorization option"

type_synonym 'a fence_step = "fence_db \<Rightarrow> (fence_error + 'a) \<times> fence_db"

definition fence_return :: "'a \<Rightarrow> 'a fence_step" where
  "fence_return x = (\<lambda>t. (Inr x, t))"

definition fence_raise :: "fence_error \<Rightarrow> 'a fence_step" where
  "fence_raise e = (\<lambda>t. (Inl e, t))"

definition fence_bind :: "'a fence_step \<Rightarrow> ('a \<Rightarrow> 'b fence_step) \<Rightarrow> 'b fence_step" where
  "fence_bind m f = (\<lambda>t. case m t of (Inl e, t') \<Rightarrow> (Inl e, t') | (Inr x, t') \<Rightarrow> f x t')"

text \<open>One transaction of a service.\<close>

definition spend_call :: "(spend_db \<Rightarrow> spend_error + 'a \<times> spend_db) \<Rightarrow> 'a fence_step" where
  "spend_call f = (\<lambda>t. case f (fd_spend t) of
     Inl e \<Rightarrow> (Inl (FenceSpend e), t) | Inr (x, u) \<Rightarrow> (Inr x, t\<lparr>fd_spend := u\<rparr>))"

definition canary_call :: "(canary_db \<Rightarrow> canary_error + 'a \<times> canary_db) \<Rightarrow> 'a fence_step" where
  "canary_call f = (\<lambda>t. case f (fd_canary t) of
     Inl e \<Rightarrow> (Inl (FenceCanary e), t) | Inr (x, w) \<Rightarrow> (Inr x, t\<lparr>fd_canary := w\<rparr>))"

definition fence_event :: "string \<Rightarrow> string \<Rightarrow> unit fence_step" where
  "fence_event job event_type = (\<lambda>t. (Inr (), t\<lparr>fd_events := fd_events t @ [(job, event_type)]\<rparr>))"

text \<open>
  What the gateway is built with: the live mode, the production budget's policy and the permit
  service, either of which may be absent. \<open>runtime_model\<close> is the model registry's lookup of a target:
  enabled, live-enabled, lifecycle status. Ids and clocks of the calls are fields.
\<close>

record fence_env =
  ge_live :: bool
  ge_policy :: "spend_policy option"
  ge_permits :: bool
  ge_runtime_model :: "(string \<Rightarrow> string \<Rightarrow> string \<Rightarrow> (bool \<times> bool \<times> string) option) option"
  ge_spend_env :: spend_env
  ge_usage_id :: string
  ge_now :: int

definition USER_CONNECTION_PROVIDER :: string where "USER_CONNECTION_PROVIDER = ''byok''"

definition is_connection_provider :: "string \<Rightarrow> bool" where
  "is_connection_provider provider \<longleftrightarrow> provider = USER_CONNECTION_PROVIDER"

definition production_serviceable :: "bool \<Rightarrow> bool \<Rightarrow> string \<Rightarrow> bool" where
  "production_serviceable enabled live_enabled lifecycle_status \<longleftrightarrow>
     enabled \<and> live_enabled \<and> lifecycle_status \<notin> {''DISABLED'', ''BLOCKED''}"

definition live_canary_operation_key :: "string \<Rightarrow> string" where
  "live_canary_operation_key job = ''generation:'' @ job"

section \<open>Taking the holds\<close>

text \<open>The evidence the gateway records for each move of a hold.\<close>

definition recovered_evidence :: "string \<Rightarrow> string" where
  "recovered_evidence job = ''generation-boundary-recovered-before-transport:'' @ job"

definition prepared_evidence :: "string \<Rightarrow> string" where
  "prepared_evidence job = ''generation-boundary-prepared:'' @ job"

definition abandoned_evidence :: "string \<Rightarrow> string" where
  "abandoned_evidence job = ''generation-boundary-abandoned:'' @ job"

definition release_evidence :: "string \<Rightarrow> string" where
  "release_evidence job = ''generation-pre-boundary-release:'' @ job"

definition no_permit_service :: fence_error where
  "no_permit_service = FenceCanary (CanaryDenied ''live media generation requires a durable LiveCanaryPermit'')"

definition fence_authorization :: "fence_env \<Rightarrow> spend_db \<Rightarrow> string \<Rightarrow> bool \<Rightarrow> spend_authorization option fence_step" where
  "fence_authorization g s job pre_boundary_proven =
     (case ge_policy g of
        None \<Rightarrow> fence_return None
      | Some p \<Rightarrow> (case find_operation s (live_canary_operation_key job) of
          None \<Rightarrow> fence_return None
        | Some a \<Rightarrow>
            if sa_status a = UNCERTAIN \<and> pre_boundary_proven
            then fence_bind (spend_call (\<lambda>t. release_pre_boundary t (sa_id a)
                (recovered_evidence job))) (\<lambda>(b, _). fence_return (Some b))
            else fence_return (Some a)))"

definition fence_serviceable :: "fence_env \<Rightarrow> spend_authorization option \<Rightarrow> string \<Rightarrow> string \<Rightarrow> string \<Rightarrow> bool" where
  "fence_serviceable g authorization provider model media_type \<longleftrightarrow>
     authorization \<noteq> None \<and> (case ge_policy g of None \<Rightarrow> False | Some p \<Rightarrow> policy_enabled p) \<and>
     (case ge_runtime_model g of None \<Rightarrow> False
      | Some runtime_model \<Rightarrow> (case runtime_model provider model media_type of None \<Rightarrow> False
          | Some (enabled, live_enabled, lifecycle) \<Rightarrow> production_serviceable enabled live_enabled lifecycle))"

definition match_permit :: "fence_env \<Rightarrow> string \<Rightarrow> string \<Rightarrow> string \<Rightarrow> (canary_usage \<times> bool) fence_step" where
  "match_permit g provider model key =
     canary_call (\<lambda>t. reserve_matching (ge_usage_id g) (ge_now g) t t provider model key None)"

definition fence_canary :: "fence_env \<Rightarrow> string \<Rightarrow> string \<Rightarrow> string \<Rightarrow> bool \<Rightarrow> canary_usage fence_step" where
  "fence_canary g job provider model pre_boundary_proven =
     (let key = live_canary_operation_key job in
      if \<not> ge_permits g then fence_raise no_permit_service
      else fence_bind (match_permit g provider model key) (\<lambda>(u, replayed).
        fence_bind
          (if replayed \<and> cu_status u = UNCERTAIN \<and> pre_boundary_proven
           then fence_bind (canary_call (\<lambda>t. release_usage_pre_boundary (ge_now g) t (cu_id u)
               (recovered_evidence job))) (\<lambda>_. match_permit g provider model key)
           else fence_return (u, replayed)) (\<lambda>(v, again).
          if again \<and> (cu_status v = UNCERTAIN \<or> cu_status v = SETTLED) then fence_raise ResubmissionForbidden
          else fence_return v)))"

text \<open>A clean-up step whose own failure is swallowed.\<close>

definition fence_try :: "'a fence_step \<Rightarrow> unit fence_step" where
  "fence_try m = (\<lambda>t. (Inr (), snd (m t)))"

definition abandon_canary :: "fence_env \<Rightarrow> canary_usage option \<Rightarrow> unit fence_step" where
  "abandon_canary g canary = (case canary of
     Some u \<Rightarrow> if cu_status u = RESERVED then fence_try (canary_call (\<lambda>t. release_usage (ge_now g) t (cu_id u))) else fence_return ()
   | None \<Rightarrow> fence_return ())"

definition abandon_authorization :: "string \<Rightarrow> spend_authorization option \<Rightarrow> unit fence_step" where
  "abandon_authorization job authorization = (case authorization of
     Some a \<Rightarrow> if sa_status a = UNCERTAIN
       then fence_try (spend_call (\<lambda>t. release_pre_boundary t (sa_id a) (abandoned_evidence job)))
       else fence_return ()
   | None \<Rightarrow> fence_return ())"

definition fence_catch :: "'a fence_step \<Rightarrow> unit fence_step \<Rightarrow> 'a fence_step" where
  "fence_catch m cleanup = (\<lambda>t. case m t of (Inl e, t') \<Rightarrow> (Inl e, snd (cleanup t')) | (Inr x, t') \<Rightarrow> (Inr x, t'))"

text \<open>
  Preparation before marking. In the handler, the authorization is the prepared one only once its
  preparation returned, and the usage the one that was reserved.
\<close>

definition prepare_authorization ::
  "fence_env \<Rightarrow> string \<Rightarrow> string \<Rightarrow> string \<Rightarrow> canary_usage option \<Rightarrow> spend_authorization option \<Rightarrow> spend_authorization option fence_step" where
  "prepare_authorization g job provider model canary authorization =
     (case authorization of
        None \<Rightarrow> fence_return None
      | Some a \<Rightarrow> (case ge_policy g of
          None \<Rightarrow> fence_raise (FenceSpend (SpendRuntimeError ''production budget service disappeared''))
        | Some p \<Rightarrow> fence_bind (spend_call (\<lambda>t. prepare_boundary p (ge_spend_env g) t (sa_id a) provider model
              (if canary \<noteq> None then FENCE_CANARY else FENCE_PRODUCTION) (prepared_evidence job)))
            (\<lambda>(b, _). fence_return (Some b))))"

definition mark_canary :: "string \<Rightarrow> canary_usage option \<Rightarrow> canary_usage option fence_step" where
  "mark_canary job canary =
     (case canary of
        None \<Rightarrow> fence_return None
      | Some u \<Rightarrow> fence_bind (canary_call (\<lambda>t. mark_uncertain t (cu_id u) (prepared_evidence job)))
          (\<lambda>(v, _). fence_return (Some v)))"

definition cross_boundary ::
  "fence_env \<Rightarrow> string \<Rightarrow> string \<Rightarrow> string \<Rightarrow> canary_usage option \<Rightarrow> spend_authorization option \<Rightarrow> generation_fence fence_step" where
  "cross_boundary g job provider model canary authorization =
     fence_bind
       (fence_catch (prepare_authorization g job provider model canary authorization)
         (fence_bind (abandon_canary g canary) (\<lambda>_. abandon_authorization job authorization)))
       (\<lambda>prepared. fence_bind
         (fence_catch (mark_canary job canary)
           (fence_bind (abandon_canary g canary) (\<lambda>_. abandon_authorization job prepared)))
         (\<lambda>marked. fence_return \<lparr>gf_canary = marked, gf_authorization = prepared\<rparr>))"

definition reserve_fence ::
  "fence_env \<Rightarrow> spend_db \<Rightarrow> string \<Rightarrow> string \<Rightarrow> string \<Rightarrow> string \<Rightarrow> bool \<Rightarrow> generation_fence option fence_step" where
  "reserve_fence g s job provider model media_type pre_boundary_proven =
     (if \<not> ge_live g \<or> is_connection_provider provider then fence_return None
      else fence_bind (fence_authorization g s job pre_boundary_proven) (\<lambda>authorization.
        if (case authorization of None \<Rightarrow> False | Some a \<Rightarrow> sa_status a = UNCERTAIN \<or> sa_status a = SETTLED)
        then fence_raise ResubmissionForbidden
        else fence_bind
          (if fence_serviceable g authorization provider model media_type then fence_return None
           else fence_bind (fence_canary g job provider model pre_boundary_proven) (\<lambda>u. fence_return (Some u)))
          (\<lambda>canary. fence_bind (cross_boundary g job provider model canary authorization) (\<lambda>fence. fence_return (Some fence)))))"

section \<open>Giving back, asserting, settling\<close>

definition release_fence :: "fence_env \<Rightarrow> generation_fence option \<Rightarrow> string \<Rightarrow> bool \<Rightarrow> unit fence_step" where
  "release_fence g fence job boundary_crossed =
     (case fence of
        None \<Rightarrow> fence_return ()
      | Some f \<Rightarrow>
          if boundary_crossed then fence_return ()
          else
            let evidence = release_evidence job in
            fence_bind
              (case gf_canary f of
                 None \<Rightarrow> fence_return ()
               | Some u \<Rightarrow> if \<not> ge_permits g then fence_return ()
                   else fence_bind (canary_call (\<lambda>t. release_usage_pre_boundary (ge_now g) t (cu_id u) evidence)) (\<lambda>_. fence_return ()))
              (\<lambda>_. case gf_authorization f of
                 None \<Rightarrow> fence_return ()
               | Some a \<Rightarrow> if ge_policy g = None then fence_return ()
                   else fence_bind (spend_call (\<lambda>t. release_pre_boundary t (sa_id a) evidence)) (\<lambda>_. fence_return ())))"

definition require_fence ::
  "fence_env \<Rightarrow> string \<Rightarrow> string \<Rightarrow> string \<Rightarrow> bool \<Rightarrow> generation_fence option fence_step" where
  "require_fence g job provider model allow_settled =
     (if \<not> ge_live g \<or> is_connection_provider provider then fence_return None
      else (\<lambda>t.
        let key = live_canary_operation_key job;
            allowed = (if allow_settled then [UNCERTAIN, SETTLED] else [UNCERTAIN]);
            authorization = (if ge_policy g = None then None else find_operation (fd_spend t) key)
        in fence_bind
          (case authorization of
             Some a \<Rightarrow> if sa_fence a = FENCE_PRODUCTION then fence_return None
               else if \<not> ge_permits g then fence_raise no_permit_service
               else canary_call (\<lambda>w. res_bind (require_operation_boundary (ge_now g) w provider model key allowed (\<not> allow_settled))
                 (\<lambda>u. Inr (Some u, w)))
           | None \<Rightarrow> if \<not> ge_permits g then fence_raise no_permit_service
               else canary_call (\<lambda>w. res_bind (require_operation_boundary (ge_now g) w provider model key allowed (\<not> allow_settled))
                 (\<lambda>u. Inr (Some u, w))))
          (\<lambda>canary. fence_bind
            (if authorization = None then fence_return None
             else spend_call (\<lambda>u. res_bind (require_operation u key provider model allowed) (\<lambda>a. Inr (Some a, u))))
            (\<lambda>held. fence_return (Some \<lparr>gf_canary = canary, gf_authorization = held\<rparr>))) t))"

definition settle_fence ::
  "fence_env \<Rightarrow> string \<Rightarrow> string \<Rightarrow> string \<Rightarrow> string \<Rightarrow> rat option \<Rightarrow> unit fence_step" where
  "settle_fence g job provider model provider_job actual =
     (if \<not> ge_live g \<or> is_connection_provider provider then fence_return ()
      else (\<lambda>t.
        let authorization = (if ge_policy g = None then None else find_operation (fd_spend t) (live_canary_operation_key job));
            evidence = ''provider-job:'' @ provider @ '':'' @ provider_job
        in if actual = None \<and> authorization = None then (Inr (), t)
        else fence_bind (require_fence g job provider model True) (\<lambda>fence. case fence of
            None \<Rightarrow> fence_raise (FenceSpend (SpendRuntimeError ''live generation fence disappeared''))
          | Some f \<Rightarrow> fence_bind
              (case (gf_canary f, actual) of
                 (Some u, Some cost) \<Rightarrow> if \<not> ge_permits g then fence_return ()
                   else fence_bind (canary_call (\<lambda>w. settle_usage (ge_now g) w (cu_id u) cost evidence)) (\<lambda>_. fence_return ())
               | _ \<Rightarrow> fence_return ())
              (\<lambda>_. case gf_authorization f of
                 None \<Rightarrow> fence_return ()
               | Some a \<Rightarrow> if ge_policy g = None then fence_return ()
                   else fence_bind (spend_call (\<lambda>u. settle_spend u (sa_id a) actual evidence
                       (if actual \<noteq> None then SOURCE_VERIFIED_PROVIDER else SOURCE_ESTIMATED_QUOTE)))
                     (\<lambda>(c, replayed). if overran_quote c \<and> \<not> replayed then fence_event job ''SPEND_QUOTE_OVERRUN'' else fence_return ()))) t))"

text \<open>
  The recovery of completed generations that were not settled. Of the job's row it needs the id, the
  target, the provider's job and the recorded cost; the rows are the completed ones with an output.
\<close>

record completed_job =
  cj_id :: string
  cj_provider :: string
  cj_model :: string
  cj_provider_job :: string
  cj_actual_cost :: "rat option"

fun settlement_caught :: "fence_error \<Rightarrow> bool" where
  "settlement_caught ResubmissionForbidden \<longleftrightarrow> True"
| "settlement_caught (FenceSpend e) \<longleftrightarrow> (case e of
     SpendValueError _ \<Rightarrow> True | SpendDenied _ \<Rightarrow> True | SpendConflict _ \<Rightarrow> True | ProductionBudgetExceeded _ _ _ \<Rightarrow> True | _ \<Rightarrow> False)"
| "settlement_caught (FenceCanary e) \<longleftrightarrow> (case e of
     CanaryValueError _ \<Rightarrow> True | CanaryDenied _ \<Rightarrow> True | CanaryConflict _ \<Rightarrow> True | _ \<Rightarrow> False)"

fun settle_targets :: "fence_env \<Rightarrow> completed_job list \<Rightarrow> int fence_step" where
  "settle_targets g [] = fence_return 0"
| "settle_targets g (j # js) = (\<lambda>t.
     let actual = (if cj_actual_cost j = Some 0 then None else cj_actual_cost j) in
     case settle_fence g (cj_id j) (cj_provider j) (cj_model j) (cj_provider_job j) actual t of
       (Inl e, t') \<Rightarrow>
         if settlement_caught e
         then fence_bind (fence_event (cj_id j) ''LIVE_CANARY_SETTLEMENT_REVIEW_REQUIRED'') (\<lambda>_. settle_targets g js) t'
         else (Inl e, t')
     | (Inr _, t') \<Rightarrow>
         fence_bind (fence_event (cj_id j) ''SPEND_AUTHORIZATION_SETTLED_ON_RECOVERY'') (\<lambda>_.
           fence_bind (settle_targets g js) (\<lambda>n. fence_return (n + 1))) t')"

definition settle_completed :: "fence_env \<Rightarrow> completed_job list \<Rightarrow> int fence_step" where
  "settle_completed g completed = (\<lambda>t.
     if \<not> ge_live g \<or> ge_policy g = None then (Inr 0, t)
     else settle_targets g (filter (\<lambda>j. list_ex (\<lambda>a. sa_job_id a = Some (cj_id j) \<and> sa_status a = UNCERTAIN)
       (sd_authorizations (fd_spend t))) completed) t)"

end
