(* ===== verification/Fence_Safety.thy ===== *)
theory Fence_Safety
  imports Generation_Fence Production_Safety Canary_Safety
begin

text \<open>
  The gateway's fence as a client of the two spending services. \<open>fence_run\<close> relates two states when
  each service got from one to the other by its own transactions; every step of the gateway is such a
  run, so what the services promise for any interleaving holds for whatever the gateway does with them.
\<close>

section \<open>Runs of the two services\<close>

definition fence_run :: "spend_policy set \<Rightarrow> fence_db \<Rightarrow> fence_db \<Rightarrow> bool" where
  "fence_run ps t t' \<longleftrightarrow> interleaved (spend_txn ps) (fd_spend t) (fd_spend t') \<and>
     interleaved canary_txn (fd_canary t) (fd_canary t')"

lemma fence_run_refl [simp]: "fence_run ps t t"
  by (simp add: fence_run_def interleaved.start)

lemma fence_run_trans: "fence_run ps t t' \<Longrightarrow> fence_run ps t' t'' \<Longrightarrow> fence_run ps t t''"
  unfolding fence_run_def by (blast intro: interleaved_trans)

lemma single_txn: "txn s s u \<Longrightarrow> interleaved txn s u"
  by (rule interleaved.commit [OF interleaved.start interleaved.start])

definition runs :: "spend_policy set \<Rightarrow> 'a fence_step \<Rightarrow> bool" where
  "runs ps m \<longleftrightarrow> (\<forall>t. fence_run ps t (snd (m t)))"

lemma fence_bind_run:
  assumes "fence_run ps t (snd (m t))" and "\<And>x t'. m t = (Inr x, t') \<Longrightarrow> fence_run ps t' (snd (f x t'))"
  shows "fence_run ps t (snd (fence_bind m f t))"
proof (cases "m t")
  case (Pair r t')
  with assms show ?thesis by (cases r) (auto simp: fence_bind_def intro: fence_run_trans)
qed

lemma runs_bind: "runs ps m \<Longrightarrow> (\<And>x. runs ps (f x)) \<Longrightarrow> runs ps (fence_bind m f)"
  unfolding runs_def by (intro allI fence_bind_run) auto

lemma runs_basic [simp]: "runs ps (fence_return x)" "runs ps (fence_raise e)" "runs ps (fence_event j ev)"
  by (simp_all add: runs_def fence_return_def fence_raise_def fence_event_def fence_run_def interleaved.start)

lemma runs_try: "runs ps m \<Longrightarrow> runs ps (fence_try m)"
  by (simp add: runs_def fence_try_def)

lemma runs_spend: "(\<And>s x u. f s = Inr (x, u) \<Longrightarrow> spend_txn ps s s u) \<Longrightarrow> runs ps (spend_call f)"
  by (auto simp: runs_def spend_call_def fence_run_def intro: interleaved.start single_txn split: sum.split)

lemma runs_canary: "(\<And>s x w. f s = Inr (x, w) \<Longrightarrow> canary_txn s s w) \<Longrightarrow> runs ps (canary_call f)"
  by (auto simp: runs_def canary_call_def fence_run_def intro: interleaved.start single_txn split: sum.split)

lemma spend_call_run:
  "(\<And>x u. f (fd_spend t) = Inr (x, u) \<Longrightarrow> spend_txn ps (fd_spend t) (fd_spend t) u) \<Longrightarrow> fence_run ps t (snd (spend_call f t))"
  by (auto simp: spend_call_def fence_run_def intro: interleaved.start single_txn split: sum.split)

lemma canary_call_run:
  "(\<And>x w. f (fd_canary t) = Inr (x, w) \<Longrightarrow> canary_txn (fd_canary t) (fd_canary t) w) \<Longrightarrow> fence_run ps t (snd (canary_call f t))"
  by (auto simp: canary_call_def fence_run_def intro: interleaved.start single_txn split: sum.split)

lemma runs_release_spend: "runs ps (spend_call (\<lambda>t. release_pre_boundary t i ev))"
  and runs_settle_spend: "runs ps (spend_call (\<lambda>t. settle_spend t i cost ev source))"
  and runs_release_usage: "runs ps (canary_call (\<lambda>t. release_usage now t j))"
  and runs_abandon_usage: "runs ps (canary_call (\<lambda>t. release_usage_pre_boundary now t j ev))"
  and runs_settle_usage: "runs ps (canary_call (\<lambda>t. settle_usage now t j price ev))"
  and runs_mark: "runs ps (canary_call (\<lambda>t. mark_uncertain t j ev))"
  by (intro runs_spend runs_canary txn_give_back txn_settlement canary_release canary_abandon canary_settle canary_mark; assumption)+

lemmas service_runs = runs_release_spend runs_settle_spend runs_release_usage runs_abandon_usage runs_settle_usage runs_mark

lemma runs_require_usage:
  "runs ps (canary_call (\<lambda>w. res_bind (require_operation_boundary now w provider model key allowed unexpired) (\<lambda>u. Inr (Some u, w))))"
  and runs_require_spend: "runs ps (spend_call (\<lambda>u. res_bind (require_operation u key provider model allowed) (\<lambda>a. Inr (Some a, u))))"
  by (auto simp: runs_def canary_call_def spend_call_def fence_run_def res_simps intro: interleaved.start split: sum.split)

lemma runs_release_fence: "runs ps (release_fence g fence job crossed)"
  unfolding release_fence_def Let_def
  by (auto intro!: runs_bind service_runs split: option.split)

lemma runs_require_fence: "runs ps (require_fence g job provider model allow)"
proof -
  have "fence_run ps t (snd (require_fence g job provider model allow t))" for t
    unfolding require_fence_def Let_def
    by (auto simp: fence_return_def split: option.split
        intro!: runs_bind [unfolded runs_def, rule_format] runs_require_usage runs_require_spend runs_basic
          runs_require_usage [unfolded runs_def, rule_format] runs_require_spend [unfolded runs_def, rule_format]
          runs_basic [unfolded runs_def, rule_format])
  then show ?thesis by (simp add: runs_def)
qed


lemma runsD: "runs ps m \<Longrightarrow> fence_run ps t (snd (m t))"
  by (simp add: runs_def)

lemma runs_settle_fence: "runs ps (settle_fence g job provider model pj actual)"
proof -
  have charge: "runs ps (case (gf_canary f, actual) of
      (Some u, Some cost) \<Rightarrow> if \<not> ge_permits g then fence_return ()
        else fence_bind (canary_call (\<lambda>w. settle_usage (ge_now g) w (cu_id u) cost ev)) (\<lambda>_. fence_return ())
    | _ \<Rightarrow> fence_return ())" for f ev
    by (auto intro!: runs_bind service_runs split: option.split)
  have book: "runs ps (case gf_authorization f of
       None \<Rightarrow> fence_return ()
     | Some a \<Rightarrow> if ge_policy g = None then fence_return ()
         else fence_bind (spend_call (\<lambda>u. settle_spend u (sa_id a) actual ev src))
           (\<lambda>(c, replayed). if overran_quote c \<and> \<not> replayed then fence_event job ''SPEND_QUOTE_OVERRUN'' else fence_return ()))" for f ev src
    by (auto intro!: runs_bind service_runs split: option.split)
  have all: "runs ps (fence_bind (require_fence g job provider model True) (\<lambda>fence. case fence of
        None \<Rightarrow> fence_raise (FenceSpend (SpendRuntimeError ''live generation fence disappeared''))
      | Some f \<Rightarrow> fence_bind
          (case (gf_canary f, actual) of
             (Some u, Some cost) \<Rightarrow> if \<not> ge_permits g then fence_return ()
               else fence_bind (canary_call (\<lambda>w. settle_usage (ge_now g) w (cu_id u) cost ev)) (\<lambda>_. fence_return ())
           | _ \<Rightarrow> fence_return ())
          (\<lambda>_. case gf_authorization f of
             None \<Rightarrow> fence_return ()
           | Some a \<Rightarrow> if ge_policy g = None then fence_return ()
               else fence_bind (spend_call (\<lambda>u. settle_spend u (sa_id a) actual ev src))
                 (\<lambda>(c, replayed). if overran_quote c \<and> \<not> replayed then fence_event job ''SPEND_QUOTE_OVERRUN'' else fence_return ()))))" for ev src
  proof (rule runs_bind [OF runs_require_fence])
    fix fence
    show "runs ps (case fence of
        None \<Rightarrow> fence_raise (FenceSpend (SpendRuntimeError ''live generation fence disappeared''))
      | Some f \<Rightarrow> fence_bind
          (case (gf_canary f, actual) of
             (Some u, Some cost) \<Rightarrow> if \<not> ge_permits g then fence_return ()
               else fence_bind (canary_call (\<lambda>w. settle_usage (ge_now g) w (cu_id u) cost ev)) (\<lambda>_. fence_return ())
           | _ \<Rightarrow> fence_return ())
          (\<lambda>_. case gf_authorization f of
             None \<Rightarrow> fence_return ()
           | Some a \<Rightarrow> if ge_policy g = None then fence_return ()
               else fence_bind (spend_call (\<lambda>u. settle_spend u (sa_id a) actual ev src))
                 (\<lambda>(c, replayed). if overran_quote c \<and> \<not> replayed then fence_event job ''SPEND_QUOTE_OVERRUN'' else fence_return ())))"
    proof (cases fence)
      case (Some f)
      then show ?thesis by (simp only: option.case) (rule runs_bind [OF charge book])
    qed simp
  qed
  show ?thesis
    unfolding runs_def settle_fence_def Let_def using all [unfolded runs_def] by (auto simp: fence_return_def)
qed

lemma runs_settle_targets: "runs ps (settle_targets g js)"
proof (induction js)
  case (Cons j js)
  let ?actual = "if cj_actual_cost j = Some 0 then None else cj_actual_cost j"
  let ?first = "settle_fence g (cj_id j) (cj_provider j) (cj_model j) (cj_provider_job j) ?actual"
  let ?review = "fence_bind (fence_event (cj_id j) ''LIVE_CANARY_SETTLEMENT_REVIEW_REQUIRED'') (\<lambda>_. settle_targets g js)"
  let ?go = "fence_bind (fence_event (cj_id j) ''SPEND_AUTHORIZATION_SETTLED_ON_RECOVERY'') (\<lambda>_.
    fence_bind (settle_targets g js) (\<lambda>n. fence_return (n + 1)))"
  have r: "runs ps ?review" and g: "runs ps ?go" by (intro runs_bind runs_basic Cons.IH)+
  have "fence_run ps t (snd (settle_targets g (j # js) t))" for t
  proof (cases "?first t")
    case (Pair res t')
    have "fence_run ps t t'" using runsD [OF runs_settle_fence, of ps t g "cj_id j" "cj_provider j" "cj_model j" "cj_provider_job j" ?actual]
      by (simp add: Pair)
    with runsD [OF r, of t'] runsD [OF g, of t'] show ?thesis
      by (cases res) (auto simp: Let_def Pair intro: fence_run_trans)
  qed
  then show ?case by (simp add: runs_def)
qed simp

lemma runs_settle_completed: "runs ps (settle_completed g completed)"
  unfolding runs_def settle_completed_def by (auto intro: runsD [OF runs_settle_targets])

section \<open>Taking the fence\<close>

definition fence_fresh :: "fence_env \<Rightarrow> fence_db \<Rightarrow> bool" where
  "fence_fresh g t \<longleftrightarrow> fresh_env (ge_spend_env g) (fd_spend t) \<and> fresh_id (ge_usage_id g) (fd_canary t)"

definition fence_policy :: "spend_policy set \<Rightarrow> fence_env \<Rightarrow> bool" where
  "fence_policy ps g \<longleftrightarrow> (case ge_policy g of None \<Rightarrow> True | Some p \<Rightarrow> p \<in> ps)"

lemma adjust_ids: "adjust_ledgers r c is t = Inr u \<Longrightarrow> ledger_ids u = ledger_ids t"
proof (induction "is" arbitrary: t)
  case (Cons i "is")
  then obtain l where l: "ledger_by_id t i = Some l" by (auto split: option.split_asm)
  let ?t = "put_ledger (l\<lparr>bl_reserved := max 0 (bl_reserved l - r), bl_actual := bl_actual l + c, bl_version := bl_version l + 1\<rparr>) t"
  have "map bl_id (sd_ledgers ?t) = map bl_id (sd_ledgers t)"
    unfolding put_ledger_def by (simp, rule map_update_where) simp
  from arg_cong [OF this, of set] have "ledger_ids ?t = ledger_ids t" by (simp add: ledger_ids_def)
  moreover have "ledger_ids u = ledger_ids ?t" using Cons.IH [of ?t] Cons.prems l by simp
  ultimately show ?case by simp
qed simp

lemma release_pre_boundary_cases:
  assumes "release_pre_boundary t i ev = Inr ((c, r), u)"
  obtains a where "authorization_by_id t i = Some a" "c = a" "u = t" "sa_status a = RELEASED"
    | a t1 where "authorization_by_id t i = Some a" "sa_status a = RESERVED \<or> sa_status a = UNCERTAIN"
        "adjust_ledgers (sa_reserved_cost a) 0 (ledgers_of a) t = Inr t1" "u = put_authorization c t1"
        "c = a\<lparr>sa_reserved_cost := 0, sa_status := RELEASED, sa_evidence := Some (take 500 (py_strip ev)), sa_version := sa_version a + 1\<rparr>"
proof -
  from assms obtain a where a: "authorization_by_id t i = Some a"
    by (auto simp: release_pre_boundary_def Let_def split: if_split_asm option.split_asm)
  show thesis
  proof (cases "sa_status a = RELEASED")
    case True
    then have "c = a" "u = t" using assms a by (auto simp: release_pre_boundary_def Let_def split: if_split_asm)
    with a True that(1) show thesis by blast
  next
    case False
    with assms a that(2) show thesis
      by (auto simp: release_pre_boundary_def Let_def res_simps split: if_split_asm)
  qed
qed

lemma image_update_where:
  "(\<And>r. P r \<Longrightarrow> k (f r) = k r) \<Longrightarrow> k ` set (update_where P f rows) = k ` set rows"
  using map_update_where [of P k f rows] by (metis list.set_map)

lemma release_fresh:
  assumes "release_pre_boundary t i ev = Inr (v, u)" and fresh: "fresh_env env t"
  shows "fresh_env env u"
proof -
  obtain c r where v: "v = (c, r)" by fastforce
  from assms(1) [unfolded v] show ?thesis
  proof (cases rule: release_pre_boundary_cases)
    case (2 a t1)
    have "sa_id ` set (sd_authorizations u) = sa_id ` set (sd_authorizations t1)"
      unfolding 2(4) put_authorization_def by (simp, rule image_update_where) simp
    moreover have "bl_id ` set (sd_ledgers u) = bl_id ` set (sd_ledgers t)"
      using adjust_ids [OF 2(3)] by (simp add: 2(4) put_authorization_def ledger_ids_def)
    ultimately show ?thesis using fresh adjust_rows [OF 2(3)] by (simp add: fresh_env_def)
  qed (use fresh in simp)
qed

lemma usage_release_fresh:
  assumes "release_usage_pre_boundary now t j ev = Inr (v, w)" and "fresh_id i t"
  shows "fresh_id i w"
proof -
  have p: "lp_id ` set (cd_permits (put_permit q t)) = lp_id ` set (cd_permits t)" for q
    unfolding put_permit_def by (simp, rule image_update_where) simp
  have u: "cu_id ` set (cd_usages (put_usage x t)) = cu_id ` set (cd_usages t)" for x t
    unfolding put_usage_def by (simp, rule image_update_where) simp
  have "cd_usages (put_permit q t) = cd_usages t" "cd_permits (put_usage x y) = cd_permits y" for q x y
    by (simp_all add: put_permit_def put_usage_def)
  then have "fresh_id i (put_usage x (put_permit q t)) = fresh_id i t" for x q by (simp only: fresh_id_def p u)
  moreover have "w = t \<or> (\<exists>x q. w = put_usage x (put_permit q t))"
    using assms(1) by (auto simp: release_usage_pre_boundary_def Let_def split: if_split_asm option.split_asm)
  ultimately show ?thesis using assms(2) by auto
qed


lemma spend_call_fresh:
  "(\<And>v u. f (fd_spend t) = Inr (v, u) \<Longrightarrow> fresh_env env u) \<Longrightarrow> fresh_env env (fd_spend t) \<Longrightarrow>
   fresh_env env (fd_spend (snd (spend_call f t))) \<and> fd_canary (snd (spend_call f t)) = fd_canary t"
  by (auto simp: spend_call_def split: sum.split)

lemma canary_call_spend [simp]: "fd_spend (snd (canary_call f t)) = fd_spend t"
  by (simp add: canary_call_def split: sum.split prod.split)

lemma fence_bind_spend:
  "(\<And>x t'. fd_spend (snd (f x t')) = fd_spend t') \<Longrightarrow> fd_spend (snd (fence_bind m f t)) = fd_spend (snd (m t))"
  by (cases "m t") (auto simp: fence_bind_def split: sum.split)

lemma fence_authorization_run:
  assumes fresh: "fence_fresh g t"
  shows "fence_run ps t (snd (fence_authorization g s job proven t)) \<and> fence_fresh g (snd (fence_authorization g s job proven t))"
proof -
  let ?call = "\<lambda>i ev. fence_bind (spend_call (\<lambda>t. release_pre_boundary t i ev)) (\<lambda>(b, _). fence_return (Some b))"
  have "snd (?call i ev t) = snd (spend_call (\<lambda>t. release_pre_boundary t i ev) t)" for i ev
    by (auto simp: fence_bind_def fence_return_def spend_call_def split: sum.split)
  moreover have "fence_run ps t (snd (spend_call (\<lambda>t. release_pre_boundary t i ev) t))" for i ev
    by (rule runsD [OF runs_release_spend])
  moreover have "fence_fresh g (snd (spend_call (\<lambda>t. release_pre_boundary t i ev) t))" for i ev
    using spend_call_fresh [of "\<lambda>t. release_pre_boundary t i ev" t "ge_spend_env g"] fresh release_fresh
    unfolding fence_fresh_def by (simp (no_asm_simp))
  ultimately have call: "fence_run ps t (snd (?call i ev t)) \<and> fence_fresh g (snd (?call i ev t))" for i ev by simp
  show ?thesis
    using fresh call by (auto simp: fence_authorization_def fence_return_def split: option.split)
qed

lemma match_permit_run:
  assumes fresh: "fresh_id (ge_usage_id g) (fd_canary t)"
  shows "fence_run ps t (snd (match_permit g provider m key t)) \<and> fd_spend (snd (match_permit g provider m key t)) = fd_spend t"
  unfolding match_permit_def by (auto intro!: canary_call_run canary_match [OF fresh])

text \<open>A replay that is still uncertain is the row as it was: the state did not change.\<close>

lemma uncertain_replay:
  assumes "reserve_matching i now s t provider m key cost = Inr ((u, r), w)" and "r" and "cu_status u \<noteq> RESERVED"
  shows "w = t \<and> u \<in> set (cd_usages t)"
  using assms(1)
proof (cases rule: reserve_matching_cases)
  case (reopen v)
  then show ?thesis using assms(3) by (auto simp: reopen_usage_def Let_def split: if_split_asm option.split_asm)
next
  case (fresh p estimate)
  then show ?thesis using assms(2) by (auto simp: take_request_def Let_def res_simps)
qed simp

lemma fence_canary_run:
  assumes fresh: "fresh_id (ge_usage_id g) (fd_canary t)"
  shows "fence_run ps t (snd (fence_canary g job provider m proven t)) \<and> fd_spend (snd (fence_canary g job provider m proven t)) = fd_spend t"
proof (cases "ge_permits g")
  case False
  then show ?thesis by (simp add: fence_canary_def Let_def fence_raise_def)
next
  case True
  let ?key = "live_canary_operation_key job"
  let ?ev = "recovered_evidence job"
  define tail where "tail = (\<lambda>(v, again). if again \<and> (cu_status v = UNCERTAIN \<or> cu_status v = SETTLED) then fence_raise ResubmissionForbidden
    else fence_return v :: canary_usage fence_step)"
  have eq: "fence_canary g job provider m proven = fence_bind (match_permit g provider m ?key) (\<lambda>(u, replayed). fence_bind
      (if replayed \<and> cu_status u = UNCERTAIN \<and> proven
       then fence_bind (canary_call (\<lambda>t. release_usage_pre_boundary (ge_now g) t (cu_id u) ?ev)) (\<lambda>_. match_permit g provider m ?key)
       else fence_return (u, replayed)) tail)"
    using True by (simp add: fence_canary_def Let_def tail_def case_prod_unfold)
  have tail: "snd (tail x t') = t'" for x t' by (cases x) (simp add: tail_def fence_raise_def fence_return_def)
  have tail_bind: "snd (fence_bind n tail t') = snd (n t')" for n t'
    by (cases "n t'") (auto simp: fence_bind_def tail split: sum.split)
  define again where "again = (\<lambda>(u :: canary_usage) t1. fence_bind (canary_call (\<lambda>t. release_usage_pre_boundary (ge_now g) t (cu_id u) ?ev))
    (\<lambda>_. match_permit g provider m ?key) t1)"
  have again: "fence_run ps t1 (snd (again u t1)) \<and> fd_spend (snd (again u t1)) = fd_spend t1"
    if f1: "fresh_id (ge_usage_id g) (fd_canary t1)" for u t1
  proof (cases "release_usage_pre_boundary (ge_now g) (fd_canary t1) (cu_id u) ?ev")
    case (Inl e)
    then show ?thesis by (simp add: again_def fence_bind_def canary_call_def)
  next
    case (Inr vw)
    then obtain v w where vw: "release_usage_pre_boundary (ge_now g) (fd_canary t1) (cu_id u) ?ev = Inr (v, w)" by (cases vw) simp
    let ?t2 = "t1\<lparr>fd_canary := w\<rparr>"
    have "fence_run ps t1 ?t2"
      using single_txn [of canary_txn, OF canary_abandon [OF vw]] by (simp add: fence_run_def interleaved.start)
    moreover have "fresh_id (ge_usage_id g) (fd_canary ?t2)" using usage_release_fresh [OF vw f1] by simp
    moreover have "again u t1 = match_permit g provider m ?key ?t2" by (simp add: again_def fence_bind_def canary_call_def vw)
    ultimately show ?thesis using match_permit_run [of g ?t2 ps provider m ?key] by (auto intro: fence_run_trans)
  qed
  obtain r t1 where first: "match_permit g provider m ?key t = (r, t1)" by fastforce
  have run1: "fence_run ps t t1" "fd_spend t1 = fd_spend t" using match_permit_run [OF fresh, of ps provider m ?key] by (simp_all add: first)
  show ?thesis
  proof (cases r)
    case (Inl e)
    with first run1 show ?thesis by (simp add: eq fence_bind_def)
  next
    case (Inr ur)
    obtain u replayed where ur: "ur = (u, replayed)" by fastforce
    have "fence_canary g job provider m proven t = fence_bind
      (if replayed \<and> cu_status u = UNCERTAIN \<and> proven
       then fence_bind (canary_call (\<lambda>t. release_usage_pre_boundary (ge_now g) t (cu_id u) ?ev)) (\<lambda>_. match_permit g provider m ?key)
       else fence_return (u, replayed)) tail t1"
      unfolding eq by (subst fence_bind_def) (simp add: first Inr ur)
    then have whole: "snd (fence_canary g job provider m proven t) = snd
      ((if replayed \<and> cu_status u = UNCERTAIN \<and> proven
       then fence_bind (canary_call (\<lambda>t. release_usage_pre_boundary (ge_now g) t (cu_id u) ?ev)) (\<lambda>_. match_permit g provider m ?key)
       else fence_return (u, replayed)) t1)" by (simp only: tail_bind)
    show ?thesis
    proof (cases "replayed \<and> cu_status u = UNCERTAIN \<and> proven")
      case True
      from first have "reserve_matching (ge_usage_id g) (ge_now g) (fd_canary t) (fd_canary t) provider m ?key None =
          Inr ((u, replayed), fd_canary t1)"
        by (auto simp: match_permit_def canary_call_def Inr ur split: sum.split_asm)
      from uncertain_replay [OF this] True have "fd_canary t1 = fd_canary t" by simp
      with fresh have "fresh_id (ge_usage_id g) (fd_canary t1)" by simp
      from again [OF this, of u] run1 have "fence_run ps t (snd (again u t1)) \<and> fd_spend (snd (again u t1)) = fd_spend t"
        by (auto intro: fence_run_trans)
      moreover have "snd (fence_canary g job provider m proven t) = snd (again u t1)"
        unfolding whole if_P [OF True] again_def ..
      ultimately show ?thesis by simp
    next
      case False
      have "snd (fence_canary g job provider m proven t) = t1"
        unfolding whole if_not_P [OF False] by (simp add: fence_return_def)
      with run1 show ?thesis by simp
    qed
  qed
qed

lemma catch_run: "fence_run ps t (snd (m t)) \<Longrightarrow> runs ps cleanup \<Longrightarrow> fence_run ps t (snd (fence_catch m cleanup t))"
  by (cases "m t") (auto simp: fence_catch_def runs_def intro: fence_run_trans split: sum.split)

lemma cross_boundary_run:
  assumes p: "fence_policy ps g" and fresh: "fresh_env (ge_spend_env g) (fd_spend t)"
  shows "fence_run ps t (snd (cross_boundary g job provider m canary authorization t))"
proof -
  have "runs ps (fence_bind (abandon_canary g canary) (\<lambda>_. abandon_authorization job a))" for a
    unfolding abandon_canary_def abandon_authorization_def
    by (auto intro!: runs_bind runs_try service_runs split: option.split)
  moreover have "runs ps (mark_canary job canary)"
    unfolding mark_canary_def by (auto intro!: runs_bind service_runs split: option.split)
  moreover have "fence_run ps t (snd (prepare_authorization g job provider m canary authorization t))"
  proof (cases authorization)
    case (Some a)
    show ?thesis
    proof (cases "ge_policy g")
      case None
      with Some show ?thesis by (simp add: prepare_authorization_def fence_raise_def)
    next
      case (Some q)
      have "q \<in> ps" using p Some by (simp add: fence_policy_def)
      then have "fence_run ps t (snd (spend_call (\<lambda>t. prepare_boundary q (ge_spend_env g) t i provider m fence ev) t))" for i fence ev
        by (intro spend_call_run txn_boundary [OF _ fresh])
      then show ?thesis using Some \<open>authorization = Some a\<close>
        by (auto simp: prepare_authorization_def fence_return_def intro!: fence_bind_run)
    qed
  qed (simp add: prepare_authorization_def fence_return_def)
  ultimately show ?thesis
    unfolding cross_boundary_def
    by (intro fence_bind_run catch_run) (auto intro!: runsD runs_bind catch_run simp: fence_return_def runs_def intro: fence_bind_run catch_run)
qed

lemma reserve_fence_run:
  assumes p: "fence_policy ps g" and fresh: "fence_fresh g t"
  shows "fence_run ps t (snd (reserve_fence g s job provider m media proven t))"
proof (cases "\<not> ge_live g \<or> is_connection_provider provider")
  case True
  then show ?thesis by (simp add: reserve_fence_def fence_return_def)
next
  case False
  have cross: "fence_run ps t' (snd (fence_bind (cross_boundary g job provider m canary authorization) (\<lambda>fence. fence_return (Some fence)) t'))"
    if "fresh_env (ge_spend_env g) (fd_spend t')" for t' canary authorization
    using cross_boundary_run [OF p that] by (intro fence_bind_run) (simp_all add: fence_return_def)
  show ?thesis
    unfolding reserve_fence_def if_not_P [OF False]
  proof (rule fence_bind_run)
    show "fence_run ps t (snd (fence_authorization g s job proven t))" using fence_authorization_run [OF fresh] by blast
    fix authorization t1 assume "fence_authorization g s job proven t = (Inr authorization, t1)"
    then have f1: "fence_fresh g t1" using fence_authorization_run [OF fresh, of ps s job proven] by simp
    show "fence_run ps t1 (snd ((if case authorization of None \<Rightarrow> False | Some a \<Rightarrow> sa_status a = UNCERTAIN \<or> sa_status a = SETTLED
        then fence_raise ResubmissionForbidden
        else fence_bind (if fence_serviceable g authorization provider m media then fence_return None
            else fence_bind (fence_canary g job provider m proven) (\<lambda>u. fence_return (Some u)))
          (\<lambda>canary. fence_bind (cross_boundary g job provider m canary authorization) (\<lambda>fence. fence_return (Some fence)))) t1))"
    proof (cases "case authorization of None \<Rightarrow> False | Some a \<Rightarrow> sa_status a = UNCERTAIN \<or> sa_status a = SETTLED")
      case True
      then show ?thesis by (simp add: fence_raise_def)
    next
      case free: False
      have take: "fence_run ps t1 (snd ((if fence_serviceable g authorization provider m media then fence_return None
            else fence_bind (fence_canary g job provider m proven) (\<lambda>u. fence_return (Some u))) t1)) \<and>
          fd_spend (snd ((if fence_serviceable g authorization provider m media then fence_return None
            else fence_bind (fence_canary g job provider m proven) (\<lambda>u. fence_return (Some u))) t1)) = fd_spend t1"
        using fence_canary_run [of g t1 ps job provider m proven] f1
        by (auto simp: fence_return_def fence_fresh_def fence_bind_spend intro!: fence_bind_run)
      show ?thesis
        unfolding if_not_P [OF free]
      proof (rule fence_bind_run)
        show "fence_run ps t1 (snd ((if fence_serviceable g authorization provider m media then fence_return None
            else fence_bind (fence_canary g job provider m proven) (\<lambda>u. fence_return (Some u))) t1))" using take by blast
        fix canary t2
        assume "(if fence_serviceable g authorization provider m media then fence_return None
            else fence_bind (fence_canary g job provider m proven) (\<lambda>u. fence_return (Some u))) t1 = (Inr canary, t2)"
        with take f1 have "fresh_env (ge_spend_env g) (fd_spend t2)" by (simp add: fence_fresh_def)
        then show "fence_run ps t2 (snd (fence_bind (cross_boundary g job provider m canary authorization) (\<lambda>fence. fence_return (Some fence)) t2))"
          by (rule cross)
      qed
    qed
  qed
qed

end
