(* ===== verification/Fence_Properties.thy ===== *)
theory Fence_Properties
  imports Fence_Safety Production_Properties Canary_Properties
begin

text \<open>
  The fence's properties, over the executions of the two services that \<open>Fence_Safety\<close> finds in every step
  of the gateway: that a job whose fence was taken is not sent again, that a refused fence leaves no
  hold behind, and the one interleaving in which the fence is taken twice.
\<close>

section \<open>One job at the gateway\<close>

definition demo_job_request :: spend_request where
  "demo_job_request = demo_turn\<lparr>sq_operation_key := ''generation:J1'', sq_job_id := Some ''J1'', sq_quoted_credits := 15\<rparr>"

definition granted_for :: "spend_request \<Rightarrow> spend_db" where
  "granted_for rq = (case authorize_generation demo_limits demo_ids no_spend no_spend rq of Inl _ \<Rightarrow> no_spend | Inr (_, u) \<Rightarrow> u)"

definition demo_gateway :: "bool \<Rightarrow> fence_env" where
  "demo_gateway live_enabled = \<lparr>ge_live = True, ge_policy = Some demo_limits, ge_permits = True,
     ge_runtime_model = Some (\<lambda>_ _ _. Some (True, live_enabled, ''VERIFIED_LIVE'')), ge_spend_env = demo_next_ids,
     ge_usage_id = ''U1'', ge_now = 10\<rparr>"

definition demo_state :: "spend_request \<Rightarrow> fence_db" where
  "demo_state rq = \<lparr>fd_spend = granted_for rq, fd_canary = one_shot, fd_events = []\<rparr>"

definition demo_attempt :: "(fence_error + generation_fence option) \<times> fence_db" where
  "demo_attempt = reserve_fence (demo_gateway True) (granted_for demo_job_request) ''J1'' ''veo'' ''veo-3'' ''video'' False (demo_state demo_job_request)"

lemma granted_run:
  assumes "\<not> isl (authorize_generation demo_limits demo_ids no_spend no_spend rq)"
  shows "interleaved (spend_txn {demo_limits}) no_spend (granted_for rq)" "spend_guarded {demo_limits} (granted_for rq)"
proof -
  from assms obtain v u where "authorize_generation demo_limits demo_ids no_spend no_spend rq = Inr (v, u)"
    by (cases "authorize_generation demo_limits demo_ids no_spend no_spend rq") auto
  then show run: "interleaved (spend_txn {demo_limits}) no_spend (granted_for rq)"
    unfolding granted_for_def by (simp, intro single_txn txn_generation [OF _ demo_fresh(1)]) simp_all
  show "spend_guarded {demo_limits} (granted_for rq)" by (rule spend_execution(2) [OF run demo_guarded(1)])
qed

lemma demo_gateway_ready:
  "fence_policy {demo_limits} (demo_gateway b)" "fence_fresh (demo_gateway b) (demo_state demo_job_request)"
  "spend_guarded {demo_limits} (fd_spend (demo_state demo_job_request))" "canary_inv (fd_canary (demo_state rq))"
proof -
  show "fence_policy {demo_limits} (demo_gateway b)" by (simp add: fence_policy_def demo_gateway_def)
  have "fresh_env demo_next_ids (granted_for demo_job_request)" "fresh_id ''U1'' one_shot" by code_simp+
  then show "fence_fresh (demo_gateway b) (demo_state demo_job_request)" by (simp add: fence_fresh_def demo_gateway_def demo_state_def)
  have "\<not> isl (authorize_generation demo_limits demo_ids no_spend no_spend demo_job_request)" by code_simp
  from granted_run(2) [OF this] show "spend_guarded {demo_limits} (fd_spend (demo_state demo_job_request))" by (simp add: demo_state_def)
  show "canary_inv (fd_canary (demo_state rq))" using one_shot_inv(1) by (simp add: demo_state_def)
qed

lemma demo_attempt_taken:
  obtains f a where "reserve_fence (demo_gateway True) (granted_for demo_job_request) ''J1'' ''veo'' ''veo-3'' ''video'' False (demo_state demo_job_request) =
      (Inr (Some f), snd demo_attempt)" and "gf_canary f = None" and "gf_authorization f = Some a"
proof -
  have "case demo_attempt of (Inr (Some f), t) \<Rightarrow> gf_canary f = None \<and> gf_authorization f \<noteq> None | _ \<Rightarrow> False" by code_simp
  then show thesis using that by (auto simp: demo_attempt_def split: prod.split_asm sum.split_asm option.split_asm)
qed

section \<open>A job is sent once\<close>

lemma fence_bind_Inr:
  "fence_bind m f t = (Inr y, t') \<longleftrightarrow> (\<exists>x t1. m t = (Inr x, t1) \<and> f x t1 = (Inr y, t'))"
  by (cases "m t") (auto simp: fence_bind_def split: sum.split)

lemma spend_call_Inr:
  "spend_call f t = (Inr x, t') \<longleftrightarrow> (\<exists>u. f (fd_spend t) = Inr (x, u) \<and> t' = t\<lparr>fd_spend := u\<rparr>)"
  by (cases "f (fd_spend t)") (auto simp: spend_call_def)

lemma fence_catch_Inr: "fence_catch m c t = (Inr x, t') \<longleftrightarrow> m t = (Inr x, t')"
  by (cases "m t") (auto simp: fence_catch_def split: sum.split)

lemma py_strip_solid: "\<not> py_space c \<Longrightarrow> py_strip (c # s) \<noteq> ''''"
  by (simp add: py_strip_def dropWhile_append)

lemma job_key [simp]: "py_strip (live_canary_operation_key job) \<noteq> ''''"
proof -
  have "\<not> py_space (CHR ''g'')" by code_simp
  then show ?thesis unfolding live_canary_operation_key_def append_Cons by (rule py_strip_solid)
qed

lemma find_operation_key:
  "find_operation t (live_canary_operation_key job) = authorization_for t (py_strip (live_canary_operation_key job))"
  by (simp add: find_operation_def Let_def)

lemma found_row: "find_operation t (live_canary_operation_key job) = Some a \<Longrightarrow>
    a \<in> set (sd_authorizations t) \<and> sa_operation_key a = py_strip (live_canary_operation_key job)"
  unfolding find_operation_key authorization_for_def by (rule row_where_SomeD)

lemma found_again:
  assumes "interleaved (spend_txn ps) t u" and "spend_guarded ps t" and "a \<in> set (sd_authorizations t)"
    and "sa_operation_key a = py_strip (live_canary_operation_key job)"
  obtains b where "find_operation u (live_canary_operation_key job) = Some b" and "row_keeps a b"
proof -
  note after = spend_execution [OF assms(1,2)]
  obtain b where b: "b \<in> set (sd_authorizations u)" "row_keeps a b" using after(3) assms(3) by (auto simp: spend_frame_def)
  then have "sa_operation_key b = py_strip (live_canary_operation_key job)" using assms(4) by (auto simp: row_keeps_def same_grant_def)
  with b after(1) have "find_operation u (live_canary_operation_key job) = Some b"
    unfolding find_operation_key authorization_for_def
    using row_where_key [of sa_operation_key "sd_authorizations u" b] by (simp add: spend_inv_def)
  with b(2) that show thesis by blast
qed

lemma prepared_any:
  assumes "prepare_boundary p env t i provider m fence ev = Inr ((c, r), u)" and inv: "spend_inv t" and fresh: "fresh_env env t"
  shows "c \<in> set (sd_authorizations u) \<and> sa_id c = i \<and> (sa_status c = UNCERTAIN \<or> sa_status c = SETTLED)"
proof (cases r)
  case True
  from assms(1) show ?thesis by (cases rule: prepare_cases) (use True in \<open>auto dest: authorization_byD\<close>)
next
  case False
  with assms show ?thesis using prepared_row [of p env t i provider m fence ev c u] by simp
qed

lemma mark_canary_spend: "mark_canary job canary t = (r, t') \<Longrightarrow> fd_spend t' = fd_spend t"
proof -
  have "fd_spend (snd (mark_canary job canary t)) = fd_spend t"
  proof (cases canary)
    case (Some u)
    then show ?thesis by (simp add: mark_canary_def) (subst fence_bind_spend, auto simp: fence_return_def)
  qed (simp add: mark_canary_def fence_return_def)
  then show "mark_canary job canary t = (r, t') \<Longrightarrow> fd_spend t' = fd_spend t" by simp
qed

text \<open>A fence with an authorization left that authorization uncertain or settled.\<close>

lemma crossed_authorization:
  assumes cross: "cross_boundary g job provider m canary authorization t = (Inr f, t1)" and f: "gf_authorization f = Some c"
    and inv: "spend_inv (fd_spend t)" and fresh: "fresh_env (ge_spend_env g) (fd_spend t)"
  obtains a where "authorization = Some a" and "c \<in> set (sd_authorizations (fd_spend t1))" and "sa_id c = sa_id a"
    and "sa_status c = UNCERTAIN \<or> sa_status c = SETTLED"
proof -
  from cross obtain prepared t2 marked where prep: "prepare_authorization g job provider m canary authorization t = (Inr prepared, t2)"
    and mark: "mark_canary job canary t2 = (Inr marked, t1)" and "f = \<lparr>gf_canary = marked, gf_authorization = prepared\<rparr>"
    unfolding cross_boundary_def fence_bind_Inr fence_catch_Inr by (auto simp: fence_return_def)
  with f have prepared: "prepared = Some c" by simp
  from prep prepared obtain a p where a: "authorization = Some a" "ge_policy g = Some p"
    by (auto simp: prepare_authorization_def fence_return_def fence_raise_def split: option.split_asm)
  with prep prepared obtain r where
    "prepare_boundary p (ge_spend_env g) (fd_spend t) (sa_id a) provider m (if canary \<noteq> None then FENCE_CANARY else FENCE_PRODUCTION)
      (prepared_evidence job) = Inr ((c, r), fd_spend t2)"
    by (auto simp: prepare_authorization_def fence_bind_Inr spend_call_Inr fence_return_def)
  from prepared_any [OF this inv fresh] mark_canary_spend [OF mark] a(1) that show thesis by auto
qed

lemma fence_authorization_row:
  assumes "fence_authorization g s job proven t = (Inr (Some a), t1)"
  obtains a0 where "find_operation s (live_canary_operation_key job) = Some a0" and "sa_id a = sa_id a0"
proof -
  from assms obtain a0 where a0: "find_operation s (live_canary_operation_key job) = Some a0"
    by (auto simp: fence_authorization_def fence_return_def split: option.split_asm)
  have "sa_id c = i" if "release_pre_boundary u i ev = Inr ((c, r), w)" for u i ev c r w
    using that by (cases rule: release_pre_boundary_cases) (auto dest: authorization_byD)
  with assms a0 have "sa_id a = sa_id a0"
    by (auto simp: fence_authorization_def fence_return_def fence_bind_Inr spend_call_Inr split: option.split_asm if_split_asm)
  with a0 that show thesis by blast
qed


text \<open>A fence that was taken on an authorization left that row uncertain or settled, under the job's key.\<close>

lemma fenced_row:
  assumes guarded: "spend_guarded ps s" and seen: "interleaved (spend_txn ps) s (fd_spend t)"
    and policy: "fence_policy ps g" and fresh: "fence_fresh g t"
    and taken: "reserve_fence g s job provider m media proven t = (Inr (Some f), t1)" and f: "gf_authorization f = Some c"
  shows "c \<in> set (sd_authorizations (fd_spend t1)) \<and> sa_operation_key c = py_strip (live_canary_operation_key job) \<and>
    (sa_status c = UNCERTAIN \<or> sa_status c = SETTLED) \<and> spend_guarded ps (fd_spend t1)"
proof -
  from taken obtain authorization t2 canary t3 where
    auth: "fence_authorization g s job proven t = (Inr authorization, t2)"
    and take: "(if fence_serviceable g authorization provider m media then fence_return None
        else fence_bind (fence_canary g job provider m proven) (\<lambda>u. fence_return (Some u))) t2 = (Inr canary, t3)"
    and cross: "cross_boundary g job provider m canary authorization t3 = (Inr f, t1)"
    unfolding reserve_fence_def fence_bind_Inr
    by (auto simp: fence_return_def fence_raise_def fence_bind_Inr split: if_split_asm)
  note run = reserve_fence_run [OF policy fresh, of s job provider m media proven, unfolded taken snd_conv]
  note auth_run = fence_authorization_run [OF fresh, of ps s job proven, unfolded auth snd_conv]
  have spend_run: "interleaved (spend_txn ps) s (fd_spend u)" if "fence_run ps t u" for u
    by (rule interleaved_trans [OF _ seen]) (use that in \<open>simp add: fence_run_def\<close>)
  have "fd_spend t3 = fd_spend t2"
    using take fence_canary_run [of g t2 ps job provider m proven] auth_run
    by (auto simp: fence_return_def fence_fresh_def fence_bind_Inr split: if_split_asm)
  moreover have "fresh_env (ge_spend_env g) (fd_spend t2)" using auth_run by (simp add: fence_fresh_def)
  moreover have "spend_inv (fd_spend t2)" by (rule spend_execution(1) [OF spend_run guarded]) (use auth_run in blast)
  ultimately obtain a where a: "authorization = Some a" and c: "c \<in> set (sd_authorizations (fd_spend t1))" "sa_id c = sa_id a"
    "sa_status c = UNCERTAIN \<or> sa_status c = SETTLED"
    using crossed_authorization [OF cross f] by metis
  obtain a0 where a0: "find_operation s (live_canary_operation_key job) = Some a0" "sa_id a = sa_id a0"
    using fence_authorization_row [OF auth [unfolded a]] by blast
  note end_state = spend_execution [OF spend_run [OF run] guarded]
  obtain b where b: "b \<in> set (sd_authorizations (fd_spend t1))" "row_keeps a0 b"
    using end_state(3) found_row [OF a0(1)] by (auto simp: spend_frame_def)
  then have "sa_id b = sa_id c" "sa_operation_key b = sa_operation_key a0"
    using c(2) a0(2) by (auto simp: row_keeps_def same_grant_def)
  moreover have "b = c" using end_state(1) b(1) c(1) calculation(1) by (auto simp: spend_inv_def dest: distinct_keyD)
  ultimately show ?thesis using c(1,3) found_row [OF a0(1)] end_state(2) by auto
qed

text \<open>
  C29. Once a job's fence was taken on its spend authorization, every later attempt that has no proof
  of a call never made is refused as a forbidden resubmission and changes nothing, whatever ran in
  between and in whatever state the attempt runs; unless its lookup met the authorization released,
  at a later version.
\<close>

theorem fenced_job_is_not_sent_again:
  assumes guarded: "spend_guarded ps s" and seen: "interleaved (spend_txn ps) s (fd_spend t)"
    and policy: "fence_policy ps g" and fresh: "fence_fresh g t"
    and taken: "reserve_fence g s job provider m media proven t = (Inr (Some f), t1)" "gf_authorization f = Some a"
    and later: "interleaved (spend_txn ps) (fd_spend t1) s'"
    and again: "ge_live g'" "\<not> is_connection_provider provider'" "ge_policy g' \<noteq> None"
  shows "\<exists>b. find_operation s' (live_canary_operation_key job) = Some b \<and> sa_id b = sa_id a \<and>
    (sa_status b = RELEASED \<and> sa_version a < sa_version b \<or>
     reserve_fence g' s' job provider' m' media' False t2 = (Inl ResubmissionForbidden, t2))"
proof -
  note row = fenced_row [OF guarded seen policy fresh taken]
  obtain b where b: "find_operation s' (live_canary_operation_key job) = Some b" "row_keeps a b"
    by (rule found_again [OF later]) (use row in blast)+
  have ok: "authorization_ok b"
    using spend_execution(1) [OF later] row found_row [OF b(1)] by (auto simp: spend_inv_def)
  obtain p where p: "ge_policy g' = Some p" using again(3) by blast
  have "fence_authorization g' s' job False t2 = (Inr (Some b), t2)"
    by (simp add: fence_authorization_def p b(1) fence_return_def)
  then have "reserve_fence g' s' job provider' m' media' False t2 = (Inl ResubmissionForbidden, t2)"
    if "sa_status b = UNCERTAIN \<or> sa_status b = SETTLED"
    using again(1,2) that by (simp add: reserve_fence_def fence_bind_def fence_raise_def)
  moreover have "sa_id b = sa_id a" using b(2) by (auto simp: row_keeps_def same_grant_def)
  moreover have "sa_status b = UNCERTAIN \<or> sa_status b = SETTLED \<or> sa_status b = RELEASED \<and> sa_version a < sa_version b"
    using b(2) row ok by (auto simp: row_keeps_def authorization_ok_def)
  ultimately show ?thesis using b(1) by blast
qed


lemma fenced_job_is_not_sent_again_witness:
  "fst (reserve_fence (demo_gateway True) (fd_spend (snd demo_attempt)) ''J1'' ''veo'' ''veo-3'' ''video'' False (snd demo_attempt)) =
     Inl ResubmissionForbidden"
proof -
  obtain f a where taken: "reserve_fence (demo_gateway True) (granted_for demo_job_request) ''J1'' ''veo'' ''veo-3'' ''video'' False (demo_state demo_job_request) =
      (Inr (Some f), snd demo_attempt)" "gf_authorization f = Some a" by (rule demo_attempt_taken)
  have seen: "interleaved (spend_txn {demo_limits}) (granted_for demo_job_request) (fd_spend (demo_state demo_job_request))"
    by (simp add: demo_state_def interleaved.start)
  have mode: "ge_live (demo_gateway True)" "ge_policy (demo_gateway True) \<noteq> None" by (simp_all add: demo_gateway_def)
  have free: "\<not> is_connection_provider ''veo''" by code_simp
  have "case find_operation (fd_spend (snd demo_attempt)) (live_canary_operation_key ''J1'') of Some b \<Rightarrow> sa_status b \<noteq> RELEASED | None \<Rightarrow> True"
    by code_simp
  with fenced_job_is_not_sent_again [OF _ seen demo_gateway_ready(1,2) taken interleaved.start mode(1) free mode(2),
      where m' = "''veo-3''" and media' = "''video''" and ?t2.0 = "snd demo_attempt"] demo_gateway_ready(3)
  show ?thesis by (auto simp: demo_state_def)
qed

section \<open>The fence is taken twice\<close>

lemma prepared_replays:
  assumes "prepare_boundary p env t i provider m fence ev = Inr ((c, r), u)" and inv: "spend_inv t" and fresh: "fresh_env env t"
    and inv': "spend_inv u"
  shows "prepare_boundary p env' u i provider m fence ev = Inr ((c, True), u)"
proof -
  from prepared_any [OF assms(1) inv fresh] have c: "c \<in> set (sd_authorizations u)" "sa_id c = i"
    "sa_status c = UNCERTAIN \<or> sa_status c = SETTLED" by auto
  then have "authorization_by_id u i = Some c"
    unfolding authorization_by_id_def using inv' row_where_key [of sa_id "sd_authorizations u" c] by (simp add: spend_inv_def)
  moreover have "fence \<in> {FENCE_PRODUCTION, FENCE_CANARY} \<and> py_strip ev \<noteq> ''''"
    using assms(1) by (auto simp: prepare_boundary_def Let_def split: if_split_asm)
  moreover have "sa_provider c = provider \<and> sa_model c = m"
    using assms(1) by (cases rule: prepare_cases) (use assms(1) in \<open>auto simp: prepare_boundary_def Let_def split: if_split_asm\<close>)
  ultimately show ?thesis using c(3) by (auto simp: prepare_boundary_def)
qed

text \<open>
  C31. The fence tells two attempts apart by the authorization each looked up first, not by the replay
  that the preparation reports: when two attempts at one job looked it up before either prepared the
  boundary, and no permit is involved, both get the same fence and the second changes nothing.
\<close>

theorem raced_lookup_takes_the_fence_twice:
  assumes guarded: "spend_guarded ps s" and seen: "interleaved (spend_txn ps) s (fd_spend t)"
    and policy: "fence_policy ps g" and fresh: "fence_fresh g t"
    and looked_up: "find_operation s (live_canary_operation_key job) = Some a" "sa_status a = RESERVED"
    and taken: "reserve_fence g s job provider m media False t = (Inr (Some f), t1)" "gf_canary f = None"
  shows "\<exists>c. f = \<lparr>gf_canary = None, gf_authorization = Some c\<rparr> \<and> sa_id c = sa_id a \<and> sa_status c \<noteq> RESERVED \<and>
    reserve_fence g s job provider m media False t1 = (Inr (Some f), t1)"
proof -
  have open_mode: "ge_live g \<and> \<not> is_connection_provider provider"
  proof (rule ccontr)
    assume "\<not> (ge_live g \<and> \<not> is_connection_provider provider)"
    with taken(1) show False by (simp add: reserve_fence_def fence_return_def)
  qed
  obtain p where p: "ge_policy g = Some p"
  proof (cases "ge_policy g")
    case None
    then have "\<not> fence_serviceable g x provider m media" for x by (simp add: fence_serviceable_def)
    then show thesis using taken open_mode
      by (auto simp: reserve_fence_def fence_bind_Inr fence_return_def fence_raise_def cross_boundary_def fence_catch_Inr mark_canary_def
          split: if_split_asm)
  qed blast
  have auth: "fence_authorization g s job False u = (Inr (Some a), u)" for u
    by (simp add: fence_authorization_def p looked_up(1) fence_return_def)
  have fenced: "reserve_fence g s job provider m media False u = fence_bind
      (if fence_serviceable g (Some a) provider m media then fence_return None
       else fence_bind (fence_canary g job provider m False) (\<lambda>u. fence_return (Some u)))
      (\<lambda>canary. fence_bind (cross_boundary g job provider m canary (Some a)) (\<lambda>fence. fence_return (Some fence))) u" for u
  proof -
    have open': "\<not> (\<not> ge_live g \<or> is_connection_provider provider)" using open_mode by simp
    have step: "fence_bind (fence_authorization g s job False) k u = k (Some a) u" for k :: "spend_authorization option \<Rightarrow> generation_fence option fence_step"
      by (simp add: fence_bind_def auth)
    show ?thesis unfolding reserve_fence_def if_not_P [OF open'] step using looked_up(2) by simp
  qed
  have serviceable: "fence_serviceable g (Some a) provider m media"
    using taken(2) taken(1) [unfolded fenced]
    by (auto simp: fence_bind_Inr fence_return_def cross_boundary_def fence_catch_Inr mark_canary_def split: if_split_asm)
  let ?prepare = "\<lambda>u. prepare_boundary p (ge_spend_env g) u (sa_id a) provider m FENCE_PRODUCTION (prepared_evidence job)"
  from taken(1) [unfolded fenced] serviceable obtain c r u where
    first: "?prepare (fd_spend t) = Inr ((c, r), u)" and f: "f = \<lparr>gf_canary = None, gf_authorization = Some c\<rparr>" and t1: "t1 = t\<lparr>fd_spend := u\<rparr>"
    by (auto simp: fence_bind_Inr fence_return_def cross_boundary_def fence_catch_Inr mark_canary_def prepare_authorization_def p spend_call_Inr)
  have inv: "spend_inv (fd_spend t)" by (rule spend_execution(1) [OF seen guarded])
  have fresh': "fresh_env (ge_spend_env g) (fd_spend t)" using fresh by (simp add: fence_fresh_def)
  have "p \<in> ps" using policy p by (simp add: fence_policy_def)
  then have inv1: "spend_inv u" by (intro safe_inv [OF prepare_safe [OF first inv _ fresh'] inv])
  have again: "?prepare u = Inr ((c, True), u)" by (rule prepared_replays [OF first inv fresh' inv1])
  have "prepare_authorization g job provider m None (Some a) t1 = (Inr (Some c), t1)"
    unfolding prepare_authorization_def using again by (simp add: p t1 fence_bind_def spend_call_def fence_return_def)
  then have "reserve_fence g s job provider m media False t1 = (Inr (Some f), t1)"
    unfolding fenced using serviceable
    by (simp add: fence_bind_def fence_return_def cross_boundary_def fence_catch_def mark_canary_def f)
  with prepared_any [OF first inv fresh'] f show ?thesis by auto
qed


lemma raced_lookup_takes_the_fence_twice_witness:
  "\<exists>f. reserve_fence (demo_gateway True) (granted_for demo_job_request) ''J1'' ''veo'' ''veo-3'' ''video'' False (demo_state demo_job_request) =
      (Inr (Some f), snd demo_attempt) \<and>
    reserve_fence (demo_gateway True) (granted_for demo_job_request) ''J1'' ''veo'' ''veo-3'' ''video'' False (snd demo_attempt) =
      (Inr (Some f), snd demo_attempt)"
proof -
  obtain f a where taken: "reserve_fence (demo_gateway True) (granted_for demo_job_request) ''J1'' ''veo'' ''veo-3'' ''video'' False (demo_state demo_job_request) =
      (Inr (Some f), snd demo_attempt)" "gf_canary f = None" by (rule demo_attempt_taken)
  have seen: "interleaved (spend_txn {demo_limits}) (granted_for demo_job_request) (fd_spend (demo_state demo_job_request))"
    by (simp add: demo_state_def interleaved.start)
  have "case find_operation (granted_for demo_job_request) (live_canary_operation_key ''J1'') of Some b \<Rightarrow> sa_status b = RESERVED | None \<Rightarrow> False"
    by code_simp
  then obtain b where "find_operation (granted_for demo_job_request) (live_canary_operation_key ''J1'') = Some b" "sa_status b = RESERVED"
    by (auto split: option.split_asm)
  from raced_lookup_takes_the_fence_twice [OF _ seen demo_gateway_ready(1,2) this taken] demo_gateway_ready(3) taken(1)
  show ?thesis by (auto simp: demo_state_def)
qed

section \<open>A refused fence\<close>

text \<open>How far the permits of a state are from those of another: those of \<open>i\<close> by a hold and a request.\<close>

definition permits_moved :: "canary_db \<Rightarrow> canary_db \<Rightarrow> string \<Rightarrow> int \<Rightarrow> int \<Rightarrow> bool" where
  "permits_moved t w i h r \<longleftrightarrow> (\<forall>q \<in> set (cd_permits w). \<exists>p \<in> set (cd_permits t). lp_id q = lp_id p \<and>
     lp_reserved q = lp_reserved p + (if lp_id p = i then h else 0) \<and>
     lp_used_requests q = lp_used_requests p + (if lp_id p = i then r else 0) \<and> lp_actual q = lp_actual p)"

lemma permits_moved_same [simp]: "permits_moved t t i 0 0"
  by (auto simp: permits_moved_def)

lemma permits_moved_trans:
  "permits_moved t u i h r \<Longrightarrow> permits_moved u w i h' r' \<Longrightarrow> permits_moved t w i (h + h') (r + r')"
  unfolding permits_moved_def by fastforce

lemma shift_permits_moved:
  assumes "canary_shift t before v p q w" and "change usage_cost before v = 0" and inv: "canary_inv t"
  shows "permits_moved t w (cu_permit_id v) (change usage_hold before v) (change usage_request before v)"
  unfolding permits_moved_def
proof
  fix x assume "x \<in> set (cd_permits w)"
  then obtain y where y: "y \<in> set (cd_permits t)" "x = (if lp_id y = lp_id p then q else y)"
    using assms(1) by (auto simp: canary_shift_def update_where_def)
  moreover have "y = p" if "lp_id y = lp_id p" using that y(1) assms(1) inv by (auto simp: canary_shift_def canary_inv_def dest: distinct_keyD)
  ultimately show "\<exists>y \<in> set (cd_permits t). lp_id x = lp_id y \<and>
     lp_reserved x = lp_reserved y + (if lp_id y = cu_permit_id v then change usage_hold before v else 0) \<and>
     lp_used_requests x = lp_used_requests y + (if lp_id y = cu_permit_id v then change usage_request before v else 0) \<and>
     lp_actual x = lp_actual y"
    using assms(1,2) by (intro bexI [of _ y]) (auto simp: canary_shift_def same_permit_def)
qed

text \<open>A reservation that is open leaves a reserved row, and its permit holds at most that row more.\<close>

lemma matched_moves:
  assumes res: "reserve_matching i now s t provider m key cost = Inr ((u, r), w)" and inv: "canary_inv t" and fresh: "fresh_id i t"
    and st: "cu_status u = RESERVED"
  shows "u \<in> set (cd_usages w) \<and> canary_inv w \<and>
    (\<exists>h \<le> cu_estimated u. \<exists>n \<le> 1. permits_moved t w (cu_permit_id u) h n)"
proof -
  have row: "u \<in> set (cd_usages w)" using matched_row [OF res inv fresh] by blast
  moreover have inv_w: "canary_inv w" using reserve_matching_safe [OF res inv fresh] by (simp add: canary_safe_def)
  moreover have est: "0 \<le> cu_estimated u" using usage_inv [OF inv_w row] by (simp add: canary_usage_ok_def)
  moreover have ch: "change usage_hold before u \<le> cu_estimated u \<and> change usage_request before u \<le> 1 \<and> change usage_cost before u = 0"
    if "case before of None \<Rightarrow> True | Some b \<Rightarrow> canary_usage_ok b \<and> cu_actual b = None" for before
    using that est usage_inv [OF inv_w row] st
    by (auto simp: change_def usage_hold_def usage_request_def usage_cost_def canary_usage_ok_def split: option.split_asm)
  from res have "\<exists>h \<le> cu_estimated u. \<exists>n \<le> 1. permits_moved t w (cu_permit_id u) h n"
  proof (cases rule: reserve_matching_cases)
    case (replay v)
    with est show ?thesis by (intro exI [of _ 0] conjI) simp_all
  next
    case (reopen v)
    from reopen_shift [OF reopen(4) inv reopen(1,3)] obtain p q where "canary_shift t (Some v) u p q w" by (metis prod.inject)
    moreover have "canary_usage_ok v \<and> cu_actual v = None" using usage_inv [OF inv reopen(1)] reopen(3) by (auto simp: canary_usage_ok_def)
    ultimately show ?thesis using ch [of "Some v"] shift_permits_moved [OF _ _ inv, of "Some v" u p q w] by auto
  next
    case (fresh p estimate)
    from take_shift [OF fresh(5) inv fresh(1) assms(3) fresh(2-4)] obtain q where "canary_shift t None u p q w" by (metis prod.inject)
    then show ?thesis using ch [of None] shift_permits_moved [OF _ _ inv, of None u p q w] by auto
  qed
  ultimately show ?thesis by blast
qed

lemma release_moves:
  assumes inv: "canary_inv t" and u: "u \<in> set (cd_usages t)" and st: "cu_status u = RESERVED"
  shows "\<exists>v w. release_usage now t (cu_id u) = Inr (v, w) \<and> permits_moved t w (cu_permit_id u) (- cu_estimated u) (- 1)"
proof -
  have row: "canary_usage_by_id t (cu_id u) = Some u"
    unfolding canary_usage_by_id_def by (rule row_where_key) (use inv u in \<open>simp_all add: canary_inv_def\<close>)
  from inv u obtain p where "p \<in> set (cd_permits t)" "lp_id p = cu_permit_id u" by (fastforce simp: canary_inv_def)
  then have p: "permit_by_id t (cu_permit_id u) = Some p"
    unfolding permit_by_id_def using inv row_where_key [of lp_id "cd_permits t" p] by (simp add: canary_inv_def)
  let ?v = "u\<lparr>cu_status := RELEASED, cu_evidence := cu_evidence u\<rparr>"
  let ?w = "put_usage ?v (put_permit (return_request now u p) t)"
  have "release_usage now t (cu_id u) = Inr ((?v, False), ?w)" using row p st by (simp add: release_usage_def Let_def)
  moreover have "change usage_hold (Some u) ?v = - cu_estimated u" "change usage_request (Some u) ?v = - 1" "change usage_cost (Some u) ?v = 0"
    using st by (simp_all add: change_def usage_hold_def usage_request_def usage_cost_def)
  moreover note shift_permits_moved [OF return_shift [OF inv u disjI1 [OF st] p refl moved_to_put] _ inv, of "cu_evidence u" now]
  ultimately show ?thesis by (intro exI conjI) auto
qed

lemma mark_total:
  assumes inv: "canary_inv t" and u: "u \<in> set (cd_usages t)" and st: "cu_status u = RESERVED"
  shows "\<exists>v w. mark_uncertain t (cu_id u) ev = Inr (v, w)"
proof -
  have "canary_usage_by_id t (cu_id u) = Some u"
    unfolding canary_usage_by_id_def by (rule row_where_key) (use inv u in \<open>simp_all add: canary_inv_def\<close>)
  with st show ?thesis by (fastforce simp: mark_uncertain_def Let_def)
qed

lemma matched_status:
  assumes res: "reserve_matching i now t t provider m key cost = Inr ((u, r), w)" and inv: "canary_inv t"
    and "\<not> (r \<and> (cu_status u = UNCERTAIN \<or> cu_status u = SETTLED))"
  shows "cu_status u = RESERVED"
  using res
proof (cases rule: reserve_matching_cases)
  case (replay v)
  with assms(3) usage_inv [OF inv replay(3)] show ?thesis by (auto simp: canary_usage_ok_def)
next
  case (reopen v)
  then show ?thesis by (auto simp: reopen_usage_def Let_def split: if_split_asm option.split_asm)
next
  case (fresh p estimate)
  then show ?thesis by (auto simp: take_request_def Let_def res_simps)
qed

text \<open>Without a proof, the permit's part of the fence refuses and changes nothing, or leaves a reserved row.\<close>

lemma fence_canary_taken:
  assumes inv: "canary_inv (fd_canary t)"
  shows "case fence_canary g job provider m False t of (Inl e, t1) \<Rightarrow> t1 = t
    | (Inr u, t1) \<Rightarrow> cu_status u = RESERVED \<and> (\<exists>r w. t1 = t\<lparr>fd_canary := w\<rparr> \<and>
        reserve_matching (ge_usage_id g) (ge_now g) (fd_canary t) (fd_canary t) provider m (live_canary_operation_key job) None = Inr ((u, r), w))"
proof (cases "ge_permits g")
  case False
  then show ?thesis by (simp add: fence_canary_def Let_def fence_raise_def)
next
  case True
  let ?match = "reserve_matching (ge_usage_id g) (ge_now g) (fd_canary t) (fd_canary t) provider m (live_canary_operation_key job) None"
  show ?thesis
  proof (cases ?match)
    case (Inl e)
    with True show ?thesis by (simp add: fence_canary_def Let_def match_permit_def fence_bind_def canary_call_def)
  next
    case (Inr x)
    then obtain u r w where m: "?match = Inr ((u, r), w)" by (metis prod.collapse)
    have eq: "fence_canary g job provider m False t = (if r \<and> (cu_status u = UNCERTAIN \<or> cu_status u = SETTLED)
        then (Inl ResubmissionForbidden, t\<lparr>fd_canary := w\<rparr>) else (Inr u, t\<lparr>fd_canary := w\<rparr>))"
      using True m by (simp add: fence_canary_def Let_def match_permit_def fence_bind_def canary_call_def fence_return_def fence_raise_def)
    have "w = fd_canary t" if "r" "cu_status u = UNCERTAIN \<or> cu_status u = SETTLED"
      using uncertain_replay [OF m] that by auto
    then show ?thesis unfolding eq using matched_status [OF m inv] m by auto
  qed
qed


lemma crossing_refused:
  assumes cross: "cross_boundary g job provider m canary authorization t = (Inl e, t1)" and inv: "canary_inv (fd_canary t)"
    and canary: "\<And>u. canary = Some u \<Longrightarrow> u \<in> set (cd_usages (fd_canary t)) \<and> cu_status u = RESERVED"
    and authorization: "\<And>a. authorization = Some a \<Longrightarrow> sa_status a \<noteq> UNCERTAIN"
  shows "fd_spend t1 = fd_spend t \<and> (case canary of None \<Rightarrow> fd_canary t1 = fd_canary t
    | Some u \<Rightarrow> permits_moved (fd_canary t) (fd_canary t1) (cu_permit_id u) (- cu_estimated u) (- 1))"
proof (cases "prepare_authorization g job provider m canary authorization t")
  case (Pair r t2)
  show ?thesis
  proof (cases r)
    case (Inl e')
    then have "t2 = t"
      using Pair by (auto simp: prepare_authorization_def fence_return_def fence_raise_def fence_bind_def spend_call_def split: option.split_asm sum.split_asm)
    moreover have "abandon_authorization job authorization t = (Inr (), t)" for t
      using authorization by (auto simp: abandon_authorization_def fence_return_def split: option.split)
    ultimately have t1: "t1 = snd (abandon_canary g canary t)"
      using cross Pair Inl by (auto simp: cross_boundary_def fence_bind_def fence_catch_def split: sum.split_asm prod.split_asm prod.split)
    show ?thesis
    proof (cases canary)
      case None
      then show ?thesis by (simp add: t1 abandon_canary_def fence_return_def)
    next
      case (Some u)
      with release_moves [OF inv, of u "ge_now g"] canary obtain v w where
        "release_usage (ge_now g) (fd_canary t) (cu_id u) = Inr (v, w)" "permits_moved (fd_canary t) w (cu_permit_id u) (- cu_estimated u) (- 1)"
        by blast
      with Some canary show ?thesis by (simp add: t1 abandon_canary_def fence_try_def canary_call_def)
    qed
  next
    case (Inr prepared)
    have "fd_canary t2 = fd_canary t"
      using Pair Inr by (auto simp: prepare_authorization_def fence_return_def fence_raise_def fence_bind_Inr spend_call_Inr split: option.split_asm)
    moreover have "\<exists>x t3. mark_canary job canary t2 = (Inr x, t3)"
    proof (cases canary)
      case (Some u)
      with mark_total [OF inv, of u "prepared_evidence job"] canary calculation show ?thesis
        by (auto simp: mark_canary_def fence_bind_def canary_call_def fence_return_def)
    qed (simp add: mark_canary_def fence_return_def)
    ultimately show ?thesis using cross Pair Inr by (auto simp: cross_boundary_def fence_bind_def fence_catch_def fence_return_def)
  qed
qed

lemma refused_cases:
  assumes refused: "reserve_fence g s job provider m media False t = (Inl e, t1)"
  obtains (at_once) "t1 = t"
    | (no_permit) "fence_canary g job provider m False t = (Inl e, t1)"
    | (crossing) canary authorization t2 where "\<And>a. authorization = Some a \<Longrightarrow> sa_status a \<noteq> UNCERTAIN"
        "cross_boundary g job provider m canary authorization t2 = (Inl e, t1)"
        "canary = None \<and> t2 = t \<or> (\<exists>u. canary = Some u \<and> fence_canary g job provider m False t = (Inr u, t2))"
proof -
  define forbidden where "forbidden x = (case x of None \<Rightarrow> False | Some a \<Rightarrow> sa_status a = UNCERTAIN \<or> sa_status a = SETTLED)"
    for x :: "spend_authorization option"
  define authorization where "authorization = (if ge_policy g = None then None else find_operation s (live_canary_operation_key job))"
  have auth: "fence_authorization g s job False t = (Inr authorization, t)"
    by (simp add: fence_authorization_def fence_return_def authorization_def split: option.split)
  have body: "reserve_fence g s job provider m media False t = (if \<not> ge_live g \<or> is_connection_provider provider then fence_return None t
      else if forbidden authorization then fence_raise ResubmissionForbidden t
      else fence_bind
        (if fence_serviceable g authorization provider m media then fence_return None
         else fence_bind (fence_canary g job provider m False) (\<lambda>u. fence_return (Some u)))
        (\<lambda>canary. fence_bind (cross_boundary g job provider m canary authorization) (\<lambda>fence. fence_return (Some fence))) t)"
    by (simp add: reserve_fence_def fence_bind_def auth forbidden_def)
  have "\<not> (\<not> ge_live g \<or> is_connection_provider provider)"
  proof
    assume "\<not> ge_live g \<or> is_connection_provider provider"
    with refused body show False by (simp add: fence_return_def)
  qed
  note body' = body [unfolded if_not_P [OF this] refused]
  show thesis
  proof (cases "forbidden authorization")
    case True
    with body' have "t1 = t" by (simp add: fence_raise_def)
    then show thesis by (rule at_once)
  next
    case False
    then have free: "sa_status a \<noteq> UNCERTAIN" if "authorization = Some a" for a using that by (auto simp: forbidden_def)
    note body'' = body' [unfolded if_not_P [OF False]]
    show thesis
    proof (cases "fence_serviceable g authorization provider m media")
      case True
      with body'' have "cross_boundary g job provider m None authorization t = (Inl e, t1)"
        by (auto simp: fence_bind_def fence_return_def split: prod.split_asm sum.split_asm)
      from crossing [OF free this] show thesis by simp
    next
      case False
      obtain r t2 where taken: "fence_canary g job provider m False t = (r, t2)" by fastforce
      show thesis
      proof (cases r)
        case (Inl e')
        with body'' False taken no_permit show thesis by (simp add: fence_bind_def fence_return_def)
      next
        case (Inr u)
        with body'' False taken have "cross_boundary g job provider m (Some u) authorization t2 = (Inl e, t1)"
          by (auto simp: fence_bind_def fence_return_def split: prod.split_asm sum.split_asm)
        from crossing [OF free this] taken Inr show thesis by simp
      qed
    qed
  qed
qed

definition no_more :: "canary_db \<Rightarrow> canary_db \<Rightarrow> bool" where
  "no_more t w \<longleftrightarrow> (\<forall>q \<in> set (cd_permits w). \<exists>p \<in> set (cd_permits t). lp_id q = lp_id p \<and> lp_reserved q \<le> lp_reserved p \<and>
     lp_used_requests q \<le> lp_used_requests p \<and> lp_actual q = lp_actual p)"

lemma permits_moved_no_more: "permits_moved t w i h n \<Longrightarrow> h \<le> 0 \<Longrightarrow> n \<le> 0 \<Longrightarrow> no_more t w"
  unfolding permits_moved_def no_more_def by fastforce

lemma no_more_same [simp]: "no_more t t"
  by (auto simp: no_more_def)

text \<open>
  C30. An attempt that is refused, and brings no proof of a call never made, changes no authorization
  and no ledger, and no permit holds more or has used more requests than before: a permit that was
  reserved on the way is given back.
\<close>

theorem refused_fence_holds_nothing:
  assumes inv: "canary_inv (fd_canary t)" and fresh: "fence_fresh g t"
    and refused: "reserve_fence g s job provider m media False t = (Inl e, t1)"
  shows "fd_spend t1 = fd_spend t \<and> (\<forall>q \<in> set (cd_permits (fd_canary t1)). \<exists>p \<in> set (cd_permits (fd_canary t)).
    lp_id q = lp_id p \<and> lp_reserved q \<le> lp_reserved p \<and> lp_used_requests q \<le> lp_used_requests p \<and> lp_actual q = lp_actual p)"
proof -
  note held = fence_canary_taken [OF inv, where g = g and job = job and provider = provider and m = m]
  from refused have "fd_spend t1 = fd_spend t \<and> no_more (fd_canary t) (fd_canary t1)"
  proof (cases rule: refused_cases)
    case no_permit
    with held show ?thesis by simp
  next
    case (crossing canary authorization t2)
    show ?thesis
    proof (cases canary)
      case None
      with crossing crossing_refused [OF crossing(2) _ _ crossing(1)] inv show ?thesis by simp
    next
      case (Some u)
      with crossing(3) held obtain r w where st: "cu_status u = RESERVED" and t2: "t2 = t\<lparr>fd_canary := w\<rparr>"
        and m: "reserve_matching (ge_usage_id g) (ge_now g) (fd_canary t) (fd_canary t) provider m (live_canary_operation_key job) None = Inr ((u, r), w)"
        by auto
      have "fresh_id (ge_usage_id g) (fd_canary t)" using fresh by (simp add: fence_fresh_def)
      from matched_moves [OF m inv this st] obtain h n where u: "u \<in> set (cd_usages w)" "canary_inv w"
        and there: "h \<le> cu_estimated u" "n \<le> 1" "permits_moved (fd_canary t) w (cu_permit_id u) h n" by blast
      from crossing_refused [OF crossing(2) _ _ crossing(1)] u st Some
      have "fd_spend t1 = fd_spend t" and given: "permits_moved w (fd_canary t1) (cu_permit_id u) (- cu_estimated u) (- 1)"
        by (auto simp: t2)
      with permits_moved_no_more [OF permits_moved_trans [OF there(3) given]] there(1,2) show ?thesis by simp
    qed
  qed simp
  then show ?thesis by (simp add: no_more_def)
qed

definition other_request :: spend_request where
  "other_request = demo_job_request\<lparr>sq_model := ''veo-3-fast''\<rparr>"

definition other_attempt :: "(fence_error + generation_fence option) \<times> fence_db" where
  "other_attempt = reserve_fence (demo_gateway False) (granted_for other_request) ''J1'' ''veo'' ''veo-3'' ''video'' False (demo_state other_request)"

lemma refused_fence_holds_nothing_witness:
  "isl (fst other_attempt) \<and> fd_spend (snd other_attempt) = granted_for other_request"
proof -
  have refused: "isl (fst other_attempt)" by code_simp
  then obtain e where e: "fst other_attempt = Inl e" by (auto simp: isl_def)
  have "fresh_env demo_next_ids (granted_for other_request)" "fresh_id ''U1'' one_shot" by code_simp+
  then have "fence_fresh (demo_gateway False) (demo_state other_request)" by (simp add: fence_fresh_def demo_gateway_def demo_state_def)
  moreover have "reserve_fence (demo_gateway False) (granted_for other_request) ''J1'' ''veo'' ''veo-3'' ''video'' False (demo_state other_request) =
      (Inl e, snd other_attempt)" using e by (metis other_attempt_def prod.collapse)
  ultimately have "fd_spend (snd other_attempt) = fd_spend (demo_state other_request)"
    using refused_fence_holds_nothing [OF demo_gateway_ready(4)] by blast
  with refused show ?thesis by (simp add: demo_state_def)
qed

end
