(* ===== verification/Account_Scheduler.thy ===== *)
theory Account_Scheduler
  imports Platform_Domain Python_Float "HOL-Library.Product_Lexorder"
begin

text \<open>
  The capacity of provider accounts and their workers,
  \<^verbatim>\<open>services/generation-gateway/generation_gateway/scheduler.py\<close>. A reservation is three
  conditional updates in one transaction, which is one step on the state; the choice among the accounts
  is read from an earlier state. A reservation that meets another one leaves no trace and is \<open>None\<close>,
  as is one that a locked SQLite file refuses. Times are seconds.
\<close>

section \<open>Tables\<close>

datatype job_status =
    JOB_NEW | JOB_RESERVED | JOB_QUEUED | JOB_SUBMITTED | JOB_RUNNING | JOB_RETRY_WAIT
  | JOB_COMPLETED | JOB_FAILED | JOB_CANCELLED | JOB_NEEDS_USER_ACTION

datatype account_status = ACCOUNT_READY | ACCOUNT_BUSY | ACCOUNT_COOLDOWN | ACCOUNT_DISABLED | ACCOUNT_EXPIRED

datatype worker_status = WORKER_READY | WORKER_BUSY | WORKER_OFFLINE | WORKER_NEEDS_USER_ACTION

datatype submission_state = NOT_SENT | SENT_UNCONFIRMED | CONFIRMED

record gateway_job = generation_job +
  gj_status :: job_status
  gj_submission :: submission_state
  gj_provider_job :: "string option"
  gj_safe_to_retry :: bool
  gj_claim :: "string option"
  gj_claim_expires :: "int option"
  gj_next_retry :: "int option"
  gj_attempts :: int
  gj_max_attempts :: int
  gj_output :: "string option"
  gj_error :: "string option"
  gj_deleted :: bool
  gj_account :: "string option"
  gj_worker :: "string option"
  gj_provider_project :: "string option"
  gj_released_at :: "int option"

record account_row =
  pa_id :: string
  pa_provider :: string
  pa_status :: account_status
  pa_credits :: int
  pa_tier :: string
  pa_image_capacity :: int
  pa_video_capacity :: int
  pa_image_inflight :: int
  pa_video_inflight :: int
  pa_pending :: int
  pa_credential :: "string option"
  pa_worker :: "string option"
  pa_models :: "string list"
  pa_cooldown_until :: "int option"
  pa_last_success :: "int option"
  pa_last_error_at :: "int option"
  pa_last_error :: "string option"
  pa_successes :: int
  pa_errors :: int

record browser_worker =
  bw_id :: string
  bw_provider :: string
  bw_account :: "string option"
  bw_status :: worker_status
  bw_capabilities :: "string list"
  bw_current :: int
  bw_max :: int
  bw_direct_api :: bool

record project_binding =
  bi_project :: string
  bi_provider :: string
  bi_account :: string
  bi_ready :: bool

text \<open>Of a credential the expiry is read. The last fields belong to the gateway.\<close>

datatype credit_call =
    RecordBoundary | RecordConfirmed | RefundGeneration | SettleGeneration | RequireReconciliation | ReconcileGeneration

record gateway_db =
  gd_jobs :: "gateway_job list"
  gd_accounts :: "account_row list"
  gd_workers :: "browser_worker list"
  gd_credentials :: "(string \<times> int option) list"
  gd_bindings :: "project_binding list"
  gd_events :: "(string \<times> string) list"
  gd_credit_calls :: "(string \<times> credit_call) list"
  gd_sent :: "(string \<times> string) list"
  gd_tokens :: "string list"

datatype scheduler_error = SchedulerValueError string | NoAccountAvailable string

section \<open>Choosing an account\<close>

definition tier_rank :: "string \<Rightarrow> int" where
  "tier_rank tier = (case map_of [(''FREE'', 0), (''PRO'', 1), (''ULTIMATE'', 2), (''PAYGATE_TIER_NOT_PAID'', 0),
     (''PAYGATE_TIER_ONE'', 1), (''PAYGATE_TIER_TWO'', 2)] tier of None \<Rightarrow> 0 | Some r \<Rightarrow> r)"

definition model_aliases :: "string \<Rightarrow> string list" where
  "model_aliases model = (case map_of [(''flow-veo-3.1'', [''veo'']), (''veo'', [''flow-veo-3.1''])] model of
     None \<Rightarrow> [] | Some names \<Rightarrow> names)"

definition supports_model :: "account_row \<Rightarrow> string \<Rightarrow> bool" where
  "supports_model a model \<longleftrightarrow> pa_models a = [] \<or> model \<in> set (pa_models a) \<or>
     list_ex (\<lambda>name. name \<in> set (pa_models a)) (model_aliases model)"

definition capacity_of :: "string \<Rightarrow> account_row \<Rightarrow> int" where
  "capacity_of capability a = (if capability = ''image'' then pa_image_capacity a else pa_video_capacity a)"

definition inflight_of :: "string \<Rightarrow> account_row \<Rightarrow> int" where
  "inflight_of capability a = (if capability = ''image'' then pa_image_inflight a else pa_video_inflight a)"

definition in_service :: "account_row \<Rightarrow> bool" where
  "in_service a \<longleftrightarrow> pa_status a = ACCOUNT_READY \<or> pa_status a = ACCOUNT_BUSY"

definition worker_available :: "browser_worker \<Rightarrow> bool" where
  "worker_available w \<longleftrightarrow> (bw_status w = WORKER_READY \<or> bw_status w = WORKER_BUSY) \<and> bw_current w < bw_max w"

definition later :: "int option \<Rightarrow> int \<Rightarrow> bool" where
  "later time now \<longleftrightarrow> (case time of None \<Rightarrow> False | Some x \<Rightarrow> x > now)"

definition present :: "string option \<Rightarrow> string option" where
  "present name = (if name = Some '''' then None else name)"

definition credential_lives :: "gateway_db \<Rightarrow> int \<Rightarrow> account_row \<Rightarrow> bool" where
  "credential_lives t now a \<longleftrightarrow> (case present (pa_credential a) of None \<Rightarrow> True
     | Some c \<Rightarrow> (case map_of (gd_credentials t) c of None \<Rightarrow> True
         | Some expires \<Rightarrow> expires = None \<or> later expires now))"

definition worker_of :: "gateway_db \<Rightarrow> account_row \<Rightarrow> browser_worker option" where
  "worker_of t a = (case present (pa_worker a) of None \<Rightarrow> None
     | Some i \<Rightarrow> row_where (\<lambda>w. bw_id w = i \<and> bw_account w = Some (pa_id a) \<and> worker_available w) (gd_workers t))"

text \<open>A project with a binding, and every project of Google Flow, stays on the accounts it is bound to.\<close>

definition GOOGLE_FLOW :: string where "GOOGLE_FLOW = ''google_flow''"

definition bindings_of :: "gateway_db \<Rightarrow> string \<Rightarrow> string \<Rightarrow> project_binding list" where
  "bindings_of t provider project = filter (\<lambda>b. bi_project b = project \<and> bi_provider b = provider) (gd_bindings t)"

definition bound_to :: "gateway_db \<Rightarrow> string \<Rightarrow> string \<Rightarrow> string \<Rightarrow> bool" where
  "bound_to t provider project account \<longleftrightarrow>
     list_ex (\<lambda>b. bi_account b = account \<and> bi_ready b) (bindings_of t provider project)"

definition within_affinity :: "gateway_db \<Rightarrow> string \<Rightarrow> string option \<Rightarrow> string \<Rightarrow> bool" where
  "within_affinity t provider project account \<longleftrightarrow> (case present project of None \<Rightarrow> True
     | Some p \<Rightarrow> bindings_of t provider p = [] \<and> provider \<noteq> GOOGLE_FLOW \<or> bound_to t provider p account)"

definition account_score :: "string \<Rightarrow> account_row \<Rightarrow> int \<times> rat \<times> int \<times> int \<times> int" where
  "account_score capability a =
     (inflight_of capability a + pa_pending a,
      fl (of_int (pa_errors a) / of_int (max 1 (pa_successes a + pa_errors a))),
      - pa_credits a, - tier_rank (pa_tier a), case pa_last_success a of None \<Rightarrow> 0 | Some x \<Rightarrow> x)"

record account_request =
  ar_provider :: string
  ar_capability :: string
  ar_model :: string
  ar_project :: "string option"
  ar_job :: "(string \<times> string) option"
  ar_account :: "string option"

definition account_eligible :: "int \<Rightarrow> gateway_db \<Rightarrow> account_request \<Rightarrow> account_row \<Rightarrow> bool" where
  "account_eligible now s rq a \<longleftrightarrow>
     pa_provider a = ar_provider rq \<and> in_service a \<and> pa_credits a > 0 \<and>
     (ar_account rq = None \<or> ar_account rq = Some (pa_id a)) \<and>
     within_affinity s (ar_provider rq) (ar_project rq) (pa_id a) \<and>
     \<not> later (pa_cooldown_until a) now \<and> credential_lives s now a \<and> supports_model a (ar_model rq) \<and>
     \<not> (capacity_of (ar_capability rq) a > 0 \<and> inflight_of (ar_capability rq) a \<ge> capacity_of (ar_capability rq) a) \<and>
     (case worker_of s a of None \<Rightarrow> False | Some w \<Rightarrow> ar_capability rq \<in> set (bw_capabilities w))"

definition select_candidates :: "int \<Rightarrow> gateway_db \<Rightarrow> account_request \<Rightarrow> scheduler_error + (string \<times> string) list" where
  "select_candidates now s rq =
     (if ar_capability rq \<noteq> ''image'' \<and> ar_capability rq \<noteq> ''video''
      then Inl (SchedulerValueError ''unsupported generation capability'')
      else let eligible = sort_key (account_score (ar_capability rq)) (filter (account_eligible now s rq) (gd_accounts s)) in
        if eligible = [] then Inl (NoAccountAvailable (ar_provider rq))
        else Inr (map (\<lambda>a. (pa_id a, case worker_of s a of None \<Rightarrow> '''' | Some w \<Rightarrow> bw_id w)) eligible))"

section \<open>Reserving\<close>

text \<open>The conditions are evaluated again by the update; here a credential that is gone refuses.\<close>

definition account_free :: "int \<Rightarrow> gateway_db \<Rightarrow> account_request \<Rightarrow> string \<Rightarrow> account_row \<Rightarrow> bool" where
  "account_free now t rq account_id a \<longleftrightarrow>
     pa_id a = account_id \<and> pa_provider a = ar_provider rq \<and> in_service a \<and> pa_credits a > 0 \<and>
     \<not> later (pa_cooldown_until a) now \<and>
     (capacity_of (ar_capability rq) a \<le> 0 \<or> inflight_of (ar_capability rq) a < capacity_of (ar_capability rq) a) \<and>
     (case pa_credential a of None \<Rightarrow> True
      | Some c \<Rightarrow> (case map_of (gd_credentials t) c of None \<Rightarrow> False | Some expires \<Rightarrow> expires = None \<or> later expires now)) \<and>
     (case present (ar_project rq) of None \<Rightarrow> True
      | Some p \<Rightarrow> bound_to t (ar_provider rq) p account_id \<or>
          ar_provider rq \<noteq> GOOGLE_FLOW \<and> bindings_of t (ar_provider rq) p = [])"

definition take_account :: "string \<Rightarrow> account_row \<Rightarrow> account_row" where
  "take_account capability a =
     (if capability = ''image'' then a\<lparr>pa_pending := pa_pending a + 1, pa_status := ACCOUNT_BUSY, pa_image_inflight := pa_image_inflight a + 1\<rparr>
      else a\<lparr>pa_pending := pa_pending a + 1, pa_status := ACCOUNT_BUSY, pa_video_inflight := pa_video_inflight a + 1\<rparr>)"

definition worker_free :: "account_request \<Rightarrow> string \<Rightarrow> string \<Rightarrow> browser_worker \<Rightarrow> bool" where
  "worker_free rq account_id worker_id w \<longleftrightarrow>
     bw_id w = worker_id \<and> bw_account w = Some account_id \<and> bw_provider w = ar_provider rq \<and> worker_available w"

definition take_worker :: "browser_worker \<Rightarrow> browser_worker" where
  "take_worker w = w\<lparr>bw_current := bw_current w + 1,
     bw_status := (if bw_current w + 1 \<ge> bw_max w then WORKER_BUSY else WORKER_READY)\<rparr>"

definition job_claimed :: "int \<Rightarrow> string \<Rightarrow> string \<Rightarrow> gateway_job \<Rightarrow> bool" where
  "job_claimed now i token j \<longleftrightarrow> job_id j = i \<and> gj_status j = JOB_RESERVED \<and> gj_claim j = Some token \<and>
     later (gj_claim_expires j) now \<and> gj_submission j = NOT_SENT"

definition route_job :: "string \<Rightarrow> string \<Rightarrow> gateway_job \<Rightarrow> gateway_job" where
  "route_job account_id worker_id j = j\<lparr>gj_account := Some account_id, gj_worker := Some worker_id, gj_released_at := None\<rparr>"

definition account_by_id :: "gateway_db \<Rightarrow> string \<Rightarrow> account_row option" where
  "account_by_id t i = row_where (\<lambda>a. pa_id a = i) (gd_accounts t)"

definition worker_by_id :: "gateway_db \<Rightarrow> string \<Rightarrow> browser_worker option" where
  "worker_by_id t i = row_where (\<lambda>w. bw_id w = i) (gd_workers t)"

definition job_by_id :: "gateway_db \<Rightarrow> string \<Rightarrow> gateway_job option" where
  "job_by_id t i = row_where (\<lambda>j. job_id j = i) (gd_jobs t)"

definition try_reserve :: "int \<Rightarrow> gateway_db \<Rightarrow> account_request \<Rightarrow> string \<Rightarrow> string \<Rightarrow> gateway_db option" where
  "try_reserve now t rq account_id worker_id =
     (if affected (account_free now t rq account_id) (gd_accounts t) \<noteq> 1 then None
      else case (account_by_id t account_id, worker_by_id t worker_id) of
        (Some a, Some w) \<Rightarrow>
          if \<not> supports_model a (ar_model rq) \<or> ar_capability rq \<notin> set (bw_capabilities w) then None
          else if affected (worker_free rq account_id worker_id) (gd_workers t) \<noteq> 1 then None
          else
            let t' = t\<lparr>gd_accounts := update_where (account_free now t rq account_id) (take_account (ar_capability rq)) (gd_accounts t),
                  gd_workers := update_where (worker_free rq account_id worker_id) take_worker (gd_workers t)\<rparr>
            in (case ar_job rq of
              None \<Rightarrow> Some t'
            | Some (i, token) \<Rightarrow>
                if affected (job_claimed now i token) (gd_jobs t) \<noteq> 1 then None
                else Some (t'\<lparr>gd_jobs := update_where (job_claimed now i token) (route_job account_id worker_id) (gd_jobs t)\<rparr>))
      | _ \<Rightarrow> None)"

fun reserve_first :: "int \<Rightarrow> gateway_db \<Rightarrow> account_request \<Rightarrow> (string \<times> string) list \<Rightarrow> scheduler_error + (string \<times> string) \<times> gateway_db" where
  "reserve_first now t rq [] = Inl (NoAccountAvailable (ar_provider rq))"
| "reserve_first now t rq ((account_id, worker_id) # rest) =
     (case try_reserve now t rq account_id worker_id of
        Some t' \<Rightarrow> Inr ((account_id, worker_id), t')
      | None \<Rightarrow> reserve_first now t rq rest)"

definition select_account ::
  "int \<Rightarrow> gateway_db \<Rightarrow> gateway_db \<Rightarrow> account_request \<Rightarrow> scheduler_error + (string \<times> string) \<times> gateway_db" where
  "select_account now s t rq = res_bind (select_candidates now s rq) (reserve_first now t rq)"

section \<open>Releasing\<close>

definition give_account :: "string \<Rightarrow> int \<Rightarrow> bool option \<Rightarrow> string option \<Rightarrow> account_row \<Rightarrow> account_row" where
  "give_account capability now success error a =
     (let image = (if capability = ''image'' then max 0 (pa_image_inflight a - 1) else pa_image_inflight a);
          video = (if capability = ''video'' then max 0 (pa_video_inflight a - 1) else pa_video_inflight a);
          pending = max 0 (pa_pending a - 1);
          b = a\<lparr>pa_image_inflight := image, pa_video_inflight := video, pa_pending := pending,
            pa_status := (if in_service a then (if image = 0 \<and> video = 0 \<and> pending = 0 then ACCOUNT_READY else ACCOUNT_BUSY)
              else pa_status a)\<rparr>
      in case success of
           None \<Rightarrow> b
         | Some True \<Rightarrow> b\<lparr>pa_successes := pa_successes b + 1, pa_last_success := Some now\<rparr>
         | Some False \<Rightarrow> b\<lparr>pa_errors := pa_errors b + 1, pa_last_error_at := Some now, pa_last_error := error\<rparr>)"

definition give_worker :: "browser_worker \<Rightarrow> browser_worker" where
  "give_worker w =
     (let current = max 0 (bw_current w - 1)
      in w\<lparr>bw_current := current, bw_status :=
           (if bw_status w = WORKER_NEEDS_USER_ACTION \<or> bw_status w = WORKER_OFFLINE then bw_status w
            else if current \<ge> bw_max w then WORKER_BUSY else WORKER_READY)\<rparr>)"

definition give_back :: "string \<Rightarrow> string \<Rightarrow> string \<Rightarrow> int \<Rightarrow> bool option \<Rightarrow> string option \<Rightarrow> gateway_db \<Rightarrow> gateway_db" where
  "give_back account_id worker_id capability now success error t =
     t\<lparr>gd_accounts := update_where (\<lambda>a. pa_id a = account_id) (give_account capability now success error) (gd_accounts t),
       gd_workers := update_where (\<lambda>w. bw_id w = worker_id \<and> bw_account w = Some account_id) give_worker (gd_workers t)\<rparr>"

definition holds_slot :: "string \<Rightarrow> string \<Rightarrow> string \<Rightarrow> gateway_job \<Rightarrow> bool" where
  "holds_slot i account_id worker_id j \<longleftrightarrow> job_id j = i \<and> gj_account j = Some account_id \<and>
     gj_worker j = Some worker_id \<and> gj_released_at j = None"

definition unroute_job :: "int \<Rightarrow> bool \<Rightarrow> gateway_job \<Rightarrow> gateway_job" where
  "unroute_job now clear_routing j =
     (if clear_routing then j\<lparr>gj_released_at := Some now, gj_account := None, gj_worker := None, gj_provider_project := None\<rparr>
      else j\<lparr>gj_released_at := Some now\<rparr>)"

text \<open>The job is read in \<open>s\<close>; the conditional update on \<open>t\<close> makes one of two releases the owner.\<close>

definition release_job_in_session ::
  "int \<Rightarrow> gateway_db \<Rightarrow> gateway_db \<Rightarrow> string \<Rightarrow> bool option \<Rightarrow> string option \<Rightarrow> bool \<Rightarrow> scheduler_error + bool \<times> gateway_db" where
  "release_job_in_session now s t i success error clear_routing =
     (case job_by_id s i of
        None \<Rightarrow> Inr (False, t)
      | Some j \<Rightarrow>
          if gj_released_at j \<noteq> None \<or> py_falsy (gj_account j) \<or> py_falsy (gj_worker j) then Inr (False, t)
          else if job_generation_type j \<noteq> ''image'' \<and> job_generation_type j \<noteq> ''video''
          then Inl (SchedulerValueError ''unsupported generation capability'')
          else
            let account_id = the (gj_account j); worker_id = the (gj_worker j) in
            if affected (holds_slot i account_id worker_id) (gd_jobs t) \<noteq> 1 then Inr (False, t)
            else Inr (True, give_back account_id worker_id (job_generation_type j) now success error
              (t\<lparr>gd_jobs := update_where (holds_slot i account_id worker_id) (unroute_job now clear_routing) (gd_jobs t)\<rparr>)))"

text \<open>
  A release by the account's name, for a reservation no job owns. Nothing in the repository calls it. It
  writes \<open>inflight - 1\<close> under the condition that this is not negative.
\<close>

definition release_slot ::
  "int \<Rightarrow> gateway_db \<Rightarrow> string \<Rightarrow> string \<Rightarrow> string \<Rightarrow> bool \<Rightarrow> string option \<Rightarrow> scheduler_error + gateway_db" where
  "release_slot now t account_id worker_id capability success error =
     (if capability \<noteq> ''image'' \<and> capability \<noteq> ''video'' then Inl (SchedulerValueError ''unsupported generation capability'')
      else if affected (\<lambda>a. pa_id a = account_id \<and> inflight_of capability a > 0) (gd_accounts t) \<noteq> 1 then Inr t
      else Inr (give_back account_id worker_id capability now (Some success) error t))"

end
