(* ===== verification/Generation_Jobs.thy ===== *)
theory Generation_Jobs
  imports Account_Scheduler
begin

text \<open>
  The life of a generation job, \<^verbatim>\<open>services/generation-gateway/generation_gateway/gateway.py\<close>:
  claims with a lease, the paid boundary, confirmation, polling, completion, cancellation, errors and
  recovery. Every database session of the gateway is a function. It takes the state \<open>s\<close> it read and the
  state \<open>t\<close> its conditional update writes where the code reads first; a session that raises leaves no
  trace. What is asked of the provider between the sessions is not part of the state.
\<close>

section \<open>The environment\<close>

text \<open>
  The credit service of a job is modelled with the ledger; here its answers are an argument: the status
  of the job's entry, whether the entry is still as it was read when the update runs, and for each call
  \<open>None\<close> when it raises, or whether it was applied and no replay.
\<close>

record credit_service =
  cs_entry :: "string \<Rightarrow> string option"
  cs_kept :: "string \<Rightarrow> bool"
  cs_apply :: "gateway_job \<Rightarrow> credit_call \<Rightarrow> bool option"

record gateway_env =
  gx_now :: int
  gx_claim_lease :: int
  gx_poll_interval :: int
  gx_credits :: "credit_service option"

datatype gateway_error =
    GatewayLookupError
  | UnsafeRetry string
  | CreditConflict
  | BoundaryRefused string
  | GatewayRuntimeError string
  | GatewayScheduler scheduler_error

text \<open>
  \<open>gd_events\<close> are the rows of \<^verbatim>\<open>generation_events\<close>. Three fields are history: the credit
  calls that were made, the claims that passed the boundary of a paid call, and the tokens issued.
\<close>

definition log_event :: "string \<Rightarrow> string \<Rightarrow> gateway_db \<Rightarrow> gateway_db" where
  "log_event i event t = t\<lparr>gd_events := gd_events t @ [(i, event)]\<rparr>"

definition update_job :: "(gateway_job \<Rightarrow> bool) \<Rightarrow> (gateway_job \<Rightarrow> gateway_job) \<Rightarrow> gateway_db \<Rightarrow> gateway_db option" where
  "update_job P f t =
     (if affected P (gd_jobs t) = 1 then Some (t\<lparr>gd_jobs := update_where P f (gd_jobs t)\<rparr>) else None)"

definition credit_apply :: "gateway_env \<Rightarrow> string \<Rightarrow> credit_call \<Rightarrow> string option \<Rightarrow> gateway_db \<Rightarrow> gateway_error + gateway_db" where
  "credit_apply env i call event t =
     (case gx_credits env of
        None \<Rightarrow> Inr t
      | Some cs \<Rightarrow> (case job_by_id t i of
          None \<Rightarrow> Inr t
        | Some j \<Rightarrow> (case cs_apply cs j call of
            None \<Rightarrow> Inl CreditConflict
          | Some fresh \<Rightarrow>
              let t' = t\<lparr>gd_credit_calls := gd_credit_calls t @ [(i, call)]\<rparr>
              in Inr (case event of None \<Rightarrow> t' | Some e \<Rightarrow> if fresh then log_event i e t' else t'))))"

definition release_here :: "gateway_env \<Rightarrow> string \<Rightarrow> bool option \<Rightarrow> string option \<Rightarrow> bool \<Rightarrow> gateway_db \<Rightarrow> gateway_error + gateway_db" where
  "release_here env i success error clear_routing t =
     (case release_job_in_session (gx_now env) t t i success error clear_routing of
        Inl e \<Rightarrow> Inl (GatewayScheduler e)
      | Inr (_, t') \<Rightarrow> Inr t')"

section \<open>Statuses and leases\<close>

definition finished :: "gateway_job \<Rightarrow> bool" where
  "finished j \<longleftrightarrow> gj_status j = JOB_COMPLETED \<or> gj_status j = JOB_FAILED \<or> gj_status j = JOB_CANCELLED"

definition has_provider_job :: "gateway_job \<Rightarrow> bool" where
  "has_provider_job j \<longleftrightarrow> \<not> py_falsy (gj_provider_job j)"

definition lease_over :: "gateway_env \<Rightarrow> gateway_job \<Rightarrow> bool" where
  "lease_over env j \<longleftrightarrow> (case gj_claim_expires j of None \<Rightarrow> True | Some e \<Rightarrow> e \<le> gx_now env)"

definition due :: "gateway_env \<Rightarrow> gateway_job \<Rightarrow> bool" where
  "due env j \<longleftrightarrow> (case gj_next_retry j of None \<Rightarrow> True | Some x \<Rightarrow> x \<le> gx_now env)"

definition stale_reservation :: "gateway_env \<Rightarrow> gateway_job \<Rightarrow> bool" where
  "stale_reservation env j \<longleftrightarrow> gj_status j = JOB_RESERVED \<and> lease_over env j"

definition claimed_by :: "string \<Rightarrow> string \<Rightarrow> gateway_job \<Rightarrow> bool" where
  "claimed_by i token j \<longleftrightarrow> job_id j = i \<and> gj_status j = JOB_RESERVED \<and> gj_claim j = Some token"

definition unclaim :: "gateway_job \<Rightarrow> gateway_job" where
  "unclaim j = j\<lparr>gj_claim := None, gj_claim_expires := None\<rparr>"

text \<open>
  A row as \<^verbatim>\<open>create\<close> inserts it: the columns it does not name have their defaults. What else
  \<^verbatim>\<open>create\<close> does, above all reserving the credits, is with the ledger.
\<close>

definition new_job :: "generation_job \<Rightarrow> gateway_job" where
  "new_job facts = generation_job.extend facts
     (gateway_job.fields JOB_NEW NOT_SENT None True None None None 0 3 None None False None None None None)"

definition insert_job :: "generation_job \<Rightarrow> gateway_db \<Rightarrow> gateway_db" where
  "insert_job facts t =
     log_event (job_id facts) ''JOB_CREATED'' (t\<lparr>gd_jobs := gd_jobs t @ [new_job facts]\<rparr>)"

section \<open>Claims\<close>

text \<open>A claim's token and its lease; \<open>None\<close> when another session was first.\<close>

definition claim_job ::
  "gateway_env \<Rightarrow> string \<Rightarrow> string \<Rightarrow> (gateway_job \<Rightarrow> bool) \<Rightarrow> gateway_db \<Rightarrow> string \<Rightarrow> gateway_db option" where
  "claim_job env token event claimable t i =
     (case update_job (\<lambda>j. job_id j = i \<and> claimable j)
         (\<lambda>j. j\<lparr>gj_status := JOB_RESERVED, gj_claim := Some token, gj_claim_expires := Some (gx_now env + gx_claim_lease env)\<rparr>) t of
        None \<Rightarrow> None
      | Some t' \<Rightarrow> Some (log_event i event (t'\<lparr>gd_tokens := token # gd_tokens t'\<rparr>)))"

definition claim_for_submission :: "gateway_env \<Rightarrow> string \<Rightarrow> gateway_db \<Rightarrow> string \<Rightarrow> gateway_db option" where
  "claim_for_submission env token = claim_job env token ''JOB_CLAIMED'' (\<lambda>j.
     (gj_status j = JOB_NEW \<or> gj_status j = JOB_QUEUED \<or> gj_status j = JOB_RETRY_WAIT \<and> due env j \<or> stale_reservation env j) \<and>
     gj_provider_job j = None \<and> gj_submission j = NOT_SENT \<and> gj_safe_to_retry j)"

definition claim_for_polling :: "gateway_env \<Rightarrow> string \<Rightarrow> gateway_db \<Rightarrow> string \<Rightarrow> gateway_db option" where
  "claim_for_polling env token = claim_job env token ''JOB_POLL_CLAIMED'' (\<lambda>j.
     ((gj_status j = JOB_SUBMITTED \<or> gj_status j = JOB_RUNNING) \<and> due env j \<or> gj_status j = JOB_RETRY_WAIT \<and> due env j \<or>
        stale_reservation env j) \<and>
     gj_provider_job j \<noteq> None \<and> gj_submission j = CONFIRMED \<and> gj_output j = None)"

definition claim_for_cancellation :: "gateway_env \<Rightarrow> string \<Rightarrow> gateway_db \<Rightarrow> string \<Rightarrow> gateway_db option" where
  "claim_for_cancellation env token = claim_job env token ''JOB_CANCEL_CLAIMED'' (\<lambda>j.
     (gj_status j \<in> {JOB_SUBMITTED, JOB_RUNNING, JOB_RETRY_WAIT, JOB_NEEDS_USER_ACTION} \<or> stale_reservation env j) \<and>
     gj_provider_job j \<noteq> None \<and> gj_submission j = CONFIRMED \<and> gj_output j = None)"

definition renew_claim :: "gateway_env \<Rightarrow> string \<Rightarrow> gateway_db \<Rightarrow> string \<Rightarrow> gateway_db option" where
  "renew_claim env token t i =
     update_job (\<lambda>j. claimed_by i token j \<and> later (gj_claim_expires j) (gx_now env))
       (\<lambda>j. j\<lparr>gj_claim_expires := Some (gx_now env + gx_claim_lease env)\<rparr>) t"

text \<open>A submitter that vanished after the boundary: the job waits for an operator.\<close>

definition quarantine_claim :: "gateway_env \<Rightarrow> gateway_db \<Rightarrow> string \<Rightarrow> gateway_error + bool \<times> gateway_db" where
  "quarantine_claim env t i =
     (case update_job (\<lambda>j. job_id j = i \<and> gj_status j = JOB_RESERVED \<and>
           (case gj_claim_expires j of None \<Rightarrow> False | Some e \<Rightarrow> e \<le> gx_now env) \<and>
           gj_submission j = SENT_UNCONFIRMED \<and> gj_provider_job j = None)
         (\<lambda>j. unclaim (j\<lparr>gj_status := JOB_NEEDS_USER_ACTION, gj_safe_to_retry := False, gj_error := Some ''SUBMISSION_CLAIM_EXPIRED''\<rparr>)) t of
        None \<Rightarrow> Inr (False, t)
      | Some t' \<Rightarrow> res_bind (credit_apply env i RequireReconciliation None t')
          (\<lambda>u. Inr (True, log_event i ''SUBMISSION_CLAIM_EXPIRED'' u)))"

section \<open>The paid boundary\<close>

text \<open>
  \<open>refuses\<close> is what the checks in front of the update raise: another provider, the live fence, the
  account's project. \<open>still_offered\<close> are the conditions on models, bindings and connections that the
  update carries; when they fail the code raises as well.
\<close>

definition at_boundary :: "gateway_env \<Rightarrow> string \<Rightarrow> string \<Rightarrow> gateway_job \<Rightarrow> bool" where
  "at_boundary env i token j \<longleftrightarrow> claimed_by i token j \<and> later (gj_claim_expires j) (gx_now env) \<and>
     (gj_submission j = NOT_SENT \<or> gj_submission j = SENT_UNCONFIRMED)"

definition send_job :: "gateway_job \<Rightarrow> gateway_job" where
  "send_job j = j\<lparr>gj_submission := SENT_UNCONFIRMED, gj_safe_to_retry := False\<rparr>"

definition begin_asset_upload ::
  "gateway_env \<Rightarrow> (gateway_job \<Rightarrow> gateway_error option) \<Rightarrow> gateway_db \<Rightarrow> string \<Rightarrow> string \<Rightarrow> gateway_error + gateway_db" where
  "begin_asset_upload env refuses t i token =
     (let P = (\<lambda>j. at_boundary env i token j \<and> gj_provider_job j = None) in
      case row_where P (gd_jobs t) of
        None \<Rightarrow> Inl (BoundaryRefused ''ASSET_UPLOAD_CLAIM_LOST'')
      | Some j \<Rightarrow> (case refuses j of
          Some e \<Rightarrow> Inl e
        | None \<Rightarrow> res_bind
            (if gj_submission j = NOT_SENT
             then credit_apply env i RecordBoundary None (t\<lparr>gd_jobs := update_where P send_job (gd_jobs t)\<rparr>) else Inr t)
            (\<lambda>t'. Inr (log_event i ''ASSET_UPLOAD_SUBMISSION_STARTED'' t'))))"

definition begin_provider_submission ::
  "gateway_env \<Rightarrow> (gateway_job \<Rightarrow> gateway_error option) \<Rightarrow> (gateway_job \<Rightarrow> bool) \<Rightarrow> gateway_db \<Rightarrow> string \<Rightarrow> string \<Rightarrow>
   gateway_error + bool \<times> gateway_db" where
  "begin_provider_submission env refuses still_offered t i token =
     (case row_where (at_boundary env i token) (gd_jobs t) of
        None \<Rightarrow> Inr (False, t)
      | Some j \<Rightarrow> (case refuses j of
          Some e \<Rightarrow> Inl e
        | None \<Rightarrow>
            (case update_job (\<lambda>j. at_boundary env i token j \<and> still_offered j) send_job t of
               None \<Rightarrow> Inl (BoundaryRefused ''MODEL_TARGET_CHANGED'')
             | Some t' \<Rightarrow> res_bind (credit_apply env i RecordBoundary None (t'\<lparr>gd_sent := (i, token) # gd_sent t'\<rparr>))
                 (\<lambda>u. Inr (True, log_event i ''REQUEST_SUBMITTED'' u)))))"

text \<open>
  After an account was reserved for the job the submitter writes it into the row, unless its claim is
  gone. The row is read without a lock in \<open>s\<close>; the columns that differ from what was read are written.
\<close>

definition select_row :: "gateway_env \<Rightarrow> gateway_job \<Rightarrow> string \<Rightarrow> string \<Rightarrow> string option \<Rightarrow> gateway_job \<Rightarrow> gateway_job" where
  "select_row env j account_id worker_id project x =
     x\<lparr>gj_account := (if gj_account j = Some account_id then gj_account x else Some account_id),
       gj_worker := (if gj_worker j = Some worker_id then gj_worker x else Some worker_id),
       gj_provider_project := (if gj_provider_project j = project then gj_provider_project x else project),
       gj_claim_expires := Some (gx_now env + gx_claim_lease env), gj_attempts := gj_attempts j + 1\<rparr>"

definition record_account ::
  "gateway_env \<Rightarrow> gateway_db \<Rightarrow> gateway_db \<Rightarrow> string \<Rightarrow> string \<Rightarrow> string \<Rightarrow> string \<Rightarrow> string option \<Rightarrow> bool \<Rightarrow> gateway_db option" where
  "record_account env s t i token account_id worker_id project affinity_lost =
     (case job_by_id s i of
        None \<Rightarrow> None
      | Some j \<Rightarrow>
          if gj_status j \<noteq> JOB_RESERVED \<or> gj_claim j \<noteq> Some token \<or> gj_submission j \<noteq> NOT_SENT \<or> affinity_lost then None
          else Some (log_event i ''WORKER_SELECTED'' (log_event i ''ACCOUNT_SELECTED''
            (t\<lparr>gd_jobs := update_where (\<lambda>x. job_id x = i) (select_row env j account_id worker_id project) (gd_jobs t)\<rparr>))))"

text \<open>
  The provider's answer: its id of the job, whether it answered with the result, and what is left of
  the account's credits. The answer is also taken while the job waits for an operator.
\<close>

record provider_answer =
  pv_job :: string
  pv_synchronous :: bool
  pv_credits :: "int option"

definition within_project :: "string option \<Rightarrow> gateway_job \<Rightarrow> bool" where
  "within_project project j \<longleftrightarrow> project = None \<or> gj_provider_project j = project"

definition set_account_credits :: "string \<Rightarrow> int option \<Rightarrow> gateway_db \<Rightarrow> gateway_db" where
  "set_account_credits account_id left t = (case left of None \<Rightarrow> t
     | Some c \<Rightarrow> t\<lparr>gd_accounts := update_where (\<lambda>a. pa_id a = account_id) (\<lambda>a. a\<lparr>pa_credits := c\<rparr>) (gd_accounts t)\<rparr>)"

definition confirm_submission ::
  "gateway_env \<Rightarrow> gateway_db \<Rightarrow> string \<Rightarrow> string \<Rightarrow> string \<Rightarrow> string \<Rightarrow> string option \<Rightarrow> provider_answer \<Rightarrow> gateway_error + gateway_db" where
  "confirm_submission env t i token account_id worker_id flow_project answer =
     (case update_job (\<lambda>j. job_id j = i \<and> gj_account j = Some account_id \<and> gj_worker j = Some worker_id \<and>
           gj_provider_job j = None \<and> gj_output j = None \<and> gj_submission j = SENT_UNCONFIRMED \<and>
           (claimed_by i token j \<or> gj_status j = JOB_NEEDS_USER_ACTION \<and> gj_claim j = None) \<and> within_project flow_project j)
         (\<lambda>j. unclaim (j\<lparr>gj_provider_job := Some (pv_job answer), gj_submission := CONFIRMED, gj_status := JOB_SUBMITTED,
            gj_safe_to_retry := False,
            gj_next_retry := (if pv_synchronous answer then None else Some (gx_now env + gx_poll_interval env))\<rparr>)) t of
        None \<Rightarrow> (case job_by_id t i of
            None \<Rightarrow> Inl GatewayLookupError
          | Some j \<Rightarrow> Inr (if gj_provider_job j \<noteq> Some (pv_job answer)
              then log_event i ''LATE_PROVIDER_RESPONSE_AFTER_TERMINAL'' t else t))
      | Some t' \<Rightarrow> res_bind (credit_apply env i RecordConfirmed None (set_account_credits account_id (pv_credits answer) t'))
          (\<lambda>u. Inr (log_event i ''PROVIDER_JOB_STARTED'' u)))"

section \<open>Polling and completion\<close>

text \<open>The row a poll may move: its own claim, on the provider's job it asked about.\<close>

definition polled_by :: "string \<Rightarrow> string \<Rightarrow> string \<Rightarrow> (string \<times> string) option \<Rightarrow> gateway_job \<Rightarrow> bool" where
  "polled_by i token provider_job flow j \<longleftrightarrow> claimed_by i token j \<and> gj_provider_job j = Some provider_job \<and>
     gj_submission j = CONFIRMED \<and> gj_output j = None \<and>
     (case flow of None \<Rightarrow> True | Some (account, project) \<Rightarrow>
        job_provider j = GOOGLE_FLOW \<and> gj_account j = Some account \<and> gj_provider_project j = Some project)"

definition cancel_row :: "string option \<Rightarrow> gateway_job \<Rightarrow> gateway_job" where
  "cancel_row error j = unclaim (j\<lparr>gj_status := JOB_CANCELLED, gj_safe_to_retry := False, gj_next_retry := None, gj_error := error\<rparr>)"

definition poll_cancelled ::
  "gateway_env \<Rightarrow> gateway_db \<Rightarrow> string \<Rightarrow> string \<Rightarrow> string \<Rightarrow> (string \<times> string) option \<Rightarrow> gateway_error + bool \<times> gateway_db" where
  "poll_cancelled env t i token provider_job flow =
     (case update_job (polled_by i token provider_job flow) (cancel_row (Some ''PROVIDER_JOB_CANCELLED'')) t of
        None \<Rightarrow> Inr (False, t)
      | Some t' \<Rightarrow> res_bind (credit_apply env i RequireReconciliation None t') (\<lambda>u.
          res_bind (release_here env i None None False u) (\<lambda>v. Inr (True, log_event i ''PROVIDER_JOB_CANCELLED'' v))))"

definition poll_running ::
  "gateway_env \<Rightarrow> gateway_db \<Rightarrow> string \<Rightarrow> string \<Rightarrow> string \<Rightarrow> (string \<times> string) option \<Rightarrow> gateway_db option" where
  "poll_running env t i token provider_job flow =
     update_job (polled_by i token provider_job flow) (\<lambda>j. unclaim (j\<lparr>gj_status := JOB_RUNNING,
       gj_next_retry := Some (gx_now env + gx_poll_interval env)\<rparr>)) t"

definition log_events :: "string \<Rightarrow> string list \<Rightarrow> gateway_db \<Rightarrow> gateway_db" where
  "log_events i events t = t\<lparr>gd_events := gd_events t @ map (\<lambda>e. (i, e)) events\<rparr>"

text \<open>The generation's own result; further images of a batch get candidates of their own and are left out.\<close>

definition finalize_completed ::
  "gateway_env \<Rightarrow> gateway_db \<Rightarrow> string \<Rightarrow> string \<Rightarrow> string \<Rightarrow> (string \<times> string) option \<Rightarrow> string \<Rightarrow> gateway_error + bool \<times> gateway_db" where
  "finalize_completed env t i token provider_job flow asset =
     (case update_job (polled_by i token provider_job flow) (\<lambda>j. unclaim (j\<lparr>gj_status := JOB_COMPLETED, gj_safe_to_retry := False,
           gj_next_retry := None, gj_output := Some asset\<rparr>)) t of
        None \<Rightarrow> Inr (False, t)
      | Some t' \<Rightarrow> res_bind (credit_apply env i SettleGeneration (Some ''CREDIT_SETTLED'') t') (\<lambda>u.
          res_bind (release_here env i (Some True) None False
            (log_events i [''MEDIA_DOWNLOADED'', ''VIDEO_GENERATED'', ''DYNAMIC_QA_STARTED'', ''PROVIDER_JOB_COMPLETED'', ''JOB_COMPLETED''] u))
            (\<lambda>v. Inr (True, v))))"

end
