(* ===== verification/Generation_Recovery.thy ===== *)
theory Generation_Recovery
  imports Generation_Jobs
begin

text \<open>
  How a job ends or resumes other than by completing: retry, cancellation, the handling of errors, the
  operator's findings and the recovery after a restart, of the same file as \<open>Generation_Jobs\<close>.
\<close>

section \<open>The retry policy\<close>

datatype retry_category =
    TRANSIENT_NETWORK | WORKER_DISCONNECT | RATE_LIMIT | CREDENTIAL_EXPIRED | PROVIDER_BUSY | INVALID_REQUEST
  | CONTENT_REJECTED | PERMANENT_ERROR

definition automatic_delay :: "retry_category \<Rightarrow> int option" where
  "automatic_delay category = (case category of TRANSIENT_NETWORK \<Rightarrow> Some 5 | WORKER_DISCONNECT \<Rightarrow> Some 5
     | RATE_LIMIT \<Rightarrow> Some 60 | PROVIDER_BUSY \<Rightarrow> Some 20 | _ \<Rightarrow> None)"

datatype retry_decision = DoNotRetry | RetryAfter int | AskUser

definition decide_retry :: "retry_category \<Rightarrow> int \<Rightarrow> int \<Rightarrow> bool \<Rightarrow> retry_decision" where
  "decide_retry category attempts max_attempts submitted =
     (if submitted then AskUser
      else if category = CREDENTIAL_EXPIRED then AskUser
      else case automatic_delay category of
        None \<Rightarrow> DoNotRetry
      | Some base \<Rightarrow> if attempts \<ge> max_attempts then DoNotRetry
          else RetryAfter (min (base * 2 ^ nat (max 0 (attempts - 1))) 600))"

section \<open>Errors\<close>

record error_report =
  er_category :: retry_category
  er_code :: string
  er_message :: string
  er_submitted :: bool
  er_token :: "string option"
  er_release :: bool
  er_release_error :: "string option"
  er_clear_routing :: bool
  er_force_user_action :: bool
  er_flow :: "(string \<times> string \<times> string) option"

definition release_message :: "error_report \<Rightarrow> string" where
  "release_message r = (if py_falsy (er_release_error r) then er_message r else the (er_release_error r))"

definition flow_identity :: "(string \<times> string \<times> string) option \<Rightarrow> gateway_job \<Rightarrow> bool" where
  "flow_identity flow j \<longleftrightarrow> (case flow of None \<Rightarrow> True | Some (account, project, provider_job) \<Rightarrow>
     job_provider j = GOOGLE_FLOW \<and> gj_account j = Some account \<and> gj_provider_project j = Some project \<and>
     gj_provider_job j = Some provider_job)"

text \<open>The row is still as it was read; a report with a token moves its own claim only.\<close>

definition error_applies :: "error_report \<Rightarrow> gateway_job \<Rightarrow> gateway_job \<Rightarrow> bool" where
  "error_applies r seen j \<longleftrightarrow> job_id j = job_id seen \<and> gj_status j = gj_status seen \<and> gj_submission j = gj_submission seen \<and>
     gj_output j = None \<and> gj_provider_job j = gj_provider_job seen \<and>
     (case er_flow r of None \<Rightarrow> True | Some (account, project, _) \<Rightarrow>
        job_provider j = GOOGLE_FLOW \<and> gj_account j = Some account \<and> gj_provider_project j = Some project) \<and>
     (case er_token r of None \<Rightarrow> gj_claim j = gj_claim seen
      | Some token \<Rightarrow> gj_status j = JOB_RESERVED \<and> gj_claim j = Some token)"

definition close_attempt :: "gateway_env \<Rightarrow> error_report \<Rightarrow> retry_decision \<Rightarrow> bool \<Rightarrow> gateway_job \<Rightarrow> gateway_job" where
  "close_attempt env r decision submitted j =
     unclaim (j\<lparr>gj_status := (if er_force_user_action r \<or> decision = AskUser then JOB_NEEDS_USER_ACTION
          else case decision of RetryAfter _ \<Rightarrow> JOB_RETRY_WAIT | _ \<Rightarrow> JOB_FAILED),
       gj_next_retry := (if er_force_user_action r then None
          else case decision of RetryAfter d \<Rightarrow> Some (gx_now env + d) | _ \<Rightarrow> None),
       gj_error := Some (er_code r), gj_safe_to_retry := \<not> submitted,
       gj_submission := (if submitted then gj_submission j else NOT_SENT)\<rparr>)"

text \<open>A worker that needs a human; a direct API resource keeps serving.\<close>

definition flag_worker :: "string option \<Rightarrow> gateway_db \<Rightarrow> gateway_db" where
  "flag_worker worker t = (case worker of None \<Rightarrow> t
     | Some i \<Rightarrow> t\<lparr>gd_workers := update_where (\<lambda>w. i \<noteq> '''' \<and> bw_id w = i \<and> \<not> bw_direct_api w)
         (\<lambda>w. w\<lparr>bw_status := WORKER_NEEDS_USER_ACTION\<rparr>) (gd_workers t)\<rparr>)"

definition settle_error :: "gateway_env \<Rightarrow> error_report \<Rightarrow> bool \<Rightarrow> gateway_job \<Rightarrow> gateway_db \<Rightarrow> gateway_error + gateway_db" where
  "settle_error env r submitted after t =
     (let i = job_id after in
      if gx_credits env = None then Inr t
      else if submitted \<and> (gj_status after = JOB_FAILED \<or> gj_status after = JOB_NEEDS_USER_ACTION)
      then credit_apply env i RequireReconciliation (Some ''CREDIT_RECONCILIATION_REQUIRED'') t
      else if \<not> submitted \<and> gj_status after = JOB_FAILED
      then res_bind (credit_apply env i RefundGeneration (Some ''CREDIT_REFUNDED'') t) (\<lambda>u.
        Inr (u\<lparr>gd_jobs := update_where (\<lambda>j. job_id j = i) (\<lambda>j. j\<lparr>gj_safe_to_retry := False\<rparr>) (gd_jobs u)\<rparr>))
      else Inr t)"

definition schedule_error ::
  "gateway_env \<Rightarrow> gateway_db \<Rightarrow> gateway_db \<Rightarrow> string \<Rightarrow> error_report \<Rightarrow> gateway_error + bool \<times> gateway_db" where
  "schedule_error env s t i r =
     (case job_by_id s i of
        None \<Rightarrow> Inl GatewayLookupError
      | Some j \<Rightarrow>
          if finished j then Inr (False, t)
          else if (case er_token r of None \<Rightarrow> False | Some token \<Rightarrow> gj_claim j \<noteq> Some token \<or> gj_status j \<noteq> JOB_RESERVED)
          then Inr (False, t)
          else if \<not> flow_identity (er_flow r) j then Inr (False, t)
          else
            let submitted = (er_submitted r \<or> has_provider_job j \<or> gj_submission j \<noteq> NOT_SENT);
                uncertain = (submitted \<and> \<not> has_provider_job j);
                release = (er_release r \<and> \<not> uncertain); clear_routing = (er_clear_routing r \<and> \<not> uncertain);
                decision = decide_retry (er_category r) (gj_attempts j) (gj_max_attempts j) uncertain;
                credit = (case gx_credits env of None \<Rightarrow> None
                  | Some cs \<Rightarrow> if job_workspace_credit_required j then Some (cs_entry cs i, cs_kept cs i) else None)
            in (case credit of
                Some (None, _) \<Rightarrow> Inl CreditConflict
              | _ \<Rightarrow>
                  let kept = (case credit of None \<Rightarrow> True | Some (_, k) \<Rightarrow> k) in
                  (case update_job (\<lambda>x. error_applies r j x \<and> kept) (close_attempt env r decision submitted) t of
                     None \<Rightarrow> (if job_by_id t i = None then Inl GatewayLookupError else Inr (False, t))
                   | Some t1 \<Rightarrow> (case job_by_id t1 i of
                       None \<Rightarrow> Inl GatewayLookupError
                     | Some after \<Rightarrow>
                         res_bind (settle_error env r submitted after
                           (if gj_status after = JOB_NEEDS_USER_ACTION then flag_worker (gj_worker after) t1 else t1)) (\<lambda>t2.
                         res_bind (if release then release_here env i (Some False) (Some (release_message r)) clear_routing
                             (log_event i (er_code r) t2) else Inr (log_event i (er_code r) t2)) (\<lambda>t3. Inr (True, t3)))))))"

text \<open>An unexpected failure of the worker's loop; the job is read once more by the handler.\<close>

definition fail_processing ::
  "gateway_env \<Rightarrow> gateway_db \<Rightarrow> gateway_db \<Rightarrow> gateway_db \<Rightarrow> string \<Rightarrow> string \<Rightarrow> gateway_error + bool \<times> gateway_db" where
  "fail_processing env seen s t i message =
     (case job_by_id seen i of
        None \<Rightarrow> Inl GatewayLookupError
      | Some j \<Rightarrow>
          if finished j \<or> gj_status j = JOB_NEEDS_USER_ACTION then Inr (False, t)
          else schedule_error env s t i \<lparr>er_category = PERMANENT_ERROR, er_code = ''WORKER_PROCESSING_ERROR'',
            er_message = message, er_submitted = (has_provider_job j \<or> gj_submission j = SENT_UNCONFIRMED), er_token = None, er_release = False,
            er_release_error = None, er_clear_routing = False, er_force_user_action = False, er_flow = None\<rparr>)"

section \<open>The user's retry and cancellation\<close>

definition retry_job :: "gateway_env \<Rightarrow> gateway_db \<Rightarrow> gateway_db \<Rightarrow> string \<Rightarrow> gateway_error + gateway_db" where
  "retry_job env s t i =
     (case job_by_id s i of
        None \<Rightarrow> Inl GatewayLookupError
      | Some j \<Rightarrow>
          if gj_deleted j then Inl GatewayLookupError
          else if gj_status j = JOB_COMPLETED then Inr t
          else if finished j then Inl (UnsafeRetry ''terminal generation jobs cannot be reused'')
          else
            let entry = (case gx_credits env of None \<Rightarrow> None | Some cs \<Rightarrow> cs_entry cs i);
                kept = (case gx_credits env of None \<Rightarrow> True | Some cs \<Rightarrow> entry = None \<or> entry = Some RESERVED \<and> cs_kept cs i)
            in
            if entry \<in> {Some REFUNDED, Some SETTLED, Some RECONCILIATION_REQUIRED}
            then Inl (UnsafeRetry ''credit reservation is decided'')
            else if \<not> gj_safe_to_retry j \<or> gj_submission j = SENT_UNCONFIRMED
            then Inl (UnsafeRetry ''provider submission may already have consumed credits'')
            else if has_provider_job j \<or> gj_submission j \<noteq> NOT_SENT
            then Inl (UnsafeRetry ''only a generation that has not reached the provider may be retried'')
            else (case update_job (\<lambda>x. job_id x = i \<and> gj_status x = gj_status j \<and> gj_safe_to_retry x \<and>
                  gj_submission x = NOT_SENT \<and> gj_provider_job x = None \<and> gj_output x = None \<and> kept)
                (\<lambda>x. unclaim (x\<lparr>gj_status := JOB_RETRY_WAIT, gj_next_retry := Some (gx_now env), gj_error := None,
                  gj_submission := NOT_SENT\<rparr>)) t of
              Some t' \<Rightarrow> Inr (log_event i ''JOB_RETRY_REQUESTED'' t')
            | None \<Rightarrow> (case job_by_id t i of
                None \<Rightarrow> Inl GatewayLookupError
              | Some x \<Rightarrow> if gj_status x = JOB_COMPLETED then Inr t
                  else Inl (UnsafeRetry ''generation state changed while retry was being requested''))))"

text \<open>The local part of a cancellation; \<open>True\<close> when the provider has to be asked.\<close>

definition cancel_local :: "gateway_env \<Rightarrow> gateway_db \<Rightarrow> gateway_db \<Rightarrow> string \<Rightarrow> gateway_error + bool \<times> gateway_db" where
  "cancel_local env s t i =
     (let unconfirmed = res_bind (credit_apply env i RequireReconciliation (Some ''CREDIT_RECONCILIATION_REQUIRED'') t)
            (\<lambda>u. Inr (False, u)) in
      case job_by_id s i of
        None \<Rightarrow> Inl GatewayLookupError
      | Some j \<Rightarrow>
          if finished j then Inr (False, t)
          else if has_provider_job j \<and> gj_submission j = CONFIRMED then Inr (True, t)
          else if gj_submission j = SENT_UNCONFIRMED then unconfirmed
          else (case update_job (\<lambda>x. job_id x = i \<and> \<not> finished x \<and> gj_provider_job x = None \<and> gj_submission x = NOT_SENT \<and>
                gj_output x = None)
              (\<lambda>x. unclaim (x\<lparr>gj_status := JOB_CANCELLED, gj_safe_to_retry := False, gj_next_retry := None\<rparr>)) t of
            Some t1 \<Rightarrow> res_bind (credit_apply env i RefundGeneration (Some ''CREDIT_REFUNDED'') t1) (\<lambda>t2.
              res_bind (release_here env i None None True t2) (\<lambda>t3. Inr (False, log_event i ''JOB_CANCELLED'' t3)))
          | None \<Rightarrow> (case job_by_id t i of
              None \<Rightarrow> Inl GatewayLookupError
            | Some x \<Rightarrow>
                if finished x then Inr (False, t)
                else if gj_submission x = SENT_UNCONFIRMED then unconfirmed
                else Inr (has_provider_job x \<and> gj_submission x = CONFIRMED, t))))"

definition restore_cancel_tracking :: "gateway_env \<Rightarrow> gateway_db \<Rightarrow> string \<Rightarrow> string \<Rightarrow> gateway_error + gateway_db" where
  "restore_cancel_tracking env t i token =
     (case update_job (claimed_by i token)
         (\<lambda>j. unclaim (j\<lparr>gj_status := JOB_SUBMITTED, gj_error := Some ''PROVIDER_CANCEL_UNCONFIRMED''\<rparr>)) t of
        None \<Rightarrow> Inr t
      | Some t' \<Rightarrow> res_bind (credit_apply env i RequireReconciliation None t')
          (\<lambda>u. Inr (log_event i ''PROVIDER_CANCEL_UNCONFIRMED'' u)))"

definition cancel_confirmed :: "gateway_env \<Rightarrow> gateway_db \<Rightarrow> string \<Rightarrow> string \<Rightarrow> string \<Rightarrow> gateway_error + bool \<times> gateway_db" where
  "cancel_confirmed env t i token provider_job =
     (case update_job (polled_by i token provider_job None) (cancel_row None) t of
        None \<Rightarrow> Inr (False, t)
      | Some t1 \<Rightarrow> res_bind (credit_apply env i RequireReconciliation (Some ''CREDIT_RECONCILIATION_REQUIRED'') t1) (\<lambda>t2.
          res_bind (release_here env i None None False t2) (\<lambda>t3. Inr (True, log_event i ''JOB_CANCELLED'' t3))))"

section \<open>The operator\<close>

text \<open>
  A late answer of the browser worker: the provider's id in the command that was completed, if there is
  one, is the argument \<open>found\<close>. The job takes it only while it waits for a user.
\<close>

definition reconcile_late ::
  "gateway_env \<Rightarrow> (gateway_job \<Rightarrow> string option) \<Rightarrow> gateway_db \<Rightarrow> gateway_db \<Rightarrow> string \<Rightarrow> gateway_error + gateway_db" where
  "reconcile_late env found s t i =
     (case job_by_id s i of
        None \<Rightarrow> Inl GatewayLookupError
      | Some j \<Rightarrow>
          if \<not> (gj_status j = JOB_NEEDS_USER_ACTION \<and> gj_submission j = SENT_UNCONFIRMED \<and> gj_output j = None) then Inr t
          else (case (if has_provider_job j then gj_provider_job j else found j) of
            None \<Rightarrow> Inr t
          | Some pj \<Rightarrow>
              if pj = '''' then Inr t
              else if job_provider j = GOOGLE_FLOW \<and> (py_falsy (gj_account j) \<or> py_falsy (gj_provider_project j))
              then Inr (log_event i ''FLOW_POLL_IDENTITY_RECONCILIATION_REQUIRED'' (t\<lparr>gd_jobs := update_where (\<lambda>x. job_id x = i)
                (\<lambda>x. x\<lparr>gj_error := Some ''FLOW_POLL_IDENTITY_MISSING''\<rparr>) (gd_jobs t)\<rparr>))
              else (case update_job (\<lambda>x. job_id x = i \<and> gj_status x = JOB_NEEDS_USER_ACTION \<and> gj_submission x = SENT_UNCONFIRMED \<and>
                    gj_output x = None \<and> (gj_provider_job x = None \<or> gj_provider_job x = Some pj) \<and>
                    (job_provider j \<noteq> GOOGLE_FLOW \<or> gj_account x = gj_account j \<and> gj_provider_project x = gj_provider_project j))
                  (\<lambda>x. unclaim (x\<lparr>gj_provider_job := Some pj, gj_submission := CONFIRMED, gj_status := JOB_SUBMITTED,
                    gj_safe_to_retry := False, gj_next_retry := Some (gx_now env + gx_poll_interval env)\<rparr>)) t of
                None \<Rightarrow> (if job_by_id t i = None then Inl GatewayLookupError else Inr t)
              | Some t' \<Rightarrow> res_bind (credit_apply env i RecordConfirmed None t')
                  (\<lambda>u. Inr (log_event i ''ORPHAN_RESPONSE_RECOVERED'' u)))))"

text \<open>An operator's decision on a reservation; both actions leave a job that is not safe to retry.\<close>

definition REFUND_RESERVED :: string where "REFUND_RESERVED = ''REFUND_RESERVED''"
definition SETTLE_RESERVED :: string where "SETTLE_RESERVED = ''SETTLE_RESERVED''"

definition close_refunded :: "gateway_job \<Rightarrow> gateway_job" where
  "close_refunded j = unclaim (j\<lparr>gj_status := (if gj_status j = JOB_NEEDS_USER_ACTION then JOB_FAILED else gj_status j),
     gj_safe_to_retry := False, gj_next_retry := None,
     gj_submission := (if has_provider_job j then gj_submission j else NOT_SENT)\<rparr>)"

definition reconcile_credits :: "gateway_env \<Rightarrow> gateway_db \<Rightarrow> string \<Rightarrow> string \<Rightarrow> gateway_error + gateway_db" where
  "reconcile_credits env t i action =
     (if gx_credits env = None then Inl (GatewayRuntimeError ''workspace credit service is not configured'')
      else if job_by_id t i = None then Inl GatewayLookupError
      else res_bind
        (if action = REFUND_RESERVED then
           (case update_job (\<lambda>j. job_id j = i \<and> gj_status j \<in> {JOB_FAILED, JOB_CANCELLED, JOB_NEEDS_USER_ACTION} \<and>
               gj_claim j = None \<and> gj_output j = None) close_refunded t of
              None \<Rightarrow> Inl CreditConflict
            | Some t' \<Rightarrow> release_here env i (Some False) (Some ''credit reconciliation confirmed provider job was not billable'') True t')
         else if action = SETTLE_RESERVED then
           (case update_job (\<lambda>j. job_id j = i \<and> gj_status j \<in> {JOB_SUBMITTED, JOB_RUNNING, JOB_NEEDS_USER_ACTION, JOB_FAILED,
                 JOB_CANCELLED, JOB_COMPLETED} \<and> gj_submission j \<in> {SENT_UNCONFIRMED, CONFIRMED} \<and> gj_claim j = None)
               (\<lambda>j. j\<lparr>gj_safe_to_retry := False\<rparr>) t of
              None \<Rightarrow> Inl CreditConflict
            | Some t' \<Rightarrow> Inr t')
         else Inr t)
        (\<lambda>u. credit_apply env i ReconcileGeneration (Some ''CREDIT_RECONCILED'') u))"

section \<open>Recovery\<close>

definition recoverable :: "gateway_env \<Rightarrow> gateway_job \<Rightarrow> bool" where
  "recoverable env j \<longleftrightarrow> (gj_status j \<in> {JOB_QUEUED, JOB_SUBMITTED, JOB_RUNNING} \<or> stale_reservation env j) \<and> \<not> gj_deleted j"

definition resume_row :: "gateway_env \<Rightarrow> gateway_job \<Rightarrow> gateway_job" where
  "resume_row env j =
     unclaim (if has_provider_job j
       then j\<lparr>gj_status := JOB_SUBMITTED, gj_submission := CONFIRMED, gj_safe_to_retry := False, gj_next_retry := Some (gx_now env)\<rparr>
       else if gj_submission j = SENT_UNCONFIRMED
       then j\<lparr>gj_status := JOB_NEEDS_USER_ACTION, gj_safe_to_retry := False, gj_next_retry := None\<rparr>
       else j\<lparr>gj_status := JOB_RETRY_WAIT, gj_safe_to_retry := True, gj_next_retry := Some (gx_now env), gj_submission := NOT_SENT\<rparr>)"

definition still_resumable :: "gateway_env \<Rightarrow> gateway_job \<Rightarrow> gateway_job \<Rightarrow> bool" where
  "still_resumable env seen j \<longleftrightarrow> job_id j = job_id seen \<and> gj_status j = gj_status seen \<and> gj_submission j = gj_submission seen \<and>
     gj_provider_job j = gj_provider_job seen \<and> gj_claim j = gj_claim seen \<and> gj_output j = gj_output seen \<and>
     (gj_status seen = JOB_RESERVED \<longrightarrow> lease_over env j)"

text \<open>One row, as it was read at the beginning of the transaction; the second component counts.\<close>

definition resume_job :: "gateway_env \<Rightarrow> gateway_job \<Rightarrow> gateway_db \<Rightarrow> gateway_error + nat \<times> gateway_db" where
  "resume_job env j t =
     (let i = job_id j;
          entry = (case gx_credits env of None \<Rightarrow> None
            | Some cs \<Rightarrow> if job_workspace_credit_required j then Some (cs_entry cs i, cs_kept cs i) else None)
      in if entry \<noteq> None \<and> fst (the entry) = None then Inl CreditConflict
      else if entry \<noteq> None \<and> fst (the entry) = Some REFUNDED then Inr (0, t)
      else if entry \<noteq> None \<and> \<not> has_provider_job j \<and> gj_submission j = NOT_SENT \<and> fst (the entry) \<noteq> Some RESERVED then Inr (0, t)
      else (case update_job (\<lambda>x. still_resumable env j x \<and> (entry = None \<or> snd (the entry))) (resume_row env) t of
          None \<Rightarrow> Inr (0, t)
        | Some t1 \<Rightarrow> res_bind
            (if has_provider_job j then credit_apply env i RecordConfirmed None t1
             else if gj_submission j = SENT_UNCONFIRMED then credit_apply env i RequireReconciliation None t1
             else release_here env i None None True t1)
            (\<lambda>t2. Inr (1, log_event i ''JOB_RESUMED'' t2))))"

fun recover_rows :: "gateway_env \<Rightarrow> gateway_job list \<Rightarrow> gateway_db \<Rightarrow> gateway_error + nat \<times> gateway_db" where
  "recover_rows env [] t = Inr (0, t)"
| "recover_rows env (j # js) t =
     res_bind (resume_job env j t) (\<lambda>(n, u). res_bind (recover_rows env js u) (\<lambda>(k, v). Inr (n + k, v)))"

definition recover_after_restart :: "gateway_env \<Rightarrow> gateway_db \<Rightarrow> gateway_db \<Rightarrow> gateway_error + nat \<times> gateway_db" where
  "recover_after_restart env s t = recover_rows env (filter (recoverable env) (gd_jobs s)) t"

end
