(* ===== verification/Job_Invariant.thy ===== *)
theory Job_Invariant
  imports Generation_Recovery
begin

text \<open>
  The sessions of the gateway as a step relation, and the invariant of the jobs' lives: what is recorded
  of a job once it was sent, and what a session may change of a row. The sessions of any number of
  workers and users interleave; clocks need not agree.
\<close>

section \<open>Steps\<close>

text \<open>
  Tokens are new, ids of jobs are new, the provider's id of a job is not empty, a reservation is asked
  for the kind of generation of its job, and what a submitter records is the account its own reservation
  put into the row, unless that reservation was given back.
\<close>

inductive gateway_txn :: "gateway_db \<Rightarrow> gateway_db \<Rightarrow> gateway_db \<Rightarrow> bool" where
  g_create: "job_id facts \<notin> job_id ` set (gd_jobs t) \<Longrightarrow> gateway_txn s t (insert_job facts t)"
| g_claim: "token \<notin> set (gd_tokens t) \<Longrightarrow> claim_for_submission env token t i = Some u \<Longrightarrow> gateway_txn s t u"
| g_poll_claim: "token \<notin> set (gd_tokens t) \<Longrightarrow> claim_for_polling env token t i = Some u \<Longrightarrow> gateway_txn s t u"
| g_cancel_claim: "token \<notin> set (gd_tokens t) \<Longrightarrow> claim_for_cancellation env token t i = Some u \<Longrightarrow> gateway_txn s t u"
| g_renew: "renew_claim env token t i = Some u \<Longrightarrow> gateway_txn s t u"
| g_quarantine: "quarantine_claim env t i = Inr (v, u) \<Longrightarrow> gateway_txn s t u"
| g_reserve: "(\<And>i token. ar_job rq = Some (i, token) \<Longrightarrow>
      \<forall>j \<in> set (gd_jobs t). job_id j = i \<longrightarrow> job_generation_type j = ar_capability rq) \<Longrightarrow>
    ar_capability rq = ''image'' \<or> ar_capability rq = ''video'' \<Longrightarrow>
    try_reserve now t rq account worker = Some u \<Longrightarrow> gateway_txn s t u"
| g_account: "\<forall>j \<in> set (gd_jobs t). job_id j = i \<longrightarrow>
      gj_account j = Some account \<and> gj_worker j = Some worker \<or> gj_released_at j \<noteq> None \<Longrightarrow>
    record_account env s t i token account worker project lost = Some u \<Longrightarrow> gateway_txn s t u"
| g_upload: "begin_asset_upload env refuses t i token = Inr u \<Longrightarrow> gateway_txn s t u"
| g_send: "begin_provider_submission env refuses offered t i token = Inr (v, u) \<Longrightarrow> gateway_txn s t u"
| g_confirm: "pv_job answer \<noteq> '''' \<Longrightarrow> confirm_submission env t i token account worker project answer = Inr u \<Longrightarrow>
    gateway_txn s t u"
| g_running: "poll_running env t i token pj flow = Some u \<Longrightarrow> gateway_txn s t u"
| g_cancelled: "poll_cancelled env t i token pj flow = Inr (v, u) \<Longrightarrow> gateway_txn s t u"
| g_complete: "finalize_completed env t i token pj flow asset = Inr (v, u) \<Longrightarrow> gateway_txn s t u"
| g_error: "schedule_error env s t i r = Inr (v, u) \<Longrightarrow> gateway_txn s t u"
| g_fail: "fail_processing env seen s t i message = Inr (v, u) \<Longrightarrow> gateway_txn s t u"
| g_retry: "retry_job env s t i = Inr u \<Longrightarrow> gateway_txn s t u"
| g_cancel: "cancel_local env s t i = Inr (v, u) \<Longrightarrow> gateway_txn s t u"
| g_restore: "restore_cancel_tracking env t i token = Inr u \<Longrightarrow> gateway_txn s t u"
| g_cancel_done: "cancel_confirmed env t i token pj = Inr (v, u) \<Longrightarrow> gateway_txn s t u"
| g_late: "reconcile_late env found s t i = Inr u \<Longrightarrow> gateway_txn s t u"
| g_credits: "reconcile_credits env t i action = Inr u \<Longrightarrow> gateway_txn s t u"
| g_recover: "recover_after_restart env s t = Inr (v, u) \<Longrightarrow> gateway_txn s t u"
| g_release: "release_job_in_session now s t i success error clear_routing = Inr (v, u) \<Longrightarrow> gateway_txn s t u"

section \<open>The invariant of a row\<close>

definition job_ids :: "gateway_db \<Rightarrow> string set" where
  "job_ids t = job_id ` set (gd_jobs t)"

text \<open>The tokens under which a job was sent.\<close>

definition sent_by :: "gateway_db \<Rightarrow> string \<Rightarrow> string set" where
  "sent_by t i = {token. (i, token) \<in> set (gd_sent t)}"

definition row_ok :: "gateway_job \<Rightarrow> bool" where
  "row_ok j \<longleftrightarrow> (gj_submission j = CONFIRMED \<longleftrightarrow> gj_provider_job j \<noteq> None) \<and> gj_provider_job j \<noteq> Some '''' \<and>
     (gj_status j = JOB_COMPLETED \<longleftrightarrow> gj_output j \<noteq> None)"

text \<open>What was sent stays marked, under the claim that sent it; money follows the end of the job.\<close>

definition history_ok :: "gateway_db \<Rightarrow> gateway_job \<Rightarrow> bool" where
  "history_ok t j \<longleftrightarrow>
     (\<forall>token \<in> sent_by t (job_id j). (finished j \<or> gj_submission j \<noteq> NOT_SENT) \<and>
        (gj_submission j = SENT_UNCONFIRMED \<and> gj_status j = JOB_RESERVED \<longrightarrow> gj_claim j = Some token)) \<and>
     (gj_claim j = None \<or> the (gj_claim j) \<in> set (gd_tokens t)) \<and>
     ((job_id j, RefundGeneration) \<in> set (gd_credit_calls t) \<longrightarrow>
        (gj_status j = JOB_FAILED \<or> gj_status j = JOB_CANCELLED) \<and> sent_by t (job_id j) = {}) \<and>
     ((job_id j, SettleGeneration) \<in> set (gd_credit_calls t) \<longrightarrow> gj_status j = JOB_COMPLETED)"

definition life_inv :: "gateway_db \<Rightarrow> bool" where
  "life_inv t \<longleftrightarrow> distinct (map job_id (gd_jobs t)) \<and> fst ` set (gd_sent t) \<subseteq> job_ids t \<and>
     fst ` set (gd_credit_calls t) \<subseteq> job_ids t \<and>
     (\<forall>i. \<forall>a \<in> sent_by t i. \<forall>b \<in> sent_by t i. a = b) \<and>
     (\<forall>j \<in> set (gd_jobs t). row_ok j \<and> history_ok t j)"

section \<open>What a session keeps\<close>

definition row_keeps_life :: "gateway_job \<Rightarrow> gateway_job \<Rightarrow> bool" where
  "row_keeps_life j k \<longleftrightarrow> generation_job.truncate k = generation_job.truncate j \<and>
     (finished j \<longrightarrow> gj_status k = gj_status j \<and> gj_output k = gj_output j) \<and>
     (gj_provider_job j \<noteq> None \<longrightarrow> gj_provider_job k = gj_provider_job j) \<and>
     (gj_submission j \<noteq> NOT_SENT \<longrightarrow> gj_submission k \<noteq> NOT_SENT \<or> finished k)"

definition life_frame :: "gateway_db \<Rightarrow> gateway_db \<Rightarrow> bool" where
  "life_frame t u \<longleftrightarrow> (\<forall>j \<in> set (gd_jobs t). \<exists>k \<in> set (gd_jobs u). row_keeps_life j k) \<and>
     prefix (gd_events t) (gd_events u) \<and> prefix (gd_credit_calls t) (gd_credit_calls u) \<and>
     set (gd_sent t) \<subseteq> set (gd_sent u) \<and> set (gd_tokens t) \<subseteq> set (gd_tokens u)"

lemma finished_keeps: "row_keeps_life j k \<Longrightarrow> finished j \<Longrightarrow> finished k"
  unfolding row_keeps_life_def finished_def by metis

lemma row_keeps_life_refl [simp]: "row_keeps_life j j"
  by (simp add: row_keeps_life_def)

lemma row_keeps_life_trans:
  assumes jk: "row_keeps_life j k" and kl: "row_keeps_life k l"
  shows "row_keeps_life j l"
proof -
  note jk' = jk [unfolded row_keeps_life_def] and kl' = kl [unfolded row_keeps_life_def]
  have fin: "finished j \<Longrightarrow> finished k" "finished k \<Longrightarrow> finished l"
    using finished_keeps [OF jk] finished_keeps [OF kl] by blast+
  have "generation_job.truncate l = generation_job.truncate j" using jk' kl' by simp
  moreover have "gj_status l = gj_status j \<and> gj_output l = gj_output j" if "finished j" using that fin(1) jk' kl' by simp
  moreover have "gj_provider_job l = gj_provider_job j" if "gj_provider_job j \<noteq> None"
  proof -
    have "gj_provider_job k = gj_provider_job j" using that jk' by blast
    with that kl' show ?thesis by simp
  qed
  moreover have "gj_submission l \<noteq> NOT_SENT \<or> finished l" if "gj_submission j \<noteq> NOT_SENT" using that fin jk' kl' by blast
  ultimately show ?thesis unfolding row_keeps_life_def by blast
qed

lemma life_frame_refl: "life_frame t t"
  by (auto simp: life_frame_def intro: row_keeps_life_refl)

lemma life_frame_same:
  assumes "set (gd_jobs t) \<subseteq> set (gd_jobs u)" and "prefix (gd_events t) (gd_events u)"
    and "prefix (gd_credit_calls t) (gd_credit_calls u)" and "set (gd_sent t) \<subseteq> set (gd_sent u)"
    and "set (gd_tokens t) \<subseteq> set (gd_tokens u)"
  shows "life_frame t u"
proof -
  have "\<exists>k \<in> set (gd_jobs u). row_keeps_life j k" if "j \<in> set (gd_jobs t)" for j
    using that assms(1) by (intro bexI [where x = j]) auto
  with assms show ?thesis by (simp add: life_frame_def)
qed

lemma life_frame_trans:
  assumes st: "life_frame s t" and tu: "life_frame t u"
  shows "life_frame s u"
proof -
  have "\<exists>l \<in> set (gd_jobs u). row_keeps_life j l" if "j \<in> set (gd_jobs s)" for j
  proof -
    from st that obtain k where k: "k \<in> set (gd_jobs t)" "row_keeps_life j k" by (auto simp: life_frame_def)
    from tu k(1) obtain l where "l \<in> set (gd_jobs u)" "row_keeps_life k l" by (auto simp: life_frame_def)
    with k(2) show ?thesis by (blast intro: row_keeps_life_trans)
  qed
  with st tu show ?thesis unfolding life_frame_def by (blast intro: prefix_order.trans)
qed

text \<open>A session is safe when it keeps the frame and, where the invariant held, the invariant.\<close>

definition life_safe :: "gateway_db \<Rightarrow> gateway_db \<Rightarrow> bool" where
  "life_safe t u \<longleftrightarrow> life_inv u \<and> life_frame t u"

lemma life_safe_refl: "life_inv t \<Longrightarrow> life_safe t t"
  by (simp add: life_safe_def life_frame_refl)

lemma life_safe_trans: "life_safe t u \<Longrightarrow> (life_inv u \<Longrightarrow> life_safe u v) \<Longrightarrow> life_safe t v"
  unfolding life_safe_def by (blast intro: life_frame_trans)

section \<open>Parts of sessions\<close>

text \<open>Some columns say nothing about the life of a job.\<close>

definition life :: "gateway_job \<Rightarrow> gateway_job" where
  "life j = j\<lparr>gj_claim_expires := None, gj_next_retry := None, gj_attempts := 0, gj_error := None, gj_account := None,
     gj_worker := None, gj_provider_project := None, gj_released_at := None, gj_safe_to_retry := False\<rparr>"

lemma life_columns [simp]:
  "job_id (life j) = job_id j" "generation_job.truncate (life j) = generation_job.truncate j" "gj_status (life j) = gj_status j"
  "gj_submission (life j) = gj_submission j" "gj_provider_job (life j) = gj_provider_job j" "gj_claim (life j) = gj_claim j"
  "gj_output (life j) = gj_output j" "finished (life j) = finished j"
  by (simp_all add: life_def generation_job.defs finished_def)

lemma row_of_life [simp]: "row_ok (life j) = row_ok j" "history_ok t (life j) = history_ok t j"
  "row_keeps_life (life j) k = row_keeps_life j k" "row_keeps_life j (life k) = row_keeps_life j k"
  by (simp_all add: row_ok_def history_ok_def row_keeps_life_def)

lemma life_row:
  assumes "life k = life j"
  shows "row_keeps_life j k" and "job_id k = job_id j" and "row_ok k = row_ok j" and "history_ok t k = history_ok t j"
proof -
  have "row_keeps_life j (life k)" unfolding assms by simp
  then show "row_keeps_life j k" by simp
  show "job_id k = job_id j" using arg_cong [OF assms, of job_id] by simp
  show "row_ok k = row_ok j" using arg_cong [OF assms, of row_ok] by simp
  show "history_ok t k = history_ok t j" using arg_cong [OF assms, of "history_ok t"] by simp
qed

definition same_life :: "gateway_db \<Rightarrow> gateway_db \<Rightarrow> bool" where
  "same_life t u \<longleftrightarrow> map life (gd_jobs u) = map life (gd_jobs t) \<and> prefix (gd_events t) (gd_events u) \<and>
     gd_credit_calls u = gd_credit_calls t \<and> gd_sent u = gd_sent t \<and> gd_tokens u = gd_tokens t"

lemma same_life_jobs: "same_life t u \<Longrightarrow> map job_id (gd_jobs u) = map job_id (gd_jobs t)"
proof -
  assume "same_life t u"
  then have "map (job_id \<circ> life) (gd_jobs u) = map (job_id \<circ> life) (gd_jobs t)" by (simp add: same_life_def flip: map_map)
  then show ?thesis by (simp add: comp_def life_def)
qed

lemma mapped_member: "map f ys = map f xs \<Longrightarrow> y \<in> set ys \<Longrightarrow> \<exists>x \<in> set xs. f x = f y"
proof -
  assume same: "map f ys = map f xs" and y: "y \<in> set ys"
  from y have "f y \<in> set (map f ys)" by simp
  with same have "f y \<in> set (map f xs)" by metis
  then show ?thesis by auto
qed

lemma same_life_row: "same_life t u \<Longrightarrow> j \<in> set (gd_jobs t) \<Longrightarrow> \<exists>k \<in> set (gd_jobs u). life k = life j"
  by (rule mapped_member) (simp_all add: same_life_def)

lemma same_life_sym: "same_life t u \<Longrightarrow> j \<in> set (gd_jobs u) \<Longrightarrow> \<exists>k \<in> set (gd_jobs t). life k = life j"
  by (rule mapped_member) (simp_all add: same_life_def)

lemma same_life_safe:
  assumes inv: "life_inv t" and same: "same_life t u"
  shows "life_safe t u"
proof -
  have logs: "gd_sent u = gd_sent t" "gd_credit_calls u = gd_credit_calls t" "gd_tokens u = gd_tokens t"
    using same by (simp_all add: same_life_def)
  have ids: "map job_id (gd_jobs u) = map job_id (gd_jobs t)" by (rule same_life_jobs [OF same])
  from arg_cong [OF ids, of set] have "job_ids u = job_ids t" by (simp add: job_ids_def)
  moreover have "history_ok u k = history_ok t k" for k by (simp add: history_ok_def sent_by_def logs)
  moreover have "row_ok k \<and> history_ok t k" if "k \<in> set (gd_jobs u)" for k
  proof -
    from same_life_sym [OF same that] obtain j where "j \<in> set (gd_jobs t)" "life k = life j" by metis
    with inv life_row(3,4) [of k j] show ?thesis by (simp add: life_inv_def)
  qed
  ultimately have "life_inv u" using inv ids by (simp add: life_inv_def logs sent_by_def)
  moreover have "\<exists>k \<in> set (gd_jobs u). row_keeps_life j k" if "j \<in> set (gd_jobs t)" for j
    using same_life_row [OF same that] life_row(1) by blast
  then have "life_frame t u" using same by (simp add: life_frame_def same_life_def)
  ultimately show ?thesis by (simp add: life_safe_def)
qed

lemma row_keeps_facts:
  assumes "row_keeps_life j k"
  shows "job_id k = job_id j" and "job_generation_type k = job_generation_type j"
proof -
  have "generation_job.truncate k = generation_job.truncate j" using assms by (simp add: row_keeps_life_def)
  then show "job_id k = job_id j" and "job_generation_type k = job_generation_type j"
    by (simp_all add: generation_job.defs)
qed

lemma update_jobE:
  assumes "update_job P f t = Some u"
  obtains x where "x \<in> set (gd_jobs t)" "P x" "u = t\<lparr>gd_jobs := update_where P f (gd_jobs t)\<rparr>"
    "\<And>y. y \<in> set (gd_jobs t) \<Longrightarrow> P y \<Longrightarrow> y = x"
proof -
  have one: "affected P (gd_jobs t) = 1" and u: "u = t\<lparr>gd_jobs := update_where P f (gd_jobs t)\<rparr>"
    using assms by (simp_all add: update_job_def split: if_splits)
  from one obtain x where "x \<in> set (gd_jobs t)" "P x" "\<And>y. y \<in> set (gd_jobs t) \<Longrightarrow> P y \<Longrightarrow> y = x"
    by (rule affected_oneE) blast
  with u that show thesis by blast
qed

text \<open>A row may be written when the new row is in order and keeps the old one.\<close>

lemma write_rows_safe:
  assumes inv: "life_inv t"
    and keeps: "\<And>x. x \<in> set (gd_jobs t) \<Longrightarrow> P x \<Longrightarrow> row_ok x \<Longrightarrow> history_ok t x \<Longrightarrow>
      row_keeps_life x (f x) \<and> row_ok (f x) \<and> history_ok t (f x)"
  shows "life_safe t (t\<lparr>gd_jobs := update_where P f (gd_jobs t)\<rparr>)"
proof -
  let ?u = "t\<lparr>gd_jobs := update_where P f (gd_jobs t)\<rparr>"
  have rows: "row_ok x \<and> history_ok t x" if "x \<in> set (gd_jobs t)" for x using inv that by (simp add: life_inv_def)
  have step: "row_keeps_life x (if P x then f x else x) \<and> row_ok (if P x then f x else x) \<and> history_ok t (if P x then f x else x)"
    if "x \<in> set (gd_jobs t)" for x
    using rows [OF that] keeps [OF that] by simp
  have ids: "map job_id (gd_jobs ?u) = map job_id (gd_jobs t)"
    using row_keeps_facts(1) [OF step [THEN conjunct1]] by (auto simp: update_where_def)
  from arg_cong [OF ids, of set] have "job_ids ?u = job_ids t" by (simp add: job_ids_def)
  moreover have "history_ok ?u k = history_ok t k" for k by (simp add: history_ok_def sent_by_def)
  moreover have "row_ok k \<and> history_ok t k" if "k \<in> set (gd_jobs ?u)" for k
    using that step by (auto simp: set_update_where)
  ultimately have "life_inv ?u" using inv ids by (simp add: life_inv_def sent_by_def)
  moreover have "\<exists>k \<in> set (gd_jobs ?u). row_keeps_life j k" if "j \<in> set (gd_jobs t)" for j
    using step [OF that] that by (intro bexI [where x = "if P j then f j else j"]) (auto simp: set_update_where)
  ultimately show ?thesis by (simp add: life_safe_def life_frame_def)
qed

lemma update_job_safe:
  assumes inv: "life_inv t" and upd: "update_job P f t = Some u"
    and keeps: "\<And>x. x \<in> set (gd_jobs t) \<Longrightarrow> P x \<Longrightarrow> row_ok x \<Longrightarrow> history_ok t x \<Longrightarrow>
      row_keeps_life x (f x) \<and> row_ok (f x) \<and> history_ok t (f x)"
  shows "life_safe t u"
proof -
  from upd have "u = t\<lparr>gd_jobs := update_where P f (gd_jobs t)\<rparr>" by (simp add: update_job_def split: if_splits)
  with write_rows_safe [where P = P and f = f, OF inv keeps] show ?thesis by simp
qed

lemma same_life_refl [simp]: "same_life t t"
  by (simp add: same_life_def)

lemma same_life_trans: "same_life t u \<Longrightarrow> same_life u v \<Longrightarrow> same_life t v"
  unfolding same_life_def by (auto intro: prefix_order.trans)

lemma log_same_life [simp]: "same_life t (log_event i e t)" "same_life t (log_events i es t)"
  by (simp_all add: same_life_def log_event_def log_events_def)

lemma accounts_same_life [simp]: "same_life t (set_account_credits a c t)" "same_life t (flag_worker w t)"
  by (simp_all add: same_life_def set_account_credits_def flag_worker_def split: option.splits)

lemma columns_same_life:
  assumes "\<And>x. P x \<Longrightarrow> life (f x) = life x"
  shows "same_life t (t\<lparr>gd_jobs := update_where P f (gd_jobs t)\<rparr>)"
  using assms by (simp add: same_life_def update_where_def)

lemma update_job_same_life:
  assumes "update_job P f t = Some u" and "\<And>x. P x \<Longrightarrow> life (f x) = life x"
  shows "same_life t u"
  using assms columns_same_life [of P f t] by (simp add: update_job_def split: if_splits)

lemma release_same_life: "release_job_in_session now s t i success error clear = Inr (v, u) \<Longrightarrow> same_life t u"
  unfolding release_job_in_session_def
  by (auto simp: Let_def give_back_def same_life_def update_where_def unroute_job_def life_def split: option.splits if_splits)

lemma release_here_same_life: "release_here env i success error clear t = Inr u \<Longrightarrow> same_life t u"
  unfolding release_here_def by (auto split: sum.splits dest: release_same_life)

lemma reserve_same_life: "try_reserve now t rq a w = Some u \<Longrightarrow> same_life t u"
  unfolding try_reserve_def
  by (auto simp: Let_def same_life_def update_where_def route_job_def life_def split: option.splits if_splits)

lemma record_same_life: "record_account env s t i token a w project lost = Some u \<Longrightarrow> same_life t u"
  unfolding record_account_def
  by (auto simp: same_life_def update_where_def log_event_def select_row_def life_def split: option.splits if_splits)

text \<open>A credit call, and where the money of a job may move.\<close>

lemma credit_apply_safe:
  assumes inv: "life_inv t" and call: "credit_apply env i call event t = Inr u"
    and refund: "call = RefundGeneration \<Longrightarrow> \<forall>j \<in> set (gd_jobs t). job_id j = i \<longrightarrow>
      (gj_status j = JOB_FAILED \<or> gj_status j = JOB_CANCELLED) \<and> sent_by t i = {}"
    and settle: "call = SettleGeneration \<Longrightarrow> \<forall>j \<in> set (gd_jobs t). job_id j = i \<longrightarrow> gj_status j = JOB_COMPLETED"
  shows "life_safe t u \<and> gd_jobs u = gd_jobs t \<and> gd_sent u = gd_sent t"
proof -
  consider "u = t" | j where "job_by_id t i = Some j" "u = t\<lparr>gd_credit_calls := gd_credit_calls t @ [(i, call)]\<rparr> \<or>
      (\<exists>e. u = log_event i e (t\<lparr>gd_credit_calls := gd_credit_calls t @ [(i, call)]\<rparr>))"
    using call by (auto simp: credit_apply_def Let_def split: option.splits if_splits)
  then show ?thesis
  proof cases
    case 1
    then show ?thesis by (simp add: life_safe_refl inv)
  next
    case 2
    let ?t = "t\<lparr>gd_credit_calls := gd_credit_calls t @ [(i, call)]\<rparr>"
    have "i \<in> job_ids t" using 2(1) by (auto simp: job_ids_def job_by_id_def dest: row_where_SomeD)
    moreover have "history_ok ?t j" if "j \<in> set (gd_jobs t)" for j
    proof -
      have "history_ok t j" using inv that by (simp add: life_inv_def)
      moreover have "call = RefundGeneration \<Longrightarrow> job_id j = i \<Longrightarrow>
          (gj_status j = JOB_FAILED \<or> gj_status j = JOB_CANCELLED) \<and> sent_by t (job_id j) = {}" using refund that by blast
      moreover have "call = SettleGeneration \<Longrightarrow> job_id j = i \<Longrightarrow> gj_status j = JOB_COMPLETED" using settle that by blast
      ultimately show ?thesis unfolding history_ok_def by (auto simp: sent_by_def)
    qed
    ultimately have "life_inv ?t" using inv by (auto simp: life_inv_def job_ids_def sent_by_def)
    then have safe: "life_safe t ?t" unfolding life_safe_def by (auto intro!: life_frame_same)
    then have "life_safe t (log_event i e ?t)" for e
      using life_safe_trans same_life_safe log_same_life(1) by blast
    with safe 2(2) show ?thesis by (auto simp: log_event_def)
  qed
qed

lemma safe_then_same: "life_safe t u \<Longrightarrow> same_life u v \<Longrightarrow> life_safe t v"
  using life_safe_trans same_life_safe by blast

lemma life_safe_inv: "life_safe t u \<Longrightarrow> life_inv u"
  by (simp add: life_safe_def)

lemma update_job_row:
  assumes inv: "life_inv t" and upd: "update_job P f t = Some u" and key: "\<And>x. P x \<Longrightarrow> job_id x = i"
    and same: "\<And>x. P x \<Longrightarrow> job_id (f x) = job_id x" and k: "k \<in> set (gd_jobs u)" "job_id k = i"
  shows "\<exists>x \<in> set (gd_jobs t). P x \<and> k = f x"
proof -
  from upd obtain x where x: "x \<in> set (gd_jobs t)" "P x" and u: "u = t\<lparr>gd_jobs := update_where P f (gd_jobs t)\<rparr>"
    by (rule update_jobE)
  from k(1) u obtain y where y: "y \<in> set (gd_jobs t)" "k = (if P y then f y else y)" by (auto simp: set_update_where)
  with k(2) same [of y] have "job_id y = i" by (simp split: if_splits)
  with key [OF x(2)] inv x(1) y(1) have "y = x" by (auto simp: life_inv_def dest: distinct_keyD)
  with x y show ?thesis by auto
qed

lemma update_job_logs:
  assumes "update_job P f t = Some u"
  shows "gd_sent u = gd_sent t" and "sent_by u i = sent_by t i"
  using assms by (auto simp: update_job_def sent_by_def split: if_splits)

end
