(* ===== verification/Job_Safety.thy ===== *)
theory Job_Safety
  imports Job_Invariant
begin

text \<open>
  Every session of the gateway keeps the invariant of \<open>Job_Invariant\<close> and its frame. A session whose
  answers branch often has an elimination rule that says what it wrote; \<open>Job_Slots\<close> uses the same rules.
\<close>

section \<open>Every session is safe\<close>

lemmas row_defs = row_ok_def history_ok_def row_keeps_life_def unclaim_def generation_job.defs

lemma create_safe:
  assumes inv: "life_inv t" and fresh: "job_id facts \<notin> job_id ` set (gd_jobs t)"
  shows "life_safe t (insert_job facts t)"
proof -
  let ?j = "new_job facts"
  let ?t = "t\<lparr>gd_jobs := gd_jobs t @ [?j]\<rparr>"
  have j: "job_id ?j = job_id facts" "gj_status ?j = JOB_NEW" "gj_submission ?j = NOT_SENT" "gj_provider_job ?j = None"
      "gj_output ?j = None" "gj_claim ?j = None"
    by (simp_all add: new_job_def generation_job.defs gateway_job.defs)
  have none: "sent_by t (job_id facts) = {}" "\<And>c. (job_id facts, c) \<notin> set (gd_credit_calls t)"
    using inv fresh unfolding life_inv_def sent_by_def job_ids_def by (metis (mono_tags, lifting) Collect_empty_eq fst_conv image_eqI subsetD)+
  have "history_ok ?t k = history_ok t k" for k by (simp add: history_ok_def sent_by_def)
  moreover have "row_ok ?j \<and> history_ok t ?j" using j none by (simp add: row_ok_def history_ok_def)
  ultimately have "life_inv ?t" using inv fresh j(1) by (auto simp: life_inv_def job_ids_def sent_by_def)
  then have "life_safe t ?t" unfolding life_safe_def by (auto intro!: life_frame_same)
  then show ?thesis unfolding insert_job_def by (rule safe_then_same) simp
qed

lemma claim_job_safe:
  assumes inv: "life_inv t" and claim: "claim_job env token event C t i = Some u"
    and row: "\<And>j. C j \<Longrightarrow> row_ok j \<Longrightarrow> \<not> finished j \<and> gj_output j = None \<and> gj_submission j \<noteq> SENT_UNCONFIRMED"
  shows "life_safe t u"
proof -
  let ?P = "\<lambda>j. job_id j = i \<and> C j"
  let ?f = "\<lambda>j. j\<lparr>gj_status := JOB_RESERVED, gj_claim := Some token, gj_claim_expires := Some (gx_now env + gx_claim_lease env)\<rparr>"
  let ?t = "t\<lparr>gd_tokens := token # gd_tokens t\<rparr>"
  from claim obtain v where v: "update_job ?P ?f t = Some v" and u: "u = log_event i event (v\<lparr>gd_tokens := token # gd_tokens v\<rparr>)"
    by (auto simp: claim_job_def split: option.splits)
  have "history_ok ?t k" if "history_ok t k" for k using that unfolding history_ok_def sent_by_def by auto
  then have "life_inv ?t" using inv by (auto simp: life_inv_def job_ids_def sent_by_def)
  then have "life_safe t ?t" unfolding life_safe_def by (auto intro!: life_frame_same)
  moreover have "life_safe ?t (v\<lparr>gd_tokens := token # gd_tokens v\<rparr>)" if "life_inv ?t"
  proof (rule update_job_safe [OF that])
    show "update_job ?P ?f ?t = Some (v\<lparr>gd_tokens := token # gd_tokens v\<rparr>)"
      using v by (auto simp: update_job_def split: if_splits)
    fix x assume "job_id x = i \<and> C x" "row_ok x" "history_ok ?t x"
    with row [of x] show "row_keeps_life x (?f x) \<and> row_ok (?f x) \<and> history_ok ?t (?f x)"
      by (auto simp: row_defs finished_def)
  qed
  ultimately show ?thesis unfolding u using life_safe_trans safe_then_same log_same_life(1) by blast
qed

text \<open>The shape of most sessions: one row moves, and the job's credits follow.\<close>

lemma update_credit_safe:
  assumes inv: "life_inv t" and upd: "update_job P f t = Some t1"
    and keeps: "\<And>x. x \<in> set (gd_jobs t) \<Longrightarrow> P x \<Longrightarrow> row_ok x \<Longrightarrow> history_ok t x \<Longrightarrow>
      row_keeps_life x (f x) \<and> row_ok (f x) \<and> history_ok t (f x)"
    and same: "same_life t1 t2" and call: "credit_apply env i call event t2 = Inr u"
    and key: "\<And>x. P x \<Longrightarrow> job_id x = i"
    and money: "\<And>x. x \<in> set (gd_jobs t) \<Longrightarrow> P x \<Longrightarrow> row_ok x \<Longrightarrow> history_ok t x \<Longrightarrow>
      (call = RefundGeneration \<longrightarrow> (gj_status (f x) = JOB_FAILED \<or> gj_status (f x) = JOB_CANCELLED) \<and> sent_by t i = {}) \<and>
      (call = SettleGeneration \<longrightarrow> gj_status (f x) = JOB_COMPLETED)"
  shows "life_safe t u"
proof -
  have safe1: "life_safe t t1" by (rule update_job_safe [OF inv upd keeps])
  have safe2: "life_safe t t2" by (rule safe_then_same [OF safe1 same])
  have sent: "sent_by t2 i = sent_by t i" using same update_job_logs(2) [OF upd] by (simp add: same_life_def sent_by_def)
  have row: "(call = RefundGeneration \<longrightarrow> (gj_status k = JOB_FAILED \<or> gj_status k = JOB_CANCELLED) \<and> sent_by t2 i = {}) \<and>
      (call = SettleGeneration \<longrightarrow> gj_status k = JOB_COMPLETED)" if k: "k \<in> set (gd_jobs t2)" "job_id k = i" for k
  proof -
    from same_life_sym [OF same k(1)] obtain k1 where k1: "k1 \<in> set (gd_jobs t1)" "life k1 = life k" by metis
    from life_row(2) [OF k1(2)] k(2) have "job_id k1 = i" by simp
    from upd obtain x where x: "x \<in> set (gd_jobs t)" "P x" and t1: "t1 = t\<lparr>gd_jobs := update_where P f (gd_jobs t)\<rparr>"
      by (rule update_jobE)
    have ok: "row_ok x \<and> history_ok t x" using inv x(1) by (simp add: life_inv_def)
    from k1(1) t1 obtain y where y: "y \<in> set (gd_jobs t)" "k1 = (if P y then f y else y)" by (auto simp: set_update_where)
    have "job_id y = i"
    proof (cases "P y")
      case True
      then show ?thesis by (rule key)
    next
      case False
      with y(2) \<open>job_id k1 = i\<close> show ?thesis by simp
    qed
    with key [OF x(2)] inv x(1) y(1) have "y = x" by (auto simp: life_inv_def dest: distinct_keyD)
    with y(2) x(2) have "k1 = f x" by simp
    moreover have "gj_status k = gj_status k1" using arg_cong [OF k1(2), of gj_status] by simp
    ultimately show ?thesis using money [OF x] ok sent by simp
  qed
  have "life_safe t2 u \<and> gd_jobs u = gd_jobs t2 \<and> gd_sent u = gd_sent t2"
    by (rule credit_apply_safe [OF life_safe_inv [OF safe2] call]) (use row in blast)+
  with safe2 show ?thesis by (blast intro: life_safe_trans)
qed

lemma renew_claim_safe: "life_inv t \<Longrightarrow> renew_claim env token t i = Some u \<Longrightarrow> life_safe t u"
  unfolding renew_claim_def by (rule same_life_safe, assumption, erule update_job_same_life) (simp add: life_def)

lemma update_caseE:
  assumes "(case update_job P f t of None \<Rightarrow> a | Some u \<Rightarrow> b u) = r"
  obtains "update_job P f t = None" and "a = r" | u where "update_job P f t = Some u" and "b u = r"
  using assms by (cases "update_job P f t") auto

lemma quarantine_safe:
  assumes inv: "life_inv t" and q: "quarantine_claim env t i = Inr (v, u)"
  shows "life_safe t u"
  using q unfolding quarantine_claim_def
proof (elim update_caseE, goal_cases)
  case 1
  then show ?case using life_safe_refl [OF inv] by simp
next
  case (2 t1)
  then obtain w where call: "credit_apply env i RequireReconciliation None t1 = Inr w" and u: "same_life w u"
    by (auto simp: res_simps)
  have "life_safe t w"
    by (rule update_credit_safe [OF inv 2(1) _ same_life_refl call]) (auto simp: row_defs finished_def)
  then show ?case using u by (rule safe_then_same)
qed

lemma upload_safe:
  assumes inv: "life_inv t" and b: "begin_asset_upload env refuses t i token = Inr u"
  shows "life_safe t u"
proof -
  let ?P = "\<lambda>j. at_boundary env i token j \<and> gj_provider_job j = None"
  let ?t = "t\<lparr>gd_jobs := update_where ?P send_job (gd_jobs t)\<rparr>"
  from b obtain j where j: "row_where ?P (gd_jobs t) = Some j" "refuses j = None"
    unfolding begin_asset_upload_def Let_def by (auto split: option.split_asm)
  from b have "res_bind (if gj_submission j = NOT_SENT then credit_apply env i RecordBoundary None ?t else Inr t)
      (\<lambda>t'. Inr (log_event i ''ASSET_UPLOAD_SUBMISSION_STARTED'' t')) = Inr u"
    unfolding begin_asset_upload_def Let_def j option.case .
  then obtain w where w: "(if gj_submission j = NOT_SENT then credit_apply env i RecordBoundary None ?t else Inr t) = Inr w"
      and u: "same_life w u"
    unfolding res_bind_Inr_iff by auto
  have safe: "life_safe t ?t"
    by (rule write_rows_safe [OF inv]) (auto simp: row_defs finished_def send_job_def at_boundary_def claimed_by_def)
  have "life_safe t w"
  proof (cases "gj_submission j = NOT_SENT")
    case True
    with w have call: "credit_apply env i RecordBoundary None ?t = Inr w" by simp
    have "life_safe ?t w" using credit_apply_safe [OF life_safe_inv [OF safe] call] by simp
    with safe show ?thesis by (blast intro: life_safe_trans)
  next
    case False
    with w show ?thesis using life_safe_refl [OF inv] by simp
  qed
  then show ?thesis using u by (rule safe_then_same)
qed

text \<open>The one session that sends: the claim whose row it marked.\<close>

lemma send_log_safe:
  assumes inv: "life_inv t" and j: "j \<in> set (gd_jobs t)" "job_id j = i" "gj_status j = JOB_RESERVED"
      "gj_submission j = SENT_UNCONFIRMED" "gj_claim j = Some token"
    and calls: "(i, RefundGeneration) \<notin> set (gd_credit_calls t)"
    and sent: "sent_by t i \<subseteq> {token}"
  shows "life_safe t (t\<lparr>gd_sent := (i, token) # gd_sent t\<rparr>)"
proof -
  let ?u = "t\<lparr>gd_sent := (i, token) # gd_sent t\<rparr>"
  have by_u: "sent_by ?u x = (if x = i then insert token (sent_by t x) else sent_by t x)" for x
    by (auto simp: sent_by_def)
  have "history_ok ?u k" if k: "k \<in> set (gd_jobs t)" for k
  proof (cases "job_id k = i")
    case True
    with inv j(1,2) k have "k = j" by (auto simp: life_inv_def dest: distinct_keyD)
    then show ?thesis using inv j calls sent by (auto simp: history_ok_def by_u life_inv_def)
  next
    case False
    have "history_ok t k" using inv k by (simp add: life_inv_def)
    with False show ?thesis by (simp add: history_ok_def by_u)
  qed
  moreover have "\<forall>x. \<forall>a \<in> sent_by ?u x. \<forall>b \<in> sent_by ?u x. a = b" using inv sent by (auto simp: by_u life_inv_def)
  moreover have "i \<in> job_ids t" using j(1,2) by (auto simp: job_ids_def)
  ultimately have "life_inv ?u" using inv by (simp add: life_inv_def job_ids_def)
  then show ?thesis unfolding life_safe_def by (auto intro!: life_frame_same)
qed

lemma send_safe:
  assumes inv: "life_inv t" and b: "begin_provider_submission env refuses offered t i token = Inr (v, u)"
  shows "life_safe t u"
proof (cases v)
  case False
  with b show ?thesis using life_safe_refl [OF inv]
    unfolding begin_provider_submission_def by (auto simp: res_simps split: option.splits)
next
  case True
  with b obtain t1 w where upd: "update_job (\<lambda>j. at_boundary env i token j \<and> offered j) send_job t = Some t1"
      and call: "credit_apply env i RecordBoundary None (t1\<lparr>gd_sent := (i, token) # gd_sent t1\<rparr>) = Inr w" and u: "same_life w u"
    unfolding begin_provider_submission_def by (auto simp: res_simps split: option.splits)
  have safe1: "life_safe t t1"
    by (rule update_job_safe [OF inv upd]) (auto simp: row_defs finished_def send_job_def at_boundary_def claimed_by_def)
  from upd obtain x where x: "x \<in> set (gd_jobs t)" "at_boundary env i token x \<and> offered x"
      and t1: "t1 = t\<lparr>gd_jobs := update_where (\<lambda>j. at_boundary env i token j \<and> offered j) send_job (gd_jobs t)\<rparr>"
    by (rule update_jobE)
  have row: "job_id x = i" "gj_status x = JOB_RESERVED" "gj_claim x = Some token" "gj_submission x \<noteq> CONFIRMED"
    using x(2) by (auto simp: at_boundary_def claimed_by_def)
  have ok: "history_ok t x" using inv x(1) by (simp add: life_inv_def)
  have mem: "send_job x \<in> set (gd_jobs t1)" unfolding t1 using update_where_hit [OF x(1), where f = send_job] x(2) by simp
  have sent: "sent_by t i \<subseteq> {token}" using ok row by (cases "gj_submission x") (auto simp: history_ok_def finished_def)
  have "life_safe t1 (t1\<lparr>gd_sent := (i, token) # gd_sent t1\<rparr>)"
    by (rule send_log_safe [OF life_safe_inv [OF safe1] mem])
      (use row ok sent in \<open>auto simp: send_job_def history_ok_def finished_def t1 sent_by_def\<close>)
  with safe1 have safe2: "life_safe t (t1\<lparr>gd_sent := (i, token) # gd_sent t1\<rparr>)" by (blast intro: life_safe_trans)
  then have "life_safe (t1\<lparr>gd_sent := (i, token) # gd_sent t1\<rparr>) w"
    using credit_apply_safe [OF life_safe_inv [OF safe2] call] by simp
  with safe2 have "life_safe t w" by (blast intro: life_safe_trans)
  then show ?thesis using u by (rule safe_then_same)
qed

lemma confirm_safe:
  assumes inv: "life_inv t" and pj: "pv_job answer \<noteq> ''''"
    and c: "confirm_submission env t i token account worker project answer = Inr u"
  shows "life_safe t u"
  using c unfolding confirm_submission_def
proof (elim update_caseE, goal_cases)
  case 1
  then show ?case using inv by (auto split: option.splits if_splits intro: same_life_safe)
next
  case (2 t1)
  then obtain w where call: "credit_apply env i RecordConfirmed None (set_account_credits account (pv_credits answer) t1) = Inr w"
      and u: "same_life w u"
    by (auto simp: res_simps)
  have "life_safe t w"
    by (rule update_credit_safe [OF inv 2(1) _ accounts_same_life(1) call]) (use pj in \<open>auto simp: row_defs finished_def claimed_by_def\<close>)
  then show ?case using u by (rule safe_then_same)
qed

lemma running_safe:
  assumes inv: "life_inv t" and p: "poll_running env t i token pj flow = Some u"
  shows "life_safe t u"
  using p unfolding poll_running_def
  by (rule update_job_safe [OF inv]) (auto simp: row_defs finished_def polled_by_def claimed_by_def)

lemma poll_cancelled_safe:
  assumes inv: "life_inv t" and p: "poll_cancelled env t i token pj flow = Inr (v, u)"
  shows "life_safe t u"
  using p unfolding poll_cancelled_def
proof (elim update_caseE, goal_cases)
  case 1
  then show ?case using life_safe_refl [OF inv] by simp
next
  case (2 t1)
  then obtain w x where call: "credit_apply env i RequireReconciliation None t1 = Inr w"
      and x: "release_here env i None None False w = Inr x" and u: "same_life x u"
    by (auto simp: res_simps)
  have "life_safe t w"
    by (rule update_credit_safe [OF inv 2(1) _ same_life_refl call])
      (auto simp: row_defs finished_def polled_by_def claimed_by_def cancel_row_def)
  from safe_then_same [OF this release_here_same_life [OF x]] show ?case using u by (rule safe_then_same)
qed

lemma cancel_confirmed_safe:
  assumes inv: "life_inv t" and p: "cancel_confirmed env t i token pj = Inr (v, u)"
  shows "life_safe t u"
  using p unfolding cancel_confirmed_def
proof (elim update_caseE, goal_cases)
  case 1
  then show ?case using life_safe_refl [OF inv] by simp
next
  case (2 t1)
  then obtain w x where call: "credit_apply env i RequireReconciliation (Some ''CREDIT_RECONCILIATION_REQUIRED'') t1 = Inr w"
      and x: "release_here env i None None False w = Inr x" and u: "same_life x u"
    by (auto simp: res_simps)
  have "life_safe t w"
    by (rule update_credit_safe [OF inv 2(1) _ same_life_refl call])
      (auto simp: row_defs finished_def polled_by_def claimed_by_def cancel_row_def)
  from safe_then_same [OF this release_here_same_life [OF x]] show ?case using u by (rule safe_then_same)
qed

lemma complete_safe:
  assumes inv: "life_inv t" and p: "finalize_completed env t i token pj flow asset = Inr (v, u)"
  shows "life_safe t u"
  using p unfolding finalize_completed_def
proof (elim update_caseE, goal_cases)
  case 1
  then show ?case using life_safe_refl [OF inv] by simp
next
  case (2 t1)
  then obtain w x where call: "credit_apply env i SettleGeneration (Some ''CREDIT_SETTLED'') t1 = Inr w"
      and x: "release_here env i (Some True) None False (log_events i [''MEDIA_DOWNLOADED'', ''VIDEO_GENERATED'', ''DYNAMIC_QA_STARTED'',
        ''PROVIDER_JOB_COMPLETED'', ''JOB_COMPLETED''] w) = Inr u"
    by (auto simp: res_simps)
  have "life_safe t w"
    by (rule update_credit_safe [OF inv 2(1) _ same_life_refl call])
      (auto simp: row_defs finished_def polled_by_def claimed_by_def)
  from safe_then_same [OF this log_same_life(2)] release_here_same_life [OF x] show ?case by (rule safe_then_same)
qed

lemma restore_safe:
  assumes inv: "life_inv t" and p: "restore_cancel_tracking env t i token = Inr u"
  shows "life_safe t u"
  using p unfolding restore_cancel_tracking_def
proof (elim update_caseE, goal_cases)
  case 1
  then show ?case using life_safe_refl [OF inv] by simp
next
  case (2 t1)
  then obtain w where call: "credit_apply env i RequireReconciliation None t1 = Inr w" and u: "same_life w u"
    by (auto simp: res_simps)
  have "life_safe t w"
    by (rule update_credit_safe [OF inv 2(1) _ same_life_refl call]) (auto simp: row_defs finished_def claimed_by_def)
  then show ?case using u by (rule safe_then_same)
qed

text \<open>What the sessions of users and operators write; the other answers leave the state alone.\<close>

lemma retry_jobE:
  assumes r: "retry_job env s t i = Inr u"
  obtains "u = t" | j :: gateway_job and kept w where "\<not> finished j"
    "update_job (\<lambda>x. job_id x = i \<and> gj_status x = gj_status j \<and> gj_safe_to_retry x \<and>
         gj_submission x = NOT_SENT \<and> gj_provider_job x = None \<and> gj_output x = None \<and> kept)
       (\<lambda>x. unclaim (x\<lparr>gj_status := JOB_RETRY_WAIT, gj_next_retry := Some (gx_now env), gj_error := None,
         gj_submission := NOT_SENT\<rparr>)) t = Some w" "u = log_event i ''JOB_RETRY_REQUESTED'' w"
proof (cases "u = t")
  case True
  then show thesis by (rule that(1))
next
  case False
  then obtain j where j: "job_by_id s i = Some j" "\<not> gj_deleted j" "gj_status j \<noteq> JOB_COMPLETED" "\<not> finished j"
    using r unfolding retry_job_def Let_def by (simp split: option.split_asm if_split_asm)
  let ?kept = "case gx_credits env of None \<Rightarrow> True | Some cs \<Rightarrow>
    (case gx_credits env of None \<Rightarrow> None | Some cs \<Rightarrow> cs_entry cs i) = None \<or>
    (case gx_credits env of None \<Rightarrow> None | Some cs \<Rightarrow> cs_entry cs i) = Some RESERVED \<and> cs_kept cs i"
  from r \<open>u \<noteq> t\<close> j have "(case update_job (\<lambda>x. job_id x = i \<and> gj_status x = gj_status j \<and> gj_safe_to_retry x \<and>
         gj_submission x = NOT_SENT \<and> gj_provider_job x = None \<and> gj_output x = None \<and> ?kept)
       (\<lambda>x. unclaim (x\<lparr>gj_status := JOB_RETRY_WAIT, gj_next_retry := Some (gx_now env), gj_error := None,
         gj_submission := NOT_SENT\<rparr>)) t of
      Some t' \<Rightarrow> Inr (log_event i ''JOB_RETRY_REQUESTED'' t')
    | None \<Rightarrow> (case job_by_id t i of None \<Rightarrow> Inl GatewayLookupError
      | Some x \<Rightarrow> if gj_status x = JOB_COMPLETED then Inr t
          else Inl (UnsafeRetry ''generation state changed while retry was being requested''))) = Inr u"
    unfolding retry_job_def Let_def by (simp split: if_split_asm)
  then show thesis
  proof (elim update_caseE, goal_cases)
    case 1
    then show ?case using \<open>u \<noteq> t\<close> by (simp split: option.split_asm if_split_asm)
  next
    case (2 w)
    show ?case by (rule that(2) [OF j(4) 2(1)]) (use 2(2) in simp)
  qed
qed

lemma retry_safe:
  assumes inv: "life_inv t" and r: "retry_job env s t i = Inr u"
  shows "life_safe t u"
  using r
proof (cases rule: retry_jobE)
  case 1
  then show ?thesis using life_safe_refl [OF inv] by simp
next
  case (2 j kept w)
  have "life_safe t w"
    by (rule update_job_safe [OF inv 2(2)]) (use 2(1) in \<open>auto simp: row_defs finished_def\<close>)
  then show ?thesis unfolding 2(3) by (rule safe_then_same) simp
qed

lemma cancel_localE:
  assumes c: "cancel_local env s t i = Inr (v, u)"
  obtains "u = t" | "credit_apply env i RequireReconciliation (Some ''CREDIT_RECONCILIATION_REQUIRED'') t = Inr u"
  | t1 w x where "update_job (\<lambda>x. job_id x = i \<and> \<not> finished x \<and> gj_provider_job x = None \<and> gj_submission x = NOT_SENT \<and>
        gj_output x = None) (\<lambda>x. unclaim (x\<lparr>gj_status := JOB_CANCELLED, gj_safe_to_retry := False, gj_next_retry := None\<rparr>)) t = Some t1"
    "credit_apply env i RefundGeneration (Some ''CREDIT_REFUNDED'') t1 = Inr w" "release_here env i None None True w = Inr x"
    "u = log_event i ''JOB_CANCELLED'' x"
proof -
  let ?P = "\<lambda>x. job_id x = i \<and> \<not> finished x \<and> gj_provider_job x = None \<and> gj_submission x = NOT_SENT \<and> gj_output x = None"
  let ?f = "\<lambda>x. unclaim (x\<lparr>gj_status := JOB_CANCELLED, gj_safe_to_retry := False, gj_next_retry := None\<rparr>)"
  consider "u = t" | "res_bind (credit_apply env i RequireReconciliation (Some ''CREDIT_RECONCILIATION_REQUIRED'') t) (\<lambda>u. Inr (False, u)) = Inr (v, u)"
    | t1 where "update_job ?P ?f t = Some t1" "res_bind (credit_apply env i RefundGeneration (Some ''CREDIT_REFUNDED'') t1) (\<lambda>t2.
              res_bind (release_here env i None None True t2) (\<lambda>t3. Inr (False, log_event i ''JOB_CANCELLED'' t3))) = Inr (v, u)"
    using c unfolding cancel_local_def Let_def by (simp split: option.split_asm if_split_asm)
  then show thesis
  proof cases
    case 1
    then show ?thesis by (rule that(1))
  next
    case 2
    then have "credit_apply env i RequireReconciliation (Some ''CREDIT_RECONCILIATION_REQUIRED'') t = Inr u" by (auto simp: res_simps)
    then show ?thesis by (rule that(2))
  next
    case (3 t1)
    then obtain w x where "credit_apply env i RefundGeneration (Some ''CREDIT_REFUNDED'') t1 = Inr w"
        and "release_here env i None None True w = Inr x" and "u = log_event i ''JOB_CANCELLED'' x"
      by (auto simp: res_simps)
    with 3(1) show ?thesis by (rule that(3))
  qed
qed

lemma cancel_local_safe:
  assumes inv: "life_inv t" and c: "cancel_local env s t i = Inr (v, u)"
  shows "life_safe t u"
  using c
proof (cases rule: cancel_localE)
  case 1
  then show ?thesis using life_safe_refl [OF inv] by simp
next
  case 2
  from credit_apply_safe [OF inv this] show ?thesis by simp
next
  case (3 t1 w x)
  have "life_safe t w"
    by (rule update_credit_safe [OF inv 3(1) _ same_life_refl 3(2)]) (auto simp: row_defs finished_def)
  from safe_then_same [OF this release_here_same_life [OF 3(3)]] show ?thesis unfolding 3(4) by (rule safe_then_same) simp
qed

lemma reconcile_lateE:
  assumes l: "reconcile_late env found s t i = Inr u"
  obtains "u = t"
  | "u = log_event i ''FLOW_POLL_IDENTITY_RECONCILIATION_REQUIRED'' (t\<lparr>gd_jobs :=
        update_where (\<lambda>x. job_id x = i) (\<lambda>x. x\<lparr>gj_error := Some ''FLOW_POLL_IDENTITY_MISSING''\<rparr>) (gd_jobs t)\<rparr>)"
  | j :: gateway_job and pj t1 w where "pj \<noteq> ''''" "update_job (\<lambda>x. job_id x = i \<and> gj_status x = JOB_NEEDS_USER_ACTION \<and> gj_submission x = SENT_UNCONFIRMED \<and>
          gj_output x = None \<and> (gj_provider_job x = None \<or> gj_provider_job x = Some pj) \<and>
          (job_provider j \<noteq> GOOGLE_FLOW \<or> gj_account x = gj_account j \<and> gj_provider_project x = gj_provider_project j))
        (\<lambda>x. unclaim (x\<lparr>gj_provider_job := Some pj, gj_submission := CONFIRMED, gj_status := JOB_SUBMITTED,
          gj_safe_to_retry := False, gj_next_retry := Some (gx_now env + gx_poll_interval env)\<rparr>)) t = Some t1"
    "credit_apply env i RecordConfirmed None t1 = Inr w" "u = log_event i ''ORPHAN_RESPONSE_RECOVERED'' w"
proof (cases "u = t")
  case True
  then show thesis by (rule that(1))
next
  case False
  with l obtain j where j: "job_by_id s i = Some j"
      "gj_status j = JOB_NEEDS_USER_ACTION \<and> gj_submission j = SENT_UNCONFIRMED \<and> gj_output j = None"
    unfolding reconcile_late_def by (auto split: option.split_asm if_split_asm)
  from l False j obtain pj where pj: "(if has_provider_job j then gj_provider_job j else found j) = Some pj" "pj \<noteq> ''''"
    unfolding reconcile_late_def by (auto split: option.split_asm if_split_asm)
  let ?lost = "job_provider j = GOOGLE_FLOW \<and> (py_falsy (gj_account j) \<or> py_falsy (gj_provider_project j))"
  show thesis
  proof (cases ?lost)
    case True
    with l j pj show ?thesis by (intro that(2)) (simp add: reconcile_late_def)
  next
    case False
    with l j pj have "(case update_job (\<lambda>x. job_id x = i \<and> gj_status x = JOB_NEEDS_USER_ACTION \<and> gj_submission x = SENT_UNCONFIRMED \<and>
          gj_output x = None \<and> (gj_provider_job x = None \<or> gj_provider_job x = Some pj) \<and>
          (job_provider j \<noteq> GOOGLE_FLOW \<or> gj_account x = gj_account j \<and> gj_provider_project x = gj_provider_project j))
        (\<lambda>x. unclaim (x\<lparr>gj_provider_job := Some pj, gj_submission := CONFIRMED, gj_status := JOB_SUBMITTED,
          gj_safe_to_retry := False, gj_next_retry := Some (gx_now env + gx_poll_interval env)\<rparr>)) t of
      None \<Rightarrow> (if job_by_id t i = None then Inl GatewayLookupError else Inr t)
    | Some t' \<Rightarrow> res_bind (credit_apply env i RecordConfirmed None t') (\<lambda>u. Inr (log_event i ''ORPHAN_RESPONSE_RECOVERED'' u))) = Inr u"
      unfolding reconcile_late_def by simp
    then show ?thesis
    proof (elim update_caseE, goal_cases)
      case 1
      then show ?case using \<open>u \<noteq> t\<close> by (simp split: if_splits)
    next
      case (2 t1)
      then obtain w where "credit_apply env i RecordConfirmed None t1 = Inr w" "u = log_event i ''ORPHAN_RESPONSE_RECOVERED'' w"
        by (auto simp: res_simps)
      with pj(2) 2(1) show ?case by (intro that(3))
    qed
  qed
qed

lemma late_safe:
  assumes inv: "life_inv t" and l: "reconcile_late env found s t i = Inr u"
  shows "life_safe t u"
  using l
proof (cases rule: reconcile_lateE)
  case 1
  then show ?thesis using life_safe_refl [OF inv] by simp
next
  case 2
  show ?thesis unfolding 2
    by (rule same_life_safe [OF inv], rule same_life_trans [OF columns_same_life log_same_life(1)]) (simp add: life_def)
next
  case (3 j pj t1 w)
  have "life_safe t w"
    by (rule update_credit_safe [OF inv 3(2) _ same_life_refl 3(3)]) (use 3(1) in \<open>auto simp: row_defs finished_def\<close>)
  then show ?thesis unfolding 3(4) by (rule safe_then_same) simp
qed

text \<open>What a report did when it was taken.\<close>

lemma schedule_errorE:
  assumes e: "schedule_error env s t i r = Inr (v, u)" and "u \<noteq> t \<or> v"
  obtains j kept submitted decision t1 after t2 t3 release error clear where "job_by_id s i = Some j" "\<not> finished j"
    "submitted \<longleftrightarrow> er_submitted r \<or> has_provider_job j \<or> gj_submission j \<noteq> NOT_SENT"
    "update_job (\<lambda>x. error_applies r j x \<and> kept) (close_attempt env r decision submitted) t = Some t1"
    "job_by_id t1 i = Some after" "same_life t1 t2" "settle_error env r submitted after t2 = Inr t3"
    "if release then release_here env i (Some False) error clear (log_event i (er_code r) t3) = Inr u
     else u = log_event i (er_code r) t3"
    "t2 = (if gj_status after = JOB_NEEDS_USER_ACTION then flag_worker (gj_worker after) t1 else t1)"
    "release \<longrightarrow> \<not> submitted \<or> has_provider_job j"
proof -
  from assms obtain j where j: "job_by_id s i = Some j" "\<not> finished j"
    "\<not> (case er_token r of None \<Rightarrow> False | Some token \<Rightarrow> gj_claim j \<noteq> Some token \<or> gj_status j \<noteq> JOB_RESERVED)"
    "flow_identity (er_flow r) j"
    unfolding schedule_error_def Let_def by (simp split: option.split_asm if_split_asm)
  let ?submitted = "er_submitted r \<or> has_provider_job j \<or> gj_submission j \<noteq> NOT_SENT"
  let ?uncertain = "?submitted \<and> \<not> has_provider_job j"
  let ?decision = "decide_retry (er_category r) (gj_attempts j) (gj_max_attempts j) ?uncertain"
  let ?credit = "case gx_credits env of None \<Rightarrow> None
                  | Some cs \<Rightarrow> if job_workspace_credit_required j then Some (cs_entry cs i, cs_kept cs i) else None"
  let ?kept = "case ?credit of None \<Rightarrow> True | Some (_, k) \<Rightarrow> k"
  have step: "(case update_job (\<lambda>x. error_applies r j x \<and> ?kept) (close_attempt env r ?decision ?submitted) t of
                     None \<Rightarrow> (if job_by_id t i = None then Inl GatewayLookupError else Inr (False, t))
                   | Some t1 \<Rightarrow> (case job_by_id t1 i of
                       None \<Rightarrow> Inl GatewayLookupError
                     | Some after \<Rightarrow>
                         res_bind (settle_error env r ?submitted after
                           (if gj_status after = JOB_NEEDS_USER_ACTION then flag_worker (gj_worker after) t1 else t1)) (\<lambda>t2.
                         res_bind (if er_release r \<and> \<not> ?uncertain then release_here env i (Some False) (Some (release_message r))
                               (er_clear_routing r \<and> \<not> ?uncertain) (log_event i (er_code r) t2) else Inr (log_event i (er_code r) t2))
                           (\<lambda>t3. Inr (True, t3))))) = Inr (v, u)"
  proof (cases ?credit)
    case None
    with e j show ?thesis unfolding schedule_error_def Let_def by simp
  next
    case (Some p)
    obtain entry k where p: "p = (entry, k)" by (cases p)
    with Some e j show ?thesis unfolding schedule_error_def Let_def by (cases entry) simp_all
  qed
  then show thesis
  proof (elim update_caseE, goal_cases)
    case 1
    then show ?case using assms(2) by (simp split: if_split_asm)
  next
    case (2 t1)
    then obtain after where after: "job_by_id t1 i = Some after" by (simp split: option.split_asm)
    let ?t2 = "if gj_status after = JOB_NEEDS_USER_ACTION then flag_worker (gj_worker after) t1 else t1"
    let ?rest = "\<lambda>t2. res_bind (if er_release r \<and> \<not> ?uncertain then release_here env i (Some False) (Some (release_message r))
        (er_clear_routing r \<and> \<not> ?uncertain) (log_event i (er_code r) t2) else Inr (log_event i (er_code r) t2)) (\<lambda>t3. Inr (True, t3))"
    from 2(2) have "res_bind (settle_error env r ?submitted after ?t2) ?rest = Inr (v, u)" unfolding after option.case .
    then obtain t3 where t3: "settle_error env r ?submitted after ?t2 = Inr t3" and rest: "?rest t3 = Inr (v, u)"
      by (rule res_bind_InrE)
    from rest have fin: "if er_release r \<and> \<not> ?uncertain then release_here env i (Some False) (Some (release_message r))
        (er_clear_routing r \<and> \<not> ?uncertain) (log_event i (er_code r) t3) = Inr u else u = log_event i (er_code r) t3"
      unfolding res_bind_Inr_iff by (auto split: if_splits)
    show ?case
      by (rule that [OF j(1,2) refl 2(1) after _ t3 fin refl]) auto
  qed
qed

lemma settle_errorE:
  assumes "settle_error env r submitted after t = Inr u"
  obtains "u = t"
  | "credit_apply env (job_id after) RequireReconciliation (Some ''CREDIT_RECONCILIATION_REQUIRED'') t = Inr u"
  | w where "\<not> submitted" "gj_status after = JOB_FAILED"
    "credit_apply env (job_id after) RefundGeneration (Some ''CREDIT_REFUNDED'') t = Inr w"
    "u = w\<lparr>gd_jobs := update_where (\<lambda>j. job_id j = job_id after) (\<lambda>j. j\<lparr>gj_safe_to_retry := False\<rparr>) (gd_jobs w)\<rparr>"
proof -
  let ?A = "submitted \<and> (gj_status after = JOB_FAILED \<or> gj_status after = JOB_NEEDS_USER_ACTION)"
  let ?B = "\<not> submitted \<and> gj_status after = JOB_FAILED"
  consider "gx_credits env = None \<or> \<not> ?A \<and> \<not> ?B" | "gx_credits env \<noteq> None" ?A | "gx_credits env \<noteq> None" "\<not> ?A" ?B by blast
  then show thesis
  proof cases
    case 1
    with assms have "u = t" unfolding settle_error_def Let_def by (simp split: if_split_asm)
    then show ?thesis by (rule that(1))
  next
    case 2
    then have "credit_apply env (job_id after) RequireReconciliation (Some ''CREDIT_RECONCILIATION_REQUIRED'') t = Inr u"
      using assms unfolding settle_error_def Let_def by auto
    then show ?thesis by (rule that(2))
  next
    case 3
    then have "res_bind (credit_apply env (job_id after) RefundGeneration (Some ''CREDIT_REFUNDED'') t) (\<lambda>u.
        Inr (u\<lparr>gd_jobs := update_where (\<lambda>j. job_id j = job_id after) (\<lambda>j. j\<lparr>gj_safe_to_retry := False\<rparr>) (gd_jobs u)\<rparr>)) = Inr u"
      using assms unfolding settle_error_def Let_def by auto
    then show ?thesis using 3(3) that(3) by (elim res_bind_InrE) simp
  qed
qed

lemma error_safe:
  assumes inv: "life_inv t" and e: "schedule_error env s t i r = Inr (v, u)"
  shows "life_safe t u"
proof (cases "u = t")
  case True
  then show ?thesis using life_safe_refl [OF inv] by simp
next
  case False
  then have "u \<noteq> t \<or> v" by simp
  from e this obtain j kept submitted decision t1 after t2 t3 release error clear where j: "job_by_id s i = Some j" "\<not> finished j"
    and submitted: "submitted \<longleftrightarrow> er_submitted r \<or> has_provider_job j \<or> gj_submission j \<noteq> NOT_SENT"
    and upd: "update_job (\<lambda>x. error_applies r j x \<and> kept) (close_attempt env r decision submitted) t = Some t1"
    and after: "job_by_id t1 i = Some after" and t2: "same_life t1 t2" and settle: "settle_error env r submitted after t2 = Inr t3"
    and fin: "if release then release_here env i (Some False) error clear (log_event i (er_code r) t3) = Inr u
      else u = log_event i (er_code r) t3"
    by (rule schedule_errorE)
  have id: "job_id j = i" using j(1) by (auto simp: job_by_id_def dest: row_where_SomeD)
  have keeps: "row_keeps_life x (close_attempt env r decision submitted x) \<and> row_ok (close_attempt env r decision submitted x) \<and>
      history_ok t (close_attempt env r decision submitted x) \<and> (\<not> submitted \<longrightarrow> sent_by t i = {})"
    if "error_applies r j x \<and> kept" "row_ok x" "history_ok t x" for x
  proof -
    have x: "job_id x = i" "\<not> finished x" "gj_output x = None" "gj_submission x = gj_submission j" "gj_provider_job x = gj_provider_job j"
      using that(1) id j(2) by (simp_all add: error_applies_def finished_def)
    then have sub: "\<not> submitted \<Longrightarrow> gj_submission x = NOT_SENT" using submitted by simp
    let ?y = "close_attempt env r decision submitted x"
    have y: "generation_job.truncate ?y = generation_job.truncate x" "job_id ?y = job_id x" "gj_output ?y = gj_output x"
        "gj_provider_job ?y = gj_provider_job x" "gj_claim ?y = None" "gj_status ?y \<in> {JOB_NEEDS_USER_ACTION, JOB_RETRY_WAIT, JOB_FAILED}"
        "gj_submission ?y = gj_submission x"
      using sub unfolding close_attempt_def unclaim_def by (simp_all add: generation_job.defs split: retry_decision.split)
    have none: "gj_submission x = NOT_SENT \<Longrightarrow> sent_by t i = {}"
      using that(3) x(1,2) by (auto simp: history_ok_def)
    have refund: "(i, RefundGeneration) \<notin> set (gd_credit_calls t)" "(i, SettleGeneration) \<notin> set (gd_credit_calls t)"
      using that(3) x(1,2) by (auto simp: history_ok_def finished_def)
    have sends: "\<forall>token \<in> sent_by t i. gj_submission x \<noteq> NOT_SENT" using none by blast
    have status: "gj_status ?y \<noteq> JOB_RESERVED" "gj_status ?y \<noteq> JOB_COMPLETED" using y(6) by auto
    have "row_ok ?y" using that(2) x(3) status y(3,4,7) by (simp add: row_ok_def)
    moreover have "row_keeps_life x ?y" using x(2) y by (simp add: row_keeps_life_def)
    moreover have "history_ok t ?y" using status y(2,5,7) x(1) refund sends by (simp add: history_ok_def)
    ultimately show ?thesis using none sub by blast
  qed
  have safe2: "life_safe t t2"
    by (rule safe_then_same [OF update_job_safe [OF inv upd] t2]) (use keeps in blast)
  have after': "after \<in> set (gd_jobs t1)" "job_id after = i" using after by (auto simp: job_by_id_def dest: row_where_SomeD)
  have "life_safe t t3"
  proof -
    consider "t3 = t2" | "credit_apply env i RequireReconciliation (Some ''CREDIT_RECONCILIATION_REQUIRED'') t2 = Inr t3"
      | w where "\<not> submitted" "gj_status after = JOB_FAILED" "credit_apply env i RefundGeneration (Some ''CREDIT_REFUNDED'') t2 = Inr w"
        "t3 = w\<lparr>gd_jobs := update_where (\<lambda>j. job_id j = i) (\<lambda>j. j\<lparr>gj_safe_to_retry := False\<rparr>) (gd_jobs w)\<rparr>"
      using settle_errorE [OF settle] after'(2) by metis
    then show ?thesis
    proof cases
      case 1
      with safe2 show ?thesis by simp
    next
      case 2
      from credit_apply_safe [OF life_safe_inv [OF safe2] 2] safe2 show ?thesis by (auto intro: life_safe_trans)
    next
      case (3 w)
      have "life_safe t w"
      proof (rule update_credit_safe [OF inv upd _ t2 3(3)])
        fix x assume x: "x \<in> set (gd_jobs t)" "error_applies r j x \<and> kept" "row_ok x" "history_ok t x"
        from upd obtain y where "t1 = t\<lparr>gd_jobs := update_where (\<lambda>x. error_applies r j x \<and> kept) (close_attempt env r decision submitted) (gd_jobs t)\<rparr>"
          by (rule update_jobE)
        then have "gd_jobs t1 = update_where (\<lambda>x. error_applies r j x \<and> kept) (close_attempt env r decision submitted) (gd_jobs t)" by simp
        with update_where_hit [OF x(1), where P = "\<lambda>x. error_applies r j x \<and> kept"] x(2)
        have "close_attempt env r decision submitted x \<in> set (gd_jobs t1)" by metis
        moreover have "job_id (close_attempt env r decision submitted x) = i"
          using x(2) id by (simp add: close_attempt_def unclaim_def error_applies_def)
        moreover have "distinct (map job_id (gd_jobs t1))"
          using update_job_safe [OF inv upd] keeps by (simp add: life_safe_def life_inv_def)
        ultimately have "close_attempt env r decision submitted x = after" using after' by (auto dest: distinct_keyD)
        then show "(RefundGeneration = RefundGeneration \<longrightarrow> (gj_status (close_attempt env r decision submitted x) = JOB_FAILED \<or>
            gj_status (close_attempt env r decision submitted x) = JOB_CANCELLED) \<and> sent_by t i = {}) \<and>
          (RefundGeneration = SettleGeneration \<longrightarrow> gj_status (close_attempt env r decision submitted x) = JOB_COMPLETED)"
          using keeps [OF x(2,3,4)] 3(1,2) by simp
      qed (use keeps id in \<open>auto simp: error_applies_def\<close>)
      moreover have "same_life w t3" unfolding 3(4) by (rule columns_same_life) (simp add: life_def)
      ultimately show ?thesis by (rule safe_then_same)
    qed
  qed
  then have "life_safe t (log_event i (er_code r) t3)" by (rule safe_then_same) simp
  with fin show ?thesis using safe_then_same release_here_same_life by (auto split: if_split_asm)
qed

lemma fail_processing_is_error:
  "fail_processing env seen s t i message = Inr (v, u) \<Longrightarrow> u = t \<or> (\<exists>r. schedule_error env s t i r = Inr (v, u))"
  unfolding fail_processing_def by (auto split: option.split_asm if_split_asm)

lemma reconcile_creditsE:
  assumes c: "reconcile_credits env t i action = Inr u"
  obtains w where "credit_apply env i ReconcileGeneration (Some ''CREDIT_RECONCILED'') w = Inr u"
    "w = t \<or> (\<exists>t1. update_job (\<lambda>j. job_id j = i \<and> gj_status j \<in> {JOB_FAILED, JOB_CANCELLED, JOB_NEEDS_USER_ACTION} \<and>
               gj_claim j = None \<and> gj_output j = None) close_refunded t = Some t1 \<and>
             release_here env i (Some False) (Some ''credit reconciliation confirmed provider job was not billable'') True t1 = Inr w) \<or>
           update_job (\<lambda>j. job_id j = i \<and> gj_status j \<in> {JOB_SUBMITTED, JOB_RUNNING, JOB_NEEDS_USER_ACTION, JOB_FAILED,
                 JOB_CANCELLED, JOB_COMPLETED} \<and> gj_submission j \<in> {SENT_UNCONFIRMED, CONFIRMED} \<and> gj_claim j = None)
               (\<lambda>j. j\<lparr>gj_safe_to_retry := False\<rparr>) t = Some w"
  using c unfolding reconcile_credits_def by (simp split: if_split_asm option.split_asm add: res_bind_Inr_iff) blast+

lemma credits_safe:
  assumes inv: "life_inv t" and c: "reconcile_credits env t i action = Inr u"
  shows "life_safe t u"
proof -
  from c obtain w where call: "credit_apply env i ReconcileGeneration (Some ''CREDIT_RECONCILED'') w = Inr u"
    and w: "w = t \<or> (\<exists>t1. update_job (\<lambda>j. job_id j = i \<and> gj_status j \<in> {JOB_FAILED, JOB_CANCELLED, JOB_NEEDS_USER_ACTION} \<and>
               gj_claim j = None \<and> gj_output j = None) close_refunded t = Some t1 \<and>
             release_here env i (Some False) (Some ''credit reconciliation confirmed provider job was not billable'') True t1 = Inr w) \<or>
           update_job (\<lambda>j. job_id j = i \<and> gj_status j \<in> {JOB_SUBMITTED, JOB_RUNNING, JOB_NEEDS_USER_ACTION, JOB_FAILED,
                 JOB_CANCELLED, JOB_COMPLETED} \<and> gj_submission j \<in> {SENT_UNCONFIRMED, CONFIRMED} \<and> gj_claim j = None)
               (\<lambda>j. j\<lparr>gj_safe_to_retry := False\<rparr>) t = Some w"
    by (rule reconcile_creditsE)
  have "life_safe t w"
    using w
  proof (elim disjE exE conjE)
    assume "w = t"
    then show ?thesis using life_safe_refl [OF inv] by simp
  next
    fix t1
    assume upd: "update_job (\<lambda>j. job_id j = i \<and> gj_status j \<in> {JOB_FAILED, JOB_CANCELLED, JOB_NEEDS_USER_ACTION} \<and>
        gj_claim j = None \<and> gj_output j = None) close_refunded t = Some t1"
      and w: "release_here env i (Some False) (Some ''credit reconciliation confirmed provider job was not billable'') True t1 = Inr w"
    have "life_safe t t1"
      by (rule update_job_safe [OF inv upd]) (auto simp: row_defs finished_def close_refunded_def has_provider_job_def py_falsy_def)
    then show ?thesis using release_here_same_life [OF w] by (rule safe_then_same)
  next
    assume "update_job (\<lambda>j. job_id j = i \<and> gj_status j \<in> {JOB_SUBMITTED, JOB_RUNNING, JOB_NEEDS_USER_ACTION, JOB_FAILED,
        JOB_CANCELLED, JOB_COMPLETED} \<and> gj_submission j \<in> {SENT_UNCONFIRMED, CONFIRMED} \<and> gj_claim j = None)
      (\<lambda>j. j\<lparr>gj_safe_to_retry := False\<rparr>) t = Some w"
    then have "same_life t w" by (rule update_job_same_life) (simp add: life_def)
    then show ?thesis by (rule same_life_safe [OF inv])
  qed
  moreover from this have "life_safe w u" using credit_apply_safe [OF life_safe_inv call] by simp
  ultimately show ?thesis by (blast intro: life_safe_trans)
qed

lemma resume_jobE:
  assumes r: "resume_job env j t = Inr (n, u)"
  obtains "u = t" | c t1 w where "update_job (\<lambda>x. still_resumable env j x \<and> c) (resume_row env) t = Some t1"
    "if has_provider_job j then credit_apply env (job_id j) RecordConfirmed None t1 = Inr w
     else if gj_submission j = SENT_UNCONFIRMED then credit_apply env (job_id j) RequireReconciliation None t1 = Inr w
     else release_here env (job_id j) None None True t1 = Inr w" "u = log_event (job_id j) ''JOB_RESUMED'' w"
proof (cases "u = t")
  case True
  then show thesis by (rule that(1))
next
  case False
  let ?i = "job_id j"
  let ?entry = "case gx_credits env of None \<Rightarrow> None
            | Some cs \<Rightarrow> if job_workspace_credit_required j then Some (cs_entry cs ?i, cs_kept cs ?i) else None"
  have "(case update_job (\<lambda>x. still_resumable env j x \<and> (?entry = None \<or> snd (the ?entry))) (resume_row env) t of
          None \<Rightarrow> Inr (0, t)
        | Some t1 \<Rightarrow> res_bind
            (if has_provider_job j then credit_apply env ?i RecordConfirmed None t1
             else if gj_submission j = SENT_UNCONFIRMED then credit_apply env ?i RequireReconciliation None t1
             else release_here env ?i None None True t1)
            (\<lambda>t2. Inr (1, log_event ?i ''JOB_RESUMED'' t2))) = Inr (n, u)"
    using r False unfolding resume_job_def Let_def by (simp only: split: if_split_asm) simp_all
  then show thesis
  proof (elim update_caseE, goal_cases)
    case 1
    then show ?case using False by simp
  next
    case (2 t1)
    from 2(2) obtain w where w: "(if has_provider_job j then credit_apply env ?i RecordConfirmed None t1
             else if gj_submission j = SENT_UNCONFIRMED then credit_apply env ?i RequireReconciliation None t1
             else release_here env ?i None None True t1) = Inr w"
        and "(Inr (1, log_event ?i ''JOB_RESUMED'' w) :: gateway_error + nat \<times> gateway_db) = Inr (n, u)"
      by (rule res_bind_InrE)
    then have u: "u = log_event ?i ''JOB_RESUMED'' w" by simp
    show ?case by (rule that(2) [OF 2(1) _ u]) (use w in \<open>simp split: if_split_asm\<close>)
  qed
qed

lemma resume_job_safe:
  assumes inv: "life_inv t" and rec: "recoverable env j" and r: "resume_job env j t = Inr (n, u)"
  shows "life_safe t u"
  using r
proof (cases rule: resume_jobE)
  case 1
  then show ?thesis using life_safe_refl [OF inv] by simp
next
  case (2 c t1 w)
  have safe: "life_safe t t1"
  proof (rule update_job_safe [OF inv 2(1)])
    fix x assume x: "still_resumable env j x \<and> c" "row_ok x" "history_ok t x"
    have "\<not> finished x" "gj_status x \<noteq> JOB_COMPLETED"
      using rec x(1) by (auto simp: recoverable_def still_resumable_def stale_reservation_def finished_def)
    then show "row_keeps_life x (resume_row env x) \<and> row_ok (resume_row env x) \<and> history_ok t (resume_row env x)"
      using x(2,3) by (cases "gj_submission x") (auto simp: row_defs resume_row_def has_provider_job_def py_falsy_def finished_def)
  qed
  have "life_safe t1 w"
    using 2(2) credit_apply_safe [OF life_safe_inv [OF safe]] same_life_safe [OF life_safe_inv [OF safe]] release_here_same_life
    by (fastforce split: if_split_asm)
  with safe have "life_safe t w" by (blast intro: life_safe_trans)
  then show ?thesis unfolding 2(3) by (rule safe_then_same) simp
qed

lemma recover_rows_safe:
  assumes "life_inv t" and "\<forall>j \<in> set js. recoverable env j" and "recover_rows env js t = Inr (n, u)"
  shows "life_safe t u"
  using assms
proof (induction js arbitrary: t n)
  case Nil
  then show ?case by (simp add: life_safe_refl)
next
  case (Cons j js)
  then obtain m w k where w: "resume_job env j t = Inr (m, w)" and k: "recover_rows env js w = Inr (k, u)"
    by (auto simp: res_simps)
  have safe: "life_safe t w" using resume_job_safe [OF Cons.prems(1) _ w] Cons.prems(2) by simp
  have "life_safe w u" using Cons.IH [OF life_safe_inv [OF safe] _ k] Cons.prems(2) by simp
  with safe show ?case by (blast intro: life_safe_trans)
qed

lemma recover_safe: "life_inv t \<Longrightarrow> recover_after_restart env s t = Inr (n, u) \<Longrightarrow> life_safe t u"
  unfolding recover_after_restart_def by (erule recover_rows_safe) simp_all

lemma txn_life_safe:
  assumes "life_inv t" and "gateway_txn s t u"
  shows "life_safe t u"
  using assms(2)
proof cases
  case g_create
  then show ?thesis using create_safe [OF assms(1)] by simp
next
  case (g_claim token env i)
  show ?thesis
    by (rule claim_job_safe [OF assms(1) g_claim(2) [unfolded claim_for_submission_def]])
      (auto simp: row_ok_def finished_def stale_reservation_def)
next
  case (g_poll_claim token env i)
  show ?thesis
    by (rule claim_job_safe [OF assms(1) g_poll_claim(2) [unfolded claim_for_polling_def]])
      (auto simp: row_ok_def finished_def stale_reservation_def)
next
  case (g_cancel_claim token env i)
  show ?thesis
    by (rule claim_job_safe [OF assms(1) g_cancel_claim(2) [unfolded claim_for_cancellation_def]])
      (auto simp: row_ok_def finished_def stale_reservation_def)
next
  case g_reserve
  then show ?thesis using same_life_safe [OF assms(1) reserve_same_life] by blast
next
  case g_account
  then show ?thesis using same_life_safe [OF assms(1) record_same_life] by blast
next
  case g_release
  then show ?thesis using same_life_safe [OF assms(1) release_same_life] by blast
next
  case (g_fail env i message v)
  from fail_processing_is_error [OF this] show ?thesis using life_safe_refl error_safe assms(1) by blast
next
  case g_renew
  then show ?thesis by (rule renew_claim_safe [OF assms(1)])
next
  case g_quarantine
  then show ?thesis by (rule quarantine_safe [OF assms(1)])
next
  case g_upload
  then show ?thesis by (rule upload_safe [OF assms(1)])
next
  case g_send
  then show ?thesis by (rule send_safe [OF assms(1)])
next
  case g_running
  then show ?thesis by (rule running_safe [OF assms(1)])
next
  case g_cancelled
  then show ?thesis by (rule poll_cancelled_safe [OF assms(1)])
next
  case g_complete
  then show ?thesis by (rule complete_safe [OF assms(1)])
next
  case g_error
  then show ?thesis by (rule error_safe [OF assms(1)])
next
  case g_retry
  then show ?thesis by (rule retry_safe [OF assms(1)])
next
  case g_cancel
  then show ?thesis by (rule cancel_local_safe [OF assms(1)])
next
  case g_restore
  then show ?thesis by (rule restore_safe [OF assms(1)])
next
  case g_cancel_done
  then show ?thesis by (rule cancel_confirmed_safe [OF assms(1)])
next
  case g_late
  then show ?thesis by (rule late_safe [OF assms(1)])
next
  case g_credits
  then show ?thesis by (rule credits_safe [OF assms(1)])
next
  case g_recover
  then show ?thesis by (rule recover_safe [OF assms(1)])
next
  case g_confirm
  then show ?thesis by (rule confirm_safe [OF assms(1)])
qed

interpretation jobs: optimistic_txn gateway_txn life_inv life_frame
proof unfold_locales
  fix s t u assume "life_inv t" and "gateway_txn s t u"
  then have "life_safe t u" by (rule txn_life_safe)
  then show "life_inv u" and "life_frame t u" by (simp_all add: life_safe_def)
qed (rule life_frame_refl, rule life_frame_trans)

end
