(* ===== verification/Job_Slots.thy ===== *)
theory Job_Slots
  imports Job_Safety
begin

text \<open>
  The counters of accounts and workers against the jobs that hold a slot, over the same transactions. A
  transaction that neither reserves nor releases leaves every column the counters depend on alone.
\<close>

section \<open>Holders\<close>

definition holds_on :: "string \<Rightarrow> string \<Rightarrow> gateway_job \<Rightarrow> int" where
  "holds_on kind account j = (if job_generation_type j = kind \<and> gj_account j = Some account \<and> gj_worker j \<noteq> None \<and>
     gj_released_at j = None then 1 else 0)"

definition held_by :: "string \<Rightarrow> string \<Rightarrow> gateway_job \<Rightarrow> int" where
  "held_by worker account j = (if gj_worker j = Some worker \<and> gj_account j = Some account \<and> gj_released_at j = None then 1 else 0)"

definition account_covers :: "gateway_job list \<Rightarrow> account_row \<Rightarrow> bool" where
  "account_covers rows a \<longleftrightarrow>
     tally (holds_on ''image'' (pa_id a)) rows \<le> pa_image_inflight a \<and>
     tally (holds_on ''video'' (pa_id a)) rows \<le> pa_video_inflight a \<and>
     pa_pending a = pa_image_inflight a + pa_video_inflight a \<and>
     (0 < pa_image_capacity a \<longrightarrow> pa_image_inflight a \<le> pa_image_capacity a) \<and>
     (0 < pa_video_capacity a \<longrightarrow> pa_video_inflight a \<le> pa_video_capacity a)"

definition worker_covers :: "gateway_job list \<Rightarrow> browser_worker \<Rightarrow> bool" where
  "worker_covers rows w \<longleftrightarrow> 0 \<le> bw_current w \<and> bw_current w \<le> max 0 (bw_max w) \<and>
     (\<forall>account. bw_account w = Some account \<longrightarrow> tally (held_by (bw_id w) account) rows \<le> bw_current w)"

definition slot_inv :: "gateway_db \<Rightarrow> bool" where
  "slot_inv t \<longleftrightarrow> distinct (map job_id (gd_jobs t)) \<and> distinct (map pa_id (gd_accounts t)) \<and> distinct (map bw_id (gd_workers t)) \<and>
     (\<forall>a \<in> set (gd_accounts t). account_covers (gd_jobs t) a) \<and> (\<forall>w \<in> set (gd_workers t). worker_covers (gd_jobs t) w)"

section \<open>What leaves the counters alone\<close>

definition job_slot :: "gateway_job \<Rightarrow> string \<times> string \<times> string option \<times> string option \<times> bool" where
  "job_slot j = (job_id j, job_generation_type j, gj_account j, gj_worker j, gj_released_at j = None)"

definition account_slot :: "account_row \<Rightarrow> string \<times> int \<times> int \<times> int \<times> int \<times> int" where
  "account_slot a = (pa_id a, pa_image_capacity a, pa_video_capacity a, pa_image_inflight a, pa_video_inflight a, pa_pending a)"

definition worker_slot :: "browser_worker \<Rightarrow> string \<times> string option \<times> int \<times> int" where
  "worker_slot w = (bw_id w, bw_account w, bw_current w, bw_max w)"

definition same_slots :: "gateway_db \<Rightarrow> gateway_db \<Rightarrow> bool" where
  "same_slots t u \<longleftrightarrow> map job_slot (gd_jobs u) = map job_slot (gd_jobs t) \<and>
     map account_slot (gd_accounts u) = map account_slot (gd_accounts t) \<and>
     map worker_slot (gd_workers u) = map worker_slot (gd_workers t)"

lemma same_slots_refl [simp]: "same_slots t t"
  by (simp add: same_slots_def)

lemma same_slots_trans: "same_slots t u \<Longrightarrow> same_slots u v \<Longrightarrow> same_slots t v"
  by (simp add: same_slots_def)

lemma slot_of_rows:
  assumes "map job_slot rows' = map job_slot rows"
  shows "tally (holds_on kind account) rows' = tally (holds_on kind account) rows"
    and "tally (held_by worker account) rows' = tally (held_by worker account) rows"
proof -
  have "holds_on kind account j = (\<lambda>(_, k, a, w, live). if k = kind \<and> a = Some account \<and> w \<noteq> None \<and> live then 1 else 0) (job_slot j)"
    "held_by worker account j = (\<lambda>(_, k, a, w, live). if w = Some worker \<and> a = Some account \<and> live then 1 else 0) (job_slot j)" for j
    by (simp_all add: holds_on_def held_by_def job_slot_def)
  then have "map (holds_on kind account) rs = map (\<lambda>(_, k, a, w, live). if k = kind \<and> a = Some account \<and> w \<noteq> None \<and> live then 1 else 0) (map job_slot rs)"
    "map (held_by worker account) rs = map (\<lambda>(_, k, a, w, live). if w = Some worker \<and> a = Some account \<and> live then 1 else 0) (map job_slot rs)" for rs
    by simp_all
  with assms show "tally (holds_on kind account) rows' = tally (holds_on kind account) rows"
    and "tally (held_by worker account) rows' = tally (held_by worker account) rows"
    by (simp_all only: tally_def)
qed

lemma same_slots_inv:
  assumes inv: "slot_inv t" and same: "same_slots t u"
  shows "slot_inv u"
proof -
  have rows: "map job_slot (gd_jobs u) = map job_slot (gd_jobs t)"
    and accounts: "map account_slot (gd_accounts u) = map account_slot (gd_accounts t)"
    and workers: "map worker_slot (gd_workers u) = map worker_slot (gd_workers t)"
    using same by (simp_all add: same_slots_def)
  have "map job_id (gd_jobs u) = map job_id (gd_jobs t)" and "map pa_id (gd_accounts u) = map pa_id (gd_accounts t)"
    and "map bw_id (gd_workers u) = map bw_id (gd_workers t)"
    using arg_cong [OF rows, of "map fst"] arg_cong [OF accounts, of "map fst"] arg_cong [OF workers, of "map fst"]
    by (simp_all add: job_slot_def account_slot_def worker_slot_def comp_def)
  moreover have "account_covers (gd_jobs u) a" if a: "a \<in> set (gd_accounts u)" for a
  proof -
    from mapped_member [OF accounts a] obtain x where "x \<in> set (gd_accounts t)" and x: "account_slot x = account_slot a" by blast
    with inv have "account_covers (gd_jobs t) x" by (simp add: slot_inv_def)
    with x show ?thesis by (simp add: account_covers_def account_slot_def slot_of_rows [OF rows])
  qed
  moreover have "worker_covers (gd_jobs u) w" if w: "w \<in> set (gd_workers u)" for w
  proof -
    from mapped_member [OF workers w] obtain x where "x \<in> set (gd_workers t)" and x: "worker_slot x = worker_slot w" by blast
    with inv have "worker_covers (gd_jobs t) x" by (simp add: slot_inv_def)
    with x show ?thesis by (simp add: worker_covers_def worker_slot_def slot_of_rows [OF rows])
  qed
  ultimately show ?thesis using inv by (simp add: slot_inv_def)
qed

section \<open>Giving a slot back\<close>

lemma holders_nonneg [simp]: "0 \<le> holds_on kind account j" "0 \<le> held_by worker account j"
  by (simp_all add: holds_on_def held_by_def)

lemma holders_tally_nonneg [simp]: "0 \<le> tally (holds_on kind account) rows" "0 \<le> tally (held_by worker account) rows"
  by (rule tally_nonneg, simp)+

lemma unroute_holds_nothing [simp]: "holds_on kind account (unroute_job now clear j) = 0" "held_by worker account (unroute_job now clear j) = 0"
  by (simp_all add: holds_on_def held_by_def unroute_job_def)

lemma give_account_columns [simp]:
  "pa_id (give_account c now success error a) = pa_id a"
  "pa_image_capacity (give_account c now success error a) = pa_image_capacity a"
  "pa_video_capacity (give_account c now success error a) = pa_video_capacity a"
  "pa_image_inflight (give_account c now success error a) = (if c = ''image'' then max 0 (pa_image_inflight a - 1) else pa_image_inflight a)"
  "pa_video_inflight (give_account c now success error a) = (if c = ''video'' then max 0 (pa_video_inflight a - 1) else pa_video_inflight a)"
  "pa_pending (give_account c now success error a) = max 0 (pa_pending a - 1)"
  by (simp_all add: give_account_def Let_def split: option.split bool.split)

lemma give_worker_columns [simp]:
  "bw_id (give_worker w) = bw_id w" "bw_account (give_worker w) = bw_account w" "bw_max (give_worker w) = bw_max w"
  "bw_current (give_worker w) = max 0 (bw_current w - 1)"
  by (simp_all add: give_worker_def Let_def)

lemma release_slot_inv:
  assumes inv: "slot_inv t" and r: "release_job_in_session now s t i success error clear = Inr (v, u)"
    and kinds: "\<And>j k. j \<in> set (gd_jobs s) \<Longrightarrow> k \<in> set (gd_jobs t) \<Longrightarrow> job_id k = job_id j \<Longrightarrow>
      job_generation_type k = job_generation_type j"
  shows "slot_inv u"
proof (cases v)
  case False
  with r have "u = t" unfolding release_job_in_session_def Let_def by (auto split: option.split_asm if_split_asm)
  with inv show ?thesis by simp
next
  case True
  with r obtain j where j: "job_by_id s i = Some j" "\<not> py_falsy (gj_account j)" "\<not> py_falsy (gj_worker j)"
      and kind: "job_generation_type j = ''image'' \<or> job_generation_type j = ''video''"
      and one: "affected (holds_slot i (the (gj_account j)) (the (gj_worker j))) (gd_jobs t) = 1"
      and u: "u = give_back (the (gj_account j)) (the (gj_worker j)) (job_generation_type j) now success error
        (t\<lparr>gd_jobs := update_where (holds_slot i (the (gj_account j)) (the (gj_worker j))) (unroute_job now clear) (gd_jobs t)\<rparr>)"
    unfolding release_job_in_session_def Let_def by (auto split: option.split_asm if_split_asm)
  define acc where "acc = the (gj_account j)"
  define wid where "wid = the (gj_worker j)"
  define c where "c = job_generation_type j"
  from one obtain k where k: "k \<in> set (gd_jobs t)" "holds_slot i acc wid k"
      and sums: "\<And>g f. tally g (update_where (holds_slot i acc wid) f (gd_jobs t)) = tally g (gd_jobs t) - g k + g (f k)"
    unfolding acc_def wid_def by (rule affected_oneE) blast
  have ji: "j \<in> set (gd_jobs s)" "job_id j = i" using j(1) by (auto simp: job_by_id_def dest: row_where_SomeD)
  have kc: "job_generation_type k = c" using kinds [OF ji(1) k(1)] k(2) ji(2) by (simp add: c_def holds_slot_def)
  let ?rows = "update_where (holds_slot i acc wid) (unroute_job now clear) (gd_jobs t)"
  have hk: "holds_on kind a k = (if kind = c \<and> a = acc then 1 else 0)" "held_by w a k = (if w = wid \<and> a = acc then 1 else 0)" for kind a w
    using k(2) kc by (auto simp: holds_on_def held_by_def holds_slot_def)
  have sub: "tally (holds_on kind a) ?rows = tally (holds_on kind a) (gd_jobs t) - (if kind = c \<and> a = acc then 1 else 0)"
    "tally (held_by w a) ?rows = tally (held_by w a) (gd_jobs t) - (if w = wid \<and> a = acc then 1 else 0)" for kind a w
    unfolding sums hk by simp_all
  have least: "1 \<le> tally (holds_on c acc) (gd_jobs t)" "1 \<le> tally (held_by wid acc) (gd_jobs t)"
    using tally_member_le [OF k(1), of "holds_on c acc"] tally_member_le [OF k(1), of "held_by wid acc"] by (simp_all add: hk)
  have c: "c = ''image'' \<or> c = ''video''" using kind by (simp add: c_def)
  have jobs: "gd_jobs u = ?rows" and accounts: "gd_accounts u = update_where (\<lambda>a. pa_id a = acc) (give_account c now success error) (gd_accounts t)"
    and workers: "gd_workers u = update_where (\<lambda>w. bw_id w = wid \<and> bw_account w = Some acc) give_worker (gd_workers t)"
    unfolding u by (simp_all add: give_back_def acc_def wid_def c_def)
  have "account_covers ?rows a" if a: "a \<in> set (gd_accounts u)" for a
  proof -
    from a accounts obtain x where x: "x \<in> set (gd_accounts t)" and ax: "a = (if pa_id x = acc then give_account c now success error x else x)"
      by (auto simp: set_update_where)
    have ok: "account_covers (gd_jobs t) x" using inv x by (simp add: slot_inv_def)
    have signs: "0 \<le> pa_image_inflight x" "0 \<le> pa_video_inflight x"
      using ok order.trans [OF holders_tally_nonneg(1)] by (auto simp: account_covers_def)
    show ?thesis
    proof (cases "pa_id x = acc")
      case True
      with least have "1 \<le> tally (holds_on c (pa_id x)) (gd_jobs t)" by simp
      with True ax ok c signs show ?thesis
        by (elim disjE) (auto simp: account_covers_def sub)
    next
      case False
      with ax ok show ?thesis by (simp add: account_covers_def sub)
    qed
  qed
  moreover have "worker_covers ?rows w" if w: "w \<in> set (gd_workers u)" for w
  proof -
    from w workers obtain x where x: "x \<in> set (gd_workers t)" and wx: "w = (if bw_id x = wid \<and> bw_account x = Some acc then give_worker x else x)"
      by (auto simp: set_update_where)
    have ok: "worker_covers (gd_jobs t) x" using inv x by (simp add: slot_inv_def)
    show ?thesis
    proof (cases "bw_id x = wid \<and> bw_account x = Some acc")
      case True
      with ok least(2) have "1 \<le> bw_current x" by (auto simp: worker_covers_def)
      with True wx ok show ?thesis by (auto simp: worker_covers_def sub)
    next
      case False
      with wx ok show ?thesis by (auto simp: worker_covers_def sub)
    qed
  qed
  moreover have "map pa_id (gd_accounts u) = map pa_id (gd_accounts t)" "map bw_id (gd_workers u) = map bw_id (gd_workers t)"
    unfolding accounts workers by (rule map_update_where, simp)+
  moreover have "map job_id ?rows = map job_id (gd_jobs t)" by (rule map_update_where) (simp add: unroute_job_def)
  ultimately show ?thesis using inv by (simp add: slot_inv_def jobs)
qed

section \<open>Taking a slot\<close>

lemma take_account_columns [simp]:
  "pa_id (take_account c a) = pa_id a"
  "pa_image_capacity (take_account c a) = pa_image_capacity a"
  "pa_video_capacity (take_account c a) = pa_video_capacity a"
  "pa_image_inflight (take_account c a) = pa_image_inflight a + (if c = ''image'' then 1 else 0)"
  "pa_video_inflight (take_account c a) = pa_video_inflight a + (if c = ''image'' then 0 else 1)"
  "pa_pending (take_account c a) = pa_pending a + 1"
  by (simp_all add: take_account_def)

lemma take_worker_columns [simp]:
  "bw_id (take_worker w) = bw_id w" "bw_account (take_worker w) = bw_account w" "bw_max (take_worker w) = bw_max w"
  "bw_current (take_worker w) = bw_current w + 1"
  by (simp_all add: take_worker_def)

lemma try_reserveE:
  assumes "try_reserve now t rq account worker = Some u"
  obtains "affected (account_free now t rq account) (gd_accounts t) = 1" "affected (worker_free rq account worker) (gd_workers t) = 1"
    "gd_accounts u = update_where (account_free now t rq account) (take_account (ar_capability rq)) (gd_accounts t)"
    "gd_workers u = update_where (worker_free rq account worker) take_worker (gd_workers t)"
    "ar_job rq = None \<and> gd_jobs u = gd_jobs t \<or> (\<exists>i token. ar_job rq = Some (i, token) \<and> affected (job_claimed now i token) (gd_jobs t) = 1 \<and>
       gd_jobs u = update_where (job_claimed now i token) (route_job account worker) (gd_jobs t))"
  using assms unfolding try_reserve_def Let_def by (auto split: option.split_asm if_split_asm prod.split_asm)

lemma reserve_slot_inv:
  assumes inv: "slot_inv t" and r: "try_reserve now t rq account worker = Some u"
    and kinds: "\<And>i token j. ar_job rq = Some (i, token) \<Longrightarrow> j \<in> set (gd_jobs t) \<Longrightarrow> job_id j = i \<Longrightarrow>
      job_generation_type j = ar_capability rq"
    and kind: "ar_capability rq = ''image'' \<or> ar_capability rq = ''video''"
  shows "slot_inv u"
proof -
  let ?c = "ar_capability rq"
  from r have one: "affected (account_free now t rq account) (gd_accounts t) = 1" "affected (worker_free rq account worker) (gd_workers t) = 1"
    and accounts: "gd_accounts u = update_where (account_free now t rq account) (take_account ?c) (gd_accounts t)"
    and workers: "gd_workers u = update_where (worker_free rq account worker) take_worker (gd_workers t)"
    and jobs: "ar_job rq = None \<and> gd_jobs u = gd_jobs t \<or> (\<exists>i token. ar_job rq = Some (i, token) \<and> affected (job_claimed now i token) (gd_jobs t) = 1 \<and>
       gd_jobs u = update_where (job_claimed now i token) (route_job account worker) (gd_jobs t))"
    by (rule try_reserveE, blast)+
  have rows: "tally (holds_on k a) (gd_jobs u) \<le> tally (holds_on k a) (gd_jobs t) + (if k = ?c \<and> a = account then 1 else 0) \<and>
      tally (held_by w a) (gd_jobs u) \<le> tally (held_by w a) (gd_jobs t) + (if w = worker \<and> a = account then 1 else 0)" for k a w
    using jobs
  proof (elim disjE exE conjE)
    assume "gd_jobs u = gd_jobs t"
    with inv show ?thesis by (simp add: slot_inv_def)
  next
    fix i token
    assume job: "ar_job rq = Some (i, token)" and hit: "affected (job_claimed now i token) (gd_jobs t) = 1"
      and u: "gd_jobs u = update_where (job_claimed now i token) (route_job account worker) (gd_jobs t)"
    from hit obtain j where j: "j \<in> set (gd_jobs t)" "job_claimed now i token j"
      and sums: "\<And>g f. tally g (update_where (job_claimed now i token) f (gd_jobs t)) = tally g (gd_jobs t) - g j + g (f j)"
      and only: "\<And>x. x \<in> set (gd_jobs t) \<Longrightarrow> job_claimed now i token x \<Longrightarrow> x = j"
      by (rule affected_oneE) blast
    have jk: "job_generation_type j = ?c" using kinds [OF job j(1)] j(2) by (simp add: job_claimed_def)
    then have new: "holds_on k a (route_job account worker j) = (if k = ?c \<and> a = account then 1 else 0)"
      "held_by w a (route_job account worker j) = (if w = worker \<and> a = account then 1 else 0)"
      by (auto simp: holds_on_def held_by_def route_job_def)
    show ?thesis unfolding u sums new using holders_nonneg(1) [of k a j] holders_nonneg(2) [of w a j] by auto
  qed
  have "account_covers (gd_jobs u) a" if a: "a \<in> set (gd_accounts u)" for a
  proof -
    from a accounts obtain x where x: "x \<in> set (gd_accounts t)" and ax: "a = (if account_free now t rq account x then take_account ?c x else x)"
      by (auto simp: set_update_where)
    have ok: "account_covers (gd_jobs t) x" using inv x by (simp add: slot_inv_def)
    have sums: "tally (holds_on k (pa_id x)) (gd_jobs u) \<le> tally (holds_on k (pa_id x)) (gd_jobs t) + (if k = ?c \<and> pa_id x = account then 1 else 0)" for k
      using rows by blast
    show ?thesis
    proof (cases "account_free now t rq account x")
      case True
      then have "pa_id x = account" "capacity_of ?c x \<le> 0 \<or> inflight_of ?c x < capacity_of ?c x" by (simp_all add: account_free_def)
      with True ax ok kind sums [of "''image''"] sums [of "''video''"] show ?thesis
        by (elim disjE) (auto simp: account_covers_def capacity_of_def inflight_of_def)
    next
      case False
      have "pa_id x \<noteq> account"
      proof
        assume "pa_id x = account"
        from one(1) obtain y where "y \<in> set (gd_accounts t)" "account_free now t rq account y" by (rule affected_oneE)
        moreover from this \<open>pa_id x = account\<close> x inv have "y = x" by (auto simp: account_free_def slot_inv_def dest: distinct_keyD)
        ultimately show False using False by simp
      qed
      with False ax ok sums [of "''image''"] sums [of "''video''"] show ?thesis by (auto simp: account_covers_def)
    qed
  qed
  moreover have "worker_covers (gd_jobs u) w" if w: "w \<in> set (gd_workers u)" for w
  proof -
    from w workers obtain x where x: "x \<in> set (gd_workers t)" and wx: "w = (if worker_free rq account worker x then take_worker x else x)"
      by (auto simp: set_update_where)
    have ok: "worker_covers (gd_jobs t) x" using inv x by (simp add: slot_inv_def)
    have sums: "tally (held_by (bw_id x) a) (gd_jobs u) \<le> tally (held_by (bw_id x) a) (gd_jobs t) + (if bw_id x = worker \<and> a = account then 1 else 0)" for a
      using rows by blast
    show ?thesis
    proof (cases "worker_free rq account worker x")
      case True
      then have "bw_current x < bw_max x" "bw_account x = Some account" by (simp_all add: worker_free_def worker_available_def)
      with True wx ok sums [of account] show ?thesis by (auto simp: worker_covers_def split: if_splits)
    next
      case False
      have "bw_id x \<noteq> worker"
      proof
        assume "bw_id x = worker"
        from one(2) obtain y where "y \<in> set (gd_workers t)" "worker_free rq account worker y" by (rule affected_oneE)
        moreover from this \<open>bw_id x = worker\<close> x inv have "y = x" by (auto simp: worker_free_def slot_inv_def dest: distinct_keyD)
        ultimately show False using False by simp
      qed
      with False wx ok sums show ?thesis unfolding worker_covers_def by (auto intro: order.trans)
    qed
  qed
  moreover have "map pa_id (gd_accounts u) = map pa_id (gd_accounts t)" "map bw_id (gd_workers u) = map bw_id (gd_workers t)"
    unfolding accounts workers by (rule map_update_where, simp)+
  moreover have "map job_id (gd_jobs u) = map job_id (gd_jobs t)" using jobs by (auto intro!: map_update_where simp: route_job_def)
  ultimately show ?thesis using inv rows by (simp add: slot_inv_def)
qed

section \<open>Every session keeps the counters\<close>

lemma log_same_slots [simp]: "same_slots t (log_event i e t)" "same_slots t (log_events i es t)"
  by (simp_all add: same_slots_def log_event_def log_events_def)

lemma accounts_same_slots [simp]: "same_slots t (set_account_credits a c t)" "same_slots t (flag_worker w t)"
  by (simp_all add: same_slots_def set_account_credits_def flag_worker_def update_where_def account_slot_def worker_slot_def
      split: option.splits)

lemma columns_same_slots:
  assumes "\<And>x. P x \<Longrightarrow> job_slot (f x) = job_slot x"
  shows "same_slots t (t\<lparr>gd_jobs := update_where P f (gd_jobs t)\<rparr>)"
  using assms by (simp add: same_slots_def update_where_def)

lemma update_job_same_slots:
  assumes "update_job P f t = Some u" and "\<And>x. P x \<Longrightarrow> job_slot (f x) = job_slot x"
  shows "same_slots t u"
  using assms columns_same_slots [of P f t] by (simp add: update_job_def split: if_splits)

lemma credit_same_slots: "credit_apply env i call event t = Inr u \<Longrightarrow> same_slots t u"
  by (auto simp: credit_apply_def Let_def same_slots_def log_event_def split: option.split_asm if_split_asm)

lemma release_here_slots:
  assumes inv: "slot_inv t" and r: "release_here env i success error clear t = Inr u"
  shows "slot_inv u"
proof -
  from r obtain v where "release_job_in_session (gx_now env) t t i success error clear = Inr (v, u)"
    by (auto simp: release_here_def split: sum.split_asm)
  with inv show ?thesis by (rule release_slot_inv) (use inv in \<open>auto simp: slot_inv_def dest: distinct_keyD\<close>)
qed

lemmas slot_step = same_slots_inv [rotated]

lemmas slot_columns = job_slot_def unclaim_def

lemma claim_slots: "slot_inv t \<Longrightarrow> claim_job env token event C t i = Some u \<Longrightarrow> slot_inv u"
  unfolding claim_job_def
  by (erule update_caseE, simp, elim same_slots_inv, drule update_job_same_slots)
    (auto simp: slot_columns same_slots_def log_event_def)

lemma create_slots:
  assumes inv: "slot_inv t" and fresh: "job_id facts \<notin> job_id ` set (gd_jobs t)"
  shows "slot_inv (insert_job facts t)"
proof -
  have j: "job_id (new_job facts) = job_id facts" "gj_worker (new_job facts) = None"
    by (simp_all add: new_job_def generation_job.defs gateway_job.defs)
  then have none: "holds_on k a (new_job facts) = 0" "held_by w a (new_job facts) = 0" for k a w
    by (simp_all add: holds_on_def held_by_def)
  show ?thesis using inv fresh j(1)
    by (auto simp: insert_job_def log_event_def slot_inv_def account_covers_def worker_covers_def none)
qed

lemma record_slots:
  assumes inv: "slot_inv t" and r: "record_account env s t i token account worker project lost = Some u"
    and own: "\<forall>j \<in> set (gd_jobs t). job_id j = i \<longrightarrow> gj_account j = Some account \<and> gj_worker j = Some worker \<or> gj_released_at j \<noteq> None"
  shows "slot_inv u"
proof -
  from r obtain j where u: "gd_jobs u = update_where (\<lambda>x. job_id x = i) (select_row env j account worker project) (gd_jobs t)"
      "gd_accounts u = gd_accounts t" "gd_workers u = gd_workers t"
    by (auto simp: record_account_def log_event_def split: option.split_asm if_split_asm)
  have row: "holds_on k a (select_row env j account worker project x) = holds_on k a x"
    "held_by w a (select_row env j account worker project x) = held_by w a x" if "x \<in> set (gd_jobs t)" "job_id x = i" for k a w x
    using own that by (auto simp: holds_on_def held_by_def select_row_def)
  have "tally (holds_on k a) (gd_jobs u) = tally (holds_on k a) (gd_jobs t)" "tally (held_by w a) (gd_jobs u) = tally (held_by w a) (gd_jobs t)" for k a w
    unfolding u by (rule tally_update_where_same, erule (1) row)+
  moreover have "map job_id (gd_jobs u) = map job_id (gd_jobs t)" unfolding u by (rule map_update_where) (simp add: select_row_def)
  ultimately show ?thesis using inv by (simp add: slot_inv_def u account_covers_def worker_covers_def)
qed

lemma update_credit_slots:
  assumes inv: "slot_inv t" and upd: "update_job P f t = Some t1" and "\<And>x. P x \<Longrightarrow> job_slot (f x) = job_slot x"
    and "same_slots t1 t2" and "credit_apply env i call event t2 = Inr w" and "same_slots w u"
  shows "slot_inv u"
  using same_slots_inv [OF inv] update_job_same_slots [OF upd assms(3)] assms(4,6) credit_same_slots [OF assms(5)]
  by (blast intro: same_slots_trans)

lemma renew_slots: "slot_inv t \<Longrightarrow> renew_claim env token t i = Some u \<Longrightarrow> slot_inv u"
  unfolding renew_claim_def by (rule same_slots_inv, assumption, erule update_job_same_slots) (simp add: slot_columns)

lemma quarantine_slots:
  assumes inv: "slot_inv t" and q: "quarantine_claim env t i = Inr (v, u)"
  shows "slot_inv u"
  using q unfolding quarantine_claim_def
proof (elim update_caseE res_bind_InrE, goal_cases)
  case 1
  then show ?case using inv by simp
next
  case (2 t1 w)
  show ?case by (rule update_credit_slots [OF inv 2(1) _ same_slots_refl 2(2)]) (use 2(3) in \<open>auto simp: slot_columns\<close>)
qed

lemma upload_slots:
  assumes inv: "slot_inv t" and b: "begin_asset_upload env refuses t i token = Inr u"
  shows "slot_inv u"
proof -
  let ?P = "\<lambda>j. at_boundary env i token j \<and> gj_provider_job j = None"
  let ?t = "t\<lparr>gd_jobs := update_where ?P send_job (gd_jobs t)\<rparr>"
  have same: "same_slots t ?t" by (rule columns_same_slots) (simp add: slot_columns send_job_def)
  from b obtain j where j: "row_where ?P (gd_jobs t) = Some j" "refuses j = None"
    unfolding begin_asset_upload_def Let_def by (auto split: option.split_asm)
  from b have "res_bind (if gj_submission j = NOT_SENT then credit_apply env i RecordBoundary None ?t else Inr t)
      (\<lambda>t'. Inr (log_event i ''ASSET_UPLOAD_SUBMISSION_STARTED'' t')) = Inr u"
    unfolding begin_asset_upload_def Let_def j option.case .
  then obtain w where w: "(if gj_submission j = NOT_SENT then credit_apply env i RecordBoundary None ?t else Inr t) = Inr w"
      and u: "same_slots w u"
    unfolding res_bind_Inr_iff by auto
  from w have "same_slots t w" using same credit_same_slots by (auto split: if_split_asm intro: same_slots_trans)
  with u show ?thesis using same_slots_inv [OF inv] by (blast intro: same_slots_trans)
qed

lemma send_slots:
  assumes inv: "slot_inv t" and b: "begin_provider_submission env refuses offered t i token = Inr (v, u)"
  shows "slot_inv u"
proof (cases v)
  case False
  with b inv show ?thesis unfolding begin_provider_submission_def by (auto simp: res_simps split: option.splits)
next
  case True
  with b obtain t1 w where upd: "update_job (\<lambda>j. at_boundary env i token j \<and> offered j) send_job t = Some t1"
      and call: "credit_apply env i RecordBoundary None (t1\<lparr>gd_sent := (i, token) # gd_sent t1\<rparr>) = Inr w" and u: "same_slots w u"
    unfolding begin_provider_submission_def by (auto simp: res_simps split: option.splits)
  show ?thesis by (rule update_credit_slots [OF inv upd _ _ call u]) (simp_all add: slot_columns send_job_def same_slots_def)
qed

lemma log_slots: "slot_inv t \<Longrightarrow> slot_inv (log_event i e t)" "slot_inv t \<Longrightarrow> slot_inv (log_events i es t)"
  by (auto intro: same_slots_inv)

lemma confirm_slots:
  assumes inv: "slot_inv t" and c: "confirm_submission env t i token account worker project answer = Inr u"
  shows "slot_inv u"
  using c unfolding confirm_submission_def
proof (elim update_caseE res_bind_InrE, goal_cases)
  case 1
  then show ?case using inv by (auto split: option.splits if_splits intro: log_slots)
next
  case (2 t1 w)
  show ?case
    by (rule update_credit_slots [OF inv 2(1) _ accounts_same_slots(1) 2(2)]) (use 2(3) in \<open>auto simp: slot_columns\<close>)
qed

lemma running_slots: "slot_inv t \<Longrightarrow> poll_running env t i token pj flow = Some u \<Longrightarrow> slot_inv u"
  unfolding poll_running_def by (rule same_slots_inv, assumption, erule update_job_same_slots) (simp add: slot_columns)

lemma poll_cancelled_slots:
  assumes inv: "slot_inv t" and p: "poll_cancelled env t i token pj flow = Inr (v, u)"
  shows "slot_inv u"
  using p unfolding poll_cancelled_def
proof (elim update_caseE res_bind_InrE, goal_cases)
  case 1
  then show ?case using inv by simp
next
  case (2 t1 w x)
  have "slot_inv w"
    by (rule update_credit_slots [OF inv 2(1) _ same_slots_refl 2(2) same_slots_refl]) (simp add: slot_columns cancel_row_def)
  from release_here_slots [OF this 2(3)] 2(4) show ?case by (auto intro: log_slots)
qed

lemma cancel_confirmed_slots:
  assumes inv: "slot_inv t" and p: "cancel_confirmed env t i token pj = Inr (v, u)"
  shows "slot_inv u"
  using p unfolding cancel_confirmed_def
proof (elim update_caseE res_bind_InrE, goal_cases)
  case 1
  then show ?case using inv by simp
next
  case (2 t1 w x)
  have "slot_inv w"
    by (rule update_credit_slots [OF inv 2(1) _ same_slots_refl 2(2) same_slots_refl]) (simp add: slot_columns cancel_row_def)
  from release_here_slots [OF this 2(3)] 2(4) show ?case by (auto intro: log_slots)
qed

lemma complete_slots:
  assumes inv: "slot_inv t" and p: "finalize_completed env t i token pj flow asset = Inr (v, u)"
  shows "slot_inv u"
  using p unfolding finalize_completed_def
proof (elim update_caseE res_bind_InrE, goal_cases)
  case 1
  then show ?case using inv by simp
next
  case (2 t1 w x)
  have "slot_inv w"
    by (rule update_credit_slots [OF inv 2(1) _ same_slots_refl 2(2) same_slots_refl]) (simp add: slot_columns)
  from release_here_slots [OF log_slots(2) [OF this] 2(3)] 2(4) show ?case by simp
qed

lemma restore_slots:
  assumes inv: "slot_inv t" and p: "restore_cancel_tracking env t i token = Inr u"
  shows "slot_inv u"
  using p unfolding restore_cancel_tracking_def
proof (elim update_caseE res_bind_InrE, goal_cases)
  case 1
  then show ?case using inv by simp
next
  case (2 t1 w)
  show ?case by (rule update_credit_slots [OF inv 2(1) _ same_slots_refl 2(2)]) (use 2(3) in \<open>auto simp: slot_columns\<close>)
qed

lemma error_slots:
  assumes inv: "slot_inv t" and e: "schedule_error env s t i r = Inr (v, u)"
  shows "slot_inv u"
proof (cases "u = t")
  case True
  then show ?thesis using inv by simp
next
  case False
  then have "u \<noteq> t \<or> v" by simp
  from e this obtain j kept submitted decision t1 after t2 t3 release error clear where
    upd: "update_job (\<lambda>x. error_applies r j x \<and> kept) (close_attempt env r decision submitted) t = Some t1"
    and t2: "t2 = (if gj_status after = JOB_NEEDS_USER_ACTION then flag_worker (gj_worker after) t1 else t1)"
    and settle: "settle_error env r submitted after t2 = Inr t3"
    and fin: "if release then release_here env i (Some False) error clear (log_event i (er_code r) t3) = Inr u
      else u = log_event i (er_code r) t3"
    by (rule schedule_errorE)
  have "same_slots t t1" by (rule update_job_same_slots [OF upd]) (simp add: slot_columns close_attempt_def)
  then have "same_slots t t2" unfolding t2 by (auto intro: same_slots_trans)
  moreover have "same_slots t2 t3"
    using settle
  proof (cases rule: settle_errorE)
    case 1
    then show ?thesis by simp
  next
    case 2
    then show ?thesis by (rule credit_same_slots)
  next
    case (3 w)
    have "same_slots w t3" unfolding 3(4) by (rule columns_same_slots) (simp add: slot_columns)
    with credit_same_slots [OF 3(3)] show ?thesis by (rule same_slots_trans)
  qed
  ultimately have "slot_inv t3" using same_slots_inv [OF inv] same_slots_trans by blast
  then have "slot_inv (log_event i (er_code r) t3)" by (rule log_slots)
  with fin show ?thesis by (auto split: if_split_asm dest: release_here_slots)
qed

lemma retry_slots:
  assumes inv: "slot_inv t" and r: "retry_job env s t i = Inr u"
  shows "slot_inv u"
  using r
proof (cases rule: retry_jobE)
  case 1
  then show ?thesis using inv by simp
next
  case (2 j kept w)
  have "same_slots t w" by (rule update_job_same_slots [OF 2(2)]) (simp add: slot_columns)
  then show ?thesis unfolding 2(3) by (intro log_slots same_slots_inv [OF inv])
qed

lemma cancel_slots:
  assumes inv: "slot_inv t" and c: "cancel_local env s t i = Inr (v, u)"
  shows "slot_inv u"
  using c
proof (cases rule: cancel_localE)
  case 1
  then show ?thesis using inv by simp
next
  case 2
  then show ?thesis by (intro same_slots_inv [OF inv] credit_same_slots)
next
  case (3 t1 w x)
  have "slot_inv w" by (rule update_credit_slots [OF inv 3(1) _ same_slots_refl 3(2) same_slots_refl]) (simp add: slot_columns)
  from release_here_slots [OF this 3(3)] show ?thesis unfolding 3(4) by (rule log_slots)
qed

lemma late_slots:
  assumes inv: "slot_inv t" and l: "reconcile_late env found s t i = Inr u"
  shows "slot_inv u"
  using l
proof (cases rule: reconcile_lateE)
  case 1
  then show ?thesis using inv by simp
next
  case 2
  show ?thesis unfolding 2
    by (rule same_slots_inv [OF inv], rule same_slots_trans [OF columns_same_slots log_same_slots(1)]) (simp add: slot_columns)
next
  case (3 j pj t1 w)
  have "slot_inv w" by (rule update_credit_slots [OF inv 3(2) _ same_slots_refl 3(3) same_slots_refl]) (simp add: slot_columns)
  then show ?thesis unfolding 3(4) by (rule log_slots)
qed

lemma credits_slots:
  assumes inv: "slot_inv t" and c: "reconcile_credits env t i action = Inr u"
  shows "slot_inv u"
  using c
proof (rule reconcile_creditsE, elim disjE exE conjE, goal_cases)
  case (1 w)
  then show ?case using inv by (auto intro: same_slots_inv credit_same_slots)
next
  case (2 w t1)
  have "same_slots t t1" by (rule update_job_same_slots [OF 2(3)]) (simp add: slot_columns close_refunded_def)
  from release_here_slots [OF same_slots_inv [OF inv this] 2(4)] 2(1) show ?case by (auto intro: same_slots_inv credit_same_slots)
next
  case (3 w)
  have "same_slots t w" by (rule update_job_same_slots [OF 3(3)]) (simp add: slot_columns)
  then have "slot_inv w" by (rule same_slots_inv [OF inv])
  with 3(1) show ?case by (auto intro: same_slots_inv credit_same_slots)
qed

lemma resume_job_slots:
  assumes inv: "slot_inv t" and r: "resume_job env j t = Inr (n, u)"
  shows "slot_inv u"
  using r
proof (cases rule: resume_jobE)
  case 1
  then show ?thesis using inv by simp
next
  case (2 c t1 w)
  have "same_slots t t1" by (rule update_job_same_slots [OF 2(1)]) (simp add: slot_columns resume_row_def)
  then have "slot_inv t1" by (rule same_slots_inv [OF inv])
  with 2(2) have "slot_inv w" by (auto split: if_split_asm intro: same_slots_inv credit_same_slots release_here_slots)
  then show ?thesis unfolding 2(3) by (rule log_slots)
qed

lemma recover_rows_slots: "slot_inv t \<Longrightarrow> recover_rows env js t = Inr (n, u) \<Longrightarrow> slot_inv u"
proof (induction js arbitrary: t n)
  case (Cons j js)
  then show ?case by (auto simp: res_simps dest: resume_job_slots)
qed simp

text \<open>A release that read the job earlier: its kind has not changed.\<close>

lemma frame_kinds:
  assumes inv: "life_inv t" and frame: "life_frame s t"
    and j: "j \<in> set (gd_jobs s)" and k: "k \<in> set (gd_jobs t)" "job_id k = job_id j"
  shows "job_generation_type k = job_generation_type j"
proof -
  from frame j obtain l where l: "l \<in> set (gd_jobs t)" "row_keeps_life j l" by (auto simp: life_frame_def)
  from row_keeps_facts(1) [OF l(2)] k l(1) inv have "l = k" by (auto simp: life_inv_def dest: distinct_keyD)
  with row_keeps_facts(2) [OF l(2)] show ?thesis by simp
qed

lemma txn_slot_inv:
  assumes life: "life_inv t" "life_frame s t" and inv: "slot_inv t" and txn: "gateway_txn s t u"
  shows "slot_inv u"
  using txn
proof cases
  case g_create
  then show ?thesis using create_slots [OF inv] by simp
next
  case g_claim
  then show ?thesis using claim_slots [OF inv] by (simp add: claim_for_submission_def)
next
  case g_poll_claim
  then show ?thesis using claim_slots [OF inv] by (simp add: claim_for_polling_def)
next
  case g_cancel_claim
  then show ?thesis using claim_slots [OF inv] by (simp add: claim_for_cancellation_def)
next
  case (g_reserve rq now account worker)
  show ?thesis by (rule reserve_slot_inv [OF inv g_reserve(3) _ g_reserve(2)]) (use g_reserve(1) in blast)
next
  case (g_account i account worker env token project lost)
  show ?thesis by (rule record_slots [OF inv g_account(2,1)])
next
  case (g_release now i success error clear v)
  show ?thesis by (rule release_slot_inv [OF inv g_release]) (rule frame_kinds [OF life])
next
  case (g_fail env seen i message v)
  from fail_processing_is_error [OF this] show ?thesis using inv error_slots by blast
next
  case g_recover
  then show ?thesis unfolding recover_after_restart_def by (rule recover_rows_slots [OF inv])
next
  case g_renew
  then show ?thesis by (rule renew_slots [OF inv])
next
  case g_quarantine
  then show ?thesis by (rule quarantine_slots [OF inv])
next
  case g_upload
  then show ?thesis by (rule upload_slots [OF inv])
next
  case g_send
  then show ?thesis by (rule send_slots [OF inv])
next
  case g_confirm
  show ?thesis by (rule confirm_slots [OF inv g_confirm(2)])
next
  case g_running
  then show ?thesis by (rule running_slots [OF inv])
next
  case g_cancelled
  then show ?thesis by (rule poll_cancelled_slots [OF inv])
next
  case g_complete
  then show ?thesis by (rule complete_slots [OF inv])
next
  case g_error
  then show ?thesis by (rule error_slots [OF inv])
next
  case g_retry
  then show ?thesis by (rule retry_slots [OF inv])
next
  case g_cancel
  then show ?thesis by (rule cancel_slots [OF inv])
next
  case g_restore
  then show ?thesis by (rule restore_slots [OF inv])
next
  case g_cancel_done
  then show ?thesis by (rule cancel_confirmed_slots [OF inv])
next
  case g_late
  then show ?thesis by (rule late_slots [OF inv])
next
  case g_credits
  then show ?thesis by (rule credits_slots [OF inv])
qed

interpretation slots: optimistic_txn gateway_txn "\<lambda>t. life_inv t \<and> slot_inv t" life_frame
proof unfold_locales
  fix s t u assume "life_inv t \<and> slot_inv t" and "life_frame s t" and "gateway_txn s t u"
  then show "life_inv u \<and> slot_inv u" and "life_frame t u" using txn_life_safe txn_slot_inv by (auto simp: life_safe_def)
qed (rule life_frame_refl, rule life_frame_trans)

end
