(* ===== verification/Job_Properties.thy ===== *)
theory Job_Properties
  imports Job_Slots
begin

text \<open>
  What the gateway promises of its jobs over every interleaving of its sessions, and one race it loses.
\<close>

section \<open>A small gateway\<close>

definition gw_credits :: credit_service where
  "gw_credits = \<lparr>cs_entry = (\<lambda>_. Some RESERVED), cs_kept = (\<lambda>_. True), cs_apply = (\<lambda>_ _. Some True)\<rparr>"

definition gw_env :: "int \<Rightarrow> gateway_env" where
  "gw_env now = \<lparr>gx_now = now, gx_claim_lease = 60, gx_poll_interval = 5, gx_credits = Some gw_credits\<rparr>"

definition gw_facts :: generation_job where
  "gw_facts = \<lparr>job_id = ''J1'', job_project_id = ''P1'', job_provider = ''kling'', job_model = ''v2'', job_generation_type = ''video'',
     job_request_hash = ''h'', job_workspace_credit_required = True, job_quoted_credits = 5\<rparr>"

definition gw_account :: account_row where
  "gw_account = \<lparr>pa_id = ''A1'', pa_provider = ''kling'', pa_status = ACCOUNT_READY, pa_credits = 10, pa_tier = ''PRO'',
     pa_image_capacity = 1, pa_video_capacity = 2, pa_image_inflight = 0, pa_video_inflight = 0, pa_pending = 0,
     pa_credential = None, pa_worker = Some ''W1'', pa_models = [], pa_cooldown_until = None, pa_last_success = None,
     pa_last_error_at = None, pa_last_error = None, pa_successes = 0, pa_errors = 0\<rparr>"

definition gw_worker :: browser_worker where
  "gw_worker = \<lparr>bw_id = ''W1'', bw_provider = ''kling'', bw_account = Some ''A1'', bw_status = WORKER_READY,
     bw_capabilities = [''video''], bw_current = 0, bw_max = 4, bw_direct_api = False\<rparr>"

definition gw_empty :: gateway_db where
  "gw_empty = \<lparr>gd_jobs = [], gd_accounts = [gw_account], gd_workers = [gw_worker], gd_credentials = [], gd_bindings = [],
     gd_events = [], gd_credit_calls = [], gd_sent = [], gd_tokens = []\<rparr>"

definition gw_request :: "string \<Rightarrow> account_request" where
  "gw_request token = \<lparr>ar_provider = ''kling'', ar_capability = ''video'', ar_model = ''v2'', ar_project = Some ''P1'',
     ar_job = Some (''J1'', token), ar_account = None\<rparr>"

text \<open>The job is claimed and routed; the lease runs out; a second claim routes, records and sends it.\<close>

definition gw_created :: gateway_db where "gw_created = insert_job gw_facts gw_empty"
definition gw_claimed :: gateway_db where "gw_claimed = the (claim_for_submission (gw_env 0) ''T1'' gw_created ''J1'')"
definition gw_routed :: gateway_db where "gw_routed = the (try_reserve 1 gw_claimed (gw_request ''T1'') ''A1'' ''W1'')"
definition gw_again :: gateway_db where "gw_again = the (claim_for_submission (gw_env 70) ''T2'' gw_routed ''J1'')"
definition gw_rerouted :: gateway_db where "gw_rerouted = the (try_reserve 71 gw_again (gw_request ''T2'') ''A1'' ''W1'')"
definition gw_recorded :: gateway_db where
  "gw_recorded = the (record_account (gw_env 72) gw_rerouted gw_rerouted ''J1'' ''T2'' ''A1'' ''W1'' None False)"
definition gw_sent :: gateway_db where
  "gw_sent = snd (projr (begin_provider_submission (gw_env 73) (\<lambda>_. None) (\<lambda>_. True) gw_recorded ''J1'' ''T2''))"
definition gw_cancelled :: gateway_db where
  "gw_cancelled = snd (projr (cancel_local (gw_env 1) gw_created gw_created ''J1''))"

lemma gw_empty_inv: "life_inv gw_empty" "slot_inv gw_empty"
proof -
  have jobs: "gd_jobs gw_empty = []" "gd_sent gw_empty = []" "gd_credit_calls gw_empty = []" by (simp_all add: gw_empty_def)
  then show "life_inv gw_empty" by (simp add: life_inv_def sent_by_def)
  show "slot_inv gw_empty"
    by (simp add: slot_inv_def gw_empty_def gw_account_def gw_worker_def account_covers_def worker_covers_def)
qed

lemma gw_runs:
  "claim_for_submission (gw_env 0) ''T1'' gw_created ''J1'' = Some gw_claimed"
  "try_reserve 1 gw_claimed (gw_request ''T1'') ''A1'' ''W1'' = Some gw_routed"
  "claim_for_submission (gw_env 70) ''T2'' gw_routed ''J1'' = Some gw_again"
  "try_reserve 71 gw_again (gw_request ''T2'') ''A1'' ''W1'' = Some gw_rerouted"
  "record_account (gw_env 72) gw_rerouted gw_rerouted ''J1'' ''T2'' ''A1'' ''W1'' None False = Some gw_recorded"
proof -
  have run: "x \<noteq> None \<Longrightarrow> x = Some (the x)" for x :: "gateway_db option" by simp
  have "claim_for_submission (gw_env 0) ''T1'' gw_created ''J1'' \<noteq> None" by code_simp
  then show "claim_for_submission (gw_env 0) ''T1'' gw_created ''J1'' = Some gw_claimed" unfolding gw_claimed_def by (rule run)
  have "try_reserve 1 gw_claimed (gw_request ''T1'') ''A1'' ''W1'' \<noteq> None" by code_simp
  then show "try_reserve 1 gw_claimed (gw_request ''T1'') ''A1'' ''W1'' = Some gw_routed" unfolding gw_routed_def by (rule run)
  have "claim_for_submission (gw_env 70) ''T2'' gw_routed ''J1'' \<noteq> None" by code_simp
  then show "claim_for_submission (gw_env 70) ''T2'' gw_routed ''J1'' = Some gw_again" unfolding gw_again_def by (rule run)
  have "try_reserve 71 gw_again (gw_request ''T2'') ''A1'' ''W1'' \<noteq> None" by code_simp
  then show "try_reserve 71 gw_again (gw_request ''T2'') ''A1'' ''W1'' = Some gw_rerouted" unfolding gw_rerouted_def by (rule run)
  have "record_account (gw_env 72) gw_rerouted gw_rerouted ''J1'' ''T2'' ''A1'' ''W1'' None False \<noteq> None" by code_simp
  then show "record_account (gw_env 72) gw_rerouted gw_rerouted ''J1'' ''T2'' ''A1'' ''W1'' None False = Some gw_recorded"
    unfolding gw_recorded_def by (rule run)
qed

lemma gw_sent_run: "begin_provider_submission (gw_env 73) (\<lambda>_. None) (\<lambda>_. True) gw_recorded ''J1'' ''T2'' = Inr (True, gw_sent)"
proof -
  have "case begin_provider_submission (gw_env 73) (\<lambda>_. None) (\<lambda>_. True) gw_recorded ''J1'' ''T2'' of Inr (v, _) \<Rightarrow> v | Inl _ \<Rightarrow> False"
    by code_simp
  then show ?thesis unfolding gw_sent_def by (auto split: sum.split_asm)
qed

lemma gw_cancelled_run: "cancel_local (gw_env 1) gw_created gw_created ''J1'' = Inr (False, gw_cancelled)"
proof -
  have "case cancel_local (gw_env 1) gw_created gw_created ''J1'' of Inr (v, _) \<Rightarrow> \<not> v | Inl _ \<Rightarrow> False" by code_simp
  then show ?thesis unfolding gw_cancelled_def by (auto split: sum.split_asm)
qed

lemma gw_step: "interleaved gateway_txn s t \<Longrightarrow> gateway_txn t t u \<Longrightarrow> interleaved gateway_txn s u"
  by (rule interleaved.commit [where s = t and t = t]) (auto intro: interleaved.intros)

lemma gw_created_reached: "interleaved gateway_txn gw_empty gw_created"
  unfolding gw_created_def
  by (rule gw_step [OF interleaved.start g_create]) (simp add: gw_empty_def)

lemma gw_recorded_reached: "interleaved gateway_txn gw_empty gw_recorded"
proof -
  have new: "''T1'' \<notin> set (gd_tokens gw_created)" "''T2'' \<notin> set (gd_tokens gw_routed)" by code_simp+
  have kinds: "list_all (\<lambda>j. job_generation_type j = ''video'') (gd_jobs gw_claimed)"
    "list_all (\<lambda>j. job_generation_type j = ''video'') (gd_jobs gw_again)" by code_simp+
  have own: "list_all (\<lambda>j. gj_account j = Some ''A1'' \<and> gj_worker j = Some ''W1'') (gd_jobs gw_rerouted)" by code_simp
  have cap: "ar_capability (gw_request token) = ''video''" for token by (simp add: gw_request_def)
  note r = gw_step [OF gw_created_reached g_claim [OF new(1) gw_runs(1)]]
  note r = gw_step [OF r g_reserve [OF _ _ gw_runs(2)]]
  have "interleaved gateway_txn gw_empty gw_routed" using kinds(1) by (intro r) (auto simp: cap list_all_iff)
  note r = gw_step [OF this g_claim [OF new(2) gw_runs(3)]]
  note r = gw_step [OF r g_reserve [OF _ _ gw_runs(4)]]
  have "interleaved gateway_txn gw_empty gw_rerouted" using kinds(2) by (intro r) (auto simp: cap list_all_iff)
  note r = gw_step [OF this g_account [OF _ gw_runs(5)]]
  show ?thesis using own by (intro r) (auto simp: list_all_iff)
qed

lemma gw_sent_reached: "interleaved gateway_txn gw_empty gw_sent"
  by (rule gw_step [OF gw_recorded_reached g_send [OF gw_sent_run]])

lemma gw_cancelled_reached: "interleaved gateway_txn gw_empty gw_cancelled"
  by (rule gw_step [OF gw_created_reached g_cancel [OF gw_cancelled_run]])

section \<open>A job is sent once and ends once\<close>

lemma claim_job_row:
  assumes "claim_job env token event C t i = Some u"
  shows "\<exists>x \<in> set (gd_jobs t). job_id x = i \<and> C x"
proof -
  let ?f = "\<lambda>j. j\<lparr>gj_status := JOB_RESERVED, gj_claim := Some token, gj_claim_expires := Some (gx_now env + gx_claim_lease env)\<rparr>"
  from assms obtain v where "update_job (\<lambda>j. job_id j = i \<and> C j) ?f t = Some v"
    unfolding claim_job_def by (cases "update_job (\<lambda>j. job_id j = i \<and> C j) ?f t") simp_all
  then show ?thesis by (rule update_jobE) blast
qed



text \<open>
  A job that has completed, failed or was cancelled keeps its status and its result whatever runs
  later, and nobody claims it again. A refund by the gateway belongs to a failed or cancelled job that was
  never sent, a settlement to a completed one, and no job gets both.
\<close>

theorem ended_job_is_final:
  assumes run: "interleaved gateway_txn s t" and inv: "life_inv s" and j: "j \<in> set (gd_jobs s)" "finished j"
  shows "\<exists>k \<in> set (gd_jobs t). job_id k = job_id j \<and> gj_status k = gj_status j \<and> gj_output k = gj_output j \<and>
    claim_for_submission env token t (job_id j) = None \<and> claim_for_polling env token t (job_id j) = None \<and>
    claim_for_cancellation env token t (job_id j) = None \<and>
    ((job_id j, RefundGeneration) \<in> set (gd_credit_calls t) \<longrightarrow>
       gj_status j \<noteq> JOB_COMPLETED \<and> sent_by t (job_id j) = {} \<and> (job_id j, SettleGeneration) \<notin> set (gd_credit_calls t)) \<and>
    ((job_id j, SettleGeneration) \<in> set (gd_credit_calls t) \<longrightarrow> gj_status j = JOB_COMPLETED)"
proof -
  have t: "life_inv t" "life_frame s t" using jobs.execution [OF run inv] by auto
  from t(2) j(1) obtain k where k: "k \<in> set (gd_jobs t)" "row_keeps_life j k" by (auto simp: life_frame_def)
  have same: "job_id k = job_id j" "gj_status k = gj_status j" "gj_output k = gj_output j" "finished k"
    using k(2) j(2) row_keeps_facts(1) [OF k(2)] finished_keeps [OF k(2) j(2)] by (simp_all add: row_keeps_life_def)
  have only: "x = k" if "x \<in> set (gd_jobs t)" "job_id x = job_id j" for x
    using that k(1) same(1) t(1) by (auto simp: life_inv_def dest: distinct_keyD)
  have none: "claim_job env token event C t (job_id j) = None" if "\<And>x. C x \<Longrightarrow> \<not> finished x" for event C
  proof (cases "claim_job env token event C t (job_id j)")
    case (Some u)
    from claim_job_row [OF this] that obtain x where "x \<in> set (gd_jobs t)" "job_id x = job_id j" "\<not> finished x" by blast
    with only same(4) show ?thesis by blast
  qed
  have "history_ok t k" using t(1) k(1) by (simp add: life_inv_def)
  moreover have "claim_for_submission env token t (job_id j) = None" "claim_for_polling env token t (job_id j) = None"
    "claim_for_cancellation env token t (job_id j) = None"
    unfolding claim_for_submission_def claim_for_polling_def claim_for_cancellation_def
    by (rule none, auto simp: finished_def stale_reservation_def)+
  ultimately show ?thesis using k(1) same by (intro bexI [of _ k]) (auto simp: history_ok_def)
qed

lemma ended_job_is_final_witness:
  "\<exists>k \<in> set (gd_jobs gw_cancelled). job_id k = ''J1'' \<and> gj_status k = JOB_CANCELLED \<and>
     (''J1'', RefundGeneration) \<in> set (gd_credit_calls gw_cancelled) \<and> sent_by gw_cancelled ''J1'' = {} \<and>
     claim_for_submission (gw_env 9) ''T9'' gw_cancelled ''J1'' = None"
proof -
  have inv: "life_inv gw_cancelled" using gw_cancelled_reached gw_empty_inv(1) by (rule jobs.execution_inv)
  have "list_ex (\<lambda>j. job_id j = ''J1'' \<and> gj_status j = JOB_CANCELLED) (gd_jobs gw_cancelled)" by code_simp
  then obtain j where j: "j \<in> set (gd_jobs gw_cancelled)" "job_id j = ''J1''" "gj_status j = JOB_CANCELLED" by (auto simp: list_ex_iff)
  have "(''J1'', RefundGeneration) \<in> set (gd_credit_calls gw_cancelled)" by code_simp
  with ended_job_is_final [OF interleaved.start inv j(1), of "gw_env 9" "''T9''"] j(2,3) show ?thesis
    by (auto simp: finished_def)
qed

section \<open>The choice of an account\<close>

lemma reserve_firstE:
  assumes "reserve_first now t rq cs = Inr (c, u)"
  obtains pre post where "cs = pre @ c # post" "\<forall>(a, w) \<in> set pre. try_reserve now t rq a w = None" "try_reserve now t rq (fst c) (snd c) = Some u"
  using assms
proof (induction cs arbitrary: thesis)
  case (Cons x cs)
  obtain a w where x: "x = (a, w)" by fastforce
  show ?case
  proof (cases "try_reserve now t rq a w")
    case None
    with Cons.prems(2) x have "reserve_first now t rq cs = Inr (c, u)" by simp
    then obtain pre post where "cs = pre @ c # post" "\<forall>(a, w) \<in> set pre. try_reserve now t rq a w = None"
        "try_reserve now t rq (fst c) (snd c) = Some u" using Cons.IH by blast
    with None x show ?thesis by (intro Cons.prems(1) [of "x # pre" post]) auto
  next
    case (Some v)
    with Cons.prems(2) x have "c = x" "u = v" by auto
    with Some x show ?thesis by (intro Cons.prems(1) [of "[]" cs]) auto
  qed
qed simp

text \<open>
  A reservation goes to the account with the least score among those that were eligible when they were read,
  except those that the reservation itself refused; the state it leaves is that reservation's.
\<close>

theorem selected_account_is_the_least_loaded:
  assumes "select_account now s t rq = Inr ((account, worker), u)"
  obtains a pre post where "a \<in> set (gd_accounts s)" "account_eligible now s rq a" "pa_id a = account"
    "sort_key (account_score (ar_capability rq)) (filter (account_eligible now s rq) (gd_accounts s)) = pre @ a # post"
    "\<forall>b \<in> set pre. try_reserve now t rq (pa_id b) (case worker_of s b of None \<Rightarrow> '''' | Some w \<Rightarrow> bw_id w) = None"
    "\<forall>b \<in> set post. account_score (ar_capability rq) a \<le> account_score (ar_capability rq) b"
    "try_reserve now t rq account worker = Some u"
proof -
  let ?e = "sort_key (account_score (ar_capability rq)) (filter (account_eligible now s rq) (gd_accounts s))"
  let ?p = "\<lambda>a. (pa_id a, case worker_of s a of None \<Rightarrow> '''' | Some w \<Rightarrow> bw_id w)"
  from assms have "reserve_first now t rq (map ?p ?e) = Inr ((account, worker), u)"
    by (auto simp: select_account_def select_candidates_def res_simps Let_def split: if_split_asm)
  then obtain pre post where split: "map ?p ?e = pre @ (account, worker) # post" and pre: "\<forall>(a, w) \<in> set pre. try_reserve now t rq a w = None"
      and taken: "try_reserve now t rq account worker = Some u"
    by (rule reserve_firstE) simp
  from split obtain es a fs where e: "?e = es @ a # fs" "map ?p es = pre" "?p a = (account, worker)"
    by (auto simp: map_eq_append_conv)
  have mem: "a \<in> set ?e" unfolding e(1) by simp
  have "sorted (map (account_score (ar_capability rq)) ?e)" by (rule sorted_sort_key)
  then have "\<forall>b \<in> set fs. account_score (ar_capability rq) a \<le> account_score (ar_capability rq) b"
    unfolding e(1) by (simp add: sorted_append)
  moreover from mem have "a \<in> set (gd_accounts s)" "account_eligible now s rq a" by simp_all
  moreover have "\<forall>b \<in> set es. try_reserve now t rq (pa_id b) (case worker_of s b of None \<Rightarrow> [] | Some w \<Rightarrow> bw_id w) = None"
    using pre e(2) by auto
  ultimately show thesis using e(1,3) taken by (intro that [of a es fs]) simp_all
qed

section \<open>Slots\<close>

definition slot_holders :: "gateway_db \<Rightarrow> string \<Rightarrow> string \<Rightarrow> gateway_job list" where
  "slot_holders t kind account = filter (\<lambda>j. job_generation_type j = kind \<and> gj_account j = Some account \<and> gj_worker j \<noteq> None \<and>
     gj_released_at j = None) (gd_jobs t)"






section \<open>A claim that comes too late\<close>

lemma filter_update_where:
  assumes "\<And>x. x \<in> set xs \<Longrightarrow> Q x \<Longrightarrow> \<not> P (f x)" and "\<And>x. x \<in> set xs \<Longrightarrow> P x \<Longrightarrow> Q x \<longleftrightarrow> R x"
  shows "filter P (update_where Q f xs) = filter (\<lambda>x. \<not> R x) (filter P xs)"
  using assms by (induction xs) auto

text \<open>
  C34. A submitter whose lease ran out finds its claim lost when it writes down its account, and cleans up
  by the job's id alone: it gives back the slot of the claim that followed it. When that claim's paid call
  is answered, the row no longer names its account, so the provider's id is not recorded and the answer is
  only logged as late.
\<close>

theorem lost_claim_releases_its_successor:
  assumes ids: "distinct (map job_id (gd_jobs t))" and j: "j \<in> set (gd_jobs t)"
    and held: "gj_account j = Some account" "gj_worker j = Some worker" "gj_released_at j = None" "account \<noteq> ''''" "worker \<noteq> ''''"
    and kind: "job_generation_type j = ''image'' \<or> job_generation_type j = ''video''"
    and successor: "gj_status j = JOB_RESERVED" "gj_claim j = Some token" "gj_submission j = SENT_UNCONFIRMED" "gj_provider_job j = None"
    and claim: "stale \<noteq> token"
  shows "record_account env t t (job_id j) stale a w project lost = None \<and>
    (\<exists>u. release_job_in_session now t t (job_id j) None (Some ''claim lost'') True = Inr (True, u) \<and>
       slot_holders u kind account = filter (\<lambda>k. job_id k \<noteq> job_id j) (slot_holders t kind account) \<and>
       confirm_submission later_env u (job_id j) token account worker flow answer =
         Inr (log_event (job_id j) ''LATE_PROVIDER_RESPONSE_AFTER_TERMINAL'' u))"
proof -
  let ?i = "job_id j"
  let ?P = "holds_slot ?i account worker"
  have row: "job_by_id t ?i = Some j" unfolding job_by_id_def by (rule row_where_key [OF ids j])
  have only: "k = j" if "k \<in> set (gd_jobs t)" "job_id k = ?i" for k using ids j that by (auto dest: distinct_keyD)
  have one: "affected ?P (gd_jobs t) = 1"
  proof -
    have "affected ?P (gd_jobs t) \<le> 1" by (rule affected_key_le_one [OF ids]) (simp add: holds_slot_def)
    moreover have "affected ?P (gd_jobs t) \<noteq> 0" using j held by (auto simp: affected_def filter_empty_conv holds_slot_def)
    ultimately show ?thesis by simp
  qed
  let ?u = "give_back account worker (job_generation_type j) now None (Some ''claim lost'')
    (t\<lparr>gd_jobs := update_where ?P (unroute_job now True) (gd_jobs t)\<rparr>)"
  have "release_job_in_session now t t ?i None (Some ''claim lost'') True = Inr (True, ?u)"
    unfolding release_job_in_session_def row using held kind one by (auto simp: py_falsy_def Let_def)
  moreover have jobs: "gd_jobs ?u = update_where ?P (unroute_job now True) (gd_jobs t)" by (simp add: give_back_def)
  moreover have "slot_holders ?u kind account = filter (\<lambda>k. job_id k \<noteq> ?i) (slot_holders t kind account)"
    unfolding slot_holders_def jobs
    by (rule filter_update_where [where R = "\<lambda>k. job_id k = ?i"])
      (use only held in \<open>auto simp: unroute_job_def holds_slot_def\<close>)
  moreover have "confirm_submission later_env ?u ?i token account worker flow answer =
      Inr (log_event ?i ''LATE_PROVIDER_RESPONSE_AFTER_TERMINAL'' ?u)"
  proof -
    have away: "gj_account k \<noteq> Some account" if "k \<in> set (gd_jobs ?u)" "job_id k = ?i" for k
    proof -
      from that(1) obtain x where x: "x \<in> set (gd_jobs t)" "k = (if ?P x then unroute_job now True x else x)"
        unfolding jobs by (auto simp: set_update_where)
      with that(2) have "job_id x = ?i" by (simp add: unroute_job_def split: if_split_asm)
      with only x(1) have "x = j" by blast
      with x(2) held show ?thesis by (simp add: holds_slot_def unroute_job_def)
    qed
    have "map job_id (gd_jobs ?u) = map job_id (gd_jobs t)" unfolding jobs by (rule map_update_where) (simp add: unroute_job_def)
    with ids have ids': "distinct (map job_id (gd_jobs ?u))" by simp
    have mem: "unroute_job now True j \<in> set (gd_jobs ?u)" unfolding jobs using j held by (intro update_where_hit) (simp_all add: holds_slot_def)
    have key: "job_id (unroute_job now True j) = ?i" "gj_provider_job (unroute_job now True j) = None"
      using successor by (simp_all add: unroute_job_def)
    have by_id: "job_by_id ?u ?i = Some (unroute_job now True j)"
      unfolding job_by_id_def using row_where_key [OF ids' mem] key(1) by simp
    have gone: "update_job P f ?u = None" if "\<And>k. P k \<Longrightarrow> job_id k = ?i \<and> gj_account k = Some account" for P f
    proof (rule ccontr)
      assume "update_job P f ?u \<noteq> None"
      then obtain v where "update_job P f ?u = Some v" by blast
      then obtain k where "k \<in> set (gd_jobs ?u)" "P k" by (rule update_jobE)
      with that [of k] away [of k] show False by blast
    qed
    show ?thesis unfolding confirm_submission_def by (subst gone) (simp_all add: by_id key)
  qed
  ultimately show ?thesis using row successor claim by (auto simp: record_account_def)
qed

lemma lost_claim_releases_its_successor_witness:
  "interleaved gateway_txn gw_empty gw_sent \<and>
   (\<exists>u. release_job_in_session 75 gw_sent gw_sent ''J1'' None (Some ''claim lost'') True = Inr (True, u) \<and>
     slot_holders u ''video'' ''A1'' = [] \<and>
     confirm_submission (gw_env 80) u ''J1'' ''T2'' ''A1'' ''W1'' None \<lparr>pv_job = ''K1'', pv_synchronous = False, pv_credits = None\<rparr> =
       Inr (log_event ''J1'' ''LATE_PROVIDER_RESPONSE_AFTER_TERMINAL'' u))"
proof -
  have "list_all (\<lambda>j. job_id j = ''J1'' \<and> gj_account j = Some ''A1'' \<and> gj_worker j = Some ''W1'' \<and> gj_released_at j = None \<and>
      job_generation_type j = ''video'' \<and> gj_status j = JOB_RESERVED \<and> gj_claim j = Some ''T2'' \<and> gj_submission j = SENT_UNCONFIRMED \<and>
      gj_provider_job j = None) (gd_jobs gw_sent) \<and> length (gd_jobs gw_sent) = 1" by code_simp
  then obtain j where one: "gd_jobs gw_sent = [j]" and j: "job_id j = ''J1''" "gj_account j = Some ''A1''" "gj_worker j = Some ''W1''"
      "gj_released_at j = None" "job_generation_type j = ''video''" "gj_status j = JOB_RESERVED" "gj_claim j = Some ''T2''"
      "gj_submission j = SENT_UNCONFIRMED" "gj_provider_job j = None"
    by (auto simp: length_Suc_conv)
  have mem: "j \<in> set (gd_jobs gw_sent)" and ids: "distinct (map job_id (gd_jobs gw_sent))" by (simp_all add: one)
  have none: "filter (\<lambda>k. job_id k \<noteq> ''J1'') (slot_holders gw_sent ''video'' ''A1'') = []" using j(1) by (simp add: slot_holders_def one)
  show ?thesis
    using lost_claim_releases_its_successor [OF ids mem j(2,3,4) _ _ disjI2 [OF j(5)] j(6,7,8,9), of "''T1''" "gw_env 0" "''A1''" "''W1''"
      None False 75 "''video''" "gw_env 80" None "\<lparr>pv_job = ''K1'', pv_synchronous = False, pv_credits = None\<rparr>"] gw_sent_reached
    by (simp add: none j(1))
qed

end
