(* ===== verification/Spec2Isabelle.thy ===== *)
theory Spec2Isabelle
  imports Platform_Prelude Credit_Properties Storage_Properties Budget_Claims Workflow_Properties
    Workflow_Run_Properties Execution_Duration Policy_Properties Retry_Engine
    Production_Properties Canary_Properties Fence_Properties Job_Properties
begin

text \<open>
  A verification library for the video production platform under \<^verbatim>\<open>src/\<close>.

  \<^bold>\<open>The program.\<close> A user's project is turned into shots; a shot is generated by an external
  video provider. Before a job is submitted the platform decides how to generate it (policy,
  capabilities, length), reserves the user's credits, reserves the provider's budget and, for media,
  the workspace's storage; afterwards it settles or gives back what it held, evaluates the result and
  may retry. A second way in is the canvas: a graph of typed nodes the user draws, which is validated
  when saved and executed node by node. The library models the parts that carry this logic.

  \<^bold>\<open>The theories.\<close>

  \<^item> \<^verbatim>\<open>Platform_Prelude\<close>: results with errors (\<open>res_bind\<close>), tables as lists of
    rows (\<open>update_where\<close>, \<open>affected\<close>, \<open>row_where\<close>), Python text functions, and the two locales
    \<open>optimistic_txn\<close> and \<open>conserving_txn\<close> for transactions that read one state and write a
    later one. \<^verbatim>\<open>Platform_Domain\<close> has the shared columns of
    \<^verbatim>\<open>packages/domain/production_domain/models.py\<close> and JSON values.
    \<^verbatim>\<open>Python_Float\<close> rounds rationals to doubles and has \<^verbatim>\<open>round\<close> and
    \<^verbatim>\<open>sum\<close> of Python 3.12.
  \<^item> \<^verbatim>\<open>Credit_Ledger\<close>: \<^verbatim>\<open>core/entitlements/entitlement_core/credits.py\<close>.
    The wallet, its ledger entries and audit events as one record of tables; every operation of the
    class takes the state it read and the state it writes. \<^verbatim>\<open>Credit_Refinement\<close> relates it
    to an abstract account; \<^verbatim>\<open>Credit_Properties\<close> shows over every interleaving of
    operations that credits are conserved, that the audit log explains the wallet, that a decided
    reservation is final and that constraints hold, and the behaviour of a reservation on each branch.
  \<^item> \<^verbatim>\<open>Storage_Quota\<close>, \<^verbatim>\<open>Storage_Properties\<close>:
    \<^verbatim>\<open>services/media-service/media_service/quota.py\<close>. Counters against the sum of open
    holds, finality, replay, and the round trip of a reservation and its release.
  \<^item> \<^verbatim>\<open>Provider_Budget\<close>, \<^verbatim>\<open>Budget_Refinement\<close>,
    \<^verbatim>\<open>Budget_Properties\<close>, \<^verbatim>\<open>Budget_Claims\<close>: the interface of
    \<^verbatim>\<open>packages/provider-sdk/provider_sdk/budget.py\<close> as the locale
    \<open>budget_repository\<close>, interpreted on its in-memory implementation and on the database one
    (\<^verbatim>\<open>core/provider-budget/provider_budget_core/repository.py\<close>). The database refines the
    memory on configured providers (on others the two raise different exceptions); spend is bounded;
    reconciliation decides once.
  \<^item> \<^verbatim>\<open>Production_Budget\<close>, \<^verbatim>\<open>Production_Ledgers\<close>,
    \<^verbatim>\<open>Production_Safety\<close>, \<^verbatim>\<open>Production_Properties\<close>:
    \<^verbatim>\<open>core/entitlements/entitlement_core/production_budget.py\<close>, the platform's own money:
    an authorization per live call under the ledgers of the platform's and the provider's day. The
    ledgers are the sums of their authorizations and stop at the operator's limits, whatever policies
    the operator changes between; a boundary is prepared once, a settlement is final.
  \<^item> \<^verbatim>\<open>Live_Canary\<close>, \<^verbatim>\<open>Canary_Safety\<close>,
    \<^verbatim>\<open>Canary_Properties\<close>: \<^verbatim>\<open>core/entitlements/entitlement_core/canary.py\<close>,
    the operator's permits. Counters against usages, the hard stop, one usage for an operation, and two
    ways in which a permit stays active that can grant nothing.
  \<^item> \<^verbatim>\<open>Generation_Fence\<close>, \<^verbatim>\<open>Fence_Safety\<close>,
    \<^verbatim>\<open>Fence_Properties\<close>: how \<^verbatim>\<open>services/generation-gateway/generation_gateway/gateway.py\<close>
    composes the two around the paid call of a job. A step of the gateway commits call by call, so it
    returns its state also when it raises; every step is shown to be an execution of the two services,
    a fenced job is not sent again, a refused one holds nothing, and one interleaving passes twice.
  \<^item> \<^verbatim>\<open>Account_Scheduler\<close>: \<^verbatim>\<open>scheduler.py\<close> of the gateway, the capacity of
    provider accounts and workers: which accounts are eligible and in which order, the conditional
    updates that reserve, the release that only the owner of a reservation makes.
    \<^verbatim>\<open>Generation_Jobs\<close>, \<^verbatim>\<open>Generation_Recovery\<close>: the life of a job in
    \<^verbatim>\<open>gateway.py\<close> and \<^verbatim>\<open>retry.py\<close>, every session as a function: claims with a lease,
    the paid boundary, confirmation, polling, completion, errors, retry, cancellation, the operator's
    findings, recovery. The fields \<open>gd_credit_calls\<close>, \<open>gd_sent\<close> and \<open>gd_tokens\<close> are history.
    \<^verbatim>\<open>Job_Invariant\<close> has the step relation \<open>gateway_txn\<close> and what a session may do to
    a job, \<^verbatim>\<open>Job_Safety\<close> proves it of each session (an interpretation of
    \<open>optimistic_txn\<close>), \<^verbatim>\<open>Job_Slots\<close> the counters against the jobs that hold a slot, over
    the same steps. \<^verbatim>\<open>Job_Properties\<close>: a job is sent by one claim, an ended job is final,
    the least loaded free account is taken, slots cover their jobs; and a claim that comes too late
    gives back the slot of the one that followed it.
  \<^item> \<^verbatim>\<open>Workflow_Catalog\<close>, \<^verbatim>\<open>Workflow_Graph\<close>,
    \<^verbatim>\<open>Workflow_Parse\<close>: \<^verbatim>\<open>core/workflows/workflow_core/catalog.py\<close> and
    \<^verbatim>\<open>graph.py\<close>. A document is a JSON value; parsing returns a graph or the error the code
    raises. \<^verbatim>\<open>Workflow_Order\<close> shows what the two graph algorithms compute,
    \<^verbatim>\<open>Workflow_Sound\<close> that parsing establishes \<open>graph_ok\<close>,
    \<^verbatim>\<open>Workflow_Roundtrip\<close> that a stored graph is read back, and
    \<^verbatim>\<open>Workflow_Properties\<close> states the contract, with one parameter that does not stay
    emptied.
  \<^item> \<^verbatim>\<open>Workflow_Runs\<close>, \<^verbatim>\<open>Workflow_Execution\<close>:
    \<^verbatim>\<open>core/workflows/workflow_core/engine.py\<close> and \<^verbatim>\<open>service.py\<close>, the
    state machine that executes a canvas. The tables are one record; every session of the code is a
    function on it, and a visit of a worker (\<open>advance_due\<close>) composes them as the code does, with
    the message or the job request each node sends. \<^verbatim>\<open>Workflow_Run_Safety\<close> has the step
    relation \<open>canvas_txn\<close> with its invariant and frame (an interpretation of
    \<open>optimistic_txn\<close>), \<^verbatim>\<open>Workflow_Advance\<close> shows a visit to be such steps, and
    \<^verbatim>\<open>Workflow_Run_Properties\<close> states the contract: results are final, runs agree with
    their nodes, a generation starts once and is found again after a crash, a round never stalls, a
    stale save is refused, a cancelled run is over.
  \<^item> \<^verbatim>\<open>Execution_Duration\<close>: \<^verbatim>\<open>core/model-registry/model_registry_core/duration.py\<close>
    and the envelope from \<^verbatim>\<open>router.py\<close>. The plan is the least fitting length; whole seconds
    are always covered, in double arithmetic; two fractional requests are not.
  \<^item> \<^verbatim>\<open>Generation_Policy\<close>, \<^verbatim>\<open>Policy_Properties\<close>:
    \<^verbatim>\<open>core/generation-policy/generation_policy_core/engine.py\<close>. A decided policy has its
    inputs, and resolution picks the best scored capable provider; a degraded plan may lack inputs.
  \<^item> \<^verbatim>\<open>Retry_Engine\<close>: \<^verbatim>\<open>core/evaluation/evaluation_core/retry.py\<close>. Retries
    are bounded whatever the evaluations say.

  \<^bold>\<open>Conventions.\<close> A raise is \<open>Inl\<close> of an error of the component; a raise inside a
  transaction leaves no trace. Clocks, new ids and the environment are arguments. Row locks make an
  operation one step; where the code relies on a conditional update instead, the read and the write
  are separate states and the properties quantify over what happens in between. The texts of messages
  are templates with their values. All loops are recursive functions that terminate, so nothing runs
  on fuel (\<^verbatim>\<open>advance\<close> has the code's own bound of fifty rounds): the queue of the topological order shrinks with the open counts, the stack of the closures
  with the nodes not yet visited.

  \<^bold>\<open>Parameters.\<close> \<open>flen\<close>, the printed length of a float in the size of a document;
  \<open>digest\<close>, SHA-256 of a fingerprint payload; \<open>graph_hash\<close>, that of a document; \<open>chat\<close>
  and \<open>submit\<close>, a connection's answer to a model call and the submitter of generation jobs; \<open>model_dump\<close>, pydantic's JSON of a model
  profile; \<open>audit_id_of\<close> and \<open>request_hash\<close>, the digests of idempotency keys and requests; the
  model registry's lookup of a target. No property assumes anything of them. New ids are assumed new.

  \<^bold>\<open>Bounds.\<close> Characters are code points below 256. Floats are finite; the sums of the
  duration plan and of the routing score are assumed not to exceed the largest double. The claims on
  whole seconds hold up to a million seconds.

  \<^bold>\<open>Not modelled.\<close> Routes, providers, prompts and the services around external models are
  input and output, or text whose content has no contract to check. Of the gateway, idempotent creation
  with its timeline fence, sibling images, staged files and held synchronous results are left out; of the
  platform, admission and plan limits in front of the credit ledger (selections over the catalogue and
  prices), the ranking of the model router and the shot evaluator (weighted floating-point scores), and
  cost estimation (price tables). Their outcomes enter the model as arguments.
\<close>

end
